(* ===== verification/Prelude.thy ===== *)
theory Prelude
  imports Main "HOL-Library.Char_ord" "HOL-Library.List_Lexorder"
begin

text \<open>
  Shared vocabulary of the development: the operations of a database table as the
  SQL statements of the services use them, the JavaScript string functions, decimal
  and hexadecimal printing of integers, and the lemma collections.

  Conventions.  A JavaScript string is a list of characters (code units below 256).
  A \<open>Date\<close> or \<open>Date.now()\<close> value is an \<open>int\<close> of milliseconds.
  The clock, the random draws and the fresh identifiers of an operation are its
  arguments.  A table is the list of its rows in the order of insertion.
\<close>

section \<open>Names and collections\<close>

type_synonym time_ms = int
type_synonym uuid = string

named_theorems table_simps
named_theorems text_simps

datatype environment = Live | Test

definition env_str :: "environment \<Rightarrow> string" where
  "env_str e = (case e of Live \<Rightarrow> ''live'' | Test \<Rightarrow> ''test'')"

section \<open>Tables\<close>

text \<open>\<open>SELECT\<close>, \<open>UPDATE .. WHERE\<close> and \<open>UPDATE .. RETURNING\<close> over a list of rows.\<close>

definition select_rows :: "('r \<Rightarrow> bool) \<Rightarrow> 'r list \<Rightarrow> 'r list" where
  "select_rows P t = filter P t"

definition first_row :: "('r \<Rightarrow> bool) \<Rightarrow> 'r list \<Rightarrow> 'r option" where
  "first_row P t = List.find P t"

definition update_rows :: "('r \<Rightarrow> bool) \<Rightarrow> ('r \<Rightarrow> 'r) \<Rightarrow> 'r list \<Rightarrow> 'r list" where
  "update_rows P f t = map (\<lambda>r. if P r then f r else r) t"

definition returning :: "('r \<Rightarrow> bool) \<Rightarrow> ('r \<Rightarrow> 'r) \<Rightarrow> 'r list \<Rightarrow> 'r list" where
  "returning P f t = map f (filter P t)"

definition delete_rows :: "('r \<Rightarrow> bool) \<Rightarrow> 'r list \<Rightarrow> 'r list" where
  "delete_rows P t = filter (\<lambda>r. \<not> P r) t"

lemma first_row_Nil [simp]: "first_row P [] = None"
  by (simp add: first_row_def)

lemma first_row_Cons [simp]:
  "first_row P (r # t) = (if P r then Some r else first_row P t)"
  by (simp add: first_row_def)

lemma first_row_SomeD: "first_row P t = Some r \<Longrightarrow> r \<in> set t \<and> P r"
  by (induction t) (auto split: if_splits)

lemma first_row_append:
  "first_row P (t @ u) = (case first_row P t of None \<Rightarrow> first_row P u | Some r \<Rightarrow> Some r)"
  by (induction t) auto

lemma first_row_None_iff: "first_row P t = None \<longleftrightarrow> (\<forall>r \<in> set t. \<not> P r)"
  by (induction t) auto

lemma first_row_rev:
  "first_row P (rev t) = (if filter P t = [] then None else Some (last (filter P t)))"
  by (induction t rule: rev_induct) auto

lemma length_update_rows [simp]: "length (update_rows P f t) = length t"
  by (simp add: update_rows_def)

lemma update_rows_Nil [simp]: "update_rows P f [] = []"
  by (simp add: update_rows_def)

lemma update_rows_Cons [simp]:
  "update_rows P f (r # t) = (if P r then f r else r) # update_rows P f t"
  by (simp add: update_rows_def)

lemma update_rows_append [simp]:
  "update_rows P f (t @ u) = update_rows P f t @ update_rows P f u"
  by (simp add: update_rows_def)

lemma update_rows_none: "(\<And>r. r \<in> set t \<Longrightarrow> \<not> P r) \<Longrightarrow> update_rows P f t = t"
  by (induction t) auto

lemma set_update_rows: "set (update_rows P f t) = (\<lambda>r. if P r then f r else r) ` set t"
  by (simp add: update_rows_def)

lemma in_update_rowsE:
  assumes "r \<in> set (update_rows P f t)"
  obtains (kept) "r \<in> set t" "\<not> P r" | (changed) q where "q \<in> set t" "P q" "r = f q"
  using assms by (auto simp: set_update_rows split: if_splits)

lemma returning_eq_Nil_iff: "returning P f t = [] \<longleftrightarrow> (\<forall>r \<in> set t. \<not> P r)"
  by (auto simp: returning_def filter_empty_conv)

lemma returning_Cons [simp]:
  "returning P f (r # t) = (if P r then f r # returning P f t else returning P f t)"
  by (simp add: returning_def)

lemma returning_Nil [simp]: "returning P f [] = []"
  by (simp add: returning_def)

lemma first_row_update:
  "first_row Q t = Some r \<Longrightarrow> (\<And>x. Q (f x) = Q x) \<Longrightarrow> P r \<Longrightarrow>
    first_row Q (update_rows P f t) = Some (f r)"
  by (induction t) (auto split: if_splits)

lemma first_row_update_other:
  "first_row Q t = Some r \<Longrightarrow> (\<And>x. Q (f x) = Q x) \<Longrightarrow> \<not> P r \<Longrightarrow>
    first_row Q (update_rows P f t) = Some r"
  by (induction t) (auto split: if_splits)

lemma update_rows_preserves:
  assumes "\<And>r. r \<in> set t \<Longrightarrow> Q r" and "\<And>r. r \<in> set t \<Longrightarrow> P r \<Longrightarrow> Q r \<Longrightarrow> Q (f r)"
    and "r \<in> set (update_rows P f t)"
  shows "Q r"
  using assms(3) by (cases rule: in_update_rowsE) (use assms(1,2) in auto)

lemma map_update_rows: "(\<And>r. k (f r) = k r) \<Longrightarrow> map k (update_rows P f t) = map k t"
  by (induction t) auto

lemma filter_update_other:
  "(\<And>r. P r \<Longrightarrow> k r = a) \<Longrightarrow> (\<And>r. k (f r) = k r) \<Longrightarrow> b \<noteq> a \<Longrightarrow>
    filter (\<lambda>r. k r = b) (update_rows P f t) = filter (\<lambda>r. k r = b) t"
  by (induction t) auto

lemma returning_unique:
  assumes "distinct t" "d \<in> set t" "P d" "\<And>q. q \<in> set t \<Longrightarrow> P q \<Longrightarrow> q = d"
  shows "returning P f t = [f d]"
  using assms
proof (induction t)
  case (Cons q t)
  show ?case
  proof (cases "q = d")
    case True
    then have "d \<notin> set t" using Cons.prems(1) by simp
    then have "\<forall>p \<in> set t. \<not> P p" using Cons.prems(4) by (metis list.set_intros(2))
    then have "returning P f t = []" by (simp add: returning_eq_Nil_iff)
    then show ?thesis using True Cons.prems(3) by simp
  next
    case False
    then have "\<not> P q" using Cons.prems(4) [of q] by auto
    moreover have "returning P f t = [f d]"
    proof (rule Cons.IH)
      show "distinct t" "d \<in> set t" "P d" using Cons.prems(1-3) False by simp_all
      show "p = d" if "p \<in> set t" "P p" for p using Cons.prems(4) [OF _ that(2)] that(1) by simp
    qed
    ultimately show ?thesis by simp
  qed
qed simp

lemmas table_defs = select_rows_def update_rows_def returning_def delete_rows_def

section \<open>Rows with a key\<close>

text \<open>
  The interface between a table with a primary key and the statements that update it:
  no statement rewrites the key.  Its clients are the update statements of every
  component.
\<close>

locale keyed_update =
  fixes rid :: "'r \<Rightarrow> 'k" and upd :: "'a \<Rightarrow> 'r \<Rightarrow> 'r"
  assumes keeps_key: "rid (upd a r) = rid r"
begin

lemma keys_update: "map rid (update_rows P (upd a) t) = map rid t"
  by (rule map_update_rows) (rule keeps_key)

lemma distinct_keys_update:
  "distinct (map rid t) \<Longrightarrow> distinct (map rid (update_rows P (upd a) t))"
  by (simp add: keys_update)

lemma lookup_other:
  assumes "\<And>r. P r \<Longrightarrow> rid r = k" and "k' \<noteq> k"
  shows "first_row (\<lambda>r. rid r = k') (update_rows P (upd a) t) = first_row (\<lambda>r. rid r = k') t"
  using assms by (induction t) (auto simp: keeps_key)

lemma lookup_updated:
  assumes "first_row (\<lambda>r. rid r = k) t = Some r" and "P r"
  shows "first_row (\<lambda>r. rid r = k) (update_rows P (upd a) t) = Some (upd a r)"
  using assms by (induction t) (auto simp: keeps_key split: if_splits)

lemma lookup_unchanged:
  assumes "first_row (\<lambda>r. rid r = k) t = Some r" and "\<not> P r"
  shows "first_row (\<lambda>r. rid r = k) (update_rows P (upd a) t) = Some r"
  using assms by (induction t) (auto simp: keeps_key split: if_splits)

lemma returning_single:
  assumes "distinct (map rid t)" and "\<And>r. P r \<Longrightarrow> rid r = k"
    and "first_row (\<lambda>r. rid r = k) t = Some r" and "P r"
  shows "returning P (upd a) t = [upd a r]"
  using assms
proof (induction t)
  case Nil
  then show ?case by simp
next
  case (Cons q t)
  show ?case
  proof (cases "rid q = k")
    case True
    with Cons.prems have "q = r" by simp
    have "\<forall>x \<in> set t. \<not> P x"
      using Cons.prems(1,2) True by (auto simp: image_iff)
    then have "returning P (upd a) t = []" by (simp add: returning_eq_Nil_iff)
    with \<open>q = r\<close> Cons.prems(4) show ?thesis by simp
  next
    case False
    with Cons show ?thesis by auto
  qed
qed

end

section \<open>Histories of rows\<close>

text \<open>
  The interface between a component that drives the rows of a table through a life cycle and
  the invariants of the table: the component names the well-formed rows and how one row may
  evolve; it gets that updates and insertions keep the table well formed and lose no row.
\<close>

definition table_ok :: "('r \<Rightarrow> 'k) \<Rightarrow> ('r \<Rightarrow> bool) \<Rightarrow> 'r list \<Rightarrow> bool" where
  "table_ok rid ok t \<longleftrightarrow> distinct (map rid t) \<and> (\<forall>r \<in> set t. ok r)"

definition table_extends :: "('r \<Rightarrow> 'r \<Rightarrow> bool) \<Rightarrow> 'r list \<Rightarrow> 'r list \<Rightarrow> bool" where
  "table_extends ev t u \<longleftrightarrow> (\<forall>r \<in> set t. \<exists>q \<in> set u. ev r q)"

lemma table_ok_Nil [simp]: "table_ok rid ok []"
  by (simp add: table_ok_def)

locale row_history =
  fixes rid :: "'r \<Rightarrow> 'k" and ok :: "'r \<Rightarrow> bool" and ev :: "'r \<Rightarrow> 'r \<Rightarrow> bool"
  assumes ev_refl: "ev r r"
    and ev_trans: "ev r q \<Longrightarrow> ev q p \<Longrightarrow> ev r p"
    and ev_key: "ev r q \<Longrightarrow> rid q = rid r"
begin

lemma extends_refl: "table_extends ev t t"
  using ev_refl by (auto simp: table_extends_def)

lemma extends_trans: "table_extends ev t u \<Longrightarrow> table_extends ev u v \<Longrightarrow> table_extends ev t v"
  unfolding table_extends_def using ev_trans by blast

lemma update_history:
  assumes "table_ok rid ok t" and "\<And>r. r \<in> set t \<Longrightarrow> P r \<Longrightarrow> ok r \<Longrightarrow> ev r (f r) \<and> ok (f r)"
  shows "table_ok rid ok (update_rows P f t) \<and> table_extends ev t (update_rows P f t)"
proof -
  have step: "ev r (if P r then f r else r) \<and> ok (if P r then f r else r)" if "r \<in> set t" for r
    using assms that ev_refl by (auto simp: table_ok_def)
  have "rid (if P r then f r else r) = rid r" if "r \<in> set t" for r
    using step [OF that] ev_key by blast
  then have "map rid (update_rows P f t) = map rid t"
    unfolding update_rows_def map_map by (intro map_cong) simp_all
  moreover have "\<forall>r \<in> set (update_rows P f t). ok r"
    unfolding set_update_rows using step by blast
  moreover have "table_extends ev t (update_rows P f t)"
    unfolding table_extends_def set_update_rows using step by blast
  ultimately show ?thesis
    using assms(1) unfolding table_ok_def by simp
qed

lemma insert_history:
  "table_ok rid ok t \<Longrightarrow> ok r \<Longrightarrow> rid r \<notin> rid ` set t \<Longrightarrow>
    table_ok rid ok (t @ [r]) \<and> table_extends ev t (t @ [r])"
  using ev_refl by (auto simp: table_ok_def table_extends_def)

lemma row_by_key:
  assumes "table_ok rid ok t" "first_row (\<lambda>r. rid r = k) t = Some r" "q \<in> set t" "rid q = k"
  shows "q = r"
  using assms first_row_SomeD [OF assms(2)] by (metis table_ok_def distinct_map inj_onD)

lemma extended_row:
  assumes "table_ok rid ok t" "table_ok rid ok u" "table_extends ev t u" "r \<in> set t" "q \<in> set u" "rid q = rid r"
  shows "ev r q"
proof -
  obtain p where p: "p \<in> set u" "ev r p" using assms(3,4) by (auto simp: table_extends_def)
  then have "rid p = rid q" using ev_key assms(6) by simp
  then have "p = q" using assms(2,5) p(1) by (metis table_ok_def distinct_map inj_onD)
  with p show ?thesis by simp
qed

end

section \<open>JavaScript strings\<close>

text \<open>The separator-joined concatenation of \<open>Array.prototype.join\<close>.\<close>

fun join :: "string \<Rightarrow> string list \<Rightarrow> string" where
  "join sep [] = ''''"
| "join sep [s] = s"
| "join sep (s # t # ss) = s @ sep @ join sep (t # ss)"

text \<open>\<open>String.prototype.startsWith\<close>.\<close>

fun starts_with :: "string \<Rightarrow> string \<Rightarrow> bool" where
  "starts_with [] s = True"
| "starts_with (p # ps) [] = False"
| "starts_with (p # ps) (c # cs) = (p = c \<and> starts_with ps cs)"

lemma starts_with_iff: "starts_with p s \<longleftrightarrow> (\<exists>t. s = p @ t)"
  by (induction p s rule: starts_with.induct) auto

lemma starts_with_append [simp]: "starts_with p (p @ s)"
  by (auto simp: starts_with_iff)

text \<open>\<open>String.prototype.includes\<close>.\<close>

fun str_includes :: "string \<Rightarrow> string \<Rightarrow> bool" where
  "str_includes p [] = (p = [])"
| "str_includes p (c # cs) = (starts_with p (c # cs) \<or> str_includes p cs)"

lemma includes_iff: "str_includes p s \<longleftrightarrow> (\<exists>u v. s = u @ p @ v)"
proof (induction s)
  case Nil
  then show ?case by auto
next
  case (Cons c cs)
  note IH = Cons.IH
  show ?case
  proof
    assume "str_includes p (c # cs)"
    then consider "starts_with p (c # cs)" | "str_includes p cs" by auto
    then show "\<exists>u v. c # cs = u @ p @ v"
    proof cases
      case 1
      then show ?thesis by (metis starts_with_iff append_Nil)
    next
      case 2
      with Cons obtain u v where "cs = u @ p @ v" by auto
      then have "c # cs = (c # u) @ p @ v" by simp
      then show ?thesis by blast
    qed
  next
    assume "\<exists>u v. c # cs = u @ p @ v"
    then obtain u v where *: "c # cs = u @ p @ v" by blast
    show "str_includes p (c # cs)"
    proof (cases u)
      case Nil
      with * have "starts_with p (c # cs)" by simp
      then show ?thesis by simp
    next
      case (Cons a u')
      with * have "cs = u' @ p @ v" by simp
      then show ?thesis using IH by auto
    qed
  qed
qed

text \<open>Character classes of the regular expressions of the source.\<close>

definition is_digit :: "char \<Rightarrow> bool" where
  "is_digit c \<longleftrightarrow> 48 \<le> (of_char c :: nat) \<and> (of_char c :: nat) \<le> 57"

definition is_lower :: "char \<Rightarrow> bool" where
  "is_lower c \<longleftrightarrow> 97 \<le> (of_char c :: nat) \<and> (of_char c :: nat) \<le> 122"

definition is_upper :: "char \<Rightarrow> bool" where
  "is_upper c \<longleftrightarrow> 65 \<le> (of_char c :: nat) \<and> (of_char c :: nat) \<le> 90"

definition is_lower_hex :: "char \<Rightarrow> bool" where
  "is_lower_hex c \<longleftrightarrow> is_digit c \<or> (97 \<le> (of_char c :: nat) \<and> (of_char c :: nat) \<le> 102)"

definition is_upper_hex_letter :: "char \<Rightarrow> bool" where
  "is_upper_hex_letter c \<longleftrightarrow> 65 \<le> (of_char c :: nat) \<and> (of_char c :: nat) \<le> 70"

definition is_hex :: "char \<Rightarrow> bool" where
  "is_hex c \<longleftrightarrow> is_lower_hex c \<or> is_upper_hex_letter c"

text \<open>White space of \<open>trim\<close> and of \<open>\s\<close>: tab, line feed, vertical tab, form feed,
  carriage return, space, no-break space.\<close>

definition is_space :: "char \<Rightarrow> bool" where
  "is_space c \<longleftrightarrow> (of_char c :: nat) \<in> {9, 10, 11, 12, 13, 32, 160}"

definition to_upper_char :: "char \<Rightarrow> char" where
  "to_upper_char c = (if is_lower c then char_of ((of_char c :: nat) - 32) else c)"

definition to_lower_char :: "char \<Rightarrow> char" where
  "to_lower_char c = (if is_upper c then char_of ((of_char c :: nat) + 32) else c)"

text \<open>\<open>toUpperCase\<close>, \<open>toLowerCase\<close> (on ASCII letters) and \<open>trim\<close>.\<close>

definition upper :: "string \<Rightarrow> string" where
  "upper s = map to_upper_char s"

definition lower :: "string \<Rightarrow> string" where
  "lower s = map to_lower_char s"

definition trim :: "string \<Rightarrow> string" where
  "trim s = rev (dropWhile is_space (rev (dropWhile is_space s)))"

lemma dropWhile_none: "\<forall>x \<in> set xs. \<not> P x \<Longrightarrow> dropWhile P xs = xs"
  by (cases xs) auto

lemma trim_id: "\<forall>c \<in> set s. \<not> is_space c \<Longrightarrow> trim s = s"
  by (simp add: trim_def dropWhile_none)

lemma trim_Nil [simp]: "trim [] = []"
  by (simp add: trim_def)

lemma set_dropWhile_subset: "set (dropWhile P xs) \<subseteq> set xs"
  by (induction xs) auto

lemma length_dropWhile: "length (dropWhile P xs) \<le> length xs"
  by (induction xs) auto

lemma set_trim: "set (trim s) \<subseteq> set s"
  using set_dropWhile_subset [of is_space "rev (dropWhile is_space s)"]
    set_dropWhile_subset [of is_space s]
  by (auto simp: trim_def)

lemma length_trim: "length (trim s) \<le> length s"
  using length_dropWhile [of is_space "rev (dropWhile is_space s)"]
    length_dropWhile [of is_space s]
  by (simp add: trim_def)

lemma to_lower_idem: "to_lower_char (to_lower_char c) = to_lower_char c"
proof (cases "is_upper c")
  case True
  then have "(of_char (to_lower_char c) :: nat) = of_char c + 32" by (simp add: to_lower_char_def is_upper_def)
  then have "\<not> is_upper (to_lower_char c)" using True by (simp add: is_upper_def)
  then show ?thesis by (simp add: to_lower_char_def)
qed (simp add: to_lower_char_def)

lemma lower_idem [simp]: "lower (lower s) = lower s"
  by (simp add: lower_def to_lower_idem comp_def)

end
