(* ===== verification/Text.thy ===== *)
theory Text
  imports Prelude
begin

text \<open>
  Numbers as text: the decimal and hexadecimal printing of \<open>BigInt.toString\<close>,
  \<open>padStart\<close>, the lower-case hexadecimal encoding of \<open>Buffer.toString('hex')\<close>,
  and the reading of an integer by the \<open>BigInt\<close> function of JavaScript.
\<close>

section \<open>Digits\<close>

definition digit_of :: "nat \<Rightarrow> char" where
  "digit_of d = (if d < 10 then char_of (48 + d) else char_of (87 + d))"

definition digit_val :: "char \<Rightarrow> nat option" where
  "digit_val c = (let n = (of_char c :: nat) in
     if 48 \<le> n \<and> n \<le> 57 then Some (n - 48)
     else if 97 \<le> n \<and> n \<le> 102 then Some (n - 87)
     else if 65 \<le> n \<and> n \<le> 70 then Some (n - 55)
     else None)"

lemma of_char_digit_of: "d < 16 \<Longrightarrow> (of_char (digit_of d) :: nat) = (if d < 10 then 48 + d else 87 + d)"
  by (simp add: digit_of_def of_char_of)

lemma digit_val_digit_of [simp]: "d < 16 \<Longrightarrow> digit_val (digit_of d) = Some d"
  by (simp add: digit_val_def of_char_digit_of)

lemma is_digit_digit_of [simp]: "d < 10 \<Longrightarrow> is_digit (digit_of d)"
  by (simp add: is_digit_def of_char_digit_of)

lemma is_lower_hex_digit_of [simp]: "d < 16 \<Longrightarrow> is_lower_hex (digit_of d)"
  by (simp add: is_lower_hex_def is_digit_def of_char_digit_of)

lemma digit_val_is_digit: "is_digit c \<Longrightarrow> \<exists>d < 10. digit_val c = Some d"
  by (auto simp: is_digit_def digit_val_def Let_def)

lemma digit_val_lower_hex: "is_lower_hex c \<Longrightarrow> \<exists>d < 16. digit_val c = Some d"
  by (auto simp: is_lower_hex_def is_digit_def digit_val_def Let_def)

lemma is_digit_lower_hex: "is_digit c \<Longrightarrow> is_lower_hex c"
  by (simp add: is_lower_hex_def)

lemma lower_hex_not_space: "is_lower_hex c \<Longrightarrow> \<not> is_space c"
  by (auto simp: is_lower_hex_def is_digit_def is_space_def)

lemma digit_not_space: "is_digit c \<Longrightarrow> \<not> is_space c"
  by (rule lower_hex_not_space) (rule is_digit_lower_hex)

section \<open>Printing and reading in a base\<close>

fun to_base :: "nat \<Rightarrow> nat \<Rightarrow> string" where
  "to_base b n =
     (if b < 2 \<or> n < b then [digit_of n] else to_base b (n div b) @ [digit_of (n mod b)])"

declare to_base.simps [simp del]

fun from_digits :: "nat \<Rightarrow> nat \<Rightarrow> string \<Rightarrow> nat option" where
  "from_digits b acc [] = Some acc"
| "from_digits b acc (c # cs) =
     (case digit_val c of
        None \<Rightarrow> None
      | Some d \<Rightarrow> if d < b then from_digits b (acc * b + d) cs else None)"

definition from_base :: "nat \<Rightarrow> string \<Rightarrow> nat option" where
  "from_base b s = (if s = [] then None else from_digits b 0 s)"

lemma from_digits_append:
  "from_digits b acc (s @ t) =
     (case from_digits b acc s of None \<Rightarrow> None | Some a \<Rightarrow> from_digits b a t)"
  by (induction b acc s rule: from_digits.induct) (auto split: option.splits)

lemma to_base_ne [simp]: "to_base b n \<noteq> []"
  by (subst to_base.simps) simp

lemma from_digits_to_base:
  assumes "2 \<le> b" "b \<le> 16"
  shows "from_digits b 0 (to_base b n) = Some n"
  using assms
proof (induction b n rule: to_base.induct)
  case (1 b n)
  show ?case
  proof (cases "n < b")
    case True
    with 1 show ?thesis by (simp add: to_base.simps [of b n])
  next
    case False
    have "n mod b < b" using 1(2) by simp
    then have "n mod b < 16" using 1(3) by linarith
    then have dv: "digit_val (digit_of (n mod b)) = Some (n mod b)"
      by (rule digit_val_digit_of)
    have "from_digits b 0 (to_base b (n div b)) = Some (n div b)"
      using 1 False by simp
    then show ?thesis
      using False 1(2) by (simp add: to_base.simps [of b n] from_digits_append dv)
  qed
qed

lemma from_base_to_base: "2 \<le> b \<Longrightarrow> b \<le> 16 \<Longrightarrow> from_base b (to_base b n) = Some n"
  by (simp add: from_base_def from_digits_to_base)

lemma to_base_digits:
  assumes "2 \<le> b" "b \<le> 16" "c \<in> set (to_base b n)"
  shows "is_lower_hex c"
  using assms
proof (induction b n rule: to_base.induct)
  case (1 b n)
  have "n mod b < 16" using 1(2,3) by (meson mod_less_divisor less_le_trans zero_less_numeral)
  then show ?case
    using 1 by (cases "n < b") (auto simp: to_base.simps [of b n])
qed

lemma to_base_10_digits: "c \<in> set (to_base 10 n) \<Longrightarrow> is_digit c"
proof (induction "10 :: nat" n rule: to_base.induct)
  case (1 n)
  then show ?case by (cases "n < 10") (auto simp: to_base.simps [of 10 n])
qed

lemma from_digits_total:
  assumes "\<forall>c \<in> set s. \<exists>d < b. digit_val c = Some d"
  shows "\<exists>n. from_digits b acc s = Some n"
  using assms by (induction b acc s rule: from_digits.induct) auto

section \<open>Integers\<close>

definition dec_nat :: "nat \<Rightarrow> string" where
  "dec_nat n = to_base 10 n"

definition dec_int :: "int \<Rightarrow> string" where
  "dec_int i = (if i < 0 then CHR ''-'' # dec_nat (nat (- i)) else dec_nat (nat i))"

definition hex_nat :: "nat \<Rightarrow> string" where
  "hex_nat n = to_base 16 n"

text \<open>\<open>padStart\<close> with the digit zero.\<close>

definition pad_start :: "nat \<Rightarrow> string \<Rightarrow> string" where
  "pad_start w s = replicate (w - length s) (CHR ''0'') @ s"

text \<open>\<open>Buffer.toString('hex')\<close>: two lower-case digits per byte.\<close>

definition bytes_hex :: "nat list \<Rightarrow> string" where
  "bytes_hex bs = concat (map (\<lambda>b. [digit_of (b div 16 mod 16), digit_of (b mod 16)]) bs)"

lemma length_bytes_hex [simp]: "length (bytes_hex bs) = 2 * length bs"
  by (induction bs) (auto simp: bytes_hex_def)

lemma bytes_hex_chars: "c \<in> set (bytes_hex bs) \<Longrightarrow> is_lower_hex c"
  by (auto simp: bytes_hex_def)

lemma dec_nat_ne [simp]: "dec_nat n \<noteq> []"
  by (simp add: dec_nat_def)

lemma dec_nat_digits: "c \<in> set (dec_nat n) \<Longrightarrow> is_digit c"
  by (simp add: dec_nat_def to_base_10_digits)

lemma from_base_dec [simp]: "from_base 10 (dec_nat n) = Some n"
  by (simp add: dec_nat_def from_base_to_base)

lemma from_base_hex [simp]: "from_base 16 (hex_nat n) = Some n"
  by (simp add: hex_nat_def from_base_to_base)

lemma dec_nat_inject [simp]: "dec_nat a = dec_nat b \<longleftrightarrow> a = b"
  by (metis from_base_dec option.inject)

lemma takeWhile_app_stop:
  "\<forall>c \<in> set s. P c \<Longrightarrow> (t = [] \<or> \<not> P (hd t)) \<Longrightarrow> takeWhile P (s @ t) = s"
  by (induction s) (auto, cases t, auto)

text \<open>A decimal numeral is delimited by the first character that is not a digit.\<close>

lemma dec_nat_app:
  assumes "dec_nat a @ s = dec_nat b @ t"
    and "s = [] \<or> \<not> is_digit (hd s)" and "t = [] \<or> \<not> is_digit (hd t)"
  shows "a = b \<and> s = t"
proof -
  have "takeWhile is_digit (dec_nat a @ s) = dec_nat a"
    using assms(2) by (intro takeWhile_app_stop) (auto dest: dec_nat_digits)
  moreover have "takeWhile is_digit (dec_nat b @ t) = dec_nat b"
    using assms(3) by (intro takeWhile_app_stop) (auto dest: dec_nat_digits)
  ultimately have "dec_nat a = dec_nat b" using assms(1) by simp
  then show ?thesis using assms(1) by simp
qed

lemma minus_not_digit [simp]: "\<not> is_digit (CHR ''-'')"
  by (simp add: is_digit_def)

lemma hd_dec_nat: "is_digit (hd (dec_nat n))"
  using dec_nat_digits [of "hd (dec_nat n)" n] by simp

lemma dec_int_app:
  assumes "dec_int a @ s = dec_int b @ t"
    and "s = [] \<or> \<not> is_digit (hd s)" and "t = [] \<or> \<not> is_digit (hd t)"
  shows "a = b \<and> s = t"
proof -
  have hd_nonneg: "hd (dec_nat n @ u) \<noteq> CHR ''-''" for n u
    using hd_dec_nat [of n] by (cases "dec_nat n") (auto intro: ccontr)
  show ?thesis
  proof (cases "a < 0"; cases "b < 0")
    assume "a < 0" "b < 0"
    with assms(1) have "dec_nat (nat (- a)) @ s = dec_nat (nat (- b)) @ t"
      by (simp add: dec_int_def)
    from dec_nat_app [OF this assms(2,3)] \<open>a < 0\<close> \<open>b < 0\<close> show ?thesis by auto
  next
    assume "\<not> a < 0" "\<not> b < 0"
    with assms(1) have "dec_nat (nat a) @ s = dec_nat (nat b) @ t"
      by (simp add: dec_int_def)
    from dec_nat_app [OF this assms(2,3)] \<open>\<not> a < 0\<close> \<open>\<not> b < 0\<close> show ?thesis by auto
  next
    assume "a < 0" "\<not> b < 0"
    with assms(1) have "hd (dec_nat (nat b) @ t) = CHR ''-''"
      by (auto simp: dec_int_def dest: arg_cong [of _ _ hd] sym)
    with hd_nonneg show ?thesis by blast
  next
    assume "\<not> a < 0" "b < 0"
    with assms(1) have "hd (dec_nat (nat a) @ s) = CHR ''-''"
      by (auto simp: dec_int_def dest: arg_cong [of _ _ hd])
    with hd_nonneg show ?thesis by blast
  qed
qed

lemma dec_int_ne [simp]: "dec_int i \<noteq> []"
  by (simp add: dec_int_def)

lemma hd_dec_int: "hd (dec_int i) = CHR ''-'' \<or> is_digit (hd (dec_int i))"
  using hd_dec_nat by (auto simp: dec_int_def)

section \<open>The BigInt function\<close>

text \<open>
  \<open>BigInt(s)\<close> on a string: surrounding white space is ignored, the empty string is
  zero, the prefixes \<open>0x\<close>, \<open>0o\<close> and \<open>0b\<close> select a base, and a sign is
  allowed before a decimal numeral only.  \<open>None\<close> is the \<open>SyntaxError\<close>.
\<close>

definition bigint_of_string :: "string \<Rightarrow> int option" where
  "bigint_of_string raw = (let s = trim raw in
     if s = [] then Some 0
     else if starts_with ''0x'' s \<or> starts_with ''0X'' s then map_option int (from_base 16 (drop 2 s))
     else if starts_with ''0o'' s \<or> starts_with ''0O'' s then map_option int (from_base 8 (drop 2 s))
     else if starts_with ''0b'' s \<or> starts_with ''0B'' s then map_option int (from_base 2 (drop 2 s))
     else if hd s = CHR ''-'' then map_option (\<lambda>n. - int n) (from_base 10 (tl s))
     else if hd s = CHR ''+'' then map_option int (from_base 10 (tl s))
     else map_option int (from_base 10 s))"

lemma not_prefix_of_digits:
  "\<forall>c \<in> set s. is_digit c \<Longrightarrow> \<not> is_digit q \<Longrightarrow> \<not> starts_with [p, q] s"
  by (cases s rule: remdups_adj.cases) auto

lemma bigint_of_digits:
  assumes "s \<noteq> []" "\<forall>c \<in> set s. is_digit c"
  shows "bigint_of_string s = map_option int (from_base 10 s)"
proof -
  have t: "trim s = s" using assms(2) by (intro trim_id) (auto dest: digit_not_space)
  have p: "\<not> starts_with [p, q] s" if "\<not> is_digit q" for p q
    by (rule not_prefix_of_digits [OF assms(2) that])
  have h: "is_digit (hd s)" using assms by simp
  then have "hd s \<noteq> CHR ''-''" "hd s \<noteq> CHR ''+''" by (auto simp: is_digit_def)
  then show ?thesis
    unfolding bigint_of_string_def Let_def t using assms(1) p
    by (simp add: is_digit_def)
qed

lemma bigint_of_dec [simp]: "bigint_of_string (dec_nat n) = Some (int n)"
  by (simp add: bigint_of_digits dec_nat_digits)

lemma bigint_of_0x:
  assumes "\<forall>c \<in> set s. is_lower_hex c"
  shows "bigint_of_string (''0x'' @ s) = map_option int (from_base 16 s)"
proof -
  have "trim (''0x'' @ s) = ''0x'' @ s"
  proof (rule trim_id, intro ballI)
    fix c
    assume "c \<in> set (''0x'' @ s)"
    then consider "c = CHR ''0''" | "c = CHR ''x''" | "is_lower_hex c" using assms by auto
    then show "\<not> is_space c"
      by cases (rule lower_hex_not_space, simp add: is_lower_hex_def is_digit_def,
          simp add: is_space_def, rule lower_hex_not_space)
  qed
  then show ?thesis by (simp add: bigint_of_string_def)
qed

section \<open>Dates\<close>

text \<open>The proleptic Gregorian calendar of the JavaScript \<open>Date\<close>: the year, month and day
  of a number of days since 1970-01-01, and \<open>toISOString\<close> for the years 0 to 9999.\<close>

definition civil_from_days :: "int \<Rightarrow> int \<times> int \<times> int" where
  "civil_from_days days =
     (let z = days + 719468;
          era = z div 146097;
          doe = z mod 146097;
          yoe = (doe - doe div 1460 + doe div 36524 - doe div 146096) div 365;
          doy = doe - (365 * yoe + yoe div 4 - yoe div 100);
          mp = (5 * doy + 2) div 153;
          d = doy - (153 * mp + 2) div 5 + 1;
          m = (if mp < 10 then mp + 3 else mp - 9);
          y = yoe + era * 400 + (if m \<le> 2 then 1 else 0)
      in (y, m, d))"

definition ms_per_day :: int where "ms_per_day = 86400000"

definition utc_day :: "time_ms \<Rightarrow> int" where "utc_day t = t div ms_per_day"

definition digits_of :: "nat \<Rightarrow> int \<Rightarrow> string" where
  "digits_of w n = pad_start w (dec_int n)"

definition iso_string :: "time_ms \<Rightarrow> string" where
  "iso_string t = (let (y, m, d) = civil_from_days (utc_day t); r = t mod ms_per_day in
     digits_of 4 y @ ''-'' @ digits_of 2 m @ ''-'' @ digits_of 2 d @ ''T'' @
     digits_of 2 (r div 3600000) @ '':'' @ digits_of 2 (r div 60000 mod 60) @ '':'' @
     digits_of 2 (r div 1000 mod 60) @ ''.'' @ digits_of 3 (r mod 1000) @ ''Z'')"

section \<open>Hexadecimal buffers\<close>

text \<open>\<open>BigInt.prototype.toString(16)\<close> and \<open>Buffer.from(s, 'hex')\<close>, which stops at the
  first pair that is not hexadecimal and drops an odd last digit.\<close>

definition hex_int :: "int \<Rightarrow> string" where
  "hex_int i = (if i < 0 then CHR ''-'' # hex_nat (nat (- i)) else hex_nat (nat i))"

fun hex_bytes :: "string \<Rightarrow> nat list" where
  "hex_bytes (a # b # t) = (if is_hex a \<and> is_hex b
     then (case (digit_val a, digit_val b) of (Some x, Some y) \<Rightarrow> (16 * x + y) # hex_bytes t | _ \<Rightarrow> [])
     else [])"
| "hex_bytes s = []"

lemma is_lower_hex_hex: "is_lower_hex c \<Longrightarrow> is_hex c"
  by (simp add: is_hex_def)

lemma digit_of_val: "is_lower_hex c \<Longrightarrow> digit_val c = Some d \<Longrightarrow> digit_of d = c"
  by (auto simp: is_lower_hex_def is_digit_def digit_val_def digit_of_def Let_def)

lemma hex_bytes_step:
  assumes "is_lower_hex a" "is_lower_hex b"
  obtains x y where "digit_val a = Some x" "digit_val b = Some y" "x < 16" "y < 16"
    "hex_bytes (a # b # t) = (16 * x + y) # hex_bytes t"
proof -
  obtain x y where xy: "digit_val a = Some x" "digit_val b = Some y" "x < 16" "y < 16"
    using assms digit_val_lower_hex by metis
  then have "hex_bytes (a # b # t) = (16 * x + y) # hex_bytes t"
    using assms by (simp add: is_lower_hex_hex)
  with xy show ?thesis by (rule that)
qed

lemma hex_bytes_pairs:
  "\<forall>c \<in> set s. is_lower_hex c \<Longrightarrow> \<forall>c \<in> set t. is_lower_hex c \<Longrightarrow> even (length s) \<Longrightarrow>
    even (length t) \<Longrightarrow> hex_bytes s = hex_bytes t \<Longrightarrow> s = t"
proof (induction s arbitrary: t rule: induct_list012)
  case 1
  show ?case
  proof (cases t rule: hex_bytes.cases)
    case (1 c d v)
    with "1.prems"(2) have "is_lower_hex c" "is_lower_hex d" by simp_all
    then obtain x y where "hex_bytes (c # d # v) = (16 * x + y) # hex_bytes v"
      by (rule hex_bytes_step)
    with 1 "1.prems"(5) show ?thesis by simp
  qed (use "1.prems" in simp_all)
next
  case (2 a)
  then show ?case by simp
next
  case (3 a b u)
  have ab: "is_lower_hex a" "is_lower_hex b" using "3.prems"(1) by simp_all
  then obtain x y where xy: "digit_val a = Some x" "digit_val b = Some y" "x < 16" "y < 16"
    "hex_bytes (a # b # u) = (16 * x + y) # hex_bytes u"
    by (rule hex_bytes_step)
  show ?case
  proof (cases t rule: hex_bytes.cases)
    case (1 c d v)
    with "3.prems"(2) have cd: "is_lower_hex c" "is_lower_hex d" by simp_all
    then obtain x' y' where xy': "digit_val c = Some x'" "digit_val d = Some y'" "x' < 16" "y' < 16"
      "hex_bytes (c # d # v) = (16 * x' + y') # hex_bytes v"
      by (rule hex_bytes_step)
    have eq: "16 * x + y = 16 * x' + y'" "hex_bytes u = hex_bytes v"
      using "3.prems"(5) xy(5) xy'(5) 1 by simp_all
    have "(16 * x + y) div 16 = x" "(16 * x' + y') div 16 = x'" "(16 * x + y) mod 16 = y"
      "(16 * x' + y') mod 16 = y'"
      using xy(4) xy'(4) by simp_all
    then have xy_eq: "x = x'" "y = y'" using eq(1) by simp_all
    have "a = c" "b = d"
      using digit_of_val ab cd xy(1,2) xy'(1,2) xy_eq by metis+
    moreover have "u = v"
      by (rule "3.IH"(1)) (use "3.prems" 1 eq(2) in simp_all)
    ultimately show ?thesis using 1 by simp
  qed (use "3.prems" xy(5) in simp_all)
qed

lemma length_to_base: "2 \<le> b \<Longrightarrow> 0 < k \<Longrightarrow> n < b ^ k \<Longrightarrow> length (to_base b n) \<le> k"
proof (induction k arbitrary: n)
  case (Suc k)
  show ?case
  proof (cases "n < b")
    case True
    then show ?thesis by (simp add: to_base.simps [of b n])
  next
    case False
    with Suc.prems have "k \<noteq> 0" by (cases k) auto
    moreover have "n div b < b ^ k" using Suc.prems by (simp add: less_mult_imp_div_less mult.commute)
    ultimately have "length (to_base b (n div b)) \<le> k" using Suc by simp
    then show ?thesis using False Suc.prems by (simp add: to_base.simps [of b n])
  qed
qed simp

lemma length_to_base_ge: "2 \<le> b \<Longrightarrow> b ^ k \<le> n \<Longrightarrow> k < length (to_base b n)"
proof (induction k arbitrary: n)
  case (Suc k)
  have "b * 1 \<le> b * b ^ k" by (rule mult_le_mono2) (use Suc.prems in simp)
  moreover have "b * b ^ k \<le> n" using Suc.prems by simp
  ultimately have "b \<le> n" by (metis le_trans mult_1_right)
  moreover have "b ^ k \<le> n div b" using Suc.prems by (simp add: less_eq_div_iff_mult_less_eq mult.commute)
  ultimately show ?case using Suc by (simp add: to_base.simps [of b n])
qed (simp add: to_base.simps)

text \<open>The comparison of two 64-digit buffers.\<close>

lemma from_digits_zeros: "from_digits b 0 (replicate n (CHR ''0'') @ s) = from_digits b 0 s" if "0 < b"
proof (induction n)
  case (Suc n)
  have "digit_val (CHR ''0'') = Some 0" by (simp add: digit_val_def)
  with Suc that show ?case by simp
qed simp

lemma hex_nat_chars: "c \<in> set (hex_nat n) \<Longrightarrow> is_lower_hex c"
  unfolding hex_nat_def by (rule to_base_digits) auto

lemma padded_hex:
  assumes "n < 16 ^ 64"
  shows "length (pad_start 64 (hex_nat n)) = 64" "\<forall>c \<in> set (pad_start 64 (hex_nat n)). is_lower_hex c"
    "from_digits 16 0 (pad_start 64 (hex_nat n)) = Some n"
proof -
  show "length (pad_start 64 (hex_nat n)) = 64"
    using length_to_base [of 16 64 n] assms by (simp add: pad_start_def hex_nat_def)
  show "\<forall>c \<in> set (pad_start 64 (hex_nat n)). is_lower_hex c"
    using hex_nat_chars by (auto simp: pad_start_def is_lower_hex_def is_digit_def)
  show "from_digits 16 0 (pad_start 64 (hex_nat n)) = Some n"
    by (simp add: pad_start_def from_digits_zeros hex_nat_def from_digits_to_base)
qed

lemma hex_buffer_inject:
  assumes "a < 16 ^ 64" "b < 16 ^ 64"
  shows "hex_bytes (pad_start 64 (hex_nat a)) = hex_bytes (pad_start 64 (hex_nat b)) \<longleftrightarrow> a = b"
proof
  assume eq: "hex_bytes (pad_start 64 (hex_nat a)) = hex_bytes (pad_start 64 (hex_nat b))"
  have "pad_start 64 (hex_nat a) = pad_start 64 (hex_nat b)"
    by (rule hex_bytes_pairs)
      (use padded_hex [OF assms(1)] padded_hex [OF assms(2)] eq in simp_all)
  then show "a = b" using padded_hex(3) assms by (metis option.inject)
qed simp

lemma hex_bytes_odd: "even (length s) \<Longrightarrow> hex_bytes (s @ [c]) = hex_bytes s"
  by (induction s rule: hex_bytes.induct) (auto split: option.split)

lemma hex_buffer_truncates:
  assumes "16 ^ 63 \<le> a" "a < 16 ^ 64" "k < 16"
  shows "hex_bytes (pad_start 64 (hex_nat (16 * a + k))) = hex_bytes (pad_start 64 (hex_nat a))"
proof -
  have l: "length (hex_nat a) = 64"
    using length_to_base [of 16 64 a] length_to_base_ge [of 16 63 a] assms(1,2) by (simp add: hex_nat_def)
  have "hex_nat (16 * a + k) = hex_nat a @ [digit_of k]"
    unfolding hex_nat_def
    by (subst to_base.simps) (use assms l in \<open>auto simp: hex_nat_def\<close>)
  then show ?thesis using hex_bytes_odd [of "hex_nat a"] l by (simp add: pad_start_def)
qed

end
