(* ===== verification/Json.thy ===== *)
theory Json
  imports Text
begin

text \<open>
  JavaScript values as the audit services serialise them: \<open>JSON.stringify\<close>, the
  canonical serialisation \<open>canonicalize\<close> of \<open>src/services/audit.ts\<close>, and the
  value that survives a round trip through a \<open>JSONB\<close> column.  Numbers are integers.
  The main result is that \<open>canonicalize\<close> is a prefix code: on the values it is
  used for, equal serialisations mean equal values up to the order of the keys.
\<close>

section \<open>Values\<close>

datatype json =
    JUndef
  | JNull
  | JBool bool
  | JNum int
  | JStr string
  | JArr "json list"
  | JObj "(string \<times> json) list"

section \<open>String literals\<close>

abbreviation quote_mark :: char where "quote_mark \<equiv> CHR 0x22"
abbreviation backslash :: char where "backslash \<equiv> CHR 0x5C"

text \<open>The escapes of \<open>JSON.stringify\<close>.\<close>

definition esc_char :: "char \<Rightarrow> string" where
  "esc_char c = (let n = (of_char c :: nat) in
     if n = 34 then [backslash, quote_mark]
     else if n = 92 then [backslash, backslash]
     else if n = 8 then [backslash, CHR ''b'']
     else if n = 9 then [backslash, CHR ''t'']
     else if n = 10 then [backslash, CHR ''n'']
     else if n = 12 then [backslash, CHR ''f'']
     else if n = 13 then [backslash, CHR ''r'']
     else if n < 32 then [backslash, CHR ''u'', CHR ''0'', CHR ''0'', digit_of (n div 16), digit_of (n mod 16)]
     else [c])"

definition quote_str :: "string \<Rightarrow> string" where
  "quote_str s = quote_mark # concat (map esc_char s) @ [quote_mark]"

text \<open>A decoder for one escaped character; it serves the proofs only.\<close>

fun unesc :: "string \<Rightarrow> (char \<times> string) option" where
  "unesc (a # b # t) =
     (if a \<noteq> backslash then Some (a, b # t)
      else if b = CHR ''u'' then
        (case t of p # q # h # l # u \<Rightarrow>
           (case (digit_val h, digit_val l) of
              (Some x, Some y) \<Rightarrow> Some (char_of (16 * x + y), u)
            | _ \<Rightarrow> None)
         | _ \<Rightarrow> None)
      else if b = CHR ''b'' then Some (char_of (8 :: nat), t)
      else if b = CHR ''t'' then Some (char_of (9 :: nat), t)
      else if b = CHR ''n'' then Some (char_of (10 :: nat), t)
      else if b = CHR ''f'' then Some (char_of (12 :: nat), t)
      else if b = CHR ''r'' then Some (char_of (13 :: nat), t)
      else Some (b, t))"
| "unesc _ = None"

lemma char_of_eq: "(of_char c :: nat) = n \<Longrightarrow> char_of n = c"
  by (metis char_of_char)

lemma unesc_esc_char: "unesc (esc_char c @ d # t) = Some (c, d # t)"
proof -
  let ?n = "of_char c :: nat"
  consider "?n = 34" | "?n = 92" | "?n = 8" | "?n = 9" | "?n = 10" | "?n = 12" | "?n = 13"
    | "?n < 32" "?n \<notin> {8, 9, 10, 12, 13}" | "32 \<le> ?n" "?n \<noteq> 34" "?n \<noteq> 92"
    by fastforce
  then show ?thesis
  proof cases
    case 1
    then have "(of_char c :: nat) = of_char quote_mark" by simp
    then have "c = quote_mark" by (simp only: of_char_eq_iff)
    then show ?thesis by (simp add: esc_char_def)
  next
    case 2
    then have "(of_char c :: nat) = of_char backslash" by simp
    then have "c = backslash" by (simp only: of_char_eq_iff)
    then show ?thesis by (simp add: esc_char_def)
  next
    case 8
    have "char_of (16 * (?n div 16) + ?n mod 16) = c" by simp
    moreover have "?n div 16 < 16" "?n mod 16 < 16" using 8(1) by auto
    ultimately show ?thesis using 8 by (simp add: esc_char_def Let_def)
  next
    case 9
    then have "c \<noteq> backslash" by auto
    with 9 show ?thesis by (simp add: esc_char_def Let_def)
  qed (simp_all add: esc_char_def Let_def char_of_eq)
qed

lemma esc_char_app:
  assumes "esc_char c @ p # s = esc_char d @ q # t"
  shows "c = d \<and> p # s = q # t"
proof -
  have "Some (c, p # s) = Some (d, q # t)"
    by (simp only: unesc_esc_char [symmetric] assms)
  then show ?thesis by simp
qed

lemma esc_char_ne [simp]: "esc_char c \<noteq> []"
  by (simp add: esc_char_def Let_def)

lemma hd_esc_char: "hd (esc_char c) \<noteq> quote_mark"
  by (auto simp: esc_char_def Let_def)

lemma esc_body_app:
  assumes "concat (map esc_char a) @ quote_mark # s = concat (map esc_char b) @ quote_mark # t"
  shows "a = b \<and> s = t"
  using assms
proof (induction a arbitrary: b)
  case Nil
  show ?case
  proof (cases b)
    case Nil
    with Nil.prems show ?thesis by simp
  next
    case (Cons d b')
    with Nil.prems hd_esc_char [of d] show ?thesis
      by (cases "esc_char d") auto
  qed
next
  case (Cons c a)
  show ?case
  proof (cases b)
    case Nil
    with Cons.prems hd_esc_char [of c] show ?thesis
      by (cases "esc_char c") auto
  next
    case (Cons d b')
    let ?r = "concat (map esc_char a) @ quote_mark # s"
    let ?q = "concat (map esc_char b') @ quote_mark # t"
    obtain p r' where r: "?r = p # r'" by (cases ?r) auto
    obtain q q' where q: "?q = q # q'" by (cases ?q) auto
    have "esc_char c @ p # r' = esc_char d @ q # q'"
      using Cons.prems Cons r q by simp
    then have "c = d \<and> ?r = ?q" using esc_char_app r q by metis
    then show ?thesis using Cons.IH Cons by simp
  qed
qed

text \<open>A quoted string is delimited by its closing mark.\<close>

lemma quote_str_app:
  assumes "quote_str a @ s = quote_str b @ t"
  shows "a = b \<and> s = t"
  by (rule esc_body_app) (use assms in \<open>simp add: quote_str_def\<close>)

lemma quote_str_inject [simp]: "quote_str a = quote_str b \<longleftrightarrow> a = b"
  using quote_str_app [of a "[]" b "[]"] by auto

section \<open>JSON.stringify and canonicalize\<close>

text \<open>
  \<open>JSON.stringify\<close> without white space.  \<open>None\<close> is JavaScript's
  \<open>undefined\<close>: the result for \<open>undefined\<close> itself.  A member whose value is
  undefined is dropped, an undefined array element is written \<open>null\<close>.
\<close>

definition or_else :: "'a \<Rightarrow> 'a option \<Rightarrow> 'a" where
  "or_else d x = (case x of None \<Rightarrow> d | Some y \<Rightarrow> y)"

lemma or_else_simps [simp]: "or_else d None = d" "or_else d (Some y) = y"
  by (simp_all add: or_else_def)

primrec stringify :: "json \<Rightarrow> string option" where
  "stringify JUndef = None"
| "stringify JNull = Some ''null''"
| "stringify (JBool b) = Some (if b then ''true'' else ''false'')"
| "stringify (JNum n) = Some (dec_int n)"
| "stringify (JStr s) = Some (quote_str s)"
| "stringify (JArr vs) =
     Some (''['' @ join '','' (map (or_else ''null'') (map stringify vs)) @ '']'')"
| "stringify (JObj kvs) =
     Some (''{'' @ join '',''
       (concat (map (\<lambda>(k, w). case w of None \<Rightarrow> [] | Some s \<Rightarrow> [quote_str k @ '':'' @ s])
         (map (map_prod id stringify) kvs))) @ ''}'')"

text \<open>
  \<open>canonicalize\<close>: the keys of every object are sorted, an array element that is
  undefined is joined as the empty string (\<open>Array.prototype.join\<close>), and an undefined
  member is concatenated as the text \<open>undefined\<close>.
\<close>

definition member_text :: "string \<times> string option \<Rightarrow> string" where
  "member_text m = quote_str (fst m) @ '':'' @ or_else ''undefined'' (snd m)"

primrec canonicalize :: "json \<Rightarrow> string option" where
  "canonicalize JUndef = None"
| "canonicalize JNull = Some ''null''"
| "canonicalize (JBool b) = Some (if b then ''true'' else ''false'')"
| "canonicalize (JNum n) = Some (dec_int n)"
| "canonicalize (JStr s) = Some (quote_str s)"
| "canonicalize (JArr vs) =
     Some (''['' @ join '','' (map (or_else '''') (map canonicalize vs)) @ '']'')"
| "canonicalize (JObj kvs) =
     Some (''{'' @ join '','' (map member_text
       (sort_key fst (map (map_prod id canonicalize) kvs))) @ ''}'')"

text \<open>The value read back from a column written with \<open>JSON.stringify\<close>.\<close>

definition null_for_undef :: "json \<Rightarrow> json" where
  "null_for_undef v = (if v = JUndef then JNull else v)"

primrec stored :: "json \<Rightarrow> json" where
  "stored JUndef = JUndef"
| "stored JNull = JNull"
| "stored (JBool b) = JBool b"
| "stored (JNum n) = JNum n"
| "stored (JStr s) = JStr s"
| "stored (JArr vs) = JArr (map null_for_undef (map stored vs))"
| "stored (JObj kvs) = JObj (filter (\<lambda>m. snd m \<noteq> JUndef) (map (map_prod id stored) kvs))"

text \<open>Values without \<open>undefined\<close>; values with no undefined array element; and the
  value with the keys of every object sorted.\<close>

primrec defined :: "json \<Rightarrow> bool" where
  "defined JUndef = False"
| "defined JNull = True"
| "defined (JBool b) = True"
| "defined (JNum n) = True"
| "defined (JStr s) = True"
| "defined (JArr vs) = list_all id (map defined vs)"
| "defined (JObj kvs) = list_all snd (map (map_prod id defined) kvs)"

primrec arrays_defined :: "json \<Rightarrow> bool" where
  "arrays_defined JUndef = True"
| "arrays_defined JNull = True"
| "arrays_defined (JBool b) = True"
| "arrays_defined (JNum n) = True"
| "arrays_defined (JStr s) = True"
| "arrays_defined (JArr vs) = (list_all id (map arrays_defined vs) \<and> list_all (\<lambda>v. v \<noteq> JUndef) vs)"
| "arrays_defined (JObj kvs) = list_all snd (map (map_prod id arrays_defined) kvs)"

primrec sort_keys :: "json \<Rightarrow> json" where
  "sort_keys JUndef = JUndef"
| "sort_keys JNull = JNull"
| "sort_keys (JBool b) = JBool b"
| "sort_keys (JNum n) = JNum n"
| "sort_keys (JStr s) = JStr s"
| "sort_keys (JArr vs) = JArr (map sort_keys vs)"
| "sort_keys (JObj kvs) = JObj (sort_key fst (map (map_prod id sort_keys) kvs))"

primrec render :: "json \<Rightarrow> string option" where
  "render JUndef = None"
| "render JNull = Some ''null''"
| "render (JBool b) = Some (if b then ''true'' else ''false'')"
| "render (JNum n) = Some (dec_int n)"
| "render (JStr s) = Some (quote_str s)"
| "render (JArr vs) =
     Some (''['' @ join '','' (map (or_else '''') (map render vs)) @ '']'')"
| "render (JObj kvs) =
     Some (''{'' @ join '','' (map member_text (map (map_prod id render) kvs)) @ ''}'')"

lemma sort_key_map_prod: "sort_key fst (map (map_prod id f) kvs) = map (map_prod id f) (sort_key fst kvs)"
proof -
  have ins: "insort_key fst (map_prod id f x) (map (map_prod id f) xs)
      = map (map_prod id f) (insort_key fst x xs)" for x and xs
    by (induction xs) auto
  show ?thesis
    by (induction kvs) (simp_all only: list.map sort_key_simps ins)
qed

lemma map_member_cong:
  "(\<And>m v. m \<in> set kvs \<Longrightarrow> v \<in> Basic_BNFs.snds m \<Longrightarrow> f v = g v) \<Longrightarrow>
    map (map_prod id f) kvs = map (map_prod id g) kvs"
  by (auto intro!: prod_eqI)

lemma canonicalize_render: "canonicalize v = render (sort_keys v)"
proof (induction v)
  case (JArr vs)
  then have "map canonicalize vs = map render (map sort_keys vs)" by simp
  then show ?case by (simp del: map_map)
next
  case (JObj kvs)
  then have "map (map_prod id canonicalize) kvs = map (map_prod id (render \<circ> sort_keys)) kvs"
    by (intro map_member_cong) auto
  also have "\<dots> = map (map_prod id render) (map (map_prod id sort_keys) kvs)"
    by (simp add: map_prod.comp)
  finally show ?case by (simp add: sort_key_map_prod del: map_map)
qed simp_all

section \<open>The serialisation is a prefix code\<close>

definition rtext :: "json \<Rightarrow> string" where
  "rtext v = or_else ''undefined'' (render v)"

definition stops :: "char \<Rightarrow> bool" where
  "stops c \<longleftrightarrow> c = CHR '','' \<or> c = CHR '']'' \<or> c = CHR ''}''"

lemma join_Cons: "join sep (s # ss) = s @ concat (map (\<lambda>t. sep @ t) ss)"
  by (induction ss arbitrary: s) auto

text \<open>A list of items between separators is a prefix code when its items are.\<close>

lemma items_tail_app:
  assumes "\<And>v w c d s t. v \<in> set xs \<Longrightarrow> w \<in> set ys \<Longrightarrow> stops c \<Longrightarrow> stops d \<Longrightarrow>
      g v @ c # s = g w @ d # t \<Longrightarrow> v = w \<and> c # s = d # t"
    and "stops e" "e \<noteq> CHR '',''"
    and "concat (map (\<lambda>v. CHR '','' # g v) xs) @ e # s = concat (map (\<lambda>v. CHR '','' # g v) ys) @ e # t"
  shows "xs = ys \<and> s = t"
  using assms
proof (induction xs arbitrary: ys)
  case Nil
  then show ?case by (cases ys) auto
next
  case (Cons x xs)
  show ?case
  proof (cases ys)
    case Nil
    with Cons.prems show ?thesis by auto
  next
    case ys: (Cons y ys')
    let ?F = "\<lambda>zs. concat (map (\<lambda>v. CHR '','' # g v) zs)"
    have hd: "\<exists>c r. stops c \<and> ?F zs @ e # u = c # r" for zs u
      using Cons.prems(2) by (cases zs) (auto simp: stops_def)
    obtain c r where c: "stops c" "?F xs @ e # s = c # r" using hd by blast
    obtain d q where d: "stops d" "?F ys' @ e # t = d # q" using hd by blast
    have "g x @ c # r = g y @ d # q" using Cons.prems(4) ys c d by simp
    then have "x = y \<and> c # r = d # q" using Cons.prems(1) [of x y c d r q] ys c d by simp
    moreover from this have "xs = ys' \<and> s = t"
      using Cons.IH [of ys'] Cons.prems ys c d by (metis list.set_intros(2))
    ultimately show ?thesis using ys by simp
  qed
qed

lemma items_app:
  assumes item: "\<And>v w c d s t. v \<in> set xs \<Longrightarrow> w \<in> set ys \<Longrightarrow> stops c \<Longrightarrow> stops d \<Longrightarrow>
      g v @ c # s = g w @ d # t \<Longrightarrow> v = w \<and> c # s = d # t"
    and e: "stops e" "e \<noteq> CHR '',''"
    and ne: "\<And>v. g v \<noteq> [] \<and> hd (g v) \<noteq> e"
    and eq: "join '','' (map g xs) @ e # s = join '','' (map g ys) @ e # t"
  shows "xs = ys \<and> s = t"
proof (cases xs; cases ys)
  fix x xs' y ys'
  assume xs: "xs = x # xs'" and ys: "ys = y # ys'"
  have "concat (map (\<lambda>v. CHR '','' # g v) xs) @ e # s = concat (map (\<lambda>v. CHR '','' # g v) ys) @ e # t"
    using eq by (simp add: xs ys join_Cons comp_def)
  then show ?thesis using items_tail_app [OF item e] by blast
next
  fix y ys'
  assume "xs = []" "ys = y # ys'"
  with eq ne [of y] show ?thesis by (cases "g y") (auto simp: join_Cons)
next
  fix x xs'
  assume "xs = x # xs'" "ys = []"
  with eq ne [of x] show ?thesis by (cases "g x") (auto simp: join_Cons)
next
  assume "xs = []" "ys = []"
  with eq show ?thesis by simp
qed

text \<open>The first character tells the constructor.\<close>

definition tag_of_char :: "char \<Rightarrow> nat" where
  "tag_of_char c = (if c = CHR ''u'' then 0 else if c = CHR ''n'' then 1
     else if c = CHR ''t'' \<or> c = CHR ''f'' then 2 else if c = CHR ''-'' \<or> is_digit c then 3
     else if c = quote_mark then 4 else if c = CHR ''['' then 5 else if c = CHR ''{'' then 6 else 7)"

primrec tag :: "json \<Rightarrow> nat" where
  "tag JUndef = 0" | "tag JNull = 1" | "tag (JBool b) = 2" | "tag (JNum n) = 3"
| "tag (JStr s) = 4" | "tag (JArr vs) = 5" | "tag (JObj kvs) = 6"

lemma rtext_tag: "rtext v \<noteq> [] \<and> tag_of_char (hd (rtext v)) = tag v"
proof (cases v)
  case (JNum n)
  have "tag_of_char (hd (dec_int n)) = 3"
    using hd_dec_int [of n] by (auto simp: tag_of_char_def is_digit_def)
  with JNum show ?thesis by (simp add: rtext_def)
qed (simp_all add: rtext_def tag_of_char_def is_digit_def quote_str_def)

lemma tag_le: "tag v \<le> 6"
  by (cases v) simp_all

lemma rtext_hd_stops: "stops e \<Longrightarrow> hd (rtext v) \<noteq> e"
  using rtext_tag [of v] tag_le [of v] by (auto simp: stops_def tag_of_char_def is_digit_def split: if_splits)

lemma stops_not_digit: "stops c \<Longrightarrow> \<not> is_digit c"
  by (auto simp: stops_def is_digit_def)

lemma member_text_app:
  assumes "member_text (k, render v) @ s = member_text (k', render v') @ t"
  shows "k = k' \<and> rtext v @ s = rtext v' @ t"
proof -
  have "quote_str k @ '':'' @ rtext v @ s = quote_str k' @ '':'' @ rtext v' @ t"
    using assms by (simp add: member_text_def rtext_def)
  then have "k = k' \<and> '':'' @ rtext v @ s = '':'' @ rtext v' @ t" by (rule quote_str_app)
  then show ?thesis by simp
qed

lemma or_else_render: "v \<noteq> JUndef \<Longrightarrow> or_else '''' (render v) = rtext v"
  by (cases v) (simp_all add: rtext_def)

lemma tag_eq: "rtext a @ s = rtext b @ t \<Longrightarrow> tag a = tag b"
  using rtext_tag [of a] rtext_tag [of b] by (metis hd_append)

lemma rtext_arr: "list_all (\<lambda>v. v \<noteq> JUndef) vs \<Longrightarrow>
    rtext (JArr vs) = ''['' @ join '','' (map rtext vs) @ '']''"
proof -
  assume "list_all (\<lambda>v. v \<noteq> JUndef) vs"
  then have "map (or_else '''') (map render vs) = map rtext vs"
    by (induction vs) (auto simp: or_else_render)
  then show ?thesis by (simp add: rtext_def del: map_map)
qed

lemma rtext_obj:
  "rtext (JObj kvs) = ''{'' @ join '','' (map (\<lambda>m. member_text (map_prod id render m)) kvs) @ ''}''"
  by (simp add: rtext_def comp_def)

lemma rtext_app:
  assumes "arrays_defined a" "arrays_defined b" "stops c" "stops d"
    and "rtext a @ c # s = rtext b @ d # t"
  shows "a = b \<and> c # s = d # t"
  using assms
proof (induction a arbitrary: b c d s t)
  case (JNum n)
  from JNum.prems(5) [THEN tag_eq] obtain m where b: "b = JNum m" by (cases b) auto
  have "dec_int n @ c # s = dec_int m @ d # t" using JNum.prems b by (simp add: rtext_def)
  then have "n = m \<and> c # s = d # t"
    by (rule dec_int_app) (use JNum.prems in \<open>simp_all add: stops_not_digit\<close>)
  then show ?case using b by simp
next
  case (JStr x)
  from JStr.prems(5) [THEN tag_eq] obtain y where b: "b = JStr y" by (cases b) auto
  have "quote_str x @ c # s = quote_str y @ d # t" using JStr.prems b by (simp add: rtext_def)
  then show ?case using quote_str_app b by blast
next
  case (JArr xs)
  from JArr.prems(5) [THEN tag_eq] obtain ys where b: "b = JArr ys" by (cases b) auto
  have "join '','' (map rtext xs) @ CHR '']'' # c # s = join '','' (map rtext ys) @ CHR '']'' # d # t"
    using JArr.prems b by (simp add: rtext_arr)
  then have "xs = ys \<and> c # s = d # t"
  proof (rule items_app [rotated 4])
    fix v w c d s t
    assume "v \<in> set xs" "w \<in> set ys" "stops c" "stops d" "rtext v @ c # s = rtext w @ d # t"
    then show "v = w \<and> c # s = d # t"
      using JArr.IH [of v w c d s t] JArr.prems(1,2) b by (auto simp: list_all_iff)
  qed (use rtext_tag rtext_hd_stops in \<open>auto simp: stops_def\<close>)
  then show ?case using b by simp
next
  case (JObj xs)
  let ?g = "\<lambda>m. member_text (map_prod id render m)"
  from JObj.prems(5) [THEN tag_eq] obtain ys where b: "b = JObj ys" by (cases b) auto
  have "join '','' (map ?g xs) @ CHR ''}'' # c # s = join '','' (map ?g ys) @ CHR ''}'' # d # t"
    using JObj.prems b by (simp add: rtext_obj)
  then have "xs = ys \<and> c # s = d # t"
  proof (rule items_app [rotated 4])
    fix m n c d s t
    assume mn: "m \<in> set xs" "n \<in> set ys" "stops c" "stops d" "?g m @ c # s = ?g n @ d # t"
    obtain k v k' w where kv: "m = (k, v)" "n = (k', w)" by (cases m, cases n) auto
    have "k = k' \<and> rtext v @ c # s = rtext w @ d # t"
      using mn(5) kv by (intro member_text_app) simp
    moreover have "arrays_defined v" "arrays_defined w"
      using mn(1,2) JObj.prems(1,2) b kv by (auto simp: list_all_iff)
    ultimately show "m = n \<and> c # s = d # t"
      using JObj.IH [of m v w c d s t] mn kv by simp
  qed (auto simp: stops_def member_text_def quote_str_def)
  then show ?case using b by simp
next
  case JUndef
  from JUndef.prems(5) [THEN tag_eq] have b: "b = JUndef" by (cases b) auto
  with JUndef.prems(5) show ?case by (simp add: rtext_def)
next
  case JNull
  from JNull.prems(5) [THEN tag_eq] have b: "b = JNull" by (cases b) auto
  with JNull.prems(5) show ?case by (simp add: rtext_def)
next
  case (JBool x)
  from JBool.prems(5) [THEN tag_eq] obtain y where b: "b = JBool y" by (cases b) auto
  with JBool.prems(5) show ?case by (cases x; cases y) (simp_all add: rtext_def)
qed

text \<open>An object is delimited by its closing brace, whatever follows.\<close>

lemma rtext_obj_app:
  assumes "arrays_defined (JObj xs)" "arrays_defined (JObj ys)"
    and "rtext (JObj xs) @ s = rtext (JObj ys) @ t"
  shows "xs = ys \<and> s = t"
proof -
  let ?g = "\<lambda>m. member_text (map_prod id render m)"
  have "join '','' (map ?g xs) @ CHR ''}'' # s = join '','' (map ?g ys) @ CHR ''}'' # t"
    using assms(3) by (simp add: rtext_obj)
  then show ?thesis
  proof (rule items_app [rotated 4])
    fix m n c d s t
    assume mn: "m \<in> set xs" "n \<in> set ys" "stops c" "stops d" "?g m @ c # s = ?g n @ d # t"
    obtain k v k' w where kv: "m = (k, v)" "n = (k', w)" by (cases m, cases n) auto
    have "k = k' \<and> rtext v @ c # s = rtext w @ d # t"
      using mn(5) kv by (intro member_text_app) simp
    moreover have "arrays_defined v" "arrays_defined w"
      using mn(1,2) assms(1,2) kv by (auto simp: list_all_iff)
    ultimately show "m = n \<and> c # s = d # t"
      using rtext_app [of v w c d s t] mn kv by simp
  qed (auto simp: stops_def member_text_def quote_str_def)
qed

lemma sort_keys_JUndef_iff [simp]: "sort_keys v = JUndef \<longleftrightarrow> v = JUndef"
  by (cases v) simp_all

lemma arrays_defined_sort_keys [simp]: "arrays_defined (sort_keys v) = arrays_defined v"
proof (induction v)
  case (JObj kvs)
  then show ?case by (auto simp: list_all_iff)
qed (auto simp: list_all_iff)

lemma defined_sort_keys [simp]: "defined (sort_keys v) = defined v"
proof (induction v)
  case (JObj kvs)
  then show ?case by (auto simp: list_all_iff)
qed (auto simp: list_all_iff)

lemma defined_arrays_defined: "defined v \<Longrightarrow> arrays_defined v"
  by (induction v) (auto simp: list_all_iff)

lemma stored_JUndef_iff [simp]: "stored v = JUndef \<longleftrightarrow> v = JUndef"
  by (cases v) simp_all

lemma stored_defined: "v \<noteq> JUndef \<Longrightarrow> defined (stored v)"
proof (induction v)
  case (JArr vs)
  then show ?case by (auto simp: list_all_iff null_for_undef_def)
next
  case (JObj kvs)
  then show ?case by (auto simp: list_all_iff)
qed auto

lemma stored_id: "defined v \<Longrightarrow> stored v = v"
proof (induction v)
  case (JArr vs)
  then have "map (null_for_undef \<circ> stored) vs = map id vs"
    by (intro map_cong) (auto simp: list_all_iff null_for_undef_def)
  then show ?case by simp
next
  case (JObj kvs)
  have d: "defined v" if "(k, v) \<in> set kvs" for k v
    using JObj.prems that by (auto simp: list_all_iff)
  have "map (map_prod id stored) kvs = map (map_prod id id) kvs"
    by (rule map_member_cong) (use JObj.IH d in auto)
  then have "map (map_prod id stored) kvs = kvs" by (simp only: prod.map_id0 list.map_id)
  moreover have "filter (\<lambda>m. snd m \<noteq> JUndef) kvs = kvs"
    using d by (intro filter_True) fastforce
  ultimately show ?case by (simp only: stored.simps)
qed auto

text \<open>What an object keeps after a round trip through the database tells whether it had
  an undefined member.\<close>

lemma sort_keys_stored_neq: "v \<noteq> JUndef \<Longrightarrow> \<not> defined v \<Longrightarrow> sort_keys (stored v) \<noteq> sort_keys v"
  by (metis defined_sort_keys stored_defined)

lemma canonicalize_obj_text: "canonicalize (JObj kvs) = Some (rtext (sort_keys (JObj kvs)))"
  by (simp add: canonicalize_render rtext_def)

lemma canonicalize_obj_app:
  assumes "arrays_defined (JObj xs)" "arrays_defined (JObj ys)"
    and "canonicalize (JObj xs) = Some u" "canonicalize (JObj ys) = Some v" "u @ s = v @ t"
  shows "sort_keys (JObj xs) = sort_keys (JObj ys) \<and> s = t"
proof -
  obtain xs' ys' where sk: "sort_keys (JObj xs) = JObj xs'" "sort_keys (JObj ys) = JObj ys'" by simp
  have "rtext (JObj xs') @ s = rtext (JObj ys') @ t"
    using assms(3-5) by (simp add: canonicalize_obj_text sk del: sort_keys.simps canonicalize.simps)
  moreover have "arrays_defined (JObj xs')" "arrays_defined (JObj ys')"
    using assms(1,2) by (metis arrays_defined_sort_keys sk)+
  ultimately show ?thesis using rtext_obj_app sk by metis
qed

text \<open>The order in which the members of an object come (a \<open>JSONB\<close> column does not
  keep it) does not change its canonical serialisation.\<close>

lemma canonicalize_perm:
  assumes "distinct (map fst xs)" "distinct (map fst ys)" "set xs = set ys"
  shows "canonicalize (JObj xs) = canonicalize (JObj ys)"
proof -
  let ?f = "map (map_prod id canonicalize)"
  have "sort_key fst xs = sort_key fst ys"
  proof (rule map_sorted_distinct_set_unique [where f = fst])
    show "inj_on fst (set (sort_key fst xs) \<union> set (sort_key fst ys))"
      using assms by (simp add: distinct_map)
    show "distinct (map fst (sort_key fst xs))" "distinct (map fst (sort_key fst ys))"
      using assms(1,2) by (simp_all add: distinct_map)
  qed (use assms(3) in auto)
  then show ?thesis by (simp add: sort_key_map_prod)
qed

section \<open>Reading JSON values\<close>

text \<open>Property access, JavaScript truthiness and the reading of a string property.\<close>

definition jget :: "string \<Rightarrow> json \<Rightarrow> json" where
  "jget k v = (case v of JObj kvs \<Rightarrow> or_else JUndef (map_of kvs k) | _ \<Rightarrow> JUndef)"

definition truthy :: "json \<Rightarrow> bool" where
  "truthy v = (case v of JUndef \<Rightarrow> False | JNull \<Rightarrow> False | JBool b \<Rightarrow> b | JNum n \<Rightarrow> n \<noteq> 0
     | JStr s \<Rightarrow> s \<noteq> [] | JArr _ \<Rightarrow> True | JObj _ \<Rightarrow> True)"

definition jstr :: "json \<Rightarrow> string option" where
  "jstr v = (case v of JStr s \<Rightarrow> Some s | _ \<Rightarrow> None)"

definition opt_str :: "string option \<Rightarrow> json" where
  "opt_str x = (case x of None \<Rightarrow> JNull | Some s \<Rightarrow> JStr s)"

definition is_object :: "json \<Rightarrow> bool" where
  "is_object v = (case v of JObj _ \<Rightarrow> True | _ \<Rightarrow> False)"

lemma opt_str_inject [simp]: "opt_str x = opt_str y \<longleftrightarrow> x = y"
  by (cases x; cases y) (simp_all add: opt_str_def)

lemma defined_opt_str [simp]: "defined (opt_str x)" "arrays_defined (opt_str x)"
  "sort_keys (opt_str x) = opt_str x" "stored (opt_str x) = opt_str x"
  by (cases x, simp_all add: opt_str_def)+

section \<open>stringify on sorted flat objects\<close>

lemma stringify_members:
  "\<forall>m \<in> set kvs. stringify (snd m) = canonicalize (snd m) \<and> canonicalize (snd m) \<noteq> None \<Longrightarrow>
    concat (map (\<lambda>(k, w). case w of None \<Rightarrow> [] | Some s \<Rightarrow> [quote_str k @ '':'' @ s])
        (map (map_prod id stringify) kvs))
      = map member_text (map (map_prod id canonicalize) kvs)"
  by (induction kvs) (auto simp: member_text_def)

lemma stringify_flat:
  assumes "\<forall>m \<in> set kvs. stringify (snd m) = canonicalize (snd m) \<and> canonicalize (snd m) \<noteq> None"
  shows "stringify (JObj (sort_key fst kvs)) = canonicalize (JObj kvs)"
proof -
  have "\<forall>m \<in> set (sort_key fst kvs). stringify (snd m) = canonicalize (snd m) \<and> canonicalize (snd m) \<noteq> None"
    using assms by simp
  from stringify_members [OF this] show ?thesis
    unfolding stringify.simps canonicalize.simps sort_key_map_prod by (rule arg_cong)
qed

end
