(* ===== verification/Schema.thy ===== *)
theory Schema
  imports Json
begin

text \<open>
  The database schema of \<open>src/services/db.ts\<close> and the row types of
  \<open>src/types/index.ts\<close>: one record per table the services write, and the record
  \<open>server\<close> of all tables together with the sequence of the audit table and the
  in-process verification emitter.  A \<open>NULL\<close> column is \<open>None\<close>; a \<open>JSONB\<close>
  column is a \<open>json\<close> value.
\<close>

section \<open>Enumerations\<close>

datatype plan_tier = Free | Starter | Growth | Enterprise
datatype tenant_status = TenantActive | TenantSuspended | TenantDeactivated
datatype api_key_status = KeyActive | KeyRevoked
datatype device_status = DeviceActive | DeviceInactive | DeviceRetired
datatype device_type = MobileAndroid | MobileIos | Kiosk | IotBridge | Desktop
datatype enrollment_state = Pending | Enrolled | Revoked
datatype tenant_user_status = UserActive | UserInactive
datatype verification_method = MZkp | MFingerprint | MFace | MDepth | MSaml | MOidc | MManual
datatype verification_result = Pass | Fail | Challenge
datatype attendance_type = CheckIn | CheckOut
datatype attendance_result = Accepted | Rejected
datatype actor_type = ActorApiKey | ActorConsole | ActorDevice | ActorSystem
datatype audit_status = AuditSuccess | AuditFailure
datatype pairing_state = Issued | Consumed | Expired | Failed
datatype registration_state =
    AwaitingDevice | AwaitingCommitment | AwaitingVerification | Completed | Abandoned

definition actor_str :: "actor_type \<Rightarrow> string" where
  "actor_str a = (case a of ActorApiKey \<Rightarrow> ''api_key'' | ActorConsole \<Rightarrow> ''console''
     | ActorDevice \<Rightarrow> ''device'' | ActorSystem \<Rightarrow> ''system'')"

definition audit_status_str :: "audit_status \<Rightarrow> string" where
  "audit_status_str s = (case s of AuditSuccess \<Rightarrow> ''success'' | AuditFailure \<Rightarrow> ''failure'')"

lemma env_str_inject [simp]: "env_str e = env_str f \<longleftrightarrow> e = f"
  by (cases e; cases f) (simp_all add: env_str_def)

lemma actor_str_inject [simp]: "actor_str e = actor_str f \<longleftrightarrow> e = f"
  by (cases e; cases f) (simp_all add: actor_str_def)

lemma audit_status_str_inject [simp]: "audit_status_str e = audit_status_str f \<longleftrightarrow> e = f"
  by (cases e; cases f) (simp_all add: audit_status_str_def)

section \<open>Rows\<close>

record tenant =
  tn_id :: uuid
  tn_email :: string
  tn_password_hash :: string
  tn_company_name :: "string option"
  tn_plan :: plan_tier
  tn_status :: tenant_status
  tn_rate_limit :: int
  tn_monthly_quota :: int
  tn_security_policy :: json
  tn_created_at :: time_ms
  tn_updated_at :: time_ms

record api_key =
  ak_id :: uuid
  ak_tenant_id :: uuid
  ak_name :: string
  ak_key_prefix :: string
  ak_key_hash :: string
  ak_scopes :: "string list"
  ak_environment :: environment
  ak_status :: api_key_status
  ak_last_used_at :: "time_ms option"
  ak_expires_at :: "time_ms option"
  ak_created_at :: time_ms
  ak_revoked_at :: "time_ms option"

record device =
  dv_id :: uuid
  dv_tenant_id :: uuid
  dv_environment :: environment
  dv_external_id :: string
  dv_name :: string
  dv_device_type :: device_type
  dv_location_id :: "string option"
  dv_status :: device_status
  dv_enrollment_state :: enrollment_state
  dv_enrollment_code_hash :: "string option"
  dv_enrollment_code_expires_at :: "time_ms option"
  dv_enrolled_at :: "time_ms option"
  dv_fingerprint_hash :: "string option"
  dv_attestation_kind :: "string option"
  dv_battery_level :: "int option"
  dv_metadata :: json
  dv_last_seen_at :: "time_ms option"
  dv_created_at :: time_ms
  dv_updated_at :: time_ms

record tenant_user =
  us_id :: uuid
  us_tenant_id :: uuid
  us_environment :: environment
  us_external_id :: string
  us_full_name :: string
  us_email :: "string option"
  us_phone :: "string option"
  us_employee_code :: "string option"
  us_status :: tenant_user_status
  us_primary_device_id :: "uuid option"
  us_did :: "string option"
  us_commitment :: "string option"
  us_metadata :: json
  us_last_verified_at :: "time_ms option"
  us_created_at :: time_ms
  us_updated_at :: time_ms

record verification =
  ve_id :: uuid
  ve_tenant_id :: uuid
  ve_environment :: environment
  ve_user_id :: "uuid option"
  ve_device_id :: "uuid option"
  ve_api_key_id :: "uuid option"
  ve_method :: verification_method
  ve_result :: verification_result
  ve_reason :: "string option"
  ve_confidence_score :: "int option"
  ve_reference_id :: "string option"
  ve_metadata :: json
  ve_occurred_at :: time_ms
  ve_created_at :: time_ms

record attendance =
  at_id :: uuid
  at_tenant_id :: uuid
  at_environment :: environment
  at_user_id :: uuid
  at_device_id :: "uuid option"
  at_verification_id :: "uuid option"
  at_event_type :: attendance_type
  at_result :: attendance_result
  at_metadata :: json
  at_occurred_at :: time_ms
  at_created_at :: time_ms

record pairing_session =
  ps_id :: uuid
  ps_tenant_id :: uuid
  ps_environment :: environment
  ps_api_key_id :: "uuid option"
  ps_nonce_hex :: string
  ps_bind_hash :: string
  ps_state :: pairing_state
  ps_consumed_user_id :: "uuid option"
  ps_proof_hash :: "string option"
  ps_last_error_code :: "string option"
  ps_desktop_ip :: "string option"
  ps_desktop_user_agent :: "string option"
  ps_failure_count :: nat
  ps_expires_at :: time_ms
  ps_consumed_at :: "time_ms option"
  ps_created_at :: time_ms

record registration_session =
  rs_id :: uuid
  rs_tenant_id :: uuid
  rs_environment :: environment
  rs_profile :: json
  rs_state :: registration_state
  rs_device_id :: "uuid option"
  rs_did :: "string option"
  rs_commitment :: "string option"
  rs_tenant_user_id :: "uuid option"
  rs_pair_code_hash :: "string option"
  rs_pair_code_expires_at :: "time_ms option"
  rs_enroll_code_hash :: "string option"
  rs_enroll_code_expires_at :: "time_ms option"
  rs_verify_code_hash :: "string option"
  rs_verify_code_expires_at :: "time_ms option"
  rs_verify_challenge_nonce :: "string option"
  rs_expires_at :: time_ms
  rs_created_at :: time_ms
  rs_updated_at :: time_ms

record audit_event =
  au_id :: nat
  au_tenant_id :: uuid
  au_environment :: "environment option"
  au_actor_type :: actor_type
  au_actor_id :: "string option"
  au_action :: string
  au_entity_type :: string
  au_entity_id :: "string option"
  au_status :: audit_status
  au_summary :: string
  au_metadata :: json
  au_created_at :: time_ms
  au_previous_hash :: "string option"
  au_event_hash :: "string option"

record audit_anchor =
  an_tenant_id :: uuid
  an_environment :: "environment option"
  an_day_utc :: int
  an_terminal_hash :: string
  an_row_count :: nat

record pending_signup =
  pd_email :: string
  pd_password_hash :: string
  pd_company_name :: "string option"
  pd_token_hash :: string
  pd_expires_at :: time_ms
  pd_consumed_at :: "time_ms option"

record usage_month =
  um_tenant_id :: uuid
  um_month :: int
  um_total_requests :: int
  um_zkp_verifications :: int
  um_zkp_registrations :: int
  um_saml_auths :: int
  um_oidc_auths :: int

record usage_log =
  ul_tenant_id :: uuid
  ul_api_key_id :: "uuid option"
  ul_endpoint :: string
  ul_method :: string
  ul_status_code :: int
  ul_response_time_ms :: int
  ul_ip_address :: "string option"
  ul_user_agent :: "string option"
  ul_created_at :: time_ms

section \<open>The server\<close>

text \<open>The event a dashboard subscriber receives, and the per-tenant emitter: the
  registered listeners (key, guard, identity) and what was delivered to whom.\<close>

record verification_event =
  vp_tenant_id :: uuid
  vp_audit_id :: nat
  vp_environment :: "environment option"
  vp_action :: string
  vp_status :: audit_status
  vp_created_at :: time_ms
  vp_did :: "string option"
  vp_latency_ms :: "int option"
  vp_proof_hash :: "string option"
  vp_reason :: "string option"

record listener =
  ls_key :: uuid
  ls_tenant :: uuid
  ls_id :: nat

record emitter =
  em_listeners :: "listener list"
  em_delivered :: "(nat \<times> verification_event) list"

record server =
  t_tenants :: "tenant list"
  t_api_keys :: "api_key list"
  t_devices :: "device list"
  t_users :: "tenant_user list"
  t_verifications :: "verification list"
  t_attendance :: "attendance list"
  t_pairing :: "pairing_session list"
  t_registrations :: "registration_session list"
  t_audit :: "audit_event list"
  t_audit_next :: nat
  t_anchors :: "audit_anchor list"
  t_pending :: "pending_signup list"
  t_usage_monthly :: "usage_month list"
  t_usage_logs :: "usage_log list"
  emitter_of :: emitter

definition empty_server :: server where
  "empty_server = \<lparr> t_tenants = [], t_api_keys = [], t_devices = [], t_users = [],
     t_verifications = [], t_attendance = [], t_pairing = [], t_registrations = [],
     t_audit = [], t_audit_next = 1, t_anchors = [], t_pending = [], t_usage_monthly = [],
     t_usage_logs = [], emitter_of = \<lparr> em_listeners = [], em_delivered = [] \<rparr> \<rparr>"

section \<open>Unique indexes\<close>

text \<open>An \<open>INSERT\<close> that violates a \<open>UNIQUE\<close> constraint of the schema raises; the
  error is the only database error the model keeps.\<close>

definition device_conflict :: "device \<Rightarrow> device \<Rightarrow> bool" where
  "device_conflict d e \<longleftrightarrow> dv_id d = dv_id e
     \<or> (dv_tenant_id d = dv_tenant_id e \<and> dv_environment d = dv_environment e
         \<and> dv_external_id d = dv_external_id e)"

definition user_conflict :: "tenant_user \<Rightarrow> tenant_user \<Rightarrow> bool" where
  "user_conflict u v \<longleftrightarrow> us_id u = us_id v
     \<or> (us_tenant_id u = us_tenant_id v \<and> us_environment u = us_environment v
         \<and> (us_external_id u = us_external_id v
             \<or> (us_did u \<noteq> None \<and> us_did u = us_did v)))"

definition battery_ok :: "device \<Rightarrow> bool" where
  "battery_ok d = (case dv_battery_level d of None \<Rightarrow> True | Some b \<Rightarrow> 0 \<le> b \<and> b \<le> 100)"

definition device_key :: "device \<Rightarrow> uuid \<times> environment \<times> string" where
  "device_key d = (dv_tenant_id d, dv_environment d, dv_external_id d)"

definition insert_device :: "device \<Rightarrow> server \<Rightarrow> server option" where
  "insert_device d s =
     (if list_ex (device_conflict d) (t_devices s) \<or> \<not> battery_ok d then None
      else Some (s\<lparr>t_devices := t_devices s @ [d]\<rparr>))"

text \<open>The result of an \<open>UPDATE\<close> of the devices, refused when it breaks a constraint.\<close>

definition store_devices :: "device list \<Rightarrow> server \<Rightarrow> server option" where
  "store_devices t s =
     (if distinct (map device_key t) \<and> list_all battery_ok t then Some (s\<lparr>t_devices := t\<rparr>) else None)"

definition insert_user :: "tenant_user \<Rightarrow> server \<Rightarrow> server option" where
  "insert_user u s =
     (if list_ex (user_conflict u) (t_users s) then None
      else Some (s\<lparr>t_users := t_users s @ [u]\<rparr>))"

definition devices_unique :: "server \<Rightarrow> bool" where
  "devices_unique s \<longleftrightarrow> distinct (map dv_id (t_devices s))
     \<and> distinct (map device_key (t_devices s)) \<and> list_all battery_ok (t_devices s)"

definition users_unique :: "server \<Rightarrow> bool" where
  "users_unique s \<longleftrightarrow> distinct (map us_id (t_users s))
     \<and> distinct (map (\<lambda>u. (us_tenant_id u, us_environment u, us_external_id u)) (t_users s))"

lemma insert_device_Some:
  "insert_device d s = Some s' \<Longrightarrow>
    s' = s\<lparr>t_devices := t_devices s @ [d]\<rparr> \<and> \<not> list_ex (device_conflict d) (t_devices s) \<and> battery_ok d"
  by (auto simp: insert_device_def split: if_splits)

lemma insert_user_Some:
  "insert_user u s = Some s' \<Longrightarrow>
    s' = s\<lparr>t_users := t_users s @ [u]\<rparr> \<and> \<not> list_ex (user_conflict u) (t_users s)"
  by (auto simp: insert_user_def split: if_splits)

lemma insert_device_unique:
  "insert_device d s = Some s' \<Longrightarrow> devices_unique s \<Longrightarrow> devices_unique s'"
  by (auto simp: insert_device_def devices_unique_def device_conflict_def device_key_def list_ex_iff
      split: if_splits)

lemma insert_user_unique:
  "insert_user u s = Some s' \<Longrightarrow> users_unique s \<Longrightarrow> users_unique s'"
  by (auto simp: insert_user_def users_unique_def user_conflict_def list_ex_iff split: if_splits)

end
