(* ===== verification/Hash_Chain.thy ===== *)
theory Hash_Chain
  imports Prelude
begin

text \<open>
  The hash chain both audit logs build: a row stores the hash of the row before it and
  its own hash, computed from its content and that previous hash.  The locale is the
  interface between a log and its audit: the log promises that the text it hashes
  determines the hashed content and the previous hash; the audit gets that two chains
  with the same head have the same contents, unless the texts the two logs hash hold a
  collision of the hash function (or a preimage of the genesis value).  No assumption is
  made on the hash function.
\<close>

section \<open>Linked rows\<close>

fun linked :: "('r \<Rightarrow> string) \<Rightarrow> ('r \<Rightarrow> string) \<Rightarrow> ('r \<Rightarrow> string \<Rightarrow> string) \<Rightarrow> string \<Rightarrow> 'r list \<Rightarrow> bool" where
  "linked prev hsh cont p [] = True"
| "linked prev hsh cont p (r # rs) =
     (prev r = p \<and> cont r p = hsh r \<and> linked prev hsh cont (hsh r) rs)"

definition chain_head :: "('r \<Rightarrow> string) \<Rightarrow> string \<Rightarrow> 'r list \<Rightarrow> string" where
  "chain_head hsh p rs = (if rs = [] then p else hsh (last rs))"

lemma chain_head_Nil [simp]: "chain_head hsh p [] = p"
  by (simp add: chain_head_def)

lemma chain_head_snoc [simp]: "chain_head hsh p (rs @ [r]) = hsh r"
  by (simp add: chain_head_def)

lemma chain_head_Cons [simp]: "chain_head hsh p (r # rs) = chain_head hsh (hsh r) rs"
  by (simp add: chain_head_def)

lemma linked_append:
  "linked prev hsh cont p (rs @ qs) \<longleftrightarrow>
     linked prev hsh cont p rs \<and> linked prev hsh cont (chain_head hsh p rs) qs"
  by (induction rs arbitrary: p) auto

lemma linked_snoc:
  "linked prev hsh cont p (rs @ [r]) \<longleftrightarrow>
     linked prev hsh cont p rs \<and> prev r = chain_head hsh p rs \<and> cont r (prev r) = hsh r"
  by (auto simp: linked_append)

lemma linked_hash: "linked prev hsh cont p rs \<Longrightarrow> r \<in> set rs \<Longrightarrow> cont r (prev r) = hsh r"
  by (induction rs arbitrary: p) auto

lemma linked_take: "linked prev hsh cont p rs \<Longrightarrow> linked prev hsh cont p (take n rs)"
  by (metis append_take_drop_id linked_append)

section \<open>The interface of a log\<close>

locale hash_chain =
  fixes prev :: "'r \<Rightarrow> string" and hsh :: "'r \<Rightarrow> string"
    and preimage :: "'r \<Rightarrow> string \<Rightarrow> string" and body :: "'r \<Rightarrow> 'b"
    and good :: "'r \<Rightarrow> bool" and H :: "string \<Rightarrow> string"
  assumes preimage_inj:
    "good r \<Longrightarrow> good q \<Longrightarrow> preimage r p = preimage q p' \<Longrightarrow> body r = body q \<and> p = p'"
begin

abbreviation valid :: "string \<Rightarrow> 'r list \<Rightarrow> bool" where
  "valid g rs \<equiv> linked prev hsh (\<lambda>r p. H (preimage r p)) g rs"

definition hashed :: "'r list \<Rightarrow> string set" where
  "hashed rs = (\<lambda>r. preimage r (prev r)) ` set rs"

lemma hashed_snoc [simp]: "hashed (rs @ [r]) = insert (preimage r (prev r)) (hashed rs)"
  by (simp add: hashed_def)

text \<open>A row appended with the current head keeps the chain valid.\<close>

lemma valid_append:
  "valid g rs \<Longrightarrow> prev r = chain_head hsh g rs \<Longrightarrow> hsh r = H (preimage r (prev r)) \<Longrightarrow>
    valid g (rs @ [r])"
  by (simp add: linked_snoc)

text \<open>Equal heads mean equal contents, or a collision among the texts the logs hash.\<close>

lemma same_head:
  assumes "valid g rs" "valid g qs" "\<forall>r \<in> set rs \<union> set qs. good r"
    and "chain_head hsh g rs = chain_head hsh g qs"
  shows "map body rs = map body qs
    \<or> (\<exists>x \<in> hashed rs. \<exists>y \<in> hashed qs. x \<noteq> y \<and> H x = H y)
    \<or> (\<exists>x \<in> hashed rs \<union> hashed qs. H x = g)"
  using assms
proof (induction rs arbitrary: qs rule: rev_induct)
  case Nil
  show ?case
  proof (cases qs rule: rev_cases)
    case Nil
    then show ?thesis by simp
  next
    case (snoc qs' q)
    have "H (preimage q (prev q)) = hsh q" using Nil.prems(2) unfolding snoc linked_snoc by blast
    then have "H (preimage q (prev q)) = g" using Nil.prems(4) snoc by simp
    then show ?thesis using snoc by auto
  qed
next
  case (snoc r rs)
  have r: "valid g rs" "prev r = chain_head hsh g rs" "H (preimage r (prev r)) = hsh r"
    using snoc.prems(1) unfolding linked_snoc by blast+
  show ?case
  proof (cases qs rule: rev_cases)
    case Nil
    with snoc.prems r have "H (preimage r (prev r)) = g" by simp
    then show ?thesis by auto
  next
    case qs: (snoc qs' q)
    have q: "valid g qs'" "prev q = chain_head hsh g qs'" "H (preimage q (prev q)) = hsh q"
      using snoc.prems(2) unfolding qs linked_snoc by blast+
    have h: "H (preimage r (prev r)) = H (preimage q (prev q))"
      using r(3) q(3) snoc.prems(4) qs by simp
    show ?thesis
    proof (cases "preimage r (prev r) = preimage q (prev q)")
      case False
      with h show ?thesis using qs by auto
    next
      case True
      then have "body r = body q \<and> prev r = prev q"
        using snoc.prems(3) qs by (intro preimage_inj) auto
      then show ?thesis
        using snoc.IH [OF r(1) q(1)] snoc.prems(3) qs r(2) q(2) by auto
    qed
  qed
qed

text \<open>A log rewritten in one place but with its old head is caught.\<close>

lemma rewrite_detected:
  assumes "valid g rs" "chain_head hsh g rs = chain_head hsh g qs" "map body rs \<noteq> map body qs"
    and "\<forall>r \<in> set rs \<union> set qs. good r"
    and "\<forall>x \<in> hashed rs. \<forall>y \<in> hashed qs. H x = H y \<longrightarrow> x = y"
    and "\<forall>x \<in> hashed rs \<union> hashed qs. H x \<noteq> g"
  shows "\<not> valid g qs"
  using same_head [OF assms(1)] assms(2-6) by blast

end

end
