(* ===== verification/Audit_Log.thy ===== *)
theory Audit_Log
  imports Schema Hash_Chain
begin

text \<open>
  The per-tenant audit chain of the API (\<open>src/services/audit.ts\<close>), the entry point
  \<open>recordAuditEvent\<close> of \<open>src/services/platform.ts\<close>, and the live fan-out of
  verification events (\<open>src/services/verification-events.ts\<close>).  SHA-256 is the
  parameter \<open>sha\<close>; nothing is assumed of it.
\<close>

section \<open>The hashed payload\<close>

definition GENESIS_PREVIOUS_HASH :: string where
  "GENESIS_PREVIOUS_HASH = ''genesis''"

record audit_payload =
  pl_tenant_id :: uuid
  pl_environment :: "environment option"
  pl_actor_type :: actor_type
  pl_actor_id :: "string option"
  pl_action :: string
  pl_entity_type :: string
  pl_entity_id :: "string option"
  pl_status :: audit_status
  pl_summary :: string
  pl_metadata :: json

definition payload_json :: "audit_payload \<Rightarrow> json" where
  "payload_json p = JObj
     [(''tenant_id'', JStr (pl_tenant_id p)),
      (''environment'', opt_str (map_option env_str (pl_environment p))),
      (''actor_type'', JStr (actor_str (pl_actor_type p))),
      (''actor_id'', opt_str (pl_actor_id p)),
      (''action'', JStr (pl_action p)),
      (''entity_type'', JStr (pl_entity_type p)),
      (''entity_id'', opt_str (pl_entity_id p)),
      (''status'', JStr (audit_status_str (pl_status p))),
      (''summary'', JStr (pl_summary p)),
      (''metadata'', pl_metadata p)]"

definition hash_text :: "audit_payload \<Rightarrow> string \<Rightarrow> string" where
  "hash_text p previousHash = or_else '''' (canonicalize (payload_json p)) @ ''|'' @ previousHash"

definition computeEventHash :: "(string \<Rightarrow> string) \<Rightarrow> audit_payload \<Rightarrow> string \<Rightarrow> string" where
  "computeEventHash sha p previousHash = ''0x'' @ sha (hash_text p previousHash)"

section \<open>Verification events\<close>

definition VERIFICATION_ACTIONS :: "string list" where
  "VERIFICATION_ACTIONS = [''verification.recorded'', ''verification.verify_success'',
     ''verification.verify_failure'', ''auth.verify_success'', ''auth.verify_failure'']"

definition isVerificationAction :: "string \<Rightarrow> bool" where
  "isVerificationAction action = (action \<in> set VERIFICATION_ACTIONS)"

text \<open>Listeners fire in order of registration; the emitter key and the guard inside the
  wrapped handler must both match the tenant of the event.\<close>

definition emitVerificationEvent :: "verification_event \<Rightarrow> emitter \<Rightarrow> emitter" where
  "emitVerificationEvent ev em = em\<lparr>em_delivered := em_delivered em @
     map (\<lambda>l. (ls_id l, ev))
       (filter (\<lambda>l. ls_key l = vp_tenant_id ev \<and> vp_tenant_id ev = ls_tenant l) (em_listeners em))\<rparr>"

definition subscribeVerifications :: "uuid \<Rightarrow> nat \<Rightarrow> emitter \<Rightarrow> emitter" where
  "subscribeVerifications tenantId i em =
     em\<lparr>em_listeners := em_listeners em @ [\<lparr> ls_key = tenantId, ls_tenant = tenantId, ls_id = i \<rparr>]\<rparr>"

definition closeSubscription :: "nat \<Rightarrow> emitter \<Rightarrow> emitter" where
  "closeSubscription i em = em\<lparr>em_listeners := filter (\<lambda>l. ls_id l \<noteq> i) (em_listeners em)\<rparr>"

definition jnum :: "json \<Rightarrow> int option" where
  "jnum v = (case v of JNum n \<Rightarrow> Some n | _ \<Rightarrow> None)"

definition first_some :: "'a option \<Rightarrow> 'a option \<Rightarrow> 'a option" where
  "first_some x y = (case x of None \<Rightarrow> y | Some _ \<Rightarrow> x)"

definition verification_payload :: "audit_payload \<Rightarrow> nat \<Rightarrow> time_ms \<Rightarrow> verification_event" where
  "verification_payload p auditId now = (let meta = pl_metadata p in
     \<lparr> vp_tenant_id = pl_tenant_id p,
       vp_audit_id = auditId,
       vp_environment = pl_environment p,
       vp_action = pl_action p,
       vp_status = pl_status p,
       vp_created_at = now,
       vp_did = jstr (jget ''did'' meta),
       vp_latency_ms = first_some (jnum (jget ''latency_ms'' meta)) (jnum (jget ''latencyMs'' meta)),
       vp_proof_hash = first_some (jstr (jget ''proof_hash'' meta)) (jstr (jget ''proofHash'' meta)),
       vp_reason = jstr (jget ''reason'' meta) \<rparr>)"

section \<open>Appending\<close>

definition in_chain :: "uuid \<Rightarrow> environment option \<Rightarrow> audit_event \<Rightarrow> bool" where
  "in_chain tenantId env r \<longleftrightarrow> au_tenant_id r = tenantId \<and> au_environment r = env"

text \<open>Rows are in ascending order of \<open>id\<close>, so the first match from the end is the newest.\<close>

definition fetchPreviousHash :: "uuid \<Rightarrow> environment option \<Rightarrow> server \<Rightarrow> string" where
  "fetchPreviousHash tenantId env s =
     (case first_row (\<lambda>r. in_chain tenantId env r \<and> au_event_hash r \<noteq> None) (rev (t_audit s)) of
        None \<Rightarrow> GENESIS_PREVIOUS_HASH
      | Some r \<Rightarrow> or_else GENESIS_PREVIOUS_HASH (au_event_hash r))"

definition audit_row :: "audit_payload \<Rightarrow> nat \<Rightarrow> time_ms \<Rightarrow> string \<Rightarrow> string \<Rightarrow> audit_event" where
  "audit_row p i now previousHash eventHash =
     \<lparr> au_id = i, au_tenant_id = pl_tenant_id p, au_environment = pl_environment p,
       au_actor_type = pl_actor_type p, au_actor_id = pl_actor_id p, au_action = pl_action p,
       au_entity_type = pl_entity_type p, au_entity_id = pl_entity_id p, au_status = pl_status p,
       au_summary = pl_summary p, au_metadata = stored (pl_metadata p), au_created_at = now,
       au_previous_hash = Some previousHash, au_event_hash = Some eventHash \<rparr>"

record append_receipt =
  rc_id :: nat
  rc_previous_hash :: string
  rc_event_hash :: string

definition appendAuditEvent ::
  "(string \<Rightarrow> string) \<Rightarrow> time_ms \<Rightarrow> audit_payload \<Rightarrow> server \<Rightarrow> append_receipt \<times> server" where
  "appendAuditEvent sha now p s =
     (let previousHash = fetchPreviousHash (pl_tenant_id p) (pl_environment p) s;
          eventHash = computeEventHash sha p previousHash;
          i = t_audit_next s;
          committed = s\<lparr>t_audit := t_audit s @ [audit_row p i now previousHash eventHash],
                        t_audit_next := i + 1\<rparr>;
          done = (if isVerificationAction (pl_action p)
                  then committed\<lparr>emitter_of :=
                         emitVerificationEvent (verification_payload p i now) (emitter_of committed)\<rparr>
                  else committed)
      in (\<lparr> rc_id = i, rc_previous_hash = previousHash, rc_event_hash = eventHash \<rparr>, done))"

text \<open>\<open>recordAuditEvent\<close>: absent fields become \<open>null\<close>, a metadata that is not an
  object becomes the empty object.\<close>

record audit_input =
  ai_environment :: "environment option"
  ai_actor_type :: actor_type
  ai_actor_id :: "string option"
  ai_action :: string
  ai_entity_type :: string
  ai_entity_id :: "string option"
  ai_status :: audit_status
  ai_summary :: string
  ai_metadata :: json

definition sanitizeMetadata :: "json \<Rightarrow> json" where
  "sanitizeMetadata m = (if is_object m then m else JObj [])"

definition input_payload :: "uuid \<Rightarrow> audit_input \<Rightarrow> audit_payload" where
  "input_payload tenantId a =
     \<lparr> pl_tenant_id = tenantId, pl_environment = ai_environment a,
       pl_actor_type = ai_actor_type a, pl_actor_id = ai_actor_id a, pl_action = ai_action a,
       pl_entity_type = ai_entity_type a, pl_entity_id = ai_entity_id a, pl_status = ai_status a,
       pl_summary = ai_summary a, pl_metadata = sanitizeMetadata (ai_metadata a) \<rparr>"

definition recordAuditEvent ::
  "(string \<Rightarrow> string) \<Rightarrow> time_ms \<Rightarrow> uuid \<Rightarrow> audit_input \<Rightarrow> server \<Rightarrow> server" where
  "recordAuditEvent sha now tenantId a s = snd (appendAuditEvent sha now (input_payload tenantId a) s)"

section \<open>Replaying\<close>

definition row_payload :: "audit_event \<Rightarrow> audit_payload" where
  "row_payload r =
     \<lparr> pl_tenant_id = au_tenant_id r, pl_environment = au_environment r,
       pl_actor_type = au_actor_type r, pl_actor_id = au_actor_id r, pl_action = au_action r,
       pl_entity_type = au_entity_type r, pl_entity_id = au_entity_id r, pl_status = au_status r,
       pl_summary = au_summary r,
       pl_metadata = (if au_metadata r = JNull then JObj [] else au_metadata r) \<rparr>"

datatype chain_verdict = ChainOk | ChainBroken (broken_at: nat) (broken_reason: string)

fun replay :: "(string \<Rightarrow> string) \<Rightarrow> string option \<Rightarrow> audit_event list \<Rightarrow> chain_verdict" where
  "replay sha expected [] = ChainOk"
| "replay sha expected (row # rows) =
     (case (au_previous_hash row, au_event_hash row) of
        (Some prev, Some ev) \<Rightarrow>
          if expected \<noteq> None \<and> Some prev \<noteq> expected then
            ChainBroken (au_id row)
              (''previous_hash mismatch: row says '' @ prev @ '', expected '' @ or_else '''' expected)
          else (let recomputed = computeEventHash sha (row_payload row) prev in
            if recomputed \<noteq> ev then
              ChainBroken (au_id row)
                (''event_hash mismatch: row says '' @ ev @ '', recomputed '' @ recomputed)
            else replay sha (Some ev) rows)
      | _ \<Rightarrow> replay sha None rows)"

definition verifyAuditChain ::
  "(string \<Rightarrow> string) \<Rightarrow> uuid \<Rightarrow> environment option \<Rightarrow> nat \<Rightarrow> nat \<Rightarrow> server \<Rightarrow> chain_verdict" where
  "verifyAuditChain sha tenantId env startId limit s =
     replay sha None
       (take limit (filter (\<lambda>r. in_chain tenantId env r \<and> startId \<le> au_id r) (t_audit s)))"

section \<open>The audit chain as a hash chain\<close>

definition row_prev :: "audit_event \<Rightarrow> string" where
  "row_prev r = or_else '''' (au_previous_hash r)"

definition row_hash :: "audit_event \<Rightarrow> string" where
  "row_hash r = or_else '''' (au_event_hash r)"

definition row_body :: "audit_event \<Rightarrow> json" where
  "row_body r = sort_keys (payload_json (row_payload r))"

definition row_text :: "audit_event \<Rightarrow> string \<Rightarrow> string" where
  "row_text r p = hash_text (row_payload r) p"

definition prefixed :: "(string \<Rightarrow> string) \<Rightarrow> string \<Rightarrow> string" where
  "prefixed sha x = ''0x'' @ sha x"

definition hashed_row :: "audit_event \<Rightarrow> bool" where
  "hashed_row r \<longleftrightarrow> au_previous_hash r \<noteq> None \<and> au_event_hash r \<noteq> None"

definition chain_of :: "uuid \<Rightarrow> environment option \<Rightarrow> server \<Rightarrow> audit_event list" where
  "chain_of tenantId env s = filter (in_chain tenantId env) (t_audit s)"

abbreviation linked_rows :: "(string \<Rightarrow> string) \<Rightarrow> string \<Rightarrow> audit_event list \<Rightarrow> bool" where
  "linked_rows sha \<equiv> linked row_prev row_hash (\<lambda>r p. prefixed sha (row_text r p))"

lemma computeEventHash_row: "computeEventHash sha (row_payload r) p = prefixed sha (row_text r p)"
  by (simp add: computeEventHash_def prefixed_def row_text_def)

lemma hash_text_app:
  assumes "arrays_defined (pl_metadata p)" "arrays_defined (pl_metadata q)"
    and "hash_text p a = hash_text q b"
  shows "sort_keys (payload_json p) = sort_keys (payload_json q) \<and> a = b"
proof -
  obtain xs ys where k: "payload_json p = JObj xs" "payload_json q = JObj ys"
    by (simp add: payload_json_def)
  obtain u v where t: "canonicalize (JObj xs) = Some u" "canonicalize (JObj ys) = Some v"
    by simp
  have "arrays_defined (payload_json p)" "arrays_defined (payload_json q)"
    using assms(1,2) by (simp_all add: payload_json_def)
  moreover have "u @ ''|'' @ a = v @ ''|'' @ b"
    using assms(3) by (simp add: hash_text_def k t del: canonicalize.simps)
  ultimately show ?thesis
    using canonicalize_obj_app [of xs ys u v "''|'' @ a" "''|'' @ b"] k t by simp
qed

interpretation audit_chain: hash_chain row_prev row_hash row_text row_body
    "\<lambda>r. arrays_defined (au_metadata r)" "prefixed sha" for sha
proof unfold_locales
  fix r q p p'
  assume "arrays_defined (au_metadata r)" "arrays_defined (au_metadata q)" "row_text r p = row_text q p'"
  then show "row_body r = row_body q \<and> p = p'"
    unfolding row_text_def row_body_def
    by (intro hash_text_app) (simp_all add: row_payload_def)
qed

lemma arrays_defined_row [simp]:
  "arrays_defined (au_metadata r) \<Longrightarrow> arrays_defined (pl_metadata (row_payload r))"
  by (simp add: row_payload_def)

lemma prefixed_not_genesis: "prefixed sha x \<noteq> GENESIS_PREVIOUS_HASH"
  by (simp add: prefixed_def GENESIS_PREVIOUS_HASH_def)

subsection \<open>Replay and linkage\<close>

lemma hashed_rowE:
  assumes "hashed_row r"
  obtains "au_previous_hash r = Some (row_prev r)" "au_event_hash r = Some (row_hash r)"
  using assms by (auto simp: hashed_row_def row_prev_def row_hash_def)

lemma replay_Some_iff:
  "\<forall>r \<in> set rows. hashed_row r \<Longrightarrow> replay sha (Some p) rows = ChainOk \<longleftrightarrow> linked_rows sha p rows"
proof (induction rows arbitrary: p)
  case Nil
  then show ?case by simp
next
  case (Cons r rows)
  then obtain e: "au_previous_hash r = Some (row_prev r)" "au_event_hash r = Some (row_hash r)"
    using hashed_rowE by auto
  show ?case using Cons by (simp add: e Let_def computeEventHash_row)
qed

lemma replay_None:
  "hashed_row r \<Longrightarrow> replay sha None (r # rows) = replay sha (Some (row_prev r)) (r # rows)"
  by (auto elim!: hashed_rowE)

lemma replay_None_iff:
  assumes "\<forall>r \<in> set rows. hashed_row r"
  shows "replay sha None rows = ChainOk \<longleftrightarrow>
    (rows = [] \<or> linked_rows sha (row_prev (hd rows)) rows)"
proof (cases rows)
  case (Cons r rs)
  have "replay sha None rows = replay sha (Some (row_prev r)) rows"
    unfolding Cons by (rule replay_None) (use assms Cons in simp)
  then show ?thesis using replay_Some_iff [OF assms] Cons by simp
qed simp

lemma linked_rows_drop:
  "linked_rows sha p rows \<Longrightarrow> drop n rows \<noteq> [] \<Longrightarrow>
    linked_rows sha (row_prev (hd (drop n rows))) (drop n rows)"
proof -
  assume l: "linked_rows sha p rows" and ne: "drop n rows \<noteq> []"
  have "linked_rows sha p (take n rows @ drop n rows)" using l by simp
  then have "linked_rows sha (chain_head row_hash p (take n rows)) (drop n rows)"
    by (simp only: linked_append)
  then show ?thesis using ne by (cases "drop n rows") auto
qed

lemma replay_segment:
  assumes "\<forall>r \<in> set rows. hashed_row r" "linked_rows sha p rows"
  shows "replay sha None (take m (drop n rows)) = ChainOk"
proof (cases "drop n rows = []")
  case False
  then have "linked_rows sha (row_prev (hd (drop n rows))) (drop n rows)"
    using assms(2) by (rule linked_rows_drop [rotated])
  then have l: "linked_rows sha (row_prev (hd (drop n rows))) (take m (drop n rows))"
    by (rule linked_take)
  have h: "\<forall>r \<in> set (take m (drop n rows)). hashed_row r"
    using assms(1) by (meson in_set_dropD in_set_takeD)
  show ?thesis
    unfolding replay_None_iff [OF h] using l False by (cases m) (auto simp: hd_take)
qed simp

section \<open>The invariant of the audit table\<close>

definition audit_wf :: "(string \<Rightarrow> string) \<Rightarrow> server \<Rightarrow> bool" where
  "audit_wf sha s \<longleftrightarrow>
     sorted_wrt (<) (map au_id (t_audit s)) \<and> (\<forall>r \<in> set (t_audit s). au_id r < t_audit_next s)
     \<and> (\<forall>r \<in> set (t_audit s). hashed_row r)
     \<and> (\<forall>t e. linked_rows sha GENESIS_PREVIOUS_HASH (chain_of t e s))"

lemma audit_wf_empty: "audit_wf sha empty_server"
  by (simp add: audit_wf_def empty_server_def chain_of_def)

lemma fetchPreviousHash_head:
  assumes "\<forall>r \<in> set (t_audit s). hashed_row r"
  shows "fetchPreviousHash t e s = chain_head row_hash GENESIS_PREVIOUS_HASH (chain_of t e s)"
proof -
  have "filter (\<lambda>r. in_chain t e r \<and> au_event_hash r \<noteq> None) (t_audit s) = chain_of t e s"
    unfolding chain_of_def using assms by (intro filter_cong) (auto simp: hashed_row_def)
  then have eq: "fetchPreviousHash t e s =
      (if chain_of t e s = [] then GENESIS_PREVIOUS_HASH
       else or_else GENESIS_PREVIOUS_HASH (au_event_hash (last (chain_of t e s))))"
    unfolding fetchPreviousHash_def by (simp add: first_row_rev)
  show ?thesis
  proof (cases "chain_of t e s = []")
    case False
    then have "last (chain_of t e s) \<in> set (chain_of t e s)" by simp
    then have "hashed_row (last (chain_of t e s))" using assms by (simp add: chain_of_def)
    then show ?thesis using eq False by (auto simp: chain_head_def elim: hashed_rowE)
  qed (simp add: eq)
qed

subsection \<open>Every append keeps the invariant\<close>

lemma audit_wf_same_table:
  "t_audit s' = t_audit s \<Longrightarrow> t_audit_next s' = t_audit_next s \<Longrightarrow> audit_wf sha s' = audit_wf sha s"
  by (simp add: audit_wf_def chain_of_def)

lemma row_payload_audit_row:
  assumes "is_object (pl_metadata p)" "defined (pl_metadata p)"
  shows "row_payload (audit_row p i now q h) = p"
  using assms stored_id [of "pl_metadata p"]
  by (cases p; cases "pl_metadata p") (simp_all add: row_payload_def audit_row_def is_object_def)

lemma append_tables:
  fixes sha now p s
  defines "s' \<equiv> snd (appendAuditEvent sha now p s)"
    and "q \<equiv> fetchPreviousHash (pl_tenant_id p) (pl_environment p) s"
  shows "t_audit s' = t_audit s @ [audit_row p (t_audit_next s) now q (computeEventHash sha p q)]"
    and "t_audit_next s' = t_audit_next s + 1"
  by (simp_all add: s'_def q_def appendAuditEvent_def Let_def)

lemma append_other_tables [simp]:
  "t_tenants (snd (appendAuditEvent sha now p s)) = t_tenants s"
  "t_api_keys (snd (appendAuditEvent sha now p s)) = t_api_keys s"
  "t_devices (snd (appendAuditEvent sha now p s)) = t_devices s"
  "t_users (snd (appendAuditEvent sha now p s)) = t_users s"
  "t_verifications (snd (appendAuditEvent sha now p s)) = t_verifications s"
  "t_attendance (snd (appendAuditEvent sha now p s)) = t_attendance s"
  "t_pairing (snd (appendAuditEvent sha now p s)) = t_pairing s"
  "t_registrations (snd (appendAuditEvent sha now p s)) = t_registrations s"
  "t_anchors (snd (appendAuditEvent sha now p s)) = t_anchors s"
  "t_pending (snd (appendAuditEvent sha now p s)) = t_pending s"
  "t_usage_monthly (snd (appendAuditEvent sha now p s)) = t_usage_monthly s"
  "t_usage_logs (snd (appendAuditEvent sha now p s)) = t_usage_logs s"
  by (simp_all add: appendAuditEvent_def Let_def)

text \<open>The metadata an operation may log: an object without \<open>undefined\<close> members.\<close>

definition loggable :: "json \<Rightarrow> bool" where
  "loggable m = (is_object m \<and> defined m)"

lemma append_audit_wf:
  assumes wf: "audit_wf sha s" and m: "loggable (pl_metadata p)"
  shows "audit_wf sha (snd (appendAuditEvent sha now p s))"
proof -
  define q where "q = fetchPreviousHash (pl_tenant_id p) (pl_environment p) s"
  define r where "r = audit_row p (t_audit_next s) now q (computeEventHash sha p q)"
  let ?s' = "snd (appendAuditEvent sha now p s)"
  have t: "t_audit ?s' = t_audit s @ [r]" "t_audit_next ?s' = t_audit_next s + 1"
    using append_tables [of sha now p s] by (simp_all add: r_def q_def)
  have f: "au_id r = t_audit_next s" "hashed_row r" "row_prev r = q"
    "in_chain t e r \<longleftrightarrow> t = pl_tenant_id p \<and> e = pl_environment p" for t e
    by (auto simp: r_def audit_row_def hashed_row_def row_prev_def in_chain_def)
  have "prefixed sha (row_text r q) = row_hash r"
    using m row_payload_audit_row [of p "t_audit_next s" now q "computeEventHash sha p q"]
    by (simp add: loggable_def row_text_def computeEventHash_def prefixed_def r_def row_hash_def audit_row_def)
  moreover have "q = chain_head row_hash GENESIS_PREVIOUS_HASH (chain_of (pl_tenant_id p) (pl_environment p) s)"
    unfolding q_def by (rule fetchPreviousHash_head) (use wf in \<open>simp add: audit_wf_def\<close>)
  ultimately have "linked_rows sha GENESIS_PREVIOUS_HASH (chain_of t e ?s')" for t e
    using wf f by (cases "in_chain t e r") (auto simp: audit_wf_def chain_of_def t linked_append)
  then show ?thesis
    using wf f(1,2) by (auto simp: audit_wf_def t sorted_wrt_append less_Suc_eq)
qed

lemma loggable_sanitize: "loggable m \<Longrightarrow> sanitizeMetadata m = m"
  by (simp add: loggable_def sanitizeMetadata_def)

lemma record_audit_wf:
  assumes "audit_wf sha s" and "loggable (sanitizeMetadata (ai_metadata a))"
  shows "audit_wf sha (recordAuditEvent sha now t a s)"
  unfolding recordAuditEvent_def
  by (rule append_audit_wf) (use assms in \<open>simp_all add: input_payload_def\<close>)

lemma sorted_suffix:
  "sorted_wrt (<) (map f xs) \<Longrightarrow> \<exists>n. filter (\<lambda>x. k \<le> (f x :: nat)) xs = drop n xs"
proof (induction xs)
  case (Cons x xs)
  show ?case
  proof (cases "k \<le> f x")
    case True
    with Cons.prems have "\<forall>y \<in> set xs. k \<le> f y" by fastforce
    with True have "filter (\<lambda>x. k \<le> f x) (x # xs) = drop 0 (x # xs)" by simp
    then show ?thesis by blast
  next
    case False
    moreover obtain n where "filter (\<lambda>x. k \<le> f x) xs = drop n xs" using Cons by auto
    ultimately have "filter (\<lambda>x. k \<le> f x) (x # xs) = drop (Suc n) (x # xs)" by simp
    then show ?thesis by blast
  qed
qed simp

lemma verify_segment:
  assumes "audit_wf sha s"
  shows "\<exists>n. verifyAuditChain sha t e i m s = replay sha None (take m (drop n (chain_of t e s)))"
proof -
  have "sorted_wrt (<) (map au_id (chain_of t e s))"
    using assms by (simp add: audit_wf_def chain_of_def sorted_wrt_map sorted_wrt_filter)
  then obtain n where "filter (\<lambda>r. i \<le> au_id r) (chain_of t e s) = drop n (chain_of t e s)"
    using sorted_suffix by blast
  then have "filter (\<lambda>r. in_chain t e r \<and> i \<le> au_id r) (t_audit s) = drop n (chain_of t e s)"
    by (simp add: chain_of_def conj_commute)
  then show ?thesis unfolding verifyAuditChain_def by auto
qed

lemma audit_wf_verifies:
  assumes "audit_wf sha s"
  shows "verifyAuditChain sha t e i m s = ChainOk"
proof -
  have h: "\<forall>r \<in> set (chain_of t e s). hashed_row r" "linked_rows sha GENESIS_PREVIOUS_HASH (chain_of t e s)"
    using assms by (simp_all add: audit_wf_def chain_of_def)
  obtain n where "verifyAuditChain sha t e i m s = replay sha None (take m (drop n (chain_of t e s)))"
    using verify_segment [OF assms] by blast
  then show ?thesis using replay_segment [OF h] by simp
qed

section \<open>Properties\<close>

type_synonym audit_call = "time_ms \<times> uuid \<times> audit_input"

fun record_all :: "(string \<Rightarrow> string) \<Rightarrow> audit_call list \<Rightarrow> server \<Rightarrow> server" where
  "record_all sha [] s = s"
| "record_all sha ((now, t, a) # cs) s = record_all sha cs (recordAuditEvent sha now t a s)"

lemma record_all_wf:
  "audit_wf sha s \<Longrightarrow> \<forall>(now, t, a) \<in> set cs. loggable (sanitizeMetadata (ai_metadata a)) \<Longrightarrow>
    audit_wf sha (record_all sha cs s)"
  by (induction sha cs s rule: record_all.induct) (auto intro: record_audit_wf)

text \<open>Property C3.  Recording keeps a well-formed log well-formed (the empty log is).  After any sequence of
  audit events, of any tenants and environments, interleaved, whose metadata holds no \<open>undefined\<close>
  member, the replay of \<open>verifyAuditChain\<close> accepts every chain: from any start row, for any
  limit, and for every hash function.  (Metadata with an \<open>undefined\<close> member breaks the chain;
  \<open>Pairing.claim_without_metadata_breaks_chain\<close> shows where that happens.)\<close>

theorem recorded_chain_verifies:
  assumes "audit_wf sha s"
    and "\<forall>(now, t, a) \<in> set calls. loggable (sanitizeMetadata (ai_metadata a))"
  shows "audit_wf sha (record_all sha calls s) \<and>
    verifyAuditChain sha t e startId limit (record_all sha calls s) = ChainOk"
  using record_all_wf [OF assms] audit_wf_verifies by blast

definition sample_input :: "json \<Rightarrow> audit_input" where
  "sample_input m = \<lparr> ai_environment = Some Live, ai_actor_type = ActorSystem, ai_actor_id = None,
     ai_action = ''verification.recorded'', ai_entity_type = ''device'', ai_entity_id = Some ''d'',
     ai_status = AuditSuccess, ai_summary = ''s'', ai_metadata = m \<rparr>"

theorem recorded_chain_verifies_witness:
  "verifyAuditChain rev ''t'' (Some Live) 0 9
     (record_all rev [(1, ''t'', sample_input (JObj [(''x'', JNum 3)])), (2, ''u'', sample_input JNull),
        (3, ''t'', sample_input (JObj []))] empty_server) = ChainOk"
  by (rule recorded_chain_verifies [THEN conjunct2])
    (simp_all add: audit_wf_empty sample_input_def loggable_def sanitizeMetadata_def is_object_def)

definition hashed_texts :: "audit_event list \<Rightarrow> string set" where
  "hashed_texts rows = (\<lambda>r. row_text r (row_prev r)) ` set rows"

definition chain_tip :: "uuid \<Rightarrow> environment option \<Rightarrow> server \<Rightarrow> string" where
  "chain_tip t e s = chain_head row_hash GENESIS_PREVIOUS_HASH (chain_of t e s)"

lemma verify_all_linked:
  assumes "\<forall>r \<in> set (t_audit s). hashed_row r"
    and "verifyAuditChain sha t e 0 (length (t_audit s)) s = ChainOk"
    and "chain_of t e s \<noteq> []" "row_prev (hd (chain_of t e s)) = g"
  shows "linked_rows sha g (chain_of t e s)"
proof -
  have "take (length (t_audit s)) (chain_of t e s) = chain_of t e s"
    unfolding chain_of_def by (intro take_all length_filter_le)
  then have "replay sha None (chain_of t e s) = ChainOk"
    using assms(2) by (simp add: verifyAuditChain_def chain_of_def)
  moreover have "\<forall>r \<in> set (chain_of t e s). hashed_row r" using assms(1) by (simp add: chain_of_def)
  ultimately show ?thesis using replay_None_iff assms(3,4) by blast
qed

lemma same_tip_agree:
  assumes "linked_rows sha GENESIS_PREVIOUS_HASH (chain_of t e s')" "linked_rows sha GENESIS_PREVIOUS_HASH (chain_of t e s)"
    and "chain_tip t e s' = chain_tip t e s" "\<forall>r \<in> set (t_audit s) \<union> set (t_audit s'). defined (au_metadata r)"
  shows "map row_body (chain_of t e s') = map row_body (chain_of t e s) \<or>
    (\<exists>x \<in> hashed_texts (chain_of t e s'). \<exists>y \<in> hashed_texts (chain_of t e s). x \<noteq> y \<and> sha x = sha y)"
proof -
  have g: "\<forall>r \<in> set (chain_of t e s') \<union> set (chain_of t e s). arrays_defined (au_metadata r)"
    using assms(4) by (auto simp: chain_of_def intro: defined_arrays_defined)
  show ?thesis
    using audit_chain.same_head [OF assms(1,2) g] assms(3)
    by (auto simp: chain_tip_def audit_chain.hashed_def hashed_texts_def prefixed_not_genesis)
      (auto simp: prefixed_def)
qed

text \<open>Property C4.  A rewrite that passes the replay is caught by the anchored head.  Let \<open>s\<close> be
  a database with a well-formed log and \<open>s'\<close> any other content of the audit table in which every row has
  its hashes, whose replay from the first row succeeds, whose first row of the chain claims the genesis hash,
  and whose newest hash is the one of \<open>s\<close> (the anchored value); the metadata of all rows is free of
  \<open>undefined\<close>.  Then both chains hold the same events in the same order, or the texts hashed in the two chains
  exhibit a collision of SHA-256.  A log whose oldest rows are cut off does not claim the genesis hash and is
  not covered (\<open>pruned_log_still_verifies\<close>).\<close>

theorem tampering_detected:
  assumes "audit_wf sha s" and "\<forall>r \<in> set (t_audit s'). hashed_row r"
    and "verifyAuditChain sha t e 0 (length (t_audit s')) s' = ChainOk"
    and "chain_of t e s' \<noteq> []" and "row_prev (hd (chain_of t e s')) = GENESIS_PREVIOUS_HASH"
    and "chain_tip t e s' = chain_tip t e s"
    and "\<forall>r \<in> set (t_audit s) \<union> set (t_audit s'). defined (au_metadata r)"
  shows "map row_body (chain_of t e s') = map row_body (chain_of t e s) \<or>
    (\<exists>x \<in> hashed_texts (chain_of t e s'). \<exists>y \<in> hashed_texts (chain_of t e s). x \<noteq> y \<and> sha x = sha y)"
proof (rule same_tip_agree [OF _ _ assms(6,7)])
  show "linked_rows sha GENESIS_PREVIOUS_HASH (chain_of t e s')" using verify_all_linked assms(2-5) by blast
  show "linked_rows sha GENESIS_PREVIOUS_HASH (chain_of t e s)" using assms(1) by (simp add: audit_wf_def)
qed

text \<open>A forged log: the summary of the only row is rewritten.  The hash function that maps every text to one value
  lets it pass, and the collision the theorem promises is there.\<close>

definition one_hash :: "string \<Rightarrow> string" where "one_hash x = ''h''"

definition genuine_log :: server where
  "genuine_log = record_all one_hash [(1, ''t'', sample_input (JObj [])), (2, ''u'', sample_input (JObj []))] empty_server"

definition forged_log :: server where
  "forged_log = genuine_log\<lparr>t_audit := map (\<lambda>r. r\<lparr>au_summary := ''forged''\<rparr>) (t_audit genuine_log)\<rparr>"

theorem tampering_detected_witness:
  "verifyAuditChain one_hash ''t'' (Some Live) 0 2 forged_log = ChainOk \<and>
   map au_summary (chain_of ''t'' (Some Live) forged_log) = [''forged''] \<and> map au_summary (chain_of ''t'' (Some Live) genuine_log) = [''s''] \<and>
   (\<exists>x \<in> hashed_texts (chain_of ''t'' (Some Live) forged_log). \<exists>y \<in> hashed_texts (chain_of ''t'' (Some Live) genuine_log).
      x \<noteq> y \<and> one_hash x = one_hash y)"
proof -
  have wf: "audit_wf one_hash genuine_log"
    unfolding genuine_log_def by (rule record_all_wf)
      (simp_all add: audit_wf_empty sample_input_def loggable_def sanitizeMetadata_def is_object_def)
  note log = genuine_log_def recordAuditEvent_def append_tables chain_of_def input_payload_def sample_input_def audit_row_def in_chain_def
    empty_server_def hashed_row_def row_prev_def fetchPreviousHash_def sanitizeMetadata_def is_object_def
  have rows: "\<forall>r \<in> set (t_audit genuine_log) \<union> set (t_audit forged_log). hashed_row r \<and> defined (au_metadata r)"
    by (simp add: forged_log_def log)
  have chain: "chain_of ''t'' (Some Live) forged_log = map (\<lambda>r. r\<lparr>au_summary := ''forged''\<rparr>) (chain_of ''t'' (Some Live) genuine_log)"
    by (simp add: forged_log_def log)
  obtain r where r: "chain_of ''t'' (Some Live) genuine_log = [r]" "au_summary r = ''s''" "row_prev r = GENESIS_PREVIOUS_HASH"
    "au_previous_hash r = Some GENESIS_PREVIOUS_HASH" "au_event_hash r = Some (prefixed one_hash (row_text r GENESIS_PREVIOUS_HASH))"
    using wf by (auto simp: log computeEventHash_def prefixed_def one_hash_def)
  have len: "length (t_audit forged_log) = 2" by (simp add: forged_log_def log)
  have v: "verifyAuditChain one_hash ''t'' (Some Live) 0 2 forged_log = ChainOk"
    using chain r by (simp add: verifyAuditChain_def chain_of_def computeEventHash_row prefixed_def one_hash_def)
  let ?f = "\<lambda>r. r\<lparr>au_summary := ''forged''\<rparr>"
  have body: "row_body (?f r) \<noteq> row_body r"
  proof
    assume "row_body (?f r) = row_body r"
    moreover have "(''summary'', JStr (au_summary x)) \<in> set (case row_body x of JObj ms \<Rightarrow> ms | _ \<Rightarrow> [])" for x
      by (simp add: row_body_def payload_json_def row_payload_def)
    from this [of "?f r"] have "(''summary'', JStr ''forged'') \<in> set (case row_body (?f r) of JObj ms \<Rightarrow> ms | _ \<Rightarrow> [])" by simp
    ultimately have "(''summary'', JStr ''forged'') \<in> set (case row_body r of JObj ms \<Rightarrow> ms | _ \<Rightarrow> [])" by simp
    then show False using r(2) by (simp add: row_body_def payload_json_def row_payload_def)
  qed
  show ?thesis
    using tampering_detected [OF wf, of forged_log "''t''" "Some Live"] rows chain r v len body
    by (auto simp: chain_tip_def row_hash_def row_prev_def)
qed

lemma replay_prefix:
  "\<forall>r \<in> set rows. hashed_row r \<Longrightarrow> linked_rows sha p rows \<Longrightarrow>
    replay sha (Some p) (rows @ qs) = replay sha (Some (chain_head row_hash p rows)) qs"
proof (induction rows arbitrary: p)
  case (Cons r rows)
  then obtain e: "au_previous_hash r = Some (row_prev r)" "au_event_hash r = Some (row_hash r)"
    using hashed_rowE by auto
  show ?case using Cons by (simp add: e Let_def computeEventHash_row)
qed simp

lemma replay_None_prefix:
  assumes "\<forall>r \<in> set rows. hashed_row r" "linked_rows sha p rows"
  obtains x where "replay sha None (rows @ qs) = replay sha x qs" "x = None \<or> x = Some (chain_head row_hash p rows)"
proof (cases rows)
  case Nil
  then show ?thesis using that by simp
next
  case (Cons r rs)
  have "row_prev r = p" using assms(2) Cons by simp
  moreover have "replay sha None (rows @ qs) = replay sha (Some (row_prev r)) (rows @ qs)"
    unfolding Cons append_Cons by (rule replay_None) (use assms Cons in simp)
  ultimately show ?thesis using replay_prefix [OF assms] that by simp
qed

lemma chain_of_le: "length (chain_of t e s) \<le> length (t_audit s)"
  by (simp add: chain_of_def)

lemma undefined_append_breaks:
  assumes "audit_wf sha s" and "is_object (pl_metadata p)" and "\<not> defined (pl_metadata p)"
    and "arrays_defined (pl_metadata p)" and "length (t_audit s) < limit"
    and "let q = fetchPreviousHash (pl_tenant_id p) (pl_environment p) s;
             x = hash_text p q; y = hash_text (p\<lparr>pl_metadata := stored (pl_metadata p)\<rparr>) q
         in x \<noteq> y \<longrightarrow> sha x \<noteq> sha y"
  shows "\<exists>reason. verifyAuditChain sha (pl_tenant_id p) (pl_environment p) 0 limit
      (snd (appendAuditEvent sha now p s)) = ChainBroken (t_audit_next s) reason"
proof -
  define q where "q = fetchPreviousHash (pl_tenant_id p) (pl_environment p) s"
  define r where "r = audit_row p (t_audit_next s) now q (computeEventHash sha p q)"
  let ?c = "chain_of (pl_tenant_id p) (pl_environment p) s"
  have h: "\<forall>r \<in> set ?c. hashed_row r" and l: "linked_rows sha GENESIS_PREVIOUS_HASH ?c"
    using assms(1) by (simp_all add: audit_wf_def chain_of_def)
  have q: "q = chain_head row_hash GENESIS_PREVIOUS_HASH ?c"
    unfolding q_def by (rule fetchPreviousHash_head) (use assms(1) in \<open>simp add: audit_wf_def\<close>)
  have len: "length (?c @ [r]) \<le> limit"
    using chain_of_le [of "pl_tenant_id p" "pl_environment p" s] assms(5) by simp
  have t: "t_audit (snd (appendAuditEvent sha now p s)) = t_audit s @ [r]"
    by (simp add: append_tables r_def q_def)
  have inr: "in_chain (pl_tenant_id p) (pl_environment p) r"
    by (simp add: r_def audit_row_def in_chain_def)
  have v: "verifyAuditChain sha (pl_tenant_id p) (pl_environment p) 0 limit
      (snd (appendAuditEvent sha now p s)) = replay sha None (?c @ [r])"
    using len inr unfolding verifyAuditChain_def t by (simp add: chain_of_def)
  let ?p = "p\<lparr>pl_metadata := stored (pl_metadata p)\<rparr>"
  have d: "pl_metadata p \<noteq> JUndef" "stored (pl_metadata p) \<noteq> JNull"
    using assms(2) by (cases "pl_metadata p"; simp add: is_object_def)+
  then have rp: "row_payload r = ?p"
    by (cases p) (simp add: row_payload_def r_def audit_row_def)
  have "sort_keys (stored (pl_metadata p)) \<noteq> sort_keys (pl_metadata p)"
    using sort_keys_stored_neq d(1) assms(3) by blast
  then have "sort_keys (payload_json ?p) \<noteq> sort_keys (payload_json p)"
    by (auto simp: payload_json_def)
  moreover have "arrays_defined (pl_metadata ?p)"
    using stored_defined [OF d(1)] by (simp add: defined_arrays_defined)
  ultimately have "hash_text ?p q \<noteq> hash_text p q"
    using hash_text_app assms(4) by blast
  then have "computeEventHash sha (row_payload r) q \<noteq> computeEventHash sha p q"
    using assms(6) unfolding computeEventHash_def rp Let_def q_def by auto
  then have b: "\<exists>reason. replay sha x [r] = ChainBroken (t_audit_next s) reason"
    if "x = None \<or> x = Some q" for x
    using that by (auto simp: r_def audit_row_def Let_def)
  obtain x where "replay sha None (?c @ [r]) = replay sha x [r]"
    "x = None \<or> x = Some (chain_head row_hash GENESIS_PREVIOUS_HASH ?c)"
    using replay_None_prefix [OF h l] by blast
  then show ?thesis using b q v by metis
qed

text \<open>A recorded event whose metadata holds an \<open>undefined\<close> member is
  hashed with the text \<open>undefined\<close> for it, while the stored row no longer has the member:
  the very next replay reports the honest row as broken, unless SHA-256 gives the hashed text and the
  text rebuilt from the row the same hash.\<close>

theorem undefined_metadata_breaks_chain:
  assumes "audit_wf sha s" and "is_object (pl_metadata p)" and "\<not> defined (pl_metadata p)"
    and "arrays_defined (pl_metadata p)" and "length (t_audit s) < limit"
    and "let q = fetchPreviousHash (pl_tenant_id p) (pl_environment p) s;
             x = hash_text p q; y = hash_text (p\<lparr>pl_metadata := stored (pl_metadata p)\<rparr>) q
         in x \<noteq> y \<longrightarrow> sha x \<noteq> sha y"
  shows "\<exists>reason. verifyAuditChain sha (pl_tenant_id p) (pl_environment p) 0 limit
      (snd (appendAuditEvent sha now p s)) = ChainBroken (t_audit_next s) reason"
  by (rule undefined_append_breaks [OF assms])

theorem undefined_metadata_breaks_chain_witness:
  "\<exists>reason. verifyAuditChain rev ''t'' (Some Live) 0 9
     (snd (appendAuditEvent rev 1 (input_payload ''t'' (sample_input (JObj [(''proofMs'', JUndef)])))
        empty_server)) = ChainBroken 1 reason"
proof -
  define p where "p = input_payload ''t'' (sample_input (JObj [(''proofMs'', JUndef)]))"
  have "\<exists>reason. verifyAuditChain rev (pl_tenant_id p) (pl_environment p) 0 9
     (snd (appendAuditEvent rev 1 p empty_server)) = ChainBroken (t_audit_next empty_server) reason"
    by (rule undefined_metadata_breaks_chain, rule audit_wf_empty)
      (simp_all add: p_def input_payload_def sample_input_def sanitizeMetadata_def
        is_object_def empty_server_def)
  then show ?thesis
    by (simp add: p_def input_payload_def sample_input_def empty_server_def)
qed

text \<open>What the replay does not see: it takes the previous hash of the first
  row it reads on trust, so the log still verifies after its oldest rows were deleted.\<close>

theorem pruned_log_still_verifies:
  assumes "audit_wf sha s"
  shows "verifyAuditChain sha t e startId limit
    (s\<lparr>t_audit := delete_rows (\<lambda>r. in_chain t e r \<and> au_id r < k) (t_audit s)\<rparr>) = ChainOk"
proof -
  have "filter (\<lambda>r. in_chain t e r \<and> startId \<le> au_id r)
      (delete_rows (\<lambda>r. in_chain t e r \<and> au_id r < k) (t_audit s))
    = filter (\<lambda>r. in_chain t e r \<and> max startId k \<le> au_id r) (t_audit s)"
    unfolding delete_rows_def filter_filter by (intro filter_cong) auto
  then have "verifyAuditChain sha t e startId limit
      (s\<lparr>t_audit := delete_rows (\<lambda>r. in_chain t e r \<and> au_id r < k) (t_audit s)\<rparr>)
    = verifyAuditChain sha t e (max startId k) limit s"
    by (simp add: verifyAuditChain_def)
  then show ?thesis using audit_wf_verifies [OF assms] by simp
qed

theorem pruned_log_still_verifies_witness:
  "let s = record_all rev [(1, ''t'', sample_input (JObj [])), (2, ''t'', sample_input (JObj []))] empty_server
   in verifyAuditChain rev ''t'' (Some Live) 0 9
     (s\<lparr>t_audit := delete_rows (\<lambda>r. in_chain ''t'' (Some Live) r \<and> au_id r < 2) (t_audit s)\<rparr>) = ChainOk"
  unfolding Let_def by (rule pruned_log_still_verifies, rule record_all_wf)
    (simp_all add: audit_wf_empty sample_input_def loggable_def sanitizeMetadata_def is_object_def)

section \<open>Fan-out\<close>

text \<open>Listeners registered through \<open>subscribeVerifications\<close> carry the same tenant as
  emitter key and as guard.\<close>

definition emitter_ok :: "server \<Rightarrow> bool" where
  "emitter_ok s \<longleftrightarrow>
     (\<forall>l \<in> set (em_listeners (emitter_of s)). ls_key l = ls_tenant l) \<and>
     (\<forall>(i, ev) \<in> set (em_delivered (emitter_of s)). isVerificationAction (vp_action ev) \<and>
        (\<exists>r \<in> set (t_audit s). au_id r = vp_audit_id ev \<and> au_tenant_id r = vp_tenant_id ev \<and>
           au_action r = vp_action ev \<and> au_status r = vp_status ev))"

lemma emitter_ok_subscribe:
  "emitter_ok s \<Longrightarrow> emitter_ok (s\<lparr>emitter_of := subscribeVerifications t i (emitter_of s)\<rparr>)"
  "emitter_ok s \<Longrightarrow> emitter_ok (s\<lparr>emitter_of := closeSubscription i (emitter_of s)\<rparr>)"
  by (auto simp: emitter_ok_def subscribeVerifications_def closeSubscription_def)

text \<open>Every event a subscriber receives belongs to a committed audit row of its
  tenant with the same identifier, action and outcome; the append delivers its event exactly
  once, in order of registration, to the subscribers of the tenant of the row and to nobody
  else, and only for the verification actions.\<close>

theorem events_follow_commits:
  assumes "emitter_ok s"
  shows "emitter_ok (snd (appendAuditEvent sha now p s)) \<and>
    em_delivered (emitter_of (snd (appendAuditEvent sha now p s))) = em_delivered (emitter_of s) @
      (if isVerificationAction (pl_action p)
       then [(ls_id l, verification_payload p (t_audit_next s) now).
              l \<leftarrow> em_listeners (emitter_of s), ls_tenant l = pl_tenant_id p]
       else [])"
proof -
  have f: "filter (\<lambda>l. ls_key l = pl_tenant_id p \<and> pl_tenant_id p = ls_tenant l) ls
      = filter (\<lambda>l. ls_tenant l = pl_tenant_id p) ls"
    if "\<forall>l \<in> set ls. ls_key l = ls_tenant l" for ls
    using that by (intro filter_cong) auto
  have m: "map (\<lambda>l. (ls_id l, ev)) (filter (\<lambda>l. ls_tenant l = x) ls)
      = [(ls_id l, ev). l \<leftarrow> ls, ls_tenant l = x]" for ev x ls
    by (induction ls) auto
  have v: "vp_tenant_id (verification_payload p i n) = pl_tenant_id p"
    "vp_audit_id (verification_payload p i n) = i"
    "vp_action (verification_payload p i n) = pl_action p"
    "vp_status (verification_payload p i n) = pl_status p" for i n
    by (simp_all add: verification_payload_def Let_def)
  have l: "\<forall>l \<in> set (em_listeners (emitter_of s)). ls_key l = ls_tenant l"
    using assms by (simp add: emitter_ok_def)
  have d: "em_delivered (emitter_of (snd (appendAuditEvent sha now p s))) = em_delivered (emitter_of s) @
      (if isVerificationAction (pl_action p)
       then [(ls_id l, verification_payload p (t_audit_next s) now).
              l \<leftarrow> em_listeners (emitter_of s), ls_tenant l = pl_tenant_id p]
       else [])"
    by (simp add: appendAuditEvent_def Let_def emitVerificationEvent_def v f [OF l] m)
  have k: "em_listeners (emitter_of (snd (appendAuditEvent sha now p s))) = em_listeners (emitter_of s)"
    by (simp add: appendAuditEvent_def Let_def emitVerificationEvent_def)
  show ?thesis
    unfolding emitter_ok_def d k append_tables
    using assms by (fastforce simp: emitter_ok_def v audit_row_def split: if_splits)
qed

theorem events_follow_commits_witness:
  "let s = empty_server\<lparr>emitter_of := subscribeVerifications ''u'' 2 (subscribeVerifications ''t'' 1
        (emitter_of empty_server))\<rparr>;
      p = input_payload ''t'' (sample_input (JObj []))
   in map fst (em_delivered (emitter_of (snd (appendAuditEvent rev 5 p s)))) = [1]"
  using events_follow_commits [of "empty_server\<lparr>emitter_of := subscribeVerifications ''u'' 2
      (subscribeVerifications ''t'' 1 (emitter_of empty_server))\<rparr>" rev 5
      "input_payload ''t'' (sample_input (JObj []))"]
  by (simp add: emitter_ok_def subscribeVerifications_def empty_server_def input_payload_def
      sample_input_def isVerificationAction_def VERIFICATION_ACTIONS_def)

end
