(* ===== verification/Verifier_Log.thy ===== *)
theory Verifier_Log
  imports Json Hash_Chain
begin

text \<open>
  The verifier service: its append-only, hash-chained log
  (\<open>verifier/src/audit-log.ts\<close>), the choice between Groth16 verification and the
  structural check (\<open>verifier/src/groth16.ts\<close>) and the \<open>POST /verify\<close> handler
  (\<open>verifier/src/server.ts\<close>).  SHA-256 is the parameter \<open>sha\<close>, the pairing check
  of snarkjs the parameter \<open>groth\<close> (\<open>None\<close> is a thrown error).  Fresh identifiers,
  clock readings and latencies are arguments.
\<close>

section \<open>The log\<close>

definition GENESIS_PREV_HASH :: string where
  "GENESIS_PREV_HASH = replicate 64 CHR ''0''"

record verifier_row =
  vr_id :: string
  vr_sequence :: nat
  vr_tenant_id :: string
  vr_environment :: string
  vr_circuit_version :: string
  vr_correlation_id :: string
  vr_verified :: int
  vr_structural_fallback :: int
  vr_proof_hash :: string
  vr_pub_signals_hash :: string
  vr_latency_us :: int
  vr_created_at :: string
  vr_prev_hash :: string
  vr_entry_hash :: string

record append_input =
  in_tenant_id :: string
  in_environment :: string
  in_circuit_version :: string
  in_correlation_id :: string
  in_verified :: bool
  in_structural_fallback :: bool
  in_proof_hash :: string
  in_pub_signals_hash :: string
  in_latency_us :: int

text \<open>The module state: the open database (\<open>None\<close> before \<open>initAuditLog\<close>), the next
  sequence number and the hash of the newest entry.\<close>

record verifier_log =
  lg_db :: "verifier_row list option"
  lg_next :: nat
  lg_last :: string

definition closed_log :: verifier_log where
  "closed_log = \<lparr> lg_db = None, lg_next = 0, lg_last = GENESIS_PREV_HASH \<rparr>"

definition row_members :: "verifier_row \<Rightarrow> (string \<times> json) list" where
  "row_members r =
     [(''id'', JStr (vr_id r)),
      (''sequence'', JNum (int (vr_sequence r))),
      (''tenant_id'', JStr (vr_tenant_id r)),
      (''environment'', JStr (vr_environment r)),
      (''circuit_version'', JStr (vr_circuit_version r)),
      (''correlation_id'', JStr (vr_correlation_id r)),
      (''verified'', JNum (vr_verified r)),
      (''structural_fallback'', JNum (vr_structural_fallback r)),
      (''proof_hash'', JStr (vr_proof_hash r)),
      (''pub_signals_hash'', JStr (vr_pub_signals_hash r)),
      (''latency_us'', JNum (vr_latency_us r)),
      (''created_at'', JStr (vr_created_at r)),
      (''prev_hash'', JStr (vr_prev_hash r))]"

definition canonicalSerialize :: "verifier_row \<Rightarrow> string" where
  "canonicalSerialize r = or_else '''' (stringify (JObj (sort_key fst (row_members r))))"

definition entry_text :: "verifier_row \<Rightarrow> string \<Rightarrow> string" where
  "entry_text r prevHash = canonicalSerialize r @ prevHash"

definition computeEntryHash :: "(string \<Rightarrow> string) \<Rightarrow> verifier_row \<Rightarrow> string \<Rightarrow> string" where
  "computeEntryHash sha r prevHash = sha (entry_text r prevHash)"

datatype log_error = NotInitialized | UniqueViolation

text \<open>\<open>id\<close> is the primary key and \<open>entry_hash\<close> is \<open>UNIQUE\<close>.\<close>

definition row_conflict :: "verifier_row \<Rightarrow> verifier_row \<Rightarrow> bool" where
  "row_conflict r q \<longleftrightarrow> vr_id r = vr_id q \<or> vr_entry_hash r = vr_entry_hash q"

definition insertRow :: "verifier_row \<Rightarrow> verifier_log \<Rightarrow> log_error + verifier_log" where
  "insertRow r st = (case lg_db st of
       None \<Rightarrow> Inl NotInitialized
     | Some rows \<Rightarrow>
         if list_ex (row_conflict r) rows then Inl UniqueViolation
         else Inr (st\<lparr>lg_db := Some (rows @ [r])\<rparr>))"

definition genesis_partial :: "string \<Rightarrow> string \<Rightarrow> verifier_row" where
  "genesis_partial i createdAt = \<lparr> vr_id = i, vr_sequence = 0, vr_tenant_id = ''system'',
     vr_environment = ''system'', vr_circuit_version = ''genesis'', vr_correlation_id = i,
     vr_verified = 1, vr_structural_fallback = 0, vr_proof_hash = GENESIS_PREV_HASH,
     vr_pub_signals_hash = GENESIS_PREV_HASH, vr_latency_us = 0, vr_created_at = createdAt,
     vr_prev_hash = GENESIS_PREV_HASH, vr_entry_hash = '''' \<rparr>"

definition insertGenesisRow ::
  "(string \<Rightarrow> string) \<Rightarrow> string \<Rightarrow> string \<Rightarrow> verifier_log \<Rightarrow> log_error + verifier_log" where
  "insertGenesisRow sha i createdAt st = (case lg_db st of None \<Rightarrow> Inl NotInitialized
     | Some _ \<Rightarrow>
        (let partialRow = genesis_partial i createdAt;
             entryHash = computeEntryHash sha partialRow GENESIS_PREV_HASH
         in case insertRow (partialRow\<lparr>vr_entry_hash := entryHash\<rparr>) st of
              Inl e \<Rightarrow> Inl e
            | Inr st' \<Rightarrow> Inr (st'\<lparr>lg_next := 1, lg_last := entryHash\<rparr>)))"

definition partial_row :: "append_input \<Rightarrow> string \<Rightarrow> string \<Rightarrow> nat \<Rightarrow> string \<Rightarrow> verifier_row" where
  "partial_row inp i createdAt sequ prev = \<lparr> vr_id = i, vr_sequence = sequ,
     vr_tenant_id = in_tenant_id inp, vr_environment = in_environment inp,
     vr_circuit_version = in_circuit_version inp, vr_correlation_id = in_correlation_id inp,
     vr_verified = (if in_verified inp then 1 else 0),
     vr_structural_fallback = (if in_structural_fallback inp then 1 else 0),
     vr_proof_hash = in_proof_hash inp, vr_pub_signals_hash = in_pub_signals_hash inp,
     vr_latency_us = in_latency_us inp, vr_created_at = createdAt, vr_prev_hash = prev,
     vr_entry_hash = '''' \<rparr>"

definition appendEvent ::
  "(string \<Rightarrow> string) \<Rightarrow> string \<Rightarrow> string \<Rightarrow> append_input \<Rightarrow> verifier_log
     \<Rightarrow> log_error + (string \<times> verifier_log)" where
  "appendEvent sha i createdAt inp st = (case lg_db st of None \<Rightarrow> Inl NotInitialized
     | Some _ \<Rightarrow>
        (let partialRow = partial_row inp i createdAt (lg_next st) (lg_last st);
             entryHash = computeEntryHash sha partialRow (lg_last st)
         in case insertRow (partialRow\<lparr>vr_entry_hash := entryHash\<rparr>) st of
              Inl e \<Rightarrow> Inl e
            | Inr st' \<Rightarrow> Inr (i, st'\<lparr>lg_next := lg_next st + 1, lg_last := entryHash\<rparr>)))"

text \<open>\<open>initAuditLog\<close> on the rows the database file holds; \<open>ORDER BY sequence DESC
  LIMIT 1\<close> is the last row of the table sorted by sequence.\<close>

definition initAuditLog ::
  "(string \<Rightarrow> string) \<Rightarrow> string \<Rightarrow> string \<Rightarrow> verifier_row list \<Rightarrow> verifier_log
     \<Rightarrow> log_error + verifier_log" where
  "initAuditLog sha i createdAt file st = (if lg_db st \<noteq> None then Inr st
     else (let opened = st\<lparr>lg_db := Some file\<rparr> in
       if file = [] then insertGenesisRow sha i createdAt opened
       else Inr (opened\<lparr>lg_next := Max (set (map vr_sequence file)) + 1,
                        lg_last := vr_entry_hash (last (sort_key vr_sequence file))\<rparr>)))"

record chain_result =
  cr_ok :: bool
  cr_rows_checked :: nat
  cr_first_bad :: "nat option"

fun walk :: "(string \<Rightarrow> string) \<Rightarrow> string \<Rightarrow> nat \<Rightarrow> verifier_row list \<Rightarrow> chain_result" where
  "walk sha prevHash checked [] = \<lparr> cr_ok = True, cr_rows_checked = checked, cr_first_bad = None \<rparr>"
| "walk sha prevHash checked (row # rows) =
     (if vr_prev_hash row \<noteq> prevHash
      then \<lparr> cr_ok = False, cr_rows_checked = checked, cr_first_bad = Some (vr_sequence row) \<rparr>
      else if computeEntryHash sha row prevHash \<noteq> vr_entry_hash row
      then \<lparr> cr_ok = False, cr_rows_checked = checked, cr_first_bad = Some (vr_sequence row) \<rparr>
      else walk sha (vr_entry_hash row) (checked + 1) rows)"

definition verifyChain :: "(string \<Rightarrow> string) \<Rightarrow> verifier_log \<Rightarrow> log_error + chain_result" where
  "verifyChain sha st = (case lg_db st of None \<Rightarrow> Inl NotInitialized
     | Some rows \<Rightarrow> Inr (walk sha GENESIS_PREV_HASH 0 (sort_key vr_sequence rows)))"

definition getStats :: "verifier_log \<Rightarrow> nat \<times> nat \<times> string" where
  "getStats st = (case lg_db st of None \<Rightarrow> (0, 0, '''')
     | Some rows \<Rightarrow> (length rows, lg_next st, take 16 (lg_last st)))"

definition hashPayload :: "(string \<Rightarrow> string) \<Rightarrow> json \<Rightarrow> string" where
  "hashPayload sha payload = sha (case payload of JStr s \<Rightarrow> s | _ \<Rightarrow> or_else '''' (stringify payload))"

section \<open>The verification service\<close>

definition nonempty_str :: "json \<Rightarrow> bool" where
  "nonempty_str v = (case v of JStr s \<Rightarrow> s \<noteq> [] | _ \<Rightarrow> False)"

definition array_of :: "json \<Rightarrow> json list option" where
  "array_of v = (case v of JArr vs \<Rightarrow> Some vs | _ \<Rightarrow> None)"

definition triple_where :: "(json \<Rightarrow> bool) \<Rightarrow> json \<Rightarrow> bool" where
  "triple_where P v = (case array_of v of Some vs \<Rightarrow> length vs = 3 \<and> list_all P vs | None \<Rightarrow> False)"

definition isValidProofStructure :: "json \<Rightarrow> bool" where
  "isValidProofStructure p \<longleftrightarrow>
     jget ''protocol'' p = JStr ''groth16'' \<and> jget ''curve'' p = JStr ''bn128'' \<and>
     triple_where nonempty_str (jget ''pi_a'' p) \<and> triple_where (\<lambda>_. True) (jget ''pi_b'' p) \<and>
     triple_where nonempty_str (jget ''pi_c'' p)"

type_synonym groth_check = "string \<Rightarrow> json list \<Rightarrow> json \<Rightarrow> bool option"

text \<open>The loaded verification key is \<open>None\<close> when the file was absent at startup.  The
  result is the verdict and the \<open>structuralFallback\<close> flag.\<close>

definition verifyProof ::
  "groth_check \<Rightarrow> string option \<Rightarrow> json \<Rightarrow> json list \<Rightarrow> bool \<times> bool" where
  "verifyProof groth vkey proof signals = (case vkey of
       Some k \<Rightarrow> (case groth k signals proof of Some b \<Rightarrow> (b, False) | None \<Rightarrow> (False, False))
     | None \<Rightarrow> (isValidProofStructure proof, True))"

record verify_request =
  vq_proof :: json
  vq_signals :: json
  vq_tenant_id :: "string option"
  vq_environment :: "string option"
  vq_circuit_version :: "string option"
  vq_correlation_id :: "string option"

record verify_response =
  vs_verified :: bool
  vs_audit_id :: string
  vs_circuit_version :: string
  vs_structural_fallback :: bool

datatype http = BadRequest | ServerError | Okay verify_response

definition CIRCUIT_VERSION :: string where
  "CIRCUIT_VERSION = ''v1''"

definition post_verify ::
  "(string \<Rightarrow> string) \<Rightarrow> groth_check \<Rightarrow> string option \<Rightarrow> string \<Rightarrow> string \<Rightarrow> int
     \<Rightarrow> verify_request \<Rightarrow> verifier_log \<Rightarrow> http \<times> verifier_log" where
  "post_verify sha groth vkey i createdAt latencyUs rq st =
     (case array_of (vq_signals rq) of
        None \<Rightarrow> (BadRequest, st)
      | Some signals \<Rightarrow>
          if \<not> truthy (vq_proof rq) \<or> length signals \<noteq> 3 then (BadRequest, st)
          else (let (verified, structuralFallback) = verifyProof groth vkey (vq_proof rq) signals;
                    version = or_else CIRCUIT_VERSION (vq_circuit_version rq)
            in case appendEvent sha i createdAt
                  \<lparr> in_tenant_id = or_else ''unspecified'' (vq_tenant_id rq),
                    in_environment = (if vq_environment rq = Some ''test'' then ''test'' else ''live''),
                    in_circuit_version = version,
                    in_correlation_id = or_else '''' (vq_correlation_id rq),
                    in_verified = verified,
                    in_structural_fallback = structuralFallback,
                    in_proof_hash = hashPayload sha (vq_proof rq),
                    in_pub_signals_hash = hashPayload sha (vq_signals rq),
                    in_latency_us = latencyUs \<rparr> st of
                 Inl e \<Rightarrow> (ServerError, st)
               | Inr (auditId, st') \<Rightarrow>
                   (Okay \<lparr> vs_verified = verified, vs_audit_id = auditId,
                           vs_circuit_version = version,
                           vs_structural_fallback = structuralFallback \<rparr>, st')))"

section \<open>The log as a hash chain\<close>

definition row_content :: "verifier_row \<Rightarrow> json" where
  "row_content r = sort_keys (JObj (row_members r))"

lemma canonicalSerialize_canonical:
  "canonicalize (JObj (row_members r)) = Some (canonicalSerialize r)"
proof -
  have "stringify (JObj (sort_key fst (row_members r))) = canonicalize (JObj (row_members r))"
    by (rule stringify_flat) (simp add: row_members_def)
  then show ?thesis by (simp add: canonicalSerialize_def)
qed

lemma entry_text_inj:
  assumes "entry_text r p = entry_text q p'"
  shows "row_content r = row_content q \<and> p = p'"
proof -
  have d: "arrays_defined (JObj (row_members r))" for r
    by (simp add: row_members_def)
  show ?thesis
    unfolding row_content_def
    by (rule canonicalize_obj_app [OF d d canonicalSerialize_canonical canonicalSerialize_canonical])
      (use assms in \<open>simp only: entry_text_def\<close>)
qed

interpretation verifier_chain: hash_chain vr_prev_hash vr_entry_hash entry_text row_content "\<lambda>_. True" sha
  for sha
  by unfold_locales (rule entry_text_inj)

abbreviation linked_entries :: "(string \<Rightarrow> string) \<Rightarrow> string \<Rightarrow> verifier_row list \<Rightarrow> bool" where
  "linked_entries sha \<equiv> linked vr_prev_hash vr_entry_hash (\<lambda>r p. sha (entry_text r p))"

lemma walk_ok_iff: "cr_ok (walk sha p n rows) \<longleftrightarrow> linked_entries sha p rows"
  by (induction rows arbitrary: p n) (auto simp: computeEntryHash_def)

lemma walk_checked: "cr_ok (walk sha p n rows) \<Longrightarrow> cr_rows_checked (walk sha p n rows) = n + length rows"
  by (induction rows arbitrary: p n) (auto split: if_splits)

lemma walk_first_bad:
  "linked_entries sha p good \<Longrightarrow> \<not> linked_entries sha (chain_head vr_entry_hash p good) [bad] \<Longrightarrow>
    walk sha p n (good @ bad # rest) =
      \<lparr> cr_ok = False, cr_rows_checked = n + length good, cr_first_bad = Some (vr_sequence bad) \<rparr>"
  by (induction good arbitrary: p n) (auto simp: computeEntryHash_def)

section \<open>The invariant of the log\<close>

definition log_wf :: "(string \<Rightarrow> string) \<Rightarrow> verifier_log \<Rightarrow> bool" where
  "log_wf sha st \<longleftrightarrow> (case lg_db st of None \<Rightarrow> True
     | Some rows \<Rightarrow> rows \<noteq> [] \<and> map vr_sequence rows = [0..<length rows]
         \<and> linked_entries sha GENESIS_PREV_HASH rows
         \<and> lg_next st = length rows \<and> lg_last st = vr_entry_hash (last rows))"

lemma sorted_rows: "map vr_sequence rows = [0..<n] \<Longrightarrow> sort_key vr_sequence rows = rows"
  by (metis sort_key_id_if_sorted sorted_upt)

lemma entry_text_keep: "entry_text (r\<lparr>vr_entry_hash := h\<rparr>) p = entry_text r p"
  by (simp add: entry_text_def canonicalSerialize_def row_members_def)

lemma insertRow_Inr:
  "insertRow r st = Inr st' \<Longrightarrow> \<exists>rows. lg_db st = Some rows \<and> st' = st\<lparr>lg_db := Some (rows @ [r])\<rparr>"
  by (auto simp: insertRow_def split: option.splits if_splits)

lemma append_log_wf:
  assumes "log_wf sha st" "appendEvent sha i c inp st = Inr (j, st')"
  shows "log_wf sha st' \<and> j = i \<and> (\<exists>rows r. lg_db st = Some rows \<and> lg_db st' = Some (rows @ [r])
    \<and> r = (partial_row inp i c (lg_next st) (lg_last st))\<lparr>vr_entry_hash := lg_last st'\<rparr>)"
proof -
  define p where "p = partial_row inp i c (lg_next st) (lg_last st)"
  define h where "h = computeEntryHash sha p (lg_last st)"
  obtain rows where rows: "lg_db st = Some rows"
    using assms(2) by (auto simp: appendEvent_def split: option.splits)
  then obtain st1 where st1: "insertRow (p\<lparr>vr_entry_hash := h\<rparr>) st = Inr st1" and j: "j = i"
    and st': "st' = st1\<lparr>lg_next := lg_next st + 1, lg_last := h\<rparr>"
    using assms(2) by (auto simp: appendEvent_def Let_def p_def h_def split: sum.splits)
  have db: "lg_db st' = Some (rows @ [p\<lparr>vr_entry_hash := h\<rparr>])" "lg_next st' = lg_next st + 1" "lg_last st' = h"
    using insertRow_Inr [OF st1] rows by (auto simp: st')
  have wf: "rows \<noteq> []" "map vr_sequence rows = [0..<length rows]" "lg_next st = length rows"
    "linked_entries sha GENESIS_PREV_HASH rows" "lg_last st = vr_entry_hash (last rows)"
    using assms(1) rows by (auto simp: log_wf_def)
  have "vr_prev_hash (p\<lparr>vr_entry_hash := h\<rparr>) = lg_last st" "vr_sequence p = lg_next st"
    by (simp_all add: p_def partial_row_def)
  moreover have "sha (entry_text (p\<lparr>vr_entry_hash := h\<rparr>) (lg_last st)) = h"
    by (simp add: entry_text_keep h_def computeEntryHash_def)
  ultimately have "linked_entries sha GENESIS_PREV_HASH (rows @ [p\<lparr>vr_entry_hash := h\<rparr>])"
    using wf(1,4,5) unfolding linked_snoc chain_head_def by simp
  with wf db j rows p_def show ?thesis by (auto simp: log_wf_def partial_row_def)
qed

lemma genesis_log_wf:
  assumes "initAuditLog sha i c [] closed_log = Inr st"
  shows "log_wf sha st"
  using assms
  by (auto simp: initAuditLog_def insertGenesisRow_def closed_log_def Let_def genesis_partial_def
      log_wf_def insertRow_def computeEntryHash_def entry_text_def
      canonicalSerialize_def row_members_def)

lemma genesis_init: "\<exists>st. initAuditLog sha i c [] closed_log = Inr st"
  by (simp add: initAuditLog_def insertGenesisRow_def closed_log_def Let_def insertRow_def)

section \<open>Properties\<close>

fun append_all ::
  "(string \<Rightarrow> string) \<Rightarrow> (string \<times> string \<times> append_input) list \<Rightarrow> verifier_log \<Rightarrow> log_error + verifier_log" where
  "append_all sha [] st = Inr st"
| "append_all sha ((i, c, inp) # evs) st = (case appendEvent sha i c inp st of
      Inl e \<Rightarrow> Inl e | Inr (_, st') \<Rightarrow> append_all sha evs st')"

lemma append_all_wf:
  "append_all sha evs st = Inr st' \<Longrightarrow> log_wf sha st \<Longrightarrow> lg_db st = Some rows \<Longrightarrow>
    log_wf sha st' \<and> (\<exists>new. lg_db st' = Some (rows @ new) \<and> length new = length evs)"
proof (induction sha evs st arbitrary: rows rule: append_all.induct)
  case (2 sha i c inp evs st)
  then obtain j st1 where s1: "appendEvent sha i c inp st = Inr (j, st1)" "append_all sha evs st1 = Inr st'"
    by (auto split: sum.splits)
  from append_log_wf [OF 2(3) s1(1)] 2(4)
  obtain r where wf1: "log_wf sha st1" and db1: "lg_db st1 = Some (rows @ [r])" by auto
  obtain new where "log_wf sha st'" "lg_db st' = Some ((rows @ [r]) @ new)" "length new = length evs"
    using "2.IH" [OF s1(1) refl s1(2) wf1 db1] by blast
  then show ?case by (intro conjI exI [of _ "r # new"]) simp_all
qed simp

lemma log_wf_verifies:
  assumes "log_wf sha st" "lg_db st = Some rows"
  shows "verifyChain sha st = Inr \<lparr> cr_ok = True, cr_rows_checked = length rows, cr_first_bad = None \<rparr>"
proof -
  have "linked_entries sha GENESIS_PREV_HASH rows" "sort_key vr_sequence rows = rows"
    using assms by (auto simp: log_wf_def sorted_rows)
  moreover have "linked_entries sha p rows \<Longrightarrow>
      walk sha p n rows = \<lparr> cr_ok = True, cr_rows_checked = n + length rows, cr_first_bad = None \<rparr>" for p n
    by (induction rows arbitrary: p n) (auto simp: computeEntryHash_def)
  ultimately show ?thesis using assms(2) by (simp add: verifyChain_def)
qed

lemma log_wf_restart:
  assumes "log_wf sha st" "lg_db st = Some rows"
  shows "initAuditLog sha i c rows closed_log = Inr st"
proof -
  have wf: "rows \<noteq> []" "map vr_sequence rows = [0..<length rows]" "lg_next st = length rows"
    "lg_last st = vr_entry_hash (last rows)" "sort_key vr_sequence rows = rows"
    using assms by (auto simp: log_wf_def sorted_rows)
  have "set (map vr_sequence rows) = {0..<length rows}" by (simp only: wf(2) set_upt)
  moreover have "Max {0..<length rows} = length rows - 1"
    by (rule Max_eqI) (use wf(1) in \<open>auto simp: Suc_le_eq\<close>)
  ultimately have "Max (set (map vr_sequence rows)) + 1 = length rows"
    using wf(1) by (simp del: set_map)
  then show ?thesis
    using wf assms(2) by (cases st) (simp add: initAuditLog_def closed_log_def Let_def del: set_map)
qed

text \<open>A verifier log created by \<open>initAuditLog\<close> on an empty file and filled
  by any sequence of successful appends has one row per event after the genesis row, passes
  \<open>verifyChain\<close> with every row checked, and reopening the file after a restart
  restores exactly the sequence number and the chain head the process had.\<close>

theorem verifier_log_verifies:
  assumes "initAuditLog sha i c [] closed_log = Inr st0" and "append_all sha evs st0 = Inr st"
  shows "\<exists>rows. lg_db st = Some rows \<and> length rows = length evs + 1 \<and>
    verifyChain sha st = Inr \<lparr> cr_ok = True, cr_rows_checked = length rows, cr_first_bad = None \<rparr> \<and>
    initAuditLog sha i' c' rows closed_log = Inr st"
proof -
  obtain r where r: "lg_db st0 = Some [r]"
    using assms(1) by (auto simp: initAuditLog_def insertGenesisRow_def closed_log_def Let_def insertRow_def)
  obtain new where "log_wf sha st" "lg_db st = Some ([r] @ new)" "length new = length evs"
    using append_all_wf [OF assms(2) genesis_log_wf [OF assms(1)] r] by blast
  then show ?thesis using log_wf_verifies log_wf_restart by (intro exI [of _ "[r] @ new"]) auto
qed

definition sample_append :: append_input where
  "sample_append = \<lparr> in_tenant_id = ''t'', in_environment = ''live'', in_circuit_version = ''v1'',
     in_correlation_id = ''c'', in_verified = True, in_structural_fallback = False,
     in_proof_hash = ''p'', in_pub_signals_hash = ''q'', in_latency_us = 7 \<rparr>"

definition sample_log :: verifier_log where
  "sample_log = (case initAuditLog id ''a'' ''n'' [] closed_log of Inr st \<Rightarrow> st | Inl _ \<Rightarrow> closed_log)"

lemma sample_init: "initAuditLog id ''a'' ''n'' [] closed_log = Inr sample_log"
  using genesis_init [of id "''a''" "''n''"] by (auto simp: sample_log_def)

lemma sample_rows:
  "lg_db sample_log = Some [(genesis_partial ''a'' ''n'')\<lparr>vr_entry_hash :=
      entry_text (genesis_partial ''a'' ''n'') GENESIS_PREV_HASH\<rparr>]"
  "lg_last sample_log = entry_text (genesis_partial ''a'' ''n'') GENESIS_PREV_HASH"
  "lg_next sample_log = 1"
  by (simp_all add: sample_log_def initAuditLog_def insertGenesisRow_def closed_log_def Let_def
      insertRow_def computeEntryHash_def)

lemma sample_append_ok: "\<exists>st. appendEvent id ''b'' ''n'' sample_append sample_log = Inr (''b'', st)"
proof -
  have "entry_text p (lg_last sample_log) \<noteq> lg_last sample_log" for p
  proof -
    have "length (canonicalSerialize p) > 0"
      by (simp add: canonicalSerialize_def)
    then show ?thesis by (simp add: entry_text_def)
  qed
  then show ?thesis
    by (simp add: appendEvent_def sample_rows Let_def insertRow_def row_conflict_def
        genesis_partial_def partial_row_def computeEntryHash_def)
qed

theorem verifier_log_verifies_witness:
  "\<exists>st. append_all id [(''b'', ''n'', sample_append)] sample_log = Inr st \<and>
     verifyChain id st = Inr \<lparr> cr_ok = True, cr_rows_checked = 2, cr_first_bad = None \<rparr>"
proof -
  obtain st where st: "append_all id [(''b'', ''n'', sample_append)] sample_log = Inr st"
    using sample_append_ok by auto
  have "verifyChain id st = Inr \<lparr> cr_ok = True, cr_rows_checked = 2, cr_first_bad = None \<rparr>"
    using verifier_log_verifies [OF sample_init st, of "''x''" "''y''"] by (auto simp: numeral_2_eq_2)
  with st show ?thesis by metis
qed

text \<open>Property C22.  \<open>verifyChain\<close> is exact: it accepts a database just when the rows in
  sequence order form one chain from the genesis hash, and otherwise it reports the sequence
  number of the first row that does not continue the chain, after counting the rows before it.\<close>

theorem verifyChain_exact:
  assumes "lg_db st = Some db"
  shows "(linked_entries sha GENESIS_PREV_HASH (sort_key vr_sequence db) \<and>
      verifyChain sha st = Inr \<lparr> cr_ok = True, cr_rows_checked = length db, cr_first_bad = None \<rparr>) \<or>
    (\<exists>good bad rest. sort_key vr_sequence db = good @ bad # rest \<and>
      linked_entries sha GENESIS_PREV_HASH good \<and>
      \<not> linked_entries sha GENESIS_PREV_HASH (good @ [bad]) \<and>
      verifyChain sha st = Inr \<lparr> cr_ok = False, cr_rows_checked = length good,
        cr_first_bad = Some (vr_sequence bad) \<rparr>)"
proof -
  have "(linked_entries sha p rows \<and>
      walk sha p n rows = \<lparr> cr_ok = True, cr_rows_checked = n + length rows, cr_first_bad = None \<rparr>) \<or>
    (\<exists>good bad rest. rows = good @ bad # rest \<and> linked_entries sha p good \<and>
      \<not> linked_entries sha p (good @ [bad]) \<and>
      walk sha p n rows = \<lparr> cr_ok = False, cr_rows_checked = n + length good,
        cr_first_bad = Some (vr_sequence bad) \<rparr>)" for p n rows
  proof (induction rows arbitrary: p n)
    case (Cons r rows)
    show ?case
    proof (cases "linked_entries sha p [r]")
      case False
      then have "walk sha p n (r # rows) =
          \<lparr> cr_ok = False, cr_rows_checked = n, cr_first_bad = Some (vr_sequence r) \<rparr>"
        by (auto simp: computeEntryHash_def)
      with False show ?thesis by (intro disjI2 exI [of _ "[]"] exI [of _ r] exI [of _ rows]) simp
    next
      case True
      then have w: "walk sha p n (r # rows) = walk sha (vr_entry_hash r) (n + 1) rows"
        by (auto simp: computeEntryHash_def)
      from Cons.IH [of "vr_entry_hash r" "n + 1"] show ?thesis
      proof (elim disjE exE conjE)
        fix good bad rest
        assume "rows = good @ bad # rest" "linked_entries sha (vr_entry_hash r) good"
          "\<not> linked_entries sha (vr_entry_hash r) (good @ [bad])"
          "walk sha (vr_entry_hash r) (n + 1) rows = \<lparr> cr_ok = False,
             cr_rows_checked = n + 1 + length good, cr_first_bad = Some (vr_sequence bad) \<rparr>"
        with True w show ?thesis
          by (intro disjI2 exI [of _ "r # good"] exI [of _ bad] exI [of _ rest]) simp
      qed (use True w in simp)
    qed
  qed simp
  from this [of GENESIS_PREV_HASH "sort_key vr_sequence db" 0] show ?thesis
    by (simp add: verifyChain_def assms)
qed

theorem verifyChain_exact_witness:
  "cr_ok (case verifyChain rev \<lparr> lg_db = Some [], lg_next = 0, lg_last = '''' \<rparr> of Inr r \<Rightarrow> r)"
  using verifyChain_exact [of "\<lparr> lg_db = Some [], lg_next = 0, lg_last = '''' \<rparr>" "[]" rev] by auto

text \<open>If a database passes \<open>verifyChain\<close> and its newest entry hash is the
  one of the log the verifier wrote, then it holds the same rows, or the two logs contain a
  collision of SHA-256 or a text that hashes to the 64 zeros of the genesis pointer.\<close>

theorem verifier_tampering_detected:
  assumes "log_wf sha st" and "lg_db st = Some rows" and "lg_db st' = Some rows'"
    and "\<exists>n. verifyChain sha st' = Inr \<lparr> cr_ok = True, cr_rows_checked = n, cr_first_bad = None \<rparr>"
    and "chain_head vr_entry_hash GENESIS_PREV_HASH (sort_key vr_sequence rows') = lg_last st"
  shows "map row_content (sort_key vr_sequence rows') = map row_content rows \<or>
    (\<exists>r \<in> set rows'. \<exists>q \<in> set rows. entry_text r (vr_prev_hash r) \<noteq> entry_text q (vr_prev_hash q) \<and>
       sha (entry_text r (vr_prev_hash r)) = sha (entry_text q (vr_prev_hash q))) \<or>
    (\<exists>r \<in> set rows' \<union> set rows. sha (entry_text r (vr_prev_hash r)) = GENESIS_PREV_HASH)"
proof -
  have l': "linked_entries sha GENESIS_PREV_HASH (sort_key vr_sequence rows')"
    using assms(3,4) walk_ok_iff [of sha GENESIS_PREV_HASH 0 "sort_key vr_sequence rows'"]
    by (auto simp: verifyChain_def)
  have l: "linked_entries sha GENESIS_PREV_HASH rows" "lg_last st = chain_head vr_entry_hash GENESIS_PREV_HASH rows"
    using assms(1,2) by (auto simp: log_wf_def chain_head_def)
  have h: "chain_head vr_entry_hash GENESIS_PREV_HASH (sort_key vr_sequence rows')
      = chain_head vr_entry_hash GENESIS_PREV_HASH rows"
    using assms(5) l(2) by simp
  show ?thesis
    using verifier_chain.same_head [OF l' l(1) _ h] by (simp add: verifier_chain.hashed_def bex_Un)
qed

theorem verifier_tampering_detected_witness:
  "\<exists>rows. lg_db sample_log = Some rows \<and>
    (map row_content (sort_key vr_sequence rows) = map row_content rows \<or>
     (\<exists>r \<in> set rows. \<exists>q \<in> set rows. entry_text r (vr_prev_hash r) \<noteq> entry_text q (vr_prev_hash q) \<and>
        id (entry_text r (vr_prev_hash r)) = id (entry_text q (vr_prev_hash q))) \<or>
     (\<exists>r \<in> set rows \<union> set rows. id (entry_text r (vr_prev_hash r)) = GENESIS_PREV_HASH))"
proof -
  have wf: "log_wf id sample_log" by (rule genesis_log_wf) (rule sample_init)
  obtain rows where r: "lg_db sample_log = Some rows" using sample_rows(1) by simp
  have "chain_head vr_entry_hash GENESIS_PREV_HASH (sort_key vr_sequence rows) = lg_last sample_log"
    using wf r sorted_rows [of rows "length rows"] by (auto simp: log_wf_def chain_head_def)
  then show ?thesis
    using verifier_tampering_detected [OF wf r r] log_wf_verifies [OF wf r] r by blast
qed

text \<open>Property C17.  A verdict is never lost: when \<open>POST /verify\<close> answers 200, exactly one row
  was appended, it carries the returned audit identifier, the verdict and the fallback flag of the
  response and the hashes of the submitted proof and signals; a positive verdict comes from the
  pairing check of the loaded key, or, flagged as structural fallback, from the shape check when
  no key is loaded.  Any other answer leaves the log unchanged.\<close>

theorem verify_handler_audited:
  assumes "log_wf sha st"
    and "post_verify sha groth vkey i c us rq st = (res, st')"
  shows "log_wf sha st' \<and> (case res of
       Okay resp \<Rightarrow> (\<exists>rows r signals. lg_db st = Some rows \<and> lg_db st' = Some (rows @ [r]) \<and>
          vq_signals rq = JArr signals \<and> length signals = 3 \<and>
          vr_id r = vs_audit_id resp \<and> vs_audit_id resp = i \<and>
          vr_verified r = (if vs_verified resp then 1 else 0) \<and>
          vr_structural_fallback r = (if vs_structural_fallback resp then 1 else 0) \<and>
          vr_proof_hash r = hashPayload sha (vq_proof rq) \<and>
          vr_pub_signals_hash r = hashPayload sha (vq_signals rq) \<and>
          (vs_verified resp = (case vkey of Some k \<Rightarrow> groth k signals (vq_proof rq) = Some True
                                          | None \<Rightarrow> isValidProofStructure (vq_proof rq))) \<and>
          (vs_structural_fallback resp \<longleftrightarrow> vkey = None))
     | _ \<Rightarrow> st' = st)"
proof -
  consider (no_array) "array_of (vq_signals rq) = None"
    | (array) signals where "vq_signals rq = JArr signals"
    by (cases "vq_signals rq") (auto simp: array_of_def)
  then show ?thesis
  proof cases
    case no_array
    with assms show ?thesis by (auto simp: post_verify_def)
  next
    case array
    obtain v f where vf: "verifyProof groth vkey (vq_proof rq) signals = (v, f)" by fastforce
    define inp where "inp = \<lparr> in_tenant_id = or_else ''unspecified'' (vq_tenant_id rq),
       in_environment = (if vq_environment rq = Some ''test'' then ''test'' else ''live''),
       in_circuit_version = or_else CIRCUIT_VERSION (vq_circuit_version rq),
       in_correlation_id = or_else '''' (vq_correlation_id rq), in_verified = v,
       in_structural_fallback = f, in_proof_hash = hashPayload sha (vq_proof rq),
       in_pub_signals_hash = hashPayload sha (vq_signals rq), in_latency_us = us \<rparr>"
    have run: "post_verify sha groth vkey i c us rq st =
        (if \<not> truthy (vq_proof rq) \<or> length signals \<noteq> 3 then (BadRequest, st)
         else case appendEvent sha i c inp st of
                Inl e \<Rightarrow> (ServerError, st)
              | Inr (j, st') \<Rightarrow> (Okay \<lparr> vs_verified = v, vs_audit_id = j,
                  vs_circuit_version = or_else CIRCUIT_VERSION (vq_circuit_version rq),
                  vs_structural_fallback = f \<rparr>, st'))"
      by (simp add: post_verify_def array_of_def array vf inp_def Let_def)
    have verdict: "v = (case vkey of Some k \<Rightarrow> groth k signals (vq_proof rq) = Some True
        | None \<Rightarrow> isValidProofStructure (vq_proof rq))" "f \<longleftrightarrow> vkey = None"
      using vf by (auto simp: verifyProof_def split: option.splits)
    show ?thesis
    proof (cases "\<not> truthy (vq_proof rq) \<or> length signals \<noteq> 3")
      case True
      with run assms show ?thesis by auto
    next
      case False
      show ?thesis
      proof (cases "appendEvent sha i c inp st")
        case (Inl e)
        with False run assms show ?thesis by auto
      next
        case (Inr x)
        then obtain j st1 where x: "appendEvent sha i c inp st = Inr (j, st1)" by (cases x) auto
        from append_log_wf [OF assms(1) this] x False run assms(2) verdict array
        show ?thesis by (auto simp: partial_row_def inp_def)
      qed
    qed
  qed
qed

theorem verify_handler_audited_witness:
  "log_wf id (snd (post_verify id (\<lambda>_ _ _. Some True) (Some ''k'') ''b'' ''n'' 7
     \<lparr> vq_proof = JObj [], vq_signals = JArr [JStr ''1'', JStr ''2'', JStr ''3''], vq_tenant_id = None,
       vq_environment = None, vq_circuit_version = None, vq_correlation_id = None \<rparr> sample_log))"
proof -
  define rq where "rq = \<lparr> vq_proof = JObj [], vq_signals = JArr [JStr ''1'', JStr ''2'', JStr ''3''],
       vq_tenant_id = None, vq_environment = None, vq_circuit_version = None, vq_correlation_id = None \<rparr>"
  obtain res st' where run: "post_verify id (\<lambda>_ _ _. Some True) (Some ''k'') ''b'' ''n'' 7 rq sample_log = (res, st')"
    by fastforce
  from verify_handler_audited [OF genesis_log_wf [OF sample_init] this]
  show ?thesis by (simp only: rq_def [symmetric] run snd_conv)
qed

end
