(* ===== verification/Enrollment.thy ===== *)
theory Enrollment
  imports Prelude
begin

text \<open>
  The enrollment primitives of \<open>src/services/device-enrollment.ts\<close>: generation and
  normalisation of one-time codes, validation of fingerprints.  The random draws of
  \<open>crypto.randomInt\<close> are a function from the position in the code to the drawn
  index.  Upper-casing is modelled on ASCII letters.
\<close>

definition CODE_ALPHABET :: string where
  "CODE_ALPHABET = ''23456789ABCDEFGHJKMNPQRSTVWXYZ''"

definition CODE_GROUP_LEN :: nat where "CODE_GROUP_LEN = 4"
definition CODE_GROUPS :: nat where "CODE_GROUPS = 2"

definition generateEnrollmentCode :: "(nat \<Rightarrow> nat) \<Rightarrow> string" where
  "generateEnrollmentCode draw = ''ZA-'' @ join ''-''
     (map (\<lambda>g. map (\<lambda>i. CODE_ALPHABET ! draw (g * CODE_GROUP_LEN + i)) [0..<CODE_GROUP_LEN])
       [0..<CODE_GROUPS])"

definition is_separator :: "char \<Rightarrow> bool" where
  "is_separator c \<longleftrightarrow> is_space c \<or> c = CHR ''-''"

definition strip_code :: "string \<Rightarrow> string" where
  "strip_code raw = filter (\<lambda>c. \<not> is_separator c) (upper (trim raw))"

text \<open>The matches of the regular expression \<open>.{1,4}\<close> in order.\<close>

fun chunks :: "nat \<Rightarrow> string \<Rightarrow> string list" where
  "chunks n [] = []"
| "chunks n (c # cs) = (if n = 0 then [] else take n (c # cs) # chunks n (drop n (c # cs)))"

definition normaliseEnrollmentCode :: "string \<Rightarrow> string" where
  "normaliseEnrollmentCode raw = (let stripped = strip_code raw in
     if starts_with ''ZA'' stripped \<and> length stripped = 2 + CODE_GROUPS * CODE_GROUP_LEN
     then ''ZA-'' @ join ''-'' (chunks CODE_GROUP_LEN (drop 2 stripped))
     else stripped)"

definition ENROLLMENT_CODE_TTL_MS :: int where
  "ENROLLMENT_CODE_TTL_MS = 15 * 60 * 1000"

definition fingerprintHash :: "(string \<Rightarrow> string) \<Rightarrow> string \<Rightarrow> string" where
  "fingerprintHash sha fp = sha fp"

definition isValidFingerprint :: "string \<Rightarrow> bool" where
  "isValidFingerprint fp \<longleftrightarrow> 16 \<le> length (trim fp) \<and> length fp \<le> 4096"

section \<open>The interface of a code scheme\<close>

text \<open>
  What the enrollment and registration services rely on: a code stored as the hash of its
  issued form is found again from what the user types.  The provider promises that a valid
  draw is a fixed point of normalisation and that normalisation forgets exactly the case and
  the separators.
\<close>

locale code_scheme =
  fixes gen :: "'d \<Rightarrow> string" and norm :: "string \<Rightarrow> string" and key :: "string \<Rightarrow> string"
    and valid :: "'d \<Rightarrow> bool"
  assumes norm_gen: "valid d \<Longrightarrow> norm (gen d) = gen d"
    and norm_iff_key: "norm s = norm t \<longleftrightarrow> key s = key t"
begin

lemma typed_found: "valid d \<Longrightarrow> key typed = key (gen d) \<Longrightarrow> sha (norm typed) = sha (gen d)"
  using norm_gen [of d] norm_iff_key [of typed "gen d"] by simp

lemma typed_found_only:
  assumes "valid d" "sha (norm typed) = sha (gen d)" "sha (norm typed) = sha (gen d) \<Longrightarrow> norm typed = gen d"
  shows "key typed = key (gen d)"
  using assms norm_gen norm_iff_key by metis

lemma gen_distinct: "valid d \<Longrightarrow> valid e \<Longrightarrow> gen d = gen e \<longleftrightarrow> key (gen d) = key (gen e)"
  using norm_gen norm_iff_key by metis

end

section \<open>The scheme of the enrollment codes\<close>

definition valid_draw :: "(nat \<Rightarrow> nat) \<Rightarrow> bool" where
  "valid_draw draw \<longleftrightarrow> (\<forall>i < CODE_GROUPS * CODE_GROUP_LEN. draw i < length CODE_ALPHABET)"

lemma separator_code: "is_separator c \<longleftrightarrow> (of_char c :: nat) \<in> {9, 10, 11, 12, 13, 32, 45, 160}"
proof -
  have "c = CHR ''-'' \<longleftrightarrow> (of_char c :: nat) = 45"
    using of_char_eq_iff [of c "CHR ''-''", where 'a = nat] by simp
  then show ?thesis by (auto simp: is_separator_def is_space_def)
qed

lemma upper_code:
  "(of_char (to_upper_char c) :: nat) = (if is_lower c then of_char c - 32 else of_char c)"
  by (auto simp: to_upper_char_def is_lower_def of_char_of)

lemma separator_upper [simp]: "is_separator (to_upper_char c) = is_separator c"
  unfolding separator_code upper_code by (auto simp: is_lower_def)

lemma upper_idem [simp]: "upper (upper s) = upper s"
proof -
  have "to_upper_char (to_upper_char c) = to_upper_char c" for c
    using upper_code [of c] by (auto simp: to_upper_char_def [of "to_upper_char c"] is_lower_def)
  then show ?thesis by (simp add: upper_def)
qed

lemma strip_code_filter: "strip_code raw = filter (\<lambda>c. \<not> is_separator c) (upper raw)"
proof -
  have f: "filter (\<lambda>c. \<not> is_separator c) (upper s) = upper (filter (\<lambda>c. \<not> is_separator c) s)" for s
    by (induction s) (simp_all add: upper_def)
  have dw: "filter (\<lambda>c. \<not> is_separator c) (dropWhile is_space s) = filter (\<lambda>c. \<not> is_separator c) s" for s
    by (induction s) (auto simp: is_separator_def)
  have "filter (\<lambda>c. \<not> is_separator c) (trim s) = filter (\<lambda>c. \<not> is_separator c) s" for s
    by (simp add: trim_def dw flip: rev_filter)
  then show ?thesis by (simp add: strip_code_def f)
qed

definition regroup :: "string \<Rightarrow> string" where
  "regroup s = (if starts_with ''ZA'' s \<and> length s = 10
     then ''ZA-'' @ take 4 (drop 2 s) @ ''-'' @ drop 6 s else s)"

lemma length_four: "length s = 4 \<Longrightarrow> \<exists>a b c d. s = [a, b, c, d]"
  by (auto simp: length_Suc_conv numeral_eq_Suc)

lemma length_ten: "length s = 10 \<Longrightarrow> \<exists>a b c d e f g h i j. s = [a, b, c, d, e, f, g, h, i, j]"
  by (auto simp: length_Suc_conv numeral_eq_Suc)

lemma normalise_regroup: "normaliseEnrollmentCode raw = regroup (strip_code raw)"
proof (cases "length (strip_code raw) = 10")
  case True
  then obtain a b c d e f g h i j where "strip_code raw = [a, b, c, d, e, f, g, h, i, j]"
    using length_ten [OF True] by (elim exE) (rule that)
  then show ?thesis
    by (simp add: normaliseEnrollmentCode_def regroup_def Let_def CODE_GROUPS_def CODE_GROUP_LEN_def)
next
  case False
  then show ?thesis
    by (simp add: normaliseEnrollmentCode_def regroup_def Let_def CODE_GROUPS_def CODE_GROUP_LEN_def)
qed

lemma regroup_inj:
  assumes "\<forall>c \<in> set s. \<not> is_separator c" "\<forall>c \<in> set t. \<not> is_separator c" "regroup s = regroup t"
  shows "s = t"
proof -
  have sep: "is_separator CHR ''-''" by (simp add: is_separator_def)
  have four: "\<exists>u. regroup s = ''ZA-'' @ u" if "starts_with ''ZA'' s \<and> length s = 10" for s
    using that by (simp add: regroup_def)
  have no: "regroup s \<noteq> ''ZA-'' @ u" if "\<not> (starts_with ''ZA'' s \<and> length s = 10)"
    "\<forall>c \<in> set s. \<not> is_separator c" for s u
    using that sep by (auto simp: regroup_def)
  show ?thesis
  proof (cases "starts_with ''ZA'' s \<and> length s = 10")
    case True
    then have t: "starts_with ''ZA'' t \<and> length t = 10" using four no assms by metis
    obtain s' t' where st: "s = ''ZA'' @ s'" "t = ''ZA'' @ t'"
      using True t by (auto simp: starts_with_iff)
    then have "take 4 s' @ ''-'' @ drop 4 s' = take 4 t' @ ''-'' @ drop 4 t'" "length s' = 8" "length t' = 8"
      using True t assms(3) by (auto simp: regroup_def)
    then have "take 4 s' = take 4 t' \<and> drop 4 s' = drop 4 t'" by simp
    then have "s' = t'" by (metis append_take_drop_id)
    then show ?thesis using st by simp
  next
    case False
    then have "\<not> (starts_with ''ZA'' t \<and> length t = 10)" using four no assms by metis
    then have "regroup t = t" by (auto simp: regroup_def)
    moreover have "regroup s = s" using False by (auto simp: regroup_def)
    ultimately show ?thesis using assms(3) by simp
  qed
qed

lemma strip_no_separator: "\<forall>c \<in> set (strip_code raw). \<not> is_separator c"
  by (simp add: strip_code_filter)

lemma alphabet_plain:
  assumes "c \<in> set CODE_ALPHABET"
  shows "\<not> is_separator c \<and> to_upper_char c = c"
proof -
  have "\<forall>c \<in> set CODE_ALPHABET. \<not> is_separator c \<and> to_upper_char c = c"
    by (simp add: CODE_ALPHABET_def separator_code to_upper_char_def is_lower_def)
  then show ?thesis using assms by blast
qed

lemma upt_four: "[0..<4] = [0, 1, 2, 3]" and upt_two: "[0..<2] = [0, 1]"
  by (simp_all add: upt_rec)

definition draw_char :: "(nat \<Rightarrow> nat) \<Rightarrow> nat \<Rightarrow> char" where
  "draw_char draw i = CODE_ALPHABET ! draw i"

lemma generate_chars:
  "generateEnrollmentCode draw = ''ZA-'' @ map (draw_char draw) [0, 1, 2, 3] @ ''-''
     @ map (draw_char draw) [4, 5, 6, 7]"
  by (simp add: generateEnrollmentCode_def CODE_GROUP_LEN_def CODE_GROUPS_def upt_four upt_two draw_char_def numeral_eq_Suc)

lemma strip_generated:
  assumes "valid_draw draw"
  shows "strip_code (generateEnrollmentCode draw) = ''ZA'' @ map (draw_char draw) [0, 1, 2, 3, 4, 5, 6, 7]"
proof -
  have c: "\<not> is_separator (draw_char draw i)" "to_upper_char (draw_char draw i) = draw_char draw i" if "i < 8" for i
    using that assms alphabet_plain [of "draw_char draw i"]
    by (auto simp: valid_draw_def CODE_GROUP_LEN_def CODE_GROUPS_def draw_char_def)
  have za: "\<not> is_separator CHR ''Z''" "\<not> is_separator CHR ''A''" "is_separator CHR ''-''"
    "to_upper_char CHR ''Z'' = CHR ''Z''" "to_upper_char CHR ''A'' = CHR ''A''" "to_upper_char CHR ''-'' = CHR ''-''"
    by (simp_all add: separator_code to_upper_char_def is_lower_def)
  show ?thesis
    unfolding strip_code_filter generate_chars by (simp add: upper_def c za)
qed

lemma normalise_generated:
  assumes "valid_draw draw"
  shows "normaliseEnrollmentCode (generateEnrollmentCode draw) = generateEnrollmentCode draw"
  unfolding normalise_regroup strip_generated [OF assms]
  by (simp add: regroup_def generate_chars)

interpretation codes: code_scheme generateEnrollmentCode normaliseEnrollmentCode strip_code valid_draw
proof unfold_locales
  fix s t
  show "normaliseEnrollmentCode s = normaliseEnrollmentCode t \<longleftrightarrow> strip_code s = strip_code t"
    using regroup_inj [OF strip_no_separator strip_no_separator] by (auto simp: normalise_regroup)
qed (rule normalise_generated)

section \<open>Properties\<close>

lemma draw_upt: "map (draw_char draw) [0, 1, 2, 3, 4, 5, 6, 7] = map (\<lambda>i. CODE_ALPHABET ! draw i) [0..<8]"
  by (simp add: draw_char_def upt_rec numeral_eq_Suc)

text \<open>Whatever the operator types is recognised as an issued code exactly when,
  without white space and hyphens and in upper case, it is the prefix \<open>ZA\<close> and the eight
  drawn symbols: lower case, missing or misplaced hyphens and surrounding blanks are
  tolerated, and nothing else is.\<close>

theorem enrollment_code_recognised:
  assumes "valid_draw draw"
  shows "normaliseEnrollmentCode typed = generateEnrollmentCode draw \<longleftrightarrow>
    filter (\<lambda>c. \<not> is_separator c) (upper typed) = ''ZA'' @ map (\<lambda>i. CODE_ALPHABET ! draw i) [0..<8]"
proof -
  have "normaliseEnrollmentCode typed = generateEnrollmentCode draw \<longleftrightarrow>
      strip_code typed = strip_code (generateEnrollmentCode draw)"
    using codes.norm_gen [OF assms] codes.norm_iff_key by metis
  then show ?thesis
    unfolding strip_generated [OF assms] draw_upt strip_code_filter [of typed] .
qed

theorem enrollment_code_recognised_witness:
  "normaliseEnrollmentCode '' za22 222222'' = generateEnrollmentCode (\<lambda>_. 0)"
proof -
  have v: "valid_draw (\<lambda>_. 0)" by (simp add: valid_draw_def CODE_ALPHABET_def)
  have "char_of (90 :: nat) = CHR ''Z''" "char_of (65 :: nat) = CHR ''A''" by code_simp+
  then show ?thesis
    unfolding enrollment_code_recognised [OF v]
    by (simp add: upper_def to_upper_char_def is_lower_def separator_code CODE_ALPHABET_def upt_rec)
qed

text \<open>Two codes agree only when all eight draws agree: the 30-symbol alphabet
  has no repeated symbol, so there are 30 to the power 8 codes.\<close>

theorem enrollment_codes_distinct:
  assumes "valid_draw d" and "valid_draw e"
  shows "length CODE_ALPHABET = 30 \<and> distinct CODE_ALPHABET \<and>
    (generateEnrollmentCode d = generateEnrollmentCode e \<longleftrightarrow> (\<forall>i < 8. d i = e i))"
proof -
  have a: "length CODE_ALPHABET = 30" "distinct CODE_ALPHABET" by (simp_all add: CODE_ALPHABET_def)
  have "generateEnrollmentCode d = generateEnrollmentCode e \<longleftrightarrow>
      map (\<lambda>i. CODE_ALPHABET ! d i) [0..<8] = map (\<lambda>i. CODE_ALPHABET ! e i) [0..<8]"
    unfolding codes.gen_distinct [OF assms] strip_generated [OF assms(1)] strip_generated [OF assms(2)] draw_upt
    by simp
  also have "\<dots> \<longleftrightarrow> (\<forall>i < 8. CODE_ALPHABET ! d i = CODE_ALPHABET ! e i)" by auto
  also have "\<dots> \<longleftrightarrow> (\<forall>i < 8. d i = e i)"
    using assms a by (auto simp: valid_draw_def CODE_GROUPS_def CODE_GROUP_LEN_def nth_eq_iff_index_eq)
  finally show ?thesis using a by simp
qed

theorem enrollment_codes_distinct_witness:
  "generateEnrollmentCode (\<lambda>_. 0) \<noteq> generateEnrollmentCode (\<lambda>_. 1)"
proof -
  have "valid_draw (\<lambda>_. 0)" "valid_draw (\<lambda>_. 1)" by (simp_all add: valid_draw_def CODE_ALPHABET_def)
  from enrollment_codes_distinct [OF this] show ?thesis by (auto dest: spec [of _ 0])
qed

end
