(* ===== verification/Devices.thy ===== *)
theory Devices
  imports Audit_Log Enrollment
begin

text \<open>
  The device operations of \<open>src/services/platform.ts\<close>: creation by a trusted service,
  one-time enrollment codes, the claim by a device, revocation, updates and listing.  The
  audit row each operation writes (\<open>void recordAuditEvent(..)\<close>) is appended at its call
  point.  \<open>sha\<close> is SHA-256 in hexadecimal, \<open>now\<close> the clock, \<open>newid\<close> the
  identifier the database draws and \<open>uuid\<close> a fresh \<open>uuidv4()\<close>.
\<close>

section \<open>Shared helpers of the platform service\<close>

datatype platform_error =
    InvalidDeviceType | InvalidTimestamp | ConstraintViolation
  | InvalidFingerprint | CodeNotFoundOrExpired | FingerprintCollision
  | DeviceMissing | UserMissing | VerificationMissing

definition DEVICE_TYPES :: "(string \<times> device_type) list" where
  "DEVICE_TYPES = [(''mobile_android'', MobileAndroid), (''mobile_ios'', MobileIos),
     (''kiosk'', Kiosk), (''iot_bridge'', IotBridge), (''desktop'', Desktop)]"

definition device_type_of :: "string \<Rightarrow> device_type option" where
  "device_type_of v = map_of DEVICE_TYPES v"

definition isValidDeviceType :: "string \<Rightarrow> bool" where
  "isValidDeviceType v = (device_type_of v \<noteq> None)"

definition device_type_str :: "device_type \<Rightarrow> string" where
  "device_type_str t = (case t of MobileAndroid \<Rightarrow> ''mobile_android'' | MobileIos \<Rightarrow> ''mobile_ios''
     | Kiosk \<Rightarrow> ''kiosk'' | IotBridge \<Rightarrow> ''iot_bridge'' | Desktop \<Rightarrow> ''desktop'')"

definition device_status_str :: "device_status \<Rightarrow> string" where
  "device_status_str t = (case t of DeviceActive \<Rightarrow> ''active'' | DeviceInactive \<Rightarrow> ''inactive''
     | DeviceRetired \<Rightarrow> ''retired'')"

record audit_actor =
  ac_type :: actor_type
  ac_id :: "string option"
  ac_email :: "string option"

definition actorMetadata :: "audit_actor option \<Rightarrow> (string \<times> json) list" where
  "actorMetadata actor = (case actor of None \<Rightarrow> []
     | Some a \<Rightarrow> (case ac_email a of None \<Rightarrow> []
         | Some e \<Rightarrow> if e = [] then [] else [(''actor_email'', JStr e)]))"

definition sanitizeLimit :: "int option \<Rightarrow> int \<Rightarrow> nat" where
  "sanitizeLimit limit fallback = nat (case limit of None \<Rightarrow> fallback
     | Some n \<Rightarrow> if n = 0 then fallback else max 1 (min 100 n))"

text \<open>\<open>x?.trim() || null\<close>\<close>

definition trim_or_null :: "string option \<Rightarrow> string option" where
  "trim_or_null x = (case x of None \<Rightarrow> None | Some s \<Rightarrow> if trim s = [] then None else Some (trim s))"

definition defaultExternalId :: "string \<Rightarrow> string option \<Rightarrow> uuid \<Rightarrow> string" where
  "defaultExternalId prefix externalId uuid = (case trim_or_null externalId of
       Some s \<Rightarrow> s
     | None \<Rightarrow> prefix @ ''_'' @ take 12 (filter (\<lambda>c. c \<noteq> CHR ''-'') uuid))"

definition scoped_device :: "uuid \<Rightarrow> environment \<Rightarrow> uuid \<Rightarrow> device \<Rightarrow> bool" where
  "scoped_device t e i d \<longleftrightarrow> dv_id d = i \<and> dv_tenant_id d = t \<and> dv_environment d = e"

definition findDevice :: "uuid \<Rightarrow> environment \<Rightarrow> uuid \<Rightarrow> server \<Rightarrow> device option" where
  "findDevice t e i s = first_row (scoped_device t e i) (t_devices s)"

text \<open>\<open>parseTimestamp\<close>; the \<open>Date\<close> parser is the parameter \<open>parse\<close>.\<close>

definition parseTimestamp ::
  "(string \<Rightarrow> time_ms option) \<Rightarrow> time_ms \<Rightarrow> string option \<Rightarrow> platform_error + time_ms" where
  "parseTimestamp parse now v = (case v of None \<Rightarrow> Inr now
     | Some x \<Rightarrow> if x = [] then Inr now
                 else (case parse x of None \<Rightarrow> Inl InvalidTimestamp | Some t \<Rightarrow> Inr t))"

definition actor_input ::
  "audit_actor option \<Rightarrow> actor_type \<Rightarrow> environment \<Rightarrow> string \<Rightarrow> string \<Rightarrow> uuid \<Rightarrow> audit_status \<Rightarrow> string
     \<Rightarrow> (string \<times> json) list \<Rightarrow> audit_input" where
  "actor_input actor dflt e action entity i status summary members =
     \<lparr> ai_environment = Some e,
       ai_actor_type = (case actor of None \<Rightarrow> dflt | Some a \<Rightarrow> ac_type a),
       ai_actor_id = (case actor of None \<Rightarrow> None | Some a \<Rightarrow> ac_id a),
       ai_action = action, ai_entity_type = entity, ai_entity_id = Some i, ai_status = status,
       ai_summary = summary, ai_metadata = JObj members \<rparr>"

section \<open>Creation\<close>

record device_input =
  di_external_id :: "string option"
  di_name :: string
  di_device_type :: "device_type option"
  di_location_id :: "string option"
  di_battery_level :: "int option"
  di_metadata :: json

definition new_device ::
  "time_ms \<Rightarrow> uuid \<Rightarrow> uuid \<Rightarrow> uuid \<Rightarrow> environment \<Rightarrow> device_input \<Rightarrow> device" where
  "new_device now newid uuid t e inp =
     \<lparr> dv_id = newid, dv_tenant_id = t, dv_environment = e,
       dv_external_id = defaultExternalId ''device'' (di_external_id inp) uuid,
       dv_name = trim (di_name inp), dv_device_type = or_else Kiosk (di_device_type inp),
       dv_location_id = trim_or_null (di_location_id inp), dv_status = DeviceActive,
       dv_enrollment_state = Enrolled, dv_enrollment_code_hash = None,
       dv_enrollment_code_expires_at = None, dv_enrolled_at = Some now,
       dv_fingerprint_hash = None, dv_attestation_kind = None,
       dv_battery_level = di_battery_level inp,
       dv_metadata = stored (sanitizeMetadata (di_metadata inp)), dv_last_seen_at = Some now,
       dv_created_at = now, dv_updated_at = now \<rparr>"

definition createDevice ::
  "(string \<Rightarrow> string) \<Rightarrow> time_ms \<Rightarrow> uuid \<Rightarrow> uuid \<Rightarrow> uuid \<Rightarrow> environment \<Rightarrow> device_input
     \<Rightarrow> audit_actor option \<Rightarrow> server \<Rightarrow> (platform_error + device) \<times> server" where
  "createDevice sha now newid uuid t e inp actor s =
     (let d = new_device now newid uuid t e inp in
      case insert_device d s of
        None \<Rightarrow> (Inl ConstraintViolation, s)
      | Some s' \<Rightarrow> (Inr d, recordAuditEvent sha now t
          (actor_input actor ActorApiKey e ''device.created'' ''device'' newid AuditSuccess
             (''Registered device '' @ dv_external_id d)
             ([(''locationId'', opt_str (dv_location_id d)), (''name'', JStr (dv_name d)),
               (''deviceType'', JStr (device_type_str (dv_device_type d))),
               (''via'', JStr ''trusted-service'')] @ actorMetadata actor)) s'))"

section \<open>Enrollment codes\<close>

record slot_input =
  si_name :: string
  si_device_type :: string
  si_location_id :: "string option"
  si_metadata :: json

definition pending_device ::
  "(string \<Rightarrow> string) \<Rightarrow> time_ms \<Rightarrow> uuid \<Rightarrow> uuid \<Rightarrow> string \<Rightarrow> uuid \<Rightarrow> environment \<Rightarrow> slot_input
     \<Rightarrow> device_type \<Rightarrow> device" where
  "pending_device sha now newid uuid code t e inp ty =
     \<lparr> dv_id = newid, dv_tenant_id = t, dv_environment = e,
       dv_external_id = defaultExternalId ''pending'' None uuid,
       dv_name = trim (si_name inp), dv_device_type = ty,
       dv_location_id = trim_or_null (si_location_id inp), dv_status = DeviceActive,
       dv_enrollment_state = Pending, dv_enrollment_code_hash = Some (sha code),
       dv_enrollment_code_expires_at = Some (now + ENROLLMENT_CODE_TTL_MS),
       dv_enrolled_at = None, dv_fingerprint_hash = None, dv_attestation_kind = None,
       dv_battery_level = None, dv_metadata = stored (sanitizeMetadata (si_metadata inp)),
       dv_last_seen_at = None, dv_created_at = now, dv_updated_at = now \<rparr>"

text \<open>The invitation returned once: the row, the plaintext code and its expiry.\<close>

type_synonym invite = "device \<times> string \<times> time_ms"

definition issueEnrollmentCode ::
  "(string \<Rightarrow> string) \<Rightarrow> time_ms \<Rightarrow> uuid \<Rightarrow> uuid \<Rightarrow> (nat \<Rightarrow> nat) \<Rightarrow> uuid \<Rightarrow> environment \<Rightarrow> slot_input
     \<Rightarrow> audit_actor option \<Rightarrow> server \<Rightarrow> (platform_error + invite) \<times> server" where
  "issueEnrollmentCode sha now newid uuid draw t e inp actor s =
     (case device_type_of (si_device_type inp) of
        None \<Rightarrow> (Inl InvalidDeviceType, s)
      | Some ty \<Rightarrow>
         (let code = generateEnrollmentCode draw;
              expiresAt = now + ENROLLMENT_CODE_TTL_MS;
              d = pending_device sha now newid uuid code t e inp ty
          in case insert_device d s of
               None \<Rightarrow> (Inl ConstraintViolation, s)
             | Some s' \<Rightarrow> (Inr (d, code, expiresAt), recordAuditEvent sha now t
                 (actor_input actor ActorConsole e ''device.enrollment_code_issued'' ''device'' newid
                    AuditSuccess (''Issued enrollment code for '' @ dv_name d)
                    ([(''deviceType'', JStr (device_type_str ty)),
                      (''locationId'', opt_str (dv_location_id d)),
                      (''expiresAt'', JStr (iso_string expiresAt))] @ actorMetadata actor)) s')))"

definition set_code :: "string \<times> time_ms \<times> time_ms \<Rightarrow> device \<Rightarrow> device" where
  "set_code a d = (case a of (codeHash, expiresAt, now) \<Rightarrow>
     d\<lparr>dv_enrollment_code_hash := Some codeHash,
       dv_enrollment_code_expires_at := Some expiresAt, dv_updated_at := now\<rparr>)"

definition regenerateEnrollmentCode ::
  "(string \<Rightarrow> string) \<Rightarrow> time_ms \<Rightarrow> (nat \<Rightarrow> nat) \<Rightarrow> uuid \<Rightarrow> environment \<Rightarrow> uuid
     \<Rightarrow> audit_actor option \<Rightarrow> server \<Rightarrow> invite option \<times> server" where
  "regenerateEnrollmentCode sha now draw t e i actor s =
     (let code = generateEnrollmentCode draw;
          expiresAt = now + ENROLLMENT_CODE_TTL_MS;
          P = (\<lambda>d. scoped_device t e i d \<and> dv_enrollment_state d = Pending);
          upd = set_code (sha code, expiresAt, now)
      in case returning P upd (t_devices s) of
           [] \<Rightarrow> (None, s)
         | d # _ \<Rightarrow> (Some (d, code, expiresAt), recordAuditEvent sha now t
             (actor_input actor ActorConsole e ''device.enrollment_code_reissued'' ''device'' (dv_id d)
                AuditSuccess (''Re-issued enrollment code for '' @ dv_name d)
                ((''expiresAt'', JStr (iso_string expiresAt)) # actorMetadata actor))
             (s\<lparr>t_devices := update_rows P upd (t_devices s)\<rparr>)))"

section \<open>The claim\<close>

record claim_input =
  ci_code :: string
  ci_fingerprint :: string
  ci_attestation_kind :: "string option"
  ci_ip :: "string option"
  ci_user_agent :: "string option"

definition bind_device :: "string \<times> string \<times> string \<times> time_ms \<Rightarrow> device \<Rightarrow> device" where
  "bind_device a d = (case a of (extId, fpHash, kind, now) \<Rightarrow>
     d\<lparr>dv_external_id := extId, dv_fingerprint_hash := Some fpHash,
       dv_attestation_kind := Some kind, dv_enrollment_state := Enrolled,
       dv_enrolled_at := Some now, dv_enrollment_code_hash := None,
       dv_enrollment_code_expires_at := None, dv_last_seen_at := Some now,
       dv_updated_at := now\<rparr>)"

definition claimable :: "string \<Rightarrow> time_ms \<Rightarrow> device \<Rightarrow> bool" where
  "claimable codeHash now d \<longleftrightarrow> dv_enrollment_code_hash d = Some codeHash
     \<and> dv_enrollment_state d = Pending
     \<and> (case dv_enrollment_code_expires_at d of None \<Rightarrow> False | Some x \<Rightarrow> now < x)"

definition same_fingerprint :: "device \<Rightarrow> string \<Rightarrow> device \<Rightarrow> bool" where
  "same_fingerprint pending fpHash d \<longleftrightarrow> dv_tenant_id d = dv_tenant_id pending
     \<and> dv_environment d = dv_environment pending
     \<and> dv_fingerprint_hash d = Some fpHash \<and> dv_id d \<noteq> dv_id pending"

definition claimDeviceWithCode ::
  "(string \<Rightarrow> string) \<Rightarrow> time_ms \<Rightarrow> claim_input \<Rightarrow> server \<Rightarrow> (platform_error + device) \<times> server" where
  "claimDeviceWithCode sha now inp s =
     (if \<not> isValidFingerprint (ci_fingerprint inp) then (Inl InvalidFingerprint, s)
      else (let codeHash = sha (normaliseEnrollmentCode (ci_code inp));
                fpHash = fingerprintHash sha (ci_fingerprint inp);
                newExternalId = ''dev_'' @ take 16 fpHash
        in case first_row (claimable codeHash now) (t_devices s) of
             None \<Rightarrow> (Inl CodeNotFoundOrExpired, s)
           | Some pending \<Rightarrow>
               if list_ex (same_fingerprint pending fpHash) (t_devices s)
               then (Inl FingerprintCollision, s)
               else (let kind = or_else ''none'' (ci_attestation_kind inp);
                         upd = bind_device (newExternalId, fpHash, kind, now);
                         P = (\<lambda>d. dv_id d = dv_id pending)
                 in case store_devices (update_rows P upd (t_devices s)) s of
                      None \<Rightarrow> (Inl ConstraintViolation, s)
                    | Some s' \<Rightarrow>
                        (let d = upd pending in
                         (Inr d, recordAuditEvent sha now (dv_tenant_id d)
                           \<lparr> ai_environment = Some (dv_environment d), ai_actor_type = ActorDevice,
                             ai_actor_id = Some (dv_id d), ai_action = ''device.enrolled'',
                             ai_entity_type = ''device'', ai_entity_id = Some (dv_id d),
                             ai_status = AuditSuccess,
                             ai_summary = ''Device '' @ dv_name d @ '' enrolled'',
                             ai_metadata = JObj
                               [(''deviceType'', JStr (device_type_str (dv_device_type d))),
                                (''attestationKind'', opt_str (dv_attestation_kind d)),
                                (''enrollIp'', opt_str (ci_ip inp)),
                                (''userAgent'', opt_str (ci_user_agent inp))] \<rparr> s')))))"

section \<open>Revocation, update and listing\<close>

definition revoke_row :: "time_ms \<Rightarrow> device \<Rightarrow> device" where
  "revoke_row now d = d\<lparr>dv_enrollment_state := Revoked, dv_status := DeviceRetired,
     dv_enrollment_code_hash := None, dv_enrollment_code_expires_at := None,
     dv_updated_at := now\<rparr>"

definition revokeDevice ::
  "(string \<Rightarrow> string) \<Rightarrow> time_ms \<Rightarrow> uuid \<Rightarrow> environment \<Rightarrow> uuid \<Rightarrow> audit_actor option \<Rightarrow> server
     \<Rightarrow> device option \<times> server" where
  "revokeDevice sha now t e i actor s =
     (case returning (scoped_device t e i) (revoke_row now) (t_devices s) of
        [] \<Rightarrow> (None, s)
      | d # _ \<Rightarrow> (Some d, recordAuditEvent sha now t
          (actor_input actor ActorConsole e ''device.revoked'' ''device'' (dv_id d) AuditSuccess
             (''Revoked device '' @ dv_name d) (actorMetadata actor))
          (s\<lparr>t_devices := update_rows (scoped_device t e i) (revoke_row now) (t_devices s)\<rparr>)))"

record device_patch =
  dp_name :: "string option"
  dp_location_id :: "string option"
  dp_battery_level :: "int option"
  dp_status :: "device_status option"
  dp_metadata :: json
  dp_last_seen_at :: "string option"

definition patch_row :: "device_patch \<times> time_ms option \<times> time_ms \<Rightarrow> device \<Rightarrow> device" where
  "patch_row a d = (case a of (inp, seen, now) \<Rightarrow>
     d\<lparr>dv_name := or_else (dv_name d) (trim_or_null (dp_name inp)),
       dv_location_id := first_some (trim_or_null (dp_location_id inp)) (dv_location_id d),
       dv_battery_level := first_some (dp_battery_level inp) (dv_battery_level d),
       dv_status := or_else (dv_status d) (dp_status inp),
       dv_metadata := (if truthy (dp_metadata inp)
                       then stored (sanitizeMetadata (dp_metadata inp)) else dv_metadata d),
       dv_last_seen_at := first_some seen (dv_last_seen_at d),
       dv_updated_at := now\<rparr>)"

definition updateDevice ::
  "(string \<Rightarrow> time_ms option) \<Rightarrow> (string \<Rightarrow> string) \<Rightarrow> time_ms \<Rightarrow> uuid \<Rightarrow> environment \<Rightarrow> uuid
     \<Rightarrow> device_patch \<Rightarrow> audit_actor option \<Rightarrow> server \<Rightarrow> (platform_error + device option) \<times> server" where
  "updateDevice parse sha now t e i inp actor s =
     (case (case dp_last_seen_at inp of None \<Rightarrow> Inr None
              | Some x \<Rightarrow> if x = [] then Inr None
                          else (case parseTimestamp parse now (Some x) of
                                  Inl er \<Rightarrow> Inl er | Inr v \<Rightarrow> Inr (Some v))) of
        Inl er \<Rightarrow> (Inl er, s)
      | Inr seen \<Rightarrow>
         (let P = scoped_device t e i; upd = patch_row (inp, seen, now)
          in case store_devices (update_rows P upd (t_devices s)) s of
               None \<Rightarrow> (Inl ConstraintViolation, s)
             | Some s' \<Rightarrow> (case returning P upd (t_devices s) of
                   [] \<Rightarrow> (Inr None, s)
                 | d # _ \<Rightarrow> (Inr (Some d), recordAuditEvent sha now t
                     (actor_input actor ActorApiKey e ''device.updated'' ''device'' (dv_id d) AuditSuccess
                        (''Updated device '' @ dv_external_id d)
                        ([(''status'', JStr (device_status_str (dv_status d))),
                          (''batteryLevel'', (case dv_battery_level d of None \<Rightarrow> JNull | Some b \<Rightarrow> JNum b))]
                         @ actorMetadata actor)) s'))))"

text \<open>\<open>ORDER BY created_at DESC LIMIT n\<close> (rows of the same instant in order of insertion).\<close>

definition newest :: "('r \<Rightarrow> time_ms) \<Rightarrow> nat \<Rightarrow> 'r list \<Rightarrow> 'r list" where
  "newest f n rows = take n (sort_key (\<lambda>r. - f r) rows)"

definition opt_matches :: "'a option \<Rightarrow> 'a \<Rightarrow> bool" where
  "opt_matches want x = (case want of None \<Rightarrow> True | Some w \<Rightarrow> x = w)"

definition listDevices ::
  "uuid \<Rightarrow> environment \<Rightarrow> device_status option \<Rightarrow> enrollment_state option \<Rightarrow> int option \<Rightarrow> server
     \<Rightarrow> device list" where
  "listDevices t e status state limit s = newest dv_created_at (sanitizeLimit limit 50)
     (select_rows (\<lambda>d. dv_tenant_id d = t \<and> dv_environment d = e
        \<and> opt_matches status (dv_status d) \<and> opt_matches state (dv_enrollment_state d)) (t_devices s))"

section \<open>The update statements keep the primary key\<close>

interpretation code_update: keyed_update dv_id set_code
  by unfold_locales (simp add: set_code_def split: prod.split)

interpretation bind_update: keyed_update dv_id bind_device
  by unfold_locales (simp add: bind_device_def split: prod.split)

interpretation revoke_update: keyed_update dv_id revoke_row
  by unfold_locales (simp add: revoke_row_def)

interpretation patch_update: keyed_update dv_id patch_row
  by unfold_locales (simp add: patch_row_def split: prod.split)

section \<open>Audit rows of the platform are loggable\<close>

lemma recordAudit_tables [simp]:
  "t_tenants (recordAuditEvent sha now t a s) = t_tenants s"
  "t_api_keys (recordAuditEvent sha now t a s) = t_api_keys s"
  "t_devices (recordAuditEvent sha now t a s) = t_devices s"
  "t_users (recordAuditEvent sha now t a s) = t_users s"
  "t_verifications (recordAuditEvent sha now t a s) = t_verifications s"
  "t_attendance (recordAuditEvent sha now t a s) = t_attendance s"
  "t_pairing (recordAuditEvent sha now t a s) = t_pairing s"
  "t_registrations (recordAuditEvent sha now t a s) = t_registrations s"
  "t_anchors (recordAuditEvent sha now t a s) = t_anchors s"
  "t_pending (recordAuditEvent sha now t a s) = t_pending s"
  "t_usage_monthly (recordAuditEvent sha now t a s) = t_usage_monthly s"
  "t_usage_logs (recordAuditEvent sha now t a s) = t_usage_logs s"
  by (simp_all add: recordAuditEvent_def)

lemma sanitize_object [simp]: "sanitizeMetadata (JObj kvs) = JObj kvs"
  by (simp add: sanitizeMetadata_def is_object_def)

lemma loggable_object [simp]: "loggable (JObj kvs) \<longleftrightarrow> (\<forall>(k, v) \<in> set kvs. defined v)"
  by (auto simp: loggable_def is_object_def list_all_iff)

lemma actor_members_defined [simp]: "(k, v) \<in> set (actorMetadata actor) \<Longrightarrow> defined v"
  by (auto simp: actorMetadata_def split: option.splits if_splits)

lemma actor_input_metadata [simp]:
  "ai_metadata (actor_input actor dflt e action entity i status summary members) = JObj members"
  by (simp add: actor_input_def)

lemma audit_wf_devices [simp]:
  "audit_wf sha (s\<lparr>t_devices := x\<rparr>) = audit_wf sha s"
  "insert_device d s = Some s' \<Longrightarrow> audit_wf sha s' = audit_wf sha s"
  "store_devices x s = Some s' \<Longrightarrow> audit_wf sha s' = audit_wf sha s"
  by (auto simp: insert_device_def store_devices_def intro!: audit_wf_same_table split: if_splits)

lemma device_operations_audit_wf:
  assumes "audit_wf sha s"
  shows "audit_wf sha (snd (createDevice sha now newid uuid t e inp actor s))"
    and "audit_wf sha (snd (issueEnrollmentCode sha now newid uuid draw t e slot actor s))"
    and "audit_wf sha (snd (regenerateEnrollmentCode sha now draw t e i actor s))"
    and "audit_wf sha (snd (claimDeviceWithCode sha now claim s))"
    and "audit_wf sha (snd (revokeDevice sha now t e i actor s))"
    and "audit_wf sha (snd (updateDevice parse sha now t e i patch actor s))"
proof -
  have num: "defined (case b of None \<Rightarrow> JNull | Some x \<Rightarrow> JNum x)" for b
    by (cases b) simp_all
  show "audit_wf sha (snd (createDevice sha now newid uuid t e inp actor s))"
    using assms by (auto simp: createDevice_def Let_def split: option.split intro!: record_audit_wf)
  show "audit_wf sha (snd (issueEnrollmentCode sha now newid uuid draw t e slot actor s))"
    using assms by (auto simp: issueEnrollmentCode_def Let_def split: option.split intro!: record_audit_wf)
  show "audit_wf sha (snd (regenerateEnrollmentCode sha now draw t e i actor s))"
    using assms by (auto simp: regenerateEnrollmentCode_def Let_def split: list.split intro!: record_audit_wf)
  show "audit_wf sha (snd (claimDeviceWithCode sha now claim s))"
    using assms by (auto simp: claimDeviceWithCode_def Let_def split: option.split intro!: record_audit_wf)
  show "audit_wf sha (snd (revokeDevice sha now t e i actor s))"
    using assms by (auto simp: revokeDevice_def split: list.split intro!: record_audit_wf)
  show "audit_wf sha (snd (updateDevice parse sha now t e i patch actor s))"
    using assms num
    by (auto simp: updateDevice_def Let_def split: option.split list.split sum.split intro!: record_audit_wf)
qed

section \<open>The device life cycle\<close>

definition device_row_ok :: "device \<Rightarrow> bool" where
  "device_row_ok d \<longleftrightarrow> (case dv_enrollment_state d of
       Pending \<Rightarrow> dv_enrollment_code_hash d \<noteq> None \<and> dv_enrollment_code_expires_at d \<noteq> None
         \<and> dv_enrolled_at d = None \<and> dv_fingerprint_hash d = None
     | Enrolled \<Rightarrow> dv_enrollment_code_hash d = None \<and> dv_enrollment_code_expires_at d = None
         \<and> dv_enrolled_at d \<noteq> None
     | Revoked \<Rightarrow> dv_enrollment_code_hash d = None \<and> dv_enrollment_code_expires_at d = None)"

definition fingerprints_unique :: "device list \<Rightarrow> bool" where
  "fingerprints_unique t \<longleftrightarrow> (\<forall>d \<in> set t. \<forall>e \<in> set t. dv_tenant_id d = dv_tenant_id e \<longrightarrow>
     dv_environment d = dv_environment e \<longrightarrow> dv_fingerprint_hash d \<noteq> None \<longrightarrow>
     dv_fingerprint_hash d = dv_fingerprint_hash e \<longrightarrow> dv_id d = dv_id e)"

definition devices_inv :: "server \<Rightarrow> bool" where
  "devices_inv s \<longleftrightarrow> devices_unique s \<and> (\<forall>d \<in> set (t_devices s). device_row_ok d)
     \<and> fingerprints_unique (t_devices s)"

lemma devices_inv_empty: "devices_inv empty_server"
  by (simp add: devices_inv_def devices_unique_def fingerprints_unique_def empty_server_def)

lemma devices_inv_cong: "t_devices s' = t_devices s \<Longrightarrow> devices_inv s' = devices_inv s"
  by (simp add: devices_inv_def devices_unique_def)

inductive device_step :: "(string \<Rightarrow> string) \<Rightarrow> server \<Rightarrow> server \<Rightarrow> bool" for sha where
  step_create: "device_step sha s (snd (createDevice sha now newid uuid t e inp actor s))"
| step_issue: "device_step sha s (snd (issueEnrollmentCode sha now newid uuid draw t e slot actor s))"
| step_regenerate: "device_step sha s (snd (regenerateEnrollmentCode sha now draw t e i actor s))"
| step_claim: "device_step sha s (snd (claimDeviceWithCode sha now claim s))"
| step_revoke: "device_step sha s (snd (revokeDevice sha now t e i actor s))"
| step_update: "device_step sha s (snd (updateDevice parse sha now t e i patch actor s))"

inductive_cases device_stepE: "device_step sha s s'"

definition rank :: "enrollment_state \<Rightarrow> nat" where
  "rank st = (case st of Pending \<Rightarrow> 0 | Enrolled \<Rightarrow> 1 | Revoked \<Rightarrow> 2)"

text \<open>How one row may evolve.\<close>

definition evolves :: "device \<Rightarrow> device \<Rightarrow> bool" where
  "evolves d d' \<longleftrightarrow> dv_id d' = dv_id d \<and> dv_tenant_id d' = dv_tenant_id d
     \<and> dv_environment d' = dv_environment d
     \<and> rank (dv_enrollment_state d) \<le> rank (dv_enrollment_state d')
     \<and> (dv_fingerprint_hash d \<noteq> None \<longrightarrow> dv_fingerprint_hash d' = dv_fingerprint_hash d)"

lemma same_id_same_row:
  "distinct (map dv_id t) \<Longrightarrow> d \<in> set t \<Longrightarrow> p \<in> set t \<Longrightarrow> dv_id d = dv_id p \<Longrightarrow> d = p"
  by (metis distinct_map inj_onD)

text \<open>The updates the life cycle allows: every touched row evolves and stays well formed, and
  either no fingerprint changes or one row is touched and its new fingerprint is fresh.\<close>

definition sound_update :: "device list \<Rightarrow> (device \<Rightarrow> bool) \<Rightarrow> (device \<Rightarrow> device) \<Rightarrow> bool" where
  "sound_update t P f \<longleftrightarrow>
     (\<forall>d \<in> set t. P d \<longrightarrow> device_row_ok d \<longrightarrow> evolves d (f d) \<and> device_row_ok (f d)) \<and>
     ((\<forall>d. dv_fingerprint_hash (f d) = dv_fingerprint_hash d \<and> dv_tenant_id (f d) = dv_tenant_id d
         \<and> dv_environment (f d) = dv_environment d \<and> dv_id (f d) = dv_id d) \<or>
      (\<exists>p fp. (\<forall>d \<in> set t. P d \<longrightarrow> d = p) \<and> dv_fingerprint_hash (f p) = Some fp
         \<and> \<not> list_ex (same_fingerprint p fp) t \<and> dv_tenant_id (f p) = dv_tenant_id p
         \<and> dv_environment (f p) = dv_environment p \<and> dv_id (f p) = dv_id p))"

lemma sound_set_code: "(\<And>d. P d \<Longrightarrow> dv_enrollment_state d = Pending) \<Longrightarrow> sound_update t P (set_code a)"
  by (auto simp: sound_update_def set_code_def evolves_def device_row_ok_def split: prod.split)

lemma sound_revoke: "sound_update t P (revoke_row now)"
  by (auto simp: sound_update_def revoke_row_def evolves_def device_row_ok_def rank_def
      split: enrollment_state.split)

lemma sound_patch: "sound_update t P (patch_row a)"
  by (auto simp: sound_update_def patch_row_def evolves_def device_row_ok_def
      split: prod.split enrollment_state.split)

lemma sound_bind:
  assumes "distinct (map dv_id t)" "p \<in> set t" "dv_enrollment_state p = Pending"
    and "\<not> list_ex (same_fingerprint p fp) t"
  shows "sound_update t (\<lambda>d. dv_id d = dv_id p) (bind_device (x, fp, kind, now))"
proof -
  have one: "d = p" if "d \<in> set t" "dv_id d = dv_id p" for d
    using same_id_same_row assms(1,2) that by blast
  have "evolves p (bind_device (x, fp, kind, now) p) \<and> device_row_ok (bind_device (x, fp, kind, now) p)"
    if "device_row_ok p"
    using that assms(3) by (simp add: bind_device_def evolves_def device_row_ok_def rank_def)
  moreover have "dv_fingerprint_hash (bind_device (x, fp, kind, now) p) = Some fp"
    "dv_tenant_id (bind_device (x, fp, kind, now) p) = dv_tenant_id p"
    "dv_environment (bind_device (x, fp, kind, now) p) = dv_environment p"
    "dv_id (bind_device (x, fp, kind, now) p) = dv_id p"
    by (simp_all add: bind_device_def)
  ultimately show ?thesis
    unfolding sound_update_def using one assms(4) by blast
qed

lemma sound_update_fingerprints:
  assumes "sound_update t P f" "fingerprints_unique t"
  shows "fingerprints_unique (update_rows P f t)"
proof -
  consider (same) "\<forall>d. dv_fingerprint_hash (f d) = dv_fingerprint_hash d \<and> dv_tenant_id (f d) = dv_tenant_id d
      \<and> dv_environment (f d) = dv_environment d \<and> dv_id (f d) = dv_id d"
    | (one) p fp where "\<forall>d \<in> set t. P d \<longrightarrow> d = p" "dv_fingerprint_hash (f p) = Some fp"
      "\<not> list_ex (same_fingerprint p fp) t" "dv_tenant_id (f p) = dv_tenant_id p"
      "dv_environment (f p) = dv_environment p" "dv_id (f p) = dv_id p"
    using assms(1) unfolding sound_update_def by blast
  then show ?thesis
  proof cases
    case same
    have pre: "\<exists>d0 \<in> set t. dv_fingerprint_hash d = dv_fingerprint_hash d0 \<and> dv_tenant_id d = dv_tenant_id d0
        \<and> dv_environment d = dv_environment d0 \<and> dv_id d = dv_id d0"
      if "d \<in> set (update_rows P f t)" for d
      using that by (cases rule: in_update_rowsE) (use same in metis)+
    show ?thesis
      unfolding fingerprints_unique_def
    proof (intro ballI impI)
      fix d e
      assume "d \<in> set (update_rows P f t)" "e \<in> set (update_rows P f t)"
        and eq: "dv_tenant_id d = dv_tenant_id e" "dv_environment d = dv_environment e"
          "dv_fingerprint_hash d \<noteq> None" "dv_fingerprint_hash d = dv_fingerprint_hash e"
      then obtain d0 e0 where "d0 \<in> set t" "e0 \<in> set t"
        "dv_fingerprint_hash d = dv_fingerprint_hash d0 \<and> dv_tenant_id d = dv_tenant_id d0
          \<and> dv_environment d = dv_environment d0 \<and> dv_id d = dv_id d0"
        "dv_fingerprint_hash e = dv_fingerprint_hash e0 \<and> dv_tenant_id e = dv_tenant_id e0
          \<and> dv_environment e = dv_environment e0 \<and> dv_id e = dv_id e0"
        using pre by metis
      then show "dv_id d = dv_id e" using assms(2) eq unfolding fingerprints_unique_def by metis
    qed
  next
    case one
    show ?thesis
      unfolding fingerprints_unique_def
    proof (intro ballI impI)
      fix d e
      assume d: "d \<in> set (update_rows P f t)" and e: "e \<in> set (update_rows P f t)"
        and eq: "dv_tenant_id d = dv_tenant_id e" "dv_environment d = dv_environment e"
          "dv_fingerprint_hash d \<noteq> None" "dv_fingerprint_hash d = dv_fingerprint_hash e"
      have fresh: "dv_id x = dv_id p"
        if "x \<in> set t" "dv_tenant_id x = dv_tenant_id p" "dv_environment x = dv_environment p"
          "dv_fingerprint_hash x = Some fp" for x
        using that one(3) unfolding list_ex_iff same_fingerprint_def by blast
      have in_t: "x \<in> set t \<or> x = f p" if "x \<in> set (update_rows P f t)" for x
        using that by (cases rule: in_update_rowsE) (use one(1) in blast)+
      from in_t [OF d] in_t [OF e] show "dv_id d = dv_id e"
      proof (elim disjE)
        assume "d \<in> set t" "e \<in> set t"
        then show ?thesis using assms(2) eq unfolding fingerprints_unique_def by blast
      qed (use eq one(2,4-) fresh in simp_all)
    qed
  qed
qed

definition sound_change :: "server \<Rightarrow> server \<Rightarrow> bool" where
  "sound_change s s' \<longleftrightarrow> t_devices s' = t_devices s
     \<or> (\<exists>d. t_devices s' = t_devices s @ [d] \<and> device_row_ok d \<and> dv_fingerprint_hash d = None \<and> devices_unique s')
     \<or> (\<exists>P f. t_devices s' = update_rows P f (t_devices s) \<and> sound_update (t_devices s) P f \<and> devices_unique s')"

lemma devices_unique_cong: "t_devices s' = t_devices s \<Longrightarrow> devices_unique s' = devices_unique s"
  by (simp add: devices_unique_def)

lemma map_upd_key:
  "(\<And>d. device_key (f d) = device_key d) \<Longrightarrow> (\<And>d. dv_id (f d) = dv_id d) \<Longrightarrow>
    (\<And>d. dv_battery_level (f d) = dv_battery_level d) \<Longrightarrow>
    devices_unique s \<Longrightarrow> devices_unique (s\<lparr>t_devices := update_rows P f (t_devices s)\<rparr>)"
  by (auto simp: devices_unique_def map_update_rows list_all_iff set_update_rows battery_ok_def)

lemma store_devices_Some:
  "store_devices t s = Some s' \<Longrightarrow> map dv_id t = map dv_id (t_devices s) \<Longrightarrow> devices_unique s \<Longrightarrow>
    t_devices s' = t \<and> devices_unique s'"
  by (auto simp: store_devices_def devices_unique_def split: if_splits)

lemma insert_sound:
  assumes "insert_device d s = Some s1" "devices_unique s" "device_row_ok d" "dv_fingerprint_hash d = None"
    and "t_devices s' = t_devices s1"
  shows "sound_change s s'"
proof -
  have "t_devices s1 = t_devices s @ [d]" using assms(1) by (auto simp: insert_device_def split: if_splits)
  moreover have "devices_unique s'"
    using insert_device_unique [OF assms(1,2)] devices_unique_cong [OF assms(5)] by simp
  ultimately show ?thesis using assms(3-) by (auto simp: sound_change_def)
qed

lemma update_sound:
  assumes "sound_update (t_devices s) P f" "t_devices s' = update_rows P f (t_devices s)" "devices_unique s'"
  shows "sound_change s s'"
  using assms by (auto simp: sound_change_def)

lemma unchanged_sound: "t_devices s' = t_devices s \<Longrightarrow> sound_change s s'"
  by (simp add: sound_change_def)

lemma create_sound:
  assumes "devices_inv s"
  shows "sound_change s (snd (createDevice sha now newid uuid t e inp actor s))"
proof (cases "insert_device (new_device now newid uuid t e inp) s")
  case (Some s1)
  have "device_row_ok (new_device now newid uuid t e inp)"
    "dv_fingerprint_hash (new_device now newid uuid t e inp) = None"
    by (simp_all add: new_device_def device_row_ok_def)
  then show ?thesis
    using assms Some by (intro insert_sound [OF Some]) (simp_all add: createDevice_def Let_def devices_inv_def)
qed (simp add: createDevice_def Let_def unchanged_sound)

lemma issue_sound:
  assumes "devices_inv s"
  shows "sound_change s (snd (issueEnrollmentCode sha now newid uuid draw t e slot actor s))"
proof (cases "device_type_of (si_device_type slot)")
  case (Some ty)
  note ty = Some
  let ?d = "pending_device sha now newid uuid (generateEnrollmentCode draw) t e slot ty"
  show ?thesis
  proof (cases "insert_device ?d s")
    case (Some s1)
    have "device_row_ok ?d" "dv_fingerprint_hash ?d = None"
      by (simp_all add: pending_device_def device_row_ok_def)
    then show ?thesis
      using assms Some ty
      by (intro insert_sound [OF Some]) (simp_all add: issueEnrollmentCode_def Let_def devices_inv_def)
  qed (simp add: issueEnrollmentCode_def Let_def ty unchanged_sound)
qed (simp add: issueEnrollmentCode_def unchanged_sound)

lemma regenerate_sound:
  assumes "devices_inv s"
  shows "sound_change s (snd (regenerateEnrollmentCode sha now draw t e i actor s))"
proof -
  define P where "P = (\<lambda>d. scoped_device t e i d \<and> dv_enrollment_state d = Pending)"
  define f where "f = set_code (sha (generateEnrollmentCode draw), now + ENROLLMENT_CODE_TTL_MS, now)"
  have "sound_update (t_devices s) P f" unfolding f_def P_def by (rule sound_set_code) simp
  moreover have u: "devices_unique (s\<lparr>t_devices := update_rows P f (t_devices s)\<rparr>)"
    using assms by (intro map_upd_key) (simp_all add: f_def set_code_def device_key_def devices_inv_def)
  ultimately show ?thesis
  proof (cases "returning P f (t_devices s)")
    case Nil
    then have "snd (regenerateEnrollmentCode sha now draw t e i actor s) = s"
      by (simp add: regenerateEnrollmentCode_def Let_def P_def f_def)
    then show ?thesis by (simp add: unchanged_sound)
  next
    case (Cons d ds)
    assume su: "sound_update (t_devices s) P f"
    have "t_devices (snd (regenerateEnrollmentCode sha now draw t e i actor s)) = update_rows P f (t_devices s)"
      using Cons by (simp add: regenerateEnrollmentCode_def Let_def P_def f_def)
    then show ?thesis
      using su u by (intro update_sound) (simp_all add: devices_unique_def)
  qed
qed

lemma revoke_sound:
  assumes "devices_inv s"
  shows "sound_change s (snd (revokeDevice sha now t e i actor s))"
proof -
  let ?P = "scoped_device t e i" and ?f = "revoke_row now"
  have u: "devices_unique (s\<lparr>t_devices := update_rows ?P ?f (t_devices s)\<rparr>)"
    using assms by (intro map_upd_key) (simp_all add: revoke_row_def device_key_def devices_inv_def)
  show ?thesis
  proof (cases "returning ?P ?f (t_devices s)")
    case Nil
    then show ?thesis by (simp add: revokeDevice_def unchanged_sound)
  next
    case (Cons d ds)
    then have "t_devices (snd (revokeDevice sha now t e i actor s)) = update_rows ?P ?f (t_devices s)"
      by (simp add: revokeDevice_def)
    then show ?thesis
      using u by (intro update_sound [OF sound_revoke]) (simp_all add: devices_unique_def)
  qed
qed

lemma claim_sound:
  assumes "devices_inv s"
  shows "sound_change s (snd (claimDeviceWithCode sha now claim s))"
proof (cases "claimDeviceWithCode sha now claim s")
  case (Pair res s')
  define fp where "fp = fingerprintHash sha (ci_fingerprint claim)"
  show ?thesis
  proof (cases res)
    case (Inl er)
    then have "s' = s"
      using Pair by (auto simp: claimDeviceWithCode_def Let_def split: if_splits option.splits)
    then show ?thesis using Pair by (simp add: unchanged_sound)
  next
    case (Inr d)
    define upd where "upd = bind_device (''dev_'' @ take 16 fp, fp, or_else ''none'' (ci_attestation_kind claim), now)"
    obtain p s1 where p: "first_row (claimable (sha (normaliseEnrollmentCode (ci_code claim))) now) (t_devices s) = Some p"
      "\<not> list_ex (same_fingerprint p fp) (t_devices s)"
      and s1: "store_devices (update_rows (\<lambda>d. dv_id d = dv_id p) upd (t_devices s)) s = Some s1"
      and dev: "t_devices s' = t_devices s1"
      using Pair Inr
      by (auto simp: claimDeviceWithCode_def Let_def fp_def upd_def split: if_splits option.splits)
    have "p \<in> set (t_devices s)" "dv_enrollment_state p = Pending"
      using first_row_SomeD [OF p(1)] by (auto simp: claimable_def)
    then have su: "sound_update (t_devices s) (\<lambda>d. dv_id d = dv_id p) upd"
      unfolding upd_def using assms p(2) by (intro sound_bind) (auto simp: devices_inv_def devices_unique_def)
    have u: "t_devices s1 = update_rows (\<lambda>d. dv_id d = dv_id p) upd (t_devices s) \<and> devices_unique s1"
      using assms by (intro store_devices_Some [OF s1])
        (simp_all add: devices_inv_def upd_def bind_update.keys_update)
    show ?thesis
      unfolding Pair snd_conv using su u dev devices_unique_cong by (metis update_sound)
  qed
qed

lemma patch_sound:
  assumes "devices_inv s"
  shows "sound_change s (snd (updateDevice parse sha now t e i patch actor s))"
proof (cases "updateDevice parse sha now t e i patch actor s")
  case (Pair res s')
  show ?thesis
  proof (cases "\<exists>d. res = Inr (Some d)")
    case False
    then have "s' = s"
      using Pair by (auto simp: updateDevice_def Let_def split: if_splits option.splits sum.splits list.splits)
    then show ?thesis using Pair by (simp add: unchanged_sound)
  next
    case True
    then obtain seen s1 where
      s1: "store_devices (update_rows (scoped_device t e i) (patch_row (patch, seen, now)) (t_devices s)) s = Some s1"
      and dev: "t_devices s' = t_devices s1"
      using Pair by (auto simp: updateDevice_def Let_def split: if_splits option.splits sum.splits list.splits)
    have u: "t_devices s1 = update_rows (scoped_device t e i) (patch_row (patch, seen, now)) (t_devices s) \<and> devices_unique s1"
      using assms by (intro store_devices_Some [OF s1])
        (simp_all add: devices_inv_def patch_update.keys_update)
    show ?thesis
      unfolding Pair snd_conv using u dev devices_unique_cong by (metis update_sound sound_patch)
  qed
qed

lemma device_step_sound: "device_step sha s s' \<Longrightarrow> devices_inv s \<Longrightarrow> sound_change s s'"
  by (erule device_stepE)
    (simp_all add: create_sound issue_sound regenerate_sound claim_sound revoke_sound patch_sound)

lemma evolves_refl: "evolves d d"
  by (simp add: evolves_def)

lemma evolves_trans: "evolves d d' \<Longrightarrow> evolves d' d'' \<Longrightarrow> evolves d d''"
  by (auto simp: evolves_def)

lemma sound_change_inv:
  assumes "sound_change s s'" "devices_inv s"
  shows "devices_inv s'"
proof -
  have inv: "devices_unique s" "\<forall>d \<in> set (t_devices s). device_row_ok d" "fingerprints_unique (t_devices s)"
    using assms(2) by (simp_all add: devices_inv_def)
  consider "t_devices s' = t_devices s"
    | (add) d where "t_devices s' = t_devices s @ [d]" "device_row_ok d" "dv_fingerprint_hash d = None" "devices_unique s'"
    | (upd) P f where "t_devices s' = update_rows P f (t_devices s)" "sound_update (t_devices s) P f" "devices_unique s'"
    using assms(1) unfolding sound_change_def by blast
  then show ?thesis
  proof cases
    case 1
    then show ?thesis using assms(2) devices_inv_cong by blast
  next
    case add
    have "fingerprints_unique (t_devices s')"
      unfolding fingerprints_unique_def add(1)
    proof (intro ballI impI)
      fix x y
      assume "x \<in> set (t_devices s @ [d])" "y \<in> set (t_devices s @ [d])"
        and eq: "dv_tenant_id x = dv_tenant_id y" "dv_environment x = dv_environment y"
          "dv_fingerprint_hash x \<noteq> None" "dv_fingerprint_hash x = dv_fingerprint_hash y"
      then have "x \<in> set (t_devices s)" "y \<in> set (t_devices s)" using add(3) by auto
      then show "dv_id x = dv_id y" using inv(3) eq unfolding fingerprints_unique_def by blast
    qed
    then show ?thesis using add inv by (simp add: devices_inv_def)
  next
    case upd
    have "\<forall>d \<in> set (t_devices s'). device_row_ok d"
      unfolding upd(1)
    proof
      fix d assume "d \<in> set (update_rows P f (t_devices s))"
      then show "device_row_ok d"
      proof (cases rule: in_update_rowsE)
        case (changed q)
        then show ?thesis using inv(2) upd(2) unfolding sound_update_def by blast
      qed (use inv(2) in blast)
    qed
    then show ?thesis
      using upd sound_update_fingerprints [OF upd(2) inv(3)] by (simp add: devices_inv_def)
  qed
qed

lemma sound_change_evolves:
  assumes "sound_change s s'" "devices_inv s" "d \<in> set (t_devices s)"
  shows "\<exists>d' \<in> set (t_devices s'). evolves d d'"
proof -
  consider "t_devices s' = t_devices s" | (add) x where "t_devices s' = t_devices s @ [x]"
    | (upd) P f where "t_devices s' = update_rows P f (t_devices s)" "sound_update (t_devices s) P f"
    using assms(1) unfolding sound_change_def by blast
  then show ?thesis
  proof cases
    case upd
    have "evolves d (if P d then f d else d)"
      using upd(2) assms(2,3) by (auto simp: sound_update_def devices_inv_def evolves_refl)
    moreover have "(if P d then f d else d) \<in> set (t_devices s')"
      using assms(3) unfolding upd(1) set_update_rows by (rule imageI)
    ultimately show ?thesis by blast
  qed (use assms(3) evolves_refl in auto)
qed

section \<open>Properties\<close>

text \<open>Property C8.  Over any run of the six device operations the table keeps its invariant
  (unique identifiers and external identifiers, a pending slot has a code and no fingerprint, an
  enrolled or revoked device has no code left, no two devices of a tenant environment share a
  fingerprint), and every device only moves forward from pending to enrolled to revoked,
  stays in its tenant and environment, and never changes a fingerprint once bound.\<close>

theorem device_lifecycle:
  assumes "(device_step sha)\<^sup>*\<^sup>* s s'" and "devices_inv s"
  shows "devices_inv s' \<and> (\<forall>d \<in> set (t_devices s). \<exists>d' \<in> set (t_devices s'). evolves d d')"
  using assms
proof (induction rule: rtranclp_induct)
  case base
  then show ?case using evolves_refl by blast
next
  case (step s1 s2)
  then have inv: "devices_inv s1" and ev: "\<forall>d \<in> set (t_devices s). \<exists>d' \<in> set (t_devices s1). evolves d d'"
    by simp_all
  have ch: "sound_change s1 s2" using device_step_sound step.hyps(2) inv by blast
  show ?case
    using sound_change_inv [OF ch inv] sound_change_evolves [OF ch inv] ev evolves_trans by meson
qed

definition sample_device_input :: device_input where
  "sample_device_input = \<lparr> di_external_id = Some ''d1'', di_name = ''n'', di_device_type = None,
     di_location_id = None, di_battery_level = None, di_metadata = JUndef \<rparr>"

theorem device_lifecycle_witness:
  "devices_inv (snd (revokeDevice rev 9 ''t'' Live ''i'' None
     (snd (createDevice rev 5 ''i'' ''u'' ''t'' Live sample_device_input None empty_server))))"
proof -
  have "(device_step rev)\<^sup>*\<^sup>* empty_server (snd (revokeDevice rev 9 ''t'' Live ''i'' None
     (snd (createDevice rev 5 ''i'' ''u'' ''t'' Live sample_device_input None empty_server))))"
    by (meson rtranclp.rtrancl_into_rtrancl rtranclp.rtrancl_refl step_create step_revoke)
  from device_lifecycle [OF this devices_inv_empty] show ?thesis by blast
qed

lemma first_row_single:
  "x \<in> set t \<Longrightarrow> P x \<Longrightarrow> (\<And>y. y \<in> set t \<Longrightarrow> P y \<Longrightarrow> y = x) \<Longrightarrow> first_row P t = Some x"
  by (metis first_row_SomeD first_row_None_iff option.exhaust)

lemma issue_result:
  assumes "issueEnrollmentCode sha now newid uuid draw t e slot actor s = (Inr (d, code, expiresAt), s1)"
  obtains ty where "d = pending_device sha now newid uuid code t e slot ty"
    and "code = generateEnrollmentCode draw" and "expiresAt = now + ENROLLMENT_CODE_TTL_MS"
    and "t_devices s1 = t_devices s @ [d]" and "\<not> list_ex (device_conflict d) (t_devices s)"
proof -
  obtain ty where ty: "device_type_of (si_device_type slot) = Some ty"
    using assms by (cases "device_type_of (si_device_type slot)") (simp_all add: issueEnrollmentCode_def)
  let ?d = "pending_device sha now newid uuid (generateEnrollmentCode draw) t e slot ty"
  obtain s0 where s0: "insert_device ?d s = Some s0"
    using assms ty by (cases "insert_device ?d s") (simp_all add: issueEnrollmentCode_def Let_def)
  then have "t_devices s0 = t_devices s @ [?d]" "\<not> list_ex (device_conflict ?d) (t_devices s)"
    using insert_device_Some [of ?d s s0] by simp_all
  note t = this
  have "fst (issueEnrollmentCode sha now newid uuid draw t e slot actor s)
      = Inr (?d, generateEnrollmentCode draw, now + ENROLLMENT_CODE_TTL_MS)"
    "t_devices (snd (issueEnrollmentCode sha now newid uuid draw t e slot actor s)) = t_devices s0"
    by (simp_all add: issueEnrollmentCode_def Let_def ty s0)
  then have eq: "d = ?d" "code = generateEnrollmentCode draw" "expiresAt = now + ENROLLMENT_CODE_TTL_MS"
    "t_devices s1 = t_devices s0"
    by (simp_all only: assms fst_conv snd_conv sum.inject prod.inject)
  show ?thesis
    by (rule that [of ty]) (simp_all only: eq t not_False_eq_True)
qed

lemma claim_success:
  assumes "isValidFingerprint (ci_fingerprint claim)"
    and "first_row (claimable (sha (normaliseEnrollmentCode (ci_code claim))) now) (t_devices s) = Some p"
    and "\<not> list_ex (same_fingerprint p (sha (ci_fingerprint claim))) (t_devices s)"
    and "store_devices (update_rows (\<lambda>d. dv_id d = dv_id p)
          (bind_device (''dev_'' @ take 16 (sha (ci_fingerprint claim)), sha (ci_fingerprint claim),
             or_else ''none'' (ci_attestation_kind claim), now)) (t_devices s)) s = Some s1"
  shows "\<exists>s2. claimDeviceWithCode sha now claim s =
      (Inr (bind_device (''dev_'' @ take 16 (sha (ci_fingerprint claim)), sha (ci_fingerprint claim),
             or_else ''none'' (ci_attestation_kind claim), now) p), s2) \<and> t_devices s2 = t_devices s1"
  unfolding claimDeviceWithCode_def Let_def fingerprintHash_def using assms by simp

text \<open>Property C16.  A one-time code enrolls the slot it was issued for, once and in time.  If the
  hash of the code is not already in the table, the fingerprint is new in the tenant
  environment and the derived external identifier is free, then the claim with any
  typed variant of the code before the expiry enrolls exactly the issued slot and binds the
  fingerprint; a second claim with the code, and any claim at or after the expiry, is refused
  as not found or expired.\<close>

theorem issued_code_enrolls_once:
  assumes inv: "devices_inv s" and draw: "valid_draw draw"
    and issue: "issueEnrollmentCode sha now newid uuid draw t e slot actor s = (Inr (d, code, expiresAt), s1)"
    and hash: "\<forall>x \<in> set (t_devices s). dv_enrollment_code_hash x \<noteq> Some (sha code)"
    and typed: "strip_code (ci_code claim) = strip_code code"
    and fp: "isValidFingerprint (ci_fingerprint claim)"
    and fresh: "\<forall>x \<in> set (t_devices s). dv_fingerprint_hash x \<noteq> Some (sha (ci_fingerprint claim)) \<and>
        dv_external_id x \<noteq> ''dev_'' @ take 16 (sha (ci_fingerprint claim))"
    and early: "now' < expiresAt" and late: "expiresAt \<le> now''"
  shows "\<exists>d' s2. claimDeviceWithCode sha now' claim s1 = (Inr d', s2) \<and> dv_id d' = dv_id d \<and>
      dv_enrollment_state d' = Enrolled \<and> dv_fingerprint_hash d' = Some (sha (ci_fingerprint claim)) \<and>
      t_devices s2 = t_devices s @ [d'] \<and>
      claimDeviceWithCode sha later claim s2 = (Inl CodeNotFoundOrExpired, s2) \<and>
      claimDeviceWithCode sha now'' claim s1 = (Inl CodeNotFoundOrExpired, s1)"
proof -
  obtain ty where d: "d = pending_device sha now newid uuid code t e slot ty"
    and code: "code = generateEnrollmentCode draw" and ex: "expiresAt = now + ENROLLMENT_CODE_TTL_MS"
    and t1: "t_devices s1 = t_devices s @ [d]" and nc: "\<not> list_ex (device_conflict d) (t_devices s)"
    using issue_result [OF issue] by blast
  have h: "sha (normaliseEnrollmentCode (ci_code claim)) = sha code"
    unfolding code by (rule codes.typed_found [OF draw]) (use typed code in simp)
  have f: "dv_enrollment_code_hash d = Some (sha code)" "dv_enrollment_state d = Pending"
    "dv_enrollment_code_expires_at d = Some expiresAt" "dv_battery_level d = None"
    "dv_fingerprint_hash d = None" "dv_tenant_id d = t"
    by (simp_all add: d pending_device_def ex)
  have idn: "\<forall>x \<in> set (t_devices s). dv_id x \<noteq> dv_id d"
    using nc by (auto simp: list_ex_iff device_conflict_def)
  have "\<not> claimable (sha code) now' x" if "x \<in> set (t_devices s)" for x
    using that hash by (simp add: claimable_def)
  then have found: "first_row (claimable (sha code) now') (t_devices s1) = Some d"
    unfolding t1 by (intro first_row_single) (use f early in \<open>auto simp: claimable_def\<close>)
  have gone: "first_row (claimable (sha code) n) (t_devices s @ [x]) = None"
    if "\<not> claimable (sha code) n x" for n x
    using that hash by (auto simp: first_row_None_iff claimable_def)
  define upd where "upd = bind_device (''dev_'' @ take 16 (sha (ci_fingerprint claim)),
     sha (ci_fingerprint claim), or_else ''none'' (ci_attestation_kind claim), now')"
  have keep: "update_rows (\<lambda>x. dv_id x = dv_id d) upd (t_devices s) = t_devices s"
    by (rule update_rows_none) (use idn in auto)
  then have upd_all: "update_rows (\<lambda>x. dv_id x = dv_id d) upd (t_devices s1) = t_devices s @ [upd d]"
    by (simp add: t1)
  have "device_key (upd d) \<notin> device_key ` set (t_devices s)"
    using fresh by (auto simp: device_key_def upd_def bind_device_def)
  then have ok: "distinct (map device_key (t_devices s @ [upd d])) \<and> list_all battery_ok (t_devices s @ [upd d])"
    using inv f(4) by (auto simp: devices_inv_def devices_unique_def battery_ok_def upd_def bind_device_def)
  have nofp: "\<not> list_ex (same_fingerprint d (sha (ci_fingerprint claim))) (t_devices s1)"
    using fresh f(5) by (auto simp: t1 list_ex_iff same_fingerprint_def)
  have store: "store_devices (update_rows (\<lambda>x. dv_id x = dv_id d) upd (t_devices s1)) s1
      = Some (s1\<lparr>t_devices := t_devices s @ [upd d]\<rparr>)"
    unfolding upd_all store_devices_def using ok by simp
  obtain s2 where run: "claimDeviceWithCode sha now' claim s1 = (Inr (upd d), s2)"
    and t2: "t_devices s2 = t_devices s @ [upd d]"
    using claim_success [OF fp found [folded h] nofp store [unfolded upd_def]]
    unfolding upd_def [symmetric] by auto
  have "claimDeviceWithCode sha later claim s2 = (Inl CodeNotFoundOrExpired, s2)"
    using gone [of later "upd d"] fp t2
    by (simp add: claimDeviceWithCode_def Let_def h upd_def bind_device_def claimable_def)
  moreover have "claimDeviceWithCode sha now'' claim s1 = (Inl CodeNotFoundOrExpired, s1)"
    using gone [of now'' d] fp t1 f late by (simp add: claimDeviceWithCode_def Let_def h claimable_def)
  moreover have "dv_id (upd d) = dv_id d" "dv_enrollment_state (upd d) = Enrolled"
    "dv_fingerprint_hash (upd d) = Some (sha (ci_fingerprint claim))"
    by (simp_all add: upd_def bind_device_def)
  ultimately show ?thesis using run t2 by blast
qed

definition sample_slot :: slot_input where
  "sample_slot = \<lparr> si_name = ''phone'', si_device_type = ''kiosk'', si_location_id = None, si_metadata = JUndef \<rparr>"

definition sample_claim :: "string \<Rightarrow> claim_input" where
  "sample_claim code = \<lparr> ci_code = code, ci_fingerprint = ''0123456789abcdef'',
     ci_attestation_kind = None, ci_ip = None, ci_user_agent = None \<rparr>"

definition sample_issue :: "server \<Rightarrow> (platform_error + invite) \<times> server" where
  "sample_issue s = issueEnrollmentCode rev 0 ''i'' ''u'' (\<lambda>_. 0) ''t'' Live sample_slot None s"

lemma sample_issue_empty: "\<exists>d code ex s1. sample_issue empty_server = (Inr (d, code, ex), s1) \<and>
    ex = 900000 \<and> code = generateEnrollmentCode (\<lambda>_. 0) \<and> t_devices s1 = [d] \<and> dv_id d = ''i''"
  by (simp add: sample_issue_def issueEnrollmentCode_def sample_slot_def device_type_of_def DEVICE_TYPES_def
      Let_def insert_device_def empty_server_def battery_ok_def pending_device_def ENROLLMENT_CODE_TTL_MS_def)

lemma sample_fingerprint: "isValidFingerprint (ci_fingerprint (sample_claim code))"
  by (simp add: isValidFingerprint_def sample_claim_def trim_def is_space_def)

theorem issued_code_enrolls_once_witness:
  "\<exists>d s1 s2. claimDeviceWithCode rev 899999 (sample_claim (generateEnrollmentCode (\<lambda>_. 0))) s1 = (Inr d, s2) \<and>
     dv_id d = ''i'' \<and> fst (sample_issue empty_server) \<noteq> Inl InvalidDeviceType"
proof -
  obtain d code ex s1 where i: "sample_issue empty_server = (Inr (d, code, ex), s1)" "ex = 900000"
    "code = generateEnrollmentCode (\<lambda>_. 0)" "t_devices s1 = [d]" "dv_id d = ''i''"
    using sample_issue_empty by blast
  have v: "valid_draw (\<lambda>_. 0)" by (simp add: valid_draw_def CODE_ALPHABET_def)
  have c: "strip_code (ci_code (sample_claim code)) = strip_code code" by (simp add: sample_claim_def)
  have n: "t_devices empty_server = []" by (simp add: empty_server_def)
  have "\<exists>d' s2. claimDeviceWithCode rev 899999 (sample_claim code) s1 = (Inr d', s2) \<and> dv_id d' = dv_id d"
    using issued_code_enrolls_once [OF devices_inv_empty v i(1) [unfolded sample_issue_def] _ c
        sample_fingerprint, of 899999 ex 0] i(2) by (auto simp: n)
  then show ?thesis using i by auto
qed

text \<open>A fingerprint is not released by revocation: after a device was revoked, a
  claim that presents its fingerprint on a new pending slot of the same tenant environment is
  refused as a collision and changes nothing.\<close>

theorem revoked_fingerprint_stays_bound:
  assumes "devices_inv s" and "revokeDevice sha now t e i actor s = (Some r, s1)"
    and "dv_fingerprint_hash r = Some (sha (ci_fingerprint claim))"
    and "isValidFingerprint (ci_fingerprint claim)"
    and "first_row (claimable (sha (normaliseEnrollmentCode (ci_code claim))) now') (t_devices s1) = Some p"
    and "dv_tenant_id p = t" and "dv_environment p = e"
  shows "claimDeviceWithCode sha now' claim s1 = (Inl FingerprintCollision, s1)"
proof -
  have inv1: "devices_inv s1"
    using sound_change_inv [OF revoke_sound assms(1)] assms(1,2) by (metis snd_conv)
  obtain rs where rs: "returning (scoped_device t e i) (revoke_row now) (t_devices s) = r # rs"
    using assms(2) by (cases "returning (scoped_device t e i) (revoke_row now) (t_devices s)")
      (simp_all add: revokeDevice_def)
  then have "t_devices s1 = update_rows (scoped_device t e i) (revoke_row now) (t_devices s)"
    using assms(2) by (auto simp: revokeDevice_def)
  moreover have "r \<in> set (returning (scoped_device t e i) (revoke_row now) (t_devices s))" using rs by simp
  ultimately have r: "r \<in> set (t_devices s1)" "dv_tenant_id r = t" "dv_environment r = e"
    "dv_enrollment_state r = Revoked"
    by (auto simp: returning_def set_update_rows scoped_device_def revoke_row_def)
  have p: "p \<in> set (t_devices s1)" "dv_enrollment_state p = Pending"
    using first_row_SomeD [OF assms(5)] by (auto simp: claimable_def)
  then have "dv_id r \<noteq> dv_id p"
    using same_id_same_row [of "t_devices s1" r p] r inv1 by (auto simp: devices_inv_def devices_unique_def)
  then have "list_ex (same_fingerprint p (sha (ci_fingerprint claim))) (t_devices s1)"
    using r assms(3,6,7) by (auto simp: list_ex_iff same_fingerprint_def)
  then show ?thesis
    using assms(4,5) by (simp add: claimDeviceWithCode_def Let_def fingerprintHash_def)
qed

definition two_devices_pending :: device where
  "two_devices_pending = pending_device rev 0 ''j'' ''w'' (generateEnrollmentCode (\<lambda>_. 0)) ''t'' Live sample_slot Kiosk"

definition two_devices :: server where
  "two_devices = empty_server\<lparr>t_devices :=
     [(new_device 0 ''i'' ''u'' ''t'' Live sample_device_input)\<lparr>dv_fingerprint_hash := Some (rev ''0123456789abcdef'')\<rparr>,
      pending_device rev 0 ''j'' ''w'' (generateEnrollmentCode (\<lambda>_. 0)) ''t'' Live sample_slot Kiosk]\<rparr>"

lemma two_devices_inv: "devices_inv two_devices"
  by (simp add: devices_inv_def devices_unique_def two_devices_def fingerprints_unique_def device_row_ok_def
      new_device_def pending_device_def device_key_def battery_ok_def sample_device_input_def
      defaultExternalId_def trim_or_null_def trim_def is_space_def)

theorem revoked_fingerprint_stays_bound_witness:
  "\<exists>s1. claimDeviceWithCode rev 5 (sample_claim (generateEnrollmentCode (\<lambda>_. 0))) s1 = (Inl FingerprintCollision, s1)"
proof -
  obtain r s1 where rv: "revokeDevice rev 1 ''t'' Live ''i'' None two_devices = (Some r, s1)"
    and r: "dv_fingerprint_hash r = Some (rev ''0123456789abcdef'')"
    and t1: "t_devices s1 = update_rows (scoped_device ''t'' Live ''i'') (revoke_row 1) (t_devices two_devices)"
    by (simp add: revokeDevice_def two_devices_def scoped_device_def new_device_def pending_device_def revoke_row_def)
  have v: "valid_draw (\<lambda>_. 0)" by (simp add: valid_draw_def CODE_ALPHABET_def)
  have "normaliseEnrollmentCode (ci_code (sample_claim (generateEnrollmentCode (\<lambda>_. 0)))) = generateEnrollmentCode (\<lambda>_. 0)"
    unfolding sample_claim_def using normalise_generated [OF v] by simp
  then obtain p where "first_row (claimable (rev (normaliseEnrollmentCode (ci_code (sample_claim
      (generateEnrollmentCode (\<lambda>_. 0)))))) 5) (t_devices s1) = Some p" "dv_tenant_id p = ''t''" "dv_environment p = Live"
    unfolding t1 by (simp add: two_devices_def scoped_device_def new_device_def pending_device_def revoke_row_def
        claimable_def ENROLLMENT_CODE_TTL_MS_def)
  then show ?thesis
    using revoked_fingerprint_stays_bound [OF two_devices_inv rv _ sample_fingerprint] r
    by (metis sample_claim_def claim_input.select_convs(2))
qed

end
