(* ===== verification/Platform.thy ===== *)
theory Platform
  imports Devices
begin

text \<open>
  The rest of \<open>src/services/platform.ts\<close>: tenant users, verification events,
  attendance events, the audit listing and the console overview; the step relation of the nine
  operations of that file a tenant's key or console session can write through, tenant isolation,
  and the completeness of the audit trail.
\<close>

section \<open>Tenant users\<close>

definition scoped_user :: "uuid \<Rightarrow> environment \<Rightarrow> uuid \<Rightarrow> tenant_user \<Rightarrow> bool" where
  "scoped_user t e i u \<longleftrightarrow> us_id u = i \<and> us_tenant_id u = t \<and> us_environment u = e"

definition findTenantUser :: "uuid \<Rightarrow> environment \<Rightarrow> uuid \<Rightarrow> server \<Rightarrow> tenant_user option" where
  "findTenantUser t e i s = first_row (scoped_user t e i) (t_users s)"

definition findVerification :: "uuid \<Rightarrow> environment \<Rightarrow> uuid \<Rightarrow> server \<Rightarrow> verification option" where
  "findVerification t e i s =
     first_row (\<lambda>v. ve_id v = i \<and> ve_tenant_id v = t \<and> ve_environment v = e) (t_verifications s)"

text \<open>A reference the caller may leave out (\<open>if (input.x) ..\<close>): absent or empty is no
  reference, otherwise the row must exist in the tenant environment.\<close>

definition resolve :: "(uuid \<Rightarrow> 'r option) \<Rightarrow> platform_error \<Rightarrow> uuid option \<Rightarrow> platform_error + 'r option" where
  "resolve look missing ref = (case ref of None \<Rightarrow> Inr None
     | Some i \<Rightarrow> if i = [] then Inr None
                 else (case look i of None \<Rightarrow> Inl missing | Some r \<Rightarrow> Inr (Some r)))"

record user_input =
  ui_external_id :: "string option"
  ui_full_name :: string
  ui_email :: "string option"
  ui_phone :: "string option"
  ui_employee_code :: "string option"
  ui_primary_device :: "uuid option"
  ui_metadata :: json

definition new_user ::
  "time_ms \<Rightarrow> uuid \<Rightarrow> uuid \<Rightarrow> uuid \<Rightarrow> environment \<Rightarrow> user_input \<Rightarrow> uuid option \<Rightarrow> tenant_user" where
  "new_user now newid uuid t e inp primary =
     \<lparr> us_id = newid, us_tenant_id = t, us_environment = e,
       us_external_id = defaultExternalId ''user'' (ui_external_id inp) uuid,
       us_full_name = trim (ui_full_name inp),
       us_email = map_option lower (trim_or_null (ui_email inp)),
       us_phone = trim_or_null (ui_phone inp), us_employee_code = trim_or_null (ui_employee_code inp),
       us_status = UserActive, us_primary_device_id = primary, us_did = None, us_commitment = None,
       us_metadata = stored (sanitizeMetadata (ui_metadata inp)), us_last_verified_at = None,
       us_created_at = now, us_updated_at = now \<rparr>"

definition createTenantUser ::
  "(string \<Rightarrow> string) \<Rightarrow> time_ms \<Rightarrow> uuid \<Rightarrow> uuid \<Rightarrow> uuid \<Rightarrow> environment \<Rightarrow> user_input
     \<Rightarrow> audit_actor option \<Rightarrow> server \<Rightarrow> (platform_error + tenant_user) \<times> server" where
  "createTenantUser sha now newid uuid t e inp actor s =
     (case resolve (\<lambda>i. findDevice t e i s) DeviceMissing (ui_primary_device inp) of
        Inl er \<Rightarrow> (Inl er, s)
      | Inr dev \<Rightarrow>
         (let u = new_user now newid uuid t e inp (map_option dv_id dev) in
          case insert_user u s of
            None \<Rightarrow> (Inl ConstraintViolation, s)
          | Some s' \<Rightarrow> (Inr u, recordAuditEvent sha now t
              (actor_input actor ActorApiKey e ''user.created'' ''user'' newid AuditSuccess
                 (''Enrolled user '' @ us_external_id u)
                 ([(''fullName'', JStr (us_full_name u)),
                   (''primaryDeviceId'', opt_str (us_primary_device_id u))] @ actorMetadata actor)) s')))"

definition user_status_str :: "tenant_user_status \<Rightarrow> string" where
  "user_status_str x = (case x of UserActive \<Rightarrow> ''active'' | UserInactive \<Rightarrow> ''inactive'')"

record user_patch =
  up_full_name :: "string option"
  up_email :: "string option"
  up_phone :: "string option"
  up_employee_code :: "string option"
  up_status :: "tenant_user_status option"
  up_primary_device :: "uuid option"
  up_metadata :: json

definition patch_user :: "user_patch \<times> uuid option \<times> time_ms \<Rightarrow> tenant_user \<Rightarrow> tenant_user" where
  "patch_user a u = (case a of (inp, primary, now) \<Rightarrow>
     u\<lparr>us_full_name := or_else (us_full_name u) (trim_or_null (up_full_name inp)),
       us_email := first_some (map_option lower (trim_or_null (up_email inp))) (us_email u),
       us_phone := first_some (trim_or_null (up_phone inp)) (us_phone u),
       us_employee_code := first_some (trim_or_null (up_employee_code inp)) (us_employee_code u),
       us_status := or_else (us_status u) (up_status inp),
       us_primary_device_id := first_some primary (us_primary_device_id u),
       us_metadata := (if truthy (up_metadata inp)
                       then stored (sanitizeMetadata (up_metadata inp)) else us_metadata u),
       us_updated_at := now\<rparr>)"

definition updateTenantUser ::
  "(string \<Rightarrow> string) \<Rightarrow> time_ms \<Rightarrow> uuid \<Rightarrow> environment \<Rightarrow> uuid \<Rightarrow> user_patch
     \<Rightarrow> audit_actor option \<Rightarrow> server \<Rightarrow> (platform_error + tenant_user option) \<times> server" where
  "updateTenantUser sha now t e i inp actor s =
     (case resolve (\<lambda>i. findDevice t e i s) DeviceMissing (up_primary_device inp) of
        Inl er \<Rightarrow> (Inl er, s)
      | Inr dev \<Rightarrow>
         (let P = scoped_user t e i; upd = patch_user (inp, map_option dv_id dev, now)
          in case returning P upd (t_users s) of
               [] \<Rightarrow> (Inr None, s)
             | u # _ \<Rightarrow> (Inr (Some u), recordAuditEvent sha now t
                 (actor_input actor ActorApiKey e ''user.updated'' ''user'' (us_id u) AuditSuccess
                    (''Updated user '' @ us_external_id u)
                    ([(''status'', JStr (user_status_str (us_status u))),
                      (''primaryDeviceId'', opt_str (us_primary_device_id u))] @ actorMetadata actor))
                 (s\<lparr>t_users := update_rows P upd (t_users s)\<rparr>))))"

definition listTenantUsers ::
  "uuid \<Rightarrow> environment \<Rightarrow> tenant_user_status option \<Rightarrow> int option \<Rightarrow> server \<Rightarrow> tenant_user list" where
  "listTenantUsers t e status limit s = newest us_created_at (sanitizeLimit limit 50)
     (select_rows (\<lambda>u. us_tenant_id u = t \<and> us_environment u = e \<and> opt_matches status (us_status u)) (t_users s))"

section \<open>Verification events\<close>

definition method_str :: "verification_method \<Rightarrow> string" where
  "method_str m = (case m of MZkp \<Rightarrow> ''zkp'' | MFingerprint \<Rightarrow> ''fingerprint'' | MFace \<Rightarrow> ''face''
     | MDepth \<Rightarrow> ''depth'' | MSaml \<Rightarrow> ''saml'' | MOidc \<Rightarrow> ''oidc'' | MManual \<Rightarrow> ''manual'')"

definition result_str :: "verification_result \<Rightarrow> string" where
  "result_str r = (case r of Pass \<Rightarrow> ''pass'' | Fail \<Rightarrow> ''fail'' | Challenge \<Rightarrow> ''challenge'')"

record verification_input =
  vi_user_id :: "uuid option"
  vi_device_id :: "uuid option"
  vi_method :: verification_method
  vi_result :: verification_result
  vi_reason :: "string option"
  vi_confidence :: "int option"
  vi_reference_id :: "string option"
  vi_metadata :: json
  vi_occurred_at :: "string option"

definition touch_device :: "time_ms \<times> time_ms \<Rightarrow> device \<Rightarrow> device" where
  "touch_device a d = d\<lparr>dv_last_seen_at := Some (fst a), dv_updated_at := snd a\<rparr>"

definition touch_user :: "time_ms \<times> time_ms \<Rightarrow> tenant_user \<Rightarrow> tenant_user" where
  "touch_user a u = u\<lparr>us_last_verified_at := Some (fst a), us_updated_at := snd a\<rparr>"

definition touch_seen :: "uuid \<Rightarrow> uuid option \<Rightarrow> time_ms \<Rightarrow> time_ms \<Rightarrow> server \<Rightarrow> server" where
  "touch_seen t dev at now s = (case dev of None \<Rightarrow> s
     | Some i \<Rightarrow> s\<lparr>t_devices := update_rows (\<lambda>d. dv_id d = i \<and> dv_tenant_id d = t)
                     (touch_device (at, now)) (t_devices s)\<rparr>)"

definition touch_verified :: "uuid \<Rightarrow> uuid option \<Rightarrow> time_ms \<Rightarrow> time_ms \<Rightarrow> server \<Rightarrow> server" where
  "touch_verified t user at now s = (case user of None \<Rightarrow> s
     | Some i \<Rightarrow> s\<lparr>t_users := update_rows (\<lambda>u. us_id u = i \<and> us_tenant_id u = t)
                     (touch_user (at, now)) (t_users s)\<rparr>)"

definition new_verification ::
  "time_ms \<Rightarrow> uuid \<Rightarrow> uuid \<Rightarrow> environment \<Rightarrow> uuid \<Rightarrow> verification_input \<Rightarrow> uuid option \<Rightarrow> uuid option
     \<Rightarrow> time_ms \<Rightarrow> verification" where
  "new_verification now newid t e key inp user dev at =
     \<lparr> ve_id = newid, ve_tenant_id = t, ve_environment = e, ve_user_id = user, ve_device_id = dev,
       ve_api_key_id = Some key, ve_method = vi_method inp, ve_result = vi_result inp,
       ve_reason = trim_or_null (vi_reason inp), ve_confidence_score = vi_confidence inp,
       ve_reference_id = trim_or_null (vi_reference_id inp),
       ve_metadata = stored (sanitizeMetadata (vi_metadata inp)), ve_occurred_at = at,
       ve_created_at = now \<rparr>"

definition key_input ::
  "uuid \<Rightarrow> environment \<Rightarrow> string \<Rightarrow> string \<Rightarrow> uuid \<Rightarrow> audit_status \<Rightarrow> string \<Rightarrow> (string \<times> json) list
     \<Rightarrow> audit_input" where
  "key_input key e action entity i status summary members =
     \<lparr> ai_environment = Some e, ai_actor_type = ActorApiKey, ai_actor_id = Some key,
       ai_action = action, ai_entity_type = entity, ai_entity_id = Some i, ai_status = status,
       ai_summary = summary, ai_metadata = JObj members \<rparr>"

definition createVerificationEvent ::
  "(string \<Rightarrow> time_ms option) \<Rightarrow> (string \<Rightarrow> string) \<Rightarrow> time_ms \<Rightarrow> uuid \<Rightarrow> uuid \<Rightarrow> environment \<Rightarrow> uuid
     \<Rightarrow> verification_input \<Rightarrow> server \<Rightarrow> (platform_error + verification) \<times> server" where
  "createVerificationEvent parse sha now newid t e key inp s =
     (case parseTimestamp parse now (vi_occurred_at inp) of
        Inl er \<Rightarrow> (Inl er, s)
      | Inr at \<Rightarrow>
     (case resolve (\<lambda>i. findTenantUser t e i s) UserMissing (vi_user_id inp) of
        Inl er \<Rightarrow> (Inl er, s)
      | Inr user \<Rightarrow>
     (case resolve (\<lambda>i. findDevice t e i s) DeviceMissing (vi_device_id inp) of
        Inl er \<Rightarrow> (Inl er, s)
      | Inr dev \<Rightarrow>
         (let userId = map_option us_id user; deviceId = map_option dv_id dev;
              v = new_verification now newid t e key inp userId deviceId at;
              s1 = s\<lparr>t_verifications := t_verifications s @ [v]\<rparr>;
              s2 = touch_seen t deviceId at now s1;
              s3 = (if vi_result inp = Pass then touch_verified t userId at now s2 else s2)
          in (Inr v, recordAuditEvent sha now t
               (key_input key e ''verification.recorded'' ''verification'' newid
                  (if ve_result v = Fail then AuditFailure else AuditSuccess)
                  (method_str (ve_method v) @ '' verification '' @ result_str (ve_result v))
                  [(''userId'', opt_str (ve_user_id v)), (''deviceId'', opt_str (ve_device_id v)),
                   (''referenceId'', opt_str (ve_reference_id v))]) s3)))))"

definition listVerificationEvents ::
  "uuid \<Rightarrow> environment \<Rightarrow> verification_method option \<Rightarrow> verification_result option \<Rightarrow> int option
     \<Rightarrow> server \<Rightarrow> verification list" where
  "listVerificationEvents t e method result limit s = newest ve_occurred_at (sanitizeLimit limit 50)
     (select_rows (\<lambda>v. ve_tenant_id v = t \<and> ve_environment v = e \<and> opt_matches method (ve_method v)
        \<and> opt_matches result (ve_result v)) (t_verifications s))"

section \<open>Attendance events\<close>

definition attendance_type_str :: "attendance_type \<Rightarrow> string" where
  "attendance_type_str x = (case x of CheckIn \<Rightarrow> ''check_in'' | CheckOut \<Rightarrow> ''check_out'')"

definition attendance_result_str :: "attendance_result \<Rightarrow> string" where
  "attendance_result_str x = (case x of Accepted \<Rightarrow> ''accepted'' | Rejected \<Rightarrow> ''rejected'')"

record attendance_input =
  ti_user_id :: uuid
  ti_device_id :: "uuid option"
  ti_verification_id :: "uuid option"
  ti_type :: attendance_type
  ti_result :: "attendance_result option"
  ti_metadata :: json
  ti_occurred_at :: "string option"

definition derived_result :: "attendance_result option \<Rightarrow> verification option \<Rightarrow> attendance_result" where
  "derived_result want v = (case want of Some r \<Rightarrow> r
     | None \<Rightarrow> (case v of None \<Rightarrow> Accepted
                | Some x \<Rightarrow> if ve_result x = Pass then Accepted else Rejected))"

definition createAttendanceEvent ::
  "(string \<Rightarrow> time_ms option) \<Rightarrow> (string \<Rightarrow> string) \<Rightarrow> time_ms \<Rightarrow> uuid \<Rightarrow> uuid \<Rightarrow> environment \<Rightarrow> uuid
     \<Rightarrow> attendance_input \<Rightarrow> server \<Rightarrow> (platform_error + attendance) \<times> server" where
  "createAttendanceEvent parse sha now newid t e key inp s =
     (case parseTimestamp parse now (ti_occurred_at inp) of
        Inl er \<Rightarrow> (Inl er, s)
      | Inr at \<Rightarrow>
     (case findTenantUser t e (ti_user_id inp) s of
        None \<Rightarrow> (Inl UserMissing, s)
      | Some user \<Rightarrow>
     (case resolve (\<lambda>i. findDevice t e i s) DeviceMissing (ti_device_id inp) of
        Inl er \<Rightarrow> (Inl er, s)
      | Inr dev \<Rightarrow>
     (case resolve (\<lambda>i. findVerification t e i s) VerificationMissing (ti_verification_id inp) of
        Inl er \<Rightarrow> (Inl er, s)
      | Inr ver \<Rightarrow>
         (let a = \<lparr> at_id = newid, at_tenant_id = t, at_environment = e, at_user_id = us_id user,
                    at_device_id = map_option dv_id dev, at_verification_id = map_option ve_id ver,
                    at_event_type = ti_type inp, at_result = derived_result (ti_result inp) ver,
                    at_metadata = stored (sanitizeMetadata (ti_metadata inp)),
                    at_occurred_at = at, at_created_at = now \<rparr>
          in (Inr a, recordAuditEvent sha now t
               (key_input key e ''attendance.recorded'' ''attendance'' newid
                  (if at_result a = Rejected then AuditFailure else AuditSuccess)
                  (attendance_type_str (at_event_type a) @ '' '' @ attendance_result_str (at_result a))
                  [(''userId'', JStr (at_user_id a)), (''deviceId'', opt_str (at_device_id a)),
                   (''verificationId'', opt_str (at_verification_id a))])
               (s\<lparr>t_attendance := t_attendance s @ [a]\<rparr>)))))))"

definition listAttendanceEvents ::
  "uuid \<Rightarrow> environment \<Rightarrow> attendance_type option \<Rightarrow> attendance_result option \<Rightarrow> int option
     \<Rightarrow> server \<Rightarrow> attendance list" where
  "listAttendanceEvents t e ty result limit s = newest at_occurred_at (sanitizeLimit limit 50)
     (select_rows (\<lambda>a. at_tenant_id a = t \<and> at_environment a = e \<and> opt_matches ty (at_event_type a)
        \<and> opt_matches result (at_result a)) (t_attendance s))"

definition present :: "string option \<Rightarrow> string option" where
  "present x = (if x = Some '''' then None else x)"

definition listAuditEvents ::
  "uuid \<Rightarrow> environment \<Rightarrow> string option \<Rightarrow> audit_status option \<Rightarrow> int option \<Rightarrow> server \<Rightarrow> audit_event list" where
  "listAuditEvents t e action status limit s = newest au_created_at (sanitizeLimit limit 50)
     (select_rows (\<lambda>r. au_tenant_id r = t \<and> au_environment r = Some e \<and> opt_matches (present action) (au_action r)
        \<and> opt_matches status (au_status r)) (t_audit s))"

section \<open>Overview\<close>

record overview =
  ov_devices :: nat
  ov_users :: nat
  ov_verifications :: nat
  ov_attendance :: nat
  ov_audit :: nat
  ov_recent_devices :: "device list"
  ov_recent_users :: "tenant_user list"
  ov_recent_verifications :: "verification list"
  ov_recent_attendance :: "attendance list"
  ov_recent_audit :: "audit_event list"

definition getConsoleOverview :: "uuid \<Rightarrow> environment \<Rightarrow> server \<Rightarrow> overview" where
  "getConsoleOverview t e s =
     \<lparr> ov_devices = length (filter (\<lambda>d. dv_tenant_id d = t \<and> dv_environment d = e) (t_devices s)),
       ov_users = length (filter (\<lambda>u. us_tenant_id u = t \<and> us_environment u = e) (t_users s)),
       ov_verifications = length (filter (\<lambda>v. ve_tenant_id v = t \<and> ve_environment v = e) (t_verifications s)),
       ov_attendance = length (filter (\<lambda>a. at_tenant_id a = t \<and> at_environment a = e) (t_attendance s)),
       ov_audit = length (filter (in_chain t (Some e)) (t_audit s)),
       ov_recent_devices = listDevices t e None None (Some 10) s,
       ov_recent_users = listTenantUsers t e None (Some 10) s,
       ov_recent_verifications = listVerificationEvents t e None None (Some 10) s,
       ov_recent_attendance = listAttendanceEvents t e None None (Some 10) s,
       ov_recent_audit = listAuditEvents t e None None (Some 10) s \<rparr>"

interpretation user_patch_update: keyed_update us_id patch_user
  by unfold_locales (simp add: patch_user_def split: prod.split)

interpretation user_touch_update: keyed_update us_id touch_user
  by unfold_locales (simp add: touch_user_def)

interpretation device_touch_update: keyed_update dv_id touch_device
  by unfold_locales (simp add: touch_device_def)

section \<open>Tenant isolation\<close>

text \<open>The rows of a tenant in the five tables these operations write.\<close>

definition tenant_view where
  "tenant_view t s =
     (filter (\<lambda>d. dv_tenant_id d = t) (t_devices s), filter (\<lambda>u. us_tenant_id u = t) (t_users s),
      filter (\<lambda>v. ve_tenant_id v = t) (t_verifications s), filter (\<lambda>a. at_tenant_id a = t) (t_attendance s),
      filter (\<lambda>r. au_tenant_id r = t) (t_audit s))"

lemma view_audit: "t' \<noteq> t \<Longrightarrow> tenant_view t' (recordAuditEvent sha now t a s) = tenant_view t' s"
  by (simp add: tenant_view_def recordAuditEvent_def append_tables audit_row_def input_payload_def)

lemma view_insert_device:
  "insert_device d s = Some s' \<Longrightarrow> dv_tenant_id d \<noteq> t' \<Longrightarrow> tenant_view t' s' = tenant_view t' s"
  by (drule insert_device_Some) (simp add: tenant_view_def)

lemma view_insert_user:
  "insert_user u s = Some s' \<Longrightarrow> us_tenant_id u \<noteq> t' \<Longrightarrow> tenant_view t' s' = tenant_view t' s"
  by (drule insert_user_Some) (simp add: tenant_view_def)

lemma view_devices:
  "filter (\<lambda>d. dv_tenant_id d = t') x = filter (\<lambda>d. dv_tenant_id d = t') (t_devices s) \<Longrightarrow>
    tenant_view t' (s\<lparr>t_devices := x\<rparr>) = tenant_view t' s"
  by (simp add: tenant_view_def)

lemma view_users:
  "filter (\<lambda>d. us_tenant_id d = t') x = filter (\<lambda>d. us_tenant_id d = t') (t_users s) \<Longrightarrow>
    tenant_view t' (s\<lparr>t_users := x\<rparr>) = tenant_view t' s"
  by (simp add: tenant_view_def)

lemma update_tenants [simp]:
  "dv_tenant_id (set_code a d) = dv_tenant_id d" "dv_tenant_id (revoke_row now d) = dv_tenant_id d"
  "dv_tenant_id (patch_row b d) = dv_tenant_id d" "dv_tenant_id (touch_device c d) = dv_tenant_id d"
  "us_tenant_id (patch_user p u) = us_tenant_id u" "us_tenant_id (touch_user c u) = us_tenant_id u"
  by (simp_all add: set_code_def revoke_row_def patch_row_def touch_device_def patch_user_def
      touch_user_def split: prod.split)

lemma new_tenants [simp]:
  "dv_tenant_id (new_device now newid uuid t e inp) = t"
  "dv_tenant_id (pending_device sha now newid uuid code t e slot ty) = t"
  "us_tenant_id (new_user now newid uuid t e ui pd) = t"
  by (simp_all add: new_device_def pending_device_def new_user_def)

lemma view_update_devices:
  assumes "t' \<noteq> t" "\<And>d. P d \<Longrightarrow> dv_tenant_id d = t" "\<And>d. dv_tenant_id (f d) = dv_tenant_id d"
  shows "tenant_view t' (s\<lparr>t_devices := update_rows P f (t_devices s)\<rparr>) = tenant_view t' s"
  using assms by (intro view_devices filter_update_other [where a = t]) auto

lemma view_update_users:
  assumes "t' \<noteq> t" "\<And>d. P d \<Longrightarrow> us_tenant_id d = t" "\<And>d. us_tenant_id (f d) = us_tenant_id d"
  shows "tenant_view t' (s\<lparr>t_users := update_rows P f (t_users s)\<rparr>) = tenant_view t' s"
  using assms by (intro view_users filter_update_other [where a = t]) auto

lemma scoped_tenant: "scoped_device t e i d \<Longrightarrow> dv_tenant_id d = t" "scoped_user t e i u \<Longrightarrow> us_tenant_id u = t"
  by (simp_all add: scoped_device_def scoped_user_def)

lemma view_store_devices:
  assumes "store_devices (update_rows P f (t_devices s)) s = Some s'" "t' \<noteq> t"
    "\<And>d. P d \<Longrightarrow> dv_tenant_id d = t" "\<And>d. dv_tenant_id (f d) = dv_tenant_id d"
  shows "tenant_view t' s' = tenant_view t' s"
  using assms(1) view_update_devices [OF assms(2-4), where s = s]
  by (auto simp: store_devices_def split: if_splits)

lemma view_touch_seen: "t' \<noteq> t \<Longrightarrow> tenant_view t' (touch_seen t dev at now s) = tenant_view t' s"
  unfolding touch_seen_def by (cases dev) (auto intro!: view_update_devices)

lemma view_touch_verified: "t' \<noteq> t \<Longrightarrow> tenant_view t' (touch_verified t dev at now s) = tenant_view t' s"
  unfolding touch_verified_def by (cases dev) (auto intro!: view_update_users)

lemma view_append [simp]:
  "ve_tenant_id v \<noteq> t' \<Longrightarrow> tenant_view t' (s\<lparr>t_verifications := t_verifications s @ [v]\<rparr>) = tenant_view t' s"
  "at_tenant_id a \<noteq> t' \<Longrightarrow> tenant_view t' (s\<lparr>t_attendance := t_attendance s @ [a]\<rparr>) = tenant_view t' s"
  by (simp_all add: tenant_view_def)

text \<open>The writing operations of \<open>platform.ts\<close> a key or console session of tenant \<open>t\<close> can call.\<close>

inductive tenant_step :: "(string \<Rightarrow> string) \<Rightarrow> uuid \<Rightarrow> server \<Rightarrow> server \<Rightarrow> bool" for sha t where
  ts_create_device: "tenant_step sha t s (snd (createDevice sha now newid uuid t e dinp actor s))"
| ts_issue: "tenant_step sha t s (snd (issueEnrollmentCode sha now newid uuid draw t e slot actor s))"
| ts_regenerate: "tenant_step sha t s (snd (regenerateEnrollmentCode sha now draw t e i actor s))"
| ts_revoke: "tenant_step sha t s (snd (revokeDevice sha now t e i actor s))"
| ts_update_device: "tenant_step sha t s (snd (updateDevice parse sha now t e i dpatch actor s))"
| ts_create_user: "tenant_step sha t s (snd (createTenantUser sha now newid uuid t e uinp actor s))"
| ts_update_user: "tenant_step sha t s (snd (updateTenantUser sha now t e i upatch actor s))"
| ts_verification: "tenant_step sha t s (snd (createVerificationEvent parse sha now newid t e key vinp s))"
| ts_attendance: "tenant_step sha t s (snd (createAttendanceEvent parse sha now newid t e key tinp s))"

inductive_cases tenant_stepE: "tenant_step sha t s s'"

lemma view_create_device: "t' \<noteq> t \<Longrightarrow> tenant_view t' (snd (createDevice sha now newid uuid t e inp actor s)) = tenant_view t' s"
  by (auto simp: createDevice_def Let_def view_audit view_insert_device split: option.split)

lemma view_issue: "t' \<noteq> t \<Longrightarrow> tenant_view t' (snd (issueEnrollmentCode sha now newid uuid draw t e slot actor s)) = tenant_view t' s"
  by (auto simp: issueEnrollmentCode_def Let_def view_audit view_insert_device split: option.split)

lemma view_regenerate: "t' \<noteq> t \<Longrightarrow> tenant_view t' (snd (regenerateEnrollmentCode sha now draw t e i actor s)) = tenant_view t' s"
  by (auto simp: regenerateEnrollmentCode_def Let_def view_audit scoped_tenant split: list.split
      intro!: view_update_devices [where t = t])

lemma view_revoke: "t' \<noteq> t \<Longrightarrow> tenant_view t' (snd (revokeDevice sha now t e i actor s)) = tenant_view t' s"
  by (auto simp: revokeDevice_def Let_def view_audit scoped_tenant split: list.split
      intro!: view_update_devices [where t = t])

lemma view_update_device: "t' \<noteq> t \<Longrightarrow> tenant_view t' (snd (updateDevice parse sha now t e i patch actor s)) = tenant_view t' s"
  by (auto simp: updateDevice_def Let_def view_audit scoped_tenant split: sum.split option.split list.split
      intro!: view_store_devices [where t = t])

lemma view_create_user: "t' \<noteq> t \<Longrightarrow> tenant_view t' (snd (createTenantUser sha now newid uuid t e inp actor s)) = tenant_view t' s"
  by (auto simp: createTenantUser_def Let_def view_audit view_insert_user split: sum.split option.split)

lemma view_update_user: "t' \<noteq> t \<Longrightarrow> tenant_view t' (snd (updateTenantUser sha now t e i inp actor s)) = tenant_view t' s"
  by (auto simp: updateTenantUser_def Let_def view_audit scoped_tenant split: sum.split list.split
      intro!: view_update_users [where t = t])

lemma view_verification: "t' \<noteq> t \<Longrightarrow> tenant_view t' (snd (createVerificationEvent parse sha now newid t e key inp s)) = tenant_view t' s"
  by (auto simp: createVerificationEvent_def Let_def view_audit view_touch_seen view_touch_verified
      new_verification_def split: sum.split)

lemma view_attendance: "t' \<noteq> t \<Longrightarrow> tenant_view t' (snd (createAttendanceEvent parse sha now newid t e key inp s)) = tenant_view t' s"
  by (auto simp: createAttendanceEvent_def Let_def view_audit split: sum.split option.split)

lemmas step_views = view_create_device view_issue view_regenerate view_revoke view_update_device
  view_create_user view_update_user view_verification view_attendance

text \<open>None of these operations waits for its audit write (\<open>void recordAuditEvent(..).catch(..)\<close>).  When that write
  fails, the change stays without its row and without the event the row would have emitted; when it is slow, the row comes
  after other operations.\<close>

definition audit_lost :: "server \<Rightarrow> server \<Rightarrow> server" where
  "audit_lost s s' = s'\<lparr>t_audit := t_audit s, t_audit_next := t_audit_next s, emitter_of := emitter_of s\<rparr>"

inductive tenant_outcome :: "(string \<Rightarrow> string) \<Rightarrow> uuid \<Rightarrow> server \<Rightarrow> server \<Rightarrow> bool" for sha t where
  audit_written: "tenant_step sha t s s' \<Longrightarrow> tenant_outcome sha t s s'"
| audit_missed: "tenant_step sha t s s' \<Longrightarrow> tenant_outcome sha t s (audit_lost s s')"
| audit_late: "tenant_outcome sha t s (recordAuditEvent sha now t a s)"

lemma view_step: "tenant_step sha t s s' \<Longrightarrow> t' \<noteq> t \<Longrightarrow> tenant_view t' s' = tenant_view t' s"
  by (erule tenant_step.cases) (simp_all add: step_views)

lemma view_lost: "tenant_view t' s' = tenant_view t' s \<Longrightarrow> tenant_view t' (audit_lost s s') = tenant_view t' s"
  by (simp add: tenant_view_def audit_lost_def)

text \<open>Property C11.  No operation of \<open>platform.ts\<close> that writes for one tenant (creating, issuing, regenerating, revoking and
  updating devices, creating and updating users, recording verifications and attendance), in any sequence, whether its
  audit write is done at once, later or never, changes the rows another tenant has in the tables of devices, users, verifications,
  attendance and audit events, in content, number and order.\<close>

theorem tenant_isolation:
  assumes "(tenant_outcome sha t)\<^sup>*\<^sup>* s s'" and "t' \<noteq> t"
  shows "tenant_view t' s' = tenant_view t' s"
  using assms(1)
proof (induction rule: rtranclp_induct)
  case (step s1 s2)
  have "tenant_view t' s2 = tenant_view t' s1"
    using step.hyps(2) by (cases rule: tenant_outcome.cases) (simp_all add: view_step view_lost view_audit assms(2))
  then show ?case using step.IH by simp
qed simp

definition neighbours :: server where
  "neighbours = empty_server\<lparr>t_devices := [new_device 0 ''i'' ''u'' ''x'' Live sample_device_input]\<rparr>"

theorem tenant_isolation_witness:
  "let s1 = snd (createDevice rev 5 ''j'' ''u'' ''t'' Live sample_device_input None neighbours);
       s2 = audit_lost s1 (snd (createDevice rev 6 ''k'' ''u'' ''t'' Test sample_device_input None s1)) in
   map dv_tenant_id (t_devices s2) = [''x'', ''t'', ''t''] \<and> length (t_audit s2) = 1 \<and>
   tenant_view ''x'' s2 = tenant_view ''x'' neighbours \<and> fst (tenant_view ''x'' s2) \<noteq> []"
proof -
  define s1 where "s1 = snd (createDevice rev 5 ''j'' ''u'' ''t'' Live sample_device_input None neighbours)"
  define s2 where "s2 = audit_lost s1 (snd (createDevice rev 6 ''k'' ''u'' ''t'' Test sample_device_input None s1))"
  have "tenant_outcome rev ''t'' neighbours s1" unfolding s1_def by (intro audit_written ts_create_device)
  moreover have "tenant_outcome rev ''t'' s1 s2" unfolding s2_def by (intro audit_missed ts_create_device)
  ultimately have "(tenant_outcome rev ''t'')\<^sup>*\<^sup>* neighbours s2" by simp
  then have v: "tenant_view ''x'' s2 = tenant_view ''x'' neighbours" by (rule tenant_isolation) simp
  have d1: "t_devices s1 = t_devices neighbours @ [new_device 5 ''j'' ''u'' ''t'' Live sample_device_input]" "length (t_audit s1) = 1"
    by (simp_all add: s1_def createDevice_def Let_def insert_device_def neighbours_def device_conflict_def new_device_def battery_ok_def
        sample_device_input_def recordAuditEvent_def append_tables empty_server_def)
  have d2: "map dv_tenant_id (t_devices s2) = [''x'', ''t'', ''t'']" "length (t_audit s2) = 1"
    using d1 by (simp_all add: s2_def audit_lost_def createDevice_def Let_def insert_device_def neighbours_def device_conflict_def new_device_def
        battery_ok_def sample_device_input_def)
  have "fst (tenant_view ''x'' neighbours) \<noteq> []" by (simp add: tenant_view_def neighbours_def new_device_def)
  then show ?thesis using v d2 unfolding Let_def s1_def [symmetric] s2_def [symmetric] by simp
qed

section \<open>The audit trail is complete\<close>

definition one_audit_row :: "uuid \<Rightarrow> server \<Rightarrow> server \<Rightarrow> bool" where
  "one_audit_row t s s' \<longleftrightarrow> (\<exists>r. t_audit s' = t_audit s @ [r] \<and> au_tenant_id r = t \<and> hashed_row r)"

lemma record_one_row:
  "t_audit s0 = t_audit s \<Longrightarrow> one_audit_row t s (recordAuditEvent sha now t a s0)"
  by (simp add: one_audit_row_def recordAuditEvent_def append_tables audit_row_def input_payload_def
      hashed_row_def)

lemma touch_audit [simp]:
  "t_audit (touch_seen t dev at now s) = t_audit s" "t_audit (touch_verified t dev at now s) = t_audit s"
  "t_audit_next (touch_seen t dev at now s) = t_audit_next s"
  "t_audit_next (touch_verified t dev at now s) = t_audit_next s"
  by (simp_all add: touch_seen_def touch_verified_def split: option.split)

lemma insert_audit:
  "insert_device d s = Some s' \<Longrightarrow> t_audit s' = t_audit s"
  "insert_user u s = Some s' \<Longrightarrow> t_audit s' = t_audit s"
  "store_devices x s = Some s' \<Longrightarrow> t_audit s' = t_audit s"
  by (auto dest!: insert_device_Some insert_user_Some simp: store_devices_def split: if_splits)

lemma audit_wf_users [simp]:
  "audit_wf sha (s\<lparr>t_users := x\<rparr>) = audit_wf sha s"
  "audit_wf sha (s\<lparr>t_verifications := y\<rparr>) = audit_wf sha s"
  "audit_wf sha (s\<lparr>t_attendance := z\<rparr>) = audit_wf sha s"
  "insert_user u s = Some s' \<Longrightarrow> audit_wf sha s' = audit_wf sha s"
  "audit_wf sha (touch_seen t dev at now s) = audit_wf sha s"
  "audit_wf sha (touch_verified t dev at now s) = audit_wf sha s"
  by (auto dest!: insert_user_Some intro!: audit_wf_same_table)

lemma key_input_metadata [simp]:
  "ai_metadata (key_input key e action entity i status summary members) = JObj members"
  by (simp add: key_input_def)

lemma device_steps_one_row:
  "snd (createDevice sha now newid uuid t e dinp actor s) = s \<or> one_audit_row t s (snd (createDevice sha now newid uuid t e dinp actor s))"
  "snd (issueEnrollmentCode sha now newid uuid draw t e slot actor s) = s \<or>
     one_audit_row t s (snd (issueEnrollmentCode sha now newid uuid draw t e slot actor s))"
  "snd (regenerateEnrollmentCode sha now draw t e i actor s) = s \<or>
     one_audit_row t s (snd (regenerateEnrollmentCode sha now draw t e i actor s))"
  "snd (revokeDevice sha now t e i actor s) = s \<or> one_audit_row t s (snd (revokeDevice sha now t e i actor s))"
  "snd (updateDevice parse sha now t e i dpatch actor s) = s \<or>
     one_audit_row t s (snd (updateDevice parse sha now t e i dpatch actor s))"
  by (auto simp: createDevice_def issueEnrollmentCode_def regenerateEnrollmentCode_def revokeDevice_def
      updateDevice_def Let_def insert_audit split: option.split list.split sum.split intro!: record_one_row)

lemma user_steps_one_row:
  "snd (createTenantUser sha now newid uuid t e uinp actor s) = s \<or>
     one_audit_row t s (snd (createTenantUser sha now newid uuid t e uinp actor s))"
  "snd (updateTenantUser sha now t e i upatch actor s) = s \<or>
     one_audit_row t s (snd (updateTenantUser sha now t e i upatch actor s))"
  "snd (createVerificationEvent parse sha now newid t e key vinp s) = s \<or>
     one_audit_row t s (snd (createVerificationEvent parse sha now newid t e key vinp s))"
  "snd (createAttendanceEvent parse sha now newid t e key tinp s) = s \<or>
     one_audit_row t s (snd (createAttendanceEvent parse sha now newid t e key tinp s))"
  by (auto simp: createTenantUser_def updateTenantUser_def createVerificationEvent_def
      createAttendanceEvent_def Let_def insert_audit split: option.split list.split sum.split intro!: record_one_row)

lemma user_operations_audit_wf:
  assumes "audit_wf sha s"
  shows "audit_wf sha (snd (createTenantUser sha now newid uuid t e uinp actor s))"
    and "audit_wf sha (snd (updateTenantUser sha now t e i upatch actor s))"
    and "audit_wf sha (snd (createVerificationEvent parse sha now newid t e key vinp s))"
    and "audit_wf sha (snd (createAttendanceEvent parse sha now newid t e key tinp s))"
  using assms
  by (auto simp: createTenantUser_def updateTenantUser_def createVerificationEvent_def
      createAttendanceEvent_def Let_def split: option.split list.split sum.split intro!: record_audit_wf)

lemma lost_audit_wf: "audit_wf sha s \<Longrightarrow> audit_wf sha (audit_lost s s')"
  using audit_wf_same_table [of "audit_lost s s'" s] by (simp add: audit_lost_def)

text \<open>Property C14.  No writing operation of \<open>platform.ts\<close> (the nine of the step relation) changes the database without
  logging it: it either leaves the whole database as it was (and then it failed or found no row) or ends in exactly
  one hashed audit row of its tenant.  The code does not wait for that row; whether its write completes or fails, the
  audit chains of all tenants verify afterwards if the log was well-formed before.\<close>

theorem every_mutation_is_audited:
  assumes "tenant_step sha t s s'" and "audit_wf sha s"
  shows "(s' = s \<or> one_audit_row t s s') \<and>
    (\<forall>s2 \<in> {s', audit_lost s s'}. audit_wf sha s2 \<and> verifyAuditChain sha t' e startId limit s2 = ChainOk)"
proof -
  have "(s' = s \<or> one_audit_row t s s') \<and> audit_wf sha s'"
    using assms(1)
    by (cases rule: tenant_step.cases)
      (simp_all only: device_steps_one_row user_steps_one_row simp_thms
        device_operations_audit_wf [OF assms(2)] user_operations_audit_wf [OF assms(2)])
  then show ?thesis using audit_wf_verifies lost_audit_wf [OF assms(2)] by auto
qed

theorem every_mutation_is_audited_witness:
  "let s = snd (createDevice rev 5 ''j'' ''u'' ''t'' Live sample_device_input None empty_server);
       s' = snd (createDevice rev 6 ''k'' ''u'' ''t'' Test sample_device_input None s) in
   one_audit_row ''t'' s s' \<and> length (t_audit s') = 2 \<and>
   verifyAuditChain rev ''t'' (Some Live) 0 9 s' = ChainOk \<and> verifyAuditChain rev ''t'' (Some Live) 0 9 (audit_lost s s') = ChainOk"
proof -
  define s where "s = snd (createDevice rev 5 ''j'' ''u'' ''t'' Live sample_device_input None empty_server)"
  define s' where "s' = snd (createDevice rev 6 ''k'' ''u'' ''t'' Test sample_device_input None s)"
  have wf: "audit_wf rev s" unfolding s_def using device_operations_audit_wf(1) [OF audit_wf_empty] .
  have d: "t_devices s = [new_device 5 ''j'' ''u'' ''t'' Live sample_device_input]" "length (t_audit s) = 1"
    by (simp_all add: s_def createDevice_def Let_def insert_device_def device_conflict_def new_device_def battery_ok_def
        sample_device_input_def recordAuditEvent_def append_tables empty_server_def)
  have l: "length (t_audit s') = 2"
    using d by (simp add: s'_def createDevice_def Let_def insert_device_def device_conflict_def new_device_def battery_ok_def
        sample_device_input_def recordAuditEvent_def append_tables)
  then have "s' \<noteq> s" using d(2) by auto
  moreover have "tenant_step rev ''t'' s s'" unfolding s'_def by (rule ts_create_device)
  ultimately show ?thesis
    using every_mutation_is_audited [OF _ wf, of "''t''" s' "''t''" "Some Live" 0 9] l
    unfolding Let_def s_def [symmetric] s'_def [symmetric] by simp
qed

section \<open>Listings\<close>

lemma sanitizeLimit_bounds: "0 < fallback \<Longrightarrow> fallback \<le> 100 \<Longrightarrow> 1 \<le> sanitizeLimit l fallback \<and> sanitizeLimit l fallback \<le> 100"
  by (auto simp: sanitizeLimit_def split: option.split)

lemma newest_length: "length (newest f n rows) = min n (length rows)"
  by (simp add: newest_def)

lemma newest_subset: "set (newest f n rows) \<subseteq> set rows"
  using set_take_subset [of n "sort_key (\<lambda>r. - f r) rows"] by (simp add: newest_def)

lemma newest_sorted: "sorted (map (\<lambda>r. - f r) (newest f n rows))"
  unfolding newest_def take_map [symmetric] by (intro sorted_wrt_take sorted_sort_key)

lemma newest_covers:
  assumes "y \<in> set rows" "y \<notin> set (newest f n rows)" "x \<in> set (newest f n rows)"
  shows "f y \<le> f x"
proof -
  let ?l = "sort_key (\<lambda>r. - f r) rows"
  have "y \<in> set (drop n ?l)"
    using assms(1,2) by (metis append_take_drop_id newest_def set_append set_sort Un_iff)
  moreover have "sorted (map (\<lambda>r. - f r) (take n ?l) @ map (\<lambda>r. - f r) (drop n ?l))"
    by (simp flip: map_append)
  ultimately show ?thesis
    using assms(3) by (fastforce simp: newest_def sorted_append)
qed

text \<open>A device listing never leaks or floods: it returns only devices of the
  tenant environment that match the filters, at most 100 of them whatever limit the caller
  asks for (50 without a limit, and all of them when there are fewer), the newest first, and no
  omitted device is newer than a listed one.\<close>

theorem device_listing:
  fixes t e status st l s
  defines "rows \<equiv> filter (\<lambda>d. dv_tenant_id d = t \<and> dv_environment d = e
      \<and> opt_matches status (dv_status d) \<and> opt_matches st (dv_enrollment_state d)) (t_devices s)"
    and "out \<equiv> listDevices t e status st l s"
  shows "length out = min (sanitizeLimit l 50) (length rows) \<and> length out \<le> 100 \<and>
    set out \<subseteq> set rows \<and> sorted (map (\<lambda>d. - dv_created_at d) out) \<and>
    (\<forall>y \<in> set rows - set out. \<forall>x \<in> set out. dv_created_at y \<le> dv_created_at x)"
proof -
  have o: "out = newest dv_created_at (sanitizeLimit l 50) rows"
    by (simp add: out_def listDevices_def rows_def select_rows_def)
  have "sanitizeLimit l 50 \<le> 100" using sanitizeLimit_bounds [of 50 l] by simp
  then show ?thesis
    using newest_covers [of _ rows dv_created_at "sanitizeLimit l 50"]
    by (auto simp: o newest_length newest_sorted dest: subsetD [OF newest_subset])
qed

theorem device_listing_witness:
  "length (listDevices ''t'' Live None None (Some 500) two_devices) = 2 \<and>
   set (listDevices ''t'' Live None (Some Pending) (Some 500) two_devices) \<subseteq> {two_devices_pending}"
proof -
  have two: "length (filter (\<lambda>d. dv_tenant_id d = ''t'' \<and> dv_environment d = Live \<and> opt_matches None (dv_status d)
      \<and> opt_matches None (dv_enrollment_state d)) (t_devices two_devices)) = 2"
    by (simp add: two_devices_def new_device_def pending_device_def opt_matches_def)
  have one: "set (filter (\<lambda>d. dv_tenant_id d = ''t'' \<and> dv_environment d = Live \<and> opt_matches None (dv_status d)
      \<and> opt_matches (Some Pending) (dv_enrollment_state d)) (t_devices two_devices)) = {two_devices_pending}"
    by (simp add: two_devices_def two_devices_pending_def new_device_def pending_device_def opt_matches_def)
  have "sanitizeLimit (Some 500) 50 = 100" by (simp add: sanitizeLimit_def)
  then show ?thesis
    using device_listing [of "''t''" Live None None "Some 500" two_devices]
      device_listing [of "''t''" Live None "Some Pending" "Some 500" two_devices] two one by simp
qed

section \<open>Attendance and verification records\<close>

lemma resolve_Inr: "resolve look er ref = Inr (Some r) \<Longrightarrow> \<exists>i. ref = Some i \<and> look i = Some r"
  by (auto simp: resolve_def split: option.splits if_splits)

lemma find_scoped:
  "findDevice t e i s = Some d \<Longrightarrow> d \<in> set (t_devices s) \<and> scoped_device t e i d"
  "findTenantUser t e i s = Some u \<Longrightarrow> u \<in> set (t_users s) \<and> scoped_user t e i u"
  "findVerification t e i s = Some v \<Longrightarrow> v \<in> set (t_verifications s) \<and> ve_id v = i \<and> ve_tenant_id v = t
     \<and> ve_environment v = e"
  by (auto simp: findDevice_def findTenantUser_def findVerification_def dest: first_row_SomeD)

text \<open>An attendance event is recorded for an existing user of the tenant
  environment only, with device and verification references resolved there; an explicit result is
  kept, otherwise a linked verification decides (only a pass is accepted) and without one the
  event is accepted; the audit row reports a rejection as failure.  A refused request changes
  nothing.\<close>

theorem attendance_recorded:
  assumes "createAttendanceEvent parse sha now newid t e key inp s = (res, s')"
  shows "case res of
      Inl _ \<Rightarrow> s' = s
    | Inr a \<Rightarrow> t_attendance s' = t_attendance s @ [a] \<and> at_tenant_id a = t \<and> at_environment a = e \<and>
        (\<exists>u \<in> set (t_users s). scoped_user t e (at_user_id a) u \<and> at_user_id a = ti_user_id inp) \<and>
        (\<forall>d. at_device_id a = Some d \<longrightarrow> (\<exists>x \<in> set (t_devices s). scoped_device t e d x)) \<and>
        (case at_verification_id a of
           None \<Rightarrow> at_result a = or_else Accepted (ti_result inp)
         | Some i \<Rightarrow> \<exists>v \<in> set (t_verifications s). ve_id v = i \<and> ve_tenant_id v = t \<and> ve_environment v = e \<and>
             at_result a = or_else (if ve_result v = Pass then Accepted else Rejected) (ti_result inp)) \<and>
        (\<exists>r. t_audit s' = t_audit s @ [r] \<and>
             (au_status r = AuditFailure \<longleftrightarrow> at_result a = Rejected))"
proof (cases res)
  case (Inl er)
  then show ?thesis
    using assms by (auto simp: createAttendanceEvent_def Let_def split: sum.splits option.splits)
next
  case (Inr a)
  obtain at u dev ver where
    u: "findTenantUser t e (ti_user_id inp) s = Some u"
    and dev: "resolve (\<lambda>i. findDevice t e i s) DeviceMissing (ti_device_id inp) = Inr dev"
    and ver: "resolve (\<lambda>i. findVerification t e i s) VerificationMissing (ti_verification_id inp) = Inr ver"
    and a: "a = \<lparr> at_id = newid, at_tenant_id = t, at_environment = e, at_user_id = us_id u,
                    at_device_id = map_option dv_id dev, at_verification_id = map_option ve_id ver,
                    at_event_type = ti_type inp, at_result = derived_result (ti_result inp) ver,
                    at_metadata = stored (sanitizeMetadata (ti_metadata inp)),
                    at_occurred_at = at, at_created_at = now \<rparr>"
    and s': "s' = recordAuditEvent sha now t
               (key_input key e ''attendance.recorded'' ''attendance'' newid
                  (if at_result a = Rejected then AuditFailure else AuditSuccess)
                  (attendance_type_str (at_event_type a) @ '' '' @ attendance_result_str (at_result a))
                  [(''userId'', JStr (at_user_id a)), (''deviceId'', opt_str (at_device_id a)),
                   (''verificationId'', opt_str (at_verification_id a))])
               (s\<lparr>t_attendance := t_attendance s @ [a]\<rparr>)"
    using assms Inr by (auto simp: createAttendanceEvent_def Let_def split: sum.splits option.splits)
  have "t_attendance s' = t_attendance s @ [a]" by (simp add: s')
  moreover have "\<exists>r. t_audit s' = t_audit s @ [r] \<and> (au_status r = AuditFailure \<longleftrightarrow> at_result a = Rejected)"
    unfolding s' recordAuditEvent_def append_tables
    by (simp add: audit_row_def input_payload_def key_input_def)
  moreover have "\<exists>x \<in> set (t_devices s). scoped_device t e d x" if dv: "at_device_id a = Some d" for d
  proof -
    obtain x where "dev = Some x" "dv_id x = d" using dv by (auto simp: a)
    with dev obtain i where "findDevice t e i s = Some x" by (auto dest: resolve_Inr)
    then have "x \<in> set (t_devices s) \<and> scoped_device t e i x" by (rule find_scoped)
    with \<open>dv_id x = d\<close> show ?thesis by (auto simp: scoped_device_def)
  qed
  moreover have "\<exists>v \<in> set (t_verifications s). ve_id v = i \<and> ve_tenant_id v = t \<and> ve_environment v = e \<and>
      at_result a = or_else (if ve_result v = Pass then Accepted else Rejected) (ti_result inp)"
    if vi: "at_verification_id a = Some i" for i
  proof -
    obtain v where v: "ver = Some v" "ve_id v = i" using vi by (auto simp: a)
    with ver obtain j where "findVerification t e j s = Some v" by (auto dest: resolve_Inr)
    then have "v \<in> set (t_verifications s) \<and> ve_tenant_id v = t \<and> ve_environment v = e"
      using find_scoped(3) by blast
    moreover have "at_result a = or_else (if ve_result v = Pass then Accepted else Rejected) (ti_result inp)"
      by (cases "ti_result inp") (simp_all add: a v derived_result_def)
    ultimately show ?thesis using v(2) by blast
  qed
  moreover have "at_result a = or_else Accepted (ti_result inp)" if "at_verification_id a = None"
    using that by (cases "ti_result inp") (simp_all add: a derived_result_def)
  moreover have "at_tenant_id a = t" "at_environment a = e" "at_user_id a = ti_user_id inp"
    "\<exists>u \<in> set (t_users s). scoped_user t e (at_user_id a) u"
    using find_scoped(2) [OF u] by (auto simp: a scoped_user_def)
  ultimately show ?thesis
    unfolding Inr sum.case by (cases "at_verification_id a") (simp, simp only: option.case, blast)
qed

theorem attendance_recorded_witness:
  "snd (createAttendanceEvent (\<lambda>_. None) rev 5 ''i'' ''t'' Live ''k''
     \<lparr> ti_user_id = ''nobody'', ti_device_id = None, ti_verification_id = None, ti_type = CheckIn,
       ti_result = None, ti_metadata = JUndef, ti_occurred_at = None \<rparr> empty_server) = empty_server"
proof -
  define inp where "inp = \<lparr> ti_user_id = ''nobody'', ti_device_id = None, ti_verification_id = None,
     ti_type = CheckIn, ti_result = None, ti_metadata = JUndef, ti_occurred_at = None \<rparr>"
  obtain res s' where run: "createAttendanceEvent (\<lambda>_. None) rev 5 ''i'' ''t'' Live ''k'' inp empty_server = (res, s')"
    by fastforce
  have "t_users empty_server = []" by (simp add: empty_server_def)
  with attendance_recorded [OF run] have "s' = empty_server" by (auto split: sum.splits)
  then show ?thesis using run by (simp add: inp_def)
qed

end
