(* ===== verification/Zkp.thy ===== *)
theory Zkp
  imports Verifier_Log
begin

text \<open>
  The proof verification of the API (\<open>src/services/zkp.ts\<close>): the client of the verifier
  service, the inline fallback, and the validation chain of \<open>verifyBiometricProof\<close>.  What
  the verifier service answers, the pairing check of snarkjs, the contract call and the
  \<open>Date\<close> parser are parameters.
\<close>

text \<open>The reply to \<open>POST /verify\<close>: none (time-out, refused), a status that is not 2xx, or
  the body.\<close>

datatype verifier_reply = NoReply | BadStatus | Body (body_verified: bool) (body_fallback: bool)

text \<open>Service mode is selected by \<open>config.zkp.verifierUrl\<close>; inline mode uses the loaded
  verification key, if any.\<close>

datatype verifier_mode =
    Service "json \<Rightarrow> json list \<Rightarrow> verifier_reply"
  | Inline groth_check "string option"

definition verifyViaService :: "verifier_reply \<Rightarrow> bool" where
  "verifyViaService reply = (case reply of NoReply \<Rightarrow> False | BadStatus \<Rightarrow> False | Body v _ \<Rightarrow> v)"

definition verifyInline :: "groth_check \<Rightarrow> string option \<Rightarrow> json \<Rightarrow> json list \<Rightarrow> bool" where
  "verifyInline groth vkey proof signals = (case vkey of
       Some k \<Rightarrow> (case groth k signals proof of Some b \<Rightarrow> b | None \<Rightarrow> False)
     | None \<Rightarrow> isValidProofStructure proof)"

definition verifyProofOffChain :: "verifier_mode \<Rightarrow> json \<Rightarrow> json list \<Rightarrow> bool" where
  "verifyProofOffChain mode proof signals = (case mode of
       Service call \<Rightarrow> verifyViaService (call proof signals)
     | Inline groth vkey \<Rightarrow> verifyInline groth vkey proof signals)"

text \<open>The UUID v4 pattern of the nonce.\<close>

definition is_uuid_v4 :: "string \<Rightarrow> bool" where
  "is_uuid_v4 s \<longleftrightarrow> length s = 36 \<and> list_all (\<lambda>i. let c = s ! i in
     if i \<in> {8, 13, 18, 23} then c = CHR ''-''
     else if i = 14 then c = CHR ''4''
     else if i = 19 then to_lower_char c \<in> {CHR ''8'', CHR ''9'', CHR ''a'', CHR ''b''}
     else is_hex c) [0..<36]"

record zkp_request =
  zr_proof :: json
  zr_signals :: json
  zr_nonce :: string
  zr_timestamp :: string

definition PROOF_WINDOW_MS :: int where "PROOF_WINDOW_MS = 5 * 60 * 1000"

text \<open>\<open>None\<close>: the contract call threw, which leaves the off-chain verdict standing.\<close>

type_synonym on_chain = "json \<Rightarrow> json list \<Rightarrow> bool option"

definition verifyBiometricProof ::
  "(string \<Rightarrow> time_ms option) \<Rightarrow> verifier_mode \<Rightarrow> on_chain option \<Rightarrow> time_ms \<Rightarrow> zkp_request \<Rightarrow> bool" where
  "verifyBiometricProof parse mode chain now rq =
     (if \<not> truthy (zr_proof rq) \<or> \<not> truthy (zr_signals rq) \<or> zr_nonce rq = [] \<or> zr_timestamp rq = []
      then False
      else (case parse (zr_timestamp rq) of
          None \<Rightarrow> False
        | Some proofTime \<Rightarrow>
            if PROOF_WINDOW_MS < \<bar>now - proofTime\<bar> then False
            else if \<not> is_uuid_v4 (zr_nonce rq) then False
            else (case array_of (zr_signals rq) of
                None \<Rightarrow> False
              | Some signals \<Rightarrow>
                  if length signals \<noteq> 3 then False
                  else (let verified = verifyProofOffChain mode (zr_proof rq) signals in
                    if \<not> verified then False
                    else (case chain of
                        None \<Rightarrow> True
                      | Some call \<Rightarrow> (case call (zr_proof rq) signals of
                            Some False \<Rightarrow> False
                          | _ \<Rightarrow> True))))))"

text \<open>A proof is accepted exactly when its proof and three public signals are
  present, its timestamp parses and lies within five minutes of the server clock, its nonce is
  a version 4 UUID, the off-chain verifier accepts it, and the contract, when it is asked and
  answers, does not refuse it.\<close>

theorem biometric_proof_accepted_iff:
  "verifyBiometricProof parse mode chain now rq \<longleftrightarrow>
     truthy (zr_proof rq) \<and> zr_timestamp rq \<noteq> [] \<and>
     (\<exists>at. parse (zr_timestamp rq) = Some at \<and> at - 300000 \<le> now \<and> now \<le> at + 300000) \<and>
     is_uuid_v4 (zr_nonce rq) \<and>
     (\<exists>a b c. zr_signals rq = JArr [a, b, c] \<and> verifyProofOffChain mode (zr_proof rq) [a, b, c] \<and>
        (\<forall>call. chain = Some call \<longrightarrow> call (zr_proof rq) [a, b, c] \<noteq> Some False))"
  (is "?lhs \<longleftrightarrow> ?rhs")
proof
  assume l: ?lhs
  then obtain at where at: "parse (zr_timestamp rq) = Some at"
    by (auto simp: verifyBiometricProof_def split: if_splits option.splits)
  obtain signals where sg: "zr_signals rq = JArr signals"
    using l at by (cases "zr_signals rq") (auto simp: verifyBiometricProof_def array_of_def split: if_splits)
  have len: "length signals = 3"
    using l at sg by (auto simp: verifyBiometricProof_def array_of_def split: if_splits)
  then obtain a b c where abc: "signals = [a, b, c]"
    by (auto simp: numeral_3_eq_3 length_Suc_conv)
  show ?rhs
    using l at sg abc
    by (auto simp: verifyBiometricProof_def array_of_def Let_def PROOF_WINDOW_MS_def
        split: if_splits option.splits bool.splits)
next
  assume ?rhs
  then obtain at a b c where r: "truthy (zr_proof rq)" "zr_timestamp rq \<noteq> []"
    "parse (zr_timestamp rq) = Some at" "at - 300000 \<le> now" "now \<le> at + 300000"
    "is_uuid_v4 (zr_nonce rq)" "zr_signals rq = JArr [a, b, c]"
    "verifyProofOffChain mode (zr_proof rq) [a, b, c]"
    "\<forall>call. chain = Some call \<longrightarrow> call (zr_proof rq) [a, b, c] \<noteq> Some False"
    by blast
  have "zr_nonce rq \<noteq> []" using r(6) by (auto simp: is_uuid_v4_def)
  then show ?lhs
    using r by (auto simp: verifyBiometricProof_def array_of_def truthy_def Let_def PROOF_WINDOW_MS_def
        split: option.split bool.split)
qed

theorem biometric_proof_accepted_iff_witness:
  "\<not> verifyBiometricProof (\<lambda>_. Some 0) (Inline (\<lambda>_ _ _. Some True) (Some ''k'')) None 300001
     \<lparr> zr_proof = JObj [], zr_signals = JArr [JStr ''1'', JStr ''2'', JStr ''3''],
       zr_nonce = ''01234567-89ab-4def-8123-456789abcdef'', zr_timestamp = ''t'' \<rparr>"
  unfolding biometric_proof_accepted_iff by simp

text \<open>A verdict given without a verification key is still an acceptance on this
  path: the client of the verifier service ignores the \<open>structuralFallback\<close> flag, and the
  inline mode without a key accepts any proof of the right shape.\<close>

theorem structural_fallback_accepted:
  "verifyProofOffChain (Service (\<lambda>_ _. Body v True)) proof signals = v \<and>
   verifyProofOffChain (Inline groth None) proof signals = isValidProofStructure proof"
  by (simp add: verifyProofOffChain_def verifyViaService_def verifyInline_def)

end
