(* ===== verification/Pairing.thy ===== *)
theory Pairing
  imports Platform Zkp
begin

text \<open>
  The proof-pairing service (\<open>src/services/proof-pairing.ts\<close>) and its policy gate
  (\<open>src/services/play-integrity.ts\<close>): a desktop opens a session and shows its nonce as a
  QR code, the phone submits a proof bound to the nonce, and the desktop is signed in once.
  SHA-256 (\<open>sha\<close>, in hexadecimal), Poseidon (\<open>poseidon\<close>) and the verifier are
  parameters; latency padding is not modelled.  A handler whose awaited audit write or whose token
  signing fails after the row was consumed answers 500 in the code; those two failures have no counterpart here, so
  \<open>submitProof\<close> accepts as soon as the guarded update has found its row.
\<close>

section \<open>Tunables and errors\<close>

definition SESSION_TTL_MS :: int where "SESSION_TTL_MS = 5 * 60 * 1000"
definition MAX_PENDING_SESSIONS_PER_TENANT :: nat where "MAX_PENDING_SESSIONS_PER_TENANT = 50"
definition MAX_FAILURES_BEFORE_LOCK :: nat where "MAX_FAILURES_BEFORE_LOCK = 3"
definition STREAM_MAX_LIFETIME_MS :: int where "STREAM_MAX_LIFETIME_MS = SESSION_TTL_MS + 30000"

datatype pairing_error =
    PairingSessionNotFound | PairingSessionExpired | PairingSessionAlreadyBound
  | PairingSessionLocked | PairingSessionBindMismatch | PairingNonceMismatch | PairingDidUnknown
  | PairingProofInvalid | TooManyPendingSessions | VerifierUnavailable
  | PlayIntegrityRequired | PlayIntegrityInsufficient | InternalError

definition error_code :: "pairing_error \<Rightarrow> string" where
  "error_code er = (case er of
       PairingSessionNotFound \<Rightarrow> ''pairing_session_not_found''
     | PairingSessionExpired \<Rightarrow> ''pairing_session_expired''
     | PairingSessionAlreadyBound \<Rightarrow> ''pairing_session_already_bound''
     | PairingSessionLocked \<Rightarrow> ''pairing_session_locked''
     | PairingSessionBindMismatch \<Rightarrow> ''pairing_session_bind_mismatch''
     | PairingNonceMismatch \<Rightarrow> ''pairing_nonce_mismatch''
     | PairingDidUnknown \<Rightarrow> ''pairing_did_unknown''
     | PairingProofInvalid \<Rightarrow> ''pairing_proof_invalid''
     | TooManyPendingSessions \<Rightarrow> ''too_many_pending_sessions''
     | VerifierUnavailable \<Rightarrow> ''verifier_unavailable''
     | PlayIntegrityRequired \<Rightarrow> ''play_integrity_required''
     | PlayIntegrityInsufficient \<Rightarrow> ''play_integrity_insufficient''
     | InternalError \<Rightarrow> ''internal_error'')"

section \<open>The Play Integrity gate\<close>

definition verdictRank :: "string \<Rightarrow> nat" where
  "verdictRank v = (if v = ''MEETS_STRONG_INTEGRITY'' then 4
     else if v = ''MEETS_DEVICE_INTEGRITY'' then 3
     else if v = ''MEETS_BASIC_INTEGRITY'' then 2
     else if v = ''INTEGRITY_NOT_EVALUATED'' then 1 else 0)"

definition requiredRank :: "json \<Rightarrow> nat" where
  "requiredRank policy =
     (if truthy (jget ''require_strong_integrity'' policy) then 4
      else if truthy (jget ''require_device_integrity'' policy) then 3
      else if truthy (jget ''require_basic_integrity'' policy) then 2 else 0)"

definition evaluateVerdict :: "json \<Rightarrow> json \<Rightarrow> pairing_error option" where
  "evaluateVerdict presented policy =
     (if requiredRank policy = 0 then None
      else (let trimmed = (case presented of JStr v \<Rightarrow> trim v | _ \<Rightarrow> '''') in
        if trimmed = [] then
          (if truthy (jget ''allow_play_integrity_absent'' policy) then None else Some PlayIntegrityRequired)
        else if verdictRank trimmed < requiredRank policy then Some PlayIntegrityInsufficient
        else None))"

section \<open>Helpers\<close>

definition nonceHexToField :: "string \<Rightarrow> int option" where
  "nonceHexToField nonceHex = (if length nonceHex = 62 \<and> list_all is_hex nonceHex
     then bigint_of_string (''0x'' @ nonceHex) else None)"

definition timingSafeBigIntEqual :: "int \<Rightarrow> int \<Rightarrow> bool" where
  "timingSafeBigIntEqual a b =
     (hex_bytes (pad_start 64 (hex_int a)) = hex_bytes (pad_start 64 (hex_int b)))"

definition parseBigIntFromSignal :: "json \<Rightarrow> int option" where
  "parseBigIntFromSignal raw = (case raw of
       JStr r \<Rightarrow> (let s = trim r in if s = [] then None else bigint_of_string s)
     | JNum n \<Rightarrow> bigint_of_string (trim (dec_int n))
     | _ \<Rightarrow> None)"

definition buildQrPayload :: "(string \<Rightarrow> string) \<Rightarrow> string \<Rightarrow> string \<Rightarrow> string \<Rightarrow> string" where
  "buildQrPayload sha sessionId nonceHex tenantDomain =
     (let integrityTag = take 4 (sha (sessionId @ ''|'' @ nonceHex @ ''|'' @ tenantDomain))
      in ''za:pair:1:'' @ sessionId @ '':'' @ nonceHex @ '':'' @ tenantDomain @ '':'' @ integrityTag)"

record session_view =
  sv_id :: uuid
  sv_state :: pairing_state
  sv_expires_at :: string
  sv_bound_at :: "string option"
  sv_user_id :: "uuid option"
  sv_did :: "string option"

definition rowToPublicView :: "pairing_session \<Rightarrow> session_view" where
  "rowToPublicView row = \<lparr> sv_id = ps_id row, sv_state = ps_state row,
     sv_expires_at = iso_string (ps_expires_at row),
     sv_bound_at = map_option iso_string (ps_consumed_at row),
     sv_user_id = ps_consumed_user_id row, sv_did = None \<rparr>"

definition bump_failure :: "string \<Rightarrow> pairing_session \<Rightarrow> pairing_session" where
  "bump_failure code row = row\<lparr>ps_failure_count := ps_failure_count row + 1,
     ps_last_error_code := Some code,
     ps_state := (if MAX_FAILURES_BEFORE_LOCK \<le> ps_failure_count row + 1 then Failed else ps_state row)\<rparr>"

definition bumpable :: "uuid \<Rightarrow> pairing_session \<Rightarrow> bool" where
  "bumpable i row \<longleftrightarrow> ps_id row = i \<and> (ps_state row = Issued \<or> ps_state row = Failed)"

definition incrementFailureCount :: "uuid \<Rightarrow> string \<Rightarrow> server \<Rightarrow> nat \<times> server" where
  "incrementFailureCount i code s =
     ((case returning (bumpable i) (bump_failure code) (t_pairing s) of [] \<Rightarrow> 0 | r # _ \<Rightarrow> ps_failure_count r),
      s\<lparr>t_pairing := update_rows (bumpable i) (bump_failure code) (t_pairing s)\<rparr>)"

text \<open>\<open>readable\<close> tells whether the query succeeds; a failure is the empty policy.\<close>

definition loadTenantSecurityPolicy :: "bool \<Rightarrow> uuid \<Rightarrow> server \<Rightarrow> json" where
  "loadTenantSecurityPolicy readable t s =
     (if \<not> readable then JObj []
      else (case first_row (\<lambda>r. tn_id r = t) (t_tenants s) of
          None \<Rightarrow> JObj []
        | Some r \<Rightarrow> if is_object (tn_security_policy r) then tn_security_policy r else JObj []))"

definition loadSessionRow :: "uuid \<Rightarrow> uuid \<Rightarrow> environment \<Rightarrow> server \<Rightarrow> pairing_session option" where
  "loadSessionRow i t e s =
     first_row (\<lambda>r. ps_id r = i \<and> ps_tenant_id r = t \<and> ps_environment r = e) (t_pairing s)"

record stored_commitment =
  sc_id :: uuid
  sc_did_hash :: string
  sc_commitment :: string

text \<open>The text of a member read with the operator; an object or array never equals a DID.\<close>

definition member_text_of :: "json \<Rightarrow> string option" where
  "member_text_of v = (case v of JStr s \<Rightarrow> Some s | JNum n \<Rightarrow> Some (dec_int n)
     | JBool b \<Rightarrow> Some (if b then ''true'' else ''false'') | _ \<Rightarrow> None)"

definition nonempty_member :: "string \<Rightarrow> json \<Rightarrow> string option" where
  "nonempty_member k m = (case jget k m of JStr v \<Rightarrow> if v = [] then None else Some v | _ \<Rightarrow> None)"

definition findUserByDid :: "uuid \<Rightarrow> environment \<Rightarrow> string \<Rightarrow> server \<Rightarrow> stored_commitment option" where
  "findUserByDid t e did s =
     (case first_row (\<lambda>u. us_tenant_id u = t \<and> us_environment u = e
                          \<and> member_text_of (jget ''did'' (us_metadata u)) = Some did)
             (t_users s) of
        None \<Rightarrow> None
      | Some u \<Rightarrow> (case (nonempty_member ''did_hash'' (us_metadata u), nonempty_member ''commitment'' (us_metadata u)) of
            (Some h, Some c) \<Rightarrow> Some \<lparr> sc_id = us_id u, sc_did_hash = h, sc_commitment = c \<rparr>
          | _ \<Rightarrow> None))"

text \<open>\<open>verifierVerify\<close>: unlike the legacy client, a structural fallback of the service is
  refused and an unreachable service is an error of its own.\<close>

definition verifierVerify :: "verifier_mode \<Rightarrow> json \<Rightarrow> json list \<Rightarrow> pairing_error + bool" where
  "verifierVerify mode proof signals = (case mode of
       Inline groth vkey \<Rightarrow> Inr (verifyProofOffChain mode proof signals)
     | Service call \<Rightarrow> (case call proof signals of
           NoReply \<Rightarrow> Inl VerifierUnavailable
         | BadStatus \<Rightarrow> Inl VerifierUnavailable
         | Body v fallback \<Rightarrow> Inr (if fallback then False else v)))"

section \<open>Opening a session\<close>

record session_created =
  cs_id :: uuid
  cs_nonce :: string
  cs_bind_token :: string
  cs_expires_at :: string
  cs_qr_payload :: string

definition pairing_input ::
  "environment \<Rightarrow> actor_type \<Rightarrow> string option \<Rightarrow> string \<Rightarrow> uuid \<Rightarrow> audit_status \<Rightarrow> string \<Rightarrow> json
     \<Rightarrow> audit_input" where
  "pairing_input e ty actor action i status summary meta =
     \<lparr> ai_environment = Some e, ai_actor_type = ty, ai_actor_id = actor, ai_action = action,
       ai_entity_type = ''pairing_session'', ai_entity_id = Some i, ai_status = status,
       ai_summary = summary, ai_metadata = meta \<rparr>"

definition open_session :: "uuid \<Rightarrow> environment \<Rightarrow> time_ms \<Rightarrow> pairing_session \<Rightarrow> bool" where
  "open_session t e now r \<longleftrightarrow> ps_tenant_id r = t \<and> ps_environment r = e \<and> ps_state r = Issued
     \<and> now < ps_expires_at r"

definition session_conflict :: "pairing_session \<Rightarrow> pairing_session \<Rightarrow> bool" where
  "session_conflict r q \<longleftrightarrow> ps_id r = ps_id q
     \<or> (ps_tenant_id r = ps_tenant_id q \<and> ps_nonce_hex r = ps_nonce_hex q)"

definition new_session ::
  "(string \<Rightarrow> string) \<Rightarrow> time_ms \<Rightarrow> uuid \<Rightarrow> nat list \<Rightarrow> string \<Rightarrow> uuid \<Rightarrow> environment \<Rightarrow> uuid option
     \<Rightarrow> string option \<Rightarrow> string option \<Rightarrow> pairing_session" where
  "new_session sha now i nonceBytes bindToken t e key ip ua =
     \<lparr> ps_id = i, ps_tenant_id = t, ps_environment = e, ps_api_key_id = key,
       ps_nonce_hex = bytes_hex nonceBytes, ps_bind_hash = sha bindToken, ps_state = Issued,
       ps_consumed_user_id = None, ps_proof_hash = None, ps_last_error_code = None,
       ps_desktop_ip = ip,
       ps_desktop_user_agent = (case ua of None \<Rightarrow> None | Some u \<Rightarrow> if u = [] then None else Some (take 512 u)),
       ps_failure_count = 0, ps_expires_at = now + SESSION_TTL_MS, ps_consumed_at = None,
       ps_created_at = now \<rparr>"

definition createSession ::
  "(string \<Rightarrow> string) \<Rightarrow> string \<Rightarrow> time_ms \<Rightarrow> uuid \<Rightarrow> nat list \<Rightarrow> string \<Rightarrow> uuid \<Rightarrow> environment
     \<Rightarrow> uuid option \<Rightarrow> string option \<Rightarrow> string option \<Rightarrow> server
     \<Rightarrow> (pairing_error + session_created) \<times> server" where
  "createSession sha domain now i nonceBytes bindToken t e key ip ua s =
     (if MAX_PENDING_SESSIONS_PER_TENANT \<le> length (filter (open_session t e now) (t_pairing s))
      then (Inl TooManyPendingSessions, s)
      else (let row = new_session sha now i nonceBytes bindToken t e key ip ua;
                nonceHex = bytes_hex nonceBytes;
                qrPayload = buildQrPayload sha i nonceHex domain
        in if list_ex (session_conflict row) (t_pairing s) then (Inl InternalError, s)
           else (Inr \<lparr> cs_id = i, cs_nonce = nonceHex, cs_bind_token = bindToken,
                       cs_expires_at = iso_string (now + SESSION_TTL_MS), cs_qr_payload = qrPayload \<rparr>,
                 recordAuditEvent sha now t
                   (pairing_input e (if key = None \<or> key = Some [] then ActorConsole else ActorApiKey) key
                      ''pairing.created'' i AuditSuccess ''Pairing session opened''
                      (JObj [(''qrPayloadBytes'', JNum (int (length qrPayload)))]))
                   (s\<lparr>t_pairing := t_pairing s @ [row]\<rparr>))))"

section \<open>Submitting a proof\<close>

record pairing_config =
  pc_sha :: "string \<Rightarrow> string"
  pc_poseidon :: "int \<Rightarrow> int \<Rightarrow> int"
  pc_mode :: verifier_mode
  pc_policy_readable :: bool

record submit_call =
  sb_session :: uuid
  sb_tenant :: uuid
  sb_env :: environment
  sb_did :: string
  sb_proof :: json
  sb_signals :: json
  sb_meta :: json
  sb_token :: "string option"
  sb_correlation :: uuid
  sb_session_uuid :: uuid
  sb_now :: time_ms
  sb_later :: time_ms

text \<open>The claims \<open>issueTokens\<close> signs.\<close>

record token_claims =
  tk_sub :: uuid
  tk_session_id :: uuid
  tk_provider :: string
  tk_verified :: bool
  tk_did :: string

record submit_result =
  sr_session :: session_view
  sr_verification_id :: uuid
  sr_tokens :: token_claims

definition check_state :: "time_ms \<Rightarrow> pairing_session \<Rightarrow> pairing_error option" where
  "check_state now row =
     (if ps_state row = Consumed then Some PairingSessionAlreadyBound
      else if ps_state row = Failed \<or> MAX_FAILURES_BEFORE_LOCK \<le> ps_failure_count row
      then Some PairingSessionLocked
      else if ps_expires_at row \<le> now then Some PairingSessionExpired
      else None)"

definition bind_matches :: "(string \<Rightarrow> string) \<Rightarrow> string \<Rightarrow> pairing_session \<Rightarrow> bool" where
  "bind_matches sha token row = (hex_bytes (sha token) = hex_bytes (ps_bind_hash row))"

text \<open>Checks 5 to 7.\<close>

definition check_signals ::
  "(int \<Rightarrow> int \<Rightarrow> int) \<Rightarrow> pairing_session \<Rightarrow> stored_commitment \<Rightarrow> json \<Rightarrow> pairing_error option" where
  "check_signals poseidon row user signals =
     (case array_of signals of
        Some [s0, s1, s2] \<Rightarrow>
          (case (parseBigIntFromSignal s0, parseBigIntFromSignal (JStr (sc_commitment user))) of
             (Some signalCommitment, Some storedCommitment) \<Rightarrow>
               if \<not> timingSafeBigIntEqual signalCommitment storedCommitment then Some PairingDidUnknown
               else (case parseBigIntFromSignal (JStr (sc_did_hash user)) of
                   None \<Rightarrow> Some PairingProofInvalid
                 | Some didHash \<Rightarrow> (case nonceHexToField (ps_nonce_hex row) of
                       None \<Rightarrow> Some InternalError
                     | Some nonceField \<Rightarrow> (case parseBigIntFromSignal s1 of
                           None \<Rightarrow> Some PairingProofInvalid
                         | Some sig \<Rightarrow>
                             if timingSafeBigIntEqual sig (poseidon didHash nonceField) then None
                             else Some PairingNonceMismatch)))
           | _ \<Rightarrow> Some PairingProofInvalid)
      | _ \<Rightarrow> Some PairingProofInvalid)"

definition claim_row :: "uuid \<times> time_ms \<Rightarrow> pairing_session \<Rightarrow> pairing_session" where
  "claim_row a row = row\<lparr>ps_state := Consumed, ps_consumed_user_id := Some (fst a),
     ps_consumed_at := Some (snd a)\<rparr>"

definition set_proof_hash :: "string \<Rightarrow> pairing_session \<Rightarrow> pairing_session" where
  "set_proof_hash h row = row\<lparr>ps_proof_hash := Some h\<rparr>"

definition submit_audit ::
  "(string \<Rightarrow> string) \<Rightarrow> submit_call \<Rightarrow> string \<Rightarrow> audit_status \<Rightarrow> string \<Rightarrow> json \<Rightarrow> server \<Rightarrow> server" where
  "submit_audit sha c action status summary meta s =
     recordAuditEvent sha (sb_later c) (sb_tenant c)
       (pairing_input (sb_env c) ActorApiKey None action (sb_session c) status summary meta) s"

text \<open>Checks 9 and 10: the atomic consume, the token claims and the awaited audit row.\<close>

definition consume ::
  "pairing_config \<Rightarrow> submit_call \<Rightarrow> stored_commitment \<Rightarrow> server \<Rightarrow> (pairing_error + submit_result) \<times> server" where
  "consume cfg c user s =
     (let sha = pc_sha cfg; P = (\<lambda>r. ps_id r = sb_session c \<and> ps_state r = Issued);
          upd = claim_row (sc_id user, sb_later c)
      in case returning P upd (t_pairing s) of
           [] \<Rightarrow> (Inl PairingSessionAlreadyBound,
                 submit_audit sha c ''pairing.race_lost'' AuditFailure
                   ''Lost the single-use UPDATE race'' JUndef s)
         | row # _ \<Rightarrow>
             (let proofHash = sha (or_else '''' (stringify (sb_proof c)));
                  s1 = s\<lparr>t_pairing := update_rows P upd (t_pairing s)\<rparr>;
                  s2 = s1\<lparr>t_pairing := update_rows (\<lambda>r. ps_id r = sb_session c) (set_proof_hash proofHash) (t_pairing s1)\<rparr>;
                  s3 = submit_audit sha c ''pairing.claimed'' AuditSuccess
                    (''Pairing session bound to user '' @ sc_id user)
                    (JObj [(''did_sha256'', JStr (sha (sb_did c))),
                           (''proofMs'', jget ''proofMs'' (sb_meta c)),
                           (''platform'', jget ''platform'' (sb_meta c)),
                           (''playIntegrityVerdict'', jget ''playIntegrityVerdict'' (sb_meta c)),
                           (''correlationId'', JStr (sb_correlation c))]) s2
              in (Inr \<lparr> sr_session = (rowToPublicView row)\<lparr>sv_user_id := Some (sc_id user), sv_did := Some (sb_did c)\<rparr>,
                        sr_verification_id = sb_session_uuid c,
                        sr_tokens = \<lparr> tk_sub = sc_id user, tk_session_id = sb_session_uuid c,
                                      tk_provider = ''zkp'', tk_verified = True, tk_did = sb_did c \<rparr> \<rparr>, s3)))"

definition policy_member :: "string \<Rightarrow> json \<Rightarrow> string \<times> json" where
  "policy_member k policy = (k, (let v = jget k policy in if v = JUndef \<or> v = JNull then JBool False else v))"

text \<open>\<open>meanwhile\<close> is the effect of the requests served while this one awaits the verifier.\<close>

definition submit_checks ::
  "pairing_config \<Rightarrow> submit_call \<Rightarrow> (server \<Rightarrow> server) \<Rightarrow> server \<Rightarrow> (pairing_error + submit_result) \<times> server" where
  "submit_checks cfg c meanwhile s =
     (let sha = pc_sha cfg in
      case loadSessionRow (sb_session c) (sb_tenant c) (sb_env c) s of
        None \<Rightarrow> (Inl PairingSessionNotFound,
          if list_ex (\<lambda>r. ps_id r = sb_session c) (t_pairing s)
          then submit_audit sha c ''pairing.cross_tenant_blocked'' AuditFailure
                 ''Pairing session id belongs to another tenant'' JUndef s
          else s)
      | Some row \<Rightarrow>
     (case check_state (sb_now c) row of
        Some er \<Rightarrow> (Inl er, s)
      | None \<Rightarrow>
         (let policy = loadTenantSecurityPolicy (pc_policy_readable cfg) (sb_tenant c) s;
              presented = jget ''playIntegrityVerdict'' (sb_meta c)
          in case evaluateVerdict presented policy of
        Some er \<Rightarrow> (Inl er,
          submit_audit sha c ''pairing.integrity_rejected'' AuditFailure
            (''Play Integrity rejection: '' @ error_code er)
            (JObj [(''presented_verdict'', if presented = JUndef then JNull else presented),
                   (''policy'', JObj [policy_member ''require_strong_integrity'' policy,
                      policy_member ''require_device_integrity'' policy,
                      policy_member ''require_basic_integrity'' policy,
                      policy_member ''allow_play_integrity_absent'' policy])])
            (snd (incrementFailureCount (sb_session c) (error_code er) s)))
      | None \<Rightarrow>
     (case sb_token c of
        None \<Rightarrow> (Inl PairingSessionBindMismatch, s)
      | Some token \<Rightarrow>
          if token = [] then (Inl PairingSessionBindMismatch, s)
          else if \<not> bind_matches sha token row then
            (Inl PairingSessionBindMismatch,
             submit_audit sha c ''pairing.session_bind_mismatch'' AuditFailure
               ''session_bind cookie mismatch on submit'' JUndef s)
          else
     (case findUserByDid (sb_tenant c) (sb_env c) (sb_did c) s of
        None \<Rightarrow> (Inl PairingDidUnknown, s)
      | Some user \<Rightarrow>
     (case check_signals (pc_poseidon cfg) row user (sb_signals c) of
        Some er \<Rightarrow> (Inl er,
          if er = PairingNonceMismatch
          then submit_audit sha c ''pairing.replay_blocked'' AuditFailure
                 ''publicSignals[1] mismatch - replay or wrong-session proof'' JUndef s
          else s)
      | None \<Rightarrow>
     (case verifierVerify (pc_mode cfg) (sb_proof c) (or_else [] (array_of (sb_signals c))) of
        Inl er \<Rightarrow> (Inl er, s)
      | Inr ok \<Rightarrow> if \<not> ok then (Inl PairingProofInvalid, s)
                   else consume cfg c user (meanwhile s))))))))"

definition counted :: "pairing_error \<Rightarrow> bool" where
  "counted er \<longleftrightarrow> er = PairingSessionBindMismatch \<or> er = PairingDidUnknown
     \<or> er = PairingNonceMismatch \<or> er = PairingProofInvalid"

definition record_failure :: "pairing_config \<Rightarrow> submit_call \<Rightarrow> pairing_error \<Rightarrow> server \<Rightarrow> server" where
  "record_failure cfg c er s =
     (let (fc, s1) = incrementFailureCount (sb_session c) (error_code er) s in
      submit_audit (pc_sha cfg) c ''pairing.failed'' AuditFailure (''Submit failed: '' @ error_code er)
        (JObj [(''failureCount'', JNum (int fc)), (''code'', JStr (error_code er)),
               (''correlationId'', JStr (sb_correlation c))]) s1)"

definition submitProof ::
  "pairing_config \<Rightarrow> submit_call \<Rightarrow> (server \<Rightarrow> server) \<Rightarrow> server \<Rightarrow> (pairing_error + submit_result) \<times> server" where
  "submitProof cfg c meanwhile s =
     (case submit_checks cfg c meanwhile s of
        (Inl er, s') \<Rightarrow> (Inl er, if counted er then record_failure cfg c er s' else s')
      | (Inr r, s') \<Rightarrow> (Inr r, s'))"

section \<open>Reading, streaming and expiry\<close>

definition getSessionPublicMinimal :: "uuid \<Rightarrow> server \<Rightarrow> (uuid \<times> pairing_state \<times> string) option" where
  "getSessionPublicMinimal i s = (case first_row (\<lambda>r. ps_id r = i) (t_pairing s) of
       None \<Rightarrow> None | Some r \<Rightarrow> Some (ps_id r, ps_state r, iso_string (ps_expires_at r)))"

definition gated_row ::
  "(string \<Rightarrow> string) \<Rightarrow> uuid \<Rightarrow> uuid \<Rightarrow> environment \<Rightarrow> string option \<Rightarrow> server \<Rightarrow> pairing_error + pairing_session" where
  "gated_row sha i t e token s = (case loadSessionRow i t e s of
       None \<Rightarrow> Inl PairingSessionNotFound
     | Some row \<Rightarrow> (case token of
           None \<Rightarrow> Inl PairingSessionBindMismatch
         | Some tok \<Rightarrow> if tok = [] \<or> \<not> bind_matches sha tok row then Inl PairingSessionBindMismatch
                        else Inr row))"

definition getSession ::
  "(string \<Rightarrow> string) \<Rightarrow> uuid \<Rightarrow> uuid \<Rightarrow> environment \<Rightarrow> string option \<Rightarrow> server \<Rightarrow> pairing_error + session_view" where
  "getSession sha i t e token s = (case gated_row sha i t e token s of
       Inl er \<Rightarrow> Inl er | Inr row \<Rightarrow> Inr (rowToPublicView row))"

datatype stream_event =
    SessionCreated session_view | SessionBound session_view | SessionExpiredEvent session_view
  | SessionErrorEvent uuid string

text \<open>One poll: the clock of the loop test, the clock after the wait and the database the query sees
  (\<open>None\<close> when it failed).\<close>

type_synonym poll = "time_ms \<times> time_ms \<times> server option"

fun poll_stream ::
  "uuid \<Rightarrow> uuid \<Rightarrow> environment \<Rightarrow> time_ms \<Rightarrow> poll list \<Rightarrow> stream_event list" where
  "poll_stream i t e deadline [] = []"
| "poll_stream i t e deadline ((before, after, db) # ps) =
     (if deadline \<le> before then []
      else (case (case db of None \<Rightarrow> None | Some s \<Rightarrow> loadSessionRow i t e s) of
          None \<Rightarrow> [SessionErrorEvent i ''pairing_session_not_found'']
        | Some row \<Rightarrow> (case ps_state row of
              Consumed \<Rightarrow> [SessionBound (rowToPublicView row)]
            | Expired \<Rightarrow> [SessionExpiredEvent (rowToPublicView row)]
            | Failed \<Rightarrow> [SessionErrorEvent i (or_else ''pairing_failed'' (ps_last_error_code row))]
            | Issued \<Rightarrow> if ps_expires_at row \<le> after then [SessionExpiredEvent (rowToPublicView row)]
                        else poll_stream i t e deadline ps)))"

definition subscribeStream ::
  "(string \<Rightarrow> string) \<Rightarrow> uuid \<Rightarrow> uuid \<Rightarrow> environment \<Rightarrow> string option \<Rightarrow> time_ms \<Rightarrow> server \<Rightarrow> poll list
     \<Rightarrow> pairing_error + stream_event list" where
  "subscribeStream sha i t e token now s polls = (case gated_row sha i t e token s of
       Inl er \<Rightarrow> Inl er
     | Inr row \<Rightarrow> Inr (SessionCreated (rowToPublicView row) #
         (if ps_state row \<noteq> Issued
          then [(if ps_state row = Consumed then SessionBound else SessionExpiredEvent) (rowToPublicView row)]
          else poll_stream i t e (now + STREAM_MAX_LIFETIME_MS) polls)))"

definition overdue :: "time_ms \<Rightarrow> pairing_session \<Rightarrow> bool" where
  "overdue now r \<longleftrightarrow> ps_state r = Issued \<and> ps_expires_at r < now"

definition expire_row :: "unit \<Rightarrow> pairing_session \<Rightarrow> pairing_session" where
  "expire_row _ r = r\<lparr>ps_state := Expired, ps_last_error_code := Some ''pairing_session_expired''\<rparr>"

definition expireOverdueSessions :: "(string \<Rightarrow> string) \<Rightarrow> time_ms \<Rightarrow> server \<Rightarrow> uuid list \<times> server" where
  "expireOverdueSessions sha now s =
     (let rows = returning (overdue now) (expire_row ()) (t_pairing s);
          s1 = s\<lparr>t_pairing := update_rows (overdue now) (expire_row ()) (t_pairing s)\<rparr>
      in (map ps_id rows, fold (\<lambda>r. recordAuditEvent sha now (ps_tenant_id r)
            (pairing_input (ps_environment r) ActorSystem None ''pairing.expired'' (ps_id r) AuditFailure
               ''Pairing session expired without consumption'' JUndef)) rows s1))"

section \<open>The life cycle of a session\<close>

definition session_ok :: "pairing_session \<Rightarrow> bool" where
  "session_ok r \<longleftrightarrow> (ps_state r = Failed \<longleftrightarrow> MAX_FAILURES_BEFORE_LOCK \<le> ps_failure_count r)
     \<and> (ps_state r = Consumed \<longleftrightarrow> ps_consumed_user_id r \<noteq> None)
     \<and> (ps_state r = Consumed \<longleftrightarrow> ps_consumed_at r \<noteq> None)"

definition session_evolves :: "pairing_session \<Rightarrow> pairing_session \<Rightarrow> bool" where
  "session_evolves r q \<longleftrightarrow> ps_id q = ps_id r \<and> ps_tenant_id q = ps_tenant_id r
     \<and> ps_environment q = ps_environment r \<and> ps_nonce_hex q = ps_nonce_hex r
     \<and> ps_bind_hash q = ps_bind_hash r \<and> ps_expires_at q = ps_expires_at r
     \<and> (ps_state r \<noteq> Issued \<longrightarrow> ps_state q = ps_state r)
     \<and> (ps_state r = Consumed \<longrightarrow> ps_consumed_user_id q = ps_consumed_user_id r
          \<and> ps_consumed_at q = ps_consumed_at r)
     \<and> ps_failure_count r \<le> ps_failure_count q"

interpretation sessions: row_history ps_id session_ok session_evolves
  by unfold_locales (auto simp: session_evolves_def)

interpretation failure_update: keyed_update ps_id bump_failure
  by unfold_locales (simp add: bump_failure_def)

interpretation claim_update: keyed_update ps_id claim_row
  by unfold_locales (simp add: claim_row_def)

interpretation proof_hash_update: keyed_update ps_id set_proof_hash
  by unfold_locales (simp add: set_proof_hash_def)

interpretation expire_update: keyed_update ps_id expire_row
  by unfold_locales (simp add: expire_row_def)

definition pairing_inv :: "server \<Rightarrow> bool" where
  "pairing_inv s \<longleftrightarrow> table_ok ps_id session_ok (t_pairing s)"

definition pairing_extends :: "server \<Rightarrow> server \<Rightarrow> bool" where
  "pairing_extends s s' \<longleftrightarrow> table_extends session_evolves (t_pairing s) (t_pairing s')"

text \<open>A change that keeps the invariant and loses no history.\<close>

definition pairing_sound :: "server \<Rightarrow> server \<Rightarrow> bool" where
  "pairing_sound s s' \<longleftrightarrow> (pairing_inv s \<longrightarrow> pairing_inv s' \<and> pairing_extends s s')"

lemma pairing_inv_empty: "pairing_inv empty_server"
  by (simp add: pairing_inv_def empty_server_def)

lemma sound_refl: "t_pairing s' = t_pairing s \<Longrightarrow> pairing_sound s s'"
  by (simp add: pairing_sound_def pairing_inv_def pairing_extends_def sessions.extends_refl)

lemma sound_trans: "pairing_sound s s1 \<Longrightarrow> pairing_sound s1 s2 \<Longrightarrow> pairing_sound s s2"
  unfolding pairing_sound_def pairing_extends_def using sessions.extends_trans by blast

lemma sound_rows:
  assumes "\<And>r. r \<in> set (t_pairing s) \<Longrightarrow> P r \<Longrightarrow> session_ok r \<Longrightarrow> session_evolves r (f r) \<and> session_ok (f r)"
    and "t_pairing s' = update_rows P f (t_pairing s)"
  shows "pairing_sound s s'"
  unfolding pairing_sound_def pairing_inv_def pairing_extends_def assms(2)
  using sessions.update_history [of "t_pairing s" P f] assms(1) by blast

lemma sound_audit: "pairing_sound s s' \<Longrightarrow> pairing_sound s (recordAuditEvent sha now t a s')"
  using sound_trans [OF _ sound_refl] by simp

lemma sound_submit_audit: "pairing_sound s s' \<Longrightarrow> pairing_sound s (submit_audit sha c act st sm m s')"
  unfolding submit_audit_def by (rule sound_audit)

lemma t_pairing_submit_audit [simp]: "t_pairing (submit_audit sha c act st sm m s) = t_pairing s"
  by (simp add: submit_audit_def)

lemma sound_increment: "pairing_sound s (snd (incrementFailureCount i code s))"
  by (rule sound_rows [where P = "bumpable i" and f = "bump_failure code"])
    (auto simp: incrementFailureCount_def session_evolves_def session_ok_def bump_failure_def bumpable_def
      MAX_FAILURES_BEFORE_LOCK_def)

lemma sound_create: "pairing_sound s (snd (createSession sha domain now i nb tok t e key ip ua s))"
proof (cases "t_pairing (snd (createSession sha domain now i nb tok t e key ip ua s)) = t_pairing s")
  case True
  then show ?thesis by (rule sound_refl)
next
  case False
  let ?r = "new_session sha now i nb tok t e key ip ua"
  have t: "t_pairing (snd (createSession sha domain now i nb tok t e key ip ua s)) = t_pairing s @ [?r]"
    and "\<not> list_ex (session_conflict ?r) (t_pairing s)"
    using False by (auto simp: createSession_def Let_def split: if_splits)
  then have "ps_id ?r \<notin> ps_id ` set (t_pairing s)"
    by (auto simp: list_ex_iff session_conflict_def)
  moreover have "session_ok ?r"
    by (simp add: session_ok_def new_session_def MAX_FAILURES_BEFORE_LOCK_def)
  ultimately show ?thesis
    unfolding pairing_sound_def pairing_inv_def pairing_extends_def t using sessions.insert_history by blast
qed

lemma sound_consume: "pairing_sound s (snd (consume cfg c user s))"
proof -
  define P :: "pairing_session \<Rightarrow> bool" where "P = (\<lambda>r. ps_id r = sb_session c \<and> ps_state r = Issued)"
  define upd :: "pairing_session \<Rightarrow> pairing_session" where "upd = claim_row (sc_id user, sb_later c)"
  define s1 where "s1 = s\<lparr>t_pairing := update_rows P upd (t_pairing s)\<rparr>"
  define h where "h = pc_sha cfg (or_else '''' (stringify (sb_proof c)))"
  have 1: "pairing_sound s s1"
    by (rule sound_rows [where P = P and f = upd])
      (auto simp: s1_def P_def upd_def claim_row_def session_evolves_def session_ok_def)
  have 2: "pairing_sound s1 (s1\<lparr>t_pairing := update_rows (\<lambda>r. ps_id r = sb_session c) (set_proof_hash h) (t_pairing s1)\<rparr>)"
    by (rule sound_rows [where P = "\<lambda>r. ps_id r = sb_session c" and f = "set_proof_hash h"])
      (auto simp: set_proof_hash_def session_evolves_def session_ok_def)
  show ?thesis
  proof (cases "returning P upd (t_pairing s)")
    case Nil
    then have "t_pairing (snd (consume cfg c user s)) = t_pairing s"
      by (simp add: consume_def Let_def P_def upd_def)
    then show ?thesis by (rule sound_refl)
  next
    case (Cons r rs)
    then have "t_pairing (snd (consume cfg c user s)) =
        t_pairing (s1\<lparr>t_pairing := update_rows (\<lambda>r. ps_id r = sb_session c) (set_proof_hash h) (t_pairing s1)\<rparr>)"
      by (simp add: consume_def Let_def P_def upd_def s1_def h_def)
    then show ?thesis using sound_trans [OF sound_trans [OF 1 2] sound_refl] by blast
  qed
qed

lemma sound_checks:
  assumes "pairing_sound s (meanwhile s)"
  shows "pairing_sound s (snd (submit_checks cfg c meanwhile s))"
proof -
  have c: "pairing_sound s (snd (consume cfg c user (meanwhile s)))" for user
    by (rule sound_trans [OF assms sound_consume])
  have i: "pairing_sound s s" by (rule sound_refl) simp
  show ?thesis
    unfolding submit_checks_def Let_def
    by (simp add: c i sound_submit_audit sound_increment split: option.split sum.split)
qed

lemma sound_submit:
  assumes "pairing_sound s (meanwhile s)"
  shows "pairing_sound s (snd (submitProof cfg c meanwhile s))"
proof -
  obtain x s1 where x: "submit_checks cfg c meanwhile s = (x, s1)" by fastforce
  have "pairing_sound s (snd (submit_checks cfg c meanwhile s))" by (rule sound_checks) (rule assms)
  then have s1: "pairing_sound s s1" using x by simp
  have "pairing_sound s (record_failure cfg c er s1)" for er
    unfolding record_failure_def case_prod_beta Let_def
    by (intro sound_submit_audit sound_trans [OF s1] sound_increment)
  then show ?thesis using x s1 by (cases x) (simp_all add: submitProof_def)
qed

lemma fold_audit_pairing:
  "t_pairing (fold (\<lambda>r. recordAuditEvent sha now (f r) (g r)) rows s) = t_pairing s"
  by (induction rows arbitrary: s) simp_all

lemma expire_pairing:
  "t_pairing (snd (expireOverdueSessions sha now s)) = update_rows (overdue now) (expire_row ()) (t_pairing s)"
  by (simp add: expireOverdueSessions_def Let_def fold_audit_pairing)

lemma sound_expire: "pairing_sound s (snd (expireOverdueSessions sha now s))"
  by (rule sound_rows [OF _ expire_pairing])
    (auto simp: overdue_def expire_row_def session_evolves_def session_ok_def)

text \<open>The steps that may interleave: sessions opened, proofs submitted (themselves interleaved with
  other steps while they await the verifier), the sweep, and any operation of another service.\<close>

inductive pairing_step :: "pairing_config \<Rightarrow> server \<Rightarrow> server \<Rightarrow> bool" for cfg where
  pair_open: "pairing_step cfg s (snd (createSession (pc_sha cfg) domain now i nb tok t e key ip ua s))"
| pair_submit: "(pairing_step cfg)\<^sup>*\<^sup>* s (meanwhile s) \<Longrightarrow> pairing_step cfg s (snd (submitProof cfg c meanwhile s))"
| pair_sweep: "pairing_step cfg s (snd (expireOverdueSessions (pc_sha cfg) now s))"
| pair_other: "t_pairing s' = t_pairing s \<Longrightarrow> pairing_step cfg s s'"

lemma pairing_step_sound: "pairing_step cfg s s' \<Longrightarrow> pairing_sound s s'"
proof (induction rule: pairing_step.induct)
  case (pair_submit s meanwhile c)
  have "pairing_sound s (meanwhile s)"
    using pair_submit.IH
  proof (induction rule: rtranclp_induct)
    case (step s1 s2)
    then show ?case using sound_trans by blast
  qed (simp add: sound_refl)
  then show ?case by (rule sound_submit)
qed (simp_all add: sound_create sound_expire sound_refl)

lemma pairing_steps_sound: "(pairing_step cfg)\<^sup>*\<^sup>* s s' \<Longrightarrow> pairing_sound s s'"
  by (induction rule: rtranclp_induct) (auto intro: sound_refl sound_trans pairing_step_sound)

section \<open>What a submission must satisfy\<close>

definition signals_bound :: "(int \<Rightarrow> int \<Rightarrow> int) \<Rightarrow> pairing_session \<Rightarrow> stored_commitment \<Rightarrow> json \<Rightarrow> bool" where
  "signals_bound poseidon row user signals \<longleftrightarrow> (\<exists>x y z a b h n d. signals = JArr [x, y, z] \<and>
     parseBigIntFromSignal x = Some a \<and> parseBigIntFromSignal (JStr (sc_commitment user)) = Some b \<and>
     timingSafeBigIntEqual a b \<and>
     parseBigIntFromSignal (JStr (sc_did_hash user)) = Some h \<and>
     nonceHexToField (ps_nonce_hex row) = Some n \<and> parseBigIntFromSignal y = Some d \<and>
     timingSafeBigIntEqual d (poseidon h n))"

lemma three_signals:
  assumes "length vs \<noteq> 3"
  shows "check_signals poseidon row user (JArr vs) = Some PairingProofInvalid"
proof -
  have "\<And>a b c. vs \<noteq> [a, b, c]" using assms by auto
  then show ?thesis by (auto simp: check_signals_def array_of_def split: list.split)
qed

lemma check_signals_ok: "check_signals poseidon row user signals = None \<longleftrightarrow> signals_bound poseidon row user signals"
proof (cases "\<exists>x y z. signals = JArr [x, y, z]")
  case True
  then obtain x y z where s: "signals = JArr [x, y, z]" by blast
  show ?thesis
    unfolding s signals_bound_def
    by (auto simp: check_signals_def array_of_def split: option.split)
next
  case False
  then have "check_signals poseidon row user signals = Some PairingProofInvalid"
  proof (cases signals)
    case (JArr vs)
    have "length vs \<noteq> 3"
    proof
      assume "length vs = 3"
      then obtain x y z where "vs = [x, y, z]" by (auto simp: numeral_3_eq_3 length_Suc_conv)
      with False JArr show False by blast
    qed
    then show ?thesis using JArr three_signals by simp
  qed (simp_all add: check_signals_def array_of_def)
  then show ?thesis using False by (auto simp: signals_bound_def)
qed

definition submit_conditions ::
  "pairing_config \<Rightarrow> submit_call \<Rightarrow> server \<Rightarrow> pairing_session \<Rightarrow> stored_commitment \<Rightarrow> bool" where
  "submit_conditions cfg c s row user \<longleftrightarrow>
     loadSessionRow (sb_session c) (sb_tenant c) (sb_env c) s = Some row \<and>
     ps_state row \<noteq> Consumed \<and> ps_state row \<noteq> Failed \<and>
     ps_failure_count row < MAX_FAILURES_BEFORE_LOCK \<and> sb_now c < ps_expires_at row \<and>
     evaluateVerdict (jget ''playIntegrityVerdict'' (sb_meta c))
       (loadTenantSecurityPolicy (pc_policy_readable cfg) (sb_tenant c) s) = None \<and>
     (\<exists>token. sb_token c = Some token \<and> token \<noteq> [] \<and> bind_matches (pc_sha cfg) token row) \<and>
     findUserByDid (sb_tenant c) (sb_env c) (sb_did c) s = Some user \<and>
     signals_bound (pc_poseidon cfg) row user (sb_signals c) \<and>
     verifierVerify (pc_mode cfg) (sb_proof c) (or_else [] (array_of (sb_signals c))) = Inr True"

definition still_issued :: "uuid \<Rightarrow> server \<Rightarrow> bool" where
  "still_issued i s \<longleftrightarrow> (\<exists>q \<in> set (t_pairing s). ps_id q = i \<and> ps_state q = Issued)"

lemma check_state_None: "check_state now row = None \<longleftrightarrow> ps_state row \<noteq> Consumed \<and> ps_state row \<noteq> Failed
    \<and> ps_failure_count row < MAX_FAILURES_BEFORE_LOCK \<and> now < ps_expires_at row"
  by (auto simp: check_state_def)

lemma checks_pass:
  assumes "submit_conditions cfg c s row user"
  shows "submit_checks cfg c m s = consume cfg c user (m s)"
proof -
  have st: "check_state (sb_now c) row = None"
    using assms by (simp add: submit_conditions_def check_state_None)
  have sg: "check_signals (pc_poseidon cfg) row user (sb_signals c) = None"
    using assms by (simp add: submit_conditions_def check_signals_ok)
  obtain token where "sb_token c = Some token" "token \<noteq> []" "bind_matches (pc_sha cfg) token row"
    using assms by (auto simp: submit_conditions_def)
  then show ?thesis
    using assms st sg by (simp add: submit_checks_def submit_conditions_def Let_def)
qed

lemma checks_success:
  assumes "submit_checks cfg c m s = (Inr r, s')"
  shows "\<exists>row user. submit_conditions cfg c s row user"
proof -
  obtain row where row: "loadSessionRow (sb_session c) (sb_tenant c) (sb_env c) s = Some row"
    using assms by (cases "loadSessionRow (sb_session c) (sb_tenant c) (sb_env c) s")
      (simp_all add: submit_checks_def)
  have st: "check_state (sb_now c) row = None"
    using assms row by (cases "check_state (sb_now c) row") (simp_all add: submit_checks_def)
  let ?ev = "evaluateVerdict (jget ''playIntegrityVerdict'' (sb_meta c))
      (loadTenantSecurityPolicy (pc_policy_readable cfg) (sb_tenant c) s)"
  have ev: "?ev = None"
    using assms row st by (cases ?ev) (simp_all add: submit_checks_def Let_def)
  obtain token where tok: "sb_token c = Some token" "token \<noteq> []" "bind_matches (pc_sha cfg) token row"
    using assms row st ev by (cases "sb_token c") (auto simp: submit_checks_def Let_def split: if_splits)
  obtain user where user: "findUserByDid (sb_tenant c) (sb_env c) (sb_did c) s = Some user"
    using assms row st ev tok by (cases "findUserByDid (sb_tenant c) (sb_env c) (sb_did c) s")
      (simp_all add: submit_checks_def Let_def)
  let ?cs = "check_signals (pc_poseidon cfg) row user (sb_signals c)"
  have sg: "?cs = None"
    using assms row st ev tok user by (cases ?cs) (simp_all add: submit_checks_def Let_def)
  let ?v = "verifierVerify (pc_mode cfg) (sb_proof c) (or_else [] (array_of (sb_signals c)))"
  have "?v = Inr True"
    using assms row st ev tok user sg
    by (cases ?v) (auto simp: submit_checks_def Let_def split: if_splits)
  then show ?thesis
    using row st ev tok user sg by (auto simp: submit_conditions_def check_state_None check_signals_ok)
qed

lemma consume_result:
  "(\<exists>r. fst (consume cfg c user s) = Inr r) \<longleftrightarrow> still_issued (sb_session c) s"
proof -
  have "returning (\<lambda>r. ps_id r = sb_session c \<and> ps_state r = Issued) u (t_pairing s) = []
      \<longleftrightarrow> \<not> still_issued (sb_session c) s" for u :: "pairing_session \<Rightarrow> pairing_session"
    by (auto simp: returning_eq_Nil_iff still_issued_def)
  from this [of "claim_row (sc_id user, sb_later c)"] show ?thesis
    by (cases "returning (\<lambda>r. ps_id r = sb_session c \<and> ps_state r = Issued)
        (claim_row (sc_id user, sb_later c)) (t_pairing s)") (simp_all add: consume_def Let_def)
qed

lemma consume_success:
  assumes "consume cfg c user s = (Inr r, s')"
  shows "sr_tokens r = \<lparr> tk_sub = sc_id user, tk_session_id = sb_session_uuid c, tk_provider = ''zkp'',
      tk_verified = True, tk_did = sb_did c \<rparr>"
    and "\<forall>q \<in> set (t_pairing s'). ps_id q = sb_session c \<longrightarrow> ps_state q \<noteq> Issued"
    and "\<exists>q \<in> set (t_pairing s'). ps_id q = sb_session c \<and> ps_state q = Consumed
      \<and> ps_consumed_user_id q = Some (sc_id user)"
proof -
  define P :: "pairing_session \<Rightarrow> bool" where "P = (\<lambda>r. ps_id r = sb_session c \<and> ps_state r = Issued)"
  define upd :: "pairing_session \<Rightarrow> pairing_session" where "upd = claim_row (sc_id user, sb_later c)"
  define h where "h = pc_sha cfg (or_else '''' (stringify (sb_proof c)))"
  obtain row rows where rows: "returning P upd (t_pairing s) = row # rows"
    using assms by (cases "returning P upd (t_pairing s)") (simp_all add: consume_def Let_def P_def upd_def)
  have t: "t_pairing s' = update_rows (\<lambda>r. ps_id r = sb_session c) (set_proof_hash h)
      (update_rows P upd (t_pairing s))"
    using assms rows by (auto simp: consume_def Let_def P_def upd_def h_def)
  show "sr_tokens r = \<lparr> tk_sub = sc_id user, tk_session_id = sb_session_uuid c, tk_provider = ''zkp'',
      tk_verified = True, tk_did = sb_did c \<rparr>"
    using assms rows by (auto simp: consume_def Let_def P_def upd_def)
  have "\<not> (ps_id q = sb_session c \<and> ps_state q = Issued)" if "q \<in> set (t_pairing s')" for q
    using that unfolding t
    by (auto elim!: in_update_rowsE simp: set_proof_hash_def P_def upd_def claim_row_def)
  then show "\<forall>q \<in> set (t_pairing s'). ps_id q = sb_session c \<longrightarrow> ps_state q \<noteq> Issued" by blast
  have "row \<in> set (returning P upd (t_pairing s))" using rows by simp
  then obtain q where q: "q \<in> set (t_pairing s)" "P q" by (auto simp: returning_def)
  then have "set_proof_hash h (upd q) \<in> set (t_pairing s')"
    unfolding t by (force simp: set_update_rows P_def upd_def claim_row_def)
  then show "\<exists>q \<in> set (t_pairing s'). ps_id q = sb_session c \<and> ps_state q = Consumed
      \<and> ps_consumed_user_id q = Some (sc_id user)"
    using q(2) by (intro bexI) (auto simp: set_proof_hash_def P_def upd_def claim_row_def)
qed

lemma conditions_unique:
  "submit_conditions cfg c s row user \<Longrightarrow> submit_conditions cfg c s row' user' \<Longrightarrow> row = row' \<and> user = user'"
  by (simp add: submit_conditions_def)

lemma submit_success_iff:
  "(\<exists>r. fst (submitProof cfg c m s) = Inr r) \<longleftrightarrow>
     (\<exists>row user. submit_conditions cfg c s row user) \<and> still_issued (sb_session c) (m s)"
proof -
  have eq: "(\<exists>r. fst (submitProof cfg c m s) = Inr r) \<longleftrightarrow> (\<exists>r. fst (submit_checks cfg c m s) = Inr r)"
    by (auto simp: submitProof_def split: prod.split sum.split)
  show ?thesis
  proof (cases "\<exists>row user. submit_conditions cfg c s row user")
    case True
    then obtain row user where "submit_conditions cfg c s row user" by blast
    then show ?thesis unfolding eq using checks_pass consume_result by metis
  next
    case False
    then show ?thesis unfolding eq using checks_success by (metis prod.collapse)
  qed
qed

lemma submit_success_consumes:
  assumes "submitProof cfg c m s = (Inr r, s')"
  obtains row user where "submit_conditions cfg c s row user" "consume cfg c user (m s) = (Inr r, s')"
proof -
  have ck: "submit_checks cfg c m s = (Inr r, s')"
    using assms by (auto simp: submitProof_def split: prod.splits sum.splits)
  then obtain row user where c: "submit_conditions cfg c s row user" using checks_success by blast
  with ck checks_pass [OF c] that show ?thesis by metis
qed

section \<open>A concrete session\<close>

definition demo_config :: pairing_config where
  "demo_config = \<lparr> pc_sha = rev, pc_poseidon = (\<lambda>a b. a + b),
     pc_mode = Inline (\<lambda>_ _ _. Some True) (Some ''k''), pc_policy_readable = True \<rparr>"

definition demo_call :: submit_call where
  "demo_call = \<lparr> sb_session = ''i'', sb_tenant = ''t'', sb_env = Live, sb_did = ''did:x'', sb_proof = JObj [],
     sb_signals = JArr [JStr ''7'', JStr ''5'', JStr ''0''], sb_meta = JUndef, sb_token = Some ''tok'',
     sb_correlation = ''c'', sb_session_uuid = ''u'', sb_now = 1, sb_later = 2 \<rparr>"

definition demo_row :: pairing_session where
  "demo_row = new_session rev 0 ''i'' (replicate 31 0) ''tok'' ''t'' Live None None None"

definition demo_user :: tenant_user where
  "demo_user = (new_user 0 ''u1'' ''w'' ''t'' Live
     \<lparr> ui_external_id = Some ''x'', ui_full_name = ''n'', ui_email = None, ui_phone = None,
       ui_employee_code = None, ui_primary_device = None,
       ui_metadata = JObj [(''did'', JStr ''did:x''), (''did_hash'', JStr ''5''), (''commitment'', JStr ''7'')] \<rparr> None)"

definition demo_server :: server where
  "demo_server = empty_server\<lparr>t_users := [demo_user], t_pairing := [demo_row]\<rparr>"

lemma demo_parse:
  "parseBigIntFromSignal (JStr ''7'') = Some 7" "parseBigIntFromSignal (JStr ''5'') = Some 5"
  by code_simp+

lemma demo_nonce: "nonceHexToField (ps_nonce_hex demo_row) = Some 0"
  unfolding demo_row_def by code_simp

lemma demo_metadata: "us_metadata demo_user
    = JObj [(''did'', JStr ''did:x''), (''did_hash'', JStr ''5''), (''commitment'', JStr ''7'')]"
  by (simp add: demo_user_def new_user_def sanitizeMetadata_def is_object_def)

lemma demo_policy: "evaluateVerdict v (loadTenantSecurityPolicy True ''t'' demo_server) = None"
  by (simp add: evaluateVerdict_def loadTenantSecurityPolicy_def demo_server_def empty_server_def requiredRank_def
      jget_def truthy_def)

lemma demo_conditions:
  "submit_conditions demo_config demo_call demo_server demo_row
     \<lparr> sc_id = ''u1'', sc_did_hash = ''5'', sc_commitment = ''7'' \<rparr>"
proof -
  have r: "ps_id demo_row = ''i''" "ps_tenant_id demo_row = ''t''" "ps_environment demo_row = Live"
    "ps_state demo_row = Issued" "ps_failure_count demo_row = 0" "ps_expires_at demo_row = 300000"
    "ps_bind_hash demo_row = rev ''tok''"
    by (simp_all add: demo_row_def new_session_def SESSION_TTL_MS_def)
  have u: "us_tenant_id demo_user = ''t''" "us_environment demo_user = Live" "us_id demo_user = ''u1''"
    by (simp_all add: demo_user_def new_user_def)
  have "signals_bound (\<lambda>a b. a + b) demo_row \<lparr> sc_id = ''u1'', sc_did_hash = ''5'', sc_commitment = ''7'' \<rparr>
      (JArr [JStr ''7'', JStr ''5'', JStr ''0''])"
    unfolding signals_bound_def
    by (rule exI [of _ "JStr ''7''"], rule exI [of _ "JStr ''5''"], rule exI [of _ "JStr ''0''"],
        rule exI [of _ 7], rule exI [of _ 7], rule exI [of _ 5], rule exI [of _ 0], rule exI [of _ 5])
      (simp add: demo_parse demo_nonce timingSafeBigIntEqual_def)
  moreover have "loadSessionRow ''i'' ''t'' Live demo_server = Some demo_row"
    by (simp add: loadSessionRow_def demo_server_def r)
  moreover have "findUserByDid ''t'' Live ''did:x'' demo_server
      = Some \<lparr> sc_id = ''u1'', sc_did_hash = ''5'', sc_commitment = ''7'' \<rparr>"
    by (simp add: findUserByDid_def demo_server_def u demo_metadata jget_def member_text_of_def nonempty_member_def)
  moreover have "verifierVerify (Inline (\<lambda>_ _ _. Some True) (Some ''k'')) x y = Inr True" for x y
    by (simp add: verifierVerify_def verifyProofOffChain_def verifyInline_def)
  ultimately show ?thesis
    by (simp add: submit_conditions_def demo_config_def demo_call_def r bind_matches_def MAX_FAILURES_BEFORE_LOCK_def
        demo_policy del: rev.simps)
qed

lemma demo_open: "check_state 1 demo_row = None"
  by (simp add: check_state_def demo_row_def new_session_def SESSION_TTL_MS_def MAX_FAILURES_BEFORE_LOCK_def)

lemma demo_issued: "still_issued (sb_session demo_call) demo_server"
  by (simp add: still_issued_def demo_call_def demo_server_def demo_row_def new_session_def)

lemma demo_inv: "pairing_inv demo_server"
  by (simp add: pairing_inv_def table_ok_def demo_server_def demo_row_def new_session_def session_ok_def
      MAX_FAILURES_BEFORE_LOCK_def)

lemma demo_success: "\<exists>r s'. submitProof demo_config demo_call id demo_server = (Inr r, s')"
proof -
  have "\<exists>r. fst (submitProof demo_config demo_call id demo_server) = Inr r"
    unfolding submit_success_iff using demo_conditions demo_issued by auto
  then show ?thesis by (metis prod.collapse)
qed

section \<open>Properties\<close>

text \<open>Property C1.  Acceptance is exact.  \<open>submitProof\<close> signs the desktop in just when the
  session exists in the tenant environment, is neither consumed nor locked and not expired, the
  integrity policy of the tenant is met, the bind cookie hashes to the stored hash, the DID
  resolves to an enrolled user, the first public signal is the commitment of that user, the
  second is the Poseidon hash of its DID hash with the nonce of this session, the verifier
  accepts the proof, and the session is still open when the verifier has answered; the tokens
  then name that user and DID.\<close>

theorem submit_accepted_iff:
  "case submitProof cfg c meanwhile s of
     (Inl er, s') \<Rightarrow> \<not> ((\<exists>row user. submit_conditions cfg c s row user) \<and> still_issued (sb_session c) (meanwhile s))
   | (Inr r, s') \<Rightarrow> still_issued (sb_session c) (meanwhile s) \<and>
       (\<exists>row user. submit_conditions cfg c s row user \<and>
          sr_tokens r = \<lparr> tk_sub = sc_id user, tk_session_id = sb_session_uuid c, tk_provider = ''zkp'',
            tk_verified = True, tk_did = sb_did c \<rparr> \<and>
          (\<exists>q \<in> set (t_pairing s'). ps_id q = sb_session c \<and> ps_state q = Consumed \<and>
             ps_consumed_user_id q = Some (sc_id user)))"
proof (cases "submitProof cfg c meanwhile s")
  case (Pair res s')
  show ?thesis
  proof (cases res)
    case (Inl er)
    then have "\<not> (\<exists>r. fst (submitProof cfg c meanwhile s) = Inr r)" using Pair by simp
    then have "\<not> ((\<exists>row user. submit_conditions cfg c s row user) \<and> still_issued (sb_session c) (meanwhile s))"
      unfolding submit_success_iff .
    then show ?thesis unfolding Pair Inl prod.case sum.case .
  next
    case (Inr r)
    then have "\<exists>r. fst (submitProof cfg c meanwhile s) = Inr r" using Pair by simp
    then have i: "still_issued (sb_session c) (meanwhile s)" unfolding submit_success_iff by blast
    obtain row user where c: "submit_conditions cfg c s row user" "consume cfg c user (meanwhile s) = (Inr r, s')"
      using submit_success_consumes Pair Inr by blast
    show ?thesis using Pair Inr i c(1) consume_success [OF c(2)] by auto
  qed
qed

text \<open>Property C2.  A session signs in at most one desktop, under any interleaving.  Once one
  submission succeeded, every other submission for the session whose verifier answer arrives
  later fails, whether it started before or after, and whatever other requests, sweeps and
  services ran in between.\<close>

theorem pairing_single_use:
  assumes "pairing_inv s" and "(pairing_step cfg)\<^sup>*\<^sup>* s (m s)" and "submitProof cfg c m s = (Inr r, s1)"
    and "(pairing_step cfg)\<^sup>*\<^sup>* s1 (m' s0)" and "sb_session c' = sb_session c"
  shows "\<exists>er. fst (submitProof cfg c' m' s0) = Inl er"
proof -
  have "pairing_sound s s1"
    using sound_submit [where s = s and meanwhile = m and cfg = cfg and c = c, OF pairing_steps_sound [OF assms(2)]]
      assms(3) by simp
  then have inv1: "pairing_inv s1" using assms(1) by (simp add: pairing_sound_def)
  then have ext: "pairing_inv (m' s0)" "pairing_extends s1 (m' s0)"
    using pairing_steps_sound [OF assms(4)] by (simp_all add: pairing_sound_def)
  obtain row user where k: "consume cfg c user (m s) = (Inr r, s1)"
    using submit_success_consumes [OF assms(3)] by blast
  obtain q where q: "q \<in> set (t_pairing s1)" "ps_id q = sb_session c" "ps_state q = Consumed"
    using consume_success(3) [OF k] by blast
  have "ps_state p \<noteq> Issued" if "p \<in> set (t_pairing (m' s0))" "ps_id p = sb_session c'" for p
  proof -
    have "session_evolves q p"
      by (rule sessions.extended_row [of "t_pairing s1" "t_pairing (m' s0)"])
        (use inv1 ext q that assms(5) in \<open>simp_all add: pairing_inv_def pairing_extends_def\<close>)
    then show ?thesis using q(3) by (simp add: session_evolves_def)
  qed
  then have "\<not> still_issued (sb_session c') (m' s0)" by (auto simp: still_issued_def)
  then have "\<not> (\<exists>r. fst (submitProof cfg c' m' s0) = Inr r)" by (simp add: submit_success_iff)
  then show ?thesis by (cases "fst (submitProof cfg c' m' s0)") auto
qed

theorem pairing_single_use_witness:
  "\<exists>er. fst (submitProof demo_config demo_call id
      (snd (submitProof demo_config demo_call id demo_server))) = Inl er"
proof -
  obtain r s' where run: "submitProof demo_config demo_call id demo_server = (Inr r, s')"
    using demo_success by blast
  have "(pairing_step demo_config)\<^sup>*\<^sup>* s' (id s')" by simp
  with pairing_single_use [OF demo_inv _ run, of id s' demo_call] run show ?thesis by simp
qed

lemma demo_accepted_witness_fact: "\<exists>r. fst (submitProof demo_config demo_call id demo_server) = Inr r"
  using demo_success by (metis fst_conv)

theorem submit_accepted_iff_witness:
  "still_issued ''i'' demo_server \<and> (\<exists>r s'. submitProof demo_config demo_call id demo_server = (Inr r, s'))"
proof -
  obtain r s' where "submitProof demo_config demo_call id demo_server = (Inr r, s')" using demo_success by blast
  with submit_accepted_iff [where cfg = demo_config and c = demo_call and meanwhile = id and s = demo_server]
  show ?thesis
    by (auto simp: demo_call_def)
qed

text \<open>The comparison of the public signals is exact on 256-bit values: two
  integers of at most 64 hexadecimal digits compare equal only when they are equal.\<close>

theorem timing_safe_exact:
  assumes "0 \<le> a" and "a < 16 ^ 64" and "0 \<le> b" and "b < 16 ^ 64"
  shows "timingSafeBigIntEqual a b \<longleftrightarrow> a = b"
proof -
  have "nat a < 16 ^ 64" "nat b < 16 ^ 64" using assms by (simp_all add: nat_less_iff)
  then show ?thesis
    using hex_buffer_inject [of "nat a" "nat b"] assms
    by (simp add: timingSafeBigIntEqual_def hex_int_def eq_nat_nat_iff)
qed

theorem timing_safe_exact_witness: "\<not> timingSafeBigIntEqual 16 17"
  using timing_safe_exact [of 16 17] by simp

text \<open>Beyond 64 digits it is not: a value of 65 hexadecimal digits is read as an
  odd hexadecimal string, whose last digit \<open>Buffer.from\<close> drops, so every commitment whose
  64-digit form has no leading zero compares equal to sixteen larger integers.\<close>

theorem timing_safe_truncates:
  assumes "16 ^ 63 \<le> a" and "a < 16 ^ 64" and "0 \<le> k" and "k < 16"
  shows "timingSafeBigIntEqual (16 * a + k) a \<and> 16 * a + k \<noteq> a"
proof -
  have pos: "(0 :: int) < 16 ^ 63" by simp
  then have a: "0 < a" using assms(1) by linarith
  have n: "16 ^ 63 \<le> nat a" "nat a < 16 ^ 64" "nat k < 16"
    using assms a by (simp_all add: nat_le_iff le_nat_iff nat_less_iff)
  have "nat (16 * a + k) = 16 * nat a + nat k"
    using a assms(3) by (simp add: nat_add_distrib nat_mult_distrib)
  then have "hex_int (16 * a + k) = hex_nat (16 * nat a + nat k)" "hex_int a = hex_nat (nat a)"
    using a assms(3) by (simp_all add: hex_int_def)
  then show ?thesis
    using hex_buffer_truncates [OF n] a assms(3) by (simp add: timingSafeBigIntEqual_def)
qed

theorem timing_safe_truncates_witness: "timingSafeBigIntEqual (16 * 16 ^ 63 + 5) (16 ^ 63)"
  using timing_safe_truncates [of "16 ^ 63" 5] by simp

lemma locked_refused:
  assumes "loadSessionRow (sb_session c) (sb_tenant c) (sb_env c) s = Some q" "ps_state q = Failed"
  shows "submitProof cfg c m s = (Inl PairingSessionLocked, s)"
proof -
  have "check_state (sb_now c) q = Some PairingSessionLocked"
    using assms(2) by (simp add: check_state_def)
  then show ?thesis
    using assms(1) by (simp add: submitProof_def submit_checks_def counted_def)
qed

text \<open>The lock-out: a submission that fails a counted check (bind cookie, unknown
  DID or commitment, wrong nonce, invalid proof) raises the failure counter of its open session by
  exactly one, and locks it at the third; a locked session refuses every further submission
  without touching the database.\<close>

theorem failures_lock_session:
  assumes "pairing_inv s" and "submitProof cfg c m s = (Inl er, s')" and "counted er"
    and "loadSessionRow (sb_session c) (sb_tenant c) (sb_env c) s = Some row" and "ps_state row = Issued"
  shows "\<exists>q. loadSessionRow (sb_session c) (sb_tenant c) (sb_env c) s' = Some q \<and>
      ps_failure_count q = ps_failure_count row + 1 \<and> ps_last_error_code q = Some (error_code er) \<and>
      ps_state q = (if 3 \<le> ps_failure_count row + 1 then Failed else Issued) \<and>
      (3 \<le> ps_failure_count row + 1 \<longrightarrow> submitProof cfg c m' s' = (Inl PairingSessionLocked, s'))"
proof -
  obtain s1 where ck: "submit_checks cfg c m s = (Inl er, s1)"
    using assms(2) by (auto simp: submitProof_def split: prod.splits sum.splits if_splits)
  have "t_pairing s1 = t_pairing s"
    using ck assms(3,4)
    by (auto simp: submit_checks_def Let_def counted_def consume_def check_state_def evaluateVerdict_def
        verifierVerify_def split: option.splits if_splits sum.splits list.splits verifier_mode.splits
        verifier_reply.splits)
  moreover have "s' = record_failure cfg c er s1" using assms(2,3) ck by (simp add: submitProof_def)
  ultimately have t: "t_pairing s' = update_rows (bumpable (sb_session c)) (bump_failure (error_code er)) (t_pairing s)"
    by (simp add: record_failure_def incrementFailureCount_def case_prod_beta Let_def)
  let ?q = "bump_failure (error_code er) row"
  have "ps_id row = sb_session c"
    using first_row_SomeD [OF assms(4) [unfolded loadSessionRow_def]] by blast
  then have "bumpable (sb_session c) row" using assms(5) by (simp add: bumpable_def)
  then have q: "loadSessionRow (sb_session c) (sb_tenant c) (sb_env c) s' = Some ?q"
    unfolding loadSessionRow_def t
    by (intro first_row_update assms(4) [unfolded loadSessionRow_def]) (simp_all add: bump_failure_def)
  have f: "ps_failure_count ?q = ps_failure_count row + 1" "ps_last_error_code ?q = Some (error_code er)"
    "ps_state ?q = (if 3 \<le> ps_failure_count row + 1 then Failed else Issued)"
    using assms(5) by (simp_all add: bump_failure_def MAX_FAILURES_BEFORE_LOCK_def)
  have "submitProof cfg c m' s' = (Inl PairingSessionLocked, s')" if "3 \<le> ps_failure_count row + 1"
    using locked_refused [OF q] f(3) that by simp
  then show ?thesis using q f by blast
qed

theorem failures_lock_session_witness:
  "\<exists>q. loadSessionRow ''i'' ''t'' Live (snd (submitProof demo_config (demo_call\<lparr>sb_token := None\<rparr>) id demo_server)) = Some q
     \<and> ps_failure_count q = 1"
proof -
  have l: "loadSessionRow ''i'' ''t'' Live demo_server = Some demo_row"
    by (simp add: loadSessionRow_def demo_server_def demo_row_def new_session_def)
  have ch: "submit_checks demo_config (demo_call\<lparr>sb_token := None\<rparr>) id demo_server
      = (Inl PairingSessionBindMismatch, demo_server)"
    by (simp add: submit_checks_def demo_call_def demo_config_def l demo_open demo_policy)
  define c where "c = demo_call\<lparr>sb_token := None\<rparr>"
  obtain s' where run: "submitProof demo_config c id demo_server = (Inl PairingSessionBindMismatch, s')"
    using ch by (simp add: submitProof_def c_def)
  have row: "loadSessionRow (sb_session c) (sb_tenant c) (sb_env c) demo_server = Some demo_row"
    using l by (simp add: c_def demo_call_def)
  have "ps_state demo_row = Issued" "ps_failure_count demo_row = 0" by (simp_all add: demo_row_def new_session_def)
  then show ?thesis
    using failures_lock_session [OF demo_inv run _ row, of id] run
    by (auto simp: counted_def c_def demo_call_def)
qed

lemma nonce_field_total:
  assumes "length bs = 31"
  shows "nonceHexToField (bytes_hex bs) \<noteq> None"
proof -
  have h: "\<forall>c \<in> set (bytes_hex bs). is_lower_hex c" using bytes_hex_chars by blast
  have "length (bytes_hex bs) = 62" using assms by simp
  then have "bytes_hex bs \<noteq> []" by (metis list.size(3) zero_neq_numeral)
  then have "from_base 16 (bytes_hex bs) \<noteq> None"
    using from_digits_total [of "bytes_hex bs" 16 0] h digit_val_lower_hex by (auto simp: from_base_def)
  moreover have "list_all is_hex (bytes_hex bs)" using h is_lower_hex_hex by (auto simp: list_all_iff)
  ultimately show ?thesis
    using assms bigint_of_0x [OF h] by (auto simp: nonceHexToField_def)
qed

text \<open>Opening a session: with fifty open sessions in the tenant environment it is
  refused, otherwise it adds one issued session that expires after five minutes, stores only the
  hash of the bind token, carries a nonce that reads back as a field element, and leaves at most
  fifty open sessions.  A refusal changes nothing.\<close>

theorem open_sessions_capped:
  assumes "createSession sha domain now i nb tok t e key ip ua s = (res, s')" and "length nb = 31"
  shows "case res of
      Inl er \<Rightarrow> s' = s \<and> (er = TooManyPendingSessions \<longleftrightarrow> 50 \<le> length (filter (open_session t e now) (t_pairing s)))
    | Inr r \<Rightarrow> length (filter (open_session t e now) (t_pairing s')) =
          length (filter (open_session t e now) (t_pairing s)) + 1 \<and>
        length (filter (open_session t e now) (t_pairing s')) \<le> 50 \<and>
        (\<exists>row. t_pairing s' = t_pairing s @ [row] \<and> open_session t e now row \<and> ps_id row = cs_id r \<and>
           ps_bind_hash row = sha (cs_bind_token r) \<and> ps_nonce_hex row = cs_nonce r \<and>
           ps_expires_at row = now + 300000 \<and> nonceHexToField (ps_nonce_hex row) \<noteq> None)"
proof -
  let ?row = "new_session sha now i nb tok t e key ip ua"
  have row: "open_session t e now ?row" "ps_id ?row = i" "ps_bind_hash ?row = sha tok"
    "ps_nonce_hex ?row = bytes_hex nb" "ps_expires_at ?row = now + 300000"
    by (simp_all add: new_session_def open_session_def SESSION_TTL_MS_def)
  show ?thesis
  proof (cases res)
    case (Inl er)
    then show ?thesis
      using assms(1) by (auto simp: createSession_def Let_def MAX_PENDING_SESSIONS_PER_TENANT_def split: if_splits)
  next
    case (Inr r)
    then have "\<not> 50 \<le> length (filter (open_session t e now) (t_pairing s))"
      "t_pairing s' = t_pairing s @ [?row]" "cs_id r = i" "cs_bind_token r = tok" "cs_nonce r = bytes_hex nb"
      using assms(1) by (auto simp: createSession_def Let_def MAX_PENDING_SESSIONS_PER_TENANT_def split: if_splits)
    then show ?thesis using Inr row nonce_field_total [OF assms(2)] by simp
  qed
qed

theorem open_sessions_capped_witness:
  "length (filter (open_session ''t'' Live 5) (t_pairing (snd (createSession rev ''d'' 5 ''j'' (replicate 31 1) ''tok2''
      ''t'' Live None None None demo_server)))) \<le> 50"
proof -
  obtain res s' where run: "createSession rev ''d'' 5 ''j'' (replicate 31 1) ''tok2'' ''t'' Live None None None demo_server
      = (res, s')" by fastforce
  have "length (filter (open_session ''t'' Live 5) (t_pairing demo_server)) \<le> 1"
    by (simp add: demo_server_def)
  then show ?thesis
    using open_sessions_capped [OF run] run by (cases res) simp_all
qed

text \<open>The event stream: a subscriber with the right cookie first receives the
  current view and then at most one more event, which ends the stream; a bound event always
  carries a consumed session.\<close>

theorem stream_is_short:
  assumes "subscribeStream sha i t e token now s polls = Inr events"
  shows "\<exists>row rest. gated_row sha i t e token s = Inr row \<and> events = SessionCreated (rowToPublicView row) # rest \<and>
    length rest \<le> 1 \<and> (\<forall>v. SessionBound v \<in> set rest \<longrightarrow> sv_state v = Consumed) \<and>
    (ps_state row = Consumed \<longrightarrow> rest = [SessionBound (rowToPublicView row)]) \<and>
    (\<forall>v. SessionCreated v \<notin> set rest)"
proof -
  have one: "length (poll_stream i t e d ps) \<le> 1 \<and>
      (\<forall>v. SessionBound v \<in> set (poll_stream i t e d ps) \<longrightarrow> sv_state v = Consumed) \<and>
      (\<forall>v. SessionCreated v \<notin> set (poll_stream i t e d ps))" for d ps
    by (induction i t e d ps rule: poll_stream.induct)
      (auto simp: rowToPublicView_def split: option.split pairing_state.split)
  obtain row where "gated_row sha i t e token s = Inr row"
    using assms by (auto simp: subscribeStream_def split: sum.splits)
  then show ?thesis
    using assms one [of "now + STREAM_MAX_LIFETIME_MS" polls]
    by (auto simp: subscribeStream_def rowToPublicView_def split: if_splits)
qed

theorem stream_is_short_witness:
  "\<exists>rest. subscribeStream rev ''i'' ''t'' Live (Some ''tok'') 0 demo_server [] =
     Inr (SessionCreated (rowToPublicView demo_row) # rest) \<and> length rest \<le> 1"
proof -
  have g: "gated_row rev ''i'' ''t'' Live (Some ''tok'') demo_server = Inr demo_row"
    by (simp add: gated_row_def loadSessionRow_def demo_server_def demo_row_def new_session_def bind_matches_def)
  obtain events where ev: "subscribeStream rev ''i'' ''t'' Live (Some ''tok'') 0 demo_server [] = Inr events"
    by (simp add: subscribeStream_def g)
  from stream_is_short [OF this] g ev show ?thesis by auto
qed

text \<open>A tenant that requires strong integrity and does not allow its absence: as
  long as its policy can be read, no session is signed in without the strong verdict.\<close>

theorem strong_integrity_enforced:
  assumes "submitProof cfg c m s = (Inr r, s')" and "pc_policy_readable cfg"
    and "first_row (\<lambda>x. tn_id x = sb_tenant c) (t_tenants s) = Some tn" and "is_object (tn_security_policy tn)"
    and "truthy (jget ''require_strong_integrity'' (tn_security_policy tn))"
    and "\<not> truthy (jget ''allow_play_integrity_absent'' (tn_security_policy tn))"
  shows "\<exists>v. jget ''playIntegrityVerdict'' (sb_meta c) = JStr v \<and> trim v = ''MEETS_STRONG_INTEGRITY''"
proof -
  obtain row user where "submit_conditions cfg c s row user"
    using submit_success_consumes [OF assms(1)] by blast
  then have "evaluateVerdict (jget ''playIntegrityVerdict'' (sb_meta c)) (tn_security_policy tn) = None"
    using assms(2-4) by (simp add: submit_conditions_def loadTenantSecurityPolicy_def)
  then show ?thesis
    using assms(5,6)
    by (auto simp: evaluateVerdict_def requiredRank_def Let_def verdictRank_def split: if_splits json.splits)
qed

definition strict_server :: server where
  "strict_server = demo_server\<lparr>t_tenants := [\<lparr> tn_id = ''t'', tn_email = ''e'', tn_password_hash = '''',
     tn_company_name = None, tn_plan = Free, tn_status = TenantActive, tn_rate_limit = 1, tn_monthly_quota = 1,
     tn_security_policy = JObj [(''require_strong_integrity'', JBool True)], tn_created_at = 0, tn_updated_at = 0 \<rparr>]\<rparr>"

definition strong_call :: submit_call where
  "strong_call = demo_call\<lparr>sb_meta := JObj [(''playIntegrityVerdict'', JStr ''MEETS_STRONG_INTEGRITY'')]\<rparr>"

lemma strict_conditions:
  "submit_conditions demo_config strong_call strict_server demo_row
     \<lparr> sc_id = ''u1'', sc_did_hash = ''5'', sc_commitment = ''7'' \<rparr>"
proof -
  have "evaluateVerdict (JStr ''MEETS_STRONG_INTEGRITY'') (JObj [(''require_strong_integrity'', JBool True)]) = None"
    by code_simp
  then show ?thesis
    using demo_conditions
    by (simp add: submit_conditions_def strong_call_def strict_server_def demo_config_def demo_call_def
        loadSessionRow_def findUserByDid_def loadTenantSecurityPolicy_def is_object_def jget_def)
qed

theorem strong_integrity_enforced_witness:
  "\<exists>r s' v. submitProof demo_config strong_call id strict_server = (Inr r, s') \<and>
     jget ''playIntegrityVerdict'' (sb_meta strong_call) = JStr v"
proof -
  have "still_issued (sb_session strong_call) strict_server"
    using demo_issued by (simp add: still_issued_def strong_call_def strict_server_def)
  then have "\<exists>r. fst (submitProof demo_config strong_call id strict_server) = Inr r"
    unfolding submit_success_iff using strict_conditions by auto
  then obtain r s' where run: "submitProof demo_config strong_call id strict_server = (Inr r, s')"
    by (metis prod.collapse)
  obtain tn where "first_row (\<lambda>x. tn_id x = sb_tenant strong_call) (t_tenants strict_server) = Some tn"
    "tn_security_policy tn = JObj [(''require_strong_integrity'', JBool True)]"
    by (simp add: strict_server_def strong_call_def demo_call_def)
  with strong_integrity_enforced [OF run] run show ?thesis
    by (auto simp: demo_config_def is_object_def jget_def truthy_def)
qed

text \<open>The payload of the \<open>pairing.claimed\<close> row.\<close>

definition claimed_payload :: "pairing_config \<Rightarrow> submit_call \<Rightarrow> uuid \<Rightarrow> audit_payload" where
  "claimed_payload cfg c userId = input_payload (sb_tenant c)
     (pairing_input (sb_env c) ActorApiKey None ''pairing.claimed'' (sb_session c) AuditSuccess
        (''Pairing session bound to user '' @ userId)
        (JObj [(''did_sha256'', JStr (pc_sha cfg (sb_did c))),
               (''proofMs'', jget ''proofMs'' (sb_meta c)),
               (''platform'', jget ''platform'' (sb_meta c)),
               (''playIntegrityVerdict'', jget ''playIntegrityVerdict'' (sb_meta c)),
               (''correlationId'', JStr (sb_correlation c))]))"

lemma consume_audit:
  assumes "consume cfg c user s = (Inr r, s')"
  obtains s2 where "s' = snd (appendAuditEvent (pc_sha cfg) (sb_later c) (claimed_payload cfg c (sc_id user)) s2)"
    "t_audit s2 = t_audit s" "t_audit_next s2 = t_audit_next s"
proof -
  define P :: "pairing_session \<Rightarrow> bool" where "P = (\<lambda>r. ps_id r = sb_session c \<and> ps_state r = Issued)"
  define upd :: "pairing_session \<Rightarrow> pairing_session" where "upd = claim_row (sc_id user, sb_later c)"
  define s1 where "s1 = s\<lparr>t_pairing := update_rows P upd (t_pairing s)\<rparr>"
  define s2 where "s2 = s1\<lparr>t_pairing := update_rows (\<lambda>r. ps_id r = sb_session c)
    (set_proof_hash (pc_sha cfg (or_else '''' (stringify (sb_proof c))))) (t_pairing s1)\<rparr>"
  obtain row rows where rows: "returning P upd (t_pairing s) = row # rows"
    using assms by (cases "returning P upd (t_pairing s)") (simp_all add: consume_def Let_def P_def upd_def)
  have "snd (consume cfg c user s) = snd (appendAuditEvent (pc_sha cfg) (sb_later c) (claimed_payload cfg c (sc_id user)) s2)"
    using rows unfolding P_def upd_def
    by (simp add: consume_def Let_def submit_audit_def recordAuditEvent_def claimed_payload_def s2_def s1_def P_def upd_def)
  then show ?thesis using that [of s2] assms by (simp add: s2_def s1_def)
qed

text \<open>Property C40.  A successful sign-in whose client metadata leaves out \<open>proofMs\<close> (or the
  platform or the verdict) damages the audit log of the tenant: the next replay reports the
  \<open>pairing.claimed\<close> row as broken, unless SHA-256 gives the text hashed for the row and the text
  rebuilt from it the same hash.\<close>

theorem claim_without_metadata_breaks_chain:
  assumes "submitProof cfg c m s = (Inr r, s')" and "audit_wf (pc_sha cfg) (m s)"
    and "jget k (sb_meta c) = JUndef" and "k \<in> {''proofMs'', ''platform'', ''playIntegrityVerdict''}"
    and "\<forall>k. arrays_defined (jget k (sb_meta c))" and "length (t_audit (m s)) < limit"
    and "\<forall>u. let p = claimed_payload cfg c u; q = fetchPreviousHash (sb_tenant c) (Some (sb_env c)) (m s);
             x = hash_text p q; y = hash_text (p\<lparr>pl_metadata := stored (pl_metadata p)\<rparr>) q
         in x \<noteq> y \<longrightarrow> pc_sha cfg x \<noteq> pc_sha cfg y"
  shows "\<exists>reason. verifyAuditChain (pc_sha cfg) (sb_tenant c) (Some (sb_env c)) 0 limit s' =
    ChainBroken (t_audit_next (m s)) reason"
proof -
  obtain row user where k: "consume cfg c user (m s) = (Inr r, s')"
    using submit_success_consumes [OF assms(1)] by blast
  let ?p = "claimed_payload cfg c (sc_id user)"
  obtain s2 where s2: "s' = snd (appendAuditEvent (pc_sha cfg) (sb_later c) ?p s2)"
    "t_audit s2 = t_audit (m s)" "t_audit_next s2 = t_audit_next (m s)"
    using consume_audit [OF k] by blast
  have p: "pl_tenant_id ?p = sb_tenant c" "pl_environment ?p = Some (sb_env c)" "is_object (pl_metadata ?p)"
    "\<not> defined (pl_metadata ?p)" "arrays_defined (pl_metadata ?p)"
    using assms(3-5) by (auto simp: claimed_payload_def input_payload_def pairing_input_def is_object_def)
  have f: "fetchPreviousHash t e s2 = fetchPreviousHash t e (m s)" for t e
    by (simp add: fetchPreviousHash_def s2(2))
  have "\<exists>reason. verifyAuditChain (pc_sha cfg) (pl_tenant_id ?p) (pl_environment ?p) 0 limit
      (snd (appendAuditEvent (pc_sha cfg) (sb_later c) ?p s2)) = ChainBroken (t_audit_next s2) reason"
    by (rule undefined_append_breaks)
      (use assms(2,6) assms(7) [THEN spec, of "sc_id user"] p s2 f audit_wf_same_table [OF s2(2,3)]
        in \<open>simp_all add: Let_def\<close>)
  then show ?thesis by (simp add: p s2)
qed

theorem claim_without_metadata_breaks_chain_witness:
  "\<exists>r s' reason. submitProof demo_config demo_call id demo_server = (Inr r, s') \<and>
     verifyAuditChain rev ''t'' (Some Live) 0 9 s' = ChainBroken 1 reason"
proof -
  obtain r s' where run: "submitProof demo_config demo_call id demo_server = (Inr r, s')" using demo_success by blast
  have "audit_wf rev demo_server"
    using audit_wf_same_table [of demo_server empty_server rev] audit_wf_empty by (simp add: demo_server_def)
  then show ?thesis
    using claim_without_metadata_breaks_chain [OF run, of "''proofMs''" 9] run
    by (simp add: demo_config_def demo_call_def jget_def demo_server_def empty_server_def)
qed

end
