(* ===== verification/Registration.thy ===== *)
theory Registration
  imports Devices Enrollment Text
begin

text \<open>
  The three-step signup ceremony of \<open>src/services/registration.ts\<close>: a session is started,
  a phone is paired, a commitment is submitted and the registration is completed with a proof;
  each step consumes the one-time code of the previous one.  The state is the database together
  with the in-process cache of codes shown by the demo portal.  The Poseidon hash, the proof
  verifier, the clock, the identifiers and the random draws are parameters.
\<close>

definition REGISTRATION_SESSION_TTL_MS :: int where
  "REGISTRATION_SESSION_TTL_MS = 30 * 60 * 1000"

definition DEMO_CODE_TTL_MS :: int where
  "DEMO_CODE_TTL_MS = 30 * 60 * 1000"

definition CHALLENGE_NONCE_HEX_LEN :: nat where
  "CHALLENGE_NONCE_HEX_LEN = 62"

datatype registration_error =
    RegSessionNotFound | RegSessionExpired | RegWrongState | CodeNotFoundOrExpired
  | RegInvalidFingerprint | InvalidCommitment | CommitmentMismatch | ChallengeMismatch
  | ProofVerificationFailed | RegInternalError

datatype ceremony_step = StepPair | StepEnroll | StepVerify

section \<open>The demo cache\<close>

record demo_code =
  dc_step :: ceremony_step
  dc_code :: string
  dc_deeplink :: string
  dc_nonce :: "string option"
  dc_expires_at :: time_ms

record registry =
  rg_db :: server
  rg_codes :: "uuid \<Rightarrow> demo_code option"

record ceremony =
  cy_sha :: "string \<Rightarrow> string"
  cy_poseidon1 :: "int \<Rightarrow> int"
  cy_verify :: "json \<Rightarrow> json list \<Rightarrow> bool option"
  cy_production :: bool
  cy_demo_tenant :: uuid

definition cachePendingDemoCode ::
  "time_ms \<Rightarrow> uuid \<Rightarrow> ceremony_step \<Rightarrow> string \<Rightarrow> string \<Rightarrow> string option \<Rightarrow> registry \<Rightarrow> registry" where
  "cachePendingDemoCode now i step code link nonce g =
     g\<lparr>rg_codes := (rg_codes g)(i \<mapsto> \<lparr> dc_step = step, dc_code = code, dc_deeplink = link, dc_nonce = nonce,
                                     dc_expires_at = now + DEMO_CODE_TTL_MS \<rparr>)\<rparr>"

definition peekPendingDemoCode :: "time_ms \<Rightarrow> uuid \<Rightarrow> registry \<Rightarrow> demo_code option \<times> registry" where
  "peekPendingDemoCode now i g = (case rg_codes g i of
       None \<Rightarrow> (None, g)
     | Some e \<Rightarrow> if dc_expires_at e < now then (None, g\<lparr>rg_codes := (rg_codes g)(i := None)\<rparr>)
                 else (Some e, g))"

definition clearPendingDemoCode :: "uuid \<Rightarrow> registry \<Rightarrow> registry" where
  "clearPendingDemoCode i g = g\<lparr>rg_codes := (rg_codes g)(i := None)\<rparr>"

definition shouldCacheDemoCode :: "ceremony \<Rightarrow> uuid \<Rightarrow> bool" where
  "shouldCacheDemoCode cy t \<longleftrightarrow> \<not> cy_production cy \<or> t = cy_demo_tenant cy"

definition cache_for_demo ::
  "ceremony \<Rightarrow> time_ms \<Rightarrow> uuid \<Rightarrow> uuid \<Rightarrow> ceremony_step \<Rightarrow> string \<Rightarrow> string \<Rightarrow> string option \<Rightarrow> registry \<Rightarrow> registry" where
  "cache_for_demo cy now t i step code link nonce g =
     (if shouldCacheDemoCode cy t then cachePendingDemoCode now i step code link nonce g else g)"

section \<open>Helpers\<close>

definition generateChallengeNonce :: "(nat \<Rightarrow> nat) \<Rightarrow> string" where
  "generateChallengeNonce rnd = bytes_hex (map rnd [0..<CHALLENGE_NONCE_HEX_LEN div 2])"

definition is_hex_letter :: "char \<Rightarrow> bool" where
  "is_hex_letter c \<longleftrightarrow> is_hex c \<and> \<not> is_digit c"

definition parseCommitmentBigInt :: "json \<Rightarrow> int option" where
  "parseCommitmentBigInt raw = (case raw of
       JStr r \<Rightarrow> (let trimmed = trim r in
         if trimmed = [] then None
         else if starts_with ''0x'' trimmed \<or> starts_with ''0X'' trimmed then bigint_of_string trimmed
         else if list_ex is_hex_letter trimmed then bigint_of_string (''0x'' @ trimmed)
         else bigint_of_string trimmed)
     | _ \<Rightarrow> None)"

definition commitmentsEqual :: "json \<Rightarrow> json \<Rightarrow> bool" where
  "commitmentsEqual a b = (case (parseCommitmentBigInt a, parseCommitmentBigInt b) of
       (Some ai, Some bi) \<Rightarrow> ai = bi | _ \<Rightarrow> False)"

text \<open>The key filter \<open>/(?:^|_)(image|...|raw[_-]?finger)(?:$|_)/i\<close>: a token that starts the
  key or follows an underscore and ends it or precedes one.\<close>

definition FORBIDDEN_PROFILE_KEY_TOKENS :: "string list" where
  "FORBIDDEN_PROFILE_KEY_TOKENS = [''image'', ''template'', ''pixel'', ''depth'', ''frame'', ''biometric'',
     ''photo'', ''rawface'', ''raw_face'', ''raw-face'', ''rawfinger'', ''raw_finger'', ''raw-finger'']"

definition token_here :: "string \<Rightarrow> bool" where
  "token_here s = list_ex (\<lambda>t. starts_with t s \<and> (drop (length t) s = [] \<or> hd (drop (length t) s) = CHR ''_''))
     FORBIDDEN_PROFILE_KEY_TOKENS"

fun token_after_underscore :: "string \<Rightarrow> bool" where
  "token_after_underscore [] = False"
| "token_after_underscore (c # s) = ((c = CHR ''_'' \<and> token_here s) \<or> token_after_underscore s)"

definition forbidden_key :: "string \<Rightarrow> bool" where
  "forbidden_key k \<longleftrightarrow> token_here (lower k) \<or> token_after_underscore (lower k)"

text \<open>Assigning the property \<open>__proto__\<close> of an object literal creates no own property.\<close>

definition sanitizeProfile :: "json \<Rightarrow> json" where
  "sanitizeProfile profile = (case profile of
       JObj kvs \<Rightarrow> JObj (filter (\<lambda>kv. \<not> forbidden_key (fst kv) \<and> fst kv \<noteq> ''__proto__'') kvs)
     | _ \<Rightarrow> JObj [])"

definition object_keys :: "json \<Rightarrow> string list" where
  "object_keys v = (case v of JObj kvs \<Rightarrow> map fst kvs | _ \<Rightarrow> [])"

definition is_unreserved :: "char \<Rightarrow> bool" where
  "is_unreserved c \<longleftrightarrow> is_upper c \<or> is_lower c \<or> is_digit c
     \<or> c \<in> set [CHR ''-'', CHR ''_'', CHR ''.'', CHR ''!'', CHR ''~'', CHR ''*'', CHR 0x27, CHR ''('', CHR '')'']"

text \<open>\<open>encodeURIComponent\<close> on ASCII text.\<close>

definition encodeURIComponent :: "string \<Rightarrow> string" where
  "encodeURIComponent s = concat (map (\<lambda>c. if is_unreserved c then [c]
     else CHR ''%'' # upper (bytes_hex [of_char c])) s)"

definition step_str :: "ceremony_step \<Rightarrow> string" where
  "step_str st = (case st of StepPair \<Rightarrow> ''pair'' | StepEnroll \<Rightarrow> ''enroll'' | StepVerify \<Rightarrow> ''verify'')"

definition deeplink :: "ceremony_step \<Rightarrow> uuid \<Rightarrow> string \<Rightarrow> string option \<Rightarrow> string" where
  "deeplink step i code nonce = ''zeroauth://reg?step='' @ step_str step @ ''&session='' @ i
     @ ''&code='' @ encodeURIComponent code
     @ (case nonce of None \<Rightarrow> [] | Some n \<Rightarrow> ''&challenge='' @ n)"

definition registration_input ::
  "environment \<Rightarrow> actor_type \<Rightarrow> string option \<Rightarrow> string \<Rightarrow> string \<Rightarrow> uuid \<Rightarrow> string \<Rightarrow> (string \<times> json) list
     \<Rightarrow> audit_input" where
  "registration_input e ty actor action entity i summary members =
     \<lparr> ai_environment = Some e, ai_actor_type = ty, ai_actor_id = actor, ai_action = action,
       ai_entity_type = entity, ai_entity_id = Some i, ai_status = AuditSuccess,
       ai_summary = summary, ai_metadata = JObj members \<rparr>"

definition audit_in :: "ceremony \<Rightarrow> time_ms \<Rightarrow> uuid \<Rightarrow> audit_input \<Rightarrow> registry \<Rightarrow> registry" where
  "audit_in cy now t a g = g\<lparr>rg_db := recordAuditEvent (cy_sha cy) now t a (rg_db g)\<rparr>"

text \<open>The result of a step: the row, the next code, its expiry, the deeplink and the nonce.\<close>

record step_result =
  st_session :: registration_session
  st_next_code :: string
  st_next_expires_at :: time_ms
  st_deeplink :: string
  st_nonce :: "string option"

section \<open>Starting\<close>

definition new_registration ::
  "(string \<Rightarrow> string) \<Rightarrow> time_ms \<Rightarrow> uuid \<Rightarrow> string \<Rightarrow> uuid \<Rightarrow> environment \<Rightarrow> json \<Rightarrow> registration_session" where
  "new_registration sha now i code t e profile =
     \<lparr> rs_id = i, rs_tenant_id = t, rs_environment = e, rs_profile = stored profile,
       rs_state = AwaitingDevice, rs_device_id = None, rs_did = None, rs_commitment = None,
       rs_tenant_user_id = None, rs_pair_code_hash = Some (sha code),
       rs_pair_code_expires_at = Some (now + ENROLLMENT_CODE_TTL_MS),
       rs_enroll_code_hash = None, rs_enroll_code_expires_at = None,
       rs_verify_code_hash = None, rs_verify_code_expires_at = None,
       rs_verify_challenge_nonce = None, rs_expires_at = now + REGISTRATION_SESSION_TTL_MS,
       rs_created_at = now, rs_updated_at = now \<rparr>"

definition startRegistration ::
  "ceremony \<Rightarrow> time_ms \<Rightarrow> uuid \<Rightarrow> (nat \<Rightarrow> nat) \<Rightarrow> uuid \<Rightarrow> environment \<Rightarrow> json \<Rightarrow> audit_actor \<Rightarrow> registry
     \<Rightarrow> (registration_error + step_result) \<times> registry" where
  "startRegistration cy now i draw t e inputProfile actor g =
     (let code = generateEnrollmentCode draw;
          profile = sanitizeProfile inputProfile;
          row = new_registration (cy_sha cy) now i code t e profile;
          db = rg_db g;
          link = deeplink StepPair i code None
      in if list_ex (\<lambda>r. rs_id r = i) (t_registrations db) then (Inl RegInternalError, g)
         else (Inr \<lparr> st_session = row, st_next_code = code,
                     st_next_expires_at = now + ENROLLMENT_CODE_TTL_MS, st_deeplink = link,
                     st_nonce = None \<rparr>,
               cache_for_demo cy now t i StepPair code link None
                 (audit_in cy now t
                   (registration_input e (ac_type actor) (ac_id actor) ''registration.started''
                      ''registration_session'' i ''Registration session opened''
                      ([(''profileKeys'', JArr (map JStr (object_keys profile))),
                        (''sessionExpiresAt'', JStr (iso_string (now + REGISTRATION_SESSION_TTL_MS))),
                        (''pairCodeExpiresAt'', JStr (iso_string (now + ENROLLMENT_CODE_TTL_MS)))]
                       @ actorMetadata (Some actor)))
                   (g\<lparr>rg_db := db\<lparr>t_registrations := t_registrations db @ [row]\<rparr>\<rparr>))))"

section \<open>Pairing the phone\<close>

record pair_input =
  pi_code :: string
  pi_fingerprint :: string
  pi_attestation :: "string option"
  pi_ip :: "string option"
  pi_user_agent :: "string option"

text \<open>The guard \<open>\<dots>_code_hash = $1 AND state = \<dots> AND \<dots>_expires_at > NOW() AND expires_at > NOW()\<close>
  of the three lookups; a comparison with \<open>NULL\<close> does not hold.\<close>

definition live_code :: "time_ms \<Rightarrow> string \<Rightarrow> string option \<Rightarrow> time_ms option \<Rightarrow> bool" where
  "live_code now h stored_hash expires \<longleftrightarrow> stored_hash = Some h
     \<and> (case expires of None \<Rightarrow> False | Some x \<Rightarrow> now < x)"

definition pairable :: "time_ms \<Rightarrow> string \<Rightarrow> registration_session \<Rightarrow> bool" where
  "pairable now h r \<longleftrightarrow> live_code now h (rs_pair_code_hash r) (rs_pair_code_expires_at r)
     \<and> rs_state r = AwaitingDevice \<and> now < rs_expires_at r"

definition registration_device ::
  "time_ms \<Rightarrow> uuid \<Rightarrow> string \<Rightarrow> string \<Rightarrow> registration_session \<Rightarrow> device" where
  "registration_device now newid fp att r =
     \<lparr> dv_id = newid, dv_tenant_id = rs_tenant_id r, dv_environment = rs_environment r,
       dv_external_id = ''dev_'' @ take 16 fp,
       dv_name = ''Registration device ('' @ take 8 (rs_id r) @ '')'',
       dv_device_type = MobileAndroid, dv_location_id = None, dv_status = DeviceActive,
       dv_enrollment_state = Enrolled, dv_enrollment_code_hash = None,
       dv_enrollment_code_expires_at = None, dv_enrolled_at = Some now,
       dv_fingerprint_hash = Some fp, dv_attestation_kind = Some att, dv_battery_level = None,
       dv_metadata = JObj [(''via'', JStr ''registration''), (''sessionId'', JStr (rs_id r))],
       dv_last_seen_at = Some now, dv_created_at = now, dv_updated_at = now \<rparr>"

text \<open>\<open>ON CONFLICT (tenant_id, environment, external_id) DO UPDATE\<close>.\<close>

definition re_enroll :: "device \<times> time_ms \<Rightarrow> device \<Rightarrow> device" where
  "re_enroll a d = d\<lparr>dv_enrollment_state := Enrolled,
     dv_fingerprint_hash := dv_fingerprint_hash (fst a), dv_attestation_kind := dv_attestation_kind (fst a),
     dv_last_seen_at := Some (snd a), dv_metadata := dv_metadata (fst a), dv_updated_at := snd a\<rparr>"

definition upsert_device :: "time_ms \<Rightarrow> device \<Rightarrow> server \<Rightarrow> (device \<times> server) option" where
  "upsert_device now d s =
     (let same = (\<lambda>q. device_key q = device_key d) in
      case returning same (re_enroll (d, now)) (t_devices s) of
        q # _ \<Rightarrow> Some (q, s\<lparr>t_devices := update_rows same (re_enroll (d, now)) (t_devices s)\<rparr>)
      | [] \<Rightarrow> map_option (\<lambda>s'. (d, s')) (insert_device d s))"

definition attach_device ::
  "uuid \<times> string \<times> time_ms \<times> time_ms \<Rightarrow> registration_session \<Rightarrow> registration_session" where
  "attach_device a r = (case a of (dev, h, expires, now) \<Rightarrow>
     r\<lparr>rs_device_id := Some dev, rs_state := AwaitingCommitment, rs_pair_code_hash := None,
       rs_pair_code_expires_at := None, rs_enroll_code_hash := Some h,
       rs_enroll_code_expires_at := Some expires, rs_updated_at := now\<rparr>)"

definition update_registration ::
  "uuid \<Rightarrow> (registration_session \<Rightarrow> registration_session) \<Rightarrow> server \<Rightarrow> server" where
  "update_registration i f s =
     s\<lparr>t_registrations := update_rows (\<lambda>r. rs_id r = i) f (t_registrations s)\<rparr>"

definition pairDeviceForRegistration ::
  "ceremony \<Rightarrow> time_ms \<Rightarrow> uuid \<Rightarrow> (nat \<Rightarrow> nat) \<Rightarrow> pair_input \<Rightarrow> registry
     \<Rightarrow> (registration_error + step_result) \<times> registry" where
  "pairDeviceForRegistration cy now newdev draw inp g =
     (if \<not> isValidFingerprint (pi_fingerprint inp) then (Inl RegInvalidFingerprint, g)
      else (let sha = cy_sha cy;
                h = sha (normaliseEnrollmentCode (pi_code inp));
                fp = fingerprintHash sha (pi_fingerprint inp);
                nextCode = generateEnrollmentCode draw;
                expires = now + ENROLLMENT_CODE_TTL_MS;
                att = or_else ''none'' (pi_attestation inp)
        in case first_row (pairable now h) (t_registrations (rg_db g)) of
             None \<Rightarrow> (Inl CodeNotFoundOrExpired, g)
           | Some session \<Rightarrow>
          (case upsert_device now (registration_device now newdev fp att session) (rg_db g) of
             None \<Rightarrow> (Inl RegInternalError, g)
           | Some (dev, db1) \<Rightarrow>
              (let f = attach_device (dv_id dev, sha nextCode, expires, now);
                   link = deeplink StepEnroll (rs_id session) nextCode None
               in (Inr \<lparr> st_session = f session, st_next_code = nextCode, st_next_expires_at = expires,
                         st_deeplink = link, st_nonce = None \<rparr>,
                   cache_for_demo cy now (rs_tenant_id session) (rs_id session) StepEnroll nextCode link None
                     (audit_in cy now (rs_tenant_id session)
                       (registration_input (rs_environment session) ActorDevice (Some (dv_id dev))
                          ''registration.device_paired'' ''registration_session'' (rs_id session)
                          ''Phone paired to registration session''
                          [(''deviceId'', JStr (dv_id dev)), (''attestationKind'', JStr att),
                           (''ip'', opt_str (pi_ip inp)), (''userAgent'', opt_str (pi_user_agent inp))])
                       (g\<lparr>rg_db := update_registration (rs_id session) f db1\<rparr>)))))))"

section \<open>Submitting the commitment\<close>

record commitment_input =
  cm_code :: string
  cm_did :: string
  cm_commitment :: string
  cm_attestation :: "string option"

text \<open>\<open>/^did:zeroauth:[a-z0-9_-]+:[0-9a-f]{8,80}$/\<close>; the method class excludes the colon.\<close>

definition did_shape :: "string \<Rightarrow> bool" where
  "did_shape s \<longleftrightarrow> starts_with ''did:zeroauth:'' s \<and>
     (let rest = drop 13 s;
          kind = takeWhile (\<lambda>c. c \<noteq> CHR '':'') rest;
          tail = drop (length kind) rest
      in kind \<noteq> [] \<and> list_all (\<lambda>c. is_lower c \<or> is_digit c \<or> c = CHR ''_'' \<or> c = CHR ''-'') kind
         \<and> starts_with '':'' tail \<and> 8 \<le> length (drop 1 tail) \<and> length (drop 1 tail) \<le> 80
         \<and> list_all is_lower_hex (drop 1 tail))"

text \<open>\<open>/^(0x)?[0-9a-f]{32,128}$/\<close>\<close>

definition hex_run :: "string \<Rightarrow> bool" where
  "hex_run s \<longleftrightarrow> 32 \<le> length s \<and> length s \<le> 128 \<and> list_all is_lower_hex s"

definition commitment_shape :: "string \<Rightarrow> bool" where
  "commitment_shape s \<longleftrightarrow> hex_run s \<or> (starts_with ''0x'' s \<and> hex_run (drop 2 s))"

definition committable :: "time_ms \<Rightarrow> string \<Rightarrow> registration_session \<Rightarrow> bool" where
  "committable now h r \<longleftrightarrow> live_code now h (rs_enroll_code_hash r) (rs_enroll_code_expires_at r)
     \<and> rs_state r = AwaitingCommitment \<and> now < rs_expires_at r"

record commitment_update =
  cu_did :: string
  cu_commitment :: string
  cu_hash :: string
  cu_expires :: time_ms
  cu_nonce :: string
  cu_now :: time_ms

definition set_commitment :: "commitment_update \<Rightarrow> registration_session \<Rightarrow> registration_session" where
  "set_commitment u r =
     r\<lparr>rs_did := Some (cu_did u), rs_commitment := Some (cu_commitment u), rs_enroll_code_hash := None,
       rs_enroll_code_expires_at := None, rs_verify_code_hash := Some (cu_hash u),
       rs_verify_code_expires_at := Some (cu_expires u), rs_verify_challenge_nonce := Some (cu_nonce u),
       rs_state := AwaitingVerification, rs_updated_at := cu_now u\<rparr>"

definition submitCommitmentForRegistration ::
  "ceremony \<Rightarrow> time_ms \<Rightarrow> (nat \<Rightarrow> nat) \<Rightarrow> (nat \<Rightarrow> nat) \<Rightarrow> commitment_input \<Rightarrow> registry
     \<Rightarrow> (registration_error + step_result) \<times> registry" where
  "submitCommitmentForRegistration cy now draw rnd inp g =
     (let sha = cy_sha cy;
          h = sha (normaliseEnrollmentCode (cm_code inp));
          didNorm = lower (trim (cm_did inp));
          commitmentNorm = lower (trim (cm_commitment inp))
      in if \<not> did_shape didNorm then (Inl InvalidCommitment, g)
         else if \<not> commitment_shape commitmentNorm then (Inl InvalidCommitment, g)
         else (let nextCode = generateEnrollmentCode draw;
                   expires = now + ENROLLMENT_CODE_TTL_MS;
                   nonce = generateChallengeNonce rnd
           in case first_row (committable now h) (t_registrations (rg_db g)) of
                None \<Rightarrow> (Inl CodeNotFoundOrExpired, g)
              | Some session \<Rightarrow>
                 (let f = set_commitment \<lparr> cu_did = didNorm, cu_commitment = commitmentNorm,
                          cu_hash = sha nextCode, cu_expires = expires, cu_nonce = nonce, cu_now = now \<rparr>;
                      link = deeplink StepVerify (rs_id session) nextCode (Some nonce)
                  in (Inr \<lparr> st_session = f session, st_next_code = nextCode, st_next_expires_at = expires,
                            st_deeplink = link, st_nonce = Some nonce \<rparr>,
                      cache_for_demo cy now (rs_tenant_id session) (rs_id session) StepVerify nextCode link (Some nonce)
                        (audit_in cy now (rs_tenant_id session)
                          (registration_input (rs_environment session) ActorDevice (rs_device_id session)
                             ''registration.commitment_submitted'' ''registration_session'' (rs_id session)
                             ''Commitment received from device''
                             [(''did'', JStr didNorm), (''commitmentPrefix'', JStr (take 16 commitmentNorm)),
                              (''attestationKind'', JStr (or_else ''none'' (cm_attestation inp)))])
                          (g\<lparr>rg_db := update_registration (rs_id session) f (rg_db g)\<rparr>))))))"

section \<open>Completing\<close>

record complete_input =
  fi_code :: json
  fi_nonce :: json
  fi_proof :: json
  fi_signals :: json

record complete_result =
  fr_session :: registration_session
  fr_user :: tenant_user
  fr_device :: "device option"

definition verifiable :: "time_ms \<Rightarrow> string \<Rightarrow> registration_session \<Rightarrow> bool" where
  "verifiable now h r \<longleftrightarrow> live_code now h (rs_verify_code_hash r) (rs_verify_code_expires_at r)
     \<and> rs_state r = AwaitingVerification \<and> now < rs_expires_at r"

definition profile_name :: "json \<Rightarrow> string" where
  "profile_name p = (case jstr (jget ''full_name'' p) of Some n \<Rightarrow> n
     | None \<Rightarrow> (case jstr (jget ''name'' p) of Some n \<Rightarrow> n | None \<Rightarrow> ''Unnamed''))"

definition registered_user ::
  "ceremony \<Rightarrow> time_ms \<Rightarrow> uuid \<Rightarrow> registration_session \<Rightarrow> int \<Rightarrow> tenant_user" where
  "registered_user cy now newid r commitment =
     (let p = rs_profile r in
      \<lparr> us_id = newid, us_tenant_id = rs_tenant_id r, us_environment = rs_environment r,
        us_external_id = ''user_'' @ filter (\<lambda>c. c \<noteq> CHR ''-'') (take 12 (rs_id r)),
        us_full_name = profile_name p, us_email = map_option lower (jstr (jget ''email'' p)),
        us_phone = jstr (jget ''phone'' p), us_employee_code = jstr (jget ''employee_code'' p),
        us_status = UserActive, us_primary_device_id = rs_device_id r, us_did = rs_did r,
        us_commitment = rs_commitment r,
        us_metadata = JObj [(''via'', JStr ''registration''), (''sessionId'', JStr (rs_id r)),
          (''did'', opt_str (rs_did r)), (''did_hash'', JStr (dec_int (cy_poseidon1 cy commitment))),
          (''commitment'', JStr (dec_int commitment))],
        us_last_verified_at = Some now, us_created_at = now, us_updated_at = now \<rparr>)"

definition finish_registration :: "uuid \<times> time_ms \<Rightarrow> registration_session \<Rightarrow> registration_session" where
  "finish_registration a r =
     r\<lparr>rs_tenant_user_id := Some (fst a), rs_state := Completed, rs_verify_code_hash := None,
       rs_verify_code_expires_at := None, rs_verify_challenge_nonce := None, rs_updated_at := snd a\<rparr>"

text \<open>The checks on the locked row, in the order of the code.\<close>

definition complete_checks ::
  "ceremony \<Rightarrow> string \<Rightarrow> json \<Rightarrow> json list \<Rightarrow> registration_session \<Rightarrow> registration_error option" where
  "complete_checks cy nonce proof signals session =
     (if rs_verify_challenge_nonce session \<noteq> Some nonce then Some ChallengeMismatch
      else (case rs_commitment session of
          None \<Rightarrow> Some CommitmentMismatch
        | Some c \<Rightarrow>
            if c = [] then Some CommitmentMismatch
            else if \<not> commitmentsEqual (hd signals) (JStr c) then Some CommitmentMismatch
            else (case cy_verify cy proof signals of
                None \<Rightarrow> Some RegInternalError
              | Some ok \<Rightarrow> if ok then None else Some ProofVerificationFailed)))"

definition store_completion ::
  "ceremony \<Rightarrow> time_ms \<Rightarrow> uuid \<Rightarrow> registration_session \<Rightarrow> registry
     \<Rightarrow> (registration_error + complete_result) \<times> registry" where
  "store_completion cy now newuser session g =
     (case parseCommitmentBigInt (opt_str (rs_commitment session)) of
        None \<Rightarrow> (Inl CommitmentMismatch, g)
      | Some commitment \<Rightarrow>
         (let user = registered_user cy now newuser session commitment;
              f = finish_registration (newuser, now)
          in case insert_user user (rg_db g) of
               None \<Rightarrow> (Inl RegInternalError, g)
             | Some db1 \<Rightarrow>
                 (Inr \<lparr> fr_session = f session, fr_user = user,
                        fr_device = (case rs_device_id session of None \<Rightarrow> None
                          | Some d \<Rightarrow> first_row (\<lambda>r. dv_id r = d) (t_devices db1)) \<rparr>,
                  audit_in cy now (rs_tenant_id session)
                    (registration_input (rs_environment session) ActorDevice (rs_device_id session)
                       ''registration.completed'' ''tenant_user'' newuser
                       ''Registration ceremony complete; tenant_user created''
                       [(''sessionId'', JStr (rs_id session)), (''deviceId'', opt_str (rs_device_id session)),
                        (''did'', opt_str (rs_did session))])
                    (g\<lparr>rg_db := update_registration (rs_id session) f db1\<rparr>))))"

definition completeRegistration ::
  "ceremony \<Rightarrow> time_ms \<Rightarrow> uuid \<Rightarrow> complete_input \<Rightarrow> registry
     \<Rightarrow> (registration_error + complete_result) \<times> registry" where
  "completeRegistration cy now newuser inp g =
     (case fi_code inp of
        JStr verifyCode \<Rightarrow>
          if verifyCode = [] then (Inl CodeNotFoundOrExpired, g)
          else (case fi_nonce inp of
             JStr nonce \<Rightarrow>
               if nonce = [] then (Inl ChallengeMismatch, g)
               else (case fi_signals inp of
                  JArr signals \<Rightarrow>
                    if signals = [] then (Inl ProofVerificationFailed, g)
                    else (case first_row (verifiable now (cy_sha cy (normaliseEnrollmentCode verifyCode)))
                              (t_registrations (rg_db g)) of
                        None \<Rightarrow> (Inl CodeNotFoundOrExpired, g)
                      | Some session \<Rightarrow>
                          (case complete_checks cy nonce (fi_proof inp) signals session of
                             Some er \<Rightarrow> (Inl er, g)
                           | None \<Rightarrow> store_completion cy now newuser session g))
                | _ \<Rightarrow> (Inl ProofVerificationFailed, g))
           | _ \<Rightarrow> (Inl ChallengeMismatch, g))
      | _ \<Rightarrow> (Inl CodeNotFoundOrExpired, g))"

section \<open>Polling and abandoning\<close>

definition scoped_registration :: "uuid \<Rightarrow> environment \<Rightarrow> uuid \<Rightarrow> registration_session \<Rightarrow> bool" where
  "scoped_registration t e i r \<longleftrightarrow> rs_id r = i \<and> rs_tenant_id r = t \<and> rs_environment r = e"

definition getRegistrationSession ::
  "uuid \<Rightarrow> environment \<Rightarrow> uuid \<Rightarrow> registry \<Rightarrow> registration_session option" where
  "getRegistrationSession t e i g = first_row (scoped_registration t e i) (t_registrations (rg_db g))"

definition abandon_row :: "time_ms \<Rightarrow> registration_session \<Rightarrow> registration_session" where
  "abandon_row now r =
     r\<lparr>rs_state := (if rs_state r = Completed \<or> rs_state r = Abandoned then rs_state r else Abandoned),
       rs_pair_code_hash := None, rs_pair_code_expires_at := None,
       rs_enroll_code_hash := None, rs_enroll_code_expires_at := None,
       rs_verify_code_hash := None, rs_verify_code_expires_at := None,
       rs_verify_challenge_nonce := None, rs_updated_at := now\<rparr>"

definition abandonRegistration ::
  "ceremony \<Rightarrow> time_ms \<Rightarrow> uuid \<Rightarrow> environment \<Rightarrow> uuid \<Rightarrow> audit_actor \<Rightarrow> registry
     \<Rightarrow> registration_session option \<times> registry" where
  "abandonRegistration cy now t e i actor g =
     (let db = rg_db g; P = scoped_registration t e i in
      case returning P (abandon_row now) (t_registrations db) of
        [] \<Rightarrow> (None, g)
      | row # _ \<Rightarrow> (Some row,
          audit_in cy now t
            (registration_input e (ac_type actor) (ac_id actor) ''registration.abandoned''
               ''registration_session'' (rs_id row) ''Registration session abandoned''
               (actorMetadata (Some actor)))
            (g\<lparr>rg_db := db\<lparr>t_registrations := update_rows P (abandon_row now) (t_registrations db)\<rparr>\<rparr>)))"

section \<open>The life cycle of a registration\<close>

definition codes_of :: "registration_session \<Rightarrow> string option list" where
  "codes_of r = [rs_pair_code_hash r, rs_enroll_code_hash r, rs_verify_code_hash r]"

text \<open>Which columns are set in which state: at most one code is alive.\<close>

definition registration_ok :: "registration_session \<Rightarrow> bool" where
  "registration_ok r \<longleftrightarrow> (case rs_state r of
       AwaitingDevice \<Rightarrow> map (\<lambda>c. c \<noteq> None) (codes_of r) = [True, False, False]
         \<and> rs_verify_challenge_nonce r = None \<and> rs_device_id r = None \<and> rs_did r = None
         \<and> rs_commitment r = None \<and> rs_tenant_user_id r = None
     | AwaitingCommitment \<Rightarrow> map (\<lambda>c. c \<noteq> None) (codes_of r) = [False, True, False]
         \<and> rs_verify_challenge_nonce r = None \<and> rs_device_id r \<noteq> None \<and> rs_did r = None
         \<and> rs_commitment r = None \<and> rs_tenant_user_id r = None
     | AwaitingVerification \<Rightarrow> map (\<lambda>c. c \<noteq> None) (codes_of r) = [False, False, True]
         \<and> rs_verify_challenge_nonce r \<noteq> None \<and> rs_device_id r \<noteq> None
         \<and> pred_option did_shape (rs_did r) \<and> rs_did r \<noteq> None
         \<and> pred_option commitment_shape (rs_commitment r) \<and> rs_commitment r \<noteq> None
         \<and> rs_tenant_user_id r = None
     | Completed \<Rightarrow> codes_of r = [None, None, None] \<and> rs_verify_challenge_nonce r = None
         \<and> rs_device_id r \<noteq> None \<and> rs_did r \<noteq> None \<and> rs_commitment r \<noteq> None
         \<and> rs_tenant_user_id r \<noteq> None
     | Abandoned \<Rightarrow> codes_of r = [None, None, None] \<and> rs_verify_challenge_nonce r = None
         \<and> rs_tenant_user_id r = None)"

definition phase :: "registration_state \<Rightarrow> nat" where
  "phase st = (case st of AwaitingDevice \<Rightarrow> 0 | AwaitingCommitment \<Rightarrow> 1 | AwaitingVerification \<Rightarrow> 2
     | Completed \<Rightarrow> 3 | Abandoned \<Rightarrow> 3)"

definition kept :: "'a option \<Rightarrow> 'a option \<Rightarrow> bool" where
  "kept x y \<longleftrightarrow> x = None \<or> y = x"

lemma kept_simps [simp]: "kept x x" "kept None y" "kept (Some a) y \<longleftrightarrow> y = Some a"
  by (auto simp: kept_def)

definition registration_evolves :: "registration_session \<Rightarrow> registration_session \<Rightarrow> bool" where
  "registration_evolves r q \<longleftrightarrow> rs_id q = rs_id r \<and> rs_tenant_id q = rs_tenant_id r
     \<and> rs_environment q = rs_environment r \<and> rs_profile q = rs_profile r
     \<and> rs_expires_at q = rs_expires_at r \<and> phase (rs_state r) \<le> phase (rs_state q)
     \<and> (phase (rs_state r) = 3 \<longrightarrow> rs_state q = rs_state r)
     \<and> kept (rs_device_id r) (rs_device_id q) \<and> kept (rs_did r) (rs_did q)
     \<and> kept (rs_commitment r) (rs_commitment q) \<and> kept (rs_tenant_user_id r) (rs_tenant_user_id q)"

lemma kept_trans: "kept x y \<Longrightarrow> kept y z \<Longrightarrow> kept x z"
  by (auto simp: kept_def)

lemma registration_evolves_trans:
  assumes "registration_evolves r q" "registration_evolves q p"
  shows "registration_evolves r p"
proof -
  note a = assms [unfolded registration_evolves_def]
  have "phase (rs_state r) \<le> phase (rs_state p)" using a by linarith
  moreover have "phase (rs_state r) = 3 \<longrightarrow> rs_state p = rs_state r" using a by metis
  moreover have "kept (rs_device_id r) (rs_device_id p)" "kept (rs_did r) (rs_did p)"
    "kept (rs_commitment r) (rs_commitment p)" "kept (rs_tenant_user_id r) (rs_tenant_user_id p)"
    using a kept_trans by blast+
  moreover have "rs_id p = rs_id r" "rs_tenant_id p = rs_tenant_id r" "rs_environment p = rs_environment r"
    "rs_profile p = rs_profile r" "rs_expires_at p = rs_expires_at r"
    using a by metis+
  ultimately show ?thesis unfolding registration_evolves_def by blast
qed

interpretation registrations: row_history rs_id registration_ok registration_evolves
proof unfold_locales
  show "registration_evolves r r" for r by (simp add: registration_evolves_def)
  show "rs_id q = rs_id r" if "registration_evolves r q" for r q
    using that by (simp add: registration_evolves_def)
qed (rule registration_evolves_trans)

interpretation attach_update: keyed_update rs_id attach_device
  by unfold_locales (simp add: attach_device_def split: prod.split)

interpretation commitment_update: keyed_update rs_id set_commitment
  by unfold_locales (simp add: set_commitment_def)

interpretation finish_update: keyed_update rs_id finish_registration
  by unfold_locales (simp add: finish_registration_def)

interpretation abandon_update: keyed_update rs_id abandon_row
  by unfold_locales (simp add: abandon_row_def)

interpretation re_enroll_update: keyed_update dv_id re_enroll
  by unfold_locales (simp add: re_enroll_def)

definition registration_inv :: "registry \<Rightarrow> bool" where
  "registration_inv g \<longleftrightarrow> table_ok rs_id registration_ok (t_registrations (rg_db g))"

definition registration_extends :: "registry \<Rightarrow> registry \<Rightarrow> bool" where
  "registration_extends g g' \<longleftrightarrow>
     table_extends registration_evolves (t_registrations (rg_db g)) (t_registrations (rg_db g'))"

definition registration_sound :: "registry \<Rightarrow> registry \<Rightarrow> bool" where
  "registration_sound g g' \<longleftrightarrow> (registration_inv g \<longrightarrow> registration_inv g' \<and> registration_extends g g')"

lemma sound_same_table: "t_registrations (rg_db g') = t_registrations (rg_db g) \<Longrightarrow> registration_sound g g'"
  by (simp add: registration_sound_def registration_inv_def registration_extends_def registrations.extends_refl)

lemma sound_registration_trans:
  "registration_sound g g1 \<Longrightarrow> registration_sound g1 g2 \<Longrightarrow> registration_sound g g2"
  unfolding registration_sound_def registration_extends_def using registrations.extends_trans by blast

lemma t_registrations_cache [simp]:
  "rg_db (cache_for_demo cy now t i st code link n g) = rg_db g"
  by (simp add: cache_for_demo_def cachePendingDemoCode_def)

lemma rg_db_audit_in [simp]: "rg_db (audit_in cy now t a g) = recordAuditEvent (cy_sha cy) now t a (rg_db g)"
  by (simp add: audit_in_def)

lemma record_audit_tables [simp]:
  "t_registrations (recordAuditEvent sha now t a s) = t_registrations s"
  "t_users (recordAuditEvent sha now t a s) = t_users s"
  "t_devices (recordAuditEvent sha now t a s) = t_devices s"
  by (simp_all add: recordAuditEvent_def)

lemma sound_update_by_key:
  assumes "r \<in> set (t_registrations (rg_db g))"
    and "registration_ok r \<Longrightarrow> registration_evolves r (f r) \<and> registration_ok (f r)"
    and "t_registrations (rg_db g') = update_rows (\<lambda>q. rs_id q = rs_id r) f (t_registrations (rg_db g))"
  shows "registration_sound g g'"
proof (unfold registration_sound_def, intro impI)
  assume inv: "registration_inv g"
  then have "q = r" if "q \<in> set (t_registrations (rg_db g))" "rs_id q = rs_id r" for q
    using assms(1) that unfolding registration_inv_def table_ok_def by (metis distinct_map inj_onD)
  then show "registration_inv g' \<and> registration_extends g g'"
    using inv registrations.update_history [of "t_registrations (rg_db g)" "\<lambda>q. rs_id q = rs_id r" f] assms(2)
    unfolding registration_inv_def registration_extends_def assms(3) by blast
qed

lemma sound_update_found:
  assumes "first_row P (t_registrations (rg_db g)) = Some r"
    and "\<And>q. P q \<Longrightarrow> registration_ok q \<Longrightarrow> registration_evolves q (f q) \<and> registration_ok (f q)"
    and "t_registrations (rg_db g') = update_rows (\<lambda>q. rs_id q = rs_id r) f (t_registrations (rg_db g))"
  shows "registration_sound g g'"
  using sound_update_by_key [OF _ _ assms(3)] first_row_SomeD [OF assms(1)] assms(2) by blast

lemma attach_history:
  "pairable now h r \<Longrightarrow> registration_ok r \<Longrightarrow>
    registration_evolves r (attach_device (d, k, x, n) r) \<and> registration_ok (attach_device (d, k, x, n) r)"
  by (auto simp: pairable_def registration_ok_def codes_of_def attach_device_def registration_evolves_def phase_def)

lemma commitment_history:
  "committable now h r \<Longrightarrow> did_shape (cu_did u) \<Longrightarrow> commitment_shape (cu_commitment u) \<Longrightarrow> registration_ok r \<Longrightarrow>
    registration_evolves r (set_commitment u r) \<and> registration_ok (set_commitment u r)"
  by (simp add: committable_def registration_ok_def codes_of_def set_commitment_def registration_evolves_def phase_def)

lemma finish_history:
  "verifiable now h r \<Longrightarrow> registration_ok r \<Longrightarrow>
    registration_evolves r (finish_registration a r) \<and> registration_ok (finish_registration a r)"
  by (simp add: verifiable_def registration_ok_def codes_of_def finish_registration_def registration_evolves_def phase_def)

lemma abandon_history:
  "registration_ok r \<Longrightarrow> registration_evolves r (abandon_row now r) \<and> registration_ok (abandon_row now r)"
  by (cases "rs_state r")
    (auto simp: registration_ok_def codes_of_def abandon_row_def registration_evolves_def phase_def)

lemma new_registration_ok: "registration_ok (new_registration sha now i code t e p)"
  by (simp add: registration_ok_def new_registration_def codes_of_def)

lemma sound_start: "registration_sound g (snd (startRegistration cy now i draw t e p actor g))"
proof (cases "list_ex (\<lambda>r. rs_id r = i) (t_registrations (rg_db g))")
  case True
  then have "snd (startRegistration cy now i draw t e p actor g) = g"
    by (simp add: startRegistration_def Let_def)
  then show ?thesis by (simp add: sound_same_table)
next
  case False
  let ?r = "new_registration (cy_sha cy) now i (generateEnrollmentCode draw) t e (sanitizeProfile p)"
  have t: "t_registrations (rg_db (snd (startRegistration cy now i draw t e p actor g)))
      = t_registrations (rg_db g) @ [?r]"
    using False by (simp add: startRegistration_def Let_def)
  have "rs_id ?r \<notin> rs_id ` set (t_registrations (rg_db g))"
    using False by (auto simp: list_ex_iff new_registration_def)
  then show ?thesis
    unfolding registration_sound_def registration_inv_def registration_extends_def t
    using registrations.insert_history new_registration_ok by blast
qed

lemma upsert_registrations: "upsert_device now d s = Some (q, s') \<Longrightarrow> t_registrations s' = t_registrations s"
  by (auto simp: upsert_device_def Let_def split: list.splits dest!: insert_device_Some)

text \<open>The three outcomes of a successful step on the table of sessions.\<close>

lemma pair_result:
  assumes "pairDeviceForRegistration cy now newdev draw inp g = (Inr x, g')"
  shows "\<exists>r dev db1 f. isValidFingerprint (pi_fingerprint inp)
    \<and> first_row (pairable now (cy_sha cy (normaliseEnrollmentCode (pi_code inp)))) (t_registrations (rg_db g)) = Some r
    \<and> upsert_device now (registration_device now newdev (fingerprintHash (cy_sha cy) (pi_fingerprint inp))
        (or_else ''none'' (pi_attestation inp)) r) (rg_db g) = Some (dev, db1)
    \<and> f = attach_device (dv_id dev, cy_sha cy (generateEnrollmentCode draw), now + ENROLLMENT_CODE_TTL_MS, now)
    \<and> st_session x = f r \<and> st_next_code x = generateEnrollmentCode draw
    \<and> t_registrations (rg_db g') = update_rows (\<lambda>q. rs_id q = rs_id r) f (t_registrations (rg_db g))
    \<and> t_devices (rg_db g') = t_devices db1"
  using assms
  by (auto simp: pairDeviceForRegistration_def Let_def update_registration_def upsert_registrations
      split: if_splits option.splits)

lemma commit_result:
  assumes "submitCommitmentForRegistration cy now draw rnd inp g = (Inr x, g')"
  shows "\<exists>r u. did_shape (cu_did u) \<and> commitment_shape (cu_commitment u)
    \<and> first_row (committable now (cy_sha cy (normaliseEnrollmentCode (cm_code inp)))) (t_registrations (rg_db g)) = Some r
    \<and> cu_did u = lower (trim (cm_did inp)) \<and> cu_commitment u = lower (trim (cm_commitment inp))
    \<and> cu_nonce u = generateChallengeNonce rnd \<and> cu_hash u = cy_sha cy (generateEnrollmentCode draw)
    \<and> st_session x = set_commitment u r \<and> st_next_code x = generateEnrollmentCode draw
    \<and> t_registrations (rg_db g') = update_rows (\<lambda>q. rs_id q = rs_id r) (set_commitment u) (t_registrations (rg_db g))"
proof -
  define h where "h = cy_sha cy (normaliseEnrollmentCode (cm_code inp))"
  obtain r where r: "first_row (committable now h) (t_registrations (rg_db g)) = Some r"
    and shapes: "did_shape (lower (trim (cm_did inp)))" "commitment_shape (lower (trim (cm_commitment inp)))"
    using assms
    by (auto simp: submitCommitmentForRegistration_def Let_def h_def split: if_splits option.splits)
  define u where "u = \<lparr> cu_did = lower (trim (cm_did inp)), cu_commitment = lower (trim (cm_commitment inp)),
    cu_hash = cy_sha cy (generateEnrollmentCode draw), cu_expires = now + ENROLLMENT_CODE_TTL_MS,
    cu_nonce = generateChallengeNonce rnd, cu_now = now \<rparr>"
  have "st_session x = set_commitment u r" "st_next_code x = generateEnrollmentCode draw"
    "t_registrations (rg_db g') = update_rows (\<lambda>q. rs_id q = rs_id r) (set_commitment u) (t_registrations (rg_db g))"
    using assms r shapes
    by (auto simp: submitCommitmentForRegistration_def Let_def h_def update_registration_def u_def)
  then show ?thesis
    using r shapes unfolding h_def by (intro exI [of _ r] exI [of _ u]) (simp add: u_def)
qed

lemma store_result:
  assumes "store_completion cy now newuser r g = (Inr x, g')"
  shows "\<exists>n. parseCommitmentBigInt (opt_str (rs_commitment r)) = Some n
    \<and> fr_user x = registered_user cy now newuser r n \<and> fr_session x = finish_registration (newuser, now) r
    \<and> \<not> list_ex (user_conflict (fr_user x)) (t_users (rg_db g))
    \<and> t_users (rg_db g') = t_users (rg_db g) @ [fr_user x] \<and> t_devices (rg_db g') = t_devices (rg_db g)
    \<and> t_registrations (rg_db g') =
        update_rows (\<lambda>q. rs_id q = rs_id r) (finish_registration (newuser, now)) (t_registrations (rg_db g))"
  using assms
  by (auto simp: store_completion_def Let_def update_registration_def dest!: insert_user_Some split: option.splits)

lemma completion_result:
  assumes "completeRegistration cy now newuser inp g = (Inr x, g')"
  shows "\<exists>code nonce signals r. fi_code inp = JStr code \<and> code \<noteq> [] \<and> fi_nonce inp = JStr nonce \<and> nonce \<noteq> []
    \<and> fi_signals inp = JArr signals \<and> signals \<noteq> []
    \<and> first_row (verifiable now (cy_sha cy (normaliseEnrollmentCode code))) (t_registrations (rg_db g)) = Some r
    \<and> complete_checks cy nonce (fi_proof inp) signals r = None
    \<and> store_completion cy now newuser r g = (Inr x, g')"
  using assms by (auto simp: completeRegistration_def split: json.splits if_splits option.splits)

lemma failed_step_unchanged:
  "pairDeviceForRegistration cy now newdev draw pin g = (Inl er, g') \<Longrightarrow> g' = g"
  "submitCommitmentForRegistration cy now draw rnd cin g = (Inl er, g') \<Longrightarrow> g' = g"
  "completeRegistration cy now newuser fin g = (Inl er, g') \<Longrightarrow> g' = g"
  "startRegistration cy now i draw t e p actor g = (Inl er, g') \<Longrightarrow> g' = g"
  by (auto simp: pairDeviceForRegistration_def submitCommitmentForRegistration_def completeRegistration_def
      store_completion_def startRegistration_def Let_def split: json.splits if_splits option.splits)

lemma sound_steps:
  "registration_sound g (snd (pairDeviceForRegistration cy now newdev draw pin g))"
  "registration_sound g (snd (submitCommitmentForRegistration cy now draw rnd cin g))"
  "registration_sound g (snd (completeRegistration cy now newuser fin g))"
proof -
  show "registration_sound g (snd (pairDeviceForRegistration cy now newdev draw pin g))"
  proof (cases "pairDeviceForRegistration cy now newdev draw pin g")
    case (Pair res g')
    show ?thesis
    proof (cases res)
      case (Inr x)
      from pair_result [OF Pair [unfolded Inr]] obtain r f and dev :: device where
        r: "first_row (pairable now (cy_sha cy (normaliseEnrollmentCode (pi_code pin)))) (t_registrations (rg_db g)) = Some r"
        and f: "f = attach_device (dv_id dev, cy_sha cy (generateEnrollmentCode draw), now + ENROLLMENT_CODE_TTL_MS, now)"
        and t: "t_registrations (rg_db g') = update_rows (\<lambda>q. rs_id q = rs_id r) f (t_registrations (rg_db g))"
        by (elim exE conjE) (rule that)
      show ?thesis
        unfolding Pair snd_conv
        by (rule sound_update_found [OF r _ t], unfold f) (rule attach_history)
    next
      case (Inl er)
      with Pair have "g' = g" using failed_step_unchanged(1) by blast
      then show ?thesis by (simp add: Pair sound_same_table)
    qed
  qed
  show "registration_sound g (snd (submitCommitmentForRegistration cy now draw rnd cin g))"
  proof (cases "submitCommitmentForRegistration cy now draw rnd cin g")
    case (Pair res g')
    show ?thesis
    proof (cases res)
      case (Inr x)
      from commit_result [OF Pair [unfolded Inr]] obtain r u where
        r: "first_row (committable now (cy_sha cy (normaliseEnrollmentCode (cm_code cin)))) (t_registrations (rg_db g)) = Some r"
        and u: "did_shape (cu_did u)" "commitment_shape (cu_commitment u)"
        and t: "t_registrations (rg_db g') = update_rows (\<lambda>q. rs_id q = rs_id r) (set_commitment u) (t_registrations (rg_db g))"
        by (elim exE conjE) (rule that)
      show ?thesis
        unfolding Pair snd_conv
        by (rule sound_update_found [OF r _ t]) (rule commitment_history [OF _ u])
    next
      case (Inl er)
      with Pair have "g' = g" using failed_step_unchanged(2) by blast
      then show ?thesis by (simp add: Pair sound_same_table)
    qed
  qed
  show "registration_sound g (snd (completeRegistration cy now newuser fin g))"
  proof (cases "completeRegistration cy now newuser fin g")
    case (Pair res g')
    show ?thesis
    proof (cases res)
      case (Inr x)
      from completion_result [OF Pair [unfolded Inr]] obtain code r where
        r: "first_row (verifiable now (cy_sha cy (normaliseEnrollmentCode code))) (t_registrations (rg_db g)) = Some r"
        and st: "store_completion cy now newuser r g = (Inr x, g')"
        by (elim exE conjE) (rule that)
      have
        t: "t_registrations (rg_db g') = update_rows (\<lambda>q. rs_id q = rs_id r) (finish_registration (newuser, now)) (t_registrations (rg_db g))"
        using store_result [OF st] by (elim exE conjE)
      show ?thesis
        unfolding Pair snd_conv
        by (rule sound_update_found [OF r _ t]) (rule finish_history)
    next
      case (Inl er)
      with Pair have "g' = g" using failed_step_unchanged(3) by blast
      then show ?thesis by (simp add: Pair sound_same_table)
    qed
  qed
qed

lemma sound_abandon: "registration_sound g (snd (abandonRegistration cy now t e i actor g))"
proof -
  let ?P = "scoped_registration t e i"
  have "t_registrations (rg_db (snd (abandonRegistration cy now t e i actor g))) = t_registrations (rg_db g) \<or>
    t_registrations (rg_db (snd (abandonRegistration cy now t e i actor g))) =
      update_rows ?P (abandon_row now) (t_registrations (rg_db g))"
    by (simp add: abandonRegistration_def Let_def split: list.split)
  then show ?thesis
    using sound_same_table registrations.update_history [of _ ?P "abandon_row now"] abandon_history
    unfolding registration_sound_def registration_inv_def registration_extends_def by metis
qed

inductive registration_step :: "ceremony \<Rightarrow> registry \<Rightarrow> registry \<Rightarrow> bool" for cy where
  reg_start: "registration_step cy g (snd (startRegistration cy now i draw t e p actor g))"
| reg_pair: "registration_step cy g (snd (pairDeviceForRegistration cy now newdev draw pin g))"
| reg_commit: "registration_step cy g (snd (submitCommitmentForRegistration cy now draw rnd cin g))"
| reg_complete: "registration_step cy g (snd (completeRegistration cy now newuser fin g))"
| reg_abandon: "registration_step cy g (snd (abandonRegistration cy now t e i actor g))"
| reg_peek: "registration_step cy g (snd (peekPendingDemoCode now i g))"
| reg_clear: "registration_step cy g (clearPendingDemoCode i g)"
| reg_other: "t_registrations s' = t_registrations (rg_db g) \<Longrightarrow> registration_step cy g (g\<lparr>rg_db := s'\<rparr>)"

lemma registration_step_sound: "registration_step cy g g' \<Longrightarrow> registration_sound g g'"
  by (induction rule: registration_step.induct)
    (simp_all add: sound_start sound_steps sound_abandon sound_same_table peekPendingDemoCode_def
      clearPendingDemoCode_def split: option.split)

lemma registration_run_sound: "(registration_step cy)\<^sup>*\<^sup>* g g' \<Longrightarrow> registration_sound g g'"
proof (induction rule: rtranclp_induct)
  case (step g1 g2)
  then show ?case using sound_registration_trans registration_step_sound by blast
qed (simp add: sound_same_table)

text \<open>Property C6.  Whatever calls the tenants and phones make, in any order and interleaved with the
  operations of the other services, every registration session is in one of the five
  states with exactly the columns of that state set (so at most one of its three codes is ever
  alive, and none after completion or abandonment), and it only moves forward: a completed or
  abandoned session stays so, and its device, DID, commitment and user, once set, never
  change.\<close>

theorem registration_lifecycle:
  assumes "(registration_step cy)\<^sup>*\<^sup>* g g'" and "registration_inv g"
  shows "registration_inv g' \<and>
    (\<forall>r \<in> set (t_registrations (rg_db g)). \<exists>q \<in> set (t_registrations (rg_db g')).
       registration_evolves r q \<and> registration_ok q)"
proof -
  have "registration_inv g'" "registration_extends g g'"
    using registration_run_sound [OF assms(1)] assms(2) by (auto simp: registration_sound_def)
  then show ?thesis
    unfolding registration_extends_def table_extends_def registration_inv_def table_ok_def by metis
qed

text \<open>A session whose step was done never offers that step again.\<close>

lemma phase_later:
  assumes "registration_inv g1" "(registration_step cy)\<^sup>*\<^sup>* g1 g2"
    and "q \<in> set (t_registrations (rg_db g1))" "r \<in> set (t_registrations (rg_db g2))" "rs_id r = rs_id q"
  shows "phase (rs_state q) \<le> phase (rs_state r)"
proof -
  have "registration_inv g2" "registration_extends g1 g2"
    using registration_run_sound [OF assms(2)] assms(1) by (auto simp: registration_sound_def)
  then have "registration_evolves q r"
    using assms(1,3-5) registrations.extended_row
    unfolding registration_inv_def registration_extends_def by blast
  then show ?thesis by (simp add: registration_evolves_def)
qed

lemma step_phases:
  "pairDeviceForRegistration cy now newdev draw pin g = (Inr x, g') \<Longrightarrow>
    (\<exists>r \<in> set (t_registrations (rg_db g)). phase (rs_state r) = 0 \<and> rs_id r = rs_id (st_session x)) \<and>
    st_session x \<in> set (t_registrations (rg_db g')) \<and> phase (rs_state (st_session x)) = 1"
  "submitCommitmentForRegistration cy now draw rnd cin g = (Inr x, g') \<Longrightarrow>
    (\<exists>r \<in> set (t_registrations (rg_db g)). phase (rs_state r) = 1 \<and> rs_id r = rs_id (st_session x)) \<and>
    st_session x \<in> set (t_registrations (rg_db g')) \<and> phase (rs_state (st_session x)) = 2"
  "completeRegistration cy now newuser fin g = (Inr y, g') \<Longrightarrow>
    (\<exists>r \<in> set (t_registrations (rg_db g)). phase (rs_state r) = 2 \<and> rs_id r = rs_id (fr_session y)) \<and>
    fr_session y \<in> set (t_registrations (rg_db g')) \<and> phase (rs_state (fr_session y)) = 3"
proof -
  assume a: "pairDeviceForRegistration cy now newdev draw pin g = (Inr x, g')"
  obtain r f h and dev :: device where r: "first_row (pairable now h) (t_registrations (rg_db g)) = Some r"
    and x: "st_session x = f r" and t: "t_registrations (rg_db g') = update_rows (\<lambda>q. rs_id q = rs_id r) f (t_registrations (rg_db g))"
    and f: "f = attach_device (dv_id dev, cy_sha cy (generateEnrollmentCode draw), now + ENROLLMENT_CODE_TTL_MS, now)"
    using pair_result [OF a] by (elim exE conjE) (rule that)
  have m: "r \<in> set (t_registrations (rg_db g))" "pairable now h r" using first_row_SomeD [OF r] by simp_all
  then have "f r \<in> set (t_registrations (rg_db g'))" unfolding t set_update_rows by force
  then show "(\<exists>r \<in> set (t_registrations (rg_db g)). phase (rs_state r) = 0 \<and> rs_id r = rs_id (st_session x)) \<and>
    st_session x \<in> set (t_registrations (rg_db g')) \<and> phase (rs_state (st_session x)) = 1"
    using m unfolding x by (intro conjI bexI [of _ r]) (simp_all add: f attach_device_def pairable_def phase_def)
next
  assume a: "submitCommitmentForRegistration cy now draw rnd cin g = (Inr x, g')"
  obtain r u h where r: "first_row (committable now h) (t_registrations (rg_db g)) = Some r"
    and x: "st_session x = set_commitment u r"
    and t: "t_registrations (rg_db g') = update_rows (\<lambda>q. rs_id q = rs_id r) (set_commitment u) (t_registrations (rg_db g))"
    using commit_result [OF a] by (elim exE conjE) (rule that)
  have m: "r \<in> set (t_registrations (rg_db g))" "committable now h r" using first_row_SomeD [OF r] by simp_all
  then have "set_commitment u r \<in> set (t_registrations (rg_db g'))" unfolding t set_update_rows by force
  then show "(\<exists>r \<in> set (t_registrations (rg_db g)). phase (rs_state r) = 1 \<and> rs_id r = rs_id (st_session x)) \<and>
    st_session x \<in> set (t_registrations (rg_db g')) \<and> phase (rs_state (st_session x)) = 2"
    using m unfolding x by (intro conjI bexI [of _ r]) (simp_all add: set_commitment_def committable_def phase_def)
next
  assume a: "completeRegistration cy now newuser fin g = (Inr y, g')"
  obtain r h where r: "first_row (verifiable now h) (t_registrations (rg_db g)) = Some r"
    and st: "store_completion cy now newuser r g = (Inr y, g')"
    using completion_result [OF a] by (elim exE conjE) (rule that)
  have x: "fr_session y = finish_registration (newuser, now) r"
    and t: "t_registrations (rg_db g') = update_rows (\<lambda>q. rs_id q = rs_id r) (finish_registration (newuser, now)) (t_registrations (rg_db g))"
    using store_result [OF st] by auto
  have m: "r \<in> set (t_registrations (rg_db g))" "verifiable now h r" using first_row_SomeD [OF r] by simp_all
  then have "finish_registration (newuser, now) r \<in> set (t_registrations (rg_db g'))" unfolding t set_update_rows by force
  then show "(\<exists>r \<in> set (t_registrations (rg_db g)). phase (rs_state r) = 2 \<and> rs_id r = rs_id (fr_session y)) \<and>
    fr_session y \<in> set (t_registrations (rg_db g')) \<and> phase (rs_state (fr_session y)) = 3"
    using m unfolding x by (intro conjI bexI [of _ r]) (simp_all add: finish_registration_def verifiable_def phase_def)
qed

lemma step_keeps_inv: "registration_sound g g' \<Longrightarrow> registration_inv g \<Longrightarrow> registration_inv g'"
  by (simp add: registration_sound_def)

lemma not_again:
  assumes "registration_inv g1" "(registration_step cy)\<^sup>*\<^sup>* g1 g2" "q \<in> set (t_registrations (rg_db g1))"
    and "\<exists>r \<in> set (t_registrations (rg_db g2)). phase (rs_state r) = n \<and> rs_id r = i" "n < phase (rs_state q)"
  shows "i \<noteq> rs_id q"
  using phase_later [OF assms(1-3)] assms(4,5) by force

text \<open>Property C10.  Every code is single use.  Each of the three steps succeeds at most once per
  registration session: after a phone was paired, a commitment taken or a registration
  completed, no later call of the same step succeeds for that session, with whatever code and
  whatever happened in between.\<close>

theorem each_step_once:
  assumes "registration_inv g" and "(registration_step cy)\<^sup>*\<^sup>* g1 g2"
  shows "(pairDeviceForRegistration cy now newdev draw pin g = (Inr x, g1) \<longrightarrow>
      pairDeviceForRegistration cy now' newdev' draw' pin' g2 = (Inr x', g3) \<longrightarrow>
      rs_id (st_session x') \<noteq> rs_id (st_session x)) \<and>
    (submitCommitmentForRegistration cy now draw rnd cin g = (Inr x, g1) \<longrightarrow>
      submitCommitmentForRegistration cy now' draw' rnd' cin' g2 = (Inr x', g3) \<longrightarrow>
      rs_id (st_session x') \<noteq> rs_id (st_session x)) \<and>
    (completeRegistration cy now newuser fin g = (Inr y, g1) \<longrightarrow>
      completeRegistration cy now' newuser' fin' g2 = (Inr y', g3) \<longrightarrow>
      rs_id (fr_session y') \<noteq> rs_id (fr_session y))"
proof (intro conjI impI)
  assume a: "pairDeviceForRegistration cy now newdev draw pin g = (Inr x, g1)"
    "pairDeviceForRegistration cy now' newdev' draw' pin' g2 = (Inr x', g3)"
  have "registration_inv g1" using step_keeps_inv [OF sound_steps(1) assms(1)] a(1) by (metis snd_conv)
  then show "rs_id (st_session x') \<noteq> rs_id (st_session x)"
    by (rule not_again [OF _ assms(2), where n = 0]) (use step_phases(1) [OF a(1)] step_phases(1) [OF a(2)] in simp_all)
next
  assume a: "submitCommitmentForRegistration cy now draw rnd cin g = (Inr x, g1)"
    "submitCommitmentForRegistration cy now' draw' rnd' cin' g2 = (Inr x', g3)"
  have "registration_inv g1" using step_keeps_inv [OF sound_steps(2) assms(1)] a(1) by (metis snd_conv)
  then show "rs_id (st_session x') \<noteq> rs_id (st_session x)"
    by (rule not_again [OF _ assms(2), where n = 1]) (use step_phases(2) [OF a(1)] step_phases(2) [OF a(2)] in simp_all)
next
  assume a: "completeRegistration cy now newuser fin g = (Inr y, g1)"
    "completeRegistration cy now' newuser' fin' g2 = (Inr y', g3)"
  have "registration_inv g1" using step_keeps_inv [OF sound_steps(3) assms(1)] a(1) by (metis snd_conv)
  then show "rs_id (fr_session y') \<noteq> rs_id (fr_session y)"
    by (rule not_again [OF _ assms(2), where n = 2]) (use step_phases(3) [OF a(1)] step_phases(3) [OF a(2)] in simp_all)
qed

section \<open>Reading commitments\<close>

lemma trim_hex: "\<forall>c \<in> set s. is_lower_hex c \<Longrightarrow> trim s = s"
  by (rule trim_id) (auto dest: lower_hex_not_space)

lemma trim_0x: "\<forall>c \<in> set s. is_lower_hex c \<Longrightarrow> trim (''0x'' @ s) = ''0x'' @ s"
proof (rule trim_id, intro ballI)
  fix c
  assume "\<forall>c \<in> set s. is_lower_hex c" "c \<in> set (''0x'' @ s)"
  then have "c = CHR ''0'' \<or> c = CHR ''x'' \<or> is_lower_hex c" by auto
  then show "\<not> is_space c" using lower_hex_not_space by (auto simp: is_space_def)
qed

lemma hex_no_prefix:
  "\<forall>c \<in> set s. is_lower_hex c \<Longrightarrow> \<not> starts_with ''0x'' s \<and> \<not> starts_with ''0X'' s"
  by (cases s rule: remdups_adj.cases) (auto simp: is_lower_hex_def is_digit_def)

lemma parse_0x:
  "\<forall>c \<in> set s. is_lower_hex c \<Longrightarrow> parseCommitmentBigInt (JStr (''0x'' @ s)) = map_option int (from_base 16 s)"
  using trim_0x [of s] bigint_of_0x [of s] by (simp add: parseCommitmentBigInt_def)

lemma parse_hex:
  assumes "s \<noteq> []" "\<forall>c \<in> set s. is_lower_hex c" "list_ex is_hex_letter s"
  shows "parseCommitmentBigInt (JStr s) = map_option int (from_base 16 s)"
  using assms trim_hex [OF assms(2)] hex_no_prefix [OF assms(2)] bigint_of_0x [OF assms(2)]
  by (simp add: parseCommitmentBigInt_def)

lemma parse_digits:
  assumes "s \<noteq> []" "\<forall>c \<in> set s. is_digit c"
  shows "parseCommitmentBigInt (JStr s) = map_option int (from_base 10 s)"
proof -
  have h: "\<forall>c \<in> set s. is_lower_hex c" using assms(2) is_digit_lower_hex by blast
  have "\<not> list_ex is_hex_letter s" using assms(2) by (auto simp: list_ex_iff is_hex_letter_def)
  then show ?thesis
    using assms trim_hex [OF h] hex_no_prefix [OF h] bigint_of_digits [OF assms]
    by (simp add: parseCommitmentBigInt_def)
qed

lemma parse_dec: "parseCommitmentBigInt (JStr (dec_nat n)) = Some (int n)"
  by (simp add: parse_digits dec_nat_digits)

lemma hex_value: "\<forall>c \<in> set s. is_lower_hex c \<Longrightarrow> s \<noteq> [] \<Longrightarrow> \<exists>n. from_base 16 s = Some n"
  using digit_val_lower_hex from_digits_total [of s 16 0] by (simp add: from_base_def)

lemma digits_read_smaller:
  assumes "\<forall>c \<in> set s. is_digit c" "a < b" "from_digits 10 a s = Some d" "from_digits 16 b s = Some h"
  shows "d < h"
  using assms
proof (induction s arbitrary: a b)
  case (Cons c s)
  obtain x where x: "x < 10" "digit_val c = Some x" using digit_val_is_digit [of c] Cons.prems(1) by auto
  have "a * 10 + x < b * 16 + x" using Cons.prems(2) by simp
  then show ?case using Cons.IH [of "a * 10 + x" "b * 16 + x"] Cons.prems x by simp
qed simp

lemma digit_zero:
  assumes "is_digit c" "digit_val c = Some 0"
  shows "c = CHR ''0''"
proof -
  have "of_char c = (48 :: nat)" using assms by (simp add: digit_val_def is_digit_def Let_def split: if_splits)
  then have "of_char c = (of_char (CHR ''0'') :: nat)" by simp
  then show ?thesis by (simp only: of_char_eq_iff)
qed

lemma two_digits_smaller:
  assumes "\<forall>c \<in> set s. is_digit c" "2 \<le> length s" "hd s \<noteq> CHR ''0''" "from_base 10 s = Some d" "from_base 16 s = Some h"
  shows "d < h"
proof -
  obtain c e t where s: "s = c # e # t" using assms(2) by (cases s; cases "tl s") auto
  obtain x y where x: "x < 10" "digit_val c = Some x" and y: "y < 10" "digit_val e = Some y"
    using digit_val_is_digit [of c] digit_val_is_digit [of e] assms(1) s by auto
  have "x \<noteq> 0" using digit_zero [of c] x assms(1,3) s by auto
  then have lt: "x * 10 + y < x * 16 + y" by simp
  have "from_digits 10 (x * 10 + y) t = Some d" "from_digits 16 (x * 16 + y) t = Some h"
    using assms(4,5) x y by (simp_all add: from_base_def s)
  moreover have "\<forall>c \<in> set t. is_digit c" using assms(1) s by simp
  ultimately show ?thesis using digits_read_smaller [OF _ lt] by blast
qed

text \<open>A commitment whose hexadecimal form happens to contain no letter cannot be used: it is
  stored as submitted, but read as a decimal number, so the decimal value an honest prover
  publishes for it is never found equal to it.\<close>

theorem digit_commitment_misread:
  assumes "\<forall>c \<in> set s. is_digit c" and "2 \<le> length s" and "hd s \<noteq> CHR ''0''" and "from_base 16 s = Some h"
  shows "commitmentsEqual (JStr (dec_nat h)) (JStr s) = False \<and>
    commitmentsEqual (JStr (dec_nat h)) (JStr (''0x'' @ s))"
proof -
  have "s \<noteq> []" using assms(2) by auto
  then obtain d where d: "from_base 10 s = Some d"
    using from_digits_total [of s 10 0] digit_val_is_digit assms(1) by (auto simp: from_base_def)
  have h: "\<forall>c \<in> set s. is_lower_hex c" using assms(1) is_digit_lower_hex by blast
  have "d < h" by (rule two_digits_smaller [OF assms(1-3) d assms(4)])
  then show ?thesis
    using d parse_dec [of h] parse_digits [OF \<open>s \<noteq> []\<close> assms(1)] parse_0x [OF h] assms(4)
    by (simp add: commitmentsEqual_def)
qed

theorem digit_commitment_misread_witness:
  "commitmentsEqual (JStr (dec_nat 0x12345678123456781234567812345678)) (JStr ''12345678123456781234567812345678'') = False"
proof -
  have "\<forall>c \<in> set ''12345678123456781234567812345678''. is_digit c" by code_simp
  moreover have "from_base 16 ''12345678123456781234567812345678'' = Some 0x12345678123456781234567812345678"
    by (simp add: from_base_def digit_val_def)
  ultimately show ?thesis
    using digit_commitment_misread [of "''12345678123456781234567812345678''"] by simp
qed

section \<open>A sample run\<close>

definition demo_ceremony :: ceremony where
  "demo_ceremony = \<lparr> cy_sha = (\<lambda>s. s), cy_poseidon1 = (\<lambda>x. x + 1), cy_verify = (\<lambda>_ _. Some True),
     cy_production = True, cy_demo_tenant = ''demo'' \<rparr>"

definition demo_actor :: audit_actor where
  "demo_actor = \<lparr> ac_type = ActorApiKey, ac_id = Some ''key'', ac_email = None \<rparr>"

definition empty_registry :: registry where
  "empty_registry = \<lparr> rg_db = empty_server, rg_codes = Map.empty \<rparr>"

definition demo_did :: string where
  "demo_did = ''did:zeroauth:face:0123456789abcdef''"

definition demo_hex :: string where
  "demo_hex = ''0a000000000000000000000000000001''"

text \<open>Two sessions, the first of which is paired, committed and completed.\<close>

definition demo_started :: registry where
  "demo_started = snd (startRegistration demo_ceremony 0 ''s2'' (\<lambda>_. 6) ''t'' Live (JObj []) demo_actor
     (snd (startRegistration demo_ceremony 0 ''s1'' (\<lambda>_. 0) ''t'' Live (JObj [(''name'', JStr ''Ada'')]) demo_actor
       empty_registry)))"

definition demo_pair :: "(nat \<Rightarrow> nat) \<Rightarrow> string \<Rightarrow> pair_input" where
  "demo_pair draw fp = \<lparr> pi_code = lower (generateEnrollmentCode draw), pi_fingerprint = fp,
     pi_attestation = None, pi_ip = None, pi_user_agent = None \<rparr>"

definition demo_paired :: "(registration_error + step_result) \<times> registry" where
  "demo_paired = pairDeviceForRegistration demo_ceremony 1 ''d1'' (\<lambda>_. 2) (demo_pair (\<lambda>_. 0) ''0123456789abcdef'') demo_started"

definition demo_paired_again :: "(registration_error + step_result) \<times> registry" where
  "demo_paired_again = pairDeviceForRegistration demo_ceremony 2 ''d2'' (\<lambda>_. 3) (demo_pair (\<lambda>_. 6) ''fedcba9876543210'')
     (snd demo_paired)"

definition demo_committed :: "(registration_error + step_result) \<times> registry" where
  "demo_committed = submitCommitmentForRegistration demo_ceremony 3 (\<lambda>_. 4) (\<lambda>_. 7)
     \<lparr> cm_code = generateEnrollmentCode (\<lambda>_. 2), cm_did = demo_did, cm_commitment = demo_hex, cm_attestation = None \<rparr>
     (snd demo_paired_again)"

definition demo_complete :: "string \<Rightarrow> complete_input" where
  "demo_complete c = \<lparr> fi_code = JStr (generateEnrollmentCode (\<lambda>_. 4)),
     fi_nonce = JStr (generateChallengeNonce (\<lambda>_. 7)), fi_proof = JObj [], fi_signals = JArr [JStr c] \<rparr>"

definition demo_completed :: "(registration_error + complete_result) \<times> registry" where
  "demo_completed = completeRegistration demo_ceremony 4 ''u1'' (demo_complete (''0x'' @ demo_hex)) (snd demo_committed)"

definition succeeds :: "('e + 'a) \<times> 's \<Rightarrow> bool" where
  "succeeds r = (case fst r of Inl _ \<Rightarrow> False | Inr _ \<Rightarrow> True)"

lemma succeeds_iff: "succeeds r \<longleftrightarrow> (\<exists>x. r = (Inr x, snd r))"
  by (cases r) (auto simp: succeeds_def split: sum.splits)

lemma succeedsD: "succeeds r \<Longrightarrow> r = (Inr (projr (fst r)), snd r)"
  by (cases r) (auto simp: succeeds_def split: sum.splits)

lemma demo_codes:
  "generateEnrollmentCode (\<lambda>_. 0) = ''ZA-2222-2222''" "generateEnrollmentCode (\<lambda>_. 6) = ''ZA-8888-8888''"
  "generateEnrollmentCode (\<lambda>_. 2) = ''ZA-4444-4444''" "generateEnrollmentCode (\<lambda>_. 3) = ''ZA-5555-5555''"
  "generateEnrollmentCode (\<lambda>_. 4) = ''ZA-6666-6666''"
  "normaliseEnrollmentCode (lower ''ZA-2222-2222'') = ''ZA-2222-2222''"
  "normaliseEnrollmentCode (lower ''ZA-8888-8888'') = ''ZA-8888-8888''"
  "normaliseEnrollmentCode ''ZA-4444-4444'' = ''ZA-4444-4444''"
  "normaliseEnrollmentCode ''ZA-6666-6666'' = ''ZA-6666-6666''"
  by code_simp+

lemma demo_shapes:
  "isValidFingerprint ''0123456789abcdef''" "isValidFingerprint ''fedcba9876543210''"
  "did_shape demo_did" "commitment_shape demo_hex" "lower (trim demo_did) = demo_did" "lower (trim demo_hex) = demo_hex"
  "generateChallengeNonce (\<lambda>_. 7) \<noteq> []" "demo_hex \<noteq> []" "list_all is_lower_hex demo_hex" "list_ex is_hex_letter demo_hex"
  by code_simp+

lemma empty_registry_inv: "registration_inv empty_registry"
  by (simp add: registration_inv_def empty_registry_def empty_server_def)

lemma demo_started_inv: "registration_inv demo_started"
  unfolding demo_started_def by (intro step_keeps_inv [OF sound_start] empty_registry_inv)

lemma demo_started_users: "t_users (rg_db demo_started) = []"
  by (simp add: demo_started_def startRegistration_def Let_def empty_registry_def empty_server_def new_registration_def)

lemma demo_started_rows:
  "t_registrations (rg_db demo_started) =
     [new_registration (\<lambda>s. s) 0 ''s1'' ''ZA-2222-2222'' ''t'' Live (JObj [(''name'', JStr ''Ada'')]),
      new_registration (\<lambda>s. s) 0 ''s2'' ''ZA-8888-8888'' ''t'' Live (JObj [])]"
  and demo_started_devices: "t_devices (rg_db demo_started) = []"
proof -
  have "sanitizeProfile (JObj [(''name'', JStr ''Ada'')]) = JObj [(''name'', JStr ''Ada'')]"
    "sanitizeProfile (JObj []) = JObj []"
    by code_simp+
  then show "t_registrations (rg_db demo_started) =
     [new_registration (\<lambda>s. s) 0 ''s1'' ''ZA-2222-2222'' ''t'' Live (JObj [(''name'', JStr ''Ada'')]),
      new_registration (\<lambda>s. s) 0 ''s2'' ''ZA-8888-8888'' ''t'' Live (JObj [])]"
    and "t_devices (rg_db demo_started) = []"
    by (simp_all add: demo_started_def startRegistration_def Let_def empty_registry_def empty_server_def
        demo_ceremony_def demo_codes new_registration_def [of _ _ "''s1''"])
qed

lemma demo_paired_rows:
  "succeeds demo_paired \<and> t_users (rg_db (snd demo_paired)) = [] \<and>
   t_devices (rg_db (snd demo_paired)) = [registration_device 1 ''d1'' ''0123456789abcdef'' ''none'' (hd (t_registrations (rg_db demo_started)))] \<and>
   t_registrations (rg_db (snd demo_paired)) =
     [attach_device (''d1'', ''ZA-4444-4444'', 1 + ENROLLMENT_CODE_TTL_MS, 1) (hd (t_registrations (rg_db demo_started))),
      hd (tl (t_registrations (rg_db demo_started)))]"
  by (simp add: demo_paired_def pairDeviceForRegistration_def demo_pair_def demo_shapes demo_codes Let_def
      demo_started_rows demo_started_devices demo_started_users demo_ceremony_def pairable_def live_code_def new_registration_def
      ENROLLMENT_CODE_TTL_MS_def REGISTRATION_SESSION_TTL_MS_def upsert_device_def insert_device_def
      update_registration_def succeeds_def fingerprintHash_def registration_device_def battery_ok_def)

lemma demo_paired_again_rows:
  "succeeds demo_paired_again \<and> t_users (rg_db (snd demo_paired_again)) = [] \<and>
   hd (t_registrations (rg_db (snd demo_paired_again))) = hd (t_registrations (rg_db (snd demo_paired))) \<and>
   t_registrations (rg_db (snd demo_paired_again)) \<noteq> []"
proof -
  have p: "t_users (rg_db (snd demo_paired)) = []"
    "t_devices (rg_db (snd demo_paired)) = [registration_device 1 ''d1'' ''0123456789abcdef'' ''none'' (hd (t_registrations (rg_db demo_started)))]"
    "t_registrations (rg_db (snd demo_paired)) =
     [attach_device (''d1'', ''ZA-4444-4444'', 1 + ENROLLMENT_CODE_TTL_MS, 1) (hd (t_registrations (rg_db demo_started))),
      hd (tl (t_registrations (rg_db demo_started)))]"
    using demo_paired_rows by simp_all
  show ?thesis
    by (simp add: demo_paired_again_def pairDeviceForRegistration_def demo_pair_def demo_shapes demo_codes Let_def
        p demo_started_rows demo_ceremony_def pairable_def live_code_def new_registration_def attach_device_def
        ENROLLMENT_CODE_TTL_MS_def REGISTRATION_SESSION_TTL_MS_def upsert_device_def insert_device_def
        update_registration_def succeeds_def fingerprintHash_def registration_device_def battery_ok_def
        device_key_def device_conflict_def)
qed

definition demo_session :: registration_session where
  "demo_session = attach_device (''d1'', ''ZA-4444-4444'', 1 + ENROLLMENT_CODE_TTL_MS, 1)
     (new_registration (\<lambda>s. s) 0 ''s1'' ''ZA-2222-2222'' ''t'' Live (JObj [(''name'', JStr ''Ada'')]))"

definition demo_update :: commitment_update where
  "demo_update = \<lparr> cu_did = demo_did, cu_commitment = demo_hex, cu_hash = ''ZA-6666-6666'',
     cu_expires = 3 + ENROLLMENT_CODE_TTL_MS, cu_nonce = generateChallengeNonce (\<lambda>_. 7), cu_now = 3 \<rparr>"

lemma demo_paired_head: "\<exists>rest. t_registrations (rg_db (snd demo_paired_again)) = demo_session # rest"
  using demo_paired_again_rows demo_paired_rows
  by (cases "t_registrations (rg_db (snd demo_paired_again))") (auto simp: demo_session_def demo_started_rows)

lemma demo_committed_rows:
  "succeeds demo_committed \<and> t_users (rg_db (snd demo_committed)) = [] \<and>
   (\<exists>rest. t_registrations (rg_db (snd demo_committed)) = set_commitment demo_update demo_session # rest)"
proof -
  obtain rest where r: "t_registrations (rg_db (snd demo_paired_again)) = demo_session # rest"
    using demo_paired_head by blast
  have c: "committable 3 ''ZA-4444-4444'' demo_session"
    by (simp add: committable_def demo_session_def attach_device_def live_code_def new_registration_def
        ENROLLMENT_CODE_TTL_MS_def REGISTRATION_SESSION_TTL_MS_def)
  show ?thesis
    using demo_paired_again_rows
    by (simp add: demo_committed_def submitCommitmentForRegistration_def demo_shapes demo_codes Let_def r c
        demo_ceremony_def demo_update_def update_registration_def succeeds_def)
qed

lemma demo_completed_ok: "succeeds demo_completed"
proof -
  obtain rest where r: "t_registrations (rg_db (snd demo_committed)) = set_commitment demo_update demo_session # rest"
    and u: "t_users (rg_db (snd demo_committed)) = []"
    using demo_committed_rows by blast
  have v: "verifiable 4 ''ZA-6666-6666'' (set_commitment demo_update demo_session)"
    by (simp add: verifiable_def demo_session_def attach_device_def live_code_def new_registration_def set_commitment_def
        demo_update_def ENROLLMENT_CODE_TTL_MS_def REGISTRATION_SESSION_TTL_MS_def)
  have h: "\<forall>c \<in> set demo_hex. is_lower_hex c" using demo_shapes by (simp add: list_all_iff)
  obtain n where n: "from_base 16 demo_hex = Some n" using hex_value [OF h] demo_shapes by auto
  have p: "parseCommitmentBigInt (JStr demo_hex) = Some (int n)" "parseCommitmentBigInt (JStr (''0x'' @ demo_hex)) = Some (int n)"
    using parse_hex [OF _ h] parse_0x [OF h] demo_shapes n by simp_all
  then have e: "commitmentsEqual (JStr (''0x'' @ demo_hex)) (JStr demo_hex)" by (simp add: commitmentsEqual_def)
  have f: "rs_verify_challenge_nonce (set_commitment demo_update demo_session) = Some (generateChallengeNonce (\<lambda>_. 7))"
    "rs_commitment (set_commitment demo_update demo_session) = Some demo_hex"
    by (simp_all add: set_commitment_def demo_update_def)
  show ?thesis
    using e p f
    by (simp add: demo_completed_def completeRegistration_def demo_complete_def demo_shapes demo_codes r v u
        demo_ceremony_def complete_checks_def store_completion_def Let_def succeeds_def insert_user_def
        opt_str_def)
qed

lemma demo_succeeds: "succeeds demo_paired" "succeeds demo_paired_again" "succeeds demo_committed" "succeeds demo_completed"
  using demo_paired_rows demo_paired_again_rows demo_committed_rows demo_completed_ok by simp_all

theorem registration_lifecycle_witness:
  "\<exists>q \<in> set (t_registrations (rg_db (snd demo_completed))). rs_id q = ''s1'' \<and> registration_ok q"
proof -
  have "registration_step demo_ceremony demo_started (snd demo_paired)"
    "registration_step demo_ceremony (snd demo_paired) (snd demo_paired_again)"
    "registration_step demo_ceremony (snd demo_paired_again) (snd demo_committed)"
    "registration_step demo_ceremony (snd demo_committed) (snd demo_completed)"
    unfolding demo_paired_def demo_paired_again_def demo_committed_def demo_completed_def
    by (rule reg_pair reg_commit reg_complete)+
  then have "(registration_step demo_ceremony)\<^sup>*\<^sup>* demo_started (snd demo_completed)"
    by (meson converse_rtranclp_into_rtranclp rtranclp.rtrancl_refl)
  from registration_lifecycle [OF this demo_started_inv]
  have l: "\<forall>r \<in> set (t_registrations (rg_db demo_started)). \<exists>q \<in> set (t_registrations (rg_db (snd demo_completed))).
     registration_evolves r q \<and> registration_ok q" by (rule conjunct2)
  have "\<exists>r \<in> set (t_registrations (rg_db demo_started)). rs_id r = ''s1''"
    by (simp add: demo_started_rows new_registration_def)
  with l show ?thesis unfolding registration_evolves_def by metis
qed

theorem each_step_once_witness:
  "rs_id (st_session (projr (fst demo_paired_again))) \<noteq> rs_id (st_session (projr (fst demo_paired)))"
proof -
  have p: "pairDeviceForRegistration demo_ceremony 1 ''d1'' (\<lambda>_. 2) (demo_pair (\<lambda>_. 0) ''0123456789abcdef'') demo_started
      = (Inr (projr (fst demo_paired)), snd demo_paired)"
    "pairDeviceForRegistration demo_ceremony 2 ''d2'' (\<lambda>_. 3) (demo_pair (\<lambda>_. 6) ''fedcba9876543210'') (snd demo_paired)
      = (Inr (projr (fst demo_paired_again)), snd demo_paired_again)"
    using demo_succeeds(1,2) [THEN succeedsD] unfolding demo_paired_def demo_paired_again_def by simp_all
  show ?thesis
    by (rule each_step_once [OF demo_started_inv rtranclp.rtrancl_refl, THEN conjunct1, THEN mp, THEN mp, OF p])
qed

section \<open>Completion is exact\<close>

text \<open>What the code must find on the session \<open>r\<close> the submitted code selects.\<close>

definition completion_conditions ::
  "ceremony \<Rightarrow> time_ms \<Rightarrow> complete_input \<Rightarrow> registry \<Rightarrow> registration_session \<Rightarrow> bool" where
  "completion_conditions cy now inp g r \<longleftrightarrow>
     (\<exists>code nonce signals c. fi_code inp = JStr code \<and> code \<noteq> [] \<and> fi_nonce inp = JStr nonce \<and> nonce \<noteq> []
        \<and> fi_signals inp = JArr signals \<and> signals \<noteq> []
        \<and> first_row (verifiable now (cy_sha cy (normaliseEnrollmentCode code))) (t_registrations (rg_db g)) = Some r
        \<and> rs_verify_challenge_nonce r = Some nonce \<and> rs_commitment r = Some c \<and> c \<noteq> []
        \<and> commitmentsEqual (hd signals) (JStr c) \<and> cy_verify cy (fi_proof inp) signals = Some True)"

lemma complete_checks_None:
  "complete_checks cy nonce proof signals r = None \<longleftrightarrow> rs_verify_challenge_nonce r = Some nonce
     \<and> (\<exists>c. rs_commitment r = Some c \<and> c \<noteq> [] \<and> commitmentsEqual (hd signals) (JStr c))
     \<and> cy_verify cy proof signals = Some True"
  by (auto simp: complete_checks_def split: option.splits if_splits)

lemma conditions_unfold:
  assumes "completion_conditions cy now inp g r"
  shows "completeRegistration cy now newuser inp g = store_completion cy now newuser r g"
    and "\<exists>n. parseCommitmentBigInt (opt_str (rs_commitment r)) = Some n"
proof -
  obtain code nonce signals c where r: "fi_code inp = JStr code" "code \<noteq> []" "fi_nonce inp = JStr nonce" "nonce \<noteq> []"
      "fi_signals inp = JArr signals" "signals \<noteq> []"
      "first_row (verifiable now (cy_sha cy (normaliseEnrollmentCode code))) (t_registrations (rg_db g)) = Some r"
    and c: "rs_verify_challenge_nonce r = Some nonce" "rs_commitment r = Some c" "c \<noteq> []"
      "commitmentsEqual (hd signals) (JStr c)" "cy_verify cy (fi_proof inp) signals = Some True"
    using assms unfolding completion_conditions_def by blast
  have "complete_checks cy nonce (fi_proof inp) signals r = None"
    using c by (simp add: complete_checks_None)
  then show "completeRegistration cy now newuser inp g = store_completion cy now newuser r g"
    using r by (simp add: completeRegistration_def)
  show "\<exists>n. parseCommitmentBigInt (opt_str (rs_commitment r)) = Some n"
    using c(2,4) by (auto simp: commitmentsEqual_def opt_str_def split: option.splits)
qed

text \<open>Property C15.  Completion is exact: a registration is completed just when the verify code selects a
  live session in time, the challenge nonce is the one of that session, the first public signal
  denotes the stored commitment, the verifier accepts the proof, and the new user breaks no
  unique index; then the session is completed and exactly one user is added, with the
  DID, the commitment and their decimal and hashed forms taken from the session.  In every other
  case nothing changes.\<close>

theorem registration_completed_iff:
  "case completeRegistration cy now newuser inp g of
     (Inr x, g') \<Rightarrow> (\<exists>r n. completion_conditions cy now inp g r \<and>
        parseCommitmentBigInt (opt_str (rs_commitment r)) = Some n \<and>
        fr_user x = registered_user cy now newuser r n \<and> \<not> list_ex (user_conflict (fr_user x)) (t_users (rg_db g)) \<and>
        t_users (rg_db g') = t_users (rg_db g) @ [fr_user x] \<and>
        t_registrations (rg_db g') = update_rows (\<lambda>q. rs_id q = rs_id r) (finish_registration (newuser, now))
          (t_registrations (rg_db g)))
   | (Inl er, g') \<Rightarrow> g' = g \<and> (\<forall>r. completion_conditions cy now inp g r \<longrightarrow>
        (\<exists>n. parseCommitmentBigInt (opt_str (rs_commitment r)) = Some n \<and>
          list_ex (user_conflict (registered_user cy now newuser r n)) (t_users (rg_db g))))"
proof (cases "completeRegistration cy now newuser inp g")
  case (Pair res g')
  show ?thesis
  proof (cases res)
    case (Inl er)
    have "g' = g" using failed_step_unchanged(3) Pair Inl by blast
    moreover have "\<exists>n. parseCommitmentBigInt (opt_str (rs_commitment r)) = Some n \<and>
        list_ex (user_conflict (registered_user cy now newuser r n)) (t_users (rg_db g))"
      if c: "completion_conditions cy now inp g r" for r
    proof -
      obtain n where n: "parseCommitmentBigInt (opt_str (rs_commitment r)) = Some n"
        using conditions_unfold(2) [OF c] by blast
      have "store_completion cy now newuser r g = (Inl er, g')"
        using conditions_unfold(1) [OF c] Pair Inl by metis
      then show ?thesis
        using n by (auto simp: store_completion_def Let_def insert_user_def split: option.splits if_splits)
    qed
    ultimately show ?thesis unfolding Pair Inl by simp
  next
    case (Inr x)
    obtain code nonce signals r where r: "fi_code inp = JStr code" "code \<noteq> []" "fi_nonce inp = JStr nonce" "nonce \<noteq> []"
        "fi_signals inp = JArr signals" "signals \<noteq> []"
        "first_row (verifiable now (cy_sha cy (normaliseEnrollmentCode code))) (t_registrations (rg_db g)) = Some r"
        "complete_checks cy nonce (fi_proof inp) signals r = None"
      and st: "store_completion cy now newuser r g = (Inr x, g')"
      using completion_result [OF Pair [unfolded Inr]] by (elim exE conjE) (rule that)
    have "completion_conditions cy now inp g r"
      using r unfolding completion_conditions_def complete_checks_None by blast
    then show ?thesis
      using store_result [OF st] unfolding Pair Inr prod.case sum.case by blast
  qed
qed

theorem registration_completed_iff_witness:
  "\<exists>x. fst demo_completed = Inr x \<and> length (t_users (rg_db (snd demo_completed))) = 1"
proof -
  obtain x g' where c: "completeRegistration demo_ceremony 4 ''u1'' (demo_complete (''0x'' @ demo_hex)) (snd demo_committed) = (Inr x, g')"
    using demo_completed_ok succeedsD [of demo_completed] unfolding demo_completed_def by metis
  show ?thesis
    using registration_completed_iff [where cy = demo_ceremony and now = 4 and newuser = "''u1''"
        and inp = "demo_complete (''0x'' @ demo_hex)" and g = "snd demo_committed"]
      demo_committed_rows
    unfolding demo_completed_def c by auto
qed

section \<open>Re-registration of a revoked device\<close>

text \<open>A phone whose device row was revoked is enrolled again by pairing it with any new
  registration of the tenant environment: the same row returns to the enrolled state, while its
  operational status stays what revocation made it.\<close>

theorem pairing_revives_revoked_device:
  assumes "devices_unique (rg_db g)" and "d \<in> set (t_devices (rg_db g))"
    and "pairDeviceForRegistration cy now newdev draw inp g = (Inr x, g')"
    and "rs_tenant_id (st_session x) = dv_tenant_id d" and "rs_environment (st_session x) = dv_environment d"
    and "dv_external_id d = ''dev_'' @ take 16 (fingerprintHash (cy_sha cy) (pi_fingerprint inp))"
  shows "\<exists>q \<in> set (t_devices (rg_db g')). dv_id q = dv_id d \<and> dv_enrollment_state q = Enrolled \<and>
    dv_status q = dv_status d \<and> rs_device_id (st_session x) = Some (dv_id d)"
proof -
  define fp where "fp = fingerprintHash (cy_sha cy) (pi_fingerprint inp)"
  obtain r f and dev :: device and db1 h att
    where f: "f = attach_device (dv_id dev, h, now + ENROLLMENT_CODE_TTL_MS, now)"
    and u: "upsert_device now (registration_device now newdev fp att r) (rg_db g) = Some (dev, db1)"
    and x: "st_session x = f r" and t: "t_devices (rg_db g') = t_devices db1"
    using pair_result [OF assms(3), folded fp_def] by (elim exE conjE) (rule that)
  define n where "n = registration_device now newdev fp att r"
  define P :: "device \<Rightarrow> bool" where "P = (\<lambda>q. device_key q = device_key n)"
  have k: "P d"
    using assms(4-6) by (simp add: P_def device_key_def n_def registration_device_def x f attach_device_def fp_def)
  have uniq: "distinct (map device_key (t_devices (rg_db g)))" "distinct (t_devices (rg_db g))"
    using assms(1) by (simp_all add: devices_unique_def distinct_map)
  have "q = d" if "q \<in> set (t_devices (rg_db g))" "P q" for q
    using that k assms(2) uniq(1) unfolding P_def by (metis distinct_map inj_onD)
  then have ret: "returning P (re_enroll (n, now)) (t_devices (rg_db g)) = [re_enroll (n, now) d]"
    using returning_unique [where P = P, OF uniq(2) assms(2) k] by blast
  then have "dev = re_enroll (n, now) d" "t_devices db1 = update_rows P (re_enroll (n, now)) (t_devices (rg_db g))"
    using u by (auto simp: upsert_device_def n_def [symmetric] P_def Let_def)
  moreover have "re_enroll (n, now) d \<in> set (update_rows P (re_enroll (n, now)) (t_devices (rg_db g)))"
    using assms(2) k unfolding set_update_rows by force
  ultimately show ?thesis
    unfolding t x f by (intro bexI [of _ dev]) (simp_all add: re_enroll_def n_def registration_device_def attach_device_def)
qed

definition demo_revoked :: device where
  "demo_revoked = (registration_device 0 ''d0'' ''0123456789abcdef'' ''none'' demo_session)
     \<lparr>dv_enrollment_state := Revoked, dv_status := DeviceRetired\<rparr>"

definition demo_with_revoked :: registry where
  "demo_with_revoked = demo_started\<lparr>rg_db := (rg_db demo_started)\<lparr>t_devices := [demo_revoked]\<rparr>\<rparr>"

theorem pairing_revives_revoked_device_witness:
  "\<exists>q \<in> set (t_devices (rg_db (snd (pairDeviceForRegistration demo_ceremony 1 ''d1'' (\<lambda>_. 2)
       (demo_pair (\<lambda>_. 0) ''0123456789abcdef'') demo_with_revoked)))).
     dv_id q = ''d0'' \<and> dv_enrollment_state q = Enrolled \<and> dv_status q = DeviceRetired"
proof -
  let ?p = "pairDeviceForRegistration demo_ceremony 1 ''d1'' (\<lambda>_. 2) (demo_pair (\<lambda>_. 0) ''0123456789abcdef'') demo_with_revoked"
  have dv: "t_devices (rg_db demo_with_revoked) = [demo_revoked]" by (simp add: demo_with_revoked_def)
  have row: "dv_id demo_revoked = ''d0''" "dv_tenant_id demo_revoked = ''t''" "dv_environment demo_revoked = Live"
    "dv_external_id demo_revoked = ''dev_0123456789abcdef''" "dv_status demo_revoked = DeviceRetired" "battery_ok demo_revoked"
    by (simp_all add: demo_revoked_def registration_device_def demo_session_def attach_device_def new_registration_def battery_ok_def)
  have "\<exists>x. fst ?p = Inr x \<and> rs_tenant_id (st_session x) = ''t'' \<and> rs_environment (st_session x) = Live"
    by (simp add: pairDeviceForRegistration_def demo_pair_def demo_shapes demo_codes Let_def demo_with_revoked_def
        demo_started_rows demo_ceremony_def pairable_def live_code_def new_registration_def attach_device_def
        ENROLLMENT_CODE_TTL_MS_def REGISTRATION_SESSION_TTL_MS_def upsert_device_def fingerprintHash_def
        registration_device_def device_key_def row)
  then obtain x where x: "?p = (Inr x, snd ?p)" "rs_tenant_id (st_session x) = ''t''" "rs_environment (st_session x) = Live"
    by (metis prod.collapse)
  have "devices_unique (rg_db demo_with_revoked)" by (simp add: devices_unique_def dv row)
  from pairing_revives_revoked_device [OF this _ x(1), of demo_revoked] show ?thesis
    using x(2,3) by (auto simp: dv row demo_ceremony_def demo_pair_def fingerprintHash_def)
qed

end
