(* ===== verification/Sign_In.thy ===== *)
theory Sign_In
  imports Registration Pairing
begin

text \<open>
  The hand-over from \<open>src/services/registration.ts\<close> to
  \<open>src/services/proof-pairing.ts\<close>: the metadata written for a registered user are what
  the sign-in path looks up.
\<close>

lemma bigint_of_dec_int: "bigint_of_string (dec_int i) = Some i"
proof (cases "i < 0")
  case True
  let ?n = "nat (- i)"
  have "trim (CHR ''-'' # dec_nat ?n) = CHR ''-'' # dec_nat ?n"
    by (rule trim_id) (use dec_nat_digits digit_not_space in \<open>auto simp: is_space_def\<close>)
  then show ?thesis using True by (simp add: dec_int_def bigint_of_string_def)
next
  case False
  then show ?thesis by (simp add: dec_int_def)
qed

lemma trim_dec_int: "trim (dec_int i) = dec_int i"
  by (rule trim_id) (use dec_nat_digits digit_not_space in \<open>auto simp: dec_int_def is_space_def split: if_splits\<close>)

lemma parse_signal_dec: "parseBigIntFromSignal (JStr (dec_int i)) = Some i"
  by (simp add: parseBigIntFromSignal_def Let_def trim_dec_int bigint_of_dec_int)

lemma registered_metadata:
  "jget ''did'' (us_metadata (registered_user cy now i r n)) = opt_str (rs_did r)"
  "jget ''did_hash'' (us_metadata (registered_user cy now i r n)) = JStr (dec_int (cy_poseidon1 cy n))"
  "jget ''commitment'' (us_metadata (registered_user cy now i r n)) = JStr (dec_int n)"
  by (simp_all add: registered_user_def Let_def jget_def or_else_def)

text \<open>Checks 5 to 7 pass on the decimal signals of an honest prover.\<close>

lemma honest_signals_pass:
  assumes "nonceHexToField (ps_nonce_hex row) = Some nonce"
    and "sc_commitment user = dec_int n" and "sc_did_hash user = dec_int h"
  shows "check_signals poseidon row user (JArr [JStr (dec_int n), JStr (dec_int (poseidon h nonce)), z]) = None"
  using assms by (simp add: check_signals_def array_of_def parse_signal_dec timingSafeBigIntEqual_def)

lemma first_registered:
  assumes "\<forall>u \<in> set users. \<not> P u" and "P u"
  shows "first_row P (users @ [u]) = Some u"
  using assms by (simp add: first_row_append first_row_None_iff [symmetric])

text \<open>Property C12.  Who completes a registration can sign in.  If no user of the tenant environment
  claimed the DID in its metadata before, the sign-in path resolves the DID of the completed
  session to the new user with the decimal commitment and its Poseidon hash, and the honest
  public signals (that commitment, the hash bound to the nonce of a pairing session, and any
  third signal) pass all its signal checks.\<close>

theorem registered_user_can_sign_in:
  assumes "completeRegistration cy now newuser inp g = (Inr x, g')"
    and "rs_did (fr_session x) = Some did"
    and "\<forall>u \<in> set (t_users (rg_db g)). us_tenant_id u = rs_tenant_id (fr_session x) \<longrightarrow>
      us_environment u = rs_environment (fr_session x) \<longrightarrow> member_text_of (jget ''did'' (us_metadata u)) \<noteq> Some did"
    and "nonceHexToField (ps_nonce_hex row) = Some nonce"
  shows "\<exists>n user. parseCommitmentBigInt (opt_str (rs_commitment (fr_session x))) = Some n \<and>
    findUserByDid (rs_tenant_id (fr_session x)) (rs_environment (fr_session x)) did (rg_db g') = Some user \<and>
    sc_id user = newuser \<and> sc_commitment user = dec_int n \<and> sc_did_hash user = dec_int (cy_poseidon1 cy n) \<and>
    check_signals poseidon row user (JArr [JStr (dec_int n), JStr (dec_int (poseidon (cy_poseidon1 cy n) nonce)), z]) = None"
proof -
  obtain r where st: "store_completion cy now newuser r g = (Inr x, g')"
    using completion_result [OF assms(1)] by (elim exE conjE) (rule that)
  obtain n where n: "parseCommitmentBigInt (opt_str (rs_commitment r)) = Some n"
    and u: "fr_user x = registered_user cy now newuser r n" and f: "fr_session x = finish_registration (newuser, now) r"
    and t: "t_users (rg_db g') = t_users (rg_db g) @ [fr_user x]"
    using store_result [OF st] by blast
  have s: "rs_tenant_id (fr_session x) = rs_tenant_id r" "rs_environment (fr_session x) = rs_environment r"
    "rs_did r = Some did" "rs_commitment (fr_session x) = rs_commitment r"
    using assms(2) by (simp_all add: f finish_registration_def)
  define P :: "tenant_user \<Rightarrow> bool" where "P = (\<lambda>u. us_tenant_id u = rs_tenant_id r \<and> us_environment u = rs_environment r
      \<and> member_text_of (jget ''did'' (us_metadata u)) = Some did)"
  have "\<forall>u \<in> set (t_users (rg_db g)). \<not> P u" using assms(3) by (auto simp: P_def s)
  moreover have "P (fr_user x)"
    unfolding P_def u registered_metadata
    by (simp add: registered_user_def Let_def s opt_str_def member_text_of_def)
  ultimately have "first_row P (t_users (rg_db g')) = Some (fr_user x)" unfolding t by (rule first_registered)
  then have found: "findUserByDid (rs_tenant_id r) (rs_environment r) did (rg_db g') =
      Some \<lparr> sc_id = newuser, sc_did_hash = dec_int (cy_poseidon1 cy n), sc_commitment = dec_int n \<rparr>"
    unfolding P_def findUserByDid_def u
    by (simp add: nonempty_member_def registered_metadata) (simp add: registered_user_def Let_def)
  show ?thesis
    unfolding s
    by (intro exI conjI, rule n, rule found) (simp_all add: honest_signals_pass [OF assms(4)])
qed

lemma demo_completed_parts:
  "\<exists>x. completeRegistration demo_ceremony 4 ''u1'' (demo_complete (''0x'' @ demo_hex)) (snd demo_committed) = (Inr x, snd demo_completed)
     \<and> rs_did (fr_session x) = Some demo_did \<and> rs_tenant_id (fr_session x) = ''t'' \<and> rs_environment (fr_session x) = Live"
proof -
  obtain x where c: "completeRegistration demo_ceremony 4 ''u1'' (demo_complete (''0x'' @ demo_hex)) (snd demo_committed) = (Inr x, snd demo_completed)"
    using demo_succeeds(4) [THEN succeedsD] unfolding demo_completed_def by metis
  obtain r code where r: "first_row (verifiable 4 (cy_sha demo_ceremony (normaliseEnrollmentCode code))) (t_registrations (rg_db (snd demo_committed))) = Some r"
    and code: "fi_code (demo_complete (''0x'' @ demo_hex)) = JStr code"
    and st: "store_completion demo_ceremony 4 ''u1'' r (snd demo_committed) = (Inr x, snd demo_completed)"
    using completion_result [OF c] by (elim exE conjE) (rule that)
  have "cy_sha demo_ceremony (normaliseEnrollmentCode code) = ''ZA-6666-6666''"
    using code by (auto simp: demo_complete_def demo_ceremony_def demo_codes)
  moreover obtain rest where "t_registrations (rg_db (snd demo_committed)) = set_commitment demo_update demo_session # rest"
    using demo_committed_rows by blast
  moreover have "verifiable 4 ''ZA-6666-6666'' (set_commitment demo_update demo_session)"
    by (simp add: verifiable_def demo_session_def attach_device_def live_code_def new_registration_def set_commitment_def
        demo_update_def ENROLLMENT_CODE_TTL_MS_def REGISTRATION_SESSION_TTL_MS_def)
  ultimately have "r = set_commitment demo_update demo_session" using r by simp
  moreover have "fr_session x = finish_registration (''u1'', 4) r" using store_result [OF st] by blast
  ultimately show ?thesis
    using c by (simp add: finish_registration_def set_commitment_def demo_update_def demo_session_def
        attach_device_def new_registration_def)
qed

theorem registered_user_can_sign_in_witness:
  "\<exists>user. findUserByDid ''t'' Live demo_did (rg_db (snd demo_completed)) = Some user \<and> sc_id user = ''u1''"
proof -
  obtain x where x: "completeRegistration demo_ceremony 4 ''u1'' (demo_complete (''0x'' @ demo_hex)) (snd demo_committed) = (Inr x, snd demo_completed)"
    "rs_did (fr_session x) = Some demo_did" "rs_tenant_id (fr_session x) = ''t''" "rs_environment (fr_session x) = Live"
    using demo_completed_parts by blast
  have "t_users (rg_db (snd demo_committed)) = []" using demo_committed_rows by blast
  then show ?thesis
    using registered_user_can_sign_in [OF x(1,2) _ demo_nonce] x(3,4) by auto
qed

end
