(* ===== verification/Sessions.thy ===== *)
theory Sessions
  imports Prelude "HOL-Library.AList"
begin

text \<open>
  The two session stores of \<open>src/services/session-store.ts\<close>.  A \<open>Map\<close> in
  insertion order is an association list with \<open>AList.update\<close>; the ISO time stamps of
  a session are instants.  The Postgres table is a list of rows and each fire-and-forget write
  comes with a flag telling whether it succeeded; the commands sent to Redis are an output and
  its replies an input, so nothing is assumed of the server.
\<close>

datatype provider = PSaml | POidc | PZkp

record user_session =
  se_id :: string
  se_user :: string
  se_provider :: provider
  se_verified :: bool
  se_created :: time_ms
  se_expires :: time_ms
  se_did :: "string option"

record verification_count =
  vc_saml :: nat
  vc_oidc :: nat
  vc_zkp :: nat

type_synonym cache = "(string \<times> user_session) list"

definition no_counts :: verification_count where
  "no_counts = \<lparr> vc_saml = 0, vc_oidc = 0, vc_zkp = 0 \<rparr>"

definition count_provider :: "provider \<Rightarrow> verification_count \<Rightarrow> verification_count" where
  "count_provider p c = (case p of
       PSaml \<Rightarrow> c\<lparr>vc_saml := vc_saml c + 1\<rparr>
     | POidc \<Rightarrow> c\<lparr>vc_oidc := vc_oidc c + 1\<rparr>
     | PZkp \<Rightarrow> c\<lparr>vc_zkp := vc_zkp c + 1\<rparr>)"

text \<open>\<open>AdminStats\<close>, less the constant confirmation text.\<close>

record admin_stats =
  as_total :: nat
  as_active :: nat
  as_breakdown :: verification_count
  as_uptime :: int

definition expired :: "time_ms \<Rightarrow> user_session \<Rightarrow> bool" where
  "expired now s \<longleftrightarrow> se_expires s < now"

definition prune :: "time_ms \<Rightarrow> cache \<Rightarrow> cache" where
  "prune now c = filter (\<lambda>e. \<not> expired now (snd e)) c"

definition stats_of :: "time_ms \<Rightarrow> time_ms \<Rightarrow> verification_count \<Rightarrow> cache \<Rightarrow> admin_stats" where
  "stats_of now start counts c = \<lparr> as_total = vc_saml counts + vc_oidc counts + vc_zkp counts,
     as_active = length c, as_breakdown = counts, as_uptime = (now - start) div 1000 \<rparr>"

section \<open>In memory, written through to Postgres\<close>

record memory_store =
  ms_sessions :: cache
  ms_counts :: verification_count
  ms_start :: time_ms
  ms_hydrated :: bool
  ms_timer :: bool
  ms_table :: "user_session list"

definition new_memory_store :: "time_ms \<Rightarrow> user_session list \<Rightarrow> memory_store" where
  "new_memory_store now table = \<lparr> ms_sessions = [], ms_counts = no_counts, ms_start = now,
     ms_hydrated = False, ms_timer = False, ms_table = table \<rparr>"

definition hydrate_row :: "user_session \<Rightarrow> cache \<Rightarrow> cache" where
  "hydrate_row row c = AList.update (se_id row) (row\<lparr>se_did := None\<rparr>) c"

definition init :: "bool \<Rightarrow> time_ms \<Rightarrow> memory_store \<Rightarrow> memory_store" where
  "init readable now st =
     (if ms_hydrated st then st
      else st\<lparr>ms_sessions := (if readable
                then fold hydrate_row (select_rows (\<lambda>r. now < se_expires r) (ms_table st)) (ms_sessions st)
                else ms_sessions st),
              ms_hydrated := True, ms_timer := True\<rparr>)"

definition stop :: "memory_store \<Rightarrow> memory_store" where
  "stop st = st\<lparr>ms_timer := False\<rparr>"

text \<open>\<open>INSERT ... ON CONFLICT (session_id) DO UPDATE\<close>: the creation time is not rewritten.\<close>

definition overwrite :: "user_session \<Rightarrow> user_session \<Rightarrow> user_session" where
  "overwrite s r = s\<lparr>se_created := se_created r\<rparr>"

definition persistCreate :: "user_session \<Rightarrow> user_session list \<Rightarrow> user_session list" where
  "persistCreate s table =
     (if list_ex (\<lambda>r. se_id r = se_id s) table
      then update_rows (\<lambda>r. se_id r = se_id s) (overwrite s) table else table @ [s])"

definition persistDelete :: "string \<Rightarrow> user_session list \<Rightarrow> user_session list" where
  "persistDelete i table = delete_rows (\<lambda>r. se_id r = i) table"

definition create :: "bool \<Rightarrow> user_session \<Rightarrow> memory_store \<Rightarrow> memory_store" where
  "create written s st =
     st\<lparr>ms_sessions := AList.update (se_id s) s (ms_sessions st),
        ms_counts := count_provider (se_provider s) (ms_counts st),
        ms_table := (if written then persistCreate s (ms_table st) else ms_table st)\<rparr>"

definition delete_session :: "bool \<Rightarrow> string \<Rightarrow> memory_store \<Rightarrow> bool \<times> memory_store" where
  "delete_session written i st =
     (map_of (ms_sessions st) i \<noteq> None,
      st\<lparr>ms_sessions := AList.delete i (ms_sessions st),
         ms_table := (if written then persistDelete i (ms_table st) else ms_table st)\<rparr>)"

definition get_session :: "bool \<Rightarrow> time_ms \<Rightarrow> string \<Rightarrow> memory_store \<Rightarrow> user_session option \<times> memory_store" where
  "get_session written now i st =
     (case map_of (ms_sessions st) i of
        Some s \<Rightarrow> if expired now s then (None, snd (delete_session written i st)) else (Some s, st)
      | None \<Rightarrow> (None, st))"

definition getSessionStats :: "time_ms \<Rightarrow> memory_store \<Rightarrow> admin_stats \<times> memory_store" where
  "getSessionStats now st =
     (let c = prune now (ms_sessions st)
      in (stats_of now (ms_start st) (ms_counts st) c, st\<lparr>ms_sessions := c\<rparr>))"

definition cleanupExpired :: "time_ms \<Rightarrow> memory_store \<Rightarrow> nat \<times> memory_store" where
  "cleanupExpired now st =
     (length (select_rows (\<lambda>r. se_expires r \<le> now) (ms_table st)),
      st\<lparr>ms_table := delete_rows (\<lambda>r. se_expires r \<le> now) (ms_table st)\<rparr>)"

section \<open>Redis\<close>

datatype redis_command = RSet string user_session int | RGet string | RDel string

record redis_store =
  rd_connected :: bool
  rd_initialised :: bool
  rd_cache :: cache
  rd_counts :: verification_count
  rd_start :: time_ms
  rd_sent :: "redis_command list"

definition REDIS_KEY_PREFIX :: string where
  "REDIS_KEY_PREFIX = ''zeroauth:session:''"

definition redisKey :: "string \<Rightarrow> string" where
  "redisKey i = REDIS_KEY_PREFIX @ i"

definition new_redis_store :: "time_ms \<Rightarrow> redis_store" where
  "new_redis_store now = \<lparr> rd_connected = False, rd_initialised = False, rd_cache = [],
     rd_counts = no_counts, rd_start = now, rd_sent = [] \<rparr>"

definition redis_init :: "bool \<Rightarrow> redis_store \<Rightarrow> redis_store" where
  "redis_init available st = (if rd_initialised st then st
     else st\<lparr>rd_connected := available, rd_initialised := True\<rparr>)"

definition redis_stop :: "redis_store \<Rightarrow> redis_store" where
  "redis_stop st = st\<lparr>rd_connected := False\<rparr>"

definition send :: "redis_command \<Rightarrow> redis_store \<Rightarrow> redis_store" where
  "send cmd st = (if rd_connected st then st\<lparr>rd_sent := rd_sent st @ [cmd]\<rparr> else st)"

definition redis_create :: "time_ms \<Rightarrow> user_session \<Rightarrow> redis_store \<Rightarrow> redis_store" where
  "redis_create now s st =
     (let st1 = st\<lparr>rd_cache := AList.update (se_id s) s (rd_cache st),
                   rd_counts := count_provider (se_provider s) (rd_counts st)\<rparr>;
          ttlMs = max 0 (se_expires s - now)
      in if ttlMs \<le> 0 then st1 else send (RSet (redisKey (se_id s)) s ttlMs) st1)"

definition redis_delete :: "string \<Rightarrow> redis_store \<Rightarrow> bool \<times> redis_store" where
  "redis_delete i st = (map_of (rd_cache st) i \<noteq> None,
     send (RDel (redisKey i)) (st\<lparr>rd_cache := AList.delete i (rd_cache st)\<rparr>))"

definition redis_get :: "time_ms \<Rightarrow> string \<Rightarrow> redis_store \<Rightarrow> user_session option \<times> redis_store" where
  "redis_get now i st =
     (case map_of (rd_cache st) i of
        Some s \<Rightarrow> if expired now s then (None, snd (redis_delete i st)) else (Some s, st)
      | None \<Rightarrow> (None, send (RGet (redisKey i)) st))"

text \<open>The continuation of \<open>hydrateOne\<close> when the reply arrives: nothing, an entry that parses
  or one that does not.\<close>

datatype redis_reply = NoEntry | Entry user_session | Corrupt

definition hydrateOne :: "time_ms \<Rightarrow> string \<Rightarrow> redis_reply \<Rightarrow> redis_store \<Rightarrow> redis_store" where
  "hydrateOne now i reply st = (case reply of
       NoEntry \<Rightarrow> st
     | Entry s \<Rightarrow> if expired now s then st else st\<lparr>rd_cache := AList.update i s (rd_cache st)\<rparr>
     | Corrupt \<Rightarrow> send (RDel (redisKey i)) st)"

definition redis_stats :: "time_ms \<Rightarrow> redis_store \<Rightarrow> admin_stats \<times> redis_store" where
  "redis_stats now st =
     (let c = prune now (rd_cache st)
      in (stats_of now (rd_start st) (rd_counts st) c, st\<lparr>rd_cache := c\<rparr>))"

section \<open>The interface the routes call\<close>

datatype session_call = Create user_session | Get string | Delete string | Stats
datatype session_answer = Done | Found "user_session option" | Removed bool | Reported admin_stats

text \<open>A call at an instant; the specification is a finite map of sessions and the counters.\<close>

type_synonym timed_call = "time_ms \<times> session_call"

record session_spec =
  sp_map :: "string \<Rightarrow> user_session option"
  sp_counts :: verification_count
  sp_start :: time_ms

definition live_sessions :: "time_ms \<Rightarrow> (string \<Rightarrow> user_session option) \<Rightarrow> string \<Rightarrow> user_session option" where
  "live_sessions now m = (\<lambda>i. case m i of None \<Rightarrow> None | Some s \<Rightarrow> if expired now s then None else Some s)"

fun spec_step :: "timed_call \<Rightarrow> session_spec \<Rightarrow> session_answer \<times> session_spec" where
  "spec_step (now, Create s) sp = (Done, sp\<lparr>sp_map := (sp_map sp)(se_id s \<mapsto> s),
     sp_counts := count_provider (se_provider s) (sp_counts sp)\<rparr>)"
| "spec_step (now, Get i) sp = (Found (live_sessions now (sp_map sp) i),
     sp\<lparr>sp_map := (sp_map sp)(i := live_sessions now (sp_map sp) i)\<rparr>)"
| "spec_step (now, Delete i) sp = (Removed (sp_map sp i \<noteq> None), sp\<lparr>sp_map := (sp_map sp)(i := None)\<rparr>)"
| "spec_step (now, Stats) sp = (let m = live_sessions now (sp_map sp); k = sp_counts sp in
     (Reported \<lparr> as_total = vc_saml k + vc_oidc k + vc_zkp k, as_active = card (dom m), as_breakdown = k,
                 as_uptime = (now - sp_start sp) div 1000 \<rparr>, sp\<lparr>sp_map := m\<rparr>))"

fun memory_step :: "bool \<Rightarrow> timed_call \<Rightarrow> memory_store \<Rightarrow> session_answer \<times> memory_store" where
  "memory_step w (now, Create s) st = (Done, create w s st)"
| "memory_step w (now, Get i) st = map_prod Found id (get_session w now i st)"
| "memory_step w (now, Delete i) st = map_prod Removed id (delete_session w i st)"
| "memory_step w (now, Stats) st = map_prod Reported id (getSessionStats now st)"

fun redis_step :: "timed_call \<Rightarrow> redis_store \<Rightarrow> session_answer \<times> redis_store" where
  "redis_step (now, Create s) st = (Done, redis_create now s st)"
| "redis_step (now, Get i) st = map_prod Found id (redis_get now i st)"
| "redis_step (now, Delete i) st = map_prod Removed id (redis_delete i st)"
| "redis_step (now, Stats) st = map_prod Reported id (redis_stats now st)"

fun run_calls :: "('c \<Rightarrow> 's \<Rightarrow> 'a \<times> 's) \<Rightarrow> 'c list \<Rightarrow> 's \<Rightarrow> 'a list" where
  "run_calls step [] st = []"
| "run_calls step (c # cs) st = (case step c st of (a, st') \<Rightarrow> a # run_calls step cs st')"

text \<open>What a backend promises: it simulates the specification call by call.\<close>

locale session_backend =
  fixes step :: "timed_call \<Rightarrow> 's \<Rightarrow> session_answer \<times> 's"
    and abs :: "'s \<Rightarrow> session_spec" and valid :: "'s \<Rightarrow> bool"
  assumes answers: "valid st \<Longrightarrow> fst (step c st) = fst (spec_step c (abs st))"
    and simulates: "valid st \<Longrightarrow> abs (snd (step c st)) = snd (spec_step c (abs st))"
    and keeps_valid: "valid st \<Longrightarrow> valid (snd (step c st))"
begin

lemma run_refines: "valid st \<Longrightarrow> run_calls step cs st = run_calls spec_step cs (abs st)"
proof (induction cs arbitrary: st)
  case (Cons c cs)
  obtain a st' where s: "step c st = (a, st')" by fastforce
  have "spec_step c (abs st) = (a, abs st')"
    using answers [OF Cons.prems, of c] simulates [OF Cons.prems, of c] s by (simp add: prod_eq_iff)
  moreover have "valid st'" using keeps_valid [OF Cons.prems, of c] s by simp
  ultimately show ?case using Cons.IH s by simp
qed simp

end

definition cache_ok :: "cache \<Rightarrow> bool" where
  "cache_ok c \<longleftrightarrow> distinct (map fst c)"

definition memory_abs :: "memory_store \<Rightarrow> session_spec" where
  "memory_abs st = \<lparr> sp_map = map_of (ms_sessions st), sp_counts = ms_counts st, sp_start = ms_start st \<rparr>"

definition redis_abs :: "redis_store \<Rightarrow> session_spec" where
  "redis_abs st = \<lparr> sp_map = map_of (rd_cache st), sp_counts = rd_counts st, sp_start = rd_start st \<rparr>"

lemma map_of_prune: "cache_ok c \<Longrightarrow> map_of (prune now c) = live_sessions now (map_of c)"
proof (induction c)
  case (Cons e c)
  have "map_of c (fst e) = None" using Cons.prems by (auto simp: cache_ok_def map_of_eq_None_iff)
  moreover have "cache_ok c" using Cons.prems by (simp add: cache_ok_def)
  ultimately show ?case using Cons.IH
    by (cases e) (auto simp: prune_def live_sessions_def fun_eq_iff split: option.splits)
qed (simp add: prune_def live_sessions_def)

lemma cache_ok_prune: "cache_ok c \<Longrightarrow> cache_ok (prune now c)"
  by (induction c) (auto simp: cache_ok_def prune_def)

lemma length_prune: "cache_ok c \<Longrightarrow> length (prune now c) = card (dom (live_sessions now (map_of c)))"
proof -
  assume c: "cache_ok c"
  then have "distinct (map fst (prune now c))" using cache_ok_prune by (simp add: cache_ok_def)
  then have "length (prune now c) = card (fst ` set (prune now c))" using distinct_card by fastforce
  then show ?thesis using map_of_prune [OF c, of now] by (metis dom_map_of_conv_image_fst)
qed

lemma cache_ok_update: "cache_ok c \<Longrightarrow> cache_ok (AList.update i s c)"
  unfolding cache_ok_def by (rule distinct_update)

lemma cache_ok_delete: "cache_ok c \<Longrightarrow> cache_ok (AList.delete i c)"
  unfolding cache_ok_def by (rule distinct_delete)

lemmas cache_simps = map_of_prune cache_ok_prune length_prune cache_ok_update cache_ok_delete
  AList.update_conv' AList.delete_conv'

interpretation memory: session_backend "memory_step w" memory_abs "\<lambda>st. cache_ok (ms_sessions st)"
proof unfold_locales
  fix st :: memory_store and c :: timed_call
  assume v: "cache_ok (ms_sessions st)"
  obtain now k where c: "c = (now, k)" by fastforce
  show "fst (memory_step w c st) = fst (spec_step c (memory_abs st))"
    "memory_abs (snd (memory_step w c st)) = snd (spec_step c (memory_abs st))"
    "cache_ok (ms_sessions (snd (memory_step w c st)))"
    using v unfolding c
    by (cases k; simp add: memory_abs_def create_def get_session_def delete_session_def getSessionStats_def
        stats_of_def live_sessions_def cache_simps Let_def fun_upd_idem split: option.split)+
qed

interpretation redis: session_backend redis_step redis_abs "\<lambda>st. cache_ok (rd_cache st)"
proof unfold_locales
  fix st :: redis_store and c :: timed_call
  assume v: "cache_ok (rd_cache st)"
  obtain now k where c: "c = (now, k)" by fastforce
  show "fst (redis_step c st) = fst (spec_step c (redis_abs st))"
    "redis_abs (snd (redis_step c st)) = snd (spec_step c (redis_abs st))"
    "cache_ok (rd_cache (snd (redis_step c st)))"
    using v unfolding c
    by (cases k; simp add: redis_abs_def redis_create_def redis_get_def redis_delete_def redis_stats_def send_def
        stats_of_def live_sessions_def cache_simps Let_def fun_upd_idem split: option.split)+
qed

section \<open>Properties of the two stores\<close>

text \<open>What reaches a store between two calls: a reply of the Redis server to an earlier \<open>GET\<close>
  (\<open>hydrateOne\<close>).  The specification takes an entry that is still live into its map.\<close>

datatype store_event = RouteCall timed_call | ServerReply time_ms string redis_reply

fun redis_event :: "store_event \<Rightarrow> redis_store \<Rightarrow> session_answer option \<times> redis_store" where
  "redis_event (RouteCall c) st = map_prod Some id (redis_step c st)"
| "redis_event (ServerReply now i r) st = (None, hydrateOne now i r st)"

fun spec_event :: "store_event \<Rightarrow> session_spec \<Rightarrow> session_answer option \<times> session_spec" where
  "spec_event (RouteCall c) sp = map_prod Some id (spec_step c sp)"
| "spec_event (ServerReply now i (Entry s)) sp =
     (None, if now \<le> se_expires s then sp\<lparr>sp_map := (sp_map sp)(i \<mapsto> s)\<rparr> else sp)"
| "spec_event (ServerReply now i r) sp = (None, sp)"

definition fresh_spec :: "time_ms \<Rightarrow> (string \<Rightarrow> user_session option) \<Rightarrow> session_spec" where
  "fresh_spec t m = \<lparr> sp_map = m, sp_counts = no_counts, sp_start = t \<rparr>"

definition forget_did :: "user_session \<Rightarrow> user_session" where
  "forget_did s = s\<lparr>se_did := None\<rparr>"

text \<open>What \<open>init\<close> finds in the table: the sessions alive then, without their DID.\<close>

definition loaded :: "bool \<Rightarrow> time_ms \<Rightarrow> user_session list \<Rightarrow> string \<Rightarrow> user_session option" where
  "loaded readable n table i = (if readable
     then map_option forget_did (first_row (\<lambda>r. se_id r = i \<and> n < se_expires r) (rev table)) else None)"

lemma hydrate_rows:
  "map_of (fold hydrate_row rows c) i =
     (case first_row (\<lambda>r. se_id r = i) (rev rows) of Some r \<Rightarrow> Some (forget_did r) | None \<Rightarrow> map_of c i)"
proof (induction rows arbitrary: c)
  case (Cons r rows)
  have "first_row P (xs @ [r]) = (case first_row P xs of Some q \<Rightarrow> Some q | None \<Rightarrow> if P r then Some r else None)"
    for P xs by (induction xs) auto
  then show ?case
    using Cons by (auto simp: hydrate_row_def forget_did_def AList.update_conv' split: option.splits)
qed simp

lemma first_row_select: "first_row P (rev (select_rows Q rows)) = first_row (\<lambda>r. P r \<and> Q r) (rev rows)"
proof -
  have "first_row P (filter Q xs) = first_row (\<lambda>r. P r \<and> Q r) xs" for xs by (induction xs) auto
  then show ?thesis by (simp add: select_rows_def rev_filter)
qed

lemma cache_ok_hydrate: "cache_ok c \<Longrightarrow> cache_ok (fold hydrate_row rows c)"
  by (induction rows arbitrary: c) (simp_all add: hydrate_row_def cache_ok_update)

lemma memory_init:
  "memory_abs (init readable n (new_memory_store t table)) = fresh_spec t (loaded readable n table)"
  "cache_ok (ms_sessions (init readable n (new_memory_store t table)))"
proof -
  have "map_of (fold hydrate_row (select_rows (\<lambda>r. n < se_expires r) table) []) i = loaded True n table i" for i
    by (simp add: hydrate_rows first_row_select loaded_def split: option.split)
  then show "memory_abs (init readable n (new_memory_store t table)) = fresh_spec t (loaded readable n table)"
    by (auto simp: memory_abs_def init_def new_memory_store_def fresh_spec_def loaded_def)
  show "cache_ok (ms_sessions (init readable n (new_memory_store t table)))"
    using cache_ok_hydrate [of "[]"] by (simp add: init_def new_memory_store_def cache_ok_def)
qed

lemma redis_start:
  "redis_abs (redis_init up (new_redis_store t)) = fresh_spec t (\<lambda>i. None)"
  "cache_ok (rd_cache (redis_init up (new_redis_store t)))"
  by (simp_all add: redis_abs_def redis_init_def new_redis_store_def fresh_spec_def cache_ok_def)

lemma redis_event_refines:
  assumes "cache_ok (rd_cache st)"
  shows "fst (redis_event e st) = fst (spec_event e (redis_abs st)) \<and>
    redis_abs (snd (redis_event e st)) = snd (spec_event e (redis_abs st)) \<and>
    cache_ok (rd_cache (snd (redis_event e st)))"
proof (cases e)
  case (RouteCall c)
  then show ?thesis using redis.answers [OF assms, of c] redis.simulates [OF assms, of c] redis.keeps_valid [OF assms, of c]
    by (simp add: prod_eq_iff)
next
  case (ServerReply now i r)
  then show ?thesis using assms
    by (cases r) (auto simp: hydrateOne_def redis_abs_def send_def expired_def cache_ok_update AList.update_conv')
qed

lemma redis_run_events:
  "cache_ok (rd_cache st) \<Longrightarrow> run_calls redis_event es st = run_calls spec_event es (redis_abs st)"
proof (induction es arbitrary: st)
  case (Cons e es)
  obtain a st' where s: "redis_event e st = (a, st')" by fastforce
  have "spec_event e (redis_abs st) = (a, redis_abs st')" "cache_ok (rd_cache st')"
    using redis_event_refines [OF Cons.prems, of e] s by (simp_all add: prod_eq_iff)
  then show ?case using Cons.IH s by simp
qed simp

lemma spec_events_no_expired:
  "(RouteCall (now, Get i), Some (Found (Some s))) \<in> set (zip es (run_calls spec_event es sp)) \<Longrightarrow> now \<le> se_expires s"
proof (induction es arbitrary: sp)
  case (Cons e es)
  obtain a sp' where a: "spec_event e sp = (a, sp')" by fastforce
  then have "(RouteCall (now, Get i), Some (Found (Some s))) = (e, a) \<or>
      (RouteCall (now, Get i), Some (Found (Some s))) \<in> set (zip es (run_calls spec_event es sp'))"
    using Cons.prems by simp
  then show ?case
  proof
    assume "(RouteCall (now, Get i), Some (Found (Some s))) = (e, a)"
    then show ?thesis using a by (auto simp: live_sessions_def expired_def split: option.splits if_splits)
  qed (rule Cons.IH)
qed simp

lemma spec_calls: "run_calls spec_event (map RouteCall cs) sp = map Some (run_calls spec_step cs sp)"
  by (induction cs arbitrary: sp) (simp_all add: case_prod_beta)

lemma spec_no_expired:
  "((now, Get i), Found (Some s)) \<in> set (zip cs (run_calls spec_step cs sp)) \<Longrightarrow> now \<le> se_expires s"
proof -
  have z: "set (zip (map RouteCall cs) (map Some xs)) = map_prod RouteCall Some ` set (zip cs xs)" for xs :: "session_answer list"
    by (simp add: zip_map_map case_prod_beta map_prod_def)
  assume "((now, Get i), Found (Some s)) \<in> set (zip cs (run_calls spec_step cs sp))"
  then have "(RouteCall (now, Get i), Some (Found (Some s))) \<in> set (zip (map RouteCall cs) (run_calls spec_event (map RouteCall cs) sp))"
    unfolding spec_calls z by force
  then show ?thesis by (rule spec_events_no_expired)
qed

text \<open>Property C23.  Both backends implement the one specification, a finite map of sessions
  with counters.  The in-memory store, booted on any table, readable or not, and whichever of its
  later writes fail, answers every sequence of calls as the specification that starts with the
  sessions alive in the table, less their DIDs.  The Redis store, connected or not, answers every
  sequence of calls and of server replies as the specification that starts empty and learns a
  session when a reply brings a live one.  So where nothing is loaded at boot and no reply
  arrives, the choice of the backend is invisible; and neither ever answers with an
  expired session.\<close>

theorem backends_agree:
  fixes table :: "user_session list" and cs :: "timed_call list" and es :: "store_event list"
    and n t :: time_ms and readable up w :: bool
  defines "memory \<equiv> init readable n (new_memory_store t table)"
    and "redis \<equiv> redis_init up (new_redis_store t)"
  shows "run_calls (memory_step w) cs memory = run_calls spec_step cs (fresh_spec t (loaded readable n table)) \<and>
   run_calls redis_event es redis = run_calls spec_event es (fresh_spec t (\<lambda>i. None)) \<and>
   ((\<forall>i. loaded readable n table i = None) \<longrightarrow> run_calls (memory_step w) cs memory = run_calls redis_step cs redis) \<and>
   (\<forall>now i s. ((now, Get i), Found (Some s)) \<in> set (zip cs (run_calls (memory_step w) cs memory)) \<longrightarrow> now \<le> se_expires s) \<and>
   (\<forall>now i s. (RouteCall (now, Get i), Some (Found (Some s))) \<in> set (zip es (run_calls redis_event es redis)) \<longrightarrow>
      now \<le> se_expires s)"
proof -
  have m: "run_calls (memory_step w) cs memory = run_calls spec_step cs (fresh_spec t (loaded readable n table))"
    unfolding memory_def by (simp only: memory.run_refines [OF memory_init(2)] memory_init(1))
  have r: "run_calls redis_step cs redis = run_calls spec_step cs (fresh_spec t (\<lambda>i. None))"
    unfolding redis_def by (simp only: redis.run_refines [OF redis_start(2)] redis_start(1))
  have e: "run_calls redis_event es redis = run_calls spec_event es (fresh_spec t (\<lambda>i. None))"
    unfolding redis_def by (simp only: redis_run_events [OF redis_start(2)] redis_start(1))
  have "run_calls (memory_step w) cs memory = run_calls redis_step cs redis"
    if "\<forall>i. loaded readable n table i = None"
  proof -
    have "loaded readable n table = (\<lambda>i. None)" using that by (simp add: fun_eq_iff)
    then show ?thesis by (simp only: m r)
  qed
  then show ?thesis using m e spec_no_expired spec_events_no_expired by metis
qed

definition sample_session :: "string \<Rightarrow> time_ms \<Rightarrow> user_session" where
  "sample_session i x = \<lparr> se_id = i, se_user = ''u'', se_provider = PZkp, se_verified = True, se_created = 0,
     se_expires = x, se_did = Some ''did'' \<rparr>"

text \<open>A table with a live and an expired session; a session of another pod that a reply brings in
  after a first miss.\<close>

theorem backends_agree_witness:
  "run_calls (memory_step True) [(2, Get ''a''), (2, Get ''b''), (3, Delete ''a''), (4, Get ''a'')]
      (init True 1 (new_memory_store 0 [sample_session ''a'' 5, sample_session ''b'' 1]))
     = [Found (Some (forget_did (sample_session ''a'' 5))), Found None, Removed True, Found None] \<and>
   run_calls redis_event [RouteCall (1, Get ''a''), ServerReply 2 ''a'' (Entry (sample_session ''a'' 5)), RouteCall (3, Get ''a''), RouteCall (9, Get ''a'')]
      (redis_init True (new_redis_store 0))
     = [Some (Found None), None, Some (Found (Some (sample_session ''a'' 5))), Some (Found None)]"
  using backends_agree [where w = True and n = 1 and t = 0 and readable = True and up = True
      and cs = "[(2, Get ''a''), (2, Get ''b''), (3, Delete ''a''), (4, Get ''a'')]"
      and table = "[sample_session ''a'' 5, sample_session ''b'' 1]"
      and es = "[RouteCall (1, Get ''a''), ServerReply 2 ''a'' (Entry (sample_session ''a'' 5)), RouteCall (3, Get ''a''), RouteCall (9, Get ''a'')]"]
  by (simp add: fresh_spec_def loaded_def live_sessions_def expired_def sample_session_def forget_did_def)

section \<open>Restarts\<close>

fun final_state :: "('c \<Rightarrow> 's \<Rightarrow> 'a \<times> 's) \<Rightarrow> 'c list \<Rightarrow> 's \<Rightarrow> 's" where
  "final_state step [] st = st"
| "final_state step (c # cs) st = final_state step cs (snd (step c st))"

lemma hydrate_lookup:
  "distinct (map se_id rows) \<Longrightarrow> map_of (fold hydrate_row rows c) i =
     (case first_row (\<lambda>r. se_id r = i) rows of Some r \<Rightarrow> Some (forget_did r) | None \<Rightarrow> map_of c i)"
proof (induction rows arbitrary: c)
  case (Cons r rows)
  have "first_row (\<lambda>q. se_id q = se_id r) rows = None"
    using Cons.prems by (auto simp: first_row_None_iff) (metis imageI)
  then show ?case
    using Cons by (auto simp: hydrate_row_def forget_did_def AList.update_conv' split: option.splits)
qed simp

text \<open>The cache and the table hold the same sessions, up to rows that expired before \<open>n\<close>.\<close>

definition synced :: "time_ms \<Rightarrow> memory_store \<Rightarrow> bool" where
  "synced n st \<longleftrightarrow> distinct (map se_id (ms_table st)) \<and>
     (\<forall>i s. map_of (ms_sessions st) i = Some s \<longrightarrow> se_id s = i \<and> s \<in> set (ms_table st)) \<and>
     (\<forall>r \<in> set (ms_table st). map_of (ms_sessions st) (se_id r) = Some r \<or> se_expires r < n)"

definition created_ids :: "timed_call list \<Rightarrow> string list" where
  "created_ids cs = concat (map (\<lambda>c. case snd c of Create s \<Rightarrow> [se_id s] | _ \<Rightarrow> []) cs)"

lemma synced_create:
  assumes "synced n st" "se_id s \<notin> se_id ` set (ms_table st)"
  shows "synced n (create True s st) \<and> set (ms_table (create True s st)) = insert s (set (ms_table st))"
proof -
  have t: "persistCreate s (ms_table st) = ms_table st @ [s]"
    using assms(2) by (simp add: persistCreate_def list_ex_iff) (metis imageI)
  have "map_of (ms_sessions st) (se_id r) = map_of (AList.update (se_id s) s (ms_sessions st)) (se_id r)"
    if "r \<in> set (ms_table st)" for r
    using that assms(2) by (simp add: AList.update_conv') (metis imageI)
  then show ?thesis
    using assms unfolding synced_def create_def t by (auto simp: AList.update_conv' split: if_splits)
qed

lemma synced_delete:
  assumes "synced n st"
  shows "synced n (snd (delete_session True i st)) \<and>
    se_id ` set (ms_table (snd (delete_session True i st))) \<subseteq> se_id ` set (ms_table st)"
proof -
  have t: "ms_table (snd (delete_session True i st)) = filter (\<lambda>r. se_id r \<noteq> i) (ms_table st)"
    "map_of (ms_sessions (snd (delete_session True i st))) = (map_of (ms_sessions st))(i := None)"
    by (simp_all add: delete_session_def persistDelete_def delete_rows_def AList.delete_conv')
  have "distinct (map se_id (ms_table st))" using assms by (simp add: synced_def)
  then have "distinct (map se_id (filter (\<lambda>r. se_id r \<noteq> i) (ms_table st)))" by (simp add: distinct_map_filter)
  then show ?thesis using assms unfolding synced_def t by auto
qed

lemma synced_prune:
  assumes "synced n st" "now \<le> n" "cache_ok (ms_sessions st)"
  shows "synced n (snd (getSessionStats now st)) \<and> ms_table (snd (getSessionStats now st)) = ms_table st"
proof -
  let ?st = "snd (getSessionStats now st)"
  have t: "ms_table ?st = ms_table st"
    and m: "map_of (ms_sessions ?st) = live_sessions now (map_of (ms_sessions st))"
    using map_of_prune [OF assms(3)] by (simp_all add: getSessionStats_def Let_def)
  have "map_of (ms_sessions st) j = Some q" if "live_sessions now (map_of (ms_sessions st)) j = Some q" for j q
    using that by (simp add: live_sessions_def split: option.splits if_splits)
  moreover have "live_sessions now (map_of (ms_sessions st)) j = Some q \<or> se_expires q < n"
    if "map_of (ms_sessions st) j = Some q" for j q
    using that assms(2) by (simp add: live_sessions_def expired_def)
  ultimately show ?thesis using assms(1) unfolding synced_def t m by blast
qed

lemma synced_step:
  assumes "synced n st" "cache_ok (ms_sessions st)" "fst c \<le> n"
    and "\<And>s. snd c = Create s \<Longrightarrow> se_id s \<notin> se_id ` set (ms_table st)"
  shows "synced n (snd (memory_step True c st)) \<and>
    se_id ` set (ms_table (snd (memory_step True c st))) \<subseteq> set (created_ids [c]) \<union> se_id ` set (ms_table st)"
proof -
  obtain now k where c: "c = (now, k)" by fastforce
  show ?thesis
  proof (cases k)
    case (Create s)
    then show ?thesis using synced_create [OF assms(1), of s] assms(4) c by (auto simp: created_ids_def)
  next
    case (Get i)
    have "snd (get_session True now i st) = st \<or> snd (get_session True now i st) = snd (delete_session True i st)"
      by (auto simp: get_session_def split: option.splits)
    then show ?thesis using synced_delete [OF assms(1), of i] assms(1) c Get by (auto simp: created_ids_def)
  next
    case (Delete i)
    then show ?thesis using synced_delete [OF assms(1), of i] c by (auto simp: created_ids_def)
  next
    case Stats
    then show ?thesis using synced_prune [OF assms(1) _ assms(2)] assms(3) c by (auto simp: created_ids_def)
  qed
qed

lemma synced_run:
  assumes "synced n st" "cache_ok (ms_sessions st)" "\<forall>c \<in> set cs. fst c \<le> n"
    and "distinct (created_ids cs)" "set (created_ids cs) \<inter> se_id ` set (ms_table st) = {}"
  shows "synced n (final_state (memory_step True) cs st)"
  using assms
proof (induction cs arbitrary: st)
  case (Cons c cs)
  let ?st = "snd (memory_step True c st)"
  have ids: "created_ids (c # cs) = created_ids [c] @ created_ids cs" by (simp add: created_ids_def)
  have fresh: "se_id s \<notin> se_id ` set (ms_table st)" if "snd c = Create s" for s
    using Cons.prems(5) that by (auto simp: created_ids_def)
  have "synced n ?st" "se_id ` set (ms_table ?st) \<subseteq> set (created_ids [c]) \<union> se_id ` set (ms_table st)"
    using synced_step [OF Cons.prems(1,2) _ fresh] Cons.prems(3) by simp_all
  moreover have "cache_ok (ms_sessions ?st)" by (rule memory.keeps_valid) (rule Cons.prems(2))
  moreover have "distinct (created_ids cs)" "set (created_ids cs) \<inter> set (created_ids [c]) = {}"
    "set (created_ids cs) \<inter> se_id ` set (ms_table st) = {}"
    using Cons.prems(4,5) unfolding ids by auto
  ultimately have "synced n (final_state (memory_step True) cs ?st)"
    by (intro Cons.IH) (use Cons.prems(3) in auto)
  then show ?case by simp
qed simp

text \<open>Sessions survive a restart: after any run of calls whose writes reached Postgres and
  whose created identifiers are fresh, a process restarted at the instant \<open>n\<close> with a
  readable table answers every later lookup like the old process would have, except that the DID
  of a session is lost.\<close>

theorem sessions_survive_restart:
  fixes t n now :: time_ms and cs :: "timed_call list" and i :: string and w :: bool
  assumes "\<forall>c \<in> set cs. fst c \<le> n" and "distinct (created_ids cs)" and "n < now"
  defines "old \<equiv> final_state (memory_step True) cs (new_memory_store t [])"
  shows "fst (get_session w now i (init True n (new_memory_store n (ms_table old)))) =
    map_option forget_did (fst (get_session w now i old))"
proof -
  have s: "synced n old"
    unfolding old_def by (rule synced_run)
      (use assms(1,2) in \<open>simp_all add: synced_def new_memory_store_def cache_ok_def\<close>)
  let ?rows = "select_rows (\<lambda>r. n < se_expires r) (ms_table old)"
  have d: "distinct (map se_id ?rows)"
    using s unfolding synced_def select_rows_def by (simp add: distinct_map_filter)
  have new: "map_of (ms_sessions (init True n (new_memory_store n (ms_table old)))) i =
      map_option forget_did (first_row (\<lambda>r. se_id r = i) ?rows)"
    by (simp add: init_def new_memory_store_def hydrate_lookup [OF d] split: option.split)
  show ?thesis
  proof (cases "first_row (\<lambda>r. se_id r = i) ?rows")
    case None
    have "expired now q" if q: "map_of (ms_sessions old) i = Some q" for q
    proof -
      have "q \<in> set (ms_table old)" "se_id q = i" using s q by (auto simp: synced_def)
      then have "\<not> n < se_expires q" using None by (auto simp: first_row_None_iff select_rows_def)
      then show ?thesis using assms(3) by (simp add: expired_def)
    qed
    then show ?thesis using new None by (auto simp: get_session_def split: option.split)
  next
    case (Some r)
    then have r: "r \<in> set (ms_table old)" "n < se_expires r" "se_id r = i"
      using first_row_SomeD [OF Some] by (auto simp: select_rows_def)
    then have "map_of (ms_sessions old) i = Some r" using s unfolding synced_def by (metis less_asym)
    then show ?thesis using new Some by (simp add: get_session_def expired_def forget_did_def)
  qed
qed

theorem sessions_survive_restart_witness:
  "fst (get_session True 4 ''a'' (init True 3 (new_memory_store 3 (ms_table
     (final_state (memory_step True) [(1, Create (sample_session ''a'' 5)), (2, Delete ''b'')] (new_memory_store 0 []))))))
   = Some (forget_did (sample_session ''a'' 5))"
proof -
  have "fst (get_session True 4 ''a'' (final_state (memory_step True)
      [(1, Create (sample_session ''a'' 5)), (2, Delete ''b'')] (new_memory_store 0 []))) = Some (sample_session ''a'' 5)"
    by (simp add: create_def get_session_def delete_session_def new_memory_store_def sample_session_def expired_def)
  then show ?thesis
    using sessions_survive_restart [where cs = "[(1, Create (sample_session ''a'' 5)), (2, Delete ''b'')]" and n = 3
        and now = 4 and w = True and i = "''a''" and t = 0]
    by (simp add: created_ids_def)
qed

end
