(* ===== verification/Ring_Buffer.thy ===== *)
theory Ring_Buffer
  imports Json
begin

text \<open>
  The log ring of \<open>src/services/log-ring-buffer.ts\<close>: a circular buffer of the last
  entries with redaction of biometric keys, its subscribers, and the Winston transport that
  feeds it.  An array slot that was never written is \<open>None\<close>.
\<close>

record log_entry =
  lo_ts :: string
  lo_level :: string
  lo_message :: string
  lo_meta :: "(string \<times> json) list"

definition REDACT_KEY_SUBSTRINGS :: "string list" where
  "REDACT_KEY_SUBSTRINGS = [''image'', ''template'', ''pixel'', ''depth'', ''frame'', ''embedding'']"

definition banned_key :: "string \<Rightarrow> bool" where
  "banned_key k = list_ex (\<lambda>sub. str_includes sub (lower k)) REDACT_KEY_SUBSTRINGS"

definition redactMeta :: "(string \<times> json) list \<Rightarrow> (string \<times> json) list" where
  "redactMeta meta = map (\<lambda>(k, v). (k, if banned_key k then JStr ''[redacted]'' else v))
     (filter (\<lambda>kv. fst kv \<noteq> ''__proto__'') meta)"

definition redacted :: "log_entry \<Rightarrow> log_entry" where
  "redacted e = e\<lparr>lo_meta := redactMeta (lo_meta e)\<rparr>"

section \<open>The ring\<close>

record ring =
  rb_capacity :: nat
  rb_slots :: "log_entry option list"
  rb_head :: nat
  rb_count :: nat
  rb_listeners :: "nat list"
  rb_delivered :: "(nat \<times> log_entry) list"

definition new_ring :: "int \<Rightarrow> ring option" where
  "new_ring capacity = (if capacity < 1 then None
     else Some \<lparr> rb_capacity = nat capacity, rb_slots = replicate (nat capacity) None, rb_head = 0,
                 rb_count = 0, rb_listeners = [], rb_delivered = [] \<rparr>)"

definition push :: "log_entry \<Rightarrow> ring \<Rightarrow> log_entry \<times> ring" where
  "push entry r =
     (let buffered = redacted entry
      in (buffered,
          r\<lparr>rb_slots := (rb_slots r)[rb_head r := Some buffered],
            rb_head := (rb_head r + 1) mod rb_capacity r,
            rb_count := (if rb_count r < rb_capacity r then rb_count r + 1 else rb_count r),
            rb_delivered := rb_delivered r @ map (\<lambda>l. (l, buffered)) (rb_listeners r)\<rparr>))"

definition ring_tail :: "int option \<Rightarrow> ring \<Rightarrow> log_entry option list" where
  "ring_tail n r =
     (let n = or_else (int (rb_capacity r)) n
      in if n \<le> 0 \<or> rb_count r = 0 then []
         else (let taken = nat (min n (int (rb_count r)));
                   start = (rb_head r + rb_capacity r - rb_count r) mod rb_capacity r;
                   skip = rb_count r - taken
               in map (\<lambda>i. rb_slots r ! ((start + skip + i) mod rb_capacity r)) [0..<taken]))"

definition subscribe :: "nat \<Rightarrow> ring \<Rightarrow> ring" where
  "subscribe l r = r\<lparr>rb_listeners := rb_listeners r @ [l]\<rparr>"

definition unsubscribe :: "nat \<Rightarrow> ring \<Rightarrow> ring" where
  "unsubscribe l r = r\<lparr>rb_listeners := rev (remove1 l (rev (rb_listeners r)))\<rparr>"

definition clear :: "ring \<Rightarrow> ring" where
  "clear r = r\<lparr>rb_slots := replicate (rb_capacity r) None, rb_head := 0, rb_count := 0\<rparr>"

text \<open>\<open>RingBufferTransport.log\<close>: the promoted members leave the metadata; \<open>str\<close> is the
  conversion of a message that is not a string.\<close>

definition transport_log :: "(json \<Rightarrow> string) \<Rightarrow> string \<Rightarrow> (string \<times> json) list \<Rightarrow> ring \<Rightarrow> ring" where
  "transport_log str now info r =
     (let level = or_else ''info'' (jstr (jget ''level'' (JObj info)));
          message = (case jget ''message'' (JObj info) of JStr s \<Rightarrow> s | JUndef \<Rightarrow> [] | JNull \<Rightarrow> [] | v \<Rightarrow> str v);
          ts = or_else now (jstr (jget ''timestamp'' (JObj info)));
          meta = filter (\<lambda>kv. fst kv \<notin> {''level'', ''message'', ''timestamp'', ''__proto__''}) info
      in snd (push \<lparr> lo_ts = ts, lo_level = level, lo_message = message, lo_meta = meta \<rparr> r))"

section \<open>The window it implements\<close>

definition last_n :: "nat \<Rightarrow> 'a list \<Rightarrow> 'a list" where
  "last_n n xs = drop (length xs - n) xs"

text \<open>The slot of the \<open>i\<close>-th oldest entry, and the contents in order.\<close>

definition slot_index :: "ring \<Rightarrow> nat \<Rightarrow> nat" where
  "slot_index r i = ((rb_head r + rb_capacity r - rb_count r) mod rb_capacity r + i) mod rb_capacity r"

definition contents :: "ring \<Rightarrow> log_entry option list" where
  "contents r = map (\<lambda>i. rb_slots r ! slot_index r i) [0..<rb_count r]"

definition ring_ok :: "ring \<Rightarrow> bool" where
  "ring_ok r \<longleftrightarrow> 0 < rb_capacity r \<and> length (rb_slots r) = rb_capacity r
     \<and> rb_head r < rb_capacity r \<and> rb_count r \<le> rb_capacity r"

lemma mod_wrap: "(a :: nat) < 2 * c \<Longrightarrow> a mod c = (if a < c then a else a - c)"
  by (simp add: mod_if)

lemma mod_shift_inj:
  assumes "(s :: nat) < c" "i < c" "j < c" "(s + i) mod c = (s + j) mod c"
  shows "i = j"
  using assms mod_wrap [of "s + i" c] mod_wrap [of "s + j" c] by (auto split: if_splits)

definition ring_start :: "ring \<Rightarrow> nat" where
  "ring_start r = (rb_head r + rb_capacity r - rb_count r) mod rb_capacity r"

lemma head_from_start:
  assumes "ring_ok r"
  shows "(ring_start r + rb_count r) mod rb_capacity r = rb_head r" and "ring_start r < rb_capacity r"
proof -
  have "(ring_start r + rb_count r) mod rb_capacity r = (rb_head r + rb_capacity r - rb_count r + rb_count r) mod rb_capacity r"
    unfolding ring_start_def by (rule mod_add_left_eq)
  also have "\<dots> = rb_head r" using assms by (simp add: ring_ok_def)
  finally show "(ring_start r + rb_count r) mod rb_capacity r = rb_head r" .
  show "ring_start r < rb_capacity r" using assms by (simp add: ring_start_def ring_ok_def)
qed

lemma push_ok: "ring_ok r \<Longrightarrow> ring_ok (snd (push e r))"
  by (simp add: ring_ok_def push_def Let_def)

lemma push_start:
  assumes "ring_ok r"
  shows "ring_start (snd (push e r)) =
    (if rb_count r < rb_capacity r then ring_start r else (ring_start r + 1) mod rb_capacity r)"
proof -
  define h k c where "h = rb_head r" and "k = rb_count r" and "c = rb_capacity r"
  have b: "h < c" "k \<le> c" using assms by (simp_all add: ring_ok_def h_def k_def c_def)
  show ?thesis
  proof (cases "k < c")
    case True
    have "((h + 1) mod c + c - (k + 1)) mod c = (h + c - k) mod c"
    proof (cases "h + 1 < c")
      case False
      then have "h = c - 1" using b by simp
      then show ?thesis using True b mod_wrap [of "h + c - k" c] by (auto simp: Suc_diff_le)
    qed (use True in simp)
    then show ?thesis using True by (simp add: ring_start_def push_def Let_def h_def k_def c_def)
  next
    case False
    then have "k = c" using b by simp
    then show ?thesis
      using b by (simp add: ring_start_def push_def Let_def h_def k_def c_def)
  qed
qed

lemma contents_eq: "contents r = map (\<lambda>i. rb_slots r ! ((ring_start r + i) mod rb_capacity r)) [0..<rb_count r]"
  by (simp add: contents_def slot_index_def ring_start_def)

lemma length_contents [simp]: "length (contents r) = rb_count r"
  by (simp add: contents_def)

lemma contents_push:
  assumes "ring_ok r"
  shows "contents (snd (push e r)) = last_n (rb_capacity r) (contents r @ [Some (redacted e)])"
proof -
  let ?r = "snd (push e r)" and ?c = "rb_capacity r" and ?s = "ring_start r" and ?k = "rb_count r"
  have c: "rb_capacity ?r = ?c" "rb_slots ?r = (rb_slots r)[rb_head r := Some (redacted e)]"
    by (simp_all add: push_def Let_def)
  have b: "?k \<le> ?c" "length (rb_slots r) = ?c" "rb_head r < ?c" using assms by (simp_all add: ring_ok_def)
  note h = head_from_start [OF assms]
  have new: "rb_slots ?r ! rb_head r = Some (redacted e)" using b by (simp add: c)
  have old: "rb_slots ?r ! ((?s + i) mod ?c) = rb_slots r ! ((?s + i) mod ?c)" if "i < ?c" "i \<noteq> ?k" "?k < ?c" for i
    using that mod_shift_inj [OF h(2) that(1) that(3)] unfolding c h(1) by (metis nth_list_update_neq)
  show ?thesis
  proof (cases "?k < ?c")
    case True
    then have "ring_start ?r = ?s" "rb_count ?r = ?k + 1" using push_start [OF assms] by (simp_all add: push_def Let_def)
    then have "contents ?r = map (\<lambda>i. rb_slots ?r ! ((?s + i) mod ?c)) [0..<?k] @ [rb_slots ?r ! ((?s + ?k) mod ?c)]"
      by (simp add: contents_eq c)
    also have "\<dots> = contents r @ [Some (redacted e)]"
      using old True new by (simp add: contents_eq h(1))
    finally show ?thesis using True by (simp add: last_n_def contents_eq)
  next
    case False
    then have k: "?k = ?c" using b by simp
    then have hs: "rb_head r = ?s" using h by simp
    have st: "ring_start ?r = (?s + 1) mod ?c" "rb_count ?r = ?c"
      using push_start [OF assms] k by (simp_all add: push_def Let_def)
    obtain m where m: "?c = Suc m" using b by (cases ?c) auto
    have shift: "((?s + 1) mod ?c + i) mod ?c = (?s + Suc i) mod ?c" for i
      by (simp add: mod_add_left_eq)
    have "contents ?r = map (\<lambda>i. rb_slots ?r ! ((?s + Suc i) mod ?c)) [0..<m] @ [rb_slots ?r ! ((?s + Suc m) mod ?c)]"
      unfolding contents_eq st c shift unfolding m by simp
    also have "rb_slots ?r ! ((?s + Suc m) mod ?c) = Some (redacted e)"
    proof -
      have "(?s + Suc m) mod ?c = ?s" unfolding m [symmetric] using h(2) by simp
      then show ?thesis using new hs by simp
    qed
    also have "map (\<lambda>i. rb_slots ?r ! ((?s + Suc i) mod ?c)) [0..<m] = map (\<lambda>i. rb_slots r ! ((?s + Suc i) mod ?c)) [0..<m]"
    proof (rule map_cong [OF refl])
      fix i
      assume "i \<in> set [0..<m]"
      then have i: "Suc i < ?c" using m by simp
      then have "(?s + Suc i) mod ?c \<noteq> (?s + 0) mod ?c"
        using mod_shift_inj [OF h(2) i, of 0] b by auto
      then show "rb_slots ?r ! ((?s + Suc i) mod ?c) = rb_slots r ! ((?s + Suc i) mod ?c)"
        using h(2) hs by (simp add: c)
    qed
    also have "\<dots> = drop 1 (contents r)"
      unfolding contents_eq k unfolding m by (simp add: drop_map map_Suc_upt [symmetric] del: map_Suc_upt upt_Suc)
    finally have "contents ?r = drop 1 (contents r) @ [Some (redacted e)]" .
    then show ?thesis using k m by (simp add: last_n_def)
  qed
qed

lemma ring_tail_contents: "ring_tail n r = last_n (nat (or_else (int (rb_capacity r)) n)) (contents r)"
proof -
  define m where "m = or_else (int (rb_capacity r)) n"
  show ?thesis
  proof (cases "m \<le> 0 \<or> rb_count r = 0")
    case True
    then show ?thesis by (auto simp: ring_tail_def m_def [symmetric] last_n_def contents_def)
  next
    case False
    have "ring_tail n r = map (\<lambda>i. rb_slots r ! ((ring_start r + (rb_count r - nat (min m (int (rb_count r)))) + i) mod rb_capacity r))
        [0..<nat (min m (int (rb_count r)))]"
      using False by (simp add: ring_tail_def m_def [symmetric] ring_start_def Let_def)
    also have "\<dots> = drop (rb_count r - nat m) (contents r)"
      by (rule nth_equalityI) (use False in \<open>auto simp: contents_eq min_def add.assoc\<close>)
    finally show ?thesis by (simp add: last_n_def m_def)
  qed
qed

lemma last_n_snoc: "last_n n (last_n n xs @ [y]) = last_n n (xs @ [y])"
  by (cases "n \<le> length xs") (auto simp: last_n_def Suc_diff_le)

lemma map_last_n: "map f (last_n n xs) = last_n n (map f xs)"
  by (simp add: last_n_def drop_map)

lemma fold_push:
  assumes "new_ring capacity = Some r0"
  shows "ring_ok (fold (\<lambda>e r. snd (push e r)) es r0) \<and> rb_capacity (fold (\<lambda>e r. snd (push e r)) es r0) = nat capacity \<and>
    contents (fold (\<lambda>e r. snd (push e r)) es r0) = map Some (last_n (nat capacity) (map redacted es))"
proof (induction es rule: rev_induct)
  case Nil
  show ?case using assms by (auto simp: new_ring_def ring_ok_def contents_def last_n_def split: if_splits)
next
  case (snoc e es)
  let ?r = "fold (\<lambda>e r. snd (push e r)) es r0"
  have "contents (snd (push e ?r)) = last_n (nat capacity) (contents ?r @ [Some (redacted e)])"
    using contents_push [of ?r e] snoc by simp
  also have "\<dots> = map Some (last_n (nat capacity) (map redacted es @ [redacted e]))"
    using snoc by (simp add: map_last_n last_n_snoc)
  finally show ?case using snoc push_ok [of ?r e] by (simp add: push_def Let_def)
qed

lemma redacted_key: "(k, v) \<in> set (lo_meta (redacted e)) \<Longrightarrow> banned_key k \<Longrightarrow> v = JStr ''[redacted]''"
  by (auto simp: redacted_def redactMeta_def)

text \<open>The ring is a window of the log: after any number of pushes into a new buffer of
  positive capacity, \<open>tail\<close> returns, oldest first, the last \<open>n\<close> of the last
  \<open>capacity\<close> entries, all of them redacted (no member with a banned key keeps its
  value) and none undefined; a capacity below one is refused.\<close>

theorem ring_is_window:
  "case new_ring capacity of
     None \<Rightarrow> capacity < 1
   | Some r0 \<Rightarrow> ring_tail n (fold (\<lambda>e r. snd (push e r)) es r0) =
         map Some (last_n (nat (or_else capacity n)) (last_n (nat capacity) (map redacted es))) \<and>
       (\<forall>e \<in> set (last_n (nat (or_else capacity n)) (last_n (nat capacity) (map redacted es))).
          \<forall>(k, v) \<in> set (lo_meta e). banned_key k \<longrightarrow> v = JStr ''[redacted]'')"
proof (cases "new_ring capacity")
  case None
  then show ?thesis by (simp add: new_ring_def split: if_splits)
next
  case (Some r0)
  have c: "0 < capacity" using Some by (simp add: new_ring_def split: if_splits)
  have t: "ring_tail n (fold (\<lambda>e r. snd (push e r)) es r0) =
      map Some (last_n (nat (or_else capacity n)) (last_n (nat capacity) (map redacted es)))"
    using fold_push [OF Some, of es] c by (cases n) (simp_all add: ring_tail_contents map_last_n or_else_def)
  have "set (last_n a (last_n b (map redacted es))) \<subseteq> redacted ` set es" for a b
    unfolding last_n_def by (metis (no_types, lifting) list.set_map set_drop_subset subset_trans)
  then have "\<forall>e \<in> set (last_n a (last_n b (map redacted es))). \<forall>(k, v) \<in> set (lo_meta e). banned_key k \<longrightarrow> v = JStr ''[redacted]''" for a b
    using redacted_key by blast
  with t show ?thesis unfolding Some option.case by blast
qed

definition sample_entry :: "string \<Rightarrow> log_entry" where
  "sample_entry m = \<lparr> lo_ts = ''now'', lo_level = ''info'', lo_message = m, lo_meta = [(''DepthMap'', JNum 1), (''id'', JNum 2)] \<rparr>"

theorem ring_is_window_witness:
  "\<exists>r0. new_ring 2 = Some r0 \<and>
     map (map_option lo_message) (ring_tail None (fold (\<lambda>e r. snd (push e r)) [sample_entry ''a'', sample_entry ''b'', sample_entry ''c''] r0))
       = [Some ''b'', Some ''c'']"
proof -
  obtain r0 where r: "new_ring 2 = Some r0" by (simp add: new_ring_def)
  show ?thesis
    using ring_is_window [of 2 None "[sample_entry ''a'', sample_entry ''b'', sample_entry ''c'']"]
    by (simp add: r last_n_def or_else_def redacted_def sample_entry_def)
qed

end
