(* ===== verification/Otp.thy ===== *)
theory Otp
  imports Text
begin

text \<open>
  The one-time codes of the sensor bridge, \<open>iot/src/otp.ts\<close>: a code per e-mail address
  and kind, verified at most five times within five minutes, and the single-use session token it
  is exchanged for.  The hash, the drawn number and the drawn token are parameters.
\<close>

datatype otp_kind = Signup | Login

definition kind_str :: "otp_kind \<Rightarrow> string" where
  "kind_str k = (case k of Signup \<Rightarrow> ''signup'' | Login \<Rightarrow> ''login'')"

definition CODE_LENGTH :: nat where "CODE_LENGTH = 6"
definition CODE_TTL_MS :: int where "CODE_TTL_MS = 5 * 60 * 1000"
definition OTP_SESSION_TTL_MS :: int where "OTP_SESSION_TTL_MS = 2 * 60 * 1000"
definition MAX_ATTEMPTS :: nat where "MAX_ATTEMPTS = 5"
definition REQUEST_COOLDOWN_MS :: int where "REQUEST_COOLDOWN_MS = 30 * 1000"

record pending_entry =
  pe_hash :: string
  pe_expires :: time_ms
  pe_attempts :: nat
  pe_kind :: otp_kind
  pe_issued :: time_ms

record otp_session =
  os_email :: string
  os_kind :: otp_kind
  os_expires :: time_ms

record otp_state =
  ot_pending :: "string \<Rightarrow> pending_entry option"
  ot_sessions :: "string \<Rightarrow> otp_session option"

datatype otp_refusal = NoPending | CodeExpired | TooManyAttempts | WrongCode | KindMismatch

definition otp_key :: "string \<Rightarrow> otp_kind \<Rightarrow> string" where
  "otp_key email kind = email @ ''|'' @ kind_str kind"

definition generateCode :: "nat \<Rightarrow> string" where
  "generateCode n = pad_start CODE_LENGTH (dec_nat n)"

text \<open>The refusal carries the milliseconds to wait, the result the code and its expiry.\<close>

definition otp_request ::
  "(string \<Rightarrow> string) \<Rightarrow> time_ms \<Rightarrow> nat \<Rightarrow> string \<Rightarrow> otp_kind \<Rightarrow> otp_state
     \<Rightarrow> (int + string \<times> time_ms) \<times> otp_state" where
  "otp_request sha now n email kind st =
     (let key = otp_key email kind;
          cooling = (case ot_pending st key of None \<Rightarrow> None
            | Some e \<Rightarrow> if now - pe_issued e < REQUEST_COOLDOWN_MS
                        then Some (REQUEST_COOLDOWN_MS - (now - pe_issued e)) else None)
      in case cooling of
           Some ms \<Rightarrow> (Inl ms, st)
         | None \<Rightarrow> (let code = generateCode n in
             (Inr (code, now + CODE_TTL_MS),
              st\<lparr>ot_pending := (ot_pending st)(key \<mapsto>
                 \<lparr> pe_hash = sha code, pe_expires = now + CODE_TTL_MS, pe_attempts = 0, pe_kind = kind,
                   pe_issued = now \<rparr>)\<rparr>)))"

definition drop_pending :: "string \<Rightarrow> otp_state \<Rightarrow> otp_state" where
  "drop_pending key st = st\<lparr>ot_pending := (ot_pending st)(key := None)\<rparr>"

definition otp_verify ::
  "(string \<Rightarrow> string) \<Rightarrow> time_ms \<Rightarrow> string \<Rightarrow> string \<Rightarrow> string \<Rightarrow> otp_kind \<Rightarrow> otp_state
     \<Rightarrow> (otp_refusal + string \<times> time_ms) \<times> otp_state" where
  "otp_verify sha now token email code kind st =
     (let key = otp_key email kind in
      case ot_pending st key of
        None \<Rightarrow> (Inl NoPending, st)
      | Some entry \<Rightarrow>
          if pe_expires entry \<le> now then (Inl CodeExpired, drop_pending key st)
          else if pe_kind entry \<noteq> kind then (Inl KindMismatch, st)
          else if MAX_ATTEMPTS \<le> pe_attempts entry then (Inl TooManyAttempts, drop_pending key st)
          else (let attempts = pe_attempts entry + 1;
                    counted = st\<lparr>ot_pending := (ot_pending st)(key \<mapsto> entry\<lparr>pe_attempts := attempts\<rparr>)\<rparr>
                in if sha code \<noteq> pe_hash entry then
                     (if MAX_ATTEMPTS \<le> attempts then (Inl TooManyAttempts, drop_pending key counted)
                      else (Inl WrongCode, counted))
                   else (Inr (token, now + OTP_SESSION_TTL_MS),
                         (drop_pending key counted)\<lparr>ot_sessions := (ot_sessions counted)(token \<mapsto>
                            \<lparr> os_email = email, os_kind = kind, os_expires = now + OTP_SESSION_TTL_MS \<rparr>)\<rparr>)))"

definition consumeSession :: "time_ms \<Rightarrow> string \<Rightarrow> string \<Rightarrow> otp_kind \<Rightarrow> otp_state \<Rightarrow> bool \<times> otp_state" where
  "consumeSession now token email kind st =
     (case ot_sessions st token of
        None \<Rightarrow> (False, st)
      | Some s \<Rightarrow> (\<not> os_expires s < now \<and> os_email s = email \<and> os_kind s = kind,
          st\<lparr>ot_sessions := (ot_sessions st)(token := None)\<rparr>))"

definition gc :: "time_ms \<Rightarrow> otp_state \<Rightarrow> otp_state" where
  "gc now st = st\<lparr>
     ot_pending := (\<lambda>k. case ot_pending st k of None \<Rightarrow> None
        | Some e \<Rightarrow> if pe_expires e < now then None else Some e),
     ot_sessions := (\<lambda>k. case ot_sessions st k of None \<Rightarrow> None
        | Some s \<Rightarrow> if os_expires s < now then None else Some s)\<rparr>"

section \<open>The keys do not collide\<close>

lemma otp_key_inject: "otp_key a k = otp_key b l \<longleftrightarrow> a = b \<and> k = l"
proof
  assume e: "otp_key a k = otp_key b l"
  have "k = l"
  proof (rule ccontr)
    assume "k \<noteq> l"
    moreover have "last (otp_key a k) = last (otp_key b l)" using e by simp
    ultimately show False by (cases k; cases l) (simp_all add: otp_key_def kind_str_def)
  qed
  then show "a = b \<and> k = l" using e by (simp add: otp_key_def)
qed simp

section \<open>Guessing\<close>

text \<open>The attempts of a guesser on one address: instant, token and submitted code.\<close>

fun guesses :: "(string \<Rightarrow> string) \<Rightarrow> string \<Rightarrow> otp_kind \<Rightarrow> (time_ms \<times> string \<times> string) list \<Rightarrow> otp_state \<Rightarrow> otp_state" where
  "guesses sha email kind [] st = st"
| "guesses sha email kind ((now, token, code) # cs) st =
     guesses sha email kind cs (snd (otp_verify sha now token email code kind st))"

definition pending_is :: "string \<Rightarrow> time_ms \<Rightarrow> nat \<Rightarrow> otp_kind \<Rightarrow> pending_entry option \<Rightarrow> bool" where
  "pending_is h x n kind e \<longleftrightarrow> (\<exists>p. e = Some p \<and> pe_hash p = h \<and> pe_expires p = x \<and> pe_attempts p = n \<and> pe_kind p = kind)"

lemma wrong_guess:
  fixes sha :: "string \<Rightarrow> string" and now x :: time_ms and token email code h :: string and st :: otp_state
    and kind :: otp_kind and n :: nat
  assumes "pending_is h x n kind (ot_pending st (otp_key email kind))" "n < MAX_ATTEMPTS" "sha code \<noteq> h"
  defines "st' \<equiv> snd (otp_verify sha now token email code kind st)"
  shows "if now < x \<and> n + 1 < MAX_ATTEMPTS then pending_is h x (n + 1) kind (ot_pending st' (otp_key email kind))
    else ot_pending st' (otp_key email kind) = None"
  using assms by (auto simp: st'_def pending_is_def otp_verify_def Let_def drop_pending_def)

lemma no_pending_stays:
  "ot_pending st (otp_key email kind) = None \<Longrightarrow> ot_pending (guesses sha email kind cs st) (otp_key email kind) = None"
  by (induction sha email kind cs st rule: guesses.induct) (auto simp: otp_verify_def Let_def)

lemma wrong_guesses:
  assumes "pending_is h x n kind (ot_pending st (otp_key email kind))" "n < MAX_ATTEMPTS"
    and "\<forall>(now, token, code) \<in> set cs. sha code \<noteq> h"
  shows "if n + length cs < MAX_ATTEMPTS \<and> (\<forall>(now, token, code) \<in> set cs. now < x)
    then pending_is h x (n + length cs) kind (ot_pending (guesses sha email kind cs st) (otp_key email kind))
    else ot_pending (guesses sha email kind cs st) (otp_key email kind) = None"
  using assms
proof (induction cs arbitrary: n st)
  case Nil
  then show ?case by simp
next
  case (Cons c cs)
  obtain now token code where c: "c = (now, token, code)" by (cases c)
  let ?st = "snd (otp_verify sha now token email code kind st)"
  have w: "if now < x \<and> n + 1 < MAX_ATTEMPTS then pending_is h x (n + 1) kind (ot_pending ?st (otp_key email kind))
      else ot_pending ?st (otp_key email kind) = None"
    by (rule wrong_guess [OF Cons.prems(1,2)]) (use Cons.prems(3) c in auto)
  show ?case
  proof (cases "now < x \<and> n + 1 < MAX_ATTEMPTS")
    case True
    then have "pending_is h x (n + 1) kind (ot_pending ?st (otp_key email kind))" using w by simp
    then show ?thesis using Cons.IH [of "n + 1" ?st] True Cons.prems(3) c by auto
  next
    case False
    then have "ot_pending ?st (otp_key email kind) = None" using w by simp
    then have none: "ot_pending (guesses sha email kind (c # cs) st) (otp_key email kind) = None"
      using no_pending_stays c by simp
    have late: "\<not> (n + length (c # cs) < MAX_ATTEMPTS \<and> (\<forall>(now, token, code) \<in> set (c # cs). now < x))"
      using False c by auto
    show ?thesis unfolding if_not_P [OF late] by (rule none)
  qed
qed

lemma verify_Inr:
  "fst (otp_verify sha now token email code kind st) = Inr r \<longleftrightarrow> r = (token, now + OTP_SESSION_TTL_MS) \<and>
    (\<exists>p. ot_pending st (otp_key email kind) = Some p \<and> now < pe_expires p \<and> pe_kind p = kind \<and>
      pe_attempts p < MAX_ATTEMPTS \<and> sha code = pe_hash p)"
  by (auto simp: otp_verify_def Let_def split: option.split)

text \<open>Five guesses at most.  After a code was issued, let a guesser submit any codes with
  other hashes at any instants.  Then the right code is still accepted just when fewer than five
  guesses were made, and neither a guess nor the right code came at or after the expiry, five
  minutes after the request.\<close>

theorem otp_guesses_bounded:
  assumes "otp_request sha t n email kind st = (Inr (code, x), st1)"
    and "\<forall>(now, token, guess) \<in> set cs. sha guess \<noteq> sha code"
  shows "(\<exists>r. fst (otp_verify sha now token email code kind (guesses sha email kind cs st1)) = Inr r) \<longleftrightarrow>
    length cs < 5 \<and> (\<forall>(now, token, guess) \<in> set cs. now < t + 300000) \<and> now < t + 300000"
proof -
  have x: "x = t + 300000" and p: "pending_is (sha code) x 0 kind (ot_pending st1 (otp_key email kind))"
    using assms(1) by (auto simp: otp_request_def Let_def pending_is_def CODE_TTL_MS_def split: option.splits if_splits)
  show ?thesis
    using wrong_guesses [OF p _ assms(2)] unfolding verify_Inr pending_is_def x
    by (auto simp: MAX_ATTEMPTS_def split: if_splits)
qed

text \<open>A session token is worth one sign-in: after a code was verified, the token is accepted
  just for the verified address and kind and at most two minutes later, and after any presentation of it,
  accepted or not, it is refused.\<close>

theorem otp_session_one_shot:
  assumes "otp_verify sha t token email code kind st = (Inr (token', x), st1)"
    and "consumeSession now token' email' kind' st1 = (b, st2)"
  shows "token' = token \<and> (b \<longleftrightarrow> now \<le> t + 120000 \<and> email' = email \<and> kind' = kind) \<and>
    consumeSession now' token' email'' kind'' st2 = (False, st2)"
  using assms
  by (auto simp: otp_verify_def consumeSession_def Let_def OTP_SESSION_TTL_MS_def split: option.splits if_splits)

definition fresh_otp :: otp_state where
  "fresh_otp = \<lparr> ot_pending = Map.empty, ot_sessions = Map.empty \<rparr>"

definition issued_otp :: "(int + string \<times> time_ms) \<times> otp_state" where
  "issued_otp = otp_request (\<lambda>s. s) 0 42 ''a@b'' Login fresh_otp"

lemma issued_otp_ok: "issued_otp = (Inr (generateCode 42, 300000), snd issued_otp)"
  by (simp add: issued_otp_def otp_request_def fresh_otp_def Let_def CODE_TTL_MS_def)

theorem otp_guesses_bounded_witness:
  "\<exists>r. fst (otp_verify (\<lambda>s. s) 9 ''tok'' ''a@b'' (generateCode 42) Login
     (guesses (\<lambda>s. s) ''a@b'' Login (replicate 4 (5, ''x'', ''guess'')) (snd issued_otp))) = Inr r"
proof -
  have "generateCode 42 = ''000042''" by code_simp
  then show ?thesis
    using otp_guesses_bounded [OF issued_otp_ok [unfolded issued_otp_def], of "replicate 4 (5, ''x'', ''guess'')" 9 "''tok''"]
    by (simp add: issued_otp_def)
qed

theorem otp_session_one_shot_witness:
  "fst (consumeSession 100 ''tok'' ''a@b'' Login (snd (otp_verify (\<lambda>s. s) 9 ''tok'' ''a@b'' (generateCode 42) Login (snd issued_otp))))"
proof -
  let ?v = "otp_verify (\<lambda>s. s) 9 ''tok'' ''a@b'' (generateCode 42) Login (snd issued_otp)"
  have v: "?v = (Inr (''tok'', 120009), snd ?v)"
    by (simp add: issued_otp_def otp_request_def otp_verify_def fresh_otp_def Let_def CODE_TTL_MS_def
        OTP_SESSION_TTL_MS_def MAX_ATTEMPTS_def)
  let ?c = "consumeSession 100 ''tok'' ''a@b'' Login (snd ?v)"
  have "?c = (fst ?c, snd ?c)" by simp
  from otp_session_one_shot [OF v this] show ?thesis by simp
qed

end
