(* ===== verification/Anchor.thy ===== *)
theory Anchor
  imports Audit_Log
begin

text \<open>
  Tenant providers (\<open>src/services/tenant-providers.ts\<close>) and the daily anchor job
  (\<open>src/services/anchor-job.ts\<close>).  The Keccak hash and the ABI encoder of the
  \<open>ethers\<close> package are parameters; the encoder may fail with a message.
\<close>

section \<open>Providers\<close>

datatype did_provider = DidOffChain | DidBaseSepolia | DidBaseMainnet | DidCustomChain
datatype verifier_provider = VerifierOffChain | VerifierOnChain
datatype anchor_provider = AnchorNone | AnchorSigned | AnchorBaseSepolia | AnchorBaseMainnet | AnchorWitness

definition DID_PROVIDERS :: "(string \<times> did_provider) list" where
  "DID_PROVIDERS = [(''off-chain'', DidOffChain), (''base-sepolia'', DidBaseSepolia),
     (''base-mainnet'', DidBaseMainnet), (''custom-chain'', DidCustomChain)]"

definition VERIFIER_PROVIDERS :: "(string \<times> verifier_provider) list" where
  "VERIFIER_PROVIDERS = [(''off-chain'', VerifierOffChain), (''on-chain'', VerifierOnChain)]"

definition AUDIT_ANCHOR_PROVIDERS :: "(string \<times> anchor_provider) list" where
  "AUDIT_ANCHOR_PROVIDERS = [(''none'', AnchorNone), (''signed-transcript'', AnchorSigned),
     (''base-sepolia'', AnchorBaseSepolia), (''base-mainnet'', AnchorBaseMainnet), (''witness-cosign'', AnchorWitness)]"

record resolved_providers =
  rp_did :: did_provider
  rp_verifier :: verifier_provider
  rp_anchor :: anchor_provider
  rp_base_rpc :: "string option"
  rp_did_registry :: "string option"
  rp_groth16 :: "string option"
  rp_anchor_contract :: "string option"

definition DEFAULT_PROVIDERS :: resolved_providers where
  "DEFAULT_PROVIDERS = \<lparr> rp_did = DidOffChain, rp_verifier = VerifierOffChain, rp_anchor = AnchorNone,
     rp_base_rpc = None, rp_did_registry = None, rp_groth16 = None, rp_anchor_contract = None \<rparr>"

definition pick :: "(string \<times> 'p) list \<Rightarrow> 'p \<Rightarrow> json \<Rightarrow> 'p" where
  "pick table dflt raw = (case raw of JStr s \<Rightarrow> or_else dflt (map_of table s) | _ \<Rightarrow> dflt)"

definition pickDidProvider :: "json \<Rightarrow> did_provider" where
  "pickDidProvider = pick DID_PROVIDERS (rp_did DEFAULT_PROVIDERS)"

definition pickVerifierProvider :: "json \<Rightarrow> verifier_provider" where
  "pickVerifierProvider = pick VERIFIER_PROVIDERS (rp_verifier DEFAULT_PROVIDERS)"

definition pickAuditAnchorProvider :: "json \<Rightarrow> anchor_provider" where
  "pickAuditAnchorProvider = pick AUDIT_ANCHOR_PROVIDERS (rp_anchor DEFAULT_PROVIDERS)"

definition pickString :: "json \<Rightarrow> string option" where
  "pickString raw = (case raw of JStr s \<Rightarrow> if s = [] then None else Some s | _ \<Rightarrow> None)"

definition resolveProviders :: "json \<Rightarrow> resolved_providers" where
  "resolveProviders policy = (case policy of
       JObj _ \<Rightarrow> \<lparr> rp_did = pickDidProvider (jget ''did_provider'' policy),
          rp_verifier = pickVerifierProvider (jget ''verifier_provider'' policy),
          rp_anchor = pickAuditAnchorProvider (jget ''audit_anchor_provider'' policy),
          rp_base_rpc = pickString (jget ''base_rpc_url'' policy),
          rp_did_registry = pickString (jget ''did_registry_address'' policy),
          rp_groth16 = pickString (jget ''groth16_verifier_address'' policy),
          rp_anchor_contract = pickString (jget ''audit_anchor_contract_address'' policy) \<rparr>
     | _ \<Rightarrow> DEFAULT_PROVIDERS)"

section \<open>The payload of a day\<close>

definition dayUtcAsYYYYMMDD :: "int \<Rightarrow> int" where
  "dayUtcAsYYYYMMDD day = (let (y, m, d) = civil_from_days day in y * 10000 + m * 100 + d)"

definition computeTenantIdHash :: "(string \<Rightarrow> string) \<Rightarrow> uuid \<Rightarrow> environment option \<Rightarrow> string" where
  "computeTenantIdHash keccak t e = keccak (t @ '':'' @ (case e of None \<Rightarrow> [] | Some x \<Rightarrow> env_str x))"

record anchor_payload =
  ap_tenant :: uuid
  ap_tenant_hash :: string
  ap_day :: int
  ap_terminal :: string
  ap_rows :: nat

text \<open>The rows of the window, in ascending order of \<open>id\<close>; the last is the one of rank 1.\<close>

definition day_rows :: "uuid \<Rightarrow> environment option \<Rightarrow> int \<Rightarrow> server \<Rightarrow> audit_event list" where
  "day_rows t e day s = filter (\<lambda>r. in_chain t e r \<and> utc_day (au_created_at r) = day) (t_audit s)"

definition computeDailyAnchorPayload ::
  "(string \<Rightarrow> string) \<Rightarrow> uuid \<Rightarrow> environment option \<Rightarrow> int \<Rightarrow> server \<Rightarrow> anchor_payload option" where
  "computeDailyAnchorPayload keccak t e day s =
     (let rows = day_rows t e day s in
      if rows = [] then None
      else (case au_event_hash (last rows) of
          None \<Rightarrow> None
        | Some h \<Rightarrow> if h = [] then None
            else Some \<lparr> ap_tenant = t, ap_tenant_hash = computeTenantIdHash keccak t e,
                        ap_day = dayUtcAsYYYYMMDD day, ap_terminal = h, ap_rows = length rows \<rparr>))"

definition hasExistingAnchor :: "uuid \<Rightarrow> environment option \<Rightarrow> int \<Rightarrow> server \<Rightarrow> bool" where
  "hasExistingAnchor t e day s =
     list_ex (\<lambda>a. an_tenant_id a = t \<and> an_environment a = e \<and> an_day_utc a = day) (t_anchors s)"

section \<open>The job\<close>

record anchor_tx =
  tx_tenant :: uuid
  tx_environment :: environment
  tx_payload :: anchor_payload
  tx_data :: string

record anchor_report =
  ar_day :: int
  ar_scanned :: nat
  ar_staged :: "anchor_tx list"
  ar_errors :: "(uuid \<times> environment \<times> string) list"

definition tenantsToAnchor :: "anchor_report \<Rightarrow> nat" where
  "tenantsToAnchor r = length (ar_staged r)"

definition staged_audit :: "int \<Rightarrow> uuid \<Rightarrow> environment \<Rightarrow> anchor_payload \<Rightarrow> string \<Rightarrow> audit_payload" where
  "staged_audit day t e p data =
     \<lparr> pl_tenant_id = t, pl_environment = Some e, pl_actor_type = ActorSystem, pl_actor_id = Some ''anchor-job'',
       pl_action = ''audit.anchor.staged'', pl_entity_type = ''audit_anchor'',
       pl_entity_id = Some (t @ '':'' @ env_str e @ '':'' @ dec_int (ap_day p)), pl_status = AuditSuccess,
       pl_summary = ''Staged daily anchor for '' @ take 10 (iso_string (day * ms_per_day)),
       pl_metadata = JObj [(''day_utc'', JStr (dec_int (ap_day p))), (''terminal_hash'', JStr (ap_terminal p)),
         (''row_count'', JStr (dec_nat (ap_rows p))), (''tx_data'', JStr data)] \<rparr>"

type_synonym anchor_encoder = "anchor_payload \<Rightarrow> string + string"

definition anchor_one ::
  "(string \<Rightarrow> string) \<Rightarrow> (string \<Rightarrow> string) \<Rightarrow> anchor_encoder \<Rightarrow> time_ms \<Rightarrow> int \<Rightarrow> uuid \<times> environment
     \<Rightarrow> anchor_report \<times> server \<Rightarrow> anchor_report \<times> server" where
  "anchor_one sha keccak encode now day te rs = (case te of (t, e) \<Rightarrow> (case rs of (rep, s) \<Rightarrow>
     (case computeDailyAnchorPayload keccak t (Some e) day s of
        None \<Rightarrow> (rep, s)
      | Some p \<Rightarrow> if hasExistingAnchor t (Some e) day s then (rep, s)
          else (case encode p of
              Inl message \<Rightarrow> (rep\<lparr>ar_errors := ar_errors rep @ [(t, e, message)]\<rparr>, s)
            | Inr data \<Rightarrow>
                (rep\<lparr>ar_staged := ar_staged rep @ [\<lparr> tx_tenant = t, tx_environment = e, tx_payload = p, tx_data = data \<rparr>]\<rparr>,
                 snd (appendAuditEvent sha now (staged_audit day t e p data) s))))))"

definition anchored_tenants :: "server \<Rightarrow> tenant list" where
  "anchored_tenants s = filter (\<lambda>t. tn_status t = TenantActive \<and> rp_anchor (resolveProviders (tn_security_policy t)) \<noteq> AnchorNone)
     (t_tenants s)"

definition anchor_keys :: "server \<Rightarrow> (uuid \<times> environment) list" where
  "anchor_keys s = concat (map (\<lambda>t. [(tn_id t, Live), (tn_id t, Test)]) (anchored_tenants s))"

text \<open>The day is the given one, or yesterday.\<close>

definition runDailyAnchorJob ::
  "(string \<Rightarrow> string) \<Rightarrow> (string \<Rightarrow> string) \<Rightarrow> anchor_encoder \<Rightarrow> time_ms \<Rightarrow> time_ms option \<Rightarrow> server
     \<Rightarrow> anchor_report \<times> server" where
  "runDailyAnchorJob sha keccak encode now at s =
     (let day = (case at of Some t \<Rightarrow> utc_day t | None \<Rightarrow> utc_day now - 1)
      in fold (anchor_one sha keccak encode now day) (anchor_keys s)
           (\<lparr> ar_day = day, ar_scanned = length (filter (\<lambda>t. tn_status t = TenantActive) (t_tenants s)),
              ar_staged = [], ar_errors = [] \<rparr>, s))"

section \<open>Each key is staged from its own chain\<close>

text \<open>What one key contributes on a given database.\<close>

definition outcome ::
  "(string \<Rightarrow> string) \<Rightarrow> anchor_encoder \<Rightarrow> int \<Rightarrow> server \<Rightarrow> uuid \<times> environment \<Rightarrow> anchor_tx option" where
  "outcome keccak encode day s te = (case te of (t, e) \<Rightarrow>
     (case computeDailyAnchorPayload keccak t (Some e) day s of
        Some p \<Rightarrow> if hasExistingAnchor t (Some e) day s then None
          else (case encode p of Inr data \<Rightarrow> Some \<lparr> tx_tenant = t, tx_environment = e, tx_payload = p, tx_data = data \<rparr>
                | Inl _ \<Rightarrow> None)
      | None \<Rightarrow> None))"

lemma staged_audit_loggable: "loggable (pl_metadata (staged_audit day t e p data))"
  by (simp add: staged_audit_def loggable_def is_object_def)

lemma outcome_append:
  assumes "(pl_tenant_id a, pl_environment a) \<noteq> (t, Some e) \<or> utc_day now \<noteq> day"
  shows "outcome keccak encode day (snd (appendAuditEvent sha now a s)) (t, e) = outcome keccak encode day s (t, e)"
proof -
  have "day_rows t (Some e) day (snd (appendAuditEvent sha now a s)) = day_rows t (Some e) day s"
    using assms by (auto simp: day_rows_def append_tables audit_row_def in_chain_def)
  then have "computeDailyAnchorPayload keccak t (Some e) day (snd (appendAuditEvent sha now a s)) =
      computeDailyAnchorPayload keccak t (Some e) day s"
    by (simp add: computeDailyAnchorPayload_def)
  moreover have "hasExistingAnchor t (Some e) day (snd (appendAuditEvent sha now a s)) = hasExistingAnchor t (Some e) day s"
    by (simp add: hasExistingAnchor_def)
  ultimately show ?thesis by (simp only: outcome_def prod.case)
qed

lemma anchor_one_step:
  "anchor_one sha keccak encode now day te (rep, s) = (rep', s') \<Longrightarrow>
    ar_staged rep' = ar_staged rep @ (case outcome keccak encode day s te of None \<Rightarrow> [] | Some x \<Rightarrow> [x]) \<and>
    ar_day rep' = ar_day rep \<and> ar_scanned rep' = ar_scanned rep \<and>
    (case outcome keccak encode day s te of None \<Rightarrow> s' = s
     | Some x \<Rightarrow> s' = snd (appendAuditEvent sha now (staged_audit day (fst te) (snd te) (tx_payload x) (tx_data x)) s))"
  by (cases te) (auto simp: anchor_one_def outcome_def split: option.splits if_splits sum.splits)

lemma outcome_after_one:
  assumes "anchor_one sha keccak encode now day te (rep, s) = (rep', s')" and "te \<noteq> k \<or> utc_day now \<noteq> day"
  shows "outcome keccak encode day s' k = outcome keccak encode day s k"
proof (cases "outcome keccak encode day s te")
  case None
  then show ?thesis using anchor_one_step [OF assms(1)] by simp
next
  case (Some x)
  have s': "s' = snd (appendAuditEvent sha now (staged_audit day (fst te) (snd te) (tx_payload x) (tx_data x)) s)"
    using anchor_one_step [OF assms(1)] Some by simp
  have "(pl_tenant_id (staged_audit day (fst te) (snd te) (tx_payload x) (tx_data x)),
      pl_environment (staged_audit day (fst te) (snd te) (tx_payload x) (tx_data x))) \<noteq> (fst k, Some (snd k)) \<or> utc_day now \<noteq> day"
    using assms(2) by (auto simp: staged_audit_def prod_eq_iff)
  from outcome_append [OF this] show ?thesis unfolding s' by simp
qed

lemma fold_anchor:
  assumes "fold (anchor_one sha keccak encode now day) ks (rep, s) = (rep', s')"
    and "distinct ks \<or> utc_day now \<noteq> day" and "audit_wf sha s"
  shows "ar_staged rep' = ar_staged rep @ List.map_filter (outcome keccak encode day s) ks \<and> ar_day rep' = ar_day rep
    \<and> audit_wf sha s' \<and> length (t_audit s') + length (ar_staged rep) = length (t_audit s) + length (ar_staged rep')"
  using assms
proof (induction ks arbitrary: rep s)
  case Nil
  then show ?case by (simp add: List.map_filter_def)
next
  case (Cons k ks)
  obtain rep1 s1 where one: "anchor_one sha keccak encode now day k (rep, s) = (rep1, s1)" by fastforce
  note step = anchor_one_step [OF one]
  have "audit_wf sha s1"
    using step Cons.prems(3) append_audit_wf [OF Cons.prems(3) staged_audit_loggable]
    by (cases "outcome keccak encode day s k") simp_all
  moreover have "fold (anchor_one sha keccak encode now day) ks (rep1, s1) = (rep', s')"
    using Cons.prems(1) one by simp
  ultimately have ih: "ar_staged rep' = ar_staged rep1 @ List.map_filter (outcome keccak encode day s1) ks"
    "ar_day rep' = ar_day rep1" "audit_wf sha s'"
    "length (t_audit s') + length (ar_staged rep1) = length (t_audit s1) + length (ar_staged rep')"
    using Cons.IH [of rep1 s1] Cons.prems(2) by auto
  have "outcome keccak encode day s1 j = outcome keccak encode day s j" if "j \<in> set ks" for j
    by (rule outcome_after_one [OF one]) (use Cons.prems(2) that in auto)
  then have "List.map_filter (outcome keccak encode day s1) ks = List.map_filter (outcome keccak encode day s) ks"
    by (simp add: List.map_filter_def cong: filter_cong map_cong)
  then show ?case
    using ih step by (cases "outcome keccak encode day s k") (simp_all add: List.map_filter_simps append_tables)
qed

lemma anchor_one_tables:
  "anchor_one sha keccak encode now day te (rep, s) = (rep', s') \<Longrightarrow> t_tenants s' = t_tenants s \<and> t_anchors s' = t_anchors s"
  by (cases te) (auto simp: anchor_one_def split: option.splits if_splits sum.splits)

lemma fold_keeps:
  assumes "fold (anchor_one sha keccak encode now day) ks (rep, s) = (rep', s')" and "utc_day now \<noteq> day"
  shows "t_tenants s' = t_tenants s" and "t_anchors s' = t_anchors s"
    and "outcome keccak encode day s' = outcome keccak encode day s"
proof -
  have "t_tenants s' = t_tenants s \<and> t_anchors s' = t_anchors s \<and> outcome keccak encode day s' = outcome keccak encode day s"
    using assms(1)
  proof (induction ks arbitrary: rep s)
    case (Cons k ks)
    obtain rep1 s1 where one: "anchor_one sha keccak encode now day k (rep, s) = (rep1, s1)" by fastforce
    have rest: "fold (anchor_one sha keccak encode now day) ks (rep1, s1) = (rep', s')" using Cons.prems one by simp
    have "outcome keccak encode day s1 = outcome keccak encode day s"
      by (rule ext, rule outcome_after_one [OF one]) (use assms(2) in simp)
    then show ?case using Cons.IH [OF rest] anchor_one_tables [OF one] by metis
  qed simp
  then show "t_tenants s' = t_tenants s" "t_anchors s' = t_anchors s" "outcome keccak encode day s' = outcome keccak encode day s"
    by simp_all
qed

lemma distinct_anchor_keys:
  assumes "distinct (map tn_id (t_tenants s))"
  shows "distinct (anchor_keys s)"
proof -
  have d: "distinct (concat (map (\<lambda>t. [(tn_id t, Live), (tn_id t, Test)]) ts))" if "distinct (map tn_id ts)" for ts :: "tenant list"
    using that by (induction ts) auto
  show ?thesis
    unfolding anchor_keys_def anchored_tenants_def by (rule d) (simp add: distinct_map_filter assms)
qed

lemma outcome_Some:
  assumes "outcome keccak encode day s te = Some x"
  shows "tx_tenant x = fst te \<and> tx_environment x = snd te \<and>
    (\<exists>rows r. day_rows (fst te) (Some (snd te)) day s = rows @ [r] \<and> au_event_hash r = Some (ap_terminal (tx_payload x)) \<and>
       ap_rows (tx_payload x) = length (rows @ [r]))"
proof -
  have "day_rows (fst te) (Some (snd te)) day s \<noteq> []"
    and f: "au_event_hash (last (day_rows (fst te) (Some (snd te)) day s)) = Some (ap_terminal (tx_payload x))"
      "ap_rows (tx_payload x) = length (day_rows (fst te) (Some (snd te)) day s)"
      "tx_tenant x = fst te" "tx_environment x = snd te"
    using assms by (auto simp: outcome_def computeDailyAnchorPayload_def Let_def split: prod.splits option.splits if_splits sum.splits)
  then have "day_rows (fst te) (Some (snd te)) day s = butlast (day_rows (fst te) (Some (snd te)) day s) @ [last (day_rows (fst te) (Some (snd te)) day s)]"
    by simp
  then show ?thesis using f by metis
qed

text \<open>Property C32.  The anchor job stages exactly one transaction for each environment of each active
  tenant with an anchor provider whose chain has a hashed newest row on the day, no recorded
  anchor and an encodable payload, in the order of the tenants; the transaction carries the hash
  of that newest row and the number of rows of the day as they were before the job.  Each leaves
  one audit row, and every chain still verifies.\<close>

theorem anchor_job_stages_exactly:
  assumes "runDailyAnchorJob sha keccak encode now at s = (rep, s')"
    and "distinct (map tn_id (t_tenants s))" and "audit_wf sha s"
  shows "ar_staged rep = List.map_filter (outcome keccak encode (ar_day rep) s) (anchor_keys s) \<and>
    (\<forall>x \<in> set (ar_staged rep). \<exists>rows r. day_rows (tx_tenant x) (Some (tx_environment x)) (ar_day rep) s = rows @ [r] \<and>
       au_event_hash r = Some (ap_terminal (tx_payload x)) \<and> ap_rows (tx_payload x) = length (rows @ [r])) \<and>
    length (t_audit s') = length (t_audit s) + length (ar_staged rep) \<and>
    verifyAuditChain sha t e startId limit s' = ChainOk"
proof -
  define day where "day = (case at of Some t \<Rightarrow> utc_day t | None \<Rightarrow> utc_day now - 1)"
  have f: "ar_staged rep = List.map_filter (outcome keccak encode day s) (anchor_keys s)" "ar_day rep = day" "audit_wf sha s'"
    "length (t_audit s') = length (t_audit s) + length (ar_staged rep)"
    using fold_anchor [OF assms(1) [unfolded runDailyAnchorJob_def Let_def, folded day_def]] assms(2,3) distinct_anchor_keys
    by (simp_all add: day_def)
  have "\<exists>k. outcome keccak encode day s k = Some x" if "x \<in> set (ar_staged rep)" for x
    using that unfolding f(1) by (fastforce simp: List.map_filter_def)
  then have "\<forall>x \<in> set (ar_staged rep). \<exists>rows r. day_rows (tx_tenant x) (Some (tx_environment x)) day s = rows @ [r] \<and>
       au_event_hash r = Some (ap_terminal (tx_payload x)) \<and> ap_rows (tx_payload x) = length (rows @ [r])"
    using outcome_Some by metis
  then show ?thesis using f audit_wf_verifies [OF f(3)] by simp
qed

text \<open>The job is not idempotent: it consults the table of anchors but never writes it,
  so a second run on the same calendar day, over the database the first one left, stages every
  transaction again.\<close>

theorem anchor_job_stages_again:
  assumes "runDailyAnchorJob sha keccak encode now None s = (rep, s1)"
    and "runDailyAnchorJob sha keccak encode now2 None s1 = (rep2, s2)"
    and "utc_day now2 = utc_day now" and "audit_wf sha s"
  shows "ar_staged rep2 = ar_staged rep \<and> t_anchors s2 = t_anchors s"
proof -
  have day: "utc_day now \<noteq> utc_day now - 1" "utc_day now2 \<noteq> utc_day now - 1" using assms(3) by simp_all
  note first = assms(1) [unfolded runDailyAnchorJob_def Let_def option.case]
  note second = assms(2) [unfolded runDailyAnchorJob_def Let_def option.case assms(3)]
  note kept = fold_keeps [OF first day(1)] fold_keeps [OF second day(2)]
  have keys: "anchor_keys s1 = anchor_keys s" by (simp add: anchor_keys_def anchored_tenants_def kept)
  have staged: "ar_staged rep = List.map_filter (outcome keccak encode (utc_day now - 1) s) (anchor_keys s)" "audit_wf sha s1"
    using fold_anchor [OF first _ assms(4)] day by simp_all
  have "ar_staged rep2 = List.map_filter (outcome keccak encode (utc_day now - 1) s1) (anchor_keys s1)"
    using fold_anchor [OF second _ staged(2)] day by simp
  then have "ar_staged rep2 = ar_staged rep"
    unfolding staged(1) keys by (simp add: kept ext)
  then show ?thesis by (simp add: kept)
qed

section \<open>Witnesses\<close>

definition anchored_demo :: server where
  "anchored_demo = snd (appendAuditEvent rev 5 (input_payload ''t'' (sample_input (JObj [])))
     (empty_server\<lparr>t_tenants := [\<lparr> tn_id = ''t'', tn_email = '''', tn_password_hash = '''', tn_company_name = None,
        tn_plan = Free, tn_status = TenantActive, tn_rate_limit = 100, tn_monthly_quota = 1000,
        tn_security_policy = JObj [(''audit_anchor_provider'', JStr ''base-sepolia'')], tn_created_at = 0, tn_updated_at = 0 \<rparr>]\<rparr>))"

definition demo_encode :: anchor_encoder where
  "demo_encode p = Inr ''0x''"

lemma anchored_demo_wf: "audit_wf rev anchored_demo" "distinct (map tn_id (t_tenants anchored_demo))"
  unfolding anchored_demo_def
  by (rule append_audit_wf)
     (simp_all add: audit_wf_def chain_of_def empty_server_def input_payload_def sample_input_def sanitizeMetadata_def
       loggable_def is_object_def)

lemma anchored_demo_keys: "anchor_keys anchored_demo = [(''t'', Live), (''t'', Test)]"
  by (simp add: anchor_keys_def anchored_tenants_def anchored_demo_def resolveProviders_def jget_def
      pickAuditAnchorProvider_def pick_def AUDIT_ANCHOR_PROVIDERS_def or_else_def)

lemma anchored_demo_outcome: "outcome rev demo_encode 0 anchored_demo (''t'', Live) \<noteq> None"
  by (simp add: outcome_def computeDailyAnchorPayload_def day_rows_def anchored_demo_def append_tables empty_server_def
      in_chain_def audit_row_def input_payload_def sample_input_def utc_day_def ms_per_day_def computeEventHash_def
      hasExistingAnchor_def demo_encode_def)

theorem anchor_job_stages_exactly_witness:
  "\<exists>rep s'. runDailyAnchorJob rev rev demo_encode 86400007 None anchored_demo = (rep, s') \<and> ar_staged rep \<noteq> [] \<and>
     length (t_audit s') = length (t_audit anchored_demo) + length (ar_staged rep) \<and>
     verifyAuditChain rev ''t'' (Some Live) 0 9 s' = ChainOk"
proof -
  obtain rep s' where run: "runDailyAnchorJob rev rev demo_encode 86400007 None anchored_demo = (rep, s')" by fastforce
  note f = anchor_job_stages_exactly [OF run anchored_demo_wf(2,1)]
  have "ar_day rep = 0"
    using fold_anchor [OF run [unfolded runDailyAnchorJob_def Let_def]] anchored_demo_wf
    by (simp add: utc_day_def ms_per_day_def)
  then have "ar_staged rep \<noteq> []"
    using f anchored_demo_outcome by (auto simp: anchored_demo_keys List.map_filter_simps)
  then show ?thesis using run f by blast
qed

theorem anchor_job_stages_again_witness:
  "\<exists>rep s1 rep2 s2. runDailyAnchorJob rev rev demo_encode 86400007 None anchored_demo = (rep, s1) \<and>
     runDailyAnchorJob rev rev demo_encode 86400009 None s1 = (rep2, s2) \<and> ar_staged rep \<noteq> [] \<and>
     ar_staged rep2 = ar_staged rep"
proof -
  obtain rep s1 where run: "runDailyAnchorJob rev rev demo_encode 86400007 None anchored_demo = (rep, s1)" by fastforce
  obtain rep2 s2 where again: "runDailyAnchorJob rev rev demo_encode 86400009 None s1 = (rep2, s2)" by fastforce
  have "ar_staged rep2 = ar_staged rep"
    using anchor_job_stages_again [OF run again _ anchored_demo_wf(1)] by (simp add: utc_day_def ms_per_day_def)
  moreover have "ar_staged rep \<noteq> []"
    using fold_anchor [OF run [unfolded runDailyAnchorJob_def Let_def]] anchored_demo_wf anchored_demo_outcome
    by (auto simp: utc_day_def ms_per_day_def anchored_demo_keys List.map_filter_simps)
  ultimately show ?thesis using run again by blast
qed

end
