(* ===== verification/Accounts.thy ===== *)
theory Accounts
  imports Devices
begin

text \<open>
  Developer accounts: \<open>src/services/tenants.ts\<close>,
  \<open>src/services/pending-signups.ts\<close> and the sign-up and login handlers of
  \<open>src/routes/console.ts\<close>.  SHA-256 and scrypt, the drawn salt and token and the
  fresh identifiers are parameters.  A handler answers with a status, the error or status code
  of its body and the message, and returns the mails it sends.
\<close>

section \<open>Tenants\<close>

definition PLAN_LIMITS :: "plan_tier \<Rightarrow> int \<times> int" where
  "PLAN_LIMITS p = (case p of Free \<Rightarrow> (100, 1000) | Starter \<Rightarrow> (500, 25000)
     | Growth \<Rightarrow> (2000, 250000) | Enterprise \<Rightarrow> (10000, -1))"

text \<open>scrypt: password, salt and length of the derived key.\<close>

type_synonym scrypt = "string \<Rightarrow> string \<Rightarrow> nat \<Rightarrow> nat list"

definition hashPassword :: "scrypt \<Rightarrow> nat list \<Rightarrow> string \<Rightarrow> string" where
  "hashPassword scrypt salt password =
     (let s = bytes_hex salt in s @ '':'' @ bytes_hex (scrypt password s 64))"

text \<open>\<open>None\<close>: scrypt refuses a password that is not a string.\<close>

definition verifyPassword :: "scrypt \<Rightarrow> json \<Rightarrow> string \<Rightarrow> bool option" where
  "verifyPassword scrypt password record_hash =
     (if CHR '':'' \<notin> set record_hash then Some False
      else (let salt = takeWhile (\<lambda>c. c \<noteq> CHR '':'') record_hash;
                hashHex = tl (dropWhile (\<lambda>c. c \<noteq> CHR '':'') record_hash)
            in if salt = [] \<or> hashHex = [] \<or> \<not> list_all is_hex hashHex \<or> odd (length hashHex) then Some False
               else (let expected = hex_bytes hashHex in
                 case password of
                   JStr p \<Rightarrow> (let derived = scrypt p salt (length expected)
                              in Some (length derived = length expected \<and> expected = derived))
                 | _ \<Rightarrow> None)))"

definition new_tenant :: "time_ms \<Rightarrow> uuid \<Rightarrow> string \<Rightarrow> string \<Rightarrow> string option \<Rightarrow> plan_tier \<Rightarrow> tenant" where
  "new_tenant now i email passwordHash companyName plan =
     \<lparr> tn_id = i, tn_email = lower (trim email), tn_password_hash = passwordHash,
       tn_company_name = trim_or_null companyName, tn_plan = plan, tn_status = TenantActive,
       tn_rate_limit = fst (PLAN_LIMITS plan), tn_monthly_quota = snd (PLAN_LIMITS plan),
       tn_security_policy = JObj [], tn_created_at = now, tn_updated_at = now \<rparr>"

definition tenant_conflict :: "tenant \<Rightarrow> tenant \<Rightarrow> bool" where
  "tenant_conflict t u \<longleftrightarrow> tn_id t = tn_id u \<or> tn_email t = tn_email u"

definition createTenantWithHash ::
  "time_ms \<Rightarrow> uuid \<Rightarrow> string \<Rightarrow> string \<Rightarrow> string option \<Rightarrow> plan_tier \<Rightarrow> server \<Rightarrow> (tenant \<times> server) option" where
  "createTenantWithHash now i email passwordHash companyName plan s =
     (let t = new_tenant now i email passwordHash companyName plan in
      if list_ex (tenant_conflict t) (t_tenants s) then None
      else Some (t, s\<lparr>t_tenants := t_tenants s @ [t]\<rparr>))"

definition createTenant ::
  "scrypt \<Rightarrow> nat list \<Rightarrow> time_ms \<Rightarrow> uuid \<Rightarrow> string \<Rightarrow> string \<Rightarrow> string option \<Rightarrow> plan_tier \<Rightarrow> server
     \<Rightarrow> (tenant \<times> server) option" where
  "createTenant scrypt salt now i email password companyName plan s =
     createTenantWithHash now i email (hashPassword scrypt salt password) companyName plan s"

definition getTenantById :: "uuid \<Rightarrow> server \<Rightarrow> tenant option" where
  "getTenantById i s = first_row (\<lambda>t. tn_id t = i) (t_tenants s)"

definition getTenantByEmail :: "string \<Rightarrow> server \<Rightarrow> tenant option" where
  "getTenantByEmail email s = first_row (\<lambda>t. tn_email t = lower (trim email)) (t_tenants s)"

text \<open>The outer \<open>None\<close>: the call throws.\<close>

definition authenticateTenant :: "scrypt \<Rightarrow> string \<Rightarrow> json \<Rightarrow> server \<Rightarrow> tenant option option" where
  "authenticateTenant scrypt email password s =
     (case first_row (\<lambda>t. tn_email t = lower (trim email) \<and> tn_status t = TenantActive) (t_tenants s) of
        None \<Rightarrow> Some None
      | Some t \<Rightarrow> (case verifyPassword scrypt password (tn_password_hash t) of
            None \<Rightarrow> None
          | Some valid \<Rightarrow> Some (if valid then Some t else None)))"

definition set_plan :: "plan_tier \<times> time_ms \<Rightarrow> tenant \<Rightarrow> tenant" where
  "set_plan a t = (case a of (plan, now) \<Rightarrow>
     t\<lparr>tn_plan := plan, tn_rate_limit := fst (PLAN_LIMITS plan), tn_monthly_quota := snd (PLAN_LIMITS plan),
       tn_updated_at := now\<rparr>)"

definition updateTenantPlan :: "time_ms \<Rightarrow> uuid \<Rightarrow> plan_tier \<Rightarrow> server \<Rightarrow> tenant option \<times> server" where
  "updateTenantPlan now i plan s =
     (case returning (\<lambda>t. tn_id t = i) (set_plan (plan, now)) (t_tenants s) of
        [] \<Rightarrow> (None, s)
      | t # _ \<Rightarrow> (Some t, s\<lparr>t_tenants := update_rows (\<lambda>t. tn_id t = i) (set_plan (plan, now)) (t_tenants s)\<rparr>))"

section \<open>Pending sign-ups\<close>

definition SIGNUP_TTL_HOURS :: int where "SIGNUP_TTL_HOURS = 24"

record signup_payload =
  sg_email :: string
  sg_password_hash :: string
  sg_company_name :: "string option"

text \<open>The token hash is unique; \<open>None\<close> is the violation.\<close>

definition createPendingSignup ::
  "(string \<Rightarrow> string) \<Rightarrow> time_ms \<Rightarrow> string \<Rightarrow> signup_payload \<Rightarrow> server \<Rightarrow> (time_ms \<times> server) option" where
  "createPendingSignup sha now token inp s =
     (let expiresAt = now + SIGNUP_TTL_HOURS * 60 * 60 * 1000;
          row = \<lparr> pd_email = lower (trim (sg_email inp)), pd_password_hash = sg_password_hash inp,
                  pd_company_name = trim_or_null (sg_company_name inp), pd_token_hash = sha token,
                  pd_expires_at = expiresAt, pd_consumed_at = None \<rparr>
      in if list_ex (\<lambda>r. pd_token_hash r = sha token) (t_pending s) then None
         else Some (expiresAt, s\<lparr>t_pending := t_pending s @ [row]\<rparr>))"

definition consumable :: "string \<Rightarrow> time_ms \<Rightarrow> pending_signup \<Rightarrow> bool" where
  "consumable tokenHash now r \<longleftrightarrow> pd_token_hash r = tokenHash \<and> pd_consumed_at r = None \<and> now < pd_expires_at r"

definition consume_signup :: "time_ms \<Rightarrow> pending_signup \<Rightarrow> pending_signup" where
  "consume_signup now r = r\<lparr>pd_consumed_at := Some now\<rparr>"

definition consumePendingSignup ::
  "(string \<Rightarrow> string) \<Rightarrow> time_ms \<Rightarrow> string \<Rightarrow> server \<Rightarrow> signup_payload option \<times> server" where
  "consumePendingSignup sha now token s =
     (case returning (consumable (sha token) now) (consume_signup now) (t_pending s) of
        [] \<Rightarrow> (None, s)
      | r # _ \<Rightarrow> (Some \<lparr> sg_email = pd_email r, sg_password_hash = pd_password_hash r, sg_company_name = pd_company_name r \<rparr>,
          s\<lparr>t_pending := update_rows (consumable (sha token) now) (consume_signup now) (t_pending s)\<rparr>))"

definition purgeable :: "time_ms \<Rightarrow> pending_signup \<Rightarrow> bool" where
  "purgeable now r \<longleftrightarrow> pd_expires_at r \<le> now
     \<or> (case pd_consumed_at r of None \<Rightarrow> False | Some c \<Rightarrow> c < now - 7 * ms_per_day)"

definition purgeExpiredPendingSignups :: "time_ms \<Rightarrow> server \<Rightarrow> nat \<times> server" where
  "purgeExpiredPendingSignups now s =
     (length (select_rows (purgeable now) (t_pending s)), s\<lparr>t_pending := delete_rows (purgeable now) (t_pending s)\<rparr>)"

section \<open>The password policy\<close>

definition MIN_PASSWORD_LENGTH :: nat where "MIN_PASSWORD_LENGTH = 12"

definition COMMON_PASSWORDS :: "string list" where
  "COMMON_PASSWORDS = [''password'', ''password123'', ''changeme'', ''letmein'', ''qwerty'', ''qwerty123'',
     ''12345678'', ''123456789'', ''1234567890'', ''admin1234'', ''welcome1'', ''iloveyou'',
     ''zeroauth'', ''zeroauth123'', ''zero-auth'', ''p@ssw0rd'', ''passw0rd'']"

definition validatePassword :: "json \<Rightarrow> string option" where
  "validatePassword password = (case password of
       JStr p \<Rightarrow>
         if length p < MIN_PASSWORD_LENGTH then Some (''Password must be at least '' @ dec_nat MIN_PASSWORD_LENGTH @ '' characters.'')
         else if 256 < length p then Some ''Password must be at most 256 characters.''
         else if \<not> list_ex (\<lambda>c. is_upper c \<or> is_lower c) p \<or> \<not> list_ex is_digit p
           then Some ''Password must contain at least one letter and one digit.''
         else if lower p \<in> set COMMON_PASSWORDS then Some ''Password is too common. Pick something less guessable.''
         else None
     | _ \<Rightarrow> Some (''Password must be at least '' @ dec_nat MIN_PASSWORD_LENGTH @ '' characters.''))"

section \<open>Signing up\<close>

datatype mail = NoticeMail string | VerifyMail string string | WelcomeMail string

record console_reply =
  cr_status :: nat
  cr_code :: string
  cr_message :: string

definition reply :: "nat \<Rightarrow> string \<Rightarrow> string \<Rightarrow> console_reply" where
  "reply n c m = \<lparr> cr_status = n, cr_code = c, cr_message = m \<rparr>"

definition UNIFORM_BODY :: console_reply where
  "UNIFORM_BODY = reply 202 ''pending_verification''
     ''If this email isn't already registered, we've sent a verification link. Check your inbox.''"

text \<open>What the sign-up draws: the salt and the token.\<close>

record signup_draw =
  sd_salt :: "nat list"
  sd_token :: string

text \<open>\<open>companyName || null\<close> and then \<open>?.trim()\<close>: \<open>None\<close> when that throws.\<close>

definition company_input :: "json \<Rightarrow> string option option" where
  "company_input c = (if \<not> truthy c then Some None else (case c of JStr s \<Rightarrow> Some (Some s) | _ \<Rightarrow> None))"

definition post_signup ::
  "(string \<Rightarrow> string) \<Rightarrow> scrypt \<Rightarrow> time_ms \<Rightarrow> signup_draw \<Rightarrow> json \<Rightarrow> server \<Rightarrow> console_reply \<times> mail list \<times> server" where
  "post_signup sha scrypt now draw body s =
     (let email = jget ''email'' body; password = jget ''password'' body; companyName = jget ''companyName'' body in
      if \<not> truthy email \<or> \<not> truthy password then
        (reply 400 ''invalid_request'' ''Email and password are required.'', [], s)
      else (case validatePassword password of
          Some message \<Rightarrow> (reply 400 ''invalid_password'' message, [], s)
        | None \<Rightarrow> (case (email, password) of
              (JStr e, JStr p) \<Rightarrow> (case getTenantByEmail e s of
                  Some existing \<Rightarrow> (UNIFORM_BODY, [NoticeMail (tn_email existing)], s)
                | None \<Rightarrow> (case company_input companyName of
                      None \<Rightarrow> (UNIFORM_BODY, [], s)
                    | Some company \<Rightarrow>
                        (case createPendingSignup sha now (sd_token draw)
                            \<lparr> sg_email = e, sg_password_hash = hashPassword scrypt (sd_salt draw) p, sg_company_name = company \<rparr> s of
                           None \<Rightarrow> (UNIFORM_BODY, [], s)
                         | Some (expiresAt, s') \<Rightarrow> (UNIFORM_BODY, [VerifyMail e (sd_token draw)], s'))))
            | _ \<Rightarrow> (UNIFORM_BODY, [], s))))"

end
