(* ===== verification/Api_Access.thy ===== *)
theory Api_Access
  imports Accounts
begin

text \<open>
  API keys (\<open>src/services/api-keys.ts\<close>), metering (\<open>src/services/usage.ts\<close>),
  the middleware that admits a tenant's request (\<open>src/middleware/tenant-auth.ts\<close>) and the
  Postgres rate limiter (\<open>src/middleware/rate-limit.ts\<close>).
\<close>

section \<open>API keys\<close>

text \<open>A key is drawn as 24 bytes.\<close>

definition generateRawKey :: "environment \<Rightarrow> nat list \<Rightarrow> string" where
  "generateRawKey e random = ''za_'' @ env_str e @ ''_'' @ bytes_hex random"

definition extractPrefix :: "string \<Rightarrow> string" where
  "extractPrefix rawKey = take 14 rawKey"

definition DEFAULT_SCOPES :: "string list" where
  "DEFAULT_SCOPES = [''zkp:verify'', ''zkp:register'', ''identity:read'', ''nonce:create'', ''devices:read'',
     ''devices:write'', ''users:read'', ''users:write'', ''verifications:read'', ''verifications:write'',
     ''attendance:read'', ''attendance:write'', ''audit:read'', ''proof_pairing:create'', ''proof_pairing:claim'']"

definition new_api_key ::
  "(string \<Rightarrow> string) \<Rightarrow> time_ms \<Rightarrow> uuid \<Rightarrow> string \<Rightarrow> uuid \<Rightarrow> string \<Rightarrow> environment \<Rightarrow> string list \<Rightarrow> api_key" where
  "new_api_key sha now i rawKey t name e scopes =
     \<lparr> ak_id = i, ak_tenant_id = t, ak_name = name, ak_key_prefix = extractPrefix rawKey, ak_key_hash = sha rawKey,
       ak_scopes = scopes, ak_environment = e, ak_status = KeyActive, ak_last_used_at = None, ak_expires_at = None,
       ak_created_at = now, ak_revoked_at = None \<rparr>"

definition key_created_audit :: "api_key \<Rightarrow> audit_input" where
  "key_created_audit k =
     \<lparr> ai_environment = Some (ak_environment k), ai_actor_type = ActorConsole, ai_actor_id = None,
       ai_action = ''api_key.created'', ai_entity_type = ''api_key'', ai_entity_id = Some (ak_id k),
       ai_status = AuditSuccess,
       ai_summary = ''Created '' @ env_str (ak_environment k) @ '' API key '' @ ak_name k,
       ai_metadata = JObj [(''keyPrefix'', JStr (ak_key_prefix k)), (''scopes'', JArr (map JStr (ak_scopes k)))] \<rparr>"

text \<open>The raw key is returned beside the row; the \<open>INSERT\<close> raises on a taken identifier or hash.\<close>

definition createApiKey ::
  "(string \<Rightarrow> string) \<Rightarrow> time_ms \<Rightarrow> uuid \<Rightarrow> nat list \<Rightarrow> uuid \<Rightarrow> string \<Rightarrow> environment \<Rightarrow> string list option \<Rightarrow> server
     \<Rightarrow> ((string \<times> api_key) \<times> server) option" where
  "createApiKey sha now i random t name e scopes s =
     (let rawKey = generateRawKey e random;
          k = new_api_key sha now i rawKey t name e (or_else DEFAULT_SCOPES scopes)
      in if list_ex (\<lambda>q. ak_id q = i \<or> ak_key_hash q = sha rawKey) (t_api_keys s) then None
         else Some ((rawKey, k),
           recordAuditEvent sha now t (key_created_audit k) (s\<lparr>t_api_keys := t_api_keys s @ [k]\<rparr>)))"

definition touch_key :: "time_ms \<Rightarrow> api_key \<Rightarrow> api_key" where
  "touch_key now k = k\<lparr>ak_last_used_at := Some now\<rparr>"

definition authenticateApiKey :: "(string \<Rightarrow> string) \<Rightarrow> time_ms \<Rightarrow> string \<Rightarrow> server \<Rightarrow> api_key option \<times> server" where
  "authenticateApiKey sha now rawKey s =
     (case first_row (\<lambda>k. ak_key_hash k = sha rawKey \<and> ak_status k = KeyActive) (t_api_keys s) of
        None \<Rightarrow> (None, s)
      | Some k \<Rightarrow>
          if (case ak_expires_at k of None \<Rightarrow> False | Some x \<Rightarrow> x < now) then (None, s)
          else (Some k, s\<lparr>t_api_keys := update_rows (\<lambda>q. ak_id q = ak_id k) (touch_key now) (t_api_keys s)\<rparr>))"

definition listApiKeys :: "uuid \<Rightarrow> server \<Rightarrow> api_key list" where
  "listApiKeys t s = (let ks = select_rows (\<lambda>k. ak_tenant_id k = t) (t_api_keys s)
     in newest ak_created_at (length ks) ks)"

definition revoke_key :: "time_ms \<Rightarrow> api_key \<Rightarrow> api_key" where
  "revoke_key now k = k\<lparr>ak_status := KeyRevoked, ak_revoked_at := Some now\<rparr>"

definition key_revoked_audit :: "uuid \<Rightarrow> audit_input" where
  "key_revoked_audit i =
     \<lparr> ai_environment = None, ai_actor_type = ActorConsole, ai_actor_id = None,
       ai_action = ''api_key.revoked'', ai_entity_type = ''api_key'', ai_entity_id = Some i,
       ai_status = AuditSuccess, ai_summary = ''Revoked API key '' @ i, ai_metadata = JUndef \<rparr>"

definition revocable :: "uuid \<Rightarrow> uuid \<Rightarrow> api_key \<Rightarrow> bool" where
  "revocable t i k \<longleftrightarrow> ak_id k = i \<and> ak_tenant_id k = t \<and> ak_status k = KeyActive"

definition revokeApiKey :: "(string \<Rightarrow> string) \<Rightarrow> time_ms \<Rightarrow> uuid \<Rightarrow> uuid \<Rightarrow> server \<Rightarrow> bool \<times> server" where
  "revokeApiKey sha now t i s =
     (if \<not> list_ex (revocable t i) (t_api_keys s) then (False, s)
      else (True, recordAuditEvent sha now t (key_revoked_audit i)
              (s\<lparr>t_api_keys := update_rows (revocable t i) (revoke_key now) (t_api_keys s)\<rparr>)))"

definition countActiveKeys :: "uuid \<Rightarrow> server \<Rightarrow> nat" where
  "countActiveKeys t s = length (select_rows (\<lambda>k. ak_tenant_id k = t \<and> ak_status k = KeyActive) (t_api_keys s))"

section \<open>Metering\<close>

text \<open>A month is numbered; \<open>date_trunc('month', NOW())\<close> in the server's time zone, UTC.\<close>

definition month_of :: "time_ms \<Rightarrow> int" where
  "month_of now = (let (y, m, d) = civil_from_days (utc_day now) in 12 * y + (m - 1))"

datatype usage_column = CTotal | CVerify | CRegister | CSaml | COidc

definition usage_column_str :: "usage_column \<Rightarrow> string" where
  "usage_column_str c = (case c of CTotal \<Rightarrow> ''total_requests'' | CVerify \<Rightarrow> ''zkp_verifications''
     | CRegister \<Rightarrow> ''zkp_registrations'' | CSaml \<Rightarrow> ''saml_auths'' | COidc \<Rightarrow> ''oidc_auths'')"

definition usage_column_of :: "string \<Rightarrow> usage_column" where
  "usage_column_of endpoint = (let e = lower endpoint in
     if str_includes ''/zkp/verify'' e then CVerify
     else if str_includes ''/zkp/register'' e then CRegister
     else if str_includes ''/saml/'' e then CSaml
     else if str_includes ''/oidc/'' e then COidc
     else CTotal)"

text \<open>The column list of the upsert.  Postgres refuses an \<open>INSERT\<close> that names a column twice.\<close>

definition usage_insert_columns :: "usage_column \<Rightarrow> string list" where
  "usage_insert_columns c = [''tenant_id'', ''month'', ''total_requests'', usage_column_str c]"

definition bump_column :: "usage_column \<Rightarrow> usage_month \<Rightarrow> usage_month" where
  "bump_column c m = (case c of
       CTotal \<Rightarrow> m\<lparr>um_total_requests := um_total_requests m + 1\<rparr>
     | CVerify \<Rightarrow> m\<lparr>um_zkp_verifications := um_zkp_verifications m + 1\<rparr>
     | CRegister \<Rightarrow> m\<lparr>um_zkp_registrations := um_zkp_registrations m + 1\<rparr>
     | CSaml \<Rightarrow> m\<lparr>um_saml_auths := um_saml_auths m + 1\<rparr>
     | COidc \<Rightarrow> m\<lparr>um_oidc_auths := um_oidc_auths m + 1\<rparr>)"

definition bump_usage :: "usage_column \<Rightarrow> usage_month \<Rightarrow> usage_month" where
  "bump_usage c m = bump_column c (m\<lparr>um_total_requests := um_total_requests m + 1\<rparr>)"

definition new_usage :: "uuid \<Rightarrow> int \<Rightarrow> usage_month" where
  "new_usage t month = \<lparr> um_tenant_id = t, um_month = month, um_total_requests = 0, um_zkp_verifications = 0,
     um_zkp_registrations = 0, um_saml_auths = 0, um_oidc_auths = 0 \<rparr>"

definition usage_row :: "uuid \<Rightarrow> int \<Rightarrow> usage_month \<Rightarrow> bool" where
  "usage_row t month m \<longleftrightarrow> um_tenant_id m = t \<and> um_month m = month"

text \<open>\<open>None\<close>: the statement is refused.\<close>

definition upsert_usage :: "uuid \<Rightarrow> int \<Rightarrow> usage_column \<Rightarrow> usage_month list \<Rightarrow> usage_month list option" where
  "upsert_usage t month c table =
     (if \<not> distinct (usage_insert_columns c) then None
      else Some (if list_ex (usage_row t month) table then update_rows (usage_row t month) (bump_usage c) table
                 else table @ [bump_usage c (new_usage t month)]))"

definition logApiCall :: "time_ms \<Rightarrow> usage_log \<Rightarrow> server \<Rightarrow> server" where
  "logApiCall now call s =
     s\<lparr>t_usage_logs := t_usage_logs s @ [call\<lparr>ul_created_at := now\<rparr>],
       t_usage_monthly := or_else (t_usage_monthly s)
         (upsert_usage (ul_tenant_id call) (month_of now) (usage_column_of (ul_endpoint call)) (t_usage_monthly s))\<rparr>"

definition getCurrentMonthUsage :: "time_ms \<Rightarrow> uuid \<Rightarrow> server \<Rightarrow> int" where
  "getCurrentMonthUsage now t s =
     (case first_row (usage_row t (month_of now)) (t_usage_monthly s) of None \<Rightarrow> 0 | Some m \<Rightarrow> um_total_requests m)"

definition getUsageSummary :: "time_ms \<Rightarrow> uuid \<Rightarrow> nat \<Rightarrow> server \<Rightarrow> usage_month list" where
  "getUsageSummary now t months s =
     rev (sort_key um_month (select_rows (\<lambda>m. um_tenant_id m = t \<and> month_of now - int months \<le> um_month m) (t_usage_monthly s)))"

definition getRecentCalls :: "uuid \<Rightarrow> nat \<Rightarrow> server \<Rightarrow> usage_log list" where
  "getRecentCalls t limit s = newest ul_created_at limit (select_rows (\<lambda>c. ul_tenant_id c = t) (t_usage_logs s))"

record quota_answer =
  qa_allowed :: bool
  qa_used :: int
  qa_limit :: int

definition checkQuota :: "time_ms \<Rightarrow> uuid \<Rightarrow> int \<Rightarrow> server \<Rightarrow> quota_answer" where
  "checkQuota now t monthlyQuota s =
     (if monthlyQuota = -1 then \<lparr> qa_allowed = True, qa_used = 0, qa_limit = -1 \<rparr>
      else (let used = getCurrentMonthUsage now t s
            in \<lparr> qa_allowed = (used < monthlyQuota), qa_used = used, qa_limit = monthlyQuota \<rparr>))"

section \<open>Admission of a request\<close>

definition WINDOW_MS :: int where "WINDOW_MS = 15 * 60 * 1000"

record rate_window =
  rw_count :: int
  rw_start :: time_ms

record api_request =
  rq_authorization :: "string option"
  rq_x_api_key :: "string option"
  rq_url :: string
  rq_method :: string
  rq_ip :: "string option"
  rq_user_agent :: "string option"

definition raw_key :: "api_request \<Rightarrow> string option" where
  "raw_key rq =
     (if (case rq_authorization rq of None \<Rightarrow> False | Some h \<Rightarrow> starts_with ''Bearer za_'' h)
      then map_option (drop 7) (rq_authorization rq)
      else if (case rq_x_api_key rq of None \<Rightarrow> False | Some k \<Rightarrow> starts_with ''za_'' k) then rq_x_api_key rq
      else None)"

text \<open>\<open>/^za_(live|test)_[a-f0-9]{48}$/\<close>\<close>

definition key_shape :: "string \<Rightarrow> bool" where
  "key_shape raw \<longleftrightarrow> (starts_with ''za_live_'' raw \<or> starts_with ''za_test_'' raw)
     \<and> length raw = 56 \<and> list_all is_lower_hex (drop 8 raw)"

text \<open>The window of a tenant after one more request.\<close>

definition enter_window :: "time_ms \<Rightarrow> rate_window option \<Rightarrow> rate_window" where
  "enter_window now w =
     (let opened = \<lparr> rw_count = 0, rw_start = now \<rparr>;
          current = (case w of None \<Rightarrow> opened | Some x \<Rightarrow> if WINDOW_MS < now - rw_start x then opened else x)
      in current\<lparr>rw_count := rw_count current + 1\<rparr>)"

text \<open>Seconds, rounded up.\<close>

definition ceil_seconds :: "int \<Rightarrow> int" where
  "ceil_seconds ms = - ((- ms) div 1000)"

datatype gate_refusal =
    MissingApiKey | InvalidKeyFormat | InvalidApiKey | InsufficientScopes "string list"
  | TenantNotActive | RateLimitExceeded plan_tier int | QuotaExceeded plan_tier int int

definition gate_status :: "gate_refusal \<Rightarrow> nat" where
  "gate_status r = (case r of MissingApiKey \<Rightarrow> 401 | InvalidKeyFormat \<Rightarrow> 401 | InvalidApiKey \<Rightarrow> 401
     | InsufficientScopes _ \<Rightarrow> 403 | TenantNotActive \<Rightarrow> 403 | RateLimitExceeded _ _ \<Rightarrow> 429 | QuotaExceeded _ _ _ \<Rightarrow> 429)"

text \<open>The tenant context with the rate limit headers.\<close>

record admission =
  ad_tenant :: tenant
  ad_key :: api_key
  ad_limit :: int
  ad_remaining :: int
  ad_reset :: int

type_synonym windows = "uuid \<Rightarrow> rate_window option"

definition admit_tenant ::
  "time_ms \<Rightarrow> tenant \<Rightarrow> api_key \<Rightarrow> windows \<Rightarrow> server \<Rightarrow> (gate_refusal + admission) \<times> windows" where
  "admit_tenant now t k ws s =
     (let w = enter_window now (ws (tn_id t)); ws' = ws(tn_id t \<mapsto> w) in
      if tn_rate_limit t < rw_count w then
        (Inl (RateLimitExceeded (tn_plan t) (ceil_seconds (rw_start w + WINDOW_MS - now))), ws')
      else (let q = checkQuota now (tn_id t) (tn_monthly_quota t) s in
        if \<not> qa_allowed q then (Inl (QuotaExceeded (tn_plan t) (qa_used q) (qa_limit q)), ws')
        else (Inr \<lparr> ad_tenant = t, ad_key = k, ad_limit = tn_rate_limit t,
                    ad_remaining = max 0 (tn_rate_limit t - rw_count w),
                    ad_reset = ceil_seconds (rw_start w + WINDOW_MS) \<rparr>, ws')))"

definition authenticateTenantApiKey ::
  "(string \<Rightarrow> string) \<Rightarrow> time_ms \<Rightarrow> string list \<Rightarrow> api_request \<Rightarrow> windows \<Rightarrow> server
     \<Rightarrow> (gate_refusal + admission) \<times> windows \<times> server" where
  "authenticateTenantApiKey sha now requiredScopes rq ws s =
     (case raw_key rq of
        None \<Rightarrow> (Inl MissingApiKey, ws, s)
      | Some rawKey \<Rightarrow>
          if \<not> key_shape rawKey then (Inl InvalidKeyFormat, ws, s)
          else (case authenticateApiKey sha now rawKey s of
              (None, s1) \<Rightarrow> (Inl InvalidApiKey, ws, s1)
            | (Some k, s1) \<Rightarrow>
                if \<not> list_all (\<lambda>x. x \<in> set (ak_scopes k)) requiredScopes then (Inl (InsufficientScopes (ak_scopes k)), ws, s1)
                else (case getTenantById (ak_tenant_id k) s1 of
                    None \<Rightarrow> (Inl TenantNotActive, ws, s1)
                  | Some t \<Rightarrow> if tn_status t \<noteq> TenantActive then (Inl TenantNotActive, ws, s1)
                      else (case admit_tenant now t k ws s1 of (a, ws') \<Rightarrow> (a, ws', s1)))))"

text \<open>The listener on \<open>finish\<close>.\<close>

definition finish_call :: "time_ms \<Rightarrow> admission \<Rightarrow> api_request \<Rightarrow> int \<Rightarrow> int \<Rightarrow> server \<Rightarrow> server" where
  "finish_call now a rq status ms s = logApiCall now
     \<lparr> ul_tenant_id = tn_id (ad_tenant a), ul_api_key_id = Some (ak_id (ad_key a)), ul_endpoint = rq_url rq,
       ul_method = rq_method rq, ul_status_code = status, ul_response_time_ms = ms, ul_ip_address = rq_ip rq,
       ul_user_agent = rq_user_agent rq, ul_created_at = now \<rparr> s"

section \<open>The limiter in Postgres\<close>

datatype limit_key = ByApiKey | ByIp | ByApiKeyAndIp

record limit_options =
  lp_route :: string
  lp_window_ms :: int
  lp_max :: int
  lp_key_by :: limit_key

record limit_bucket =
  bk_key :: string
  bk_count :: int
  bk_window_start :: time_ms
  bk_expires :: time_ms

text \<open>The identifier of the API key, when the context is attached, and the address.\<close>

definition resolveKey :: "uuid option \<Rightarrow> string option \<Rightarrow> limit_key \<Rightarrow> string option" where
  "resolveKey apiKeyId ip keyBy = (case keyBy of
       ByApiKey \<Rightarrow> apiKeyId
     | ByIp \<Rightarrow> ip
     | ByApiKeyAndIp \<Rightarrow> (case (apiKeyId, ip) of
           (Some k, Some a) \<Rightarrow> if k = [] \<or> a = [] then None else Some (k @ ''|'' @ a)
         | _ \<Rightarrow> None))"

definition windowStartFloor :: "time_ms \<Rightarrow> int \<Rightarrow> int" where
  "windowStartFloor now windowMs = now div windowMs * windowMs"

definition buildBucketKey :: "string \<Rightarrow> string \<Rightarrow> time_ms \<Rightarrow> int \<Rightarrow> string" where
  "buildBucketKey route identity now windowMs = route @ '':'' @ identity @ '':'' @ dec_int (windowStartFloor now windowMs)"

definition hit_bucket :: "limit_bucket \<Rightarrow> limit_bucket" where
  "hit_bucket b = b\<lparr>bk_count := bk_count b + 1\<rparr>"

definition upsert_bucket :: "string \<Rightarrow> time_ms \<Rightarrow> time_ms \<Rightarrow> limit_bucket list \<Rightarrow> int \<times> limit_bucket list" where
  "upsert_bucket key now expiresAt table =
     (case first_row (\<lambda>b. bk_key b = key) table of
        None \<Rightarrow> (1, table @ [\<lparr> bk_key = key, bk_count = 1, bk_window_start = now, bk_expires = expiresAt \<rparr>])
      | Some b \<Rightarrow> (bk_count b + 1, update_rows (\<lambda>b. bk_key b = key) hit_bucket table))"

text \<open>The headers are limit, remaining and reset.\<close>

datatype limit_answer = Unlimited | Within int int int | Limited int int int int

text \<open>\<open>reachable\<close>: the upsert did not fail; the limiter fails open.\<close>

definition pgRateLimit ::
  "limit_options \<Rightarrow> bool \<Rightarrow> time_ms \<Rightarrow> uuid option \<Rightarrow> string option \<Rightarrow> limit_bucket list \<Rightarrow> limit_answer \<times> limit_bucket list" where
  "pgRateLimit opts reachable now apiKeyId ip table =
     (case resolveKey apiKeyId ip (lp_key_by opts) of
        None \<Rightarrow> (Unlimited, table)
      | Some identity \<Rightarrow>
          if identity = [] \<or> \<not> reachable then (Unlimited, table)
          else (let key = buildBucketKey (lp_route opts) identity now (lp_window_ms opts);
                    expiresAt = windowStartFloor now (lp_window_ms opts) + lp_window_ms opts;
                    (count, table') = upsert_bucket key now expiresAt table;
                    remaining = max 0 (lp_max opts - count);
                    reset = ceil_seconds expiresAt
                in if lp_max opts < count
                   then (Limited (lp_max opts) remaining reset (max 1 (ceil_seconds (expiresAt - now))), table')
                   else (Within (lp_max opts) remaining reset, table')))"

definition cleanupRateLimitBuckets :: "time_ms \<Rightarrow> limit_bucket list \<Rightarrow> limit_bucket list" where
  "cleanupRateLimitBuckets now table = delete_rows (\<lambda>b. bk_expires b < now) table"

section \<open>Who is admitted\<close>

lemma first_row_unique_key:
  "distinct (map f t) \<Longrightarrow> r \<in> set t \<Longrightarrow> Q r \<Longrightarrow> first_row (\<lambda>q. f q = f r \<and> Q q) t = Some r"
  by (induction t) (auto simp: image_iff)

lemma first_row_by_id: "distinct (map f t) \<Longrightarrow> r \<in> set t \<Longrightarrow> first_row (\<lambda>q. f q = f r) t = Some r"
  using first_row_unique_key [of f t r "\<lambda>_. True"] by simp

lemma authenticate_result:
  assumes "distinct (map ak_key_hash (t_api_keys s))"
  shows "fst (authenticateApiKey sha now raw s) = Some k \<longleftrightarrow>
    k \<in> set (t_api_keys s) \<and> ak_key_hash k = sha raw \<and> ak_status k = KeyActive
    \<and> (case ak_expires_at k of None \<Rightarrow> True | Some x \<Rightarrow> now \<le> x)"
proof
  assume "fst (authenticateApiKey sha now raw s) = Some k"
  then show "k \<in> set (t_api_keys s) \<and> ak_key_hash k = sha raw \<and> ak_status k = KeyActive
    \<and> (case ak_expires_at k of None \<Rightarrow> True | Some x \<Rightarrow> now \<le> x)"
    by (auto simp: authenticateApiKey_def dest: first_row_SomeD split: option.splits if_splits)
next
  assume k: "k \<in> set (t_api_keys s) \<and> ak_key_hash k = sha raw \<and> ak_status k = KeyActive
    \<and> (case ak_expires_at k of None \<Rightarrow> True | Some x \<Rightarrow> now \<le> x)"
  then have "first_row (\<lambda>q. ak_key_hash q = sha raw \<and> ak_status q = KeyActive) (t_api_keys s) = Some k"
    using first_row_unique_key [OF assms, of k "\<lambda>q. ak_status q = KeyActive"] by metis
  then show "fst (authenticateApiKey sha now raw s) = Some k"
    using k by (auto simp: authenticateApiKey_def split: option.splits)
qed

lemma authenticate_tables:
  "t_tenants (snd (authenticateApiKey sha now raw s)) = t_tenants s"
  "t_usage_monthly (snd (authenticateApiKey sha now raw s)) = t_usage_monthly s"
  by (simp_all add: authenticateApiKey_def split: option.split)

lemma authenticate_tenants: "authenticateApiKey sha now raw s = (r, s') \<Longrightarrow> t_tenants s' = t_tenants s"
  using authenticate_tables(1) [of sha now raw s] by simp

lemma usage_same_table:
  "t_usage_monthly s' = t_usage_monthly s \<Longrightarrow> getCurrentMonthUsage now t s' = getCurrentMonthUsage now t s"
  by (simp add: getCurrentMonthUsage_def)

lemma admit_tenant_Inr:
  "(\<exists>a. fst (admit_tenant now t k ws s) = Inr a \<and> ad_tenant a = t' \<and> ad_key a = k') \<longleftrightarrow>
    t' = t \<and> k' = k \<and> rw_count (enter_window now (ws (tn_id t))) \<le> tn_rate_limit t
    \<and> (tn_monthly_quota t = -1 \<or> getCurrentMonthUsage now (tn_id t) s < tn_monthly_quota t)"
  by (auto simp: admit_tenant_def checkQuota_def Let_def)

lemma admit_tenant_own: "fst (admit_tenant now t k ws s) = Inr a \<Longrightarrow> ad_tenant a = t \<and> ad_key a = k"
  by (auto simp: admit_tenant_def Let_def split: if_splits)

lemma admit_tenant_windows: "snd (admit_tenant now t k ws s) = ws(tn_id t \<mapsto> enter_window now (ws (tn_id t)))"
  by (simp add: admit_tenant_def Let_def)

text \<open>The steps of the middleware up to the tenant.\<close>

lemma gate_unfold:
  "fst (authenticateTenantApiKey sha now scopes rq ws s) = Inr a \<longleftrightarrow>
    (\<exists>raw k t. raw_key rq = Some raw \<and> key_shape raw \<and> fst (authenticateApiKey sha now raw s) = Some k
      \<and> set scopes \<subseteq> set (ak_scopes k) \<and> getTenantById (ak_tenant_id k) s = Some t \<and> tn_status t = TenantActive
      \<and> fst (admit_tenant now t k ws s) = Inr a)"
proof -
  have g: "getTenantById i (snd (authenticateApiKey sha now raw s)) = getTenantById i s" for i raw
    by (simp add: getTenantById_def authenticate_tables)
  have ad: "admit_tenant now t k ws (snd (authenticateApiKey sha now raw s)) = admit_tenant now t k ws s" for t k raw
    unfolding admit_tenant_def checkQuota_def usage_same_table [OF authenticate_tables(2)] ..
  have sub: "list_all (\<lambda>x. x \<in> A) scopes \<longleftrightarrow> set scopes \<subseteq> A" for A by (auto simp: list_all_iff)
  show ?thesis
  proof (cases "raw_key rq")
    case (Some raw)
    obtain ko s1 where auth: "authenticateApiKey sha now raw s = (ko, s1)" by fastforce
    note s1 = g [of _ raw, unfolded auth snd_conv] ad [of _ _ raw, unfolded auth snd_conv]
    show ?thesis
    proof (cases "key_shape raw")
      case shape: True
      show ?thesis
      proof (cases ko)
        case None
        then show ?thesis using Some shape auth by (simp add: authenticateTenantApiKey_def)
      next
        case ko: (Some k)
        have "fst (authenticateTenantApiKey sha now scopes rq ws s) =
          (if \<not> set scopes \<subseteq> set (ak_scopes k) then Inl (InsufficientScopes (ak_scopes k))
           else (case getTenantById (ak_tenant_id k) s of
               None \<Rightarrow> Inl TenantNotActive
             | Some t \<Rightarrow> if tn_status t \<noteq> TenantActive then Inl TenantNotActive else fst (admit_tenant now t k ws s)))"
          by (simp add: authenticateTenantApiKey_def Some shape auth ko sub s1 split: option.split prod.split)
        then show ?thesis using Some shape auth ko by (simp split: option.split)
      qed
    qed (simp add: authenticateTenantApiKey_def Some)
  qed (simp add: authenticateTenantApiKey_def)
qed

text \<open>Property C9.  Who is admitted: the middleware lets a request through as a given tenant with a
  given key exactly when the key sent is well formed and is the stored, active and unexpired key
  with that hash, it has every required scope, its tenant is active, the tenant's fifteen minute
  window has room for one more request and the month's quota is unlimited or not used up.\<close>

theorem api_key_admitted_iff:
  assumes "distinct (map ak_key_hash (t_api_keys s))" and "distinct (map tn_id (t_tenants s))"
  shows "(\<exists>a. fst (authenticateTenantApiKey sha now scopes rq ws s) = Inr a \<and> ad_tenant a = t \<and> ad_key a = k) \<longleftrightarrow>
    (\<exists>raw. raw_key rq = Some raw \<and> key_shape raw \<and> ak_key_hash k = sha raw) \<and>
    k \<in> set (t_api_keys s) \<and> ak_status k = KeyActive \<and> (case ak_expires_at k of None \<Rightarrow> True | Some x \<Rightarrow> now \<le> x) \<and>
    set scopes \<subseteq> set (ak_scopes k) \<and>
    t \<in> set (t_tenants s) \<and> tn_id t = ak_tenant_id k \<and> tn_status t = TenantActive \<and>
    rw_count (enter_window now (ws (tn_id t))) \<le> tn_rate_limit t \<and>
    (tn_monthly_quota t = -1 \<or> getCurrentMonthUsage now (tn_id t) s < tn_monthly_quota t)"
proof -
  have tenant: "getTenantById i s = Some t \<longleftrightarrow> t \<in> set (t_tenants s) \<and> tn_id t = i" for i t
    using first_row_by_id [OF assms(2)] by (auto simp: getTenantById_def dest: first_row_SomeD)
  have split: "(\<exists>a. fst (authenticateTenantApiKey sha now scopes rq ws s) = Inr a \<and> ad_tenant a = t \<and> ad_key a = k) \<longleftrightarrow>
      (\<exists>raw. raw_key rq = Some raw \<and> key_shape raw \<and> fst (authenticateApiKey sha now raw s) = Some k)
      \<and> set scopes \<subseteq> set (ak_scopes k) \<and> getTenantById (ak_tenant_id k) s = Some t \<and> tn_status t = TenantActive
      \<and> (\<exists>a. fst (admit_tenant now t k ws s) = Inr a \<and> ad_tenant a = t \<and> ad_key a = k)"
    (is "?l \<longleftrightarrow> ?r")
  proof
    assume ?l
    then obtain a raw k' t' where a: "raw_key rq = Some raw" "key_shape raw" "fst (authenticateApiKey sha now raw s) = Some k'"
      "set scopes \<subseteq> set (ak_scopes k')" "getTenantById (ak_tenant_id k') s = Some t'" "tn_status t' = TenantActive"
      "fst (admit_tenant now t' k' ws s) = Inr a" "ad_tenant a = t" "ad_key a = k"
      unfolding gate_unfold by (elim exE conjE) (rule that)
    then have "t' = t" "k' = k" using admit_tenant_own [OF a(7)] by simp_all
    then show ?r using a by blast
  next
    assume ?r
    then show ?l unfolding gate_unfold by blast
  qed
  show ?thesis
    unfolding split authenticate_result [OF assms(1)] tenant admit_tenant_Inr by blast
qed

definition demo_key :: string where
  "demo_key = ''za_live_'' @ replicate 48 (CHR ''a'')"

definition gate_demo :: server where
  "gate_demo = empty_server\<lparr>t_tenants := [new_tenant 0 ''t'' ''a@b'' '''' None Free],
     t_api_keys := [new_api_key rev 0 ''k'' demo_key ''t'' ''Default'' Live [''zkp:verify'']]\<rparr>"

definition demo_request :: api_request where
  "demo_request = \<lparr> rq_authorization = Some (''Bearer '' @ demo_key), rq_x_api_key = None, rq_url = ''/v1/devices'',
     rq_method = ''GET'', rq_ip = None, rq_user_agent = None \<rparr>"

lemma demo_key_shape: "raw_key demo_request = Some demo_key" "key_shape demo_key"
  by code_simp+

theorem api_key_admitted_iff_witness:
  "\<exists>a. fst (authenticateTenantApiKey rev 7 [''zkp:verify''] demo_request Map.empty gate_demo) = Inr a
     \<and> tn_email (ad_tenant a) = ''a@b''"
proof -
  define t where "t = new_tenant 0 ''t'' ''a@b'' '''' None Free"
  define k where "k = new_api_key rev 0 ''k'' demo_key ''t'' ''Default'' Live [''zkp:verify'']"
  have tk: "t_tenants gate_demo = [t]" "t_api_keys gate_demo = [k]" by (simp_all add: gate_demo_def t_def k_def)
  have f: "ak_key_hash k = rev demo_key" "ak_status k = KeyActive" "ak_expires_at k = None" "ak_scopes k = [''zkp:verify'']"
    "tn_id t = ak_tenant_id k" "tn_status t = TenantActive" "tn_rate_limit t = 100" "tn_monthly_quota t = 1000"
    by (simp_all add: t_def k_def new_tenant_def new_api_key_def PLAN_LIMITS_def)
  have u: "getCurrentMonthUsage 7 i gate_demo = 0" for i
    by (simp add: getCurrentMonthUsage_def gate_demo_def empty_server_def)
  have "\<exists>a. fst (authenticateTenantApiKey rev 7 [''zkp:verify''] demo_request Map.empty gate_demo) = Inr a
      \<and> ad_tenant a = t \<and> ad_key a = k"
    by (subst api_key_admitted_iff) (simp_all add: tk f u demo_key_shape enter_window_def Let_def)
  moreover have "tn_email t = ''a@b''" by (simp add: t_def new_tenant_def) code_simp
  ultimately show ?thesis by blast
qed

section \<open>How many are admitted\<close>

text \<open>A run of the API: requests that arrive and responses that finish, at given instants; the
  answers of the middleware in order.\<close>

datatype gate_event = Arrive "string list" api_request | Finish admission api_request int int

fun gate_run ::
  "(string \<Rightarrow> string) \<Rightarrow> (time_ms \<times> gate_event) list \<Rightarrow> windows \<Rightarrow> server \<Rightarrow> (time_ms \<times> (gate_refusal + admission)) list" where
  "gate_run sha [] ws s = []"
| "gate_run sha ((now, Arrive scopes rq) # es) ws s =
     (case authenticateTenantApiKey sha now scopes rq ws s of (a, ws', s') \<Rightarrow> (now, a) # gate_run sha es ws' s')"
| "gate_run sha ((now, Finish a rq status ms) # es) ws s = gate_run sha es ws (finish_call now a rq status ms s)"

definition admits :: "uuid \<Rightarrow> gate_refusal + admission \<Rightarrow> bool" where
  "admits i a = (case a of Inl _ \<Rightarrow> False | Inr x \<Rightarrow> tn_id (ad_tenant x) = i)"

definition admissions :: "uuid \<Rightarrow> time_ms \<Rightarrow> time_ms \<Rightarrow> (time_ms \<times> (gate_refusal + admission)) list \<Rightarrow> nat" where
  "admissions i from till answers = length (filter (\<lambda>(now, a). from \<le> now \<and> now \<le> till \<and> admits i a) answers)"

lemma admissions_simps [simp]:
  "admissions i p q [] = 0"
  "admissions i p q ((now, a) # xs) = (if p \<le> now \<and> now \<le> q \<and> admits i a then 1 else 0) + admissions i p q xs"
  by (simp_all add: admissions_def)

lemma gate_entry:
  assumes "authenticateTenantApiKey sha now scopes rq ws s = (a, ws', s')"
  shows "(\<exists>r. ws' = ws \<and> a = Inl r) \<or> (\<exists>k t' s1. t' \<in> set (t_tenants s) \<and> (a, ws') = admit_tenant now t' k ws s1)"
proof (cases "raw_key rq")
  case (Some raw)
  obtain ko s1 where auth: "authenticateApiKey sha now raw s = (ko, s1)" by fastforce
  note tenants = authenticate_tenants [OF auth]
  show ?thesis
  proof (cases "key_shape raw \<and> ko \<noteq> None")
    case True
    then obtain k where k: "key_shape raw" "ko = Some k" by auto
    show ?thesis
    proof (cases "getTenantById (ak_tenant_id k) s1")
      case t': (Some t')
      then have "t' \<in> set (t_tenants s)" using tenants by (auto simp: getTenantById_def dest: first_row_SomeD)
      then show ?thesis
        using assms by (cases "admit_tenant now t' k ws s1")
          (auto simp: authenticateTenantApiKey_def Some auth k t' split: if_splits, metis+)
    qed (use assms in \<open>auto simp: authenticateTenantApiKey_def Some auth k split: if_splits\<close>)
  qed (use assms in \<open>auto simp: authenticateTenantApiKey_def Some auth split: if_splits\<close>)
qed (use assms in \<open>auto simp: authenticateTenantApiKey_def\<close>)

lemma admit_tenant_admits:
  "admits i (fst (admit_tenant now t k ws s)) \<Longrightarrow> i = tn_id t \<and> rw_count (enter_window now (ws (tn_id t))) \<le> tn_rate_limit t"
  by (auto simp: admits_def admit_tenant_def Let_def split: sum.splits if_splits)

text \<open>A step of the middleware enters at most the window of one tenant, and admits within it.\<close>

lemma gate_window_step:
  assumes "authenticateTenantApiKey sha now scopes rq ws s = (a, ws', s')" and "distinct (map tn_id (t_tenants s))"
    and "t \<in> set (t_tenants s)"
  shows "t_tenants s' = t_tenants s" and
    "ws' (tn_id t) = ws (tn_id t) \<and> \<not> admits (tn_id t) a \<or>
     ws' (tn_id t) = Some (enter_window now (ws (tn_id t))) \<and>
       (admits (tn_id t) a \<longrightarrow> rw_count (enter_window now (ws (tn_id t))) \<le> tn_rate_limit t)"
proof -
  show "t_tenants s' = t_tenants s"
    using assms(1)
    by (auto simp: authenticateTenantApiKey_def split: option.splits if_splits prod.splits dest: authenticate_tenants)
  note gate_entry [OF assms(1)]
  then show "ws' (tn_id t) = ws (tn_id t) \<and> \<not> admits (tn_id t) a \<or>
     ws' (tn_id t) = Some (enter_window now (ws (tn_id t))) \<and>
       (admits (tn_id t) a \<longrightarrow> rw_count (enter_window now (ws (tn_id t))) \<le> tn_rate_limit t)"
  proof (elim disjE exE conjE)
    fix r
    assume "ws' = ws" "a = Inl r"
    then show ?thesis by (simp add: admits_def)
  next
    fix k t' s1
    assume entered: "t' \<in> set (t_tenants s)" "(a, ws') = admit_tenant now t' k ws s1"
    have ws': "ws' = ws(tn_id t' \<mapsto> enter_window now (ws (tn_id t')))"
      using entered(2) admit_tenant_windows [of now t' k ws s1] by (metis snd_conv)
    have own: "admits i a \<Longrightarrow> i = tn_id t' \<and> rw_count (enter_window now (ws (tn_id t'))) \<le> tn_rate_limit t'" for i
      using entered(2) admit_tenant_admits [of i now t' k ws s1] by (metis fst_conv)
    show ?thesis
    proof (cases "tn_id t' = tn_id t")
      case True
      then have "t' = t" using assms(2,3) entered(1) by (metis distinct_map inj_onD)
      then show ?thesis using own [of "tn_id t"] unfolding ws' by simp
    next
      case False
      then show ?thesis using own [of "tn_id t"] unfolding ws' by auto
    qed
  qed
qed

lemma finish_tenants [simp]: "t_tenants (finish_call now a rq status ms s) = t_tenants s"
  by (simp add: finish_call_def logApiCall_def)

definition window_ok :: "rate_window option \<Rightarrow> bool" where
  "window_ok w = (case w of None \<Rightarrow> True | Some x \<Rightarrow> 1 \<le> rw_count x)"

text \<open>What a tenant may still be given in the fifteen minutes from \<open>p\<close>.\<close>

definition rest_budget :: "nat \<Rightarrow> time_ms \<Rightarrow> rate_window option \<Rightarrow> nat" where
  "rest_budget l p w = (case w of None \<Rightarrow> l
     | Some x \<Rightarrow> (l - nat (rw_count x)) + (if rw_start x < p then l else 0))"

lemma enter_window_ok: "window_ok w \<Longrightarrow> window_ok (Some (enter_window now w))"
  by (auto simp: window_ok_def enter_window_def Let_def split: option.splits)

lemma enter_budget:
  assumes "window_ok w" "p \<le> now" "now \<le> p + WINDOW_MS"
  shows "rest_budget (nat l) p (Some (enter_window now w)) + (if rw_count (enter_window now w) \<le> l then 1 else 0)
    \<le> rest_budget (nat l) p w"
  using assms by (auto simp: window_ok_def rest_budget_def enter_window_def Let_def nat_add_distrib split: option.splits)

lemma no_late_admissions:
  "\<forall>e \<in> set es. q < fst e \<Longrightarrow> admissions i p q (gate_run sha es ws s) = 0"
  by (induction sha es ws s rule: gate_run.induct) (auto split: prod.split)

text \<open>Within the interval, every admission is paid from the budget.\<close>

lemma admissions_within:
  assumes "sorted (map fst es)" and "\<forall>e \<in> set es. p \<le> fst e" and "distinct (map tn_id (t_tenants s))"
    and "t \<in> set (t_tenants s)" and "window_ok (ws (tn_id t))"
  shows "admissions (tn_id t) p (p + WINDOW_MS) (gate_run sha es ws s) \<le> rest_budget (nat (tn_rate_limit t)) p (ws (tn_id t))"
  using assms
proof (induction sha es ws s rule: gate_run.induct)
  case (2 sha now scopes rq es ws s)
  obtain a ws' s' where step: "authenticateTenantApiKey sha now scopes rq ws s = (a, ws', s')" by (cases "authenticateTenantApiKey sha now scopes rq ws s")
  show ?case
  proof (cases "now \<le> p + WINDOW_MS")
    case in_time: True
    note g = gate_window_step [OF step "2.prems"(3,4)]
    have ok: "window_ok (ws' (tn_id t))" using g(2) enter_window_ok [OF "2.prems"(5)] "2.prems"(5) by auto
    have ih: "admissions (tn_id t) p (p + WINDOW_MS) (gate_run sha es ws' s') \<le> rest_budget (nat (tn_rate_limit t)) p (ws' (tn_id t))"
      by (rule "2.IH" [OF step [symmetric] refl]) (use "2.prems" g(1) ok in auto)
    have "rest_budget (nat (tn_rate_limit t)) p (ws' (tn_id t)) + (if admits (tn_id t) a then 1 else 0)
        \<le> rest_budget (nat (tn_rate_limit t)) p (ws (tn_id t))"
      using g(2) enter_budget [OF "2.prems"(5), of p now "tn_rate_limit t"] in_time "2.prems"(2) by (auto split: if_splits)
    then show ?thesis using ih in_time "2.prems"(2) by (simp add: step split: if_splits)
  next
    case False
    then have "\<forall>e \<in> set ((now, Arrive scopes rq) # es). p + WINDOW_MS < fst e" using "2.prems"(1) by auto
    from no_late_admissions [OF this] show ?thesis by simp
  qed
qed simp_all

text \<open>Before the interval, nothing of it is admitted.\<close>

lemma admissions_overall:
  assumes "sorted (map fst es)" and "distinct (map tn_id (t_tenants s))" and "t \<in> set (t_tenants s)"
    and "window_ok (ws (tn_id t))" and "case ws (tn_id t) of None \<Rightarrow> True | Some x \<Rightarrow> rw_start x < p"
  shows "admissions (tn_id t) p (p + WINDOW_MS) (gate_run sha es ws s) \<le> 2 * nat (tn_rate_limit t) - 1"
  using assms
proof (induction sha es ws s rule: gate_run.induct)
  case (2 sha now scopes rq es ws s)
  obtain a ws' s' where step: "authenticateTenantApiKey sha now scopes rq ws s = (a, ws', s')" by (cases "authenticateTenantApiKey sha now scopes rq ws s")
  show ?case
  proof (cases "p \<le> now")
    case True
    then have "\<forall>e \<in> set ((now, Arrive scopes rq) # es). p \<le> fst e" using "2.prems"(1) by auto
    then have le: "admissions (tn_id t) p (p + WINDOW_MS) (gate_run sha ((now, Arrive scopes rq) # es) ws s)
        \<le> rest_budget (nat (tn_rate_limit t)) p (ws (tn_id t))"
      by (intro admissions_within "2.prems"(1-4))
    have "rest_budget (nat (tn_rate_limit t)) p (ws (tn_id t)) \<le> 2 * nat (tn_rate_limit t) - 1 \<or> tn_rate_limit t \<le> 0"
      using "2.prems"(4,5) by (auto simp: rest_budget_def window_ok_def split: option.splits)
    moreover have "rest_budget (nat (tn_rate_limit t)) p (ws (tn_id t)) = 0" if "tn_rate_limit t \<le> 0"
      using that by (simp add: rest_budget_def split: option.split)
    ultimately show ?thesis using le by auto
  next
    case False
    note g = gate_window_step [OF step "2.prems"(2,3)]
    have "case ws' (tn_id t) of None \<Rightarrow> True | Some x \<Rightarrow> rw_start x < p"
      using g(2) False "2.prems"(5) by (auto simp: enter_window_def Let_def split: option.splits)
    moreover have "window_ok (ws' (tn_id t))" using g(2) enter_window_ok [OF "2.prems"(4)] "2.prems"(4) by auto
    ultimately have "admissions (tn_id t) p (p + WINDOW_MS) (gate_run sha es ws' s') \<le> 2 * nat (tn_rate_limit t) - 1"
      using "2.IH" [OF step [symmetric] refl] "2.prems"(1-3) g(1) by auto
    then show ?thesis using False by (simp add: step)
  qed
qed simp_all

text \<open>Property C24.  The rate limit: from boot, whatever requests arrive in the order of time, a tenant with
  limit \<open>L\<close> per window is never given more than \<open>2 L - 1\<close> requests in any fifteen minutes.
  The window is fixed, not sliding, so the limit itself is not the bound.\<close>

theorem tenant_rate_bound:
  assumes "sorted (map fst es)" and "distinct (map tn_id (t_tenants s))" and "t \<in> set (t_tenants s)"
  shows "admissions (tn_id t) p (p + WINDOW_MS) (gate_run sha es Map.empty s) \<le> nat (2 * tn_rate_limit t - 1)"
proof -
  have "admissions (tn_id t) p (p + WINDOW_MS) (gate_run sha es Map.empty s) \<le> 2 * nat (tn_rate_limit t) - 1"
    by (rule admissions_overall [OF assms]) (simp_all add: window_ok_def)
  then show ?thesis by simp
qed

theorem tenant_rate_bound_witness:
  "admissions ''t'' 5 900005 (gate_run rev (map (\<lambda>n. (int n, Arrive [] demo_request)) [0..<1000]) Map.empty gate_demo) \<le> 199"
proof -
  have "sorted (map fst (map (\<lambda>n. (int n, Arrive [] demo_request)) [0..<1000]))"
    by (simp add: sorted_iff_nth_mono)
  from tenant_rate_bound [OF this, of gate_demo "new_tenant 0 ''t'' ''a@b'' '''' None Free" 5 rev]
  show ?thesis by (simp add: gate_demo_def new_tenant_def PLAN_LIMITS_def WINDOW_MS_def)
qed

section \<open>What the quota counts\<close>

lemma insert_columns_distinct: "distinct (usage_insert_columns c) \<longleftrightarrow> c \<noteq> CTotal"
  by (cases c) (simp_all add: usage_insert_columns_def usage_column_str_def)

definition usage_total :: "uuid \<Rightarrow> int \<Rightarrow> usage_month list \<Rightarrow> int" where
  "usage_total t month table = (case first_row (usage_row t month) table of None \<Rightarrow> 0 | Some m \<Rightarrow> um_total_requests m)"

lemma bump_usage_fields:
  assumes "c \<noteq> CTotal"
  shows "um_total_requests (bump_usage c m) = um_total_requests m + 1"
    and "usage_row t month (bump_usage c m) = usage_row t month m"
  using assms by (cases c; simp add: bump_usage_def bump_column_def usage_row_def)+

lemma upsert_usage_total:
  assumes "upsert_usage t month c table = Some table'"
  shows "usage_total t' month' table' = usage_total t' month' table + (if t' = t \<and> month' = month then 1 else 0)"
proof -
  have c: "c \<noteq> CTotal" using assms by (simp add: upsert_usage_def insert_columns_distinct split: if_splits)
  note f = bump_usage_fields [OF c]
  show ?thesis
  proof (cases "list_ex (usage_row t month) table")
    case True
    then have "table' = update_rows (usage_row t month) (bump_usage c) table"
      using assms by (simp add: upsert_usage_def split: if_splits)
    moreover have "usage_total t' month' (update_rows (usage_row t month) (bump_usage c) table) =
        usage_total t' month' table + (if t' = t \<and> month' = month then 1 else 0)"
      using True
    proof (induction table)
      case (Cons m table)
      show ?case
      proof (cases "t' = t \<and> month' = month")
        case same: True
        show ?thesis using Cons f same by (cases "usage_row t month m") (simp_all add: usage_total_def)
      next
        case False
        then have "usage_total t' month' (update_rows (usage_row t month) (bump_usage c) ms) = usage_total t' month' ms" for ms
          using f by (induction ms) (auto simp: usage_total_def usage_row_def)
        from this [of "m # table"] show ?thesis using False by (simp only: if_False add_0_right)
      qed
    qed simp
    ultimately show ?thesis by simp
  next
    case False
    then have t': "table' = table @ [bump_usage c (new_usage t month)]"
      using assms by (simp add: upsert_usage_def split: if_splits)
    have none: "first_row (usage_row t month) table = None"
      using False by (simp add: first_row_None_iff list_ex_iff)
    have r: "usage_row t' month' (bump_usage c (new_usage t month)) \<longleftrightarrow> t' = t \<and> month' = month"
      unfolding f by (auto simp: usage_row_def new_usage_def)
    have one: "um_total_requests (bump_usage c (new_usage t month)) = 1"
      by (simp add: f new_usage_def)
    show ?thesis
      using none r one by (auto simp: t' usage_total_def first_row_append split: option.split)
  qed
qed

definition counted_call :: "uuid \<Rightarrow> usage_log \<Rightarrow> bool" where
  "counted_call t c \<longleftrightarrow> ul_tenant_id c = t \<and> usage_column_of (ul_endpoint c) \<noteq> CTotal"

definition log_calls :: "(time_ms \<times> usage_log) list \<Rightarrow> server \<Rightarrow> server" where
  "log_calls cs s = fold (\<lambda>(now, c). logApiCall now c) cs s"

lemma month_usage_total: "getCurrentMonthUsage now t s = usage_total t (month_of now) (t_usage_monthly s)"
  by (simp add: getCurrentMonthUsage_def usage_total_def)

lemma log_call_usage:
  "getCurrentMonthUsage now' t (logApiCall now c s) =
    getCurrentMonthUsage now' t s + (if counted_call t c \<and> month_of now = month_of now' then 1 else 0)"
proof (cases "upsert_usage (ul_tenant_id c) (month_of now) (usage_column_of (ul_endpoint c)) (t_usage_monthly s)")
  case None
  then have "usage_column_of (ul_endpoint c) = CTotal"
    by (simp add: upsert_usage_def insert_columns_distinct split: if_splits)
  then show ?thesis
    by (simp add: month_usage_total logApiCall_def or_else_def counted_call_def upsert_usage_def insert_columns_distinct)
next
  case (Some table')
  then have "usage_column_of (ul_endpoint c) \<noteq> CTotal"
    by (simp add: upsert_usage_def insert_columns_distinct split: if_splits)
  then show ?thesis
    using upsert_usage_total [OF Some, of t "month_of now'"]
    by (auto simp: month_usage_total logApiCall_def Some or_else_def counted_call_def)
qed

text \<open>What the quota counts: every call is logged, but the statement that should bump the
  month's total names its column twice unless the path contains one of the four metered
  fragments, and is refused.  So the usage grows by the number of the tenant's metered calls,
  and any number of calls to other endpoints leaves the quota as it was.\<close>

theorem quota_counts_metered_calls:
  assumes "\<forall>(now, c) \<in> set cs. month_of now = month_of now'"
  shows "getCurrentMonthUsage now' t (log_calls cs s) =
      getCurrentMonthUsage now' t s + int (length (filter (\<lambda>(now, c). counted_call t c) cs)) \<and>
    length (t_usage_logs (log_calls cs s)) = length (t_usage_logs s) + length cs \<and>
    ((\<forall>(now, c) \<in> set cs. usage_column_of (ul_endpoint c) = CTotal) \<longrightarrow>
       checkQuota now' t quota (log_calls cs s) = checkQuota now' t quota s)"
proof -
  have usage: "getCurrentMonthUsage now' t (log_calls cs s) =
      getCurrentMonthUsage now' t s + int (length (filter (\<lambda>(now, c). counted_call t c) cs))" for t
    using assms by (induction cs arbitrary: s) (auto simp: log_calls_def log_call_usage)
  have logs: "length (t_usage_logs (log_calls cs s)) = length (t_usage_logs s) + length cs"
    by (induction cs arbitrary: s) (auto simp: log_calls_def logApiCall_def)
  have "filter (\<lambda>(now, c). counted_call t c) cs = []" if "\<forall>(now, c) \<in> set cs. usage_column_of (ul_endpoint c) = CTotal"
    using that by (auto simp: filter_empty_conv counted_call_def)
  then show ?thesis using usage [of t] logs by (simp add: checkQuota_def)
qed

definition demo_call_log :: "string \<Rightarrow> usage_log" where
  "demo_call_log url = \<lparr> ul_tenant_id = ''t'', ul_api_key_id = None, ul_endpoint = url, ul_method = ''GET'',
     ul_status_code = 200, ul_response_time_ms = 3, ul_ip_address = None, ul_user_agent = None, ul_created_at = 0 \<rparr>"

lemma demo_columns: "usage_column_of ''/v1/devices'' = CTotal" "usage_column_of ''/v1/ZKP/verify'' = CVerify"
  by code_simp+

theorem quota_counts_metered_calls_witness:
  "qa_allowed (checkQuota 5 ''t'' 1000 (log_calls (replicate 5000 (5, demo_call_log ''/v1/devices'')) gate_demo)) \<and>
   getCurrentMonthUsage 5 ''t'' (log_calls (replicate 1000 (5, demo_call_log ''/v1/ZKP/verify'')) gate_demo) = 1000"
proof -
  have u: "getCurrentMonthUsage 5 ''t'' gate_demo = 0"
    by (simp add: getCurrentMonthUsage_def gate_demo_def empty_server_def)
  have "checkQuota 5 ''t'' 1000 (log_calls (replicate 5000 (5, demo_call_log ''/v1/devices'')) gate_demo) =
      checkQuota 5 ''t'' 1000 gate_demo"
    by (rule quota_counts_metered_calls [THEN conjunct2, THEN conjunct2, THEN mp])
      (simp_all add: demo_call_log_def demo_columns)
  moreover have "getCurrentMonthUsage 5 ''t'' (log_calls (replicate 1000 (5, demo_call_log ''/v1/ZKP/verify'')) gate_demo) = 0 + int 1000"
    by (subst quota_counts_metered_calls [THEN conjunct1])
      (simp_all add: demo_call_log_def demo_columns u counted_call_def filter_replicate)
  ultimately show ?thesis by (simp add: checkQuota_def u)
qed

section \<open>Revoked keys\<close>

definition key_evolves :: "api_key \<Rightarrow> api_key \<Rightarrow> bool" where
  "key_evolves k q \<longleftrightarrow> ak_id q = ak_id k \<and> ak_tenant_id q = ak_tenant_id k \<and> ak_key_hash q = ak_key_hash k
     \<and> ak_scopes q = ak_scopes k \<and> ak_environment q = ak_environment k
     \<and> (ak_status k = KeyRevoked \<longrightarrow> ak_status q = KeyRevoked \<and> ak_revoked_at q = ak_revoked_at k)"

interpretation keys: row_history ak_id "\<lambda>k. True" key_evolves
  by unfold_locales (auto simp: key_evolves_def)

definition keys_inv :: "server \<Rightarrow> bool" where
  "keys_inv s \<longleftrightarrow> table_ok ak_id (\<lambda>k. True) (t_api_keys s) \<and> distinct (map ak_key_hash (t_api_keys s))"

text \<open>Everything that writes the table of keys, and anything that does not.\<close>

inductive key_step :: "(string \<Rightarrow> string) \<Rightarrow> server \<Rightarrow> server \<Rightarrow> bool" for sha where
  created: "createApiKey sha now i random t name e scopes s = Some (r, s') \<Longrightarrow> key_step sha s s'"
| used: "authenticateApiKey sha now raw s = (r, s') \<Longrightarrow> key_step sha s s'"
| revoked: "revokeApiKey sha now t i s = (b, s') \<Longrightarrow> key_step sha s s'"
| other: "t_api_keys s' = t_api_keys s \<Longrightarrow> key_step sha s s'"

definition keys_sound :: "server \<Rightarrow> server \<Rightarrow> bool" where
  "keys_sound s s' \<longleftrightarrow> (keys_inv s \<longrightarrow> keys_inv s' \<and> table_extends key_evolves (t_api_keys s) (t_api_keys s'))"

lemma keys_sound_same: "t_api_keys s' = t_api_keys s \<Longrightarrow> keys_sound s s'"
  by (simp add: keys_sound_def keys_inv_def keys.extends_refl)

lemma keys_sound_trans: "keys_sound s s' \<Longrightarrow> keys_sound s' s'' \<Longrightarrow> keys_sound s s''"
  unfolding keys_sound_def using keys.extends_trans by blast

lemma keys_sound_update:
  assumes "t_api_keys s' = update_rows P f (t_api_keys s)" and "\<And>k. P k \<Longrightarrow> key_evolves k (f k)"
  shows "keys_sound s s'"
proof -
  have "map ak_key_hash (update_rows P f t) = map ak_key_hash t" for t
    using assms(2) by (induction t) (auto simp: key_evolves_def)
  then show ?thesis
    unfolding keys_sound_def keys_inv_def assms(1) using keys.update_history assms(2) by simp
qed

lemma key_step_sound: "key_step sha s s' \<Longrightarrow> keys_sound s s'"
proof (induction rule: key_step.induct)
  case (created now i random t name e scopes s r s')
  define k where "k = new_api_key sha now i (generateRawKey e random) t name e (or_else DEFAULT_SCOPES scopes)"
  have s': "t_api_keys s' = t_api_keys s @ [k]" and fresh: "ak_id k \<notin> ak_id ` set (t_api_keys s)"
    "ak_key_hash k \<notin> ak_key_hash ` set (t_api_keys s)"
    using created by (auto simp: createApiKey_def Let_def k_def new_api_key_def list_ex_iff split: if_splits)
  show ?case
    unfolding keys_sound_def keys_inv_def s' using keys.insert_history [OF _ _ fresh(1)] fresh(2) by simp
next
  case (used now raw s r s')
  show ?case
  proof (cases "r = None")
    case True
    then have "s' = s" using used by (auto simp: authenticateApiKey_def split: option.splits if_splits)
    then show ?thesis by (simp add: keys_sound_same)
  next
    case False
    then obtain k where k: "r = Some k" by blast
    have "t_api_keys s' = update_rows (\<lambda>q. ak_id q = ak_id k) (touch_key now) (t_api_keys s)"
      using used unfolding k by (auto simp: authenticateApiKey_def split: option.splits if_splits)
    then show ?thesis by (rule keys_sound_update) (simp add: key_evolves_def touch_key_def)
  qed
next
  case (revoked now t i s b s')
  show ?case
  proof (cases b)
    case True
    then have "t_api_keys s' = update_rows (revocable t i) (revoke_key now) (t_api_keys s)"
      using revoked by (auto simp: revokeApiKey_def split: if_splits)
    then show ?thesis by (rule keys_sound_update) (simp add: key_evolves_def revoke_key_def revocable_def)
  next
    case False
    then have "s' = s" using revoked by (auto simp: revokeApiKey_def split: if_splits)
    then show ?thesis by (simp add: keys_sound_same)
  qed
next
  case (other s' s)
  then show ?case by (rule keys_sound_same)
qed

lemma key_steps_sound: "(key_step sha)\<^sup>*\<^sup>* s s' \<Longrightarrow> keys_sound s s'"
  by (induction rule: rtranclp_induct) (auto intro: keys_sound_same keys_sound_trans key_step_sound)

text \<open>Revocation is final: once a key was revoked, whatever is created, used, revoked or
  otherwise done afterwards, the raw key is never accepted again.\<close>

theorem revoked_key_never_accepted:
  assumes "keys_inv s" and "revokeApiKey sha now t i s = (True, s1)"
    and "(key_step sha)\<^sup>*\<^sup>* s1 s2" and "k \<in> set (t_api_keys s)" "ak_id k = i" "ak_key_hash k = sha raw"
  shows "fst (authenticateApiKey sha now' raw s2) = None"
proof -
  have s1: "t_api_keys s1 = update_rows (revocable t i) (revoke_key now) (t_api_keys s)"
    using assms(2) by (auto simp: revokeApiKey_def split: if_splits)
  obtain q where q: "q \<in> set (t_api_keys s)" "revocable t i q"
    using assms(2) by (auto simp: revokeApiKey_def list_ex_iff split: if_splits)
  have "q = k"
  proof (rule inj_onD)
    show "inj_on ak_id (set (t_api_keys s))" using assms(1) by (simp add: keys_inv_def table_ok_def distinct_map)
  qed (use q assms(4,5) in \<open>simp_all add: revocable_def\<close>)
  then have dead: "revoke_key now k \<in> set (t_api_keys s1)"
    unfolding s1 set_update_rows
    using imageI [OF q(1), of "\<lambda>r. if revocable t i r then revoke_key now r else r"] q(2) by simp
  have "keys_inv s1"
    using key_step_sound [OF key_step.revoked [OF assms(2)]] assms(1) by (simp add: keys_sound_def)
  then have inv2: "keys_inv s2" and "table_extends key_evolves (t_api_keys s1) (t_api_keys s2)"
    using key_steps_sound [OF assms(3)] by (simp_all add: keys_sound_def)
  then obtain p where p: "p \<in> set (t_api_keys s2)" "key_evolves (revoke_key now k) p"
    using dead by (auto simp: table_extends_def)
  then have p': "ak_key_hash p = sha raw" "ak_status p = KeyRevoked"
    using assms(6) by (auto simp: key_evolves_def revoke_key_def)
  show ?thesis
  proof (rule ccontr)
    assume "fst (authenticateApiKey sha now' raw s2) \<noteq> None"
    then obtain l where "fst (authenticateApiKey sha now' raw s2) = Some l" by blast
    then have l: "l \<in> set (t_api_keys s2)" "ak_key_hash l = sha raw" "ak_status l = KeyActive"
      using authenticate_result inv2 by (auto simp: keys_inv_def)
    have "inj_on ak_key_hash (set (t_api_keys s2))" using inv2 by (simp add: keys_inv_def distinct_map)
    then have "l = p" by (rule inj_onD) (use l p p' in simp_all)
    then show False using l p' by simp
  qed
qed

theorem revoked_key_never_accepted_witness:
  "\<exists>s1. revokeApiKey rev 9 ''t'' ''k'' gate_demo = (True, s1) \<and> fst (authenticateApiKey rev 5 demo_key gate_demo) \<noteq> None
     \<and> fst (authenticateApiKey rev 10 demo_key s1) = None"
proof -
  have inv: "keys_inv gate_demo" by (simp add: keys_inv_def gate_demo_def table_ok_def)
  obtain b s1 where r: "revokeApiKey rev 9 ''t'' ''k'' gate_demo = (b, s1)" by fastforce
  then have b: "b" by (auto simp: revokeApiKey_def gate_demo_def revocable_def new_api_key_def split: if_splits)
  have "fst (authenticateApiKey rev 10 demo_key s1) = None"
    by (rule revoked_key_never_accepted [OF inv, where t = "''t''" and i = "''k''" and now = 9 and ?s1.0 = s1
          and k = "new_api_key rev 0 ''k'' demo_key ''t'' ''Default'' Live [''zkp:verify'']"])
      (use r b in \<open>simp_all add: gate_demo_def new_api_key_def\<close>)
  moreover have "fst (authenticateApiKey rev 5 demo_key gate_demo) \<noteq> None"
    by (simp add: authenticateApiKey_def gate_demo_def new_api_key_def)
  ultimately show ?thesis using r b by simp
qed

section \<open>The shared limiter\<close>

datatype limit_event = Hit bool "uuid option" "string option" | Cleanup

text \<open>A request says whether it reaches the store; \<open>pgRateLimit\<close> fails open when it does not.
  The answers of the limiter, each with that flag and the identity it was keyed by.\<close>

fun limit_run :: "limit_options \<Rightarrow> (time_ms \<times> limit_event) list \<Rightarrow> limit_bucket list \<Rightarrow>
    (bool \<times> string option \<times> limit_answer) list" where
  "limit_run opts [] table = []"
| "limit_run opts ((now, Hit up k ip) # es) table =
     (case pgRateLimit opts up now k ip table of (a, table') \<Rightarrow>
        (up, resolveKey k ip (lp_key_by opts), a) # limit_run opts es table')"
| "limit_run opts ((now, Cleanup) # es) table = limit_run opts es (cleanupRateLimitBuckets now table)"

definition passes :: "limit_answer \<Rightarrow> bool" where
  "passes a = (case a of Unlimited \<Rightarrow> True | Within _ _ _ \<Rightarrow> True | Limited _ _ _ _ \<Rightarrow> False)"

definition answers_for :: "bool \<Rightarrow> string \<Rightarrow> (bool \<times> string option \<times> limit_answer) list \<Rightarrow> limit_answer list" where
  "answers_for up identity xs = map (\<lambda>x. snd (snd x)) (filter (\<lambda>x. fst x = up \<and> fst (snd x) = Some identity) xs)"

definition bucket_holds :: "string \<Rightarrow> nat \<Rightarrow> time_ms \<Rightarrow> limit_bucket list \<Rightarrow> bool" where
  "bucket_holds key n expires table =
     (case first_row (\<lambda>b. bk_key b = key) table of
        None \<Rightarrow> n = 0
      | Some b \<Rightarrow> bk_count b = int n \<and> bk_expires b = expires)"

interpretation bucket_hits: keyed_update bk_key "\<lambda>_ :: unit. hit_bucket"
  by unfold_locales (simp add: hit_bucket_def)

lemma upsert_same_bucket:
  assumes "bucket_holds key n x table"
  shows "fst (upsert_bucket key now x table) = int n + 1"
    and "bucket_holds key (Suc n) x (snd (upsert_bucket key now x table))"
  using assms bucket_hits.lookup_updated [of key table _ "\<lambda>b. bk_key b = key"]
  by (auto simp: bucket_holds_def upsert_bucket_def first_row_append hit_bucket_def dest: first_row_SomeD split: option.splits)

lemma upsert_other_bucket:
  assumes "bucket_holds key n x table" "key' \<noteq> key"
  shows "bucket_holds key n x (snd (upsert_bucket key' now x' table))"
  using assms bucket_hits.lookup_other [of "\<lambda>b. bk_key b = key'" key' key table]
  by (auto simp: bucket_holds_def upsert_bucket_def first_row_append split: option.splits)

lemma first_row_filter:
  "first_row P t = Some r \<Longrightarrow> Q r \<Longrightarrow> first_row P (filter Q t) = Some r"
  "first_row P t = None \<Longrightarrow> first_row P (filter Q t) = None"
  by (induction t) (auto split: if_splits)

lemma cleanup_keeps_bucket:
  "bucket_holds key n x table \<Longrightarrow> now \<le> x \<Longrightarrow> bucket_holds key n x (cleanupRateLimitBuckets now table)"
  using first_row_filter [of "\<lambda>b. bk_key b = key" table]
  by (auto simp: bucket_holds_def cleanupRateLimitBuckets_def delete_rows_def split: option.splits)

lemma bucket_key_inject:
  "now div w = now' div w \<Longrightarrow> buildBucketKey route i now w = buildBucketKey route i' now' w \<longleftrightarrow> i = i'"
  by (simp add: buildBucketKey_def windowStartFloor_def)

text \<open>One request: what it does to the bucket of an identity.\<close>

definition bucket_key_in :: "limit_options \<Rightarrow> int \<Rightarrow> string \<Rightarrow> string" where
  "bucket_key_in opts m i = lp_route opts @ '':'' @ i @ '':'' @ dec_int (m * lp_window_ms opts)"

definition bucket_end :: "limit_options \<Rightarrow> int \<Rightarrow> time_ms" where
  "bucket_end opts m = m * lp_window_ms opts + lp_window_ms opts"

lemma limited_request:
  assumes "pgRateLimit opts True now k ip table = (a, table')" and "now div lp_window_ms opts = m" and "identity \<noteq> []"
    and "bucket_holds (bucket_key_in opts m identity) n (bucket_end opts m) table"
  shows "if resolveKey k ip (lp_key_by opts) = Some identity
    then passes a = (int n < lp_max opts) \<and> bucket_holds (bucket_key_in opts m identity) (Suc n) (bucket_end opts m) table'
    else bucket_holds (bucket_key_in opts m identity) n (bucket_end opts m) table'"
proof (cases "resolveKey k ip (lp_key_by opts) = None \<or> resolveKey k ip (lp_key_by opts) = Some []")
  case True
  then show ?thesis using assms by (auto simp: pgRateLimit_def)
next
  case False
  then obtain i where i: "resolveKey k ip (lp_key_by opts) = Some i" "i \<noteq> []" by auto
  obtain count table1 where up: "upsert_bucket (bucket_key_in opts m i) now (bucket_end opts m) table = (count, table1)" by fastforce
  have key: "buildBucketKey (lp_route opts) i now (lp_window_ms opts) = bucket_key_in opts m i"
    "windowStartFloor now (lp_window_ms opts) + lp_window_ms opts = bucket_end opts m"
    using assms(2) by (simp_all add: buildBucketKey_def windowStartFloor_def bucket_key_in_def bucket_end_def)
  have a: "table' = table1" "passes a = (\<not> lp_max opts < count)"
    using assms(1) i by (auto simp: pgRateLimit_def key up Let_def passes_def split: if_splits)
  show ?thesis
  proof (cases "i = identity")
    case True
    then show ?thesis using i a upsert_same_bucket [OF assms(4), of now] up by auto
  next
    case False
    then have "bucket_key_in opts m i \<noteq> bucket_key_in opts m identity" by (simp add: bucket_key_in_def)
    from upsert_other_bucket [OF assms(4) this, of now "bucket_end opts m"] show ?thesis using i a up False by simp
  qed
qed

lemma answers_for_Cons:
  "answers_for up i ((u, j, a) # xs) = (if u = up \<and> j = Some i then a # answers_for up i xs else answers_for up i xs)"
  "answers_for up i [] = []"
  by (simp_all add: answers_for_def)

lemma limit_run_counts:
  assumes "0 < lp_window_ms opts" and "identity \<noteq> []"
    and "\<forall>e \<in> set es. fst e div lp_window_ms opts = m"
    and "bucket_holds (bucket_key_in opts m identity) n (bucket_end opts m) table"
  shows "map passes (answers_for True identity (limit_run opts es table)) =
    map (\<lambda>j. int (n + j) < lp_max opts) [0..<length (answers_for True identity (limit_run opts es table))]"
  using assms
proof (induction opts es table arbitrary: n rule: limit_run.induct)
  case (1 opts table)
  show ?case by (simp add: answers_for_Cons)
next
  case (2 opts now up k ip es table)
  obtain a table' where lim: "pgRateLimit opts up now k ip table = (a, table')" by fastforce
  have m: "now div lp_window_ms opts = m" using "2.prems"(3) by simp
  have rest: "\<forall>e \<in> set es. fst e div lp_window_ms opts = m" using "2.prems"(3) by simp
  note ih = "2.IH" [OF lim [symmetric] "2.prems"(1,2) rest]
  consider (failed) "\<not> up" | (other) "up" "resolveKey k ip (lp_key_by opts) \<noteq> Some identity"
    | (counted) "up" "resolveKey k ip (lp_key_by opts) = Some identity" by blast
  then show ?case
  proof cases
    case failed
    then have "table' = table" using lim by (auto simp: pgRateLimit_def split: option.splits if_splits)
    moreover have "pgRateLimit opts False now k ip table = (a, table')" using lim failed by simp
    ultimately show ?thesis using ih [of n] "2.prems"(4) failed by (simp add: answers_for_Cons)
  next
    case other
    have "pgRateLimit opts True now k ip table = (a, table')" using lim other(1) by simp
    moreover from limited_request [OF this m "2.prems"(2,4)]
    have "bucket_holds (bucket_key_in opts m identity) n (bucket_end opts m) table'" using other by simp
    ultimately show ?thesis using ih [of n] other by (simp add: answers_for_Cons)
  next
    case counted
    have run: "pgRateLimit opts True now k ip table = (a, table')" using lim counted(1) by simp
    from limited_request [OF this m "2.prems"(2,4)] have "passes a = (int n < lp_max opts)"
      "bucket_holds (bucket_key_in opts m identity) (Suc n) (bucket_end opts m) table'" using counted by simp_all
    then show ?thesis
      using ih [of "Suc n"] counted by (simp add: run answers_for_Cons upt_conv_Cons map_Suc_upt [symmetric] algebra_simps del: upt_Suc)
  qed
next
  case (3 opts now es table)
  have "now div lp_window_ms opts = m" using "3.prems"(3) by simp
  then have "now = m * lp_window_ms opts + now mod lp_window_ms opts" by (metis div_mult_mod_eq)
  then have "now \<le> bucket_end opts m"
    using pos_mod_bound [OF "3.prems"(1), of now] by (simp add: bucket_end_def)
  then show ?case
    using "3.IH" [OF "3.prems"(1,2)] "3.prems"(3) cleanup_keeps_bucket [OF "3.prems"(4)] by simp
qed

lemma limit_run_open: "a \<in> set (answers_for False identity (limit_run opts es table)) \<Longrightarrow> a = Unlimited"
proof (induction opts es table rule: limit_run.induct)
  case (2 opts now up k ip es table)
  obtain b table' where lim: "pgRateLimit opts up now k ip table = (b, table')" by fastforce
  have "up \<or> b = Unlimited" using lim by (auto simp: pgRateLimit_def split: option.splits if_splits)
  then show ?case using "2.IH" [OF lim [symmetric]] "2.prems" lim by (auto simp: answers_for_Cons split: if_splits)
qed (simp_all add: answers_for_Cons)

text \<open>Property C33.  The shared limiter is exact up to its fail-open path: over the requests of
  one window, from every replica and interleaved with cleanups, with other identities and with
  requests that find the store unreachable, a request of an identity that reaches the store passes just
  as long as fewer than \<open>max\<close> requests of it reached the store before in the window,
  and every request that does not reach the store passes unlimited and uncounted.\<close>

theorem pg_limiter_exact:
  assumes "0 < lp_window_ms opts" and "identity \<noteq> []"
    and "\<forall>e \<in> set es. fst e div lp_window_ms opts = m"
    and "\<forall>b \<in> set table. bk_key b \<noteq> buildBucketKey (lp_route opts) identity (m * lp_window_ms opts) (lp_window_ms opts)"
  shows "map passes (answers_for True identity (limit_run opts es table)) =
      map (\<lambda>j. int j < lp_max opts) [0..<length (answers_for True identity (limit_run opts es table))] \<and>
    (\<forall>a \<in> set (answers_for False identity (limit_run opts es table)). a = Unlimited)"
proof -
  have "bucket_holds (bucket_key_in opts m identity) 0 (bucket_end opts m) table"
    using assms(1,4) by (auto simp: bucket_holds_def bucket_key_in_def buildBucketKey_def windowStartFloor_def
        split: option.split dest: first_row_SomeD)
  from limit_run_counts [OF assms(1-3) this] show ?thesis using limit_run_open by auto
qed

definition console_limit :: limit_options where
  "console_limit = \<lparr> lp_route = ''console:login'', lp_window_ms = 60000, lp_max = 2, lp_key_by = ByIp \<rparr>"

definition console_hits :: "(time_ms \<times> limit_event) list" where
  "console_hits = [(60001, Hit True None (Some ''ip'')), (60002, Hit True None (Some ''other'')), (60003, Cleanup),
     (60004, Hit False None (Some ''ip'')), (60005, Hit True None (Some ''ip'')), (119999, Hit True None (Some ''ip''))]"

theorem pg_limiter_exact_witness:
  "map passes (answers_for True ''ip'' (limit_run console_limit console_hits [])) = [True, True, False] \<and>
   answers_for False ''ip'' (limit_run console_limit console_hits []) = [Unlimited]"
proof -
  have l: "length (answers_for True ''ip'' (limit_run console_limit console_hits [])) = 3"
    by (simp add: answers_for_Cons console_limit_def console_hits_def resolveKey_def split: prod.split)
  have l': "length (answers_for False ''ip'' (limit_run console_limit console_hits [])) = 1"
    by (simp add: answers_for_Cons console_limit_def console_hits_def resolveKey_def split: prod.split)
  have u: "[0..<3] = [0, 1, Suc 1]" by (simp add: upt_conv_Cons)
  show ?thesis
    using pg_limiter_exact [of console_limit "''ip''" console_hits 1 "[]"] l' unfolding l u
    by (auto simp: console_limit_def console_hits_def length_Suc_conv)
qed

end
