(* ===== verification/Console.thy ===== *)
theory Console
  imports Api_Access
begin

text \<open>
  The account handlers of \<open>src/routes/console.ts\<close> that follow a sign-up: the verification
  link, the login and the management of API keys.  Signing the console token is the work of the
  \<open>jsonwebtoken\<close> package; an answer carries the tenant the token is issued for.
\<close>

section \<open>The verification link\<close>

record verify_draw =
  vd_tenant_id :: uuid
  vd_key_id :: uuid
  vd_key_random :: "nat list"

datatype verify_answer = VerifyRefused nat string | AlreadyVerified | SignupComplete tenant string

definition plan_str :: "plan_tier \<Rightarrow> string" where
  "plan_str p = (case p of Free \<Rightarrow> ''free'' | Starter \<Rightarrow> ''starter'' | Growth \<Rightarrow> ''growth'' | Enterprise \<Rightarrow> ''enterprise'')"

definition tenant_created_audit :: "tenant \<Rightarrow> audit_input" where
  "tenant_created_audit t =
     \<lparr> ai_environment = None, ai_actor_type = ActorConsole, ai_actor_id = None, ai_action = ''tenant.created'',
       ai_entity_type = ''tenant'', ai_entity_id = Some (tn_id t), ai_status = AuditSuccess,
       ai_summary = ''Verified + created tenant account for '' @ tn_email t,
       ai_metadata = JObj [(''companyName'', opt_str (tn_company_name t)), (''plan'', JStr (plan_str (tn_plan t))),
         (''viaEmailVerification'', JBool True)] \<rparr>"

definition get_verify_signup ::
  "(string \<Rightarrow> string) \<Rightarrow> time_ms \<Rightarrow> verify_draw \<Rightarrow> string \<Rightarrow> server \<Rightarrow> verify_answer \<times> mail list \<times> server" where
  "get_verify_signup sha now draw token s =
     (if token = [] then (VerifyRefused 400 ''Missing or invalid verification token.'', [], s)
      else (case consumePendingSignup sha now token s of
          (None, s1) \<Rightarrow> (VerifyRefused 400 ''This link is invalid or has already been used. Try signing up again.'', [], s1)
        | (Some p, s1) \<Rightarrow>
            if getTenantByEmail (sg_email p) s1 \<noteq> None then (AlreadyVerified, [], s1)
            else (case createTenantWithHash now (vd_tenant_id draw) (sg_email p) (sg_password_hash p) (sg_company_name p) Free s1 of
                None \<Rightarrow> (VerifyRefused 500 ''Something went wrong completing your signup. Please try the verification link again, or sign up afresh.'', [], s1)
              | Some (t, s2) \<Rightarrow>
                  (case createApiKey sha now (vd_key_id draw) (vd_key_random draw) (tn_id t) ''Default Live Key'' Live None s2 of
                     None \<Rightarrow> (VerifyRefused 500 ''Something went wrong completing your signup. Please try the verification link again, or sign up afresh.'', [], s2)
                   | Some ((rawKey, k), s3) \<Rightarrow>
                       (SignupComplete t rawKey, [WelcomeMail (tn_email t)],
                        recordAuditEvent sha now (tn_id t) (tenant_created_audit t) s3)))))"

section \<open>Login\<close>

datatype login_answer = LoginRefused nat string | LoggedIn tenant

definition post_login :: "scrypt \<Rightarrow> json \<Rightarrow> server \<Rightarrow> login_answer" where
  "post_login scrypt body s =
     (let email = jget ''email'' body; password = jget ''password'' body in
      if \<not> truthy email \<or> \<not> truthy password then LoginRefused 400 ''invalid_request''
      else (case email of
          JStr e \<Rightarrow> (case authenticateTenant scrypt e password s of
              None \<Rightarrow> LoginRefused 500 ''login_failed''
            | Some None \<Rightarrow> LoginRefused 401 ''invalid_credentials''
            | Some (Some t) \<Rightarrow> LoggedIn t)
        | _ \<Rightarrow> LoginRefused 500 ''login_failed''))"

section \<open>Managing API keys\<close>

datatype key_answer = KeyRefused nat string | KeyCreated string api_key | KeyDeleted

definition environment_of :: "string \<Rightarrow> environment option" where
  "environment_of e = (if e = ''live'' then Some Live else if e = ''test'' then Some Test else None)"

text \<open>The members of the body have the types the handler declares for them.\<close>

definition post_keys ::
  "(string \<Rightarrow> string) \<Rightarrow> time_ms \<Rightarrow> uuid \<Rightarrow> nat list \<Rightarrow> uuid \<Rightarrow> string option \<Rightarrow> string option \<Rightarrow> string list option \<Rightarrow> server
     \<Rightarrow> key_answer \<times> server" where
  "post_keys sha now i random t name env scopes s =
     (if 10 \<le> countActiveKeys t s then (KeyRefused 400 ''key_limit_reached'', s)
      else (case environment_of (if env = None \<or> env = Some [] then ''live'' else or_else ''live'' env) of
          None \<Rightarrow> (KeyRefused 500 ''Failed to create key.'', s)
        | Some e \<Rightarrow>
            (case createApiKey sha now i random t (if name = None \<or> name = Some [] then ''API Key'' else or_else ''API Key'' name) e scopes s of
               None \<Rightarrow> (KeyRefused 500 ''Failed to create key.'', s)
             | Some ((rawKey, k), s') \<Rightarrow> (KeyCreated rawKey k, s'))))"

definition delete_key :: "(string \<Rightarrow> string) \<Rightarrow> time_ms \<Rightarrow> uuid \<Rightarrow> uuid \<Rightarrow> server \<Rightarrow> key_answer \<times> server" where
  "delete_key sha now t i s = (case revokeApiKey sha now t i s of
       (False, s') \<Rightarrow> (KeyRefused 404 ''Key not found or already revoked.'', s')
     | (True, s') \<Rightarrow> (KeyDeleted, s'))"

section \<open>Sign-up tells nothing\<close>

text \<open>No enumeration: the answer to a sign-up depends on the submitted body only, not on the
  accounts that exist, the drawn salt and token, or the clock; and the request creates no account.\<close>

theorem signup_answer_is_uniform:
  "fst (post_signup sha scrypt now draw body s) = fst (post_signup sha' scrypt' now' draw' body s') \<and>
   t_tenants (snd (snd (post_signup sha scrypt now draw body s))) = t_tenants s"
proof -
  have answer: "fst (post_signup sha scrypt now draw body s) =
      (if \<not> truthy (jget ''email'' body) \<or> \<not> truthy (jget ''password'' body)
       then reply 400 ''invalid_request'' ''Email and password are required.''
       else case validatePassword (jget ''password'' body) of Some m \<Rightarrow> reply 400 ''invalid_password'' m
         | None \<Rightarrow> UNIFORM_BODY)" for sha scrypt now draw s
    by (auto simp: post_signup_def Let_def split: option.split json.split prod.split)
  have "t_tenants (snd (snd (post_signup sha scrypt now draw body s))) = t_tenants s"
    by (auto simp: post_signup_def createPendingSignup_def Let_def split: option.split json.split prod.split if_splits)
  then show ?thesis unfolding answer by simp
qed

section \<open>From sign-up to login\<close>

lemma hex_bytes_hex: "\<forall>b \<in> set bs. b < 256 \<Longrightarrow> hex_bytes (bytes_hex bs) = bs"
proof (induction bs)
  case (Cons b bs)
  then have "b div 16 < 16" by auto
  then show ?case using Cons by (simp add: bytes_hex_def is_lower_hex_hex)
qed (simp add: bytes_hex_def)

text \<open>The documented contract of scrypt: that many bytes.\<close>

definition scrypt_ok :: "scrypt \<Rightarrow> bool" where
  "scrypt_ok scrypt \<longleftrightarrow> (\<forall>p s n. length (scrypt p s n) = n \<and> (\<forall>b \<in> set (scrypt p s n). b < 256))"

lemma lower_hex_not_colon: "is_lower_hex c \<Longrightarrow> c \<noteq> CHR '':''"
  by (auto simp: is_lower_hex_def is_digit_def)

lemma verify_hashed:
  assumes "scrypt_ok scrypt" and "salt \<noteq> []"
  shows "verifyPassword scrypt (JStr q) (hashPassword scrypt salt p) =
    Some (scrypt q (bytes_hex salt) 64 = scrypt p (bytes_hex salt) 64)"
proof -
  let ?s = "bytes_hex salt" and ?h = "bytes_hex (scrypt p (bytes_hex salt) 64)"
  have nc: "\<forall>c \<in> set ?s. c \<noteq> CHR '':''" using bytes_hex_chars lower_hex_not_colon by blast
  have parts: "takeWhile (\<lambda>c. c \<noteq> CHR '':'') (?s @ CHR '':'' # ?h) = ?s"
    "dropWhile (\<lambda>c. c \<noteq> CHR '':'') (?s @ CHR '':'' # ?h) = CHR '':'' # ?h"
    using nc by (simp_all add: takeWhile_append2 dropWhile_append2)
  have l: "length (scrypt x ?s 64) = 64" for x using assms(1) by (simp add: scrypt_ok_def)
  have "?s \<noteq> []" using assms(2) by (simp add: bytes_hex_def)
  moreover have "?h \<noteq> []" using l [of p] by (metis length_bytes_hex list.size(3) mult_eq_0_iff zero_neq_numeral)
  moreover have "list_all is_hex ?h" using bytes_hex_chars is_lower_hex_hex by (auto simp: list_all_iff)
  moreover have "hex_bytes ?h = scrypt p ?s 64" using assms(1) by (intro hex_bytes_hex) (simp add: scrypt_ok_def)
  ultimately show ?thesis
    by (auto simp: verifyPassword_def hashPassword_def Let_def parts l)
qed

lemma lower_space: "is_space (to_lower_char c) = is_space c"
  by (cases "is_upper c") (auto simp: to_lower_char_def is_upper_def is_space_def)

lemma trim_lower: "trim (lower s) = lower (trim s)"
  by (simp add: trim_def lower_def dropWhile_map rev_map lower_space comp_def)

lemma dropWhile_rev_dropWhile: "dropWhile P (rev (dropWhile P (rev (dropWhile P s)))) = rev (dropWhile P (rev (dropWhile P s)))"
proof -
  obtain t where t: "dropWhile P s = rev (dropWhile P (rev (dropWhile P s))) @ t"
    by (metis rev_append rev_rev_ident takeWhile_dropWhile_id)
  show ?thesis
  proof (cases "rev (dropWhile P (rev (dropWhile P s)))")
    case (Cons c cs)
    then have "hd (dropWhile P s) = c" "dropWhile P s \<noteq> []" using t by auto
    then have "\<not> P c" using hd_dropWhile by metis
    then show ?thesis unfolding Cons by simp
  next
    case Nil
    show ?thesis unfolding Nil by simp
  qed
qed

lemma trim_idem: "trim (trim s) = trim s"
  by (simp add: trim_def dropWhile_rev_dropWhile)

lemma email_idem: "lower (trim (lower (trim e))) = lower (trim e)"
  by (simp add: trim_lower trim_idem)

lemma signup_parks:
  assumes "jget ''email'' body = JStr email" "email \<noteq> []" "jget ''password'' body = JStr password"
    and "validatePassword (JStr password) = None" "company_input (jget ''companyName'' body) = Some company"
    and "getTenantByEmail email s = None" "\<forall>r \<in> set (t_pending s). pd_token_hash r \<noteq> sha (sd_token draw)"
  shows "post_signup sha scrypt now draw body s = (UNIFORM_BODY, [VerifyMail email (sd_token draw)],
    s\<lparr>t_pending := t_pending s @ [\<lparr> pd_email = lower (trim email), pd_password_hash = hashPassword scrypt (sd_salt draw) password,
        pd_company_name = trim_or_null company, pd_token_hash = sha (sd_token draw), pd_expires_at = now + 86400000,
        pd_consumed_at = None \<rparr>]\<rparr>)"
proof -
  have "password \<noteq> []" using assms(4) by (auto simp: validatePassword_def MIN_PASSWORD_LENGTH_def)
  moreover have "\<not> list_ex (\<lambda>r. pd_token_hash r = sha (sd_token draw)) (t_pending s)"
    using assms(7) by (simp add: list_ex_iff)
  ultimately show ?thesis
    using assms(1-6) by (simp add: post_signup_def createPendingSignup_def truthy_def SIGNUP_TTL_HOURS_def Let_def)
qed

lemma signup_consumed:
  assumes "\<forall>r \<in> set rows. pd_token_hash r \<noteq> sha token" and "t_pending s = rows @ [p]"
    and "pd_token_hash p = sha token" "pd_consumed_at p = None" "now < pd_expires_at p"
  shows "consumePendingSignup sha now token s =
    (Some \<lparr> sg_email = pd_email p, sg_password_hash = pd_password_hash p, sg_company_name = pd_company_name p \<rparr>,
     s\<lparr>t_pending := rows @ [consume_signup now p]\<rparr>)"
proof -
  have old: "\<forall>r \<in> set rows. \<not> consumable (sha token) now r" using assms(1) by (auto simp: consumable_def)
  then have "returning (consumable (sha token) now) (consume_signup now) rows = []"
    by (simp add: returning_eq_Nil_iff)
  then have "returning (consumable (sha token) now) (consume_signup now) (t_pending s) = [consume_signup now p]"
    using assms(2-5) by (simp add: returning_def consumable_def)
  moreover have "update_rows (consumable (sha token) now) (consume_signup now) rows = rows"
    using old by (intro update_rows_none) blast
  ultimately show ?thesis
    using assms(2-5) by (simp add: consumePendingSignup_def consumable_def consume_signup_def)
qed

lemma consumed_is_refused:
  assumes "\<forall>r \<in> set (t_pending s). pd_token_hash r = sha token \<longrightarrow> pd_consumed_at r \<noteq> None"
  shows "consumePendingSignup sha now token s = (None, s)"
proof -
  have "\<forall>r \<in> set (t_pending s). \<not> consumable (sha token) now r" using assms by (auto simp: consumable_def)
  then have "returning (consumable (sha token) now) (consume_signup now) (t_pending s) = []"
    by (simp add: returning_eq_Nil_iff)
  then show ?thesis by (simp add: consumePendingSignup_def)
qed

lemma record_other [simp]:
  "t_pending (recordAuditEvent sha now t a s) = t_pending s"
  "t_tenants (recordAuditEvent sha now t a s) = t_tenants s"
  "t_api_keys (recordAuditEvent sha now t a s) = t_api_keys s"
  by (simp_all add: recordAuditEvent_def)

lemma fst_authenticate:
  "fst (authenticateApiKey sha now raw s) =
    (case first_row (\<lambda>k. ak_key_hash k = sha raw \<and> ak_status k = KeyActive) (t_api_keys s) of
       None \<Rightarrow> None
     | Some k \<Rightarrow> if (case ak_expires_at k of None \<Rightarrow> False | Some x \<Rightarrow> x < now) then None else Some k)"
  by (simp add: authenticateApiKey_def split: option.split)

lemma fresh_key_accepted:
  assumes "createApiKey sha now i random t name e scopes s = Some ((raw, k), s')"
  shows "fst (authenticateApiKey sha now' raw s') = Some k \<and> ak_tenant_id k = t"
proof -
  have k: "t_api_keys s' = t_api_keys s @ [k]" "ak_key_hash k = sha raw" "ak_status k = KeyActive" "ak_expires_at k = None"
    "ak_tenant_id k = t"
    using assms by (auto simp: createApiKey_def new_api_key_def Let_def split: if_splits)
  have "first_row (\<lambda>q. ak_key_hash q = sha raw \<and> ak_status q = KeyActive) (t_api_keys s) = None"
    using assms by (auto simp: createApiKey_def new_api_key_def Let_def first_row_None_iff list_ex_iff split: if_splits)
  then show ?thesis using k by (simp add: authenticateApiKey_def first_row_append)
qed

lemma verified_signup:
  assumes "token \<noteq> []" and "t_pending s = rows @ [p]" "\<forall>r \<in> set rows. pd_token_hash r \<noteq> sha token"
    and "pd_token_hash p = sha token" "pd_consumed_at p = None" "now < pd_expires_at p"
    and "getTenantByEmail (pd_email p) s = None" "vd_tenant_id v \<notin> tn_id ` set (t_tenants s)"
    and "\<forall>k \<in> set (t_api_keys s). ak_id k \<noteq> vd_key_id v \<and> ak_key_hash k \<noteq> sha (generateRawKey Live (vd_key_random v))"
  obtains t k s' where "get_verify_signup sha now v token s =
      (SignupComplete t (generateRawKey Live (vd_key_random v)), [WelcomeMail (tn_email t)], s')"
    and "t = new_tenant now (vd_tenant_id v) (pd_email p) (pd_password_hash p) (pd_company_name p) Free"
    and "t_tenants s' = t_tenants s @ [t]" and "t_pending s' = rows @ [consume_signup now p]"
    and "\<And>now'. fst (authenticateApiKey sha now' (generateRawKey Live (vd_key_random v)) s') = Some k \<and> ak_tenant_id k = tn_id t"
proof -
  define s1 where "s1 = s\<lparr>t_pending := rows @ [consume_signup now p]\<rparr>"
  define t where "t = new_tenant now (vd_tenant_id v) (pd_email p) (pd_password_hash p) (pd_company_name p) Free"
  define raw where "raw = generateRawKey Live (vd_key_random v)"
  have consumed: "consumePendingSignup sha now token s =
      (Some \<lparr> sg_email = pd_email p, sg_password_hash = pd_password_hash p, sg_company_name = pd_company_name p \<rparr>, s1)"
    unfolding s1_def by (rule signup_consumed) (use assms in auto)
  have none: "getTenantByEmail (pd_email p) s1 = None"
    using assms(7) by (simp add: getTenantByEmail_def s1_def)
  then have "\<not> list_ex (tenant_conflict t) (t_tenants s1)"
    using assms(8) by (auto simp: getTenantByEmail_def first_row_None_iff list_ex_iff tenant_conflict_def t_def new_tenant_def s1_def)
  then have created: "createTenantWithHash now (vd_tenant_id v) (pd_email p) (pd_password_hash p) (pd_company_name p) Free s1 =
      Some (t, s1\<lparr>t_tenants := t_tenants s1 @ [t]\<rparr>)"
    by (simp add: createTenantWithHash_def t_def Let_def)
  have "\<not> list_ex (\<lambda>q. ak_id q = vd_key_id v \<or> ak_key_hash q = sha raw) (t_api_keys s)"
    using assms(9) by (auto simp: list_ex_iff raw_def)
  then obtain k s3 where key: "createApiKey sha now (vd_key_id v) (vd_key_random v) (tn_id t) ''Default Live Key'' Live None
      (s1\<lparr>t_tenants := t_tenants s1 @ [t]\<rparr>) = Some ((raw, k), s3)"
    and s3: "t_tenants s3 = t_tenants s @ [t]" "t_pending s3 = rows @ [consume_signup now p]"
    by (simp add: createApiKey_def raw_def [symmetric] Let_def s1_def)
  let ?s' = "recordAuditEvent sha now (tn_id t) (tenant_created_audit t) s3"
  have "get_verify_signup sha now v token s = (SignupComplete t raw, [WelcomeMail (tn_email t)], ?s')"
    using assms(1) none by (simp add: get_verify_signup_def consumed created key)
  moreover have "fst (authenticateApiKey sha now' raw ?s') = Some k \<and> ak_tenant_id k = tn_id t" for now'
    using fresh_key_accepted [OF key, of now'] by (simp add: fst_authenticate)
  ultimately show ?thesis using that [of t ?s' k] s3 by (simp add: t_def raw_def)
qed

lemma login_new_tenant:
  assumes "t_tenants s = ts @ [t]" "\<forall>u \<in> set ts. tn_email u \<noteq> tn_email t" "tn_status t = TenantActive"
    and "lower (trim email) = tn_email t" "email \<noteq> []" "password \<noteq> []"
    and "verifyPassword scrypt (JStr password) (tn_password_hash t) = Some ok"
  shows "post_login scrypt (JObj [(''email'', JStr email), (''password'', JStr password)]) s =
    (if ok then LoggedIn t else LoginRefused 401 ''invalid_credentials'')"
proof -
  have "first_row (\<lambda>u. tn_email u = lower (trim email) \<and> tn_status u = TenantActive) ts = None"
    using assms(2,4) by (simp add: first_row_None_iff)
  then have "first_row (\<lambda>u. tn_email u = lower (trim email) \<and> tn_status u = TenantActive) (t_tenants s) = Some t"
    using assms(1,3,4) by (simp add: first_row_append)
  then show ?thesis
    using assms(5-7) by (simp add: post_login_def authenticateTenant_def jget_def truthy_def)
qed

text \<open>Property C13.  From sign-up to login: when a fresh address signs up with an acceptable password and
  the link is opened within a day, the account and a working live key exist; then, for any way of
  writing the address (letter case, surrounding blanks), login succeeds exactly with a password
  that scrypt maps to the same key, and the link does not work again.\<close>

theorem signup_then_login:
  assumes "scrypt_ok scrypt" and "sd_salt draw \<noteq> []" "sd_token draw \<noteq> []"
    and "jget ''email'' body = JStr email" "email \<noteq> []" "jget ''password'' body = JStr password"
    and "validatePassword (JStr password) = None" "company_input (jget ''companyName'' body) = Some company"
    and "getTenantByEmail email s = None" "\<forall>r \<in> set (t_pending s). pd_token_hash r \<noteq> sha (sd_token draw)"
    and "now' < now + 86400000" "vd_tenant_id v \<notin> tn_id ` set (t_tenants s)"
    and "\<forall>k \<in> set (t_api_keys s). ak_id k \<noteq> vd_key_id v \<and> ak_key_hash k \<noteq> sha (generateRawKey Live (vd_key_random v))"
    and "post_signup sha scrypt now draw body s = (answer, mails, s1)"
    and "get_verify_signup sha now' v (sd_token draw) s1 = (verified, mails', s2)"
  shows "\<exists>t raw k. verified = SignupComplete t raw \<and> tn_email t = lower (trim email) \<and>
    fst (authenticateApiKey sha now'' raw s2) = Some k \<and> ak_tenant_id k = tn_id t \<and>
    (\<forall>email' password'. lower (trim email') = lower (trim email) \<longrightarrow> email' \<noteq> [] \<longrightarrow> password' \<noteq> [] \<longrightarrow>
      post_login scrypt (JObj [(''email'', JStr email'), (''password'', JStr password')]) s2 =
        (if scrypt password' (bytes_hex (sd_salt draw)) 64 = scrypt password (bytes_hex (sd_salt draw)) 64
         then LoggedIn t else LoginRefused 401 ''invalid_credentials'')) \<and>
    consumePendingSignup sha now'' (sd_token draw) s2 = (None, s2)"
proof -
  define p where "p = \<lparr> pd_email = lower (trim email), pd_password_hash = hashPassword scrypt (sd_salt draw) password,
    pd_company_name = trim_or_null company, pd_token_hash = sha (sd_token draw), pd_expires_at = now + 86400000,
    pd_consumed_at = None \<rparr>"
  have "post_signup sha scrypt now draw body s =
      (UNIFORM_BODY, [VerifyMail email (sd_token draw)], s\<lparr>t_pending := t_pending s @ [p]\<rparr>)"
    unfolding p_def by (rule signup_parks) (fact assms)+
  then have s1: "s1 = s\<lparr>t_pending := t_pending s @ [p]\<rparr>" using assms(14) by simp
  have p: "pd_token_hash p = sha (sd_token draw)" "pd_consumed_at p = None" "pd_expires_at p = now + 86400000"
    "pd_email p = lower (trim email)" "pd_password_hash p = hashPassword scrypt (sd_salt draw) password"
    by (simp_all add: p_def)
  have none: "getTenantByEmail (pd_email p) s1 = None"
    using assms(9) by (simp add: getTenantByEmail_def p email_idem s1)
  have tables: "t_pending s1 = t_pending s @ [p]" "vd_tenant_id v \<notin> tn_id ` set (t_tenants s1)"
    "\<forall>k \<in> set (t_api_keys s1). ak_id k \<noteq> vd_key_id v \<and> ak_key_hash k \<noteq> sha (generateRawKey Live (vd_key_random v))"
    using assms(12,13) by (simp_all add: s1)
  have "now' < pd_expires_at p" using assms(11) p(3) by simp
  note fresh = verified_signup [where sha = sha and s = s1 and v = v, OF assms(3) tables(1) assms(10) p(1,2) this none tables(2,3)]
  obtain t k s' where v: "get_verify_signup sha now' v (sd_token draw) s1 =
      (SignupComplete t (generateRawKey Live (vd_key_random v)), [WelcomeMail (tn_email t)], s')"
    and t: "t = new_tenant now' (vd_tenant_id v) (pd_email p) (pd_password_hash p) (pd_company_name p) Free"
    and s': "t_tenants s' = t_tenants s1 @ [t]" "t_pending s' = t_pending s @ [consume_signup now' p]"
    and key: "\<And>now''. fst (authenticateApiKey sha now'' (generateRawKey Live (vd_key_random v)) s') = Some k \<and> ak_tenant_id k = tn_id t"
    by (rule fresh) (rule that)
  have s2: "verified = SignupComplete t (generateRawKey Live (vd_key_random v))" "s2 = s'" using assms(15) v by simp_all
  have email: "tn_email t = lower (trim email)" by (simp add: t new_tenant_def p email_idem)
  have others: "\<forall>u \<in> set (t_tenants s1). tn_email u \<noteq> tn_email t"
    using assms(9) by (auto simp: email getTenantByEmail_def first_row_None_iff s1)
  have login: "post_login scrypt (JObj [(''email'', JStr email'), (''password'', JStr password')]) s' =
      (if scrypt password' (bytes_hex (sd_salt draw)) 64 = scrypt password (bytes_hex (sd_salt draw)) 64
       then LoggedIn t else LoginRefused 401 ''invalid_credentials'')"
    if "lower (trim email') = lower (trim email)" "email' \<noteq> []" "password' \<noteq> []" for email' password'
    by (rule login_new_tenant [OF s'(1) others])
      (use that email verify_hashed [OF assms(1,2)] in \<open>simp_all add: t new_tenant_def p\<close>)
  have "consumePendingSignup sha now'' (sd_token draw) s' = (None, s')"
    by (rule consumed_is_refused) (use assms(10) in \<open>auto simp: s' consume_signup_def\<close>)
  then show ?thesis using s2 email key login by blast
qed

definition demo_scrypt :: scrypt where
  "demo_scrypt p s n = take n (map (\<lambda>c. of_char c) p @ replicate n 0)"

lemma demo_scrypt_ok: "scrypt_ok demo_scrypt"
proof -
  have "b < 256" if "b \<in> set (demo_scrypt p s n)" for b p s n
    using set_take_subset [of n "map (\<lambda>c. of_char c) p @ replicate n (0 :: nat)"] that by (auto simp: demo_scrypt_def)
  then show ?thesis by (auto simp: scrypt_ok_def demo_scrypt_def)
qed

definition demo_signup :: json where
  "demo_signup = JObj [(''email'', JStr '' Ada@x.org''), (''password'', JStr ''correct horse 9'')]"

definition demo_draw :: signup_draw where
  "demo_draw = \<lparr> sd_salt = [1, 2], sd_token = ''tok'' \<rparr>"

definition demo_verify :: verify_draw where
  "demo_verify = \<lparr> vd_tenant_id = ''t'', vd_key_id = ''k'', vd_key_random = [7] \<rparr>"

lemma demo_password: "validatePassword (JStr ''correct horse 9'') = None" "lower (trim ''ADA@x.org '') = lower (trim '' Ada@x.org'')"
  by code_simp+

theorem signup_then_login_witness:
  "\<exists>s2 t. post_login demo_scrypt (JObj [(''email'', JStr ''ADA@x.org ''), (''password'', JStr ''correct horse 9'')]) s2 = LoggedIn t
     \<and> consumePendingSignup rev 20 ''tok'' s2 = (None, s2)"
proof -
  obtain answer mails s1 where one: "post_signup rev demo_scrypt 0 demo_draw demo_signup empty_server = (answer, mails, s1)"
    by (cases "post_signup rev demo_scrypt 0 demo_draw demo_signup empty_server") auto
  obtain verified mails' s2 where two: "get_verify_signup rev 10 demo_verify (sd_token demo_draw) s1 = (verified, mails', s2)"
    by (cases "get_verify_signup rev 10 demo_verify (sd_token demo_draw) s1") auto
  have f: "sd_token demo_draw = ''tok''" "sd_salt demo_draw = [1, 2]"
    "jget ''email'' demo_signup = JStr '' Ada@x.org''" "jget ''password'' demo_signup = JStr ''correct horse 9''"
    "company_input (jget ''companyName'' demo_signup) = Some None"
    by (simp_all add: demo_draw_def demo_signup_def jget_def company_input_def truthy_def)
  have t: "getTenantByEmail '' Ada@x.org'' empty_server = None" "t_pending empty_server = []" "t_tenants empty_server = []"
    "t_api_keys empty_server = []"
    by (simp_all add: getTenantByEmail_def empty_server_def)
  have login: "\<exists>t raw k. verified = SignupComplete t raw \<and> tn_email t = lower (trim '' Ada@x.org'') \<and>
    fst (authenticateApiKey rev 20 raw s2) = Some k \<and> ak_tenant_id k = tn_id t \<and>
    (\<forall>email' password'. lower (trim email') = lower (trim '' Ada@x.org'') \<longrightarrow> email' \<noteq> [] \<longrightarrow> password' \<noteq> [] \<longrightarrow>
      post_login demo_scrypt (JObj [(''email'', JStr email'), (''password'', JStr password')]) s2 =
        (if demo_scrypt password' (bytes_hex (sd_salt demo_draw)) 64 = demo_scrypt ''correct horse 9'' (bytes_hex (sd_salt demo_draw)) 64
         then LoggedIn t else LoginRefused 401 ''invalid_credentials'')) \<and>
    consumePendingSignup rev 20 (sd_token demo_draw) s2 = (None, s2)"
    by (rule signup_then_login [OF demo_scrypt_ok _ _ f(3) _ f(4) demo_password(1) f(5) t(1) _ _ _ _ one two])
      (simp_all add: f t)
  then obtain t where "\<forall>email' password'. lower (trim email') = lower (trim '' Ada@x.org'') \<longrightarrow> email' \<noteq> [] \<longrightarrow> password' \<noteq> [] \<longrightarrow>
      post_login demo_scrypt (JObj [(''email'', JStr email'), (''password'', JStr password')]) s2 =
        (if demo_scrypt password' (bytes_hex (sd_salt demo_draw)) 64 = demo_scrypt ''correct horse 9'' (bytes_hex (sd_salt demo_draw)) 64
         then LoggedIn t else LoginRefused 401 ''invalid_credentials'')" by blast
  from this [rule_format, OF demo_password(2)]
  have "post_login demo_scrypt (JObj [(''email'', JStr ''ADA@x.org ''), (''password'', JStr ''correct horse 9'')]) s2 = LoggedIn t"
    by simp
  moreover have "consumePendingSignup rev 20 ''tok'' s2 = (None, s2)" using login unfolding f(1) by blast
  ultimately show ?thesis by blast
qed

end
