(* ===== verification/Config.thy ===== *)
theory Config
  imports Json
begin

text \<open>
  The configuration read from the environment (\<open>src/config/index.ts\<close>) and the middleware that
  depends on it: host routing (\<open>host-router.ts\<close>), the gate of the demonstration sign-ins
  (\<open>demo-auth-gate.ts\<close>), the tenant's list of origins (\<open>tenant-cors.ts\<close>), the admin key
  (\<open>middleware/auth.ts\<close>) and the last handlers (\<open>error-handler.ts\<close>).  The environment is a
  map; \<open>None\<close> is an unset variable.
\<close>

section \<open>Strings\<close>

text \<open>\<open>s.split(sep)\<close> on one character, and \<open>parseInt(s, 10)\<close> (\<open>None\<close> is \<open>NaN\<close>).\<close>

fun split_on :: "char \<Rightarrow> string \<Rightarrow> string list" where
  "split_on sep [] = [[]]"
| "split_on sep (c # cs) = (if c = sep then [] # split_on sep cs
     else (case split_on sep cs of [] \<Rightarrow> [[c]] | w # ws \<Rightarrow> (c # w) # ws))"

definition parse_int10 :: "string \<Rightarrow> int option" where
  "parse_int10 raw = (let s = dropWhile is_space raw;
     neg = (s \<noteq> [] \<and> hd s = CHR ''-'');
     t = (if s \<noteq> [] \<and> (hd s = CHR ''-'' \<or> hd s = CHR ''+'') then tl s else s)
     in map_option (\<lambda>n. if neg then - int n else int n) (from_base 10 (takeWhile is_digit t)))"

section \<open>The environment\<close>

type_synonym env = "string \<Rightarrow> string option"

definition in_production :: "env \<Rightarrow> bool" where
  "in_production e \<longleftrightarrow> e ''NODE_ENV'' = Some ''production''"

text \<open>\<open>Inl key\<close> is the error about the missing variable.\<close>

definition requireEnv :: "env \<Rightarrow> string \<Rightarrow> string option \<Rightarrow> string + string" where
  "requireEnv e key fallback =
     (let value = (case e key of Some v \<Rightarrow> Some v | None \<Rightarrow> fallback) in
      if (value = None \<or> value = Some []) \<and> in_production e then Inl key
      else Inr (or_else [] value))"

definition default_origins :: "env \<Rightarrow> string list" where
  "default_origins e =
     (if in_production e then
        [or_else ''https://api.zeroauth.dev'' (e ''API_BASE_URL''),
         or_else ''https://console.zeroauth.dev'' (e ''CONSOLE_BASE_URL''),
         or_else ''https://docs.zeroauth.dev'' (e ''DOCS_BASE_URL''),
         or_else ''https://zeroauth.dev'' (e ''LANDING_BASE_URL'')]
      else [''http://localhost:3000'', ''http://localhost:5173'', ''http://localhost:5050''])"

definition parseCorsOrigins :: "env \<Rightarrow> string list" where
  "parseCorsOrigins e =
     (case e ''CORS_ORIGINS'' of
        Some raw \<Rightarrow> if trim raw \<noteq> [] then filter (\<lambda>s. s \<noteq> []) (map trim (split_on (CHR '','') raw))
          else default_origins e
      | None \<Rightarrow> default_origins e)"

definition resolveDemoAuthFlag :: "env \<Rightarrow> bool" where
  "resolveDemoAuthFlag e = (case e ''ENABLE_DEMO_AUTH'' of
       Some raw \<Rightarrow> if raw = ''true'' then True else if raw = ''false'' then False else \<not> in_production e
     | None \<Rightarrow> \<not> in_production e)"

datatype jwt_algorithm = HS256 | RS256

record jwt_config =
  jc_secret :: string
  jc_expires_in :: string
  jc_refresh_expires_in :: string
  jc_algorithm :: jwt_algorithm
  jc_private_key :: string
  jc_public_key :: string
  jc_key_id :: string

definition nonempty_var :: "env \<Rightarrow> string \<Rightarrow> bool" where
  "nonempty_var e k \<longleftrightarrow> 0 < length (or_else [] (e k))"

definition jwt_config_of :: "env \<Rightarrow> string \<Rightarrow> jwt_config" where
  "jwt_config_of e secret =
     \<lparr> jc_secret = secret,
       jc_expires_in = or_else ''1h'' (e ''JWT_EXPIRES_IN''),
       jc_refresh_expires_in = or_else ''7d'' (e ''JWT_REFRESH_EXPIRES_IN''),
       jc_algorithm = (if e ''JWT_ALGORITHM'' = Some ''RS256''
           \<or> (nonempty_var e ''JWT_PRIVATE_KEY'' \<and> nonempty_var e ''JWT_PUBLIC_KEY'')
           \<or> (nonempty_var e ''JWT_RS256_PRIVATE_KEY'' \<and> nonempty_var e ''JWT_RS256_PUBLIC_KEY'')
         then RS256 else HS256),
       jc_private_key = (case e ''JWT_PRIVATE_KEY'' of Some k \<Rightarrow> k | None \<Rightarrow> or_else [] (e ''JWT_RS256_PRIVATE_KEY'')),
       jc_public_key = (case e ''JWT_PUBLIC_KEY'' of Some k \<Rightarrow> k | None \<Rightarrow> or_else [] (e ''JWT_RS256_PUBLIC_KEY'')),
       jc_key_id = (case e ''JWT_KID'' of Some k \<Rightarrow> k | None \<Rightarrow> or_else ''zeroauth-rs256-1'' (e ''JWT_RS256_KID'')) \<rparr>"

record app_config =
  cf_node_env :: string
  cf_port :: "int option"
  cf_api_base_url :: string
  cf_console_base_url :: string
  cf_docs_base_url :: string
  cf_landing_base_url :: string
  cf_cors_origins :: "string list"
  cf_trust_proxy :: bool
  cf_demo_auth :: bool
  cf_jwt :: jwt_config
  cf_saml_entry_point :: string
  cf_saml_issuer :: string
  cf_saml_callback_url :: string
  cf_saml_cert :: string
  cf_oidc_issuer :: string
  cf_oidc_client_id :: string
  cf_oidc_client_secret :: string
  cf_oidc_redirect_uri :: string
  cf_session_secret :: string
  cf_rate_window_ms :: "int option"
  cf_rate_max :: "int option"
  cf_admin_key :: string
  cf_log_level :: string
  cf_chain_rpc_url :: string
  cf_chain_id :: "int option"
  cf_chain_private_key :: string
  cf_did_registry_address :: string
  cf_verifier_address :: string
  cf_verify_on_chain :: bool
  cf_wasm_path :: string
  cf_zkey_path :: string
  cf_vkey_path :: string
  cf_verifier_url :: string
  cf_verifier_timeout_ms :: "int option"
  cf_redis_url :: string
  cf_use_redis :: bool
  cf_postgres_host :: string
  cf_postgres_port :: "int option"
  cf_postgres_db :: string
  cf_postgres_user :: string
  cf_postgres_password :: string
  cf_smtp_host :: string
  cf_smtp_port :: "int option"
  cf_smtp_user :: string
  cf_smtp_password :: string
  cf_from_address :: string
  cf_from_name :: string

text \<open>The module evaluates the members in order; the first missing variable stops the process.\<close>

definition load_config :: "env \<Rightarrow> string + app_config" where
  "load_config e =
     (case requireEnv e ''JWT_SECRET'' (Some ''dev-secret-change-me'') of Inl k \<Rightarrow> Inl k | Inr secret \<Rightarrow>
     (case requireEnv e ''SESSION_SECRET'' (Some ''dev-session-secret'') of Inl k \<Rightarrow> Inl k | Inr session \<Rightarrow>
     (case requireEnv e ''ADMIN_API_KEY'' (Some ''dev-admin-key'') of Inl k \<Rightarrow> Inl k | Inr admin \<Rightarrow>
     (case requireEnv e ''POSTGRES_PASSWORD'' (Some ''zeroauth-dev'') of Inl k \<Rightarrow> Inl k | Inr postgres \<Rightarrow>
      Inr \<lparr> cf_node_env = or_else ''development'' (e ''NODE_ENV''),
        cf_port = parse_int10 (or_else ''3000'' (e ''PORT'')),
        cf_api_base_url = or_else ''http://localhost:3000'' (e ''API_BASE_URL''),
        cf_console_base_url = (case e ''CONSOLE_BASE_URL'' of Some u \<Rightarrow> u | None \<Rightarrow>
          if in_production e then ''https://console.zeroauth.dev'' else ''http://localhost:3000/dashboard''),
        cf_docs_base_url = (case e ''DOCS_BASE_URL'' of Some u \<Rightarrow> u | None \<Rightarrow>
          if in_production e then ''https://docs.zeroauth.dev'' else ''http://localhost:3000/docs''),
        cf_landing_base_url = (case e ''LANDING_BASE_URL'' of Some u \<Rightarrow> u | None \<Rightarrow>
          if in_production e then ''https://zeroauth.dev'' else ''http://localhost:3000''),
        cf_cors_origins = parseCorsOrigins e,
        cf_trust_proxy = (e ''TRUST_PROXY'' = Some ''true'' \<or> in_production e),
        cf_demo_auth = resolveDemoAuthFlag e,
        cf_jwt = jwt_config_of e secret,
        cf_saml_entry_point = or_else ''https://idp.example.com/sso/saml'' (e ''SAML_ENTRY_POINT''),
        cf_saml_issuer = or_else ''zeroauth-sp'' (e ''SAML_ISSUER''),
        cf_saml_callback_url = or_else ''http://localhost:3000/api/auth/saml/callback'' (e ''SAML_CALLBACK_URL''),
        cf_saml_cert = or_else [] (e ''SAML_CERT''),
        cf_oidc_issuer = or_else ''https://accounts.google.com'' (e ''OIDC_ISSUER''),
        cf_oidc_client_id = or_else [] (e ''OIDC_CLIENT_ID''),
        cf_oidc_client_secret = or_else [] (e ''OIDC_CLIENT_SECRET''),
        cf_oidc_redirect_uri = or_else ''http://localhost:3000/api/auth/oidc/callback'' (e ''OIDC_REDIRECT_URI''),
        cf_session_secret = session,
        cf_rate_window_ms = parse_int10 (or_else ''900000'' (e ''RATE_LIMIT_WINDOW_MS'')),
        cf_rate_max = parse_int10 (or_else ''300'' (e ''RATE_LIMIT_MAX_REQUESTS'')),
        cf_admin_key = admin,
        cf_log_level = or_else ''info'' (e ''LOG_LEVEL''),
        cf_chain_rpc_url = or_else ''https://sepolia.base.org'' (e ''BLOCKCHAIN_RPC_URL''),
        cf_chain_id = parse_int10 (or_else ''84532'' (e ''BLOCKCHAIN_CHAIN_ID'')),
        cf_chain_private_key = or_else [] (e ''BLOCKCHAIN_PRIVATE_KEY''),
        cf_did_registry_address = or_else [] (e ''DID_REGISTRY_ADDRESS''),
        cf_verifier_address = or_else [] (e ''VERIFIER_CONTRACT_ADDRESS''),
        cf_verify_on_chain = (e ''VERIFY_ON_CHAIN'' = Some ''true''),
        cf_wasm_path = or_else ''circuits/build/identity_proof_js/identity_proof.wasm'' (e ''ZKP_WASM_PATH''),
        cf_zkey_path = or_else ''circuits/build/circuit_final.zkey'' (e ''ZKP_ZKEY_PATH''),
        cf_vkey_path = or_else ''circuits/build/verification_key.json'' (e ''ZKP_VKEY_PATH''),
        cf_verifier_url = or_else [] (e ''VERIFIER_URL''),
        cf_verifier_timeout_ms = parse_int10 (or_else ''2000'' (e ''VERIFIER_TIMEOUT_MS'')),
        cf_redis_url = or_else ''redis://localhost:6379'' (e ''REDIS_URL''),
        cf_use_redis = (e ''USE_REDIS_SESSIONS'' = Some ''true''),
        cf_postgres_host = or_else ''localhost'' (e ''POSTGRES_HOST''),
        cf_postgres_port = parse_int10 (or_else ''5432'' (e ''POSTGRES_PORT'')),
        cf_postgres_db = or_else ''zeroauth'' (e ''POSTGRES_DB''),
        cf_postgres_user = or_else ''zeroauth'' (e ''POSTGRES_USER''),
        cf_postgres_password = postgres,
        cf_smtp_host = or_else [] (e ''SMTP_HOST''),
        cf_smtp_port = parse_int10 (or_else ''587'' (e ''SMTP_PORT'')),
        cf_smtp_user = or_else [] (e ''SMTP_USER''),
        cf_smtp_password = or_else [] (e ''SMTP_PASSWORD''),
        cf_from_address = or_else ''noreply@zeroauth.dev'' (e ''EMAIL_FROM''),
        cf_from_name = or_else ''ZeroAuth'' (e ''EMAIL_FROM_NAME'') \<rparr>))))"

section \<open>Middleware\<close>

text \<open>A middleware passes the request on or answers it with a status and an error code.\<close>

datatype gate = Next | Answer nat string

text \<open>The answer of a handler: a body with its status, or an error code with its status.\<close>

datatype 'a answer = Reply nat 'a | Refuse nat string

definition hostRouter :: "string option \<Rightarrow> string \<Rightarrow> gate" where
  "hostRouter hostHeader path =
     (let host = hd (split_on (CHR '':'') (lower (or_else [] hostHeader))) in
      if starts_with ''api.'' host
      then (if path = ''/'' \<or> path = [] then Answer 200 ''ZeroAuth API'' else Answer 404 ''not_found'')
      else Next)"

definition demoAuthOnly :: "app_config \<Rightarrow> gate" where
  "demoAuthOnly cf = (if cf_demo_auth cf then Next else Answer 503 ''demo_auth_disabled'')"

text \<open>\<open>allowed.some(o => o.toLowerCase() === lower)\<close>: an entry that is not a string throws, which the error
  handler turns into a 500.\<close>

fun some_origin :: "json list \<Rightarrow> string \<Rightarrow> bool option" where
  "some_origin [] x = Some False"
| "some_origin (v # vs) x = (case v of
     JStr s \<Rightarrow> if lower s = x then Some True else some_origin vs x
   | _ \<Rightarrow> None)"

definition errorHandler :: gate where
  "errorHandler = Answer 500 ''Internal server error''"

definition notFoundHandler :: gate where
  "notFoundHandler = Answer 404 ''Not found''"

definition tenantCorsCheck :: "json option \<Rightarrow> string option \<Rightarrow> gate" where
  "tenantCorsCheck policy origin =
     (case policy of None \<Rightarrow> Next | Some p \<Rightarrow>
      (case jget ''allowed_origins'' p of
         JArr allowed \<Rightarrow>
           if allowed = [] then Next
           else (case origin of None \<Rightarrow> Next | Some orig \<Rightarrow>
             if orig = [] then Next
             else (case some_origin allowed (lower orig) of
                 None \<Rightarrow> errorHandler
               | Some True \<Rightarrow> Next
               | Some False \<Rightarrow> Answer 403 ''origin_not_allowed''))
       | _ \<Rightarrow> Next))"

definition authenticateAdmin :: "app_config \<Rightarrow> string option \<Rightarrow> gate" where
  "authenticateAdmin cf header = (case header of
       None \<Rightarrow> Answer 403 ''Invalid admin API key''
     | Some k \<Rightarrow> if k = [] \<or> k \<noteq> cf_admin_key cf then Answer 403 ''Invalid admin API key'' else Next)"

section \<open>Facts\<close>

lemma split_on_nonempty [simp]: "split_on sep s \<noteq> []"
  by (induction s) (auto split: list.split)

lemma requireEnv_fallback:
  "e key = None \<Longrightarrow> fb \<noteq> [] \<Longrightarrow> requireEnv e key (Some fb) = Inr fb"
  by (simp add: requireEnv_def or_else_def)

lemma requireEnv_set:
  "e key = Some v \<Longrightarrow> v \<noteq> [] \<Longrightarrow> requireEnv e key fb = Inr v"
  by (simp add: requireEnv_def or_else_def)

lemma requireEnv_empty:
  "e key = Some [] \<Longrightarrow> requireEnv e key fb = (if in_production e then Inl key else Inr [])"
  by (simp add: requireEnv_def or_else_def)

text \<open>The check of the required variables refuses the empty string only: a production process started
  with none of the four secrets set takes the development values of the source.\<close>

theorem unset_secrets_default:
  assumes "e ''JWT_SECRET'' = None" "e ''SESSION_SECRET'' = None" "e ''ADMIN_API_KEY'' = None" "e ''POSTGRES_PASSWORD'' = None"
  shows "\<exists>cf. load_config e = Inr cf \<and> jc_secret (cf_jwt cf) = ''dev-secret-change-me'' \<and>
    cf_session_secret cf = ''dev-session-secret'' \<and> cf_postgres_password cf = ''zeroauth-dev'' \<and>
    authenticateAdmin cf (Some ''dev-admin-key'') = Next"
  using assms by (simp add: load_config_def requireEnv_fallback jwt_config_of_def authenticateAdmin_def)

text \<open>A tenant's list of origins admits exactly the listed origins, up to letter case, and requests without one.\<close>

lemma some_origin_strings:
  "some_origin (map JStr os) x = Some (x \<in> set (map lower os))"
  by (induction os) auto

theorem tenant_origins_exact:
  "tenantCorsCheck (Some (JObj [(''allowed_origins'', JArr (map JStr os))])) (Some orig) = Next \<longleftrightarrow>
     os = [] \<or> orig = [] \<or> (\<exists>x \<in> set os. lower x = lower orig)"
  by (auto simp: tenantCorsCheck_def jget_def or_else_def some_origin_strings image_iff split: bool.split)

end
