(* ===== verification/Tokens.thy ===== *)
theory Tokens
  imports Config "HOL-Library.Countable"
begin

text \<open>
  Session tokens (\<open>src/services/jwt.ts\<close>), the published keys (\<open>src/routes/jwks.ts\<close>), the
  middleware \<open>authenticateJWT\<close> and the tokens of the developer console (\<open>src/routes/console.ts\<close>).
  The package \<open>jsonwebtoken\<close> is a parameter; \<open>jwt_lib_ok\<close> states its documented behaviour: a
  signed token verifies with the matching key, issuer, audience and an admitted algorithm until it expires, and
  not otherwise.
\<close>

section \<open>The signing package\<close>

record sign_options =
  so_algorithm :: jwt_algorithm
  so_expires_in :: int
  so_issuer :: string
  so_audience :: "string option"
  so_jwtid :: string
  so_keyid :: "string option"

record verify_options =
  vo_algorithms :: "jwt_algorithm list"
  vo_issuer :: string
  vo_audience :: "string option"

record jwt_lib =
  lib_sign :: "sign_options \<Rightarrow> string \<Rightarrow> time_ms \<Rightarrow> json \<Rightarrow> string option"
  lib_verify :: "verify_options \<Rightarrow> string \<Rightarrow> time_ms \<Rightarrow> string \<Rightarrow> json option"

definition registered_claims :: "sign_options \<Rightarrow> time_ms \<Rightarrow> (string \<times> json) list" where
  "registered_claims so now =
     [(''iat'', JNum (now div 1000)), (''exp'', JNum (now div 1000 + so_expires_in so)),
      (''aud'', opt_str (so_audience so)), (''iss'', JStr (so_issuer so)), (''jti'', JStr (so_jwtid so))]"

definition claims_of :: "sign_options \<Rightarrow> time_ms \<Rightarrow> (string \<times> json) list \<Rightarrow> json" where
  "claims_of so now payload =
     JObj (filter (\<lambda>m. snd m \<noteq> JUndef) payload @ filter (\<lambda>m. snd m \<noteq> JNull) (registered_claims so now))"

definition admits :: "verify_options \<Rightarrow> sign_options \<Rightarrow> time_ms \<Rightarrow> time_ms \<Rightarrow> bool" where
  "admits vo so issued now \<longleftrightarrow> so_algorithm so \<in> set (vo_algorithms vo) \<and> vo_issuer vo = so_issuer so \<and>
     (case vo_audience vo of None \<Rightarrow> True | Some a \<Rightarrow> so_audience so = Some a) \<and>
     now div 1000 < issued div 1000 + so_expires_in so"

text \<open>The calls the documentation of the package covers.  A payload is an object of JSON values without the
  claims the options set (the package refuses a claim given twice); a member that is \<open>undefined\<close> is dropped.  Issuer
  and audience are non-empty text.  A secret is non-empty text that is no PEM key; \<open>rsa_pair\<close> says which texts are the
  private and the public half of an RSA key.\<close>

definition jwt_payload :: "(string \<times> json) list \<Rightarrow> bool" where
  "jwt_payload kvs \<longleftrightarrow> distinct (map fst kvs) \<and>
     (\<forall>m \<in> set kvs. fst m \<notin> {''iat'', ''exp'', ''nbf'', ''aud'', ''iss'', ''jti''} \<and> (snd m = JUndef \<or> defined (snd m)))"

definition jwt_sign_call :: "sign_options \<Rightarrow> (string \<times> json) list \<Rightarrow> bool" where
  "jwt_sign_call so kvs \<longleftrightarrow> so_issuer so \<noteq> [] \<and> so_audience so \<noteq> Some [] \<and> jwt_payload kvs"

definition jwt_verify_call :: "verify_options \<Rightarrow> bool" where
  "jwt_verify_call vo \<longleftrightarrow> vo_algorithms vo \<noteq> [] \<and> vo_issuer vo \<noteq> [] \<and> vo_audience vo \<noteq> Some []"

definition hmac_secret :: "string \<Rightarrow> bool" where
  "hmac_secret key \<longleftrightarrow> key \<noteq> [] \<and> \<not> str_includes ''-----BEGIN'' key"

definition key_fits :: "(string \<Rightarrow> string \<Rightarrow> bool) \<Rightarrow> jwt_algorithm \<Rightarrow> string \<Rightarrow> string \<Rightarrow> bool" where
  "key_fits rsa_pair alg key key' \<longleftrightarrow> (if alg = HS256 then hmac_secret key \<and> key' = key else key \<noteq> [] \<and> rsa_pair key key')"

text \<open>What the package documents of these calls: signing with a fitting key succeeds; the token verifies with the fitting
  key, an admitted algorithm and the issuer and audience it was signed with, until it expires, and gives back the claims; with
  another algorithm, issuer or audience, or once it has expired, it verifies with no key; an empty key signs nothing.\<close>

definition jwt_lib_ok :: "jwt_lib \<Rightarrow> (string \<Rightarrow> string \<Rightarrow> bool) \<Rightarrow> bool" where
  "jwt_lib_ok lib rsa_pair \<longleftrightarrow>
     (\<forall>so key key' issued now payload vo.
        jwt_sign_call so payload \<longrightarrow> jwt_verify_call vo \<longrightarrow> key_fits rsa_pair (so_algorithm so) key key' \<longrightarrow>
        (\<exists>token. lib_sign lib so key issued (JObj payload) = Some token \<and>
           lib_verify lib vo key' now token =
             (if admits vo so issued now then Some (claims_of so issued payload) else None))) \<and>
     (\<forall>so key key' issued now payload vo token.
        jwt_sign_call so payload \<longrightarrow> jwt_verify_call vo \<longrightarrow>
        lib_sign lib so key issued (JObj payload) = Some token \<longrightarrow> \<not> admits vo so issued now \<longrightarrow>
        lib_verify lib vo key' now token = None) \<and>
     (\<forall>so issued payload. jwt_sign_call so payload \<longrightarrow> lib_sign lib so [] issued (JObj payload) = None)"

section \<open>Session tokens\<close>

definition parseExpiresIn :: "string \<Rightarrow> int" where
  "parseExpiresIn v =
     (if length v < 2 \<or> \<not> list_all is_digit (butlast v) then 3600
      else (let num = int (or_else 0 (from_base 10 (butlast v))); unit = last v in
        if unit = CHR ''s'' then num
        else if unit = CHR ''m'' then num * 60
        else if unit = CHR ''h'' then num * 3600
        else if unit = CHR ''d'' then num * 86400
        else 3600))"

text \<open>Key, algorithm and key id; \<open>None\<close>: RS256 without a private key.\<close>

definition getSigningContext :: "jwt_config \<Rightarrow> (string \<times> jwt_algorithm \<times> string option) option" where
  "getSigningContext jc =
     (if jc_algorithm jc = RS256
      then (if jc_private_key jc = [] then None else Some (jc_private_key jc, RS256, Some (jc_key_id jc)))
      else Some (jc_secret jc, HS256, None))"

record auth_token =
  tk_access :: string
  tk_refresh :: string
  tk_expires_in :: int

definition nonempty_key_id :: "string option \<Rightarrow> string option" where
  "nonempty_key_id k = (if k = Some [] then None else k)"

definition issue_options :: "jwt_config \<Rightarrow> int \<Rightarrow> string \<Rightarrow> jwt_algorithm \<Rightarrow> string option \<Rightarrow> sign_options" where
  "issue_options jc expires jti alg kid =
     \<lparr> so_algorithm = alg, so_expires_in = expires, so_issuer = ''zeroauth'', so_audience = None,
       so_jwtid = jti, so_keyid = nonempty_key_id kid \<rparr>"

text \<open>The two drawn token identifiers come last; \<open>None\<close> is a raised error.\<close>

definition issueTokens ::
  "jwt_config \<Rightarrow> jwt_lib \<Rightarrow> time_ms \<Rightarrow> string \<times> string \<Rightarrow> (string \<times> json) list \<Rightarrow> auth_token option" where
  "issueTokens jc lib now jtis payload =
     (let accessExpiresIn = parseExpiresIn (jc_expires_in jc);
          refreshExpiresIn = parseExpiresIn (jc_refresh_expires_in jc) in
      case getSigningContext jc of
        None \<Rightarrow> None
      | Some (key, alg, kid) \<Rightarrow>
          (case lib_sign lib (issue_options jc accessExpiresIn (fst jtis) alg kid) key now (JObj payload) of
             None \<Rightarrow> None
           | Some access \<Rightarrow>
               (case lib_sign lib (issue_options jc refreshExpiresIn (snd jtis) alg kid) key now
                   (JObj [(''sub'', jget ''sub'' (JObj payload)), (''type'', JStr ''refresh''),
                          (''sessionId'', jget ''sessionId'' (JObj payload))]) of
                  None \<Rightarrow> None
                | Some refresh \<Rightarrow> Some \<lparr> tk_access = access, tk_refresh = refresh, tk_expires_in = accessExpiresIn \<rparr>)))"

definition verify_with :: "jwt_algorithm \<Rightarrow> verify_options" where
  "verify_with alg = \<lparr> vo_algorithms = [alg], vo_issuer = ''zeroauth'', vo_audience = None \<rparr>"

definition verifyToken :: "jwt_config \<Rightarrow> jwt_lib \<Rightarrow> time_ms \<Rightarrow> string \<Rightarrow> json option" where
  "verifyToken jc lib now token =
     (let legacy = lib_verify lib (verify_with HS256) (jc_secret jc) now token in
      if jc_public_key jc \<noteq> [] then
        (case lib_verify lib (verify_with RS256) (jc_public_key jc) now token of
           Some claims \<Rightarrow> Some claims
         | None \<Rightarrow> if jc_secret jc = [] \<or> jc_secret jc = ''dev-secret-change-me'' then None else legacy)
      else legacy)"

definition bearer_of :: "string option \<Rightarrow> string option" where
  "bearer_of header = (case header of None \<Rightarrow> None
     | Some h \<Rightarrow> if starts_with ''Bearer '' h then Some (drop 7 h) else None)"

definition authenticateJWT :: "jwt_config \<Rightarrow> jwt_lib \<Rightarrow> time_ms \<Rightarrow> string option \<Rightarrow> gate + json" where
  "authenticateJWT jc lib now header = (case bearer_of header of
       None \<Rightarrow> Inl (Answer 401 ''Missing or invalid Authorization header'')
     | Some token \<Rightarrow> (case verifyToken jc lib now token of
         None \<Rightarrow> Inl (Answer 401 ''Invalid or expired token'')
       | Some payload \<Rightarrow> Inr payload))"

section \<open>Published keys\<close>

record jwk =
  jk_kid :: string
  jk_n :: string
  jk_e :: string

text \<open>\<open>crypto.createPublicKey(..).export\<close>: the members \<open>kty\<close>, \<open>n\<close> and \<open>e\<close>, or an
  exception.\<close>

type_synonym key_export = "string \<Rightarrow> (string option \<times> string option \<times> string option) option"

definition getRs256Jwk :: "key_export \<Rightarrow> jwt_config \<Rightarrow> jwk option" where
  "getRs256Jwk export jc =
     (if jc_public_key jc = [] then None
      else (case export (jc_public_key jc) of
          None \<Rightarrow> None
        | Some (kty, n, x) \<Rightarrow>
            if kty \<noteq> Some ''RSA'' \<or> or_else [] n = [] \<or> or_else [] x = [] then None
            else Some \<lparr> jk_kid = jc_key_id jc, jk_n = or_else [] n, jk_e = or_else [] x \<rparr>))"

definition exportPublicJwks :: "key_export \<Rightarrow> jwt_config \<Rightarrow> jwk list option" where
  "exportPublicJwks export jc =
     (if jc_algorithm jc \<noteq> RS256 then None
      else (case getRs256Jwk export jc of None \<Rightarrow> None | Some k \<Rightarrow> Some [k]))"

definition get_well_known_jwks :: "key_export \<Rightarrow> jwt_config \<Rightarrow> nat \<times> jwk list" where
  "get_well_known_jwks export jc = (200, case getRs256Jwk export jc of None \<Rightarrow> [] | Some k \<Rightarrow> [k])"

definition get_api_jwks :: "key_export \<Rightarrow> jwt_config \<Rightarrow> nat \<times> jwk list" where
  "get_api_jwks export jc = (case exportPublicJwks export jc of None \<Rightarrow> (404, []) | Some ks \<Rightarrow> (200, ks))"

section \<open>Console tokens\<close>

definition CONSOLE_JWT_ISSUER :: string where "CONSOLE_JWT_ISSUER = ''zeroauth-console''"
definition CONSOLE_JWT_AUDIENCE :: string where "CONSOLE_JWT_AUDIENCE = ''zeroauth-console''"

definition console_options :: "string \<Rightarrow> sign_options" where
  "console_options jti = \<lparr> so_algorithm = HS256, so_expires_in = 86400, so_issuer = CONSOLE_JWT_ISSUER,
     so_audience = Some CONSOLE_JWT_AUDIENCE, so_jwtid = jti, so_keyid = None \<rparr>"

definition issueConsoleToken :: "jwt_config \<Rightarrow> jwt_lib \<Rightarrow> time_ms \<Rightarrow> string \<Rightarrow> uuid \<Rightarrow> string \<Rightarrow> string option" where
  "issueConsoleToken jc lib now jti tenantId email =
     lib_sign lib (console_options jti) (jc_secret jc) now
       (JObj [(''tenantId'', JStr tenantId), (''email'', JStr email), (''type'', JStr ''console'')])"

text \<open>No list of algorithms is given: a secret admits the HMAC algorithms.\<close>

definition console_verify :: verify_options where
  "console_verify = \<lparr> vo_algorithms = [HS256], vo_issuer = CONSOLE_JWT_ISSUER, vo_audience = Some CONSOLE_JWT_AUDIENCE \<rparr>"

record console_session =
  cn_tenant :: json
  cn_email :: json
  cn_jti :: json

definition verifyConsoleToken :: "jwt_config \<Rightarrow> jwt_lib \<Rightarrow> time_ms \<Rightarrow> string \<Rightarrow> console_session option" where
  "verifyConsoleToken jc lib now token =
     (case lib_verify lib console_verify (jc_secret jc) now token of
        None \<Rightarrow> None
      | Some payload \<Rightarrow> if jget ''type'' payload \<noteq> JStr ''console'' then None
          else Some \<lparr> cn_tenant = jget ''tenantId'' payload, cn_email = jget ''email'' payload, cn_jti = jget ''jti'' payload \<rparr>)"

definition requireConsoleAuth ::
  "jwt_config \<Rightarrow> jwt_lib \<Rightarrow> time_ms \<Rightarrow> string option \<Rightarrow> string option \<Rightarrow> gate + console_session" where
  "requireConsoleAuth jc lib now header cookie =
     (case (case bearer_of header of Some t \<Rightarrow> Some t | None \<Rightarrow> cookie) of
        None \<Rightarrow> Inl (Answer 401 ''unauthorized'')
      | Some token \<Rightarrow> if token = [] then Inl (Answer 401 ''unauthorized'')
          else (case verifyConsoleToken jc lib now token of
              None \<Rightarrow> Inl (Answer 401 ''session_expired'')
            | Some payload \<Rightarrow> Inr payload))"

section \<open>Facts about the package\<close>

lemma jwt_signs:
  assumes "jwt_lib_ok lib rsa_pair" "key_fits rsa_pair (so_algorithm so) key key'" "jwt_sign_call so payload"
  obtains token where "lib_sign lib so key issued (JObj payload) = Some token"
    "\<And>vo now. jwt_verify_call vo \<Longrightarrow> admits vo so issued now \<Longrightarrow> lib_verify lib vo key' now token = Some (claims_of so issued payload)"
    "\<And>vo now k. jwt_verify_call vo \<Longrightarrow> \<not> admits vo so issued now \<Longrightarrow> lib_verify lib vo k now token = None"
proof -
  have one: "\<exists>token. lib_sign lib so key issued (JObj payload) = Some token \<and>
           lib_verify lib vo key' now token = (if admits vo so issued now then Some (claims_of so issued payload) else None)"
    if "jwt_verify_call vo" for vo now
    using assms that by (simp add: jwt_lib_ok_def)
  have "jwt_verify_call \<lparr> vo_algorithms = [HS256], vo_issuer = ''i'', vo_audience = None \<rparr>" by (simp add: jwt_verify_call_def)
  then obtain token where t: "lib_sign lib so key issued (JObj payload) = Some token" using one by blast
  show thesis
  proof (rule that [OF t])
    show "lib_verify lib vo key' now token = Some (claims_of so issued payload)" if "jwt_verify_call vo" "admits vo so issued now" for vo now
      using one [of vo now] t that by simp
    show "lib_verify lib vo k now token = None" if "jwt_verify_call vo" "\<not> admits vo so issued now" for vo now k
      using assms(1,3) t that unfolding jwt_lib_ok_def by blast
  qed
qed

lemma jwt_refuses:
  "jwt_lib_ok lib rsa_pair \<Longrightarrow> jwt_sign_call so payload \<Longrightarrow> lib_sign lib so key issued (JObj payload) = Some token \<Longrightarrow>
    jwt_verify_call vo \<Longrightarrow> \<not> admits vo so issued now \<Longrightarrow> lib_verify lib vo k now token = None"
  unfolding jwt_lib_ok_def by blast

lemma calls_made [simp]:
  "jwt_verify_call (verify_with alg)" "jwt_verify_call console_verify"
  "jwt_sign_call (issue_options jc ex jti alg kid) payload = jwt_payload payload"
  "jwt_sign_call (console_options jti) payload = jwt_payload payload"
  by (simp_all add: jwt_verify_call_def verify_with_def console_verify_def CONSOLE_JWT_ISSUER_def CONSOLE_JWT_AUDIENCE_def
      jwt_sign_call_def issue_options_def console_options_def)

lemma payload_member: "jwt_payload kvs \<Longrightarrow> jget k (JObj kvs) = JUndef \<or> defined (jget k (JObj kvs))"
  by (auto simp: jwt_payload_def jget_def or_else_def split: option.split dest!: map_of_SomeD)

lemma jwt_payload_members [simp]:
  "jwt_payload []"
  "jwt_payload ((k, v) # kvs) \<longleftrightarrow> k \<notin> fst ` set kvs \<and> k \<notin> {''iat'', ''exp'', ''nbf'', ''aud'', ''iss'', ''jti''} \<and>
     (v = JUndef \<or> defined v) \<and> jwt_payload kvs"
  by (auto simp: jwt_payload_def)

lemma refresh_payload: "jwt_payload kvs \<Longrightarrow>
    jwt_payload [(''sub'', jget ''sub'' (JObj kvs)), (''type'', JStr ''refresh''), (''sessionId'', jget ''sessionId'' (JObj kvs))]"
  using payload_member by simp

lemma claims_of_get:
  assumes "k \<notin> {''iat'', ''exp'', ''aud'', ''iss'', ''jti''}" "distinct (map fst payload)"
  shows "jget k (claims_of so t payload) = jget k (JObj payload)"
proof -
  have "map_of (filter (\<lambda>m. snd m \<noteq> JUndef) payload) k =
      (case map_of payload k of Some JUndef \<Rightarrow> None | r \<Rightarrow> r)"
    using assms(2) by (induction payload) (auto split: option.splits json.splits simp: map_of_eq_None_iff image_iff)
  moreover have "map_of (filter (\<lambda>m. snd m \<noteq> JNull) (registered_claims so t)) k = None"
    using assms(1) by (auto simp: map_of_eq_None_iff registered_claims_def)
  ultimately have "map_of (filter (\<lambda>m. snd m \<noteq> JUndef) payload @ filter (\<lambda>m. snd m \<noteq> JNull) (registered_claims so t)) k =
      (case map_of payload k of Some JUndef \<Rightarrow> None | r \<Rightarrow> r)"
    by (simp add: map_of_append map_add_def split: option.splits)
  then show ?thesis
    by (simp add: claims_of_def jget_def or_else_def split: option.splits json.splits)
qed

lemma admits_issue:
  "admits (verify_with alg) (issue_options jc ex jti alg' kid) issued now \<longleftrightarrow> alg' = alg \<and> now div 1000 < issued div 1000 + ex"
  by (auto simp: admits_def verify_with_def issue_options_def)

lemma admits_console:
  "admits console_verify (console_options jti) issued now \<longleftrightarrow> now div 1000 < issued div 1000 + 86400"
  by (simp add: admits_def console_verify_def console_options_def)

lemma admits_mixed:
  "\<not> admits console_verify (issue_options jc ex jti alg kid) issued now"
  "\<not> admits (verify_with alg) (console_options jti) issued now"
  by (simp_all add: admits_def verify_with_def issue_options_def console_verify_def console_options_def CONSOLE_JWT_ISSUER_def)

section \<open>Tokens are worth what was signed\<close>

text \<open>A configuration that can sign and verify: the legacy secret, or a key pair.\<close>

definition jwt_ready :: "jwt_config \<Rightarrow> (string \<Rightarrow> string \<Rightarrow> bool) \<Rightarrow> bool" where
  "jwt_ready jc rsa_pair \<longleftrightarrow>
     (if jc_algorithm jc = RS256
      then jc_private_key jc \<noteq> [] \<and> jc_public_key jc \<noteq> [] \<and> rsa_pair (jc_private_key jc) (jc_public_key jc)
      else hmac_secret (jc_secret jc) \<and> (jc_public_key jc \<noteq> [] \<longrightarrow> jc_secret jc \<noteq> ''dev-secret-change-me''))"

definition pays_as :: "jwt_config \<Rightarrow> jwt_lib \<Rightarrow> time_ms \<Rightarrow> int \<Rightarrow> json \<Rightarrow> string \<Rightarrow> bool" where
  "pays_as jc lib issued ex claims token \<longleftrightarrow>
     (\<forall>now. verifyToken jc lib now token = (if now div 1000 < issued div 1000 + ex then Some claims else None))"

lemma token_pays:
  assumes lib: "jwt_lib_ok lib rsa_pair" and ready: "jwt_ready jc rsa_pair"
    and ctx: "getSigningContext jc = Some (key, alg, kid)" and pl: "jwt_payload payload"
  obtains token where "lib_sign lib (issue_options jc ex jti alg kid) key issued (JObj payload) = Some token"
    "pays_as jc lib issued ex (claims_of (issue_options jc ex jti alg kid) issued payload) token"
proof -
  let ?so = "issue_options jc ex jti alg kid"
  have alg: "alg = jc_algorithm jc" and key: "key = (if jc_algorithm jc = RS256 then jc_private_key jc else jc_secret jc)"
    using ctx by (cases "jc_algorithm jc"; auto simp: getSigningContext_def split: if_splits)+
  let ?k = "if jc_algorithm jc = RS256 then jc_public_key jc else jc_secret jc"
  have so: "so_algorithm ?so = alg" by (simp add: issue_options_def)
  have k: "key_fits rsa_pair (so_algorithm ?so) key ?k"
    using ready key alg so by (cases "jc_algorithm jc") (auto simp: jwt_ready_def key_fits_def)
  have call: "jwt_sign_call ?so payload" using pl by simp
  from jwt_signs [OF lib k call, where issued = issued]
  obtain token where t: "lib_sign lib ?so key issued (JObj payload) = Some token"
    "\<And>vo now. jwt_verify_call vo \<Longrightarrow> admits vo ?so issued now \<Longrightarrow> lib_verify lib vo ?k now token = Some (claims_of ?so issued payload)"
    "\<And>vo now k. jwt_verify_call vo \<Longrightarrow> \<not> admits vo ?so issued now \<Longrightarrow> lib_verify lib vo k now token = None" by blast
  have "pays_as jc lib issued ex (claims_of ?so issued payload) token"
  proof (unfold pays_as_def, intro allI)
    fix now
    have no: "lib_verify lib (verify_with a) k now token = None" if "a \<noteq> alg \<or> \<not> now div 1000 < issued div 1000 + ex" for a k
      using that by (intro t(3)) (auto simp: admits_issue)
    have yes: "lib_verify lib (verify_with alg) ?k now token = Some (claims_of ?so issued payload)"
      if "now div 1000 < issued div 1000 + ex"
      using that by (intro t(2)) (simp_all add: admits_issue)
    show "verifyToken jc lib now token = (if now div 1000 < issued div 1000 + ex then Some (claims_of ?so issued payload) else None)"
      using ready yes no alg by (cases "jc_algorithm jc") (auto simp: verifyToken_def jwt_ready_def hmac_secret_def)
  qed
  with t(1) show thesis by (rule that)
qed

lemma sign_refresh_claims:
  "jget ''type'' (claims_of so t [(''sub'', a), (''type'', JStr ''refresh''), (''sessionId'', b)]) = JStr ''refresh''"
  "jget ''sub'' (claims_of so t [(''sub'', a), (''type'', JStr ''refresh''), (''sessionId'', b)]) = a"
  "jget ''sessionId'' (claims_of so t [(''sub'', a), (''type'', JStr ''refresh''), (''sessionId'', b)]) = b"
  by (subst claims_of_get; simp add: jget_def or_else_def)+

lemma issue_succeeds:
  assumes lib: "jwt_lib_ok lib rsa_pair" and ready: "jwt_ready jc rsa_pair" and pl: "jwt_payload payload"
  obtains tk so so' where "issueTokens jc lib now jtis payload = Some tk"
    "tk_expires_in tk = parseExpiresIn (jc_expires_in jc)"
    "so_issuer so = ''zeroauth''" "so_issuer so' = ''zeroauth''"
    "pays_as jc lib now (parseExpiresIn (jc_expires_in jc)) (claims_of so now payload) (tk_access tk)"
    "pays_as jc lib now (parseExpiresIn (jc_refresh_expires_in jc))
       (claims_of so' now [(''sub'', jget ''sub'' (JObj payload)), (''type'', JStr ''refresh''), (''sessionId'', jget ''sessionId'' (JObj payload))])
       (tk_refresh tk)"
    "\<forall>t. verifyConsoleToken jc lib t (tk_access tk) = None \<and> verifyConsoleToken jc lib t (tk_refresh tk) = None"
proof -
  obtain key alg kid where c: "getSigningContext jc = Some (key, alg, kid)"
    using ready by (auto simp: getSigningContext_def jwt_ready_def split: if_splits)
  let ?a = "parseExpiresIn (jc_expires_in jc)" and ?r = "parseExpiresIn (jc_refresh_expires_in jc)"
  let ?rp = "[(''sub'', jget ''sub'' (JObj payload)), (''type'', JStr ''refresh''), (''sessionId'', jget ''sessionId'' (JObj payload))]"
  obtain access where a: "lib_sign lib (issue_options jc ?a (fst jtis) alg kid) key now (JObj payload) = Some access"
    "pays_as jc lib now ?a (claims_of (issue_options jc ?a (fst jtis) alg kid) now payload) access"
    by (rule token_pays [OF lib ready c pl])
  obtain refresh where r: "lib_sign lib (issue_options jc ?r (snd jtis) alg kid) key now (JObj ?rp) = Some refresh"
    "pays_as jc lib now ?r (claims_of (issue_options jc ?r (snd jtis) alg kid) now ?rp) refresh"
    by (rule token_pays [OF lib ready c refresh_payload [OF pl]])
  have "lib_verify lib console_verify k t access = None \<and> lib_verify lib console_verify k t refresh = None" for k t
    using jwt_refuses [OF lib _ a(1)] jwt_refuses [OF lib _ r(1)] admits_mixed(1) pl refresh_payload [OF pl] by simp
  then have "\<forall>t. verifyConsoleToken jc lib t access = None \<and> verifyConsoleToken jc lib t refresh = None"
    by (simp add: verifyConsoleToken_def)
  moreover have "issueTokens jc lib now jtis payload = Some \<lparr> tk_access = access, tk_refresh = refresh, tk_expires_in = ?a \<rparr>"
    by (simp add: issueTokens_def c a(1) r(1))
  ultimately show thesis
    by (intro that [of "\<lparr> tk_access = access, tk_refresh = refresh, tk_expires_in = ?a \<rparr>" "issue_options jc ?a (fst jtis) alg kid" "issue_options jc ?r (snd jtis) alg kid"])
      (simp_all add: a(2) [unfolded issue_options_def] r(2) [unfolded issue_options_def] issue_options_def)
qed

text \<open>Property C29.  Tokens issued to a user say, until they expire and not after, exactly what was signed: the access token
  carries every member of the payload, the refresh token only the subject, the session and its
  type; neither is ever taken for a console token.\<close>

theorem tokens_carry_payload:
  assumes "jwt_lib_ok lib rsa_pair" and "jwt_ready jc rsa_pair" and "jwt_payload payload"
    and "k \<notin> {''iat'', ''exp'', ''aud'', ''iss'', ''jti''}"
  shows "\<exists>tk. issueTokens jc lib now jtis payload = Some tk \<and>
    (\<forall>t. (case verifyToken jc lib t (tk_access tk) of
        None \<Rightarrow> now div 1000 + parseExpiresIn (jc_expires_in jc) \<le> t div 1000
      | Some c \<Rightarrow> t div 1000 < now div 1000 + parseExpiresIn (jc_expires_in jc) \<and> jget k c = jget k (JObj payload)) \<and>
     (case verifyToken jc lib t (tk_refresh tk) of
        None \<Rightarrow> now div 1000 + parseExpiresIn (jc_refresh_expires_in jc) \<le> t div 1000
      | Some c \<Rightarrow> t div 1000 < now div 1000 + parseExpiresIn (jc_refresh_expires_in jc) \<and> jget ''type'' c = JStr ''refresh'' \<and>
          jget ''sub'' c = jget ''sub'' (JObj payload) \<and> jget ''sessionId'' c = jget ''sessionId'' (JObj payload)) \<and>
     verifyConsoleToken jc lib t (tk_access tk) = None \<and> verifyConsoleToken jc lib t (tk_refresh tk) = None)"
proof -
  obtain tk so so' where t: "issueTokens jc lib now jtis payload = Some tk"
    "pays_as jc lib now (parseExpiresIn (jc_expires_in jc)) (claims_of so now payload) (tk_access tk)"
    "pays_as jc lib now (parseExpiresIn (jc_refresh_expires_in jc))
       (claims_of so' now [(''sub'', jget ''sub'' (JObj payload)), (''type'', JStr ''refresh''), (''sessionId'', jget ''sessionId'' (JObj payload))])
       (tk_refresh tk)"
    "\<forall>t. verifyConsoleToken jc lib t (tk_access tk) = None \<and> verifyConsoleToken jc lib t (tk_refresh tk) = None"
    by (rule issue_succeeds [OF assms(1-3), where now = now and jtis = jtis])
  have "distinct (map fst payload)" using assms(3) by (simp add: jwt_payload_def)
  then show ?thesis
    using t by (intro exI [of _ tk] conjI allI) (simp_all add: pays_as_def claims_of_get [OF assms(4)] sign_refresh_claims)
qed

section \<open>The public secret\<close>

text \<open>Property C34.  A deployment that does not set \<open>JWT_SECRET\<close>, in production too (as one that has moved to a key pair and
  retired the shared secret), accepts as console session of any tenant a token anyone can sign with the secret printed in the source.\<close>

theorem unset_secret_opens_console:
  assumes "jwt_lib_ok lib rsa_pair" and "load_config e = Inr cf" and "e ''JWT_SECRET'' = None"
  shows "\<exists>token. lib_sign lib (console_options jti) ''dev-secret-change-me'' now
        (JObj [(''tenantId'', JStr tenantId), (''email'', JStr email), (''type'', JStr ''console'')]) = Some token \<and>
    (\<forall>t. t div 1000 < now div 1000 + 86400 \<longrightarrow>
      requireConsoleAuth (cf_jwt cf) lib t (Some (''Bearer '' @ token)) None =
        (if token = [] then Inl (Answer 401 ''unauthorized'')
         else Inr \<lparr> cn_tenant = JStr tenantId, cn_email = JStr email, cn_jti = JStr jti \<rparr>))"
proof -
  let ?p = "[(''tenantId'', JStr tenantId), (''email'', JStr email), (''type'', JStr ''console'')]"
  have s: "jc_secret (cf_jwt cf) = ''dev-secret-change-me''"
    using assms(2,3) by (auto simp: load_config_def requireEnv_fallback jwt_config_of_def split: sum.splits)
  have a: "key_fits rsa_pair (so_algorithm (console_options jti)) ''dev-secret-change-me'' ''dev-secret-change-me''"
    by (simp add: console_options_def key_fits_def hmac_secret_def)
  have pl: "jwt_sign_call (console_options jti) ?p" by simp
  obtain token where t: "lib_sign lib (console_options jti) ''dev-secret-change-me'' now (JObj ?p) = Some token"
    "\<And>vo t. jwt_verify_call vo \<Longrightarrow> admits vo (console_options jti) now t \<Longrightarrow>
       lib_verify lib vo ''dev-secret-change-me'' t token = Some (claims_of (console_options jti) now ?p)"
    by (rule jwt_signs [OF assms(1) a pl]) blast
  have c: "jget ''type'' (claims_of (console_options jti) now ?p) = JStr ''console''"
    "jget ''tenantId'' (claims_of (console_options jti) now ?p) = JStr tenantId"
    "jget ''email'' (claims_of (console_options jti) now ?p) = JStr email"
    by (subst claims_of_get; simp add: jget_def or_else_def)+
  have j: "jget ''jti'' (claims_of (console_options jti) now ?p) = JStr jti"
    by (simp add: claims_of_def registered_claims_def console_options_def jget_def or_else_def)
  show ?thesis
    using t(1) by (intro exI [of _ token] conjI)
      (simp_all add: requireConsoleAuth_def bearer_of_def verifyConsoleToken_def s t(2) admits_console c j)
qed

text \<open>A variable of the canonical pair that is set but empty hides the legacy one, while the legacy pair
  still selects RS256: every sign-in then fails.\<close>

theorem empty_canonical_key_stops_signing:
  assumes "e ''JWT_PRIVATE_KEY'' = Some []" "e ''JWT_RS256_PRIVATE_KEY'' = Some k" "e ''JWT_RS256_PUBLIC_KEY'' = Some q"
    "k \<noteq> []" "q \<noteq> []"
  shows "jc_algorithm (jwt_config_of e s) = RS256 \<and> issueTokens (jwt_config_of e s) lib now jtis payload = None"
  using assms by (simp add: jwt_config_of_def nonempty_var_def or_else_def issueTokens_def getSigningContext_def)

text \<open>Without RS256 no key is offered at the operator's endpoint, and the secret is never published.\<close>

theorem published_keys:
  "get_api_jwks export jc = (200, ks) \<Longrightarrow> jc_algorithm jc = RS256 \<and>
     (\<exists>kty n x. export (jc_public_key jc) = Some (Some ''RSA'', Some n, Some x) \<and> ks = [\<lparr> jk_kid = jc_key_id jc, jk_n = n, jk_e = x \<rparr>])"
  by (auto simp: get_api_jwks_def exportPublicJwks_def getRs256Jwk_def or_else_def split: if_splits option.splits)

section \<open>A package that behaves as documented\<close>

text \<open>A token of the demonstration package is the number of everything that was signed, in decimal.\<close>

instance json :: countable
  by countable_datatype

instance jwt_algorithm :: countable
  by countable_datatype

type_synonym signed = "jwt_algorithm \<times> int \<times> string \<times> string option \<times> string \<times> int \<times> json \<times> string"

definition signed_of :: "sign_options \<Rightarrow> string \<Rightarrow> time_ms \<Rightarrow> json \<Rightarrow> signed" where
  "signed_of so key now payload =
     (so_algorithm so, so_expires_in so, so_issuer so, so_audience so, so_jwtid so, now, payload, key)"

definition demo_lib :: jwt_lib where
  "demo_lib = \<lparr>
     lib_sign = (\<lambda>so key now payload. if key = [] then None else Some (dec_nat (to_nat (signed_of so key now payload)))),
     lib_verify = (\<lambda>vo key now token.
       (case from_base 10 token of None \<Rightarrow> None
        | Some n \<Rightarrow> (case (from_nat n :: signed) of (alg, ex, iss, aud, jti, issued, payload, key') \<Rightarrow>
            let so = \<lparr> so_algorithm = alg, so_expires_in = ex, so_issuer = iss, so_audience = aud, so_jwtid = jti, so_keyid = None \<rparr>
            in if admits vo so issued now \<and> key' = key
               then (case payload of JObj p \<Rightarrow> Some (claims_of so issued p) | _ \<Rightarrow> None) else None))) \<rparr>"

lemma claims_of_cong:
  "so_expires_in so = so_expires_in so' \<Longrightarrow> so_issuer so = so_issuer so' \<Longrightarrow> so_audience so = so_audience so' \<Longrightarrow>
    so_jwtid so = so_jwtid so' \<Longrightarrow> claims_of so t p = claims_of so' t p"
  by (simp add: claims_of_def registered_claims_def)

lemma demo_verify:
  "lib_verify demo_lib vo key' now (dec_nat (to_nat (signed_of so key issued (JObj payload)))) =
     (if admits vo so issued now \<and> key = key' then Some (claims_of so issued payload) else None)"
proof -
  let ?so = "\<lparr> so_algorithm = so_algorithm so, so_expires_in = so_expires_in so, so_issuer = so_issuer so,
    so_audience = so_audience so, so_jwtid = so_jwtid so, so_keyid = None \<rparr>"
  have a: "admits vo ?so issued now = admits vo so issued now"
    by (simp add: admits_def split: option.split)
  have c: "claims_of ?so issued payload = claims_of so issued payload" by (rule claims_of_cong) simp_all
  show ?thesis by (simp add: demo_lib_def a c) (simp add: signed_of_def Let_def a c)
qed

lemma demo_lib_ok: "jwt_lib_ok demo_lib (=)"
proof -
  have s: "lib_sign demo_lib so key issued p = (if key = [] then None else Some (dec_nat (to_nat (signed_of so key issued p))))"
    for so key issued p by (simp add: demo_lib_def)
  have k: "key_fits (=) alg key key' \<Longrightarrow> key \<noteq> [] \<and> key' = key" for alg key key' by (auto simp: key_fits_def hmac_secret_def split: if_splits)
  show ?thesis by (auto simp: jwt_lib_ok_def s demo_verify dest!: k split: if_splits)
qed

definition demo_jwt :: jwt_config where
  "demo_jwt = jwt_config_of (\<lambda>_. None) ''s3cret''"

lemma demo_jwt_ready: "jwt_ready demo_jwt rsa_pair"
  by (simp add: jwt_ready_def demo_jwt_def jwt_config_of_def nonempty_var_def or_else_def hmac_secret_def)

theorem tokens_carry_payload_witness:
  "\<exists>tk. issueTokens demo_jwt demo_lib 0 (''a'', ''b'') [(''sub'', JStr ''u''), (''sessionId'', JStr ''s'')] = Some tk \<and>
     (\<exists>c. verifyToken demo_jwt demo_lib 3599999 (tk_access tk) = Some c \<and> jget ''sub'' c = JStr ''u'') \<and>
     verifyToken demo_jwt demo_lib 3600000 (tk_access tk) = None"
proof -
  have e: "parseExpiresIn (jc_expires_in demo_jwt) = 3600"
    by (simp add: demo_jwt_def jwt_config_of_def or_else_def parseExpiresIn_def from_base_def is_digit_def digit_val_def)
  from tokens_carry_payload [OF demo_lib_ok demo_jwt_ready, of "[(''sub'', JStr ''u''), (''sessionId'', JStr ''s'')]" "''sub''" 0 "(''a'', ''b'')"]
  obtain tk where tk: "issueTokens demo_jwt demo_lib 0 (''a'', ''b'') [(''sub'', JStr ''u''), (''sessionId'', JStr ''s'')] = Some tk"
    and v: "\<And>t. case verifyToken demo_jwt demo_lib t (tk_access tk) of
        None \<Rightarrow> 0 div 1000 + parseExpiresIn (jc_expires_in demo_jwt) \<le> t div 1000
      | Some c \<Rightarrow> t div 1000 < 0 div 1000 + parseExpiresIn (jc_expires_in demo_jwt) \<and>
          jget ''sub'' c = jget ''sub'' (JObj [(''sub'', JStr ''u''), (''sessionId'', JStr ''s'')])"
    by auto
  show ?thesis
    using tk v [of 3599999] v [of 3600000] by (simp add: e jget_def or_else_def split: option.splits)
qed

theorem unset_secret_opens_console_witness:
  "\<exists>cf token. load_config ((\<lambda>_. None) (''NODE_ENV'' \<mapsto> ''production'')) = Inr cf \<and>
    lib_sign demo_lib (console_options ''j'') ''dev-secret-change-me'' 0
      (JObj [(''tenantId'', JStr ''victim''), (''email'', JStr ''e''), (''type'', JStr ''console'')]) = Some token \<and>
    requireConsoleAuth (cf_jwt cf) demo_lib 5000 (Some (''Bearer '' @ token)) None =
      Inr \<lparr> cn_tenant = JStr ''victim'', cn_email = JStr ''e'', cn_jti = JStr ''j'' \<rparr>"
proof -
  obtain cf where cf: "load_config ((\<lambda>_. None) (''NODE_ENV'' \<mapsto> ''production'')) = Inr cf"
    by (simp add: load_config_def requireEnv_fallback)
  from unset_secret_opens_console [OF demo_lib_ok cf, of "''j''" 0 "''victim''" "''e''"]
  obtain token where t: "lib_sign demo_lib (console_options ''j'') ''dev-secret-change-me'' 0
      (JObj [(''tenantId'', JStr ''victim''), (''email'', JStr ''e''), (''type'', JStr ''console'')]) = Some token"
    "requireConsoleAuth (cf_jwt cf) demo_lib 5000 (Some (''Bearer '' @ token)) None =
        (if token = [] then Inl (Answer 401 ''unauthorized'')
         else Inr \<lparr> cn_tenant = JStr ''victim'', cn_email = JStr ''e'', cn_jti = JStr ''j'' \<rparr>)"
    by auto
  have "token \<noteq> []" using t(1) by (auto simp: demo_lib_def)
  then show ?thesis using cf t by auto
qed

end
