(* ===== verification/Identity.thy ===== *)
theory Identity
  imports Tokens Zkp Pairing Sessions Registration Anchor
begin

text \<open>
  Identities outside the registration ceremony: \<open>src/services/identity.ts\<close>, the routes under
  \<open>/v1/identity\<close> (\<open>routes/v1/identity.ts\<close>), \<open>/v1/auth/zkp\<close> and its legacy twin
  (\<open>routes/v1/zkp.ts\<close>, \<open>routes/zkp.ts\<close>) and the session routes of \<open>routes/auth.ts\<close>.  SHA-256,
  Poseidon, base64 decoding, the registry contract, the proof verifier and the signing package are
  parameters; random draws, fresh identifiers and the clock are arguments.  The nonce and the time stamp of a request are strings,
  as its type says.
\<close>

section \<open>Identity service\<close>

datatype chain_write = ChainWritten string int | ChainFailed string

record registered_identity =
  ri_did :: string
  ri_biometric_id_hash :: string
  ri_commitment :: string
  ri_did_hash :: string
  ri_biometric_secret :: string
  ri_salt :: string
  ri_tx_hash :: string
  ri_block_number :: int

text \<open>\<open>BigInt('0x' + digest.subarray(0, 31).toString('hex'))\<close>\<close>

definition digest_field :: "(string \<Rightarrow> string) \<Rightarrow> string \<Rightarrow> int" where
  "digest_field sha x = int (or_else 0 (from_base 16 (take 62 (sha x))))"

text \<open>The draws: the DID suffix, the salt and the suffix of an offline transaction.  \<open>None\<close>:
  Poseidon is not initialised.\<close>

definition registerIdentity ::
  "(string \<Rightarrow> string) \<Rightarrow> (int list \<Rightarrow> int) option \<Rightarrow> (string \<Rightarrow> string \<Rightarrow> chain_write) \<Rightarrow>
     nat list \<times> nat list \<times> nat list \<Rightarrow> string \<Rightarrow> json \<Rightarrow> registered_identity option" where
  "registerIdentity sha poseidon chain draws template policy =
     (case poseidon of None \<Rightarrow> None | Some ps \<Rightarrow> (case draws of (suffix, saltBytes, offline) \<Rightarrow>
       (let biometricIDHex = ''0x'' @ sha template;
            did = ''did:zeroauth:base:'' @ bytes_hex suffix;
            salt = int (or_else 0 (from_base 16 (bytes_hex saltBytes)));
            biometricSecret = ps [digest_field sha template, salt];
            commitment = ps [biometricSecret, salt];
            didHash = ps [digest_field sha did];
            written = (if rp_did (resolveProviders policy) = DidOffChain then ([], 0)
              else (case chain biometricIDHex did of
                  ChainWritten tx block \<Rightarrow> (tx, block)
                | ChainFailed _ \<Rightarrow> (''offline-'' @ bytes_hex offline, 0)))
        in Some \<lparr> ri_did = did, ri_biometric_id_hash = biometricIDHex, ri_commitment = dec_int commitment,
             ri_did_hash = dec_int didHash, ri_biometric_secret = dec_int biometricSecret, ri_salt = dec_int salt,
             ri_tx_hash = fst written, ri_block_number = snd written \<rparr>)))"

text \<open>\<open>/^did:zeroauth:[a-z0-9-]+:[a-f0-9]{20,80}$/i\<close> and \<open>/^(0x)?[0-9a-f]{1,80}$/i\<close>\<close>

definition DID_PATTERN :: "string \<Rightarrow> bool" where
  "DID_PATTERN s = (case split_on (CHR '':'') s of
       [a, b, m, h] \<Rightarrow> lower a = ''did'' \<and> lower b = ''zeroauth'' \<and> m \<noteq> [] \<and>
         list_all (\<lambda>c. is_lower (to_lower_char c) \<or> is_digit c \<or> c = CHR ''-'') m \<and>
         20 \<le> length h \<and> length h \<le> 80 \<and> list_all is_hex h
     | _ \<Rightarrow> False)"

definition COMMITMENT_PATTERN :: "string \<Rightarrow> bool" where
  "COMMITMENT_PATTERN s = (let h = (if starts_with ''0x'' (lower s) then drop 2 s else s) in
     1 \<le> length h \<and> length h \<le> 80 \<and> list_all is_hex h)"

definition stored_commitment_text :: "string \<Rightarrow> string" where
  "stored_commitment_text c = (let l = lower c in if starts_with ''0x'' l then drop 2 l else l)"

datatype identity_error = IdentityInvalid string | IdentityExists string | IdentityInternal

record face_first_result =
  ff_user_id :: uuid
  ff_did :: string
  ff_commitment :: string
  ff_created_at :: string

definition face_first_user ::
  "time_ms \<Rightarrow> uuid \<Rightarrow> uuid \<Rightarrow> environment \<Rightarrow> string \<Rightarrow> string \<Rightarrow> string \<Rightarrow> tenant_user" where
  "face_first_user now newid t e externalId did commitment =
     \<lparr> us_id = newid, us_tenant_id = t, us_environment = e, us_external_id = externalId,
       us_full_name = ''face-first'', us_email = None, us_phone = None, us_employee_code = None,
       us_status = UserActive, us_primary_device_id = None, us_did = Some did,
       us_commitment = Some (stored_commitment_text commitment), us_metadata = JObj [],
       us_last_verified_at = None, us_created_at = now, us_updated_at = now \<rparr>"

definition same_did :: "uuid \<Rightarrow> environment \<Rightarrow> string \<Rightarrow> tenant_user \<Rightarrow> bool" where
  "same_did t e did u \<longleftrightarrow> us_tenant_id u = t \<and> us_environment u = e \<and> us_did u = Some did"

text \<open>\<open>input.externalId ?? input.did\<close>; the driver turns a value that is no string into text by
  \<open>pg_text\<close>.  The last component is the call to the registry, made after the answer.\<close>

definition registerFaceFirstIdentity ::
  "(string \<Rightarrow> string) \<Rightarrow> (json \<Rightarrow> string) \<Rightarrow> time_ms \<Rightarrow> uuid \<Rightarrow> uuid \<Rightarrow> environment \<Rightarrow> json \<Rightarrow> json \<Rightarrow> json \<Rightarrow> json \<Rightarrow> server
     \<Rightarrow> (identity_error + face_first_result) \<times> server \<times> (string \<times> string) option" where
  "registerFaceFirstIdentity sha pg_text now newid t e did commitment externalId policy s =
     (case did of
        JStr d \<Rightarrow>
          if d = [] then (Inl (IdentityInvalid ''invalid_did''), s, None)
          else if \<not> DID_PATTERN d then (Inl (IdentityInvalid ''invalid_did_format''), s, None)
          else (case commitment of
             JStr c \<Rightarrow>
               if c = [] then (Inl (IdentityInvalid ''invalid_commitment''), s, None)
               else if \<not> COMMITMENT_PATTERN c then (Inl (IdentityInvalid ''invalid_commitment_format''), s, None)
               else if first_row (same_did t e d) (t_users s) \<noteq> None then (Inl (IdentityExists d), s, None)
               else (let ext = (case externalId of JUndef \<Rightarrow> d | JNull \<Rightarrow> d | JStr x \<Rightarrow> x | v \<Rightarrow> pg_text v);
                         u = face_first_user now newid t e ext d c
                 in case insert_user u s of
                      None \<Rightarrow> (Inl IdentityInternal, s, None)
                    | Some s' \<Rightarrow>
                        (Inr \<lparr> ff_user_id = newid, ff_did = d, ff_commitment = stored_commitment_text c,
                               ff_created_at = iso_string now \<rparr>, s',
                         if rp_did (resolveProviders policy) = DidOffChain then None else Some (''0x'' @ sha d, d)))
           | _ \<Rightarrow> (Inl (IdentityInvalid ''invalid_commitment''), s, None))
      | _ \<Rightarrow> (Inl (IdentityInvalid ''invalid_did''), s, None))"

definition findIdentityByDid :: "uuid \<Rightarrow> environment \<Rightarrow> string \<Rightarrow> server \<Rightarrow> (uuid \<times> string option) option" where
  "findIdentityByDid t e did s =
     map_option (\<lambda>u. (us_id u, us_commitment u)) (first_row (same_did t e did) (t_users s))"

section \<open>Register and verify\<close>

text \<open>The copy of \<open>parseCommitmentBigInt\<close> in this route.\<close>

definition identityCommitmentBigInt :: "json \<Rightarrow> int option" where
  "identityCommitmentBigInt raw = (case raw of
       JStr r \<Rightarrow> (let trimmed = trim r in
         if trimmed = [] then None
         else if starts_with ''0x'' trimmed \<or> starts_with ''0X'' trimmed then bigint_of_string trimmed
         else if list_ex is_hex_letter trimmed then bigint_of_string (''0x'' @ trimmed)
         else bigint_of_string trimmed)
     | _ \<Rightarrow> None)"

definition identity_audit ::
  "api_key \<Rightarrow> string \<Rightarrow> uuid option \<Rightarrow> audit_status \<Rightarrow> string \<Rightarrow> (string \<times> json) list \<Rightarrow> audit_input" where
  "identity_audit k action entity status summary members =
     \<lparr> ai_environment = Some (ak_environment k), ai_actor_type = ActorApiKey, ai_actor_id = Some (ak_id k),
       ai_action = action, ai_entity_type = ''tenant_user'', ai_entity_id = entity, ai_status = status,
       ai_summary = summary, ai_metadata = JObj members \<rparr>"

definition post_identity_register ::
  "(string \<Rightarrow> string) \<Rightarrow> (json \<Rightarrow> string) \<Rightarrow> time_ms \<Rightarrow> uuid \<Rightarrow> tenant \<Rightarrow> api_key \<Rightarrow> json \<Rightarrow> server
     \<Rightarrow> face_first_result answer \<times> server \<times> (string \<times> string) option" where
  "post_identity_register sha pg_text now newid tn k body s =
     (case registerFaceFirstIdentity sha pg_text now newid (tn_id tn) (ak_environment k)
             (jget ''did'' body) (jget ''commitment'' body) (jget ''externalId'' body) (tn_security_policy tn) s of
        (Inl (IdentityInvalid code), s', c) \<Rightarrow> (Refuse 400 code, s', c)
      | (Inl (IdentityExists _), s', c) \<Rightarrow> (Refuse 409 ''did_already_registered'', s', c)
      | (Inl IdentityInternal, s', c) \<Rightarrow> (Refuse 500 ''register_failed'', s', c)
      | (Inr r, s', c) \<Rightarrow>
          (Reply 201 r, recordAuditEvent sha now (tn_id tn)
             (identity_audit k ''identity.register'' (Some (ff_user_id r)) AuditSuccess
                (''Face-first identity registered for DID '' @ ff_did r)
                [(''did'', JStr (ff_did r)), (''commitment_prefix'', JStr (take 16 (ff_commitment r)))]) s', c))"

text \<open>What the handlers of a sign-in draw and use: the session identifier, the two token identifiers,
  whether the write of the session succeeds, and the message of an exception.\<close>

record sign_in_draw =
  sd_session :: uuid
  sd_jtis :: "string \<times> string"
  sd_written :: bool
  sd_exception :: string

record platform =
  pf_sha :: "string \<Rightarrow> string"
  pf_jwt :: jwt_config
  pf_lib :: jwt_lib
  pf_parse :: "string \<Rightarrow> time_ms option"
  pf_mode :: verifier_mode
  pf_chain :: "on_chain option"

record verify_body =
  vb_did :: json
  vb_proof :: json
  vb_signals :: json
  vb_nonce :: string
  vb_timestamp :: string

record sign_in =
  si_tokens :: auth_token
  si_session :: uuid
  si_did :: "string option"

definition new_user_session :: "time_ms \<Rightarrow> uuid \<Rightarrow> string \<Rightarrow> provider \<Rightarrow> user_session" where
  "new_user_session now i user p = \<lparr> se_id = i, se_user = user, se_provider = p, se_verified = True,
     se_created = now, se_expires = now + 3600000, se_did = None \<rparr>"

definition is_js_object :: "json \<Rightarrow> bool" where
  "is_js_object v = (case v of JObj _ \<Rightarrow> True | JArr _ \<Rightarrow> True | _ \<Rightarrow> False)"

definition verify_request_of :: "verify_body \<Rightarrow> zkp_request" where
  "verify_request_of b = \<lparr> zr_proof = vb_proof b, zr_signals = vb_signals b, zr_nonce = vb_nonce b, zr_timestamp = vb_timestamp b \<rparr>"

definition failed_verify :: "platform \<Rightarrow> time_ms \<Rightarrow> tenant \<Rightarrow> api_key \<Rightarrow> uuid option \<Rightarrow> string \<Rightarrow> (string \<times> json) list \<Rightarrow> server \<Rightarrow> server" where
  "failed_verify pf now tn k entity summary members s = recordAuditEvent (pf_sha pf) now (tn_id tn)
     (identity_audit k ''identity.verify'' entity AuditFailure summary members) s"

definition UNIFORM_REFUSAL :: "sign_in answer" where
  "UNIFORM_REFUSAL = Refuse 401 ''verification_failed''"

definition post_identity_verify ::
  "platform \<Rightarrow> time_ms \<Rightarrow> sign_in_draw \<Rightarrow> tenant \<Rightarrow> api_key \<Rightarrow> verify_body \<Rightarrow> server \<times> memory_store
     \<Rightarrow> sign_in answer \<times> server \<times> memory_store" where
  "post_identity_verify pf now draw tn k b ss = (case ss of (s, st) \<Rightarrow>
     (case vb_did b of
        JStr did \<Rightarrow>
          if did = [] then (Refuse 400 ''invalid_did'', s, st)
          else (case vb_signals b of
             JArr (c0 # rest) \<Rightarrow>
               if \<not> is_js_object (vb_proof b) then (Refuse 400 ''invalid_request'', s, st)
               else (case findIdentityByDid (tn_id tn) (ak_environment k) did s of
                  None \<Rightarrow> (UNIFORM_REFUSAL, failed_verify pf now tn k None ''verify: did unknown''
                      [(''did'', JStr did), (''reason'', JStr ''did_unknown'')] s, st)
                | Some (userId, commitment) \<Rightarrow>
                   (let presented = identityCommitmentBigInt c0;
                        registered = identityCommitmentBigInt (JStr (or_else [] commitment)) in
                    if presented = None \<or> registered = None \<or> presented \<noteq> registered then
                      (UNIFORM_REFUSAL, failed_verify pf now tn k (Some userId) ''verify: commitment mismatch''
                         [(''did'', JStr did), (''reason'', JStr ''commitment_mismatch'')] s, st)
                    else if \<not> verifyBiometricProof (pf_parse pf) (pf_mode pf) (pf_chain pf) now (verify_request_of b) then
                      (UNIFORM_REFUSAL, failed_verify pf now tn k (Some userId) ''verify: groth16 proof invalid''
                         [(''did'', JStr did), (''reason'', JStr ''proof_invalid'')] s, st)
                    else (let st' = create (sd_written draw) (new_user_session now (sd_session draw) userId PZkp) st in
                      (case issueTokens (pf_jwt pf) (pf_lib pf) now (sd_jtis draw)
                          [(''sub'', JStr userId), (''provider'', JStr ''zkp''), (''verified'', JBool True),
                           (''sessionId'', JStr (sd_session draw)), (''did'', JStr did)] of
                         None \<Rightarrow> (Refuse 500 ''verify_failed'',
                           failed_verify pf now tn k None ''verify: internal error''
                             [(''did'', JStr did), (''reason'', JStr ''internal_error''), (''error'', JStr (sd_exception draw))] s, st')
                       | Some tokens \<Rightarrow>
                          (Reply 200 \<lparr> si_tokens = tokens, si_session = sd_session draw, si_did = Some did \<rparr>,
                           recordAuditEvent (pf_sha pf) now (tn_id tn)
                             (identity_audit k ''identity.verify'' (Some userId) AuditSuccess
                                (''Face-first verification succeeded for DID '' @ did)
                                [(''did'', JStr did), (''sessionId'', JStr (sd_session draw))]) s, st')))))
           | _ \<Rightarrow> (Refuse 400 ''invalid_request'', s, st))
      | _ \<Rightarrow> (Refuse 400 ''invalid_did'', s, st)))"

section \<open>Sessions of a user\<close>

record profile =
  pr_sub :: json
  pr_email :: json
  pr_provider :: json
  pr_verified :: json
  pr_session :: json

definition provider_str :: "provider \<Rightarrow> string" where
  "provider_str p = (case p of PSaml \<Rightarrow> ''saml'' | POidc \<Rightarrow> ''oidc'' | PZkp \<Rightarrow> ''zkp'')"

text \<open>\<open>sessionStore.get(payload.sessionId)\<close>: only a string can be a key.\<close>

definition session_of :: "bool \<Rightarrow> time_ms \<Rightarrow> json \<Rightarrow> memory_store \<Rightarrow> user_session option \<times> memory_store" where
  "session_of written now i st = (case i of JStr x \<Rightarrow> get_session written now x st | _ \<Rightarrow> (None, st))"

definition drop_session :: "bool \<Rightarrow> json \<Rightarrow> memory_store \<Rightarrow> memory_store" where
  "drop_session written i st = (case i of JStr x \<Rightarrow> snd (delete_session written x st) | _ \<Rightarrow> st)"

definition get_identity_me ::
  "platform \<Rightarrow> time_ms \<Rightarrow> bool \<Rightarrow> string option \<Rightarrow> memory_store \<Rightarrow> profile answer \<times> memory_store" where
  "get_identity_me pf now written header st =
     (case header of None \<Rightarrow> (Refuse 400 ''missing_session_token'', st)
      | Some token \<Rightarrow> if token = [] then (Refuse 400 ''missing_session_token'', st)
          else (case verifyToken (pf_jwt pf) (pf_lib pf) now token of
             None \<Rightarrow> (Refuse 401 ''invalid_session_token'', st)
           | Some payload \<Rightarrow> (case session_of written now (jget ''sessionId'' payload) st of
                 (None, st') \<Rightarrow> (Refuse 401 ''session_expired'', st')
               | (Some session, st') \<Rightarrow>
                   (Reply 200 \<lparr> pr_sub = jget ''sub'' payload, pr_email = jget ''email'' payload,
                      pr_provider = (if truthy (jget ''provider'' payload) then jget ''provider'' payload
                                     else JStr (provider_str (se_provider session))),
                      pr_verified = JBool (se_verified session), pr_session = JStr (se_id session) \<rparr>, st'))))"

definition post_identity_logout ::
  "platform \<Rightarrow> time_ms \<Rightarrow> bool \<Rightarrow> string option \<Rightarrow> memory_store \<Rightarrow> string answer \<times> memory_store" where
  "post_identity_logout pf now written header st =
     (case header of None \<Rightarrow> (Refuse 400 ''missing_session_token'', st)
      | Some token \<Rightarrow> if token = [] then (Refuse 400 ''missing_session_token'', st)
          else (case verifyToken (pf_jwt pf) (pf_lib pf) now token of
             None \<Rightarrow> (Refuse 401 ''invalid_session_token'', st)
           | Some payload \<Rightarrow> (Reply 200 ''Session invalidated successfully.'', drop_session written (jget ''sessionId'' payload) st)))"

definition refresh_claims :: "json \<Rightarrow> user_session \<Rightarrow> (string \<times> json) list" where
  "refresh_claims payload session =
     [(''sub'', jget ''sub'' payload), (''email'', jget ''email'' payload),
      (''provider'', JStr (provider_str (se_provider session))), (''verified'', JBool (se_verified session)),
      (''sessionId'', JStr (se_id session))]"

text \<open>The verification of a token that is not a string throws.\<close>

definition refresh_with ::
  "platform \<Rightarrow> time_ms \<Rightarrow> sign_in_draw \<Rightarrow> json \<Rightarrow> memory_store \<Rightarrow> auth_token answer \<times> memory_store" where
  "refresh_with pf now draw refreshToken st =
     (if \<not> truthy refreshToken then (Refuse 400 ''missing_refresh_token'', st)
      else (case refreshToken of
         JStr token \<Rightarrow> (case verifyToken (pf_jwt pf) (pf_lib pf) now token of
             None \<Rightarrow> (Refuse 401 ''invalid_refresh_token'', st)
           | Some payload \<Rightarrow>
               if jget ''type'' payload \<noteq> JStr ''refresh'' then (Refuse 400 ''invalid_token_type'', st)
               else (case session_of (sd_written draw) now (jget ''sessionId'' payload) st of
                   (None, st') \<Rightarrow> (Refuse 401 ''session_expired'', st')
                 | (Some session, st') \<Rightarrow>
                     (case issueTokens (pf_jwt pf) (pf_lib pf) now (sd_jtis draw) (refresh_claims payload session) of
                        None \<Rightarrow> (Refuse 401 ''invalid_refresh_token'', st')
                      | Some tokens \<Rightarrow> (Reply 200 tokens, st'))))
       | _ \<Rightarrow> (Refuse 401 ''invalid_refresh_token'', st)))"

definition post_identity_refresh ::
  "platform \<Rightarrow> time_ms \<Rightarrow> sign_in_draw \<Rightarrow> json \<Rightarrow> memory_store \<Rightarrow> auth_token answer \<times> memory_store" where
  "post_identity_refresh pf now draw body st = refresh_with pf now draw (jget ''refreshToken'' body) st"

text \<open>\<open>routes/auth.ts\<close>\<close>

definition get_auth_me :: "platform \<Rightarrow> time_ms \<Rightarrow> string option \<Rightarrow> profile answer" where
  "get_auth_me pf now header = (case authenticateJWT (pf_jwt pf) (pf_lib pf) now header of
       Inl (Answer n e) \<Rightarrow> Refuse n e
     | Inl Next \<Rightarrow> Refuse 500 ''unreachable''
     | Inr user \<Rightarrow> Reply 200 \<lparr> pr_sub = jget ''sub'' user, pr_email = jget ''email'' user, pr_provider = jget ''provider'' user,
         pr_verified = jget ''verified'' user, pr_session = jget ''sessionId'' user \<rparr>)"

definition post_auth_refresh ::
  "platform \<Rightarrow> time_ms \<Rightarrow> sign_in_draw \<Rightarrow> json \<Rightarrow> memory_store \<Rightarrow> auth_token answer \<times> memory_store" where
  "post_auth_refresh pf now draw body st = refresh_with pf now draw (jget ''refreshToken'' body) st"

definition post_auth_logout ::
  "platform \<Rightarrow> time_ms \<Rightarrow> bool \<Rightarrow> string option \<Rightarrow> memory_store \<Rightarrow> string answer \<times> memory_store" where
  "post_auth_logout pf now written header st = (case authenticateJWT (pf_jwt pf) (pf_lib pf) now header of
       Inl (Answer n e) \<Rightarrow> (Refuse n e, st)
     | Inl Next \<Rightarrow> (Refuse 500 ''unreachable'', st)
     | Inr user \<Rightarrow> (Reply 200 ''Logged out successfully'', drop_session written (jget ''sessionId'' user) st))"

section \<open>The older proof routes\<close>

text \<open>\<open>POST /v1/auth/zkp/register\<close> and \<open>/api/auth/zkp/register\<close>; \<open>base64\<close> is
  \<open>Buffer.from(.., 'base64')\<close>.  The routes differ in the policy only.\<close>

definition register_template ::
  "(string \<Rightarrow> string) \<Rightarrow> (string \<Rightarrow> string) \<Rightarrow> (int list \<Rightarrow> int) option \<Rightarrow> (string \<Rightarrow> string \<Rightarrow> chain_write) \<Rightarrow>
     nat list \<times> nat list \<times> nat list \<Rightarrow> json \<Rightarrow> json \<Rightarrow> registered_identity answer" where
  "register_template sha base64 poseidon chain draws policy body =
     (case jget ''biometricTemplate'' body of
        JStr text \<Rightarrow>
          if text = [] then Refuse 400 ''invalid_request''
          else if length (base64 text) < 16 then Refuse 400 ''invalid_request''
          else (case registerIdentity sha poseidon chain draws (base64 text) policy of
              None \<Rightarrow> Refuse 500 ''registration_failed''
            | Some r \<Rightarrow> Reply 201 r)
      | _ \<Rightarrow> Refuse 400 ''invalid_request'')"

definition post_v1_zkp_register ::
  "(string \<Rightarrow> string) \<Rightarrow> (string \<Rightarrow> string) \<Rightarrow> (int list \<Rightarrow> int) option \<Rightarrow> (string \<Rightarrow> string \<Rightarrow> chain_write) \<Rightarrow>
     nat list \<times> nat list \<times> nat list \<Rightarrow> tenant \<Rightarrow> json \<Rightarrow> registered_identity answer" where
  "post_v1_zkp_register sha base64 poseidon chain draws tn body =
     register_template sha base64 poseidon chain draws (tn_security_policy tn) body"

definition post_zkp_register ::
  "(string \<Rightarrow> string) \<Rightarrow> (string \<Rightarrow> string) \<Rightarrow> (int list \<Rightarrow> int) option \<Rightarrow> (string \<Rightarrow> string \<Rightarrow> chain_write) \<Rightarrow>
     nat list \<times> nat list \<times> nat list \<Rightarrow> json \<Rightarrow> registered_identity answer" where
  "post_zkp_register sha base64 poseidon chain draws body = register_template sha base64 poseidon chain draws JUndef body"

definition proof_sign_in ::
  "platform \<Rightarrow> time_ms \<Rightarrow> sign_in_draw \<Rightarrow> string \<Rightarrow> verify_body \<Rightarrow> memory_store \<Rightarrow> sign_in answer \<times> memory_store" where
  "proof_sign_in pf now draw userId b st =
     (if \<not> verifyBiometricProof (pf_parse pf) (pf_mode pf) (pf_chain pf) now (verify_request_of b)
      then (Refuse 401 ''proof_verification_failed'', st)
      else (let st' = create (sd_written draw) (new_user_session now (sd_session draw) userId PZkp) st in
        (case issueTokens (pf_jwt pf) (pf_lib pf) now (sd_jtis draw)
            [(''sub'', JStr userId), (''provider'', JStr ''zkp''), (''verified'', JBool True), (''sessionId'', JStr (sd_session draw))] of
           None \<Rightarrow> (Refuse 500 ''verification_failed'', st')
         | Some tokens \<Rightarrow> (Reply 200 \<lparr> si_tokens = tokens, si_session = sd_session draw, si_did = None \<rparr>, st'))))"

text \<open>\<open>uuid\<close> is the draw the user name is made of.\<close>

definition post_v1_zkp_verify ::
  "platform \<Rightarrow> time_ms \<Rightarrow> sign_in_draw \<Rightarrow> uuid \<Rightarrow> tenant \<Rightarrow> verify_body \<Rightarrow> memory_store \<Rightarrow> sign_in answer \<times> memory_store" where
  "post_v1_zkp_verify pf now draw uuid tn b st =
     proof_sign_in pf now draw (take 8 (tn_id tn) @ ''-zkp-'' @ take 8 uuid) b st"

definition post_zkp_verify ::
  "platform \<Rightarrow> time_ms \<Rightarrow> sign_in_draw \<Rightarrow> uuid \<Rightarrow> verify_body \<Rightarrow> memory_store \<Rightarrow> sign_in answer \<times> memory_store" where
  "post_zkp_verify pf now draw uuid b st = proof_sign_in pf now draw (''zkp-user-'' @ take 8 uuid) b st"

record nonce_reply =
  nr_nonce :: uuid
  nr_timestamp :: string
  nr_expires_in :: int

definition get_zkp_nonce :: "time_ms \<Rightarrow> uuid \<Rightarrow> nonce_reply" where
  "get_zkp_nonce now uuid = \<lparr> nr_nonce = uuid, nr_timestamp = iso_string now, nr_expires_in = 300 \<rparr>"

section \<open>Facts\<close>

lemma copies_agree: "identityCommitmentBigInt = parseCommitmentBigInt"
  by (rule ext) (simp add: identityCommitmentBigInt_def parseCommitmentBigInt_def)

lemma create_then_get:
  assumes "now \<le> se_expires x"
  shows "fst (get_session w now (se_id x) (create w' x st)) = Some x"
  using assms by (simp add: get_session_def create_def update_conv expired_def)

lemma record_row:
  "\<exists>r. t_audit (recordAuditEvent sha now t a s) = t_audit s @ [r] \<and> au_tenant_id r = t \<and> au_status r = ai_status a \<and>
     au_entity_id r = ai_entity_id a \<and> au_action r = ai_action a"
  by (simp add: recordAuditEvent_def append_tables audit_row_def input_payload_def)

lemma failed_row:
  "\<exists>r. t_audit (failed_verify pf now tn k entity summary members s) = t_audit s @ [r] \<and> au_tenant_id r = tn_id tn \<and> au_status r = AuditFailure"
  using record_row [of "pf_sha pf" now "tn_id tn" "identity_audit k ''identity.verify'' entity AuditFailure summary members" s]
  by (auto simp: failed_verify_def identity_audit_def)

lemma issue_some:
  "jwt_lib_ok lib rsa_pair \<Longrightarrow> jwt_ready jc rsa_pair \<Longrightarrow> jwt_payload payload \<Longrightarrow> \<exists>tk. issueTokens jc lib now jtis payload = Some tk"
  by (rule issue_succeeds) blast+

text \<open>Property C5.  Verification of an identity signs in exactly when the DID is enrolled in the tenant and
  environment of the key, the first public signal is the stored commitment as a number, and the proof is accepted:
  the session created is the one the answer names, for the enrolled user, and one audit row records the success.  Every other well-formed
  request leaves one failed audit row and the sessions as they were, and is answered alike whichever check failed.  The request is
  well formed when its DID is a non-empty string, its signals are a non-empty array and its proof is an object; the others are
  answered 400 without an audit row (\<open>post_identity_verify\<close>) and are not covered.  The tokens rest on the documented
  behaviour of jsonwebtoken on the calls this code makes (\<open>jwt_lib_ok\<close>) and on a configuration that can sign
  (\<open>jwt_ready\<close>).\<close>

theorem identity_verify_exact:
  assumes "jwt_lib_ok (pf_lib pf) rsa_pair" and "jwt_ready (pf_jwt pf) rsa_pair"
    and "vb_did b = JStr did" "did \<noteq> []" "vb_signals b = JArr (c0 # rest)" "is_js_object (vb_proof b)"
    and "post_identity_verify pf now draw tn k b (s, st) = (ans, s', st')"
  shows "if \<exists>u. first_row (same_did (tn_id tn) (ak_environment k) did) (t_users s) = Some u \<and>
        identityCommitmentBigInt c0 \<noteq> None \<and> identityCommitmentBigInt c0 = identityCommitmentBigInt (JStr (or_else [] (us_commitment u))) \<and>
        verifyBiometricProof (pf_parse pf) (pf_mode pf) (pf_chain pf) now (verify_request_of b)
     then (\<exists>tokens u. ans = Reply 200 \<lparr> si_tokens = tokens, si_session = sd_session draw, si_did = Some did \<rparr> \<and>
         u \<in> set (t_users s) \<and> same_did (tn_id tn) (ak_environment k) did u \<and>
         fst (get_session w now (sd_session draw) st') = Some (new_user_session now (sd_session draw) (us_id u) PZkp) \<and>
         (\<exists>r. t_audit s' = t_audit s @ [r] \<and> au_tenant_id r = tn_id tn \<and> au_status r = AuditSuccess \<and> au_entity_id r = Some (us_id u)))
     else ans = UNIFORM_REFUSAL \<and> st' = st \<and>
         (\<exists>r. t_audit s' = t_audit s @ [r] \<and> au_tenant_id r = tn_id tn \<and> au_status r = AuditFailure)"
proof (cases "\<exists>u. first_row (same_did (tn_id tn) (ak_environment k) did) (t_users s) = Some u \<and>
        identityCommitmentBigInt c0 \<noteq> None \<and> identityCommitmentBigInt c0 = identityCommitmentBigInt (JStr (or_else [] (us_commitment u))) \<and>
        verifyBiometricProof (pf_parse pf) (pf_mode pf) (pf_chain pf) now (verify_request_of b)")
  case True
  then obtain u where u: "first_row (same_did (tn_id tn) (ak_environment k) did) (t_users s) = Some u"
    "identityCommitmentBigInt c0 \<noteq> None" "identityCommitmentBigInt (JStr (or_else [] (us_commitment u))) = identityCommitmentBigInt c0"
    "verifyBiometricProof (pf_parse pf) (pf_mode pf) (pf_chain pf) now (verify_request_of b)" by auto
  let ?p = "[(''sub'', JStr (us_id u)), (''provider'', JStr ''zkp''), (''verified'', JBool True),
    (''sessionId'', JStr (sd_session draw)), (''did'', JStr did)]"
  let ?x = "new_user_session now (sd_session draw) (us_id u) PZkp"
  let ?a = "identity_audit k ''identity.verify'' (Some (us_id u)) AuditSuccess (''Face-first verification succeeded for DID '' @ did)
    [(''did'', JStr did), (''sessionId'', JStr (sd_session draw))]"
  obtain tk where tk: "issueTokens (pf_jwt pf) (pf_lib pf) now (sd_jtis draw) ?p = Some tk"
    using issue_some [OF assms(1,2), of ?p now "sd_jtis draw"] by auto
  have r: "ans = Reply 200 \<lparr> si_tokens = tk, si_session = sd_session draw, si_did = Some did \<rparr>"
    "s' = recordAuditEvent (pf_sha pf) now (tn_id tn) ?a s" "st' = create (sd_written draw) ?x st"
    using assms(7) u tk by (simp_all add: post_identity_verify_def assms(3-6) findIdentityByDid_def Let_def)
  have "fst (get_session w now (sd_session draw) st') = Some ?x"
    using create_then_get [of now ?x w "sd_written draw" st] by (simp add: r(3) new_user_session_def)
  moreover have "u \<in> set (t_users s)" "same_did (tn_id tn) (ak_environment k) did u"
    using first_row_SomeD [OF u(1)] by simp_all
  moreover have "\<exists>r. t_audit s' = t_audit s @ [r] \<and> au_tenant_id r = tn_id tn \<and> au_status r = AuditSuccess \<and> au_entity_id r = Some (us_id u)"
    using record_row [of "pf_sha pf" now "tn_id tn" ?a s] by (auto simp: r(2) identity_audit_def)
  ultimately show ?thesis using True r(1) by auto
next
  case False
  have "ans = UNIFORM_REFUSAL \<and> st' = st \<and> (\<exists>e m l. s' = failed_verify pf now tn k e m l s)"
  proof (cases "first_row (same_did (tn_id tn) (ak_environment k) did) (t_users s)")
    case None
    then show ?thesis using assms(7) by (auto simp: post_identity_verify_def assms(3-6) findIdentityByDid_def)
  next
    case (Some u)
    then show ?thesis using assms(7) False
      by (auto simp: post_identity_verify_def assms(3-6) findIdentityByDid_def Let_def split: if_splits)
  qed
  then show ?thesis using False failed_row by auto
qed

lemma register_reply:
  assumes "post_identity_register sha pg_text now newid tn k body s = (Reply n r, s', c)"
  obtains did commitment ext s1 a where "jget ''did'' body = JStr did" "jget ''commitment'' body = JStr commitment"
    "DID_PATTERN did" "COMMITMENT_PATTERN commitment" "first_row (same_did (tn_id tn) (ak_environment k) did) (t_users s) = None"
    "insert_user (face_first_user now newid (tn_id tn) (ak_environment k) ext did commitment) s = Some s1"
    "s' = recordAuditEvent sha now (tn_id tn) a s1" "ff_did r = did" "ff_user_id r = newid"
    "ff_commitment r = stored_commitment_text commitment"
proof -
  obtain did where d: "jget ''did'' body = JStr did"
    using assms by (cases "jget ''did'' body") (simp_all add: post_identity_register_def registerFaceFirstIdentity_def)
  obtain commitment where c: "jget ''commitment'' body = JStr commitment"
    using assms d by (cases "jget ''commitment'' body")
      (simp_all add: post_identity_register_def registerFaceFirstIdentity_def split: if_splits)
  show thesis
    using assms d c
    by (auto simp: post_identity_register_def registerFaceFirstIdentity_def Let_def split: if_splits option.splits
        intro: that)
qed

text \<open>An identity registered through \<open>/v1/identity/register\<close> is found by \<open>/v1/identity/verify\<close> with the
  commitment it was registered with, but right after the registration not by the pairing sign-in: that looks the DID up in the
  metadata of the user, which this route leaves empty, so a submission under the DID is refused (unless another user of the
  tenant carries the DID in its metadata, or an update writes it there).\<close>

theorem face_first_user_cannot_pair:
  assumes "post_identity_register sha pg_text now newid tn k body s = (Reply n r, s', c)"
    and "\<forall>u \<in> set (t_users s). member_text_of (jget ''did'' (us_metadata u)) \<noteq> Some (ff_did r)"
    and "sb_tenant call = tn_id tn" "sb_env call = ak_environment k" "sb_did call = ff_did r"
  shows "findIdentityByDid (tn_id tn) (ak_environment k) (ff_did r) s' = Some (newid, Some (ff_commitment r)) \<and>
    (\<exists>er. fst (submitProof cfg call meanwhile s') = Inl er)"
proof -
  obtain did commitment ext s1 a where
    reg: "first_row (same_did (tn_id tn) (ak_environment k) did) (t_users s) = None"
    "insert_user (face_first_user now newid (tn_id tn) (ak_environment k) ext did commitment) s = Some s1"
    "s' = recordAuditEvent sha now (tn_id tn) a s1" "ff_did r = did"
    "ff_commitment r = stored_commitment_text commitment"
    by (rule register_reply [OF assms(1)]) (rule that)
  let ?u = "face_first_user now newid (tn_id tn) (ak_environment k) ext did commitment"
  have users: "t_users s' = t_users s @ [?u]" using insert_user_Some [OF reg(2)] by (simp add: reg(3))
  have "same_did (tn_id tn) (ak_environment k) did ?u" by (simp add: same_did_def face_first_user_def)
  then have f: "findIdentityByDid (tn_id tn) (ak_environment k) (ff_did r) s' = Some (newid, Some (ff_commitment r))"
    by (simp add: findIdentityByDid_def users first_row_append reg(1,4,5)) (simp add: face_first_user_def)
  have "member_text_of (jget ''did'' (us_metadata ?u)) = None"
    by (simp add: face_first_user_def jget_def or_else_def member_text_of_def)
  then have "findUserByDid (sb_tenant call) (sb_env call) (sb_did call) s' = None"
    using assms(2) by (auto simp: findUserByDid_def assms(5) users first_row_append first_row_None_iff
        dest!: first_row_SomeD split: option.split)
  then have "\<not> submit_conditions cfg call s' row user" for row user by (simp add: submit_conditions_def)
  then have "\<exists>er s''. submit_checks cfg call meanwhile s' = (Inl er, s'')"
    using checks_success by (metis surj_pair sum.exhaust_sel)
  then show ?thesis using f by (auto simp: submitProof_def)
qed

text \<open>Property C35.  A refresh needs the session, whose end it does not move: for an hour after a sign-in the
  refresh token yields new tokens and the sessions stay as they are; after that hour it is refused, although the token itself is valid for
  its configured life of a week.\<close>

theorem refresh_dies_with_session:
  assumes "jwt_lib_ok (pf_lib pf) rsa_pair" and "jwt_ready (pf_jwt pf) rsa_pair"
    and "st = create w (new_user_session now i user p) st0"
    and "issueTokens (pf_jwt pf) (pf_lib pf) now jtis [(''sub'', JStr user), (''sessionId'', JStr i)] = Some tk"
    and "tk_refresh tk \<noteq> []" and "jc_refresh_expires_in (pf_jwt pf) = ''7d''"
    and "t div 1000 < now div 1000 + 604800"
  shows "verifyToken (pf_jwt pf) (pf_lib pf) t (tk_refresh tk) \<noteq> None \<and>
    (if t \<le> now + 3600000
     then (\<exists>tokens. post_identity_refresh pf t draw (JObj [(''refreshToken'', JStr (tk_refresh tk))]) st = (Reply 200 tokens, st))
     else fst (post_identity_refresh pf t draw (JObj [(''refreshToken'', JStr (tk_refresh tk))]) st) = Refuse 401 ''session_expired'')"
proof -
  have life: "parseExpiresIn (jc_refresh_expires_in (pf_jwt pf)) = 604800"
    by (simp add: assms(6) parseExpiresIn_def from_base_def is_digit_def digit_val_def or_else_def)
  obtain so' where pays: "pays_as (pf_jwt pf) (pf_lib pf) now 604800
       (claims_of so' now [(''sub'', JStr user), (''type'', JStr ''refresh''), (''sessionId'', JStr i)]) (tk_refresh tk)"
  proof (rule issue_succeeds [OF assms(1,2), where now = now and jtis = jtis and payload = "[(''sub'', JStr user), (''sessionId'', JStr i)]"], simp)
    fix tk' so so'
    assume a: "issueTokens (pf_jwt pf) (pf_lib pf) now jtis [(''sub'', JStr user), (''sessionId'', JStr i)] = Some tk'"
      and b: "pays_as (pf_jwt pf) (pf_lib pf) now (parseExpiresIn (jc_refresh_expires_in (pf_jwt pf)))
       (claims_of so' now [(''sub'', jget ''sub'' (JObj [(''sub'', JStr user), (''sessionId'', JStr i)])), (''type'', JStr ''refresh''),
          (''sessionId'', jget ''sessionId'' (JObj [(''sub'', JStr user), (''sessionId'', JStr i)]))]) (tk_refresh tk')"
    have "tk' = tk" using a assms(4) by simp
    then show thesis using b by (intro that [of so']) (simp add: life jget_def or_else_def)
  qed
  let ?c = "claims_of so' now [(''sub'', JStr user), (''type'', JStr ''refresh''), (''sessionId'', JStr i)]"
  have v: "verifyToken (pf_jwt pf) (pf_lib pf) t (tk_refresh tk) = Some ?c"
    using pays assms(7) by (simp add: pays_as_def)
  have g: "get_session w' t i st = (if t \<le> now + 3600000 then (Some (new_user_session now i user p), st)
      else (None, snd (delete_session w' i st)))" for w'
    by (simp add: assms(3) get_session_def create_def new_user_session_def update_conv expired_def)
  have b: "jget ''refreshToken'' (JObj [(''refreshToken'', JStr (tk_refresh tk))]) = JStr (tk_refresh tk)"
    by (simp add: jget_def or_else_def)
  have "jget k ?c = JUndef \<or> defined (jget k ?c)" for k
    by (auto simp: claims_of_def registered_claims_def jget_def or_else_def opt_str_def split: option.splits if_splits)
  then have "jwt_payload (refresh_claims ?c (new_user_session now i user p))"
    by (simp add: refresh_claims_def)
  then obtain tokens where "issueTokens (pf_jwt pf) (pf_lib pf) t (sd_jtis draw)
      (refresh_claims ?c (new_user_session now i user p)) = Some tokens"
    using issue_some [OF assms(1,2)] by blast
  then show ?thesis
    using assms(5) by (simp add: v post_identity_refresh_def refresh_with_def b truthy_def sign_refresh_claims session_of_def g)
qed

text \<open>Logging out ends the session, not the access token: right after it \<open>/v1/identity/me\<close> refuses the
  token, while \<open>/api/auth/me\<close>, which never asks the store, still answers with the profile until the token expires.\<close>

theorem logout_keeps_access_token:
  assumes "jwt_lib_ok (pf_lib pf) rsa_pair" and "jwt_ready (pf_jwt pf) rsa_pair"
    and "issueTokens (pf_jwt pf) (pf_lib pf) now jtis [(''sub'', JStr user), (''sessionId'', JStr i)] = Some tk"
    and "tk_access tk \<noteq> []" and "t div 1000 < now div 1000 + parseExpiresIn (jc_expires_in (pf_jwt pf))"
    and "post_auth_logout pf t w (Some (''Bearer '' @ tk_access tk)) st = (ans, st')"
  shows "ans = Reply 200 ''Logged out successfully'' \<and>
    fst (get_identity_me pf t w' (Some (tk_access tk)) st') = Refuse 401 ''session_expired'' \<and>
    (\<exists>pr. get_auth_me pf t (Some (''Bearer '' @ tk_access tk)) = Reply 200 pr \<and> pr_sub pr = JStr user)"
proof -
  obtain so where pays: "pays_as (pf_jwt pf) (pf_lib pf) now (parseExpiresIn (jc_expires_in (pf_jwt pf)))
       (claims_of so now [(''sub'', JStr user), (''sessionId'', JStr i)]) (tk_access tk)"
    by (rule issue_succeeds [OF assms(1,2), where now = now and jtis = jtis and payload = "[(''sub'', JStr user), (''sessionId'', JStr i)]"])
      (use assms(3) that in simp_all)
  let ?c = "claims_of so now [(''sub'', JStr user), (''sessionId'', JStr i)]"
  have v: "verifyToken (pf_jwt pf) (pf_lib pf) t (tk_access tk) = Some ?c" using pays assms(5) by (simp add: pays_as_def)
  have c: "jget ''sub'' ?c = JStr user" "jget ''sessionId'' ?c = JStr i"
    by (subst claims_of_get; simp add: jget_def or_else_def)+
  have a: "authenticateJWT (pf_jwt pf) (pf_lib pf) t (Some (''Bearer '' @ tk_access tk)) = Inr ?c"
    by (simp add: authenticateJWT_def bearer_of_def v)
  have st: "ans = Reply 200 ''Logged out successfully''" "st' = snd (delete_session w i st)"
    using assms(6) by (simp_all add: post_auth_logout_def a [simplified] c drop_session_def)
  have "get_session w' t i st' = (None, st')"
    by (simp add: st(2) get_session_def delete_session_def delete_conv)
  then show ?thesis
    using assms(4) by (simp add: st(1) get_identity_me_def v c session_of_def get_auth_me_def a [simplified])
qed

section \<open>Witnesses\<close>

definition demo_platform :: platform where
  "demo_platform = \<lparr> pf_sha = rev, pf_jwt = demo_jwt, pf_lib = demo_lib, pf_parse = (\<lambda>_. Some 0),
     pf_mode = Inline (\<lambda>_ _ _. Some True) (Some ''k''), pf_chain = None \<rparr>"

lemma demo_platform_ok: "jwt_lib_ok (pf_lib demo_platform) (=)" "jwt_ready (pf_jwt demo_platform) (=)"
  "pf_jwt demo_platform = demo_jwt" "pf_lib demo_platform = demo_lib"
  by (simp_all add: demo_platform_def demo_lib_ok demo_jwt_ready)

lemma demo_lifetimes: "parseExpiresIn (jc_expires_in demo_jwt) = 3600" "jc_refresh_expires_in demo_jwt = ''7d''"
  by (simp_all add: demo_jwt_def jwt_config_of_def or_else_def parseExpiresIn_def from_base_def is_digit_def digit_val_def)

lemma demo_tokens:
  obtains tk where "issueTokens demo_jwt demo_lib now jtis [(''sub'', JStr user), (''sessionId'', JStr i)] = Some tk" "tk_access tk \<noteq> []" "tk_refresh tk \<noteq> []"
proof -
  obtain tk where tk: "issueTokens demo_jwt demo_lib now jtis [(''sub'', JStr user), (''sessionId'', JStr i)] = Some tk"
    using issue_some [OF demo_lib_ok demo_jwt_ready, of "[(''sub'', JStr user), (''sessionId'', JStr i)]" now jtis] by auto
  moreover from tk have "tk_access tk \<noteq> [] \<and> tk_refresh tk \<noteq> []"
    by (auto simp: issueTokens_def demo_lib_def Let_def split: if_splits option.splits)
  ultimately show thesis using that by blast
qed

definition demo_sign_in :: sign_in_draw where
  "demo_sign_in = \<lparr> sd_session = ''s'', sd_jtis = (''a'', ''b''), sd_written = True, sd_exception = [] \<rparr>"

definition demo_tenant_row :: tenant where
  "demo_tenant_row = \<lparr> tn_id = ''t'', tn_email = [], tn_password_hash = [], tn_company_name = None, tn_plan = Free,
     tn_status = TenantActive, tn_rate_limit = 100, tn_monthly_quota = 100, tn_security_policy = JNull,
     tn_created_at = 0, tn_updated_at = 0 \<rparr>"

definition demo_key_row :: api_key where
  "demo_key_row = \<lparr> ak_id = ''k'', ak_tenant_id = ''t'', ak_name = [], ak_key_prefix = [], ak_key_hash = [], ak_scopes = [],
     ak_environment = Live, ak_status = KeyActive, ak_last_used_at = None, ak_expires_at = None, ak_created_at = 0, ak_revoked_at = None \<rparr>"

definition demo_did :: string where
  "demo_did = ''did:zeroauth:base:00112233445566778899''"

definition demo_register_body :: json where
  "demo_register_body = JObj [(''did'', JStr demo_did), (''commitment'', JStr ''0x2A'')]"

definition demo_enrolled :: server where
  "demo_enrolled = fst (snd (post_identity_register rev (\<lambda>_. []) 0 ''u'' demo_tenant_row demo_key_row demo_register_body empty_server))"

lemma demo_did_ok: "DID_PATTERN demo_did"
  by (simp add: DID_PATTERN_def demo_did_def) code_simp

lemma demo_commitment_ok: "COMMITMENT_PATTERN ''0x2A''" "stored_commitment_text ''0x2A'' = ''2a''"
  by code_simp+

lemma demo_register_reply:
  "post_identity_register rev (\<lambda>_. []) 0 ''u'' demo_tenant_row demo_key_row demo_register_body empty_server =
     (Reply 201 \<lparr> ff_user_id = ''u'', ff_did = demo_did, ff_commitment = ''2a'', ff_created_at = iso_string 0 \<rparr>, demo_enrolled, None)"
proof -
  have "demo_did \<noteq> []" by (simp add: demo_did_def)
  moreover have "rp_did (resolveProviders JNull) = DidOffChain" by (simp add: resolveProviders_def DEFAULT_PROVIDERS_def)
  ultimately have "\<exists>s'. post_identity_register rev (\<lambda>_. []) 0 ''u'' demo_tenant_row demo_key_row demo_register_body empty_server =
     (Reply 201 \<lparr> ff_user_id = ''u'', ff_did = demo_did, ff_commitment = ''2a'', ff_created_at = iso_string 0 \<rparr>, s', None)"
    by (simp add: post_identity_register_def registerFaceFirstIdentity_def demo_register_body_def jget_def or_else_def
        demo_did_ok demo_commitment_ok empty_server_def insert_user_def Let_def demo_tenant_row_def)
  then show ?thesis by (auto simp: demo_enrolled_def)
qed

lemma demo_enrolled_users:
  "t_users demo_enrolled = [face_first_user 0 ''u'' ''t'' Live demo_did demo_did ''0x2A'']"
  by (simp add: demo_enrolled_def post_identity_register_def registerFaceFirstIdentity_def demo_register_body_def jget_def or_else_def
        demo_did_ok demo_commitment_ok empty_server_def insert_user_def Let_def demo_tenant_row_def demo_key_row_def)
     (simp add: demo_did_def)

theorem face_first_user_cannot_pair_witness:
  "\<exists>er. fst (submitProof demo_config (demo_call\<lparr>sb_tenant := ''t'', sb_env := Live, sb_did := demo_did\<rparr>) id demo_enrolled) = Inl er"
  using face_first_user_cannot_pair [OF demo_register_reply, of "demo_call\<lparr>sb_tenant := ''t'', sb_env := Live, sb_did := demo_did\<rparr>" demo_config id]
  by (simp add: empty_server_def demo_tenant_row_def demo_key_row_def)

definition demo_verify :: verify_body where
  "demo_verify = \<lparr> vb_did = JStr demo_did, vb_proof = JObj [], vb_signals = JArr [JStr ''42'', JStr ''1'', JStr ''2''],
     vb_nonce = ''01234567-89ab-4def-8123-456789abcdef'', vb_timestamp = ''t'' \<rparr>"

lemma demo_proof_accepted:
  "verifyBiometricProof (pf_parse demo_platform) (pf_mode demo_platform) (pf_chain demo_platform) 1 (verify_request_of demo_verify)"
proof -
  have "is_uuid_v4 ''01234567-89ab-4def-8123-456789abcdef''" by code_simp
  then show ?thesis
    by (simp add: verifyBiometricProof_def verify_request_of_def demo_verify_def demo_platform_def truthy_def PROOF_WINDOW_MS_def
        array_of_def verifyProofOffChain_def verifyInline_def Let_def)
qed

theorem identity_verify_exact_witness:
  "\<exists>tokens s' st'. post_identity_verify demo_platform 1 demo_sign_in demo_tenant_row demo_key_row demo_verify
      (demo_enrolled, new_memory_store 0 []) = (Reply 200 \<lparr> si_tokens = tokens, si_session = ''s'', si_did = Some demo_did \<rparr>, s', st')"
proof -
  obtain ans s' st' where v: "post_identity_verify demo_platform 1 demo_sign_in demo_tenant_row demo_key_row demo_verify
      (demo_enrolled, new_memory_store 0 []) = (ans, s', st')" by (rule prod_cases3)
  have body: "vb_did demo_verify = JStr demo_did" "demo_did \<noteq> []" "vb_signals demo_verify = JArr (JStr ''42'' # [JStr ''1'', JStr ''2''])"
    "is_js_object (vb_proof demo_verify)"
    by (simp_all add: demo_verify_def demo_did_def is_js_object_def)
  have num: "identityCommitmentBigInt (JStr ''42'') = Some 42" "identityCommitmentBigInt (JStr ''2a'') = Some 42"
    by code_simp+
  have row: "first_row (same_did (tn_id demo_tenant_row) (ak_environment demo_key_row) demo_did) (t_users demo_enrolled) =
      Some (face_first_user 0 ''u'' ''t'' Live demo_did demo_did ''0x2A'')"
    by (simp add: demo_enrolled_users demo_tenant_row_def demo_key_row_def same_did_def face_first_user_def)
  have c: "us_commitment (face_first_user 0 ''u'' ''t'' Live demo_did demo_did ''0x2A'') = Some ''2a''"
    by (simp add: face_first_user_def demo_commitment_ok)
  from identity_verify_exact [OF demo_platform_ok(1,2) body v, where w = True]
  show ?thesis using row c num demo_proof_accepted v by (auto simp: or_else_def demo_sign_in_def)
qed

theorem refresh_dies_with_session_witness:
  "\<exists>tk. issueTokens demo_jwt demo_lib 0 (''a'', ''b'') [(''sub'', JStr ''u''), (''sessionId'', JStr ''s'')] = Some tk \<and>
    verifyToken demo_jwt demo_lib 3600001 (tk_refresh tk) \<noteq> None \<and>
    fst (post_identity_refresh demo_platform 3600001 demo_sign_in (JObj [(''refreshToken'', JStr (tk_refresh tk))])
      (create True (new_user_session 0 ''s'' ''u'' PZkp) (new_memory_store 0 []))) = Refuse 401 ''session_expired''"
proof -
  obtain tk where tk: "issueTokens demo_jwt demo_lib 0 (''a'', ''b'') [(''sub'', JStr ''u''), (''sessionId'', JStr ''s'')] = Some tk"
    "tk_refresh tk \<noteq> []" by (rule demo_tokens)
  show ?thesis
    using tk refresh_dies_with_session [OF demo_platform_ok(1,2) refl, unfolded demo_platform_ok(3,4), OF tk demo_lifetimes(2),
        where t = 3600001 and draw = demo_sign_in]
    by simp
qed

theorem logout_keeps_access_token_witness:
  "\<exists>tk. issueTokens demo_jwt demo_lib 0 (''a'', ''b'') [(''sub'', JStr ''u''), (''sessionId'', JStr ''s'')] = Some tk \<and>
    (\<exists>pr. get_auth_me demo_platform 5 (Some (''Bearer '' @ tk_access tk)) = Reply 200 pr)"
proof -
  obtain tk where tk: "issueTokens demo_jwt demo_lib 0 (''a'', ''b'') [(''sub'', JStr ''u''), (''sessionId'', JStr ''s'')] = Some tk"
    "tk_access tk \<noteq> []" by (rule demo_tokens)
  obtain ans st' where out: "post_auth_logout demo_platform 5 True (Some (''Bearer '' @ tk_access tk)) (new_memory_store 0 []) = (ans, st')"
    by (rule prod.exhaust)
  have life: "(5 :: int) div 1000 < 0 div 1000 + parseExpiresIn (jc_expires_in demo_jwt)" by (simp add: demo_lifetimes)
  from logout_keeps_access_token [OF demo_platform_ok(1,2), unfolded demo_platform_ok(3,4), OF tk life out, where w' = True] tk(1)
  show ?thesis by blast
qed

end
