(* ===== verification/Federated.thy ===== *)
theory Federated
  imports Identity
begin

text \<open>
  The SAML and OpenID Connect routes: the demonstration ones (\<open>routes/saml.ts\<close>, \<open>routes/oidc.ts\<close>,
  behind \<open>demoAuthOnly\<close>) and the ones under \<open>/v1/auth\<close> (\<open>routes/v1/saml.ts\<close>,
  \<open>routes/v1/oidc.ts\<close>, behind an API key).  None asks the identity provider anything.  The table of
  pending states is a \<open>Map\<close> in insertion order; identifiers, the code verifier and its challenge are
  draws and a parameter.
\<close>

section \<open>SAML\<close>

record saml_login =
  sl_redirect :: string
  sl_issuer :: string
  sl_callback :: string

definition get_saml_login :: "app_config \<Rightarrow> saml_login answer" where
  "get_saml_login cf = (case demoAuthOnly cf of
       Answer n e \<Rightarrow> Refuse n e
     | Next \<Rightarrow> Reply 200 \<lparr> sl_redirect = cf_saml_entry_point cf, sl_issuer = cf_saml_issuer cf, sl_callback = cf_saml_callback_url cf \<rparr>)"

definition get_v1_saml_login :: "app_config \<Rightarrow> saml_login answer" where
  "get_v1_saml_login cf = Reply 200 \<lparr> sl_redirect = cf_saml_entry_point cf, sl_issuer = cf_saml_issuer cf,
     sl_callback = cf_api_base_url cf @ ''/v1/auth/saml/callback'' \<rparr>"

record saml_body =
  sm_response :: json
  sm_name_id :: "string option"
  sm_email :: json

text \<open>Session and tokens of a signed-in user; an exception after the session was stored is a 500.\<close>

definition provider_session ::
  "platform \<Rightarrow> time_ms \<Rightarrow> sign_in_draw \<Rightarrow> provider \<Rightarrow> string \<Rightarrow> json \<Rightarrow> string \<Rightarrow> memory_store
     \<Rightarrow> sign_in answer \<times> memory_store" where
  "provider_session pf now draw p userId email failure st =
     (let st' = create (sd_written draw) (new_user_session now (sd_session draw) userId p) st in
      (case issueTokens (pf_jwt pf) (pf_lib pf) now (sd_jtis draw)
          [(''sub'', JStr userId), (''email'', email), (''provider'', JStr (provider_str p)), (''verified'', JBool True),
           (''sessionId'', JStr (sd_session draw))] of
         None \<Rightarrow> (Refuse 500 failure, st')
       | Some tokens \<Rightarrow> (Reply 200 \<lparr> si_tokens = tokens, si_session = sd_session draw, si_did = None \<rparr>, st')))"

definition saml_name :: "uuid \<Rightarrow> saml_body \<Rightarrow> string" where
  "saml_name uuid b = or_else (''saml-user-'' @ take 8 uuid) (sm_name_id b)"

definition post_saml_callback ::
  "app_config \<Rightarrow> platform \<Rightarrow> time_ms \<Rightarrow> sign_in_draw \<Rightarrow> uuid \<Rightarrow> saml_body \<Rightarrow> memory_store \<Rightarrow> sign_in answer \<times> memory_store" where
  "post_saml_callback cf pf now draw uuid b st = (case demoAuthOnly cf of
       Answer n e \<Rightarrow> (Refuse n e, st)
     | Next \<Rightarrow> if \<not> truthy (sm_response b) then (Refuse 400 ''Missing SAMLResponse'', st)
         else provider_session pf now draw PSaml (saml_name uuid b) (sm_email b) ''SAML authentication failed'' st)"

definition post_v1_saml_callback ::
  "platform \<Rightarrow> time_ms \<Rightarrow> sign_in_draw \<Rightarrow> uuid \<Rightarrow> saml_body \<Rightarrow> memory_store \<Rightarrow> sign_in answer \<times> memory_store" where
  "post_v1_saml_callback pf now draw uuid b st =
     (if \<not> truthy (sm_response b) then (Refuse 400 ''missing_saml_response'', st)
      else provider_session pf now draw PSaml (saml_name uuid b) (sm_email b) ''saml_auth_failed'' st)"

section \<open>OpenID Connect\<close>

record pending_state =
  pt_verifier :: string
  pt_created :: time_ms
  pt_tenant :: uuid

type_synonym pending_states = "(string \<times> pending_state) list"

text \<open>\<open>URLSearchParams.toString()\<close>\<close>

definition utf8 :: "char \<Rightarrow> nat list" where
  "utf8 c = (let n = (of_char c :: nat) in if n < 128 then [n] else [192 + n div 64, 128 + n mod 64])"

definition form_char :: "char \<Rightarrow> string" where
  "form_char c =
     (if is_lower c \<or> is_upper c \<or> is_digit c \<or> c \<in> {CHR ''*'', CHR ''-'', CHR ''.'', CHR ''_''} then [c]
      else if c = CHR '' '' then ''+''
      else concat (map (\<lambda>n. CHR ''%'' # upper (bytes_hex [n])) (utf8 c)))"

definition form_encode :: "(string \<times> string) list \<Rightarrow> string" where
  "form_encode params = join ''&'' (map (\<lambda>(k, v). concat (map form_char k) @ ''='' @ concat (map form_char v)) params)"

definition authorize_url :: "app_config \<Rightarrow> string \<Rightarrow> string \<Rightarrow> string \<Rightarrow> string \<Rightarrow> string" where
  "authorize_url cf redirect state challenge nonce = cf_oidc_issuer cf @ ''/authorize?'' @ form_encode
     [(''response_type'', ''code''), (''client_id'', cf_oidc_client_id cf), (''redirect_uri'', redirect),
      (''scope'', ''openid email profile''), (''state'', state), (''code_challenge'', challenge),
      (''code_challenge_method'', ''S256''), (''nonce'', nonce)]"

definition STATE_TTL_MS :: int where "STATE_TTL_MS = 600000"

definition remember_state :: "time_ms \<Rightarrow> string \<Rightarrow> string \<Rightarrow> uuid \<Rightarrow> pending_states \<Rightarrow> pending_states" where
  "remember_state now state verifier tenant ps =
     filter (\<lambda>e. \<not> pt_created (snd e) < now - STATE_TTL_MS)
       (AList.update state \<lparr> pt_verifier = verifier, pt_created = now, pt_tenant = tenant \<rparr> ps)"

text \<open>The draws: state, code verifier, nonce.  The answer is the URL and the state.\<close>

definition get_oidc_authorize ::
  "app_config \<Rightarrow> (string \<Rightarrow> string) \<Rightarrow> time_ms \<Rightarrow> string \<times> string \<times> string \<Rightarrow> pending_states
     \<Rightarrow> (string \<times> string) answer \<times> pending_states" where
  "get_oidc_authorize cf challenge now draws ps = (case demoAuthOnly cf of
       Answer n e \<Rightarrow> (Refuse n e, ps)
     | Next \<Rightarrow> (case draws of (state, verifier, nonce) \<Rightarrow>
         (Reply 200 (authorize_url cf (cf_oidc_redirect_uri cf) state (challenge verifier) nonce, state),
          remember_state now state verifier [] ps)))"

definition get_v1_oidc_authorize ::
  "app_config \<Rightarrow> (string \<Rightarrow> string) \<Rightarrow> time_ms \<Rightarrow> string \<times> string \<times> string \<Rightarrow> tenant \<Rightarrow> pending_states
     \<Rightarrow> (string \<times> string) answer \<times> pending_states" where
  "get_v1_oidc_authorize cf challenge now draws tn ps = (case draws of (state, verifier, nonce) \<Rightarrow>
     (Reply 200 (authorize_url cf (cf_api_base_url cf @ ''/v1/auth/oidc/callback'') state (challenge verifier) nonce, state),
      remember_state now state verifier (tn_id tn) ps))"

definition lookup_state :: "json \<Rightarrow> pending_states \<Rightarrow> (string \<times> pending_state) option" where
  "lookup_state state ps = (case state of JStr x \<Rightarrow> map_option (Pair x) (map_of ps x) | _ \<Rightarrow> None)"

definition oidc_email :: "string \<Rightarrow> json \<Rightarrow> json" where
  "oidc_email userId body = (case jget ''email'' body of
       JUndef \<Rightarrow> JStr (userId @ ''@example.com'') | JNull \<Rightarrow> JStr (userId @ ''@example.com'') | v \<Rightarrow> v)"

definition post_oidc_callback ::
  "app_config \<Rightarrow> platform \<Rightarrow> time_ms \<Rightarrow> sign_in_draw \<Rightarrow> uuid \<Rightarrow> json \<Rightarrow> pending_states \<times> memory_store
     \<Rightarrow> sign_in answer \<times> pending_states \<times> memory_store" where
  "post_oidc_callback cf pf now draw uuid body pst = (case pst of (ps, st) \<Rightarrow> (case demoAuthOnly cf of
       Answer n e \<Rightarrow> (Refuse n e, ps, st)
     | Next \<Rightarrow>
         if \<not> truthy (jget ''code'' body) \<or> \<not> truthy (jget ''state'' body) then (Refuse 400 ''Missing code or state parameter'', ps, st)
         else (case lookup_state (jget ''state'' body) ps of
             None \<Rightarrow> (Refuse 400 ''Invalid or expired state parameter'', ps, st)
           | Some (x, _) \<Rightarrow>
              (let userId = ''oidc-user-'' @ take 8 uuid;
                   (a, st') = provider_session pf now draw POidc userId (oidc_email userId body) ''OIDC authentication failed'' st
               in (a, AList.delete x ps, st')))))"

definition post_v1_oidc_callback ::
  "platform \<Rightarrow> time_ms \<Rightarrow> sign_in_draw \<Rightarrow> uuid \<Rightarrow> tenant \<Rightarrow> json \<Rightarrow> pending_states \<times> memory_store
     \<Rightarrow> sign_in answer \<times> pending_states \<times> memory_store" where
  "post_v1_oidc_callback pf now draw uuid tn body pst = (case pst of (ps, st) \<Rightarrow>
     (if \<not> truthy (jget ''code'' body) \<or> \<not> truthy (jget ''state'' body) then (Refuse 400 ''missing_parameters'', ps, st)
      else (case lookup_state (jget ''state'' body) ps of
          None \<Rightarrow> (Refuse 400 ''invalid_state'', ps, st)
        | Some (x, p) \<Rightarrow>
           if pt_tenant p \<noteq> tn_id tn then (Refuse 400 ''invalid_state'', ps, st)
           else (let userId = take 8 (tn_id tn) @ ''-oidc-'' @ take 8 uuid;
                     (a, st') = provider_session pf now draw POidc userId (oidc_email userId body) ''oidc_auth_failed'' st
                 in (a, AList.delete x ps, st')))))"

section \<open>Properties\<close>

lemma provider_session_reply:
  assumes "jwt_lib_ok (pf_lib pf) rsa_pair" "jwt_ready (pf_jwt pf) rsa_pair" "email = JUndef \<or> defined email"
  obtains tokens where "provider_session pf now draw p userId email failure st =
    (Reply 200 \<lparr> si_tokens = tokens, si_session = sd_session draw, si_did = None \<rparr>,
     create (sd_written draw) (new_user_session now (sd_session draw) userId p) st)"
  using issue_some [OF assms(1,2), of "[(''sub'', JStr userId), (''email'', email), (''provider'', JStr (provider_str p)),
      (''verified'', JBool True), (''sessionId'', JStr (sd_session draw))]" now "sd_jtis draw"] assms(3)
  by (auto simp: provider_session_def)

text \<open>With any non-empty \<open>SAMLResponse\<close> a holder of an API key is signed in under whatever name
  the body gives, with a verified session: the hosted route checks the assertion no more than the
  demonstration route it is meant to replace.\<close>

theorem saml_signs_in_anyone:
  assumes "jwt_lib_ok (pf_lib pf) rsa_pair" "jwt_ready (pf_jwt pf) rsa_pair"
    and "sm_name_id b = Some victim" "truthy (sm_response b)" "sm_email b = JUndef \<or> defined (sm_email b)"
  shows "\<exists>tokens st'. post_v1_saml_callback pf now draw uuid b st =
      (Reply 200 \<lparr> si_tokens = tokens, si_session = sd_session draw, si_did = None \<rparr>, st') \<and>
    fst (get_session w now (sd_session draw) st') = Some (new_user_session now (sd_session draw) victim PSaml) \<and>
    se_verified (new_user_session now (sd_session draw) victim PSaml)"
proof -
  obtain tokens where t: "provider_session pf now draw PSaml (saml_name uuid b) (sm_email b) ''saml_auth_failed'' st =
    (Reply 200 \<lparr> si_tokens = tokens, si_session = sd_session draw, si_did = None \<rparr>,
     create (sd_written draw) (new_user_session now (sd_session draw) (saml_name uuid b) PSaml) st)"
    by (rule provider_session_reply [OF assms(1,2,5)])
  have "fst (get_session w now (sd_session draw) (create (sd_written draw) (new_user_session now (sd_session draw) victim PSaml) st)) =
      Some (new_user_session now (sd_session draw) victim PSaml)"
    using create_then_get [of now "new_user_session now (sd_session draw) victim PSaml" w "sd_written draw" st]
    by (simp add: new_user_session_def)
  then show ?thesis using t assms(3,4) by (simp add: post_v1_saml_callback_def saml_name_def or_else_def) (simp add: new_user_session_def)
qed

theorem saml_signs_in_anyone_witness:
  "\<exists>tokens st'. post_v1_saml_callback demo_platform 1 demo_sign_in ''u'' \<lparr> sm_response = JStr ''x'', sm_name_id = Some ''ceo'', sm_email = JUndef \<rparr>
      (new_memory_store 0 []) = (Reply 200 \<lparr> si_tokens = tokens, si_session = ''s'', si_did = None \<rparr>, st')"
  using saml_signs_in_anyone [OF demo_platform_ok(1,2), of "\<lparr> sm_response = JStr ''x'', sm_name_id = Some ''ceo'', sm_email = JUndef \<rparr>"
      "''ceo''" 1 demo_sign_in "''u''" "new_memory_store 0 []" True]
  by (auto simp: truthy_def demo_sign_in_def)

text \<open>A state answers one callback, and only of the tenant that asked for it; but it never ages by itself: a state
  is dropped only when another authorization is started, so one of any age still signs in.\<close>

theorem oidc_state_one_shot:
  assumes "jwt_lib_ok (pf_lib pf) rsa_pair" "jwt_ready (pf_jwt pf) rsa_pair"
    and "get_v1_oidc_authorize cf challenge start (x, verifier, nonce) tn ps0 = (auth, ps)" "x \<noteq> []"
    and "jget ''state'' body = JStr x" "truthy (jget ''code'' body)" "tn_id other \<noteq> tn_id tn"
    and "jget ''email'' body = JUndef \<or> defined (jget ''email'' body)"
  shows "\<exists>tokens ps' st'. post_v1_oidc_callback pf now draw uuid tn body (ps, st) =
      (Reply 200 \<lparr> si_tokens = tokens, si_session = sd_session draw, si_did = None \<rparr>, ps', st') \<and>
    post_v1_oidc_callback pf later draw' uuid' tn body (ps', st'') = (Refuse 400 ''invalid_state'', ps', st'') \<and>
    post_v1_oidc_callback pf now draw uuid other body (ps, st) = (Refuse 400 ''invalid_state'', ps, st)"
proof -
  have "map_of ps x = Some \<lparr> pt_verifier = verifier, pt_created = start, pt_tenant = tn_id tn \<rparr>"
  proof -
    have "map_of (AList.update x \<lparr> pt_verifier = verifier, pt_created = start, pt_tenant = tn_id tn \<rparr> ps0) x =
        Some \<lparr> pt_verifier = verifier, pt_created = start, pt_tenant = tn_id tn \<rparr>" by (simp add: update_conv)
    then have "map_of (filter (\<lambda>e. \<not> pt_created (snd e) < start - STATE_TTL_MS)
        (AList.update x \<lparr> pt_verifier = verifier, pt_created = start, pt_tenant = tn_id tn \<rparr> ps0)) x =
        Some \<lparr> pt_verifier = verifier, pt_created = start, pt_tenant = tn_id tn \<rparr>"
      by (induction ps0) (auto simp: STATE_TTL_MS_def split: if_splits)
    then show ?thesis using assms(3) by (simp add: get_v1_oidc_authorize_def remember_state_def)
  qed
  then have l: "lookup_state (JStr x) ps = Some (x, \<lparr> pt_verifier = verifier, pt_created = start, pt_tenant = tn_id tn \<rparr>)"
    by (simp add: lookup_state_def)
  have l': "lookup_state (JStr x) (AList.delete x ps) = None" by (simp add: lookup_state_def delete_conv)
  let ?u = "take 8 (tn_id tn) @ ''-oidc-'' @ take 8 uuid"
  have "oidc_email ?u body = JUndef \<or> defined (oidc_email ?u body)"
    using assms(8) by (cases "jget ''email'' body") (simp_all add: oidc_email_def)
  then obtain tokens where t: "provider_session pf now draw POidc ?u (oidc_email ?u body) ''oidc_auth_failed'' st =
    (Reply 200 \<lparr> si_tokens = tokens, si_session = sd_session draw, si_did = None \<rparr>,
     create (sd_written draw) (new_user_session now (sd_session draw) ?u POidc) st)"
    by (rule provider_session_reply [OF assms(1,2)])
  have x: "truthy (JStr x)" using assms(4) by (simp add: truthy_def)
  show ?thesis
    using assms(6,7) x l l' t
    by (intro exI [of _ tokens] exI [of _ "AList.delete x ps"]
          exI [of _ "create (sd_written draw) (new_user_session now (sd_session draw) ?u POidc) st"])
       (simp add: post_v1_oidc_callback_def assms(5))
qed

theorem oidc_state_one_shot_witness:
  "\<exists>ps tokens ps' st'. snd (get_v1_oidc_authorize cf id 0 (''x'', ''v'', ''n'') demo_tenant_row []) = ps \<and>
     post_v1_oidc_callback demo_platform 600000000 demo_sign_in ''u'' demo_tenant_row
       (JObj [(''code'', JStr ''c''), (''state'', JStr ''x'')]) (ps, new_memory_store 0 []) =
       (Reply 200 \<lparr> si_tokens = tokens, si_session = ''s'', si_did = None \<rparr>, ps', st')"
proof -
  let ?body = "JObj [(''code'', JStr ''c''), (''state'', JStr ''x'')]"
  obtain auth ps where a: "get_v1_oidc_authorize cf id 0 (''x'', ''v'', ''n'') demo_tenant_row [] = (auth, ps)"
    by (rule prod.exhaust)
  have b: "''x'' \<noteq> ([] :: string)" "jget ''state'' ?body = JStr ''x''" "truthy (jget ''code'' ?body)"
    "tn_id (demo_tenant_row\<lparr>tn_id := ''other''\<rparr>) \<noteq> tn_id demo_tenant_row"
    by (simp_all add: jget_def or_else_def truthy_def demo_tenant_row_def)
  have c: "jget ''email'' ?body = JUndef \<or> defined (jget ''email'' ?body)" by (simp add: jget_def or_else_def)
  have s: "sd_session demo_sign_in = ''s''" by (simp add: demo_sign_in_def)
  from oidc_state_one_shot [OF demo_platform_ok(1,2) a b c, of 600000000 demo_sign_in "''u''" "new_memory_store 0 []"
      0 demo_sign_in "''u''" "new_memory_store 0 []"]
  show ?thesis unfolding a snd_conv s by blast
qed

end
