(* ===== verification/Sensor_Codec.thy ===== *)
theory Sensor_Codec
  imports Prelude "HOL-Library.Word"
begin

unbundle bit_operations_syntax

text \<open>
  The packets of the fingerprint sensor, first half of \<open>iot/src/sensor.ts\<close>: building a
  packet, finding the next packet in the bytes received so far, and the loop of \<open>onData\<close> that
  takes packets off the buffer.  A \<open>Buffer\<close> is a list of 8-bit words; a write outside the
  range of its field throws (\<open>RangeError\<close>), as Node's \<open>writeUInt16BE\<close> does.
\<close>

type_synonym byte = "8 word"
type_synonym bytes = "byte list"

section \<open>Constants\<close>

definition PACKET_HEADER :: nat where "PACKET_HEADER = 0xEF01"
definition DEFAULT_ADDRESS :: int where "DEFAULT_ADDRESS = 0xFFFFFFFF"
definition DEFAULT_PASSWORD :: int where "DEFAULT_PASSWORD = 0"

definition PID_COMMAND :: byte where "PID_COMMAND = 0x01"
definition PID_DATA :: byte where "PID_DATA = 0x02"
definition PID_ACK :: byte where "PID_ACK = 0x07"
definition PID_END_DATA :: byte where "PID_END_DATA = 0x08"

lemmas pid_defs = PID_COMMAND_def PID_DATA_def PID_ACK_def PID_END_DATA_def

datatype sensor_error =
    RangeError | PacketTimeout | PortFailure string | WriteFailure string
  | UnexpectedPid byte | BadConfirmation string nat | EmptyData | UnalignedData
  | FingerNotDetected | FingerNotRemoved

section \<open>Big-endian fields\<close>

definition be16 :: "int \<Rightarrow> sensor_error + bytes" where
  "be16 n = (if 0 \<le> n \<and> n < 65536 then Inr [of_int (n div 256), of_int n] else Inl RangeError)"

definition be32 :: "int \<Rightarrow> bytes" where
  "be32 n = [of_int (n div 16777216), of_int (n div 65536), of_int (n div 256), of_int n]"

text \<open>\<open>x >>> 0\<close>\<close>

definition to_uint32 :: "int \<Rightarrow> int" where
  "to_uint32 n = n mod 4294967296"

definition read16 :: "bytes \<Rightarrow> nat \<Rightarrow> nat" where
  "read16 buf i = 256 * unat (buf ! i) + unat (buf ! (i + 1))"

definition read32 :: "bytes \<Rightarrow> nat \<Rightarrow> nat" where
  "read32 buf i = 65536 * read16 buf i + read16 buf (i + 2)"

lemma unat_byte: "unat (of_int n :: byte) = nat (n mod 256)"
  by (simp add: unsigned_of_int take_bit_eq_mod)

lemma two_bytes:
  assumes "0 \<le> n" "n < 65536"
  shows "256 * nat (n div 256 mod 256) + nat (n mod 256) = nat n"
proof -
  have "n div 256 mod 256 = n div 256" using assms by (intro mod_pos_pos_trivial) auto
  moreover have "0 \<le> n div 256" using assms by simp
  ultimately have "int (256 * nat (n div 256 mod 256) + nat (n mod 256)) = 256 * (n div 256) + n mod 256" by simp
  also have "\<dots> = n" by simp
  finally show ?thesis by linarith
qed

lemma be16_read:
  assumes "be16 n = Inr b"
  shows "length b = 2" "read16 b 0 = nat n" "0 \<le> n" "n < 65536"
proof -
  have n: "0 \<le> n" "n < 65536" and b: "b = [of_int (n div 256), of_int n]"
    using assms by (auto simp: be16_def split: if_splits)
  show "read16 b 0 = nat n" using two_bytes [OF n] by (simp add: b read16_def unat_byte)
  show "length b = 2" "0 \<le> n" "n < 65536" using n b by simp_all
qed

lemma be32_read:
  assumes "0 \<le> n" "n < 4294967296"
  shows "read32 (be32 n) 0 = nat n"
proof -
  let ?h = "n div 65536" and ?l = "n mod 65536"
  have h: "0 \<le> ?h" "?h < 65536" and l: "0 \<le> ?l" "?l < 65536" using assms by auto
  have h': "n div 16777216 = ?h div 256" by (simp add: zdiv_zmult2_eq [symmetric])
  have "n mod (256 * 256) = 256 * (n div 256 mod 256) + n mod 256" by (rule zmod_zmult2_eq) simp
  then have "256 * nat (n div 256 mod 256) + nat (n mod 256) = nat ?l"
    using l by (simp add: nat_add_distrib nat_mult_distrib)
  then have "read32 (be32 n) 0 = 65536 * nat ?h + nat ?l"
    using two_bytes [OF h] by (simp add: be32_def read32_def read16_def unat_byte h')
  also have "int \<dots> = n" using h l by simp
  then have "65536 * nat ?h + nat ?l = nat n" by linarith
  finally show ?thesis .
qed

lemma length_be32 [simp]: "length (be32 n) = 4"
  by (simp add: be32_def)

section \<open>Building a packet\<close>

definition packet_checksum :: "byte \<Rightarrow> bytes \<Rightarrow> bytes \<Rightarrow> int" where
  "packet_checksum pid lenBuf payload =
     (int (unat pid) + sum_list (map (int \<circ> unat) lenBuf) + sum_list (map (int \<circ> unat) payload)) AND 0xFFFF"

definition buildPacket :: "byte \<Rightarrow> bytes \<Rightarrow> int \<Rightarrow> sensor_error + bytes" where
  "buildPacket pid payload address =
     (case be16 (int PACKET_HEADER) of Inl e \<Rightarrow> Inl e | Inr header \<Rightarrow>
      (case be16 (int (length payload) + 2) of Inl e \<Rightarrow> Inl e | Inr lenBuf \<Rightarrow>
       (case be16 (packet_checksum pid lenBuf payload) of Inl e \<Rightarrow> Inl e | Inr ckBuf \<Rightarrow>
          Inr (header @ be32 (to_uint32 address) @ [pid] @ lenBuf @ payload @ ckBuf))))"

section \<open>Parsing\<close>

record parsed_packet =
  pp_address :: nat
  pp_pid :: byte
  pp_payload :: bytes

function find_header :: "bytes \<Rightarrow> nat \<Rightarrow> nat" where
  "find_header buf offset =
     (if offset + 1 < length buf \<and> read16 buf offset \<noteq> PACKET_HEADER then find_header buf (offset + 1) else offset)"
  by pat_completeness auto
termination by (relation "measure (\<lambda>(buf, offset). length buf - offset)") auto

declare find_header.simps [simp del]

definition tryParsePacket :: "bytes \<Rightarrow> nat \<Rightarrow> (parsed_packet \<times> nat) option" where
  "tryParsePacket buf start =
     (let offset = find_header buf start in
      if length buf < offset + 9 then None
      else (let address = read32 buf (offset + 2);
                pid = buf ! (offset + 6);
                len = read16 buf (offset + 7);
                totalSize = 9 + len
            in if length buf < offset + totalSize then None
               else Some (\<lparr> pp_address = address, pp_pid = pid, pp_payload = take (len - 2) (drop (offset + 9) buf) \<rparr>,
                          offset + totalSize)))"

text \<open>The loop of \<open>onData\<close>: packets go to the waiters in the order these registered, and a
  packet no one waits for is dropped.  The loop has no bound of its own.\<close>

partial_function (option) take_packets ::
  "bytes \<Rightarrow> 'w list \<Rightarrow> ('w \<times> parsed_packet) list \<Rightarrow> (bytes \<times> 'w list \<times> ('w \<times> parsed_packet) list) option" where
  "take_packets buf waiters resolved =
     (case tryParsePacket buf 0 of
        None \<Rightarrow> Some (buf, waiters, resolved)
      | Some (packet, nextOffset) \<Rightarrow>
          (case waiters of
             [] \<Rightarrow> take_packets (drop nextOffset buf) [] resolved
           | w # ws \<Rightarrow> take_packets (drop nextOffset buf) ws (resolved @ [(w, packet)])))"

section \<open>What the parser returns\<close>

lemma read16_append: "i + 1 < length buf \<Longrightarrow> read16 (buf @ suf) i = read16 buf i"
  by (simp add: read16_def nth_append)

lemma read32_append: "i + 3 < length buf \<Longrightarrow> read32 (buf @ suf) i = read32 buf i"
  by (simp add: read32_def read16_append)

lemma read16_shift: "read16 (pre @ buf) (length pre + i) = read16 buf i"
  by (simp add: read16_def nth_append)

lemma read32_shift: "read32 (pre @ buf) (length pre + i) = read32 buf i"
  using read16_shift [of pre buf i] read16_shift [of pre buf "i + 2"] by (simp add: read32_def ac_simps)

lemma find_header_ge: "i \<le> find_header buf i"
proof (induction buf i rule: find_header.induct)
  case (1 buf i)
  then show ?case by (subst find_header.simps) (auto intro: order_trans)
qed

lemma find_header_stop: "read16 buf i = PACKET_HEADER \<Longrightarrow> find_header buf i = i"
  by (simp add: find_header.simps)

lemma find_header_append: "find_header buf i + 1 < length buf \<Longrightarrow> find_header (buf @ suf) i = find_header buf i"
proof (induction buf i rule: find_header.induct)
  case (1 buf i)
  show ?case
  proof (cases "i + 1 < length buf \<and> read16 buf i \<noteq> PACKET_HEADER")
    case True
    then have "find_header buf i = find_header buf (i + 1)" by (simp add: find_header.simps [of buf i])
    moreover have "find_header (buf @ suf) i = find_header (buf @ suf) (i + 1)"
      using True by (simp add: find_header.simps [of "buf @ suf" i] read16_append)
    ultimately show ?thesis using 1 True by simp
  next
    case False
    then have "find_header buf i = i" by (subst find_header.simps) (simp only: if_not_P if_False)
    then show ?thesis using False 1(2) by (simp add: find_header_stop read16_append)
  qed
qed

lemma find_header_skip:
  "\<forall>j. i \<le> j \<and> j < k \<longrightarrow> j + 1 < length buf \<and> read16 buf j \<noteq> PACKET_HEADER \<Longrightarrow> i \<le> k \<Longrightarrow>
    find_header buf i = find_header buf k"
proof (induction "k - i" arbitrary: i)
  case (Suc n)
  then have "find_header buf i = find_header buf (i + 1)" by (simp add: find_header.simps [of buf i])
  also have "\<dots> = find_header buf k" using Suc.prems Suc.hyps(2) by (intro Suc.hyps(1)) auto
  finally show ?case .
qed simp

lemma tryParsePacket_bounds:
  "tryParsePacket buf i = Some (p, n) \<Longrightarrow> i + 9 \<le> n \<and> n \<le> length buf"
  using find_header_ge [of i buf] by (auto simp: tryParsePacket_def Let_def split: if_splits)

lemma tryParsePacket_append:
  assumes "tryParsePacket buf i = Some r"
  shows "tryParsePacket (buf @ suf) i = Some r"
proof -
  define off where "off = find_header buf i"
  have off: "find_header buf i = off" "off + 9 \<le> length buf" "off + 9 + read16 buf (off + 7) \<le> length buf"
    using assms by (auto simp: off_def tryParsePacket_def Let_def split: if_splits)
  have "find_header (buf @ suf) i = off" using find_header_append [of buf i suf] off by simp
  moreover have "read16 (buf @ suf) (off + 7) = read16 buf (off + 7)" "read32 (buf @ suf) (off + 2) = read32 buf (off + 2)"
    "(buf @ suf) ! (off + 6) = buf ! (off + 6)"
    using off(2) by (simp_all add: read16_append read32_append nth_append)
  ultimately show ?thesis using assms off
    by (simp add: tryParsePacket_def Let_def drop_append)
qed

section \<open>The packets of a stream of bytes\<close>

text \<open>The reference the loop of \<open>onData\<close> is compared with.\<close>

function packets_of :: "bytes \<Rightarrow> parsed_packet list \<times> bytes" where
  "packets_of buf = (case tryParsePacket buf 0 of
       None \<Rightarrow> ([], buf)
     | Some (p, n) \<Rightarrow> (let (ps, rest) = packets_of (drop n buf) in (p # ps, rest)))"
  by pat_completeness auto
termination
  by (relation "measure length") (auto dest: tryParsePacket_bounds)

declare packets_of.simps [simp del]

lemma packets_of_None: "tryParsePacket buf 0 = None \<Longrightarrow> packets_of buf = ([], buf)"
  by (simp add: packets_of.simps)

lemma packets_of_Some:
  "tryParsePacket buf 0 = Some (p, n) \<Longrightarrow>
    packets_of buf = (p # fst (packets_of (drop n buf)), snd (packets_of (drop n buf)))"
  by (simp add: packets_of.simps [of buf] case_prod_beta)

lemma packets_induct [case_names stuck packet]:
  assumes "\<And>buf. tryParsePacket buf 0 = None \<Longrightarrow> P buf"
    and "\<And>buf p n. tryParsePacket buf 0 = Some (p, n) \<Longrightarrow> 9 \<le> n \<Longrightarrow> n \<le> length buf \<Longrightarrow> P (drop n buf) \<Longrightarrow> P buf"
  shows "P buf"
proof (induction buf rule: measure_induct_rule [where f = length])
  case (less buf)
  show ?case
  proof (cases "tryParsePacket buf 0")
    case None
    then show ?thesis by (rule assms(1))
  next
    case (Some r)
    obtain p n where r: "tryParsePacket buf 0 = Some (p, n)" using Some by (cases r) simp
    have n: "9 \<le> n" "n \<le> length buf" using tryParsePacket_bounds [OF r] by simp_all
    show ?thesis by (rule assms(2) [OF r n]) (rule less.IH, use n in simp)
  qed
qed

lemma packets_of_rest: "tryParsePacket (snd (packets_of buf)) 0 = None"
  by (induction buf rule: packets_induct) (simp_all add: packets_of_None packets_of_Some)

lemma packets_of_append:
  "packets_of (buf @ suf) =
     (fst (packets_of buf) @ fst (packets_of (snd (packets_of buf) @ suf)),
      snd (packets_of (snd (packets_of buf) @ suf)))"
proof (induction buf rule: packets_induct)
  case (packet buf p n)
  then show ?case
    by (simp add: packets_of_Some [OF tryParsePacket_append [OF packet(1)]] packets_of_Some [OF packet(1)])
qed (simp add: packets_of_None)

lemma packets_of_length: "9 * length (fst (packets_of buf)) + length (snd (packets_of buf)) \<le> length buf"
  by (induction buf rule: packets_induct) (auto simp: packets_of_None packets_of_Some)

lemma take_packets_packets_of:
  "take_packets buf ws res =
     Some (snd (packets_of buf), drop (length (fst (packets_of buf))) ws, res @ zip ws (fst (packets_of buf)))"
proof (induction buf arbitrary: ws res rule: packets_induct)
  case (packet buf p n)
  then show ?case by (cases ws) (simp_all add: packets_of_Some take_packets.simps [of buf])
qed (simp add: packets_of_None take_packets.simps)

section \<open>Building and parsing\<close>

definition parsed_form :: "byte \<Rightarrow> bytes \<Rightarrow> int \<Rightarrow> parsed_packet" where
  "parsed_form pid payload address = \<lparr> pp_address = nat (to_uint32 address), pp_pid = pid, pp_payload = payload \<rparr>"

lemma header_bytes: "be16 (int PACKET_HEADER) = Inr [0xEF, 0x01]"
  by (simp add: be16_def PACKET_HEADER_def)

lemma read16_header: "read16 (0xEF # 0x01 # buf) 0 = PACKET_HEADER"
  by (simp add: read16_def PACKET_HEADER_def)

lemma buildPacket_shape:
  assumes "buildPacket pid payload address = Inr pkt"
  obtains lenBuf ck where "pkt = [0xEF, 0x01] @ be32 (to_uint32 address) @ [pid] @ lenBuf @ payload @ ck"
    "length lenBuf = 2" "read16 lenBuf 0 = length payload + 2" "length ck = 2" "length payload < 65534"
proof -
  obtain lenBuf ck where b: "be16 (int (length payload) + 2) = Inr lenBuf" "be16 (packet_checksum pid lenBuf payload) = Inr ck"
    and p: "pkt = [0xEF, 0x01] @ be32 (to_uint32 address) @ [pid] @ lenBuf @ payload @ ck"
    using assms by (auto simp: buildPacket_def header_bytes split: sum.splits)
  show thesis
    by (rule that [OF p]) (use be16_read [OF b(1)] be16_read(1) [OF b(2)] in simp_all)
qed

lemma checksum_in_range: "0 \<le> packet_checksum pid l payload \<and> packet_checksum pid l payload < 65536"
proof -
  have m: "(0xFFFF :: int) = mask 16" by (simp add: mask_eq_exp_minus_1)
  show ?thesis by (simp add: packet_checksum_def m flip: take_bit_eq_mask) (simp add: take_bit_eq_mod)
qed

lemma buildPacket_ok: "length payload < 65534 \<Longrightarrow> \<exists>pkt. buildPacket pid payload address = Inr pkt"
  using checksum_in_range by (simp add: be16_def [of "int (length payload) + 2"] buildPacket_def header_bytes)
    (simp add: be16_def)

lemma parse_frame:
  assumes "length addr = 4" "length lenBuf = 2" "read16 lenBuf 0 = length body"
  shows "tryParsePacket ([0xEF, 0x01] @ addr @ [pid] @ lenBuf @ body @ rest) 0 =
    Some (\<lparr> pp_address = read32 addr 0, pp_pid = pid, pp_payload = take (length body - 2) body \<rparr>, 9 + length body)"
proof -
  let ?buf = "[0xEF, 0x01] @ addr @ [pid] @ lenBuf @ body @ rest"
  have h: "find_header ?buf 0 = 0" by (rule find_header_stop) (simp add: read16_header)
  have "read32 ?buf (length [0xEF :: byte, 0x01] + 0) = read32 (addr @ [pid] @ lenBuf @ body @ rest) 0"
    by (rule read32_shift)
  then have a: "read32 ?buf 2 = read32 addr 0" using assms(1) by (simp add: read32_append numeral_2_eq_2)
  have "read16 (([0xEF, 0x01] @ addr @ [pid]) @ lenBuf @ body @ rest) (length ([0xEF, 0x01] @ addr @ [pid]) + 0) =
      read16 (lenBuf @ body @ rest) 0" by (rule read16_shift)
  then have l: "read16 ?buf 7 = length body" using assms by (simp add: read16_append)
  have p: "?buf ! 6 = pid" using assms(1) by (simp add: nth_append)
  have d: "drop 9 ?buf = body @ rest" using assms(1,2) by simp
  have n: "9 + length body \<le> length ?buf" using assms(1,2) by simp
  show ?thesis using h a l p d n by (simp only: tryParsePacket_def Let_def h add_0 l a p d) simp
qed

lemma parse_build:
  assumes "buildPacket pid payload address = Inr pkt"
  shows "tryParsePacket (pkt @ rest) 0 = Some (parsed_form pid payload address, length pkt)"
proof -
  obtain lenBuf ck where s: "pkt = [0xEF, 0x01] @ be32 (to_uint32 address) @ [pid] @ lenBuf @ payload @ ck"
    "length lenBuf = 2" "read16 lenBuf 0 = length payload + 2" "length ck = 2"
    by (rule buildPacket_shape [OF assms])
  have "read32 (be32 (to_uint32 address)) 0 = nat (to_uint32 address)"
    by (rule be32_read) (simp_all add: to_uint32_def)
  then show ?thesis
    using parse_frame [of "be32 (to_uint32 address)" lenBuf "payload @ ck" pid rest] s
    by (simp add: parsed_form_def)
qed

lemma parse_partial:
  assumes "buildPacket pid payload address = Inr pkt" "k < length pkt"
  shows "tryParsePacket (take k pkt) 0 = None"
proof (rule ccontr)
  assume "tryParsePacket (take k pkt) 0 \<noteq> None"
  then obtain p n where r: "tryParsePacket (take k pkt) 0 = Some (p, n)" by auto
  have "tryParsePacket (take k pkt @ drop k pkt) 0 = Some (p, n)" by (rule tryParsePacket_append [OF r])
  then have "n = length pkt" using parse_build [OF assms(1), of "[]"] by simp
  then show False using tryParsePacket_bounds [OF r] assms(2) by simp
qed

lemma packets_of_build:
  "buildPacket pid payload address = Inr pkt \<Longrightarrow>
    packets_of (pkt @ rest) = (parsed_form pid payload address # fst (packets_of rest), snd (packets_of rest))"
  using packets_of_Some [OF parse_build] by simp

end
