(* ===== verification/Sensor.thy ===== *)
theory Sensor
  imports Sensor_Codec
begin

text \<open>
  The driver of the fingerprint sensor, second half of \<open>iot/src/sensor.ts\<close>.  The port and
  the sensor are outside the repository; the state holds the list of the events the process will
  see next (a chunk of bytes, the completion or failure of a write, a timer, an error of the port) and
  the packets written so far.  When the list is exhausted nothing else arrives: a pending write
  completes and a pending read times out.  That a write completes is an assumption on the port: \<open>writeRaw\<close>
  has no time limit, and a port that never calls back would leave its promise pending for ever.  The methods run one after the other, so at most one reader
  waits at a time; bytes that arrive while none waits are still parsed, and their packets dropped.
\<close>

section \<open>State\<close>

datatype wire_event = Chunk bytes | Written | WriteFails string | TimerFires | PortError string

record driver =
  dr_buffer :: bytes
  dr_wire :: "wire_event list"
  dr_written :: "bytes list"

record driver_config =
  dc_address :: int
  dc_password :: int
  dc_finger_timeout :: time_ms

type_synonym 'a driven = "driver \<Rightarrow> (sensor_error + 'a) \<times> driver"

definition and_then :: "'a driven \<Rightarrow> ('a \<Rightarrow> 'b driven) \<Rightarrow> 'b driven" where
  "and_then m f d = (case m d of (Inl e, d') \<Rightarrow> (Inl e, d') | (Inr x, d') \<Rightarrow> f x d')"

definition lift_result :: "sensor_error + 'a \<Rightarrow> 'a driven" where
  "lift_result r d = (r, d)"

section \<open>Receiving\<close>

definition onData :: "bytes \<Rightarrow> 'w list \<Rightarrow> bytes \<Rightarrow> bytes \<times> 'w list \<times> ('w \<times> parsed_packet) list" where
  "onData chunk waiters buffer = (case take_packets (buffer @ chunk) waiters [] of
       None \<Rightarrow> (buffer, waiters, []) | Some r \<Rightarrow> r)"

fun settle_write :: "wire_event list \<Rightarrow> bytes \<Rightarrow> (sensor_error + unit) \<times> bytes \<times> wire_event list" where
  "settle_write [] buf = (Inr (), buf, [])"
| "settle_write (Written # es) buf = (Inr (), buf, es)"
| "settle_write (WriteFails m # es) buf = (Inl (WriteFailure m), buf, es)"
| "settle_write (Chunk b # es) buf = settle_write es (fst (onData b ([] :: unit list) buf))"
| "settle_write (TimerFires # es) buf = settle_write es buf"
| "settle_write (PortError m # es) buf = settle_write es buf"

definition writeRaw :: "bytes \<Rightarrow> unit driven" where
  "writeRaw buf d = (case settle_write (dr_wire d) (dr_buffer d) of (r, b, es) \<Rightarrow>
     (r, d\<lparr>dr_buffer := b, dr_wire := es, dr_written := dr_written d @ [buf]\<rparr>))"

fun await_packet :: "wire_event list \<Rightarrow> bytes \<Rightarrow> (sensor_error + parsed_packet) \<times> bytes \<times> wire_event list" where
  "await_packet [] buf = (Inl PacketTimeout, buf, [])"
| "await_packet (Chunk b # es) buf = (case onData b [()] buf of
       (buf', _, []) \<Rightarrow> await_packet es buf'
     | (buf', _, (_, p) # _) \<Rightarrow> (Inr p, buf', es))"
| "await_packet (TimerFires # es) buf = (Inl PacketTimeout, buf, es)"
| "await_packet (PortError m # es) buf = (Inl (PortFailure m), buf, es)"
| "await_packet (Written # es) buf = await_packet es buf"
| "await_packet (WriteFails m # es) buf = await_packet es buf"

definition readPacket :: "parsed_packet driven" where
  "readPacket d = (case await_packet (dr_wire d) (dr_buffer d) of (r, b, es) \<Rightarrow>
     (r, d\<lparr>dr_buffer := b, dr_wire := es\<rparr>))"

section \<open>Commands\<close>

definition send_packet :: "driver_config \<Rightarrow> byte \<Rightarrow> bytes \<Rightarrow> unit driven" where
  "send_packet cfg pid payload d = (case buildPacket pid payload (dc_address cfg) of
       Inl e \<Rightarrow> (Inl e, d) | Inr pkt \<Rightarrow> writeRaw pkt d)"

definition cmd :: "driver_config \<Rightarrow> byte \<Rightarrow> bytes \<Rightarrow> bytes driven" where
  "cmd cfg opcode args =
     and_then (send_packet cfg PID_COMMAND (opcode # args)) (\<lambda>_.
     and_then readPacket (\<lambda>ack.
       if pp_pid ack \<noteq> PID_ACK then lift_result (Inl (UnexpectedPid (pp_pid ack)))
       else lift_result (Inr (pp_payload ack))))"

text \<open>\<open>ack.readUInt8(i)\<close>, \<open>readUInt16BE\<close> and \<open>readUInt32BE\<close>: past the end they throw.\<close>

definition ack8 :: "bytes \<Rightarrow> nat \<Rightarrow> nat driven" where
  "ack8 ack i = lift_result (if i < length ack then Inr (unat (ack ! i)) else Inl RangeError)"

definition ack16 :: "bytes \<Rightarrow> nat \<Rightarrow> nat driven" where
  "ack16 ack i = lift_result (if i + 1 < length ack then Inr (read16 ack i) else Inl RangeError)"

definition ack32 :: "bytes \<Rightarrow> nat \<Rightarrow> nat driven" where
  "ack32 ack i = lift_result (if i + 3 < length ack then Inr (read32 ack i) else Inl RangeError)"

definition args_of :: "(sensor_error + bytes) list \<Rightarrow> bytes driven" where
  "args_of parts = lift_result (foldr (\<lambda>f acc. case f of Inl e \<Rightarrow> Inl e
      | Inr b \<Rightarrow> (case acc of Inl e \<Rightarrow> Inl e | Inr bs \<Rightarrow> Inr (b @ bs))) parts (Inr []))"

text \<open>Codes of \<open>CMD\<close> and \<open>CONF\<close> the driver uses.\<close>

definition CONF_OK :: nat where "CONF_OK = 0x00"
definition CONF_NO_FINGER :: nat where "CONF_NO_FINGER = 0x02"
definition CONF_NOT_MATCH :: nat where "CONF_NOT_MATCH = 0x08"
definition CONF_NO_MATCH_FOUND :: nat where "CONF_NO_MATCH_FOUND = 0x09"

lemmas conf_defs = CONF_OK_def CONF_NO_FINGER_def CONF_NOT_MATCH_def CONF_NO_MATCH_FOUND_def

definition expect_ok :: "string \<Rightarrow> bytes \<Rightarrow> unit driven" where
  "expect_ok name ack = and_then (ack8 ack 0) (\<lambda>conf.
     if conf \<noteq> CONF_OK then lift_result (Inl (BadConfirmation name conf)) else lift_result (Inr ()))"

definition verifyModulePassword :: "driver_config \<Rightarrow> bool driven" where
  "verifyModulePassword cfg = and_then (cmd cfg 0x13 (be32 (to_uint32 (dc_password cfg)))) (\<lambda>ack.
     and_then (ack8 ack 0) (\<lambda>conf. lift_result (Inr (conf = CONF_OK))))"

record system_params =
  sp_status_register :: nat
  sp_system_identifier :: nat
  sp_template_library_size :: nat
  sp_security_level :: nat
  sp_device_address :: nat
  sp_packet_size :: int
  sp_baud_rate :: nat

text \<open>\<open>32 << n\<close> shifts a 32-bit integer by the low five bits of the count.\<close>

definition shifted_32 :: "nat \<Rightarrow> int" where
  "shifted_32 n = sint (push_bit (n mod 32) (32 :: 32 word))"

definition getSystemParams :: "driver_config \<Rightarrow> system_params driven" where
  "getSystemParams cfg = and_then (cmd cfg 0x0F []) (\<lambda>ack.
     and_then (expect_ok ''get_sys_params'' ack) (\<lambda>_.
     and_then (ack16 ack 1) (\<lambda>status. and_then (ack16 ack 3) (\<lambda>ident.
     and_then (ack16 ack 5) (\<lambda>size. and_then (ack16 ack 7) (\<lambda>level.
     and_then (ack32 ack 9) (\<lambda>address. and_then (ack16 ack 13) (\<lambda>packet.
     and_then (ack16 ack 15) (\<lambda>baud.
       lift_result (Inr \<lparr> sp_status_register = status, sp_system_identifier = ident,
         sp_template_library_size = size, sp_security_level = level, sp_device_address = address,
         sp_packet_size = shifted_32 packet, sp_baud_rate = baud * 9600 \<rparr>))))))))))"

definition getTemplateCount :: "driver_config \<Rightarrow> nat driven" where
  "getTemplateCount cfg = and_then (cmd cfg 0x1D []) (\<lambda>ack.
     and_then (expect_ok ''template_count'' ack) (\<lambda>_. ack16 ack 1))"

definition page_slots :: "nat \<Rightarrow> bytes \<Rightarrow> nat list" where
  "page_slots page bitmap = concat (map (\<lambda>byteIdx.
     map (\<lambda>bitIdx. page * 256 + byteIdx * 8 + bitIdx)
       (filter (\<lambda>bitIdx. drop_bit bitIdx (bitmap ! byteIdx) AND 1 \<noteq> 0) [0..<8])) [0..<length bitmap])"

fun index_pages :: "driver_config \<Rightarrow> nat list \<Rightarrow> nat list \<Rightarrow> nat list driven" where
  "index_pages cfg [] slots = lift_result (Inr slots)"
| "index_pages cfg (page # pages) slots =
     and_then (cmd cfg 0x1F [of_nat page]) (\<lambda>ack.
     and_then (expect_ok ''read_index_table'' ack) (\<lambda>_.
       index_pages cfg pages (slots @ page_slots page (drop 1 ack))))"

definition readIndexTable :: "driver_config \<Rightarrow> nat \<Rightarrow> nat list driven" where
  "readIndexTable cfg librarySize = index_pages cfg [0..<(librarySize + 255) div 256] []"

section \<open>Fingers\<close>

text \<open>\<open>clock k\<close> is the \<open>k\<close>-th reading of \<open>Date.now()\<close> in the call: the first gives the
  deadline, the others are compared with it.  The pauses of 200 and 150 ms between two tries are time that
  passes outside the driver: they appear as what a theorem supposes of the clock, not in the loop.\<close>

partial_function (option) finger_loop ::
  "driver_config \<Rightarrow> (nat \<Rightarrow> time_ms) \<Rightarrow> time_ms \<Rightarrow> nat \<Rightarrow> driver \<Rightarrow> ((sensor_error + unit) \<times> driver) option" where
  "finger_loop cfg clock deadline k d =
     (if \<not> clock k < deadline then Some (Inl FingerNotDetected, d)
      else (case and_then (cmd cfg 0x01 []) (\<lambda>ack. ack8 ack 0) d of
          (Inl e, d') \<Rightarrow> Some (Inl e, d')
        | (Inr conf, d') \<Rightarrow>
            if conf = CONF_OK then Some (Inr (), d')
            else if conf = CONF_NO_FINGER then finger_loop cfg clock deadline (k + 1) d'
            else Some (Inl (BadConfirmation ''get_image'' conf), d')))"

definition waitForFinger ::
  "driver_config \<Rightarrow> (nat \<Rightarrow> time_ms) \<Rightarrow> driver \<Rightarrow> ((sensor_error + unit) \<times> driver) option" where
  "waitForFinger cfg clock d = finger_loop cfg clock (clock 0 + dc_finger_timeout cfg) 1 d"

partial_function (option) removal_loop ::
  "driver_config \<Rightarrow> (nat \<Rightarrow> time_ms) \<Rightarrow> time_ms \<Rightarrow> nat \<Rightarrow> driver \<Rightarrow> ((sensor_error + unit) \<times> driver) option" where
  "removal_loop cfg clock deadline k d =
     (if \<not> clock k < deadline then Some (Inl FingerNotRemoved, d)
      else (case and_then (cmd cfg 0x01 []) (\<lambda>ack. ack8 ack 0) d of
          (Inl e, d') \<Rightarrow> Some (Inl e, d')
        | (Inr conf, d') \<Rightarrow>
            if conf = CONF_NO_FINGER then Some (Inr (), d')
            else removal_loop cfg clock deadline (k + 1) d'))"

definition waitForFingerRemoval ::
  "driver_config \<Rightarrow> (nat \<Rightarrow> time_ms) \<Rightarrow> driver \<Rightarrow> ((sensor_error + unit) \<times> driver) option" where
  "waitForFingerRemoval cfg clock d = removal_loop cfg clock (clock 0 + dc_finger_timeout cfg) 1 d"

section \<open>Templates\<close>

definition simple_cmd :: "driver_config \<Rightarrow> string \<Rightarrow> byte \<Rightarrow> bytes \<Rightarrow> unit driven" where
  "simple_cmd cfg name opcode args = and_then (cmd cfg opcode args) (expect_ok name)"

definition imageToCharBuffer :: "driver_config \<Rightarrow> byte \<Rightarrow> unit driven" where
  "imageToCharBuffer cfg buffer = simple_cmd cfg ''img_to_tz'' 0x02 [buffer]"

definition combineToTemplate :: "driver_config \<Rightarrow> unit driven" where
  "combineToTemplate cfg = simple_cmd cfg ''reg_model'' 0x05 []"

definition storeTemplate :: "driver_config \<Rightarrow> int \<Rightarrow> byte \<Rightarrow> unit driven" where
  "storeTemplate cfg slot buffer = and_then (args_of [Inr [buffer], be16 slot]) (simple_cmd cfg ''store'' 0x06)"

definition search :: "driver_config \<Rightarrow> int \<Rightarrow> int \<Rightarrow> byte \<Rightarrow> (nat \<times> nat) option driven" where
  "search cfg startSlot cnt buffer = and_then (args_of [Inr [buffer], be16 startSlot, be16 cnt]) (\<lambda>args.
     and_then (cmd cfg 0x04 args) (\<lambda>ack.
     and_then (ack8 ack 0) (\<lambda>conf.
       if conf = CONF_NO_MATCH_FOUND then lift_result (Inr None)
       else if conf \<noteq> CONF_OK then lift_result (Inl (BadConfirmation ''search'' conf))
       else and_then (ack16 ack 1) (\<lambda>pageId. and_then (ack16 ack 3) (\<lambda>score.
          lift_result (Inr (Some (pageId, score))))))))"

lemma settle_write_consumes: "length (snd (snd (settle_write es buf))) \<le> length es"
  by (induction es buf rule: settle_write.induct) auto

lemma await_packet_consumes: "await_packet es buf = (Inr p, buf', es') \<Longrightarrow> length es' < length es"
  by (induction es buf rule: await_packet.induct)
    (fastforce split: prod.splits list.splits)+

lemma readPacket_consumes: "readPacket d = (Inr p, d') \<Longrightarrow> length (dr_wire d') < length (dr_wire d)"
  by (auto simp: readPacket_def dest: await_packet_consumes split: prod.splits)

text \<open>The loop \<open>while (true)\<close> of the upload.\<close>

function upload_loop :: "bytes list \<Rightarrow> bytes driven" where
  "upload_loop chunks d = (case readPacket d of
       (Inl e, d') \<Rightarrow> (Inl e, d')
     | (Inr pkt, d') \<Rightarrow>
         if pp_pid pkt \<noteq> PID_DATA \<and> pp_pid pkt \<noteq> PID_END_DATA then (Inl (UnexpectedPid (pp_pid pkt)), d')
         else if pp_pid pkt = PID_END_DATA then (Inr (concat (chunks @ [pp_payload pkt])), d')
         else upload_loop (chunks @ [pp_payload pkt]) d')"
  by pat_completeness auto
termination
  by (relation "measure (\<lambda>(chunks, d). length (dr_wire d))") (auto dest: sym [THEN readPacket_consumes])

declare upload_loop.simps [simp del]

definition uploadCharacteristic :: "driver_config \<Rightarrow> byte \<Rightarrow> bytes driven" where
  "uploadCharacteristic cfg buffer = and_then (simple_cmd cfg ''up_char'' 0x08 [buffer]) (\<lambda>_. upload_loop [])"

fun send_chunks :: "driver_config \<Rightarrow> bytes \<Rightarrow> nat \<Rightarrow> nat \<Rightarrow> nat list \<Rightarrow> unit driven" where
  "send_chunks cfg data packetSize chunks [] = lift_result (Inr ())"
| "send_chunks cfg data packetSize chunks (i # rest) =
     and_then (send_packet cfg (if i + 1 = chunks then PID_END_DATA else PID_DATA)
       (take packetSize (drop (i * packetSize) data))) (\<lambda>_. send_chunks cfg data packetSize chunks rest)"

definition downloadCharacteristic :: "driver_config \<Rightarrow> byte \<Rightarrow> bytes \<Rightarrow> nat \<Rightarrow> unit driven" where
  "downloadCharacteristic cfg buffer data packetSize =
     (if data = [] then lift_result (Inl EmptyData)
      else if packetSize = 0 \<or> length data mod packetSize \<noteq> 0 then lift_result (Inl UnalignedData)
      else and_then (simple_cmd cfg ''down_char'' 0x09 [buffer]) (\<lambda>_.
        send_chunks cfg data packetSize (length data div packetSize) [0..<length data div packetSize]))"

definition match_templates :: "driver_config \<Rightarrow> nat option driven" where
  "match_templates cfg = and_then (cmd cfg 0x03 []) (\<lambda>ack.
     and_then (ack8 ack 0) (\<lambda>conf.
       if conf = CONF_NOT_MATCH then lift_result (Inr None)
       else if conf \<noteq> CONF_OK then lift_result (Inl (BadConfirmation ''match'' conf))
       else and_then (ack16 ack 1) (\<lambda>score. lift_result (Inr (Some score)))))"

definition deleteTemplate :: "driver_config \<Rightarrow> int \<Rightarrow> unit driven" where
  "deleteTemplate cfg slot = and_then (args_of [be16 slot, be16 1]) (simple_cmd cfg ''delete'' 0x0C)"

definition emptyDatabase :: "driver_config \<Rightarrow> unit driven" where
  "emptyDatabase cfg = simple_cmd cfg ''empty'' 0x0D []"

definition getRandom :: "driver_config \<Rightarrow> nat driven" where
  "getRandom cfg = and_then (cmd cfg 0x14 []) (\<lambda>ack.
     and_then (expect_ok ''get_random'' ack) (\<lambda>_. ack32 ack 1))"

section \<open>Receiving is independent of how the bytes are cut\<close>

lemma onData_packets:
  "onData chunk ws buf = (let (ps, rest) = packets_of (buf @ chunk) in (rest, drop (length ps) ws, zip ws ps))"
  by (simp add: onData_def take_packets_packets_of case_prod_beta)

lemma and_then_Inr: "m d = (Inr x, d') \<Longrightarrow> and_then m f d = f x d'"
  by (simp add: and_then_def)

lemma and_then_Inl: "m d = (Inl e, d') \<Longrightarrow> and_then m f d = (Inl e, d')"
  by (simp add: and_then_def)

lemma lift_result_app [simp]: "lift_result r d = (r, d)"
  by (simp add: lift_result_def)

fun feed :: "bytes list \<Rightarrow> 'w list \<Rightarrow> bytes \<Rightarrow> bytes \<times> 'w list \<times> ('w \<times> parsed_packet) list" where
  "feed [] ws buf = (buf, ws, [])"
| "feed (c # cs) ws buf = (case onData c ws buf of (buf', ws', got) \<Rightarrow>
     (case feed cs ws' buf' of (buf'', ws'', got') \<Rightarrow> (buf'', ws'', got @ got')))"

lemma zip_take_length: "zip (take (length ps) ws) ps = zip ws ps"
  by (induction ps arbitrary: ws) (simp, case_tac ws, simp_all)

lemma feed_packets:
  "tryParsePacket buf 0 = None \<Longrightarrow> feed cs (ws :: 'w list) buf =
     (let (ps, rest) = packets_of (buf @ concat cs) in (rest, drop (length ps) ws, zip ws ps))"
proof (induction cs arbitrary: ws buf)
  case Nil
  then show ?case by (simp add: packets_of_None)
next
  case (Cons c cs)
  let ?r = "snd (packets_of (buf @ c))"
  have "feed cs ws' ?r = (let (ps, rest) = packets_of (?r @ concat cs) in (rest, drop (length ps) ws', zip ws' ps))" for ws' :: "'w list"
    by (rule Cons.IH) (rule packets_of_rest)
  moreover have "packets_of (buf @ c @ concat cs) = (fst (packets_of (buf @ c)) @ fst (packets_of (?r @ concat cs)), snd (packets_of (?r @ concat cs)))"
    using packets_of_append [of "buf @ c" "concat cs"] by simp
  ultimately show ?case by (simp add: onData_packets case_prod_beta zip_append2 drop_take)
     (simp add: add.commute zip_take_length)
qed

lemma packets_of_stream:
  "list_all2 (\<lambda>(pid, payload) pkt. buildPacket pid payload address = Inr pkt) specs pkts \<Longrightarrow>
    packets_of (concat pkts @ rest) = (map (\<lambda>(pid, payload). parsed_form pid payload address) specs @ fst (packets_of rest), snd (packets_of rest))"
  by (induction specs pkts rule: list_all2_induct) (auto simp: packets_of_build)

lemma packets_of_empty: "packets_of [] = ([], [])" "tryParsePacket [] 0 = None"
  by (simp_all add: packets_of_None tryParsePacket_def find_header.simps)

text \<open>Property C30.  A stream of packets built by \<open>buildPacket\<close>, cut into chunks at any places, is parsed packet
  by packet, and nothing stays in the buffer.  Whatever waiters are registered when the stream
  starts, they are given the packets in order, one each, with the pid, the payload and the address
  (as an unsigned 32-bit number) the packet was built from; the packets beyond the waiters are
  consumed and given to nobody.  The driver's own commands register at most one waiter at a time.\<close>

theorem sensor_stream_received:
  assumes "list_all2 (\<lambda>(pid, payload) pkt. buildPacket pid payload address = Inr pkt) specs pkts"
    and "concat chunks = concat pkts"
  shows "feed chunks ws [] =
    ([], drop (length specs) ws, zip ws (map (\<lambda>(pid, payload). parsed_form pid payload address) specs))"
  using packets_of_stream [OF assms(1), of "[]"] feed_packets [of "[]" chunks ws] assms(2)
  by (simp add: packets_of_empty)

text \<open>Three acknowledgements in four chunks: two waiters are served and the third packet is lost.\<close>

theorem sensor_stream_received_witness:
  "feed [[0xEF, 0x01, 0xFF, 0xFF], [0xFF, 0xFF, 0x07, 0x00], [0x03, 0x00, 0x00, 0x0A, 0xEF],
       [0x01, 0xFF, 0xFF, 0xFF, 0xFF, 0x07, 0x00, 0x03, 0x00, 0x00, 0x0A, 0xEF, 0x01, 0xFF, 0xFF, 0xFF, 0xFF, 0x07, 0x00,
        0x03, 0x00, 0x00, 0x0A]] [''v'', ''w''] [] =
     ([], [], [(''v'', \<lparr> pp_address = 0xFFFFFFFF, pp_pid = PID_ACK, pp_payload = [0] \<rparr>),
       (''w'', \<lparr> pp_address = 0xFFFFFFFF, pp_pid = PID_ACK, pp_payload = [0] \<rparr>)])"
proof -
  have b: "buildPacket PID_ACK [0] DEFAULT_ADDRESS =
      Inr [0xEF, 0x01, 0xFF, 0xFF, 0xFF, 0xFF, 0x07, 0x00, 0x03, 0x00, 0x00, 0x0A]"
    by (simp add: buildPacket_def header_bytes be16_def be32_def to_uint32_def DEFAULT_ADDRESS_def PID_ACK_def packet_checksum_def PACKET_HEADER_def)
  show ?thesis
    by (subst sensor_stream_received [where specs = "replicate 3 (PID_ACK, [0])" and address = DEFAULT_ADDRESS and
          pkts = "replicate 3 [0xEF, 0x01, 0xFF, 0xFF, 0xFF, 0xFF, 0x07, 0x00, 0x03, 0x00, 0x00, 0x0A]"])
      (simp_all add: b [unfolded DEFAULT_ADDRESS_def] parsed_form_def to_uint32_def DEFAULT_ADDRESS_def numeral_3_eq_3)
qed

text \<open>The loop of \<open>onData\<close> ends: it stops at a buffer that holds no complete packet, after at
  most one round per nine bytes.\<close>

theorem onData_loop_returns:
  "\<exists>ps rest. take_packets buf ws res = Some (rest, drop (length ps) ws, res @ zip ws ps) \<and>
     tryParsePacket rest 0 = None \<and> 9 * length ps + length rest \<le> length buf"
  using take_packets_packets_of packets_of_rest packets_of_length by blast

section \<open>Waiting for a finger ends\<close>

lemma settle_write_ok: "settle_write es buf = (r, buf', es') \<Longrightarrow> r \<noteq> Inl FingerNotDetected \<and> r \<noteq> Inl FingerNotRemoved"
  by (induction es buf rule: settle_write.induct) auto

lemma writeRaw_written: "writeRaw b d = (r, d') \<Longrightarrow> dr_written d' = dr_written d @ [b]"
  by (auto simp: writeRaw_def split: prod.splits)

lemma readPacket_written: "readPacket d = (r, d') \<Longrightarrow> dr_written d' = dr_written d"
  by (auto simp: readPacket_def split: prod.splits)

lemma send_packet_written:
  "send_packet cfg pid payload d = (r, d') \<Longrightarrow> length (dr_written d') \<le> Suc (length (dr_written d))"
  by (auto simp: send_packet_def dest: writeRaw_written split: sum.splits)

lemma cmd_written: "cmd cfg op args d = (r, d') \<Longrightarrow> length (dr_written d') \<le> Suc (length (dr_written d))"
  by (auto simp: cmd_def and_then_def dest: send_packet_written readPacket_written split: prod.splits sum.splits if_splits)
    (metis send_packet_written readPacket_written)+

lemma get_image_written:
  "and_then (cmd cfg 0x01 []) (\<lambda>ack. ack8 ack 0) d = (r, d') \<Longrightarrow> length (dr_written d') \<le> Suc (length (dr_written d))"
  by (auto simp: and_then_def ack8_def dest: cmd_written split: prod.splits sum.splits)

lemma finger_loop_returns:
  assumes step: "\<And>k. 1 \<le> k \<Longrightarrow> clock k + 200 \<le> clock (k + 1)"
  shows "1 \<le> k \<Longrightarrow> \<exists>r d'. finger_loop cfg clock deadline k d = Some (r, d') \<and>
    length (dr_written d') \<le> length (dr_written d) + nat ((deadline - clock k + 199) div 200)"
proof (induction "nat (deadline - clock k)" arbitrary: k d rule: less_induct)
  case less
  show ?case
  proof (cases "clock k < deadline")
    case False
    then show ?thesis by (simp add: finger_loop.simps)
  next
    case True
    obtain r d1 where r: "and_then (cmd cfg 0x01 []) (\<lambda>ack. ack8 ack 0) d = (r, d1)" by fastforce
    have w: "length (dr_written d1) \<le> Suc (length (dr_written d))" by (rule get_image_written [OF r])
    have s: "clock k + 200 \<le> clock (k + 1)" by (rule step [OF less.prems])
    have n: "1 + nat ((deadline - clock (k + 1) + 199) div 200) \<le> nat ((deadline - clock k + 199) div 200)"
      using True s by linarith
    show ?thesis
    proof (cases "r = Inr CONF_NO_FINGER")
      case True' : True
      have "finger_loop cfg clock deadline k d = finger_loop cfg clock deadline (k + 1) d1"
        using True True' r by (subst finger_loop.simps) (simp add: conf_defs)
      moreover have "\<exists>r d'. finger_loop cfg clock deadline (k + 1) d1 = Some (r, d') \<and>
          length (dr_written d') \<le> length (dr_written d1) + nat ((deadline - clock (k + 1) + 199) div 200)"
        by (rule less.hyps) (use True s in auto)
      ultimately show ?thesis using w n by fastforce
    next
      case False
      then have "\<exists>r'. finger_loop cfg clock deadline k d = Some (r', d1)"
        using True r by (subst finger_loop.simps) (auto split: sum.splits)
      then show ?thesis using w n by fastforce
    qed
  qed
qed

lemma removal_loop_returns:
  assumes step: "\<And>k. 1 \<le> k \<Longrightarrow> clock k + 150 \<le> clock (k + 1)"
  shows "1 \<le> k \<Longrightarrow> \<exists>r d'. removal_loop cfg clock deadline k d = Some (r, d') \<and>
    length (dr_written d') \<le> length (dr_written d) + nat ((deadline - clock k + 149) div 150)"
proof (induction "nat (deadline - clock k)" arbitrary: k d rule: less_induct)
  case less
  show ?case
  proof (cases "clock k < deadline")
    case False
    then show ?thesis by (simp add: removal_loop.simps)
  next
    case True
    obtain r d1 where r: "and_then (cmd cfg 0x01 []) (\<lambda>ack. ack8 ack 0) d = (r, d1)" by fastforce
    have w: "length (dr_written d1) \<le> Suc (length (dr_written d))" by (rule get_image_written [OF r])
    have s: "clock k + 150 \<le> clock (k + 1)" by (rule step [OF less.prems])
    have n: "1 + nat ((deadline - clock (k + 1) + 149) div 150) \<le> nat ((deadline - clock k + 149) div 150)"
      using True s by linarith
    show ?thesis
    proof (cases "\<exists>conf. r = Inr conf \<and> conf \<noteq> CONF_NO_FINGER")
      case True' : True
      have "removal_loop cfg clock deadline k d = removal_loop cfg clock deadline (k + 1) d1"
        using True True' r by (subst removal_loop.simps) auto
      moreover have "\<exists>r d'. removal_loop cfg clock deadline (k + 1) d1 = Some (r, d') \<and>
          length (dr_written d') \<le> length (dr_written d1) + nat ((deadline - clock (k + 1) + 149) div 150)"
        by (rule less.hyps) (use True s in auto)
      ultimately show ?thesis using w n by fastforce
    next
      case False
      then have "\<exists>r'. removal_loop cfg clock deadline k d = Some (r', d1)"
        using True r by (subst removal_loop.simps) (auto split: sum.splits)
      then show ?thesis using w n by fastforce
    qed
  qed
qed

text \<open>Property C31.  Waiting for a finger, or for its removal, always returns, whatever the sensor answers: when
  each round sleeps its 200 or 150 milliseconds, at most one image is requested for each such
  interval of the finger timeout.\<close>

theorem finger_waits_return:
  assumes "clock 0 \<le> clock 1" and "\<And>k. 1 \<le> k \<Longrightarrow> clock k + 200 \<le> clock (k + 1)"
    and "clock' 0 \<le> clock' 1" and "\<And>k. 1 \<le> k \<Longrightarrow> clock' k + 150 \<le> clock' (k + 1)"
  shows "(\<exists>r d'. waitForFinger cfg clock d = Some (r, d') \<and>
      length (dr_written d') \<le> length (dr_written d) + nat ((dc_finger_timeout cfg + 199) div 200)) \<and>
    (\<exists>r d'. waitForFingerRemoval cfg clock' d = Some (r, d') \<and>
      length (dr_written d') \<le> length (dr_written d) + nat ((dc_finger_timeout cfg + 149) div 150))"
proof (intro conjI)
  have "nat ((clock 0 + dc_finger_timeout cfg - clock 1 + 199) div 200) \<le> nat ((dc_finger_timeout cfg + 199) div 200)"
    by (intro nat_mono zdiv_mono1) (use assms(1) in simp_all)
  with finger_loop_returns [of clock 1 cfg "clock 0 + dc_finger_timeout cfg" d] assms(2)
  show "\<exists>r d'. waitForFinger cfg clock d = Some (r, d') \<and>
      length (dr_written d') \<le> length (dr_written d) + nat ((dc_finger_timeout cfg + 199) div 200)"
    by (fastforce simp: waitForFinger_def)
  have "nat ((clock' 0 + dc_finger_timeout cfg - clock' 1 + 149) div 150) \<le> nat ((dc_finger_timeout cfg + 149) div 150)"
    by (intro nat_mono zdiv_mono1) (use assms(3) in simp_all)
  with removal_loop_returns [of clock' 1 cfg "clock' 0 + dc_finger_timeout cfg" d] assms(4)
  show "\<exists>r d'. waitForFingerRemoval cfg clock' d = Some (r, d') \<and>
      length (dr_written d') \<le> length (dr_written d) + nat ((dc_finger_timeout cfg + 149) div 150)"
    by (fastforce simp: waitForFingerRemoval_def)
qed

definition demo_driver :: "wire_event list \<Rightarrow> driver" where
  "demo_driver es = \<lparr> dr_buffer = [], dr_wire = es, dr_written = [] \<rparr>"

definition demo_sensor :: driver_config where
  "demo_sensor = \<lparr> dc_address = DEFAULT_ADDRESS, dc_password = DEFAULT_PASSWORD, dc_finger_timeout = 400 \<rparr>"

theorem finger_waits_return_witness:
  "(\<exists>r d'. waitForFinger demo_sensor (\<lambda>k. 200 * int k) (demo_driver []) = Some (r, d') \<and> length (dr_written d') \<le> 2) \<and>
   (\<exists>r d'. waitForFingerRemoval demo_sensor (\<lambda>k. 200 * int k) (demo_driver []) = Some (r, d') \<and> length (dr_written d') \<le> 3)"
  using finger_waits_return [of "\<lambda>k. 200 * int k" "\<lambda>k. 200 * int k" demo_sensor "demo_driver []"]
  by (simp add: demo_driver_def demo_sensor_def numeral_2_eq_2 numeral_3_eq_3)

section \<open>Templates travel whole when packets arrive apart\<close>

text \<open>One packet, cut into non-empty chunks that end where it ends.\<close>

definition cut :: "bytes list \<Rightarrow> bytes \<Rightarrow> bool" where
  "cut cs pkt \<longleftrightarrow> concat cs = pkt \<and> (\<forall>c \<in> set cs. c \<noteq> [])"

lemma onData_partial:
  assumes "buildPacket pid payload address = Inr pkt" "buf @ c = take k pkt" "k < length pkt"
  shows "onData c ws buf = (buf @ c, ws, [])"
  using parse_partial [OF assms(1,3)] assms(2) by (simp add: onData_packets packets_of_None)

lemma onData_complete:
  assumes "buildPacket pid payload address = Inr pkt" "buf @ c = pkt @ extra"
  shows "onData c (w # ws) buf =
    (snd (packets_of extra), drop (length (fst (packets_of extra))) ws,
     (w, parsed_form pid payload address) # zip ws (fst (packets_of extra)))"
  using packets_of_build [OF assms(1), of extra] assms(2) by (simp add: onData_packets)

lemma pkt_nonempty: "buildPacket pid payload address = Inr pkt \<Longrightarrow> pkt \<noteq> []"
  by (erule buildPacket_shape) simp

lemma await_cut:
  assumes b: "buildPacket pid payload address = Inr pkt"
  shows "buf @ concat cs = pkt \<Longrightarrow> \<forall>c \<in> set cs. c \<noteq> [] \<Longrightarrow> cs \<noteq> [] \<Longrightarrow>
    await_packet (map Chunk cs @ es) buf = (Inr (parsed_form pid payload address), [], es)"
proof (induction cs arbitrary: buf)
  case (Cons c cs)
  show ?case
  proof (cases "cs = []")
    case True
    then have "onData c [()] buf = ([], [], [((), parsed_form pid payload address)])"
      using onData_complete [OF b, of buf c "[]"] Cons.prems(1) by (simp add: packets_of_empty)
    then show ?thesis using True by simp
  next
    case False
    have "concat cs \<noteq> []" using False Cons.prems(2) by (cases cs) auto
    then have "onData c [()] buf = (buf @ c, [()], [])"
      using Cons.prems(1) by (intro onData_partial [OF b, where k = "length (buf @ c)"]) (auto simp flip: Cons.prems(1))
    then show ?thesis using Cons.IH [of "buf @ c"] Cons.prems False by simp
  qed
qed simp

lemma readPacket_cut:
  assumes "buildPacket pid payload address = Inr pkt" "cut cs pkt"
    and "dr_wire d = map Chunk cs @ es" "dr_buffer d = []"
  shows "readPacket d = (Inr (parsed_form pid payload address), d\<lparr>dr_wire := es\<rparr>)"
proof -
  have "cs \<noteq> []" using pkt_nonempty [OF assms(1)] assms(2) by (auto simp: cut_def)
  then have "await_packet (map Chunk cs @ es) [] = (Inr (parsed_form pid payload address), [], es)"
    using assms(2) by (intro await_cut [OF assms(1)]) (auto simp: cut_def)
  then show ?thesis using assms(3,4) by (simp add: readPacket_def)
qed

lemma send_packet_ok:
  assumes "buildPacket pid payload (dc_address cfg) = Inr pkt" "dr_wire d = Written # es"
  shows "send_packet cfg pid payload d = (Inr (), d\<lparr>dr_wire := es, dr_written := dr_written d @ [pkt]\<rparr>)"
  using assms by (simp add: send_packet_def writeRaw_def)

lemma cmd_acked:
  assumes "buildPacket PID_COMMAND (op # args) (dc_address cfg) = Inr req"
    and "buildPacket PID_ACK ackp address = Inr ack" "cut cs ack"
    and "dr_wire d = Written # map Chunk cs @ es" "dr_buffer d = []"
  shows "cmd cfg op args d = (Inr ackp, d\<lparr>dr_wire := es, dr_written := dr_written d @ [req]\<rparr>)"
proof -
  let ?d = "d\<lparr>dr_wire := map Chunk cs @ es, dr_written := dr_written d @ [req]\<rparr>"
  have "readPacket ?d = (Inr (parsed_form PID_ACK ackp address), ?d\<lparr>dr_wire := es\<rparr>)"
    by (rule readPacket_cut [OF assms(2,3)]) (simp_all add: assms(5))
  then show ?thesis
    by (simp add: cmd_def and_then_def send_packet_ok [OF assms(1,4)] parsed_form_def)
qed

lemma simple_cmd_acked:
  assumes "buildPacket PID_COMMAND (op # args) (dc_address cfg) = Inr req"
    and "buildPacket PID_ACK [0] address = Inr ack" "cut cs ack"
    and "dr_wire d = Written # map Chunk cs @ es" "dr_buffer d = []"
  shows "simple_cmd cfg name op args d = (Inr (), d\<lparr>dr_wire := es, dr_written := dr_written d @ [req]\<rparr>)"
  by (simp add: simple_cmd_def and_then_def cmd_acked [OF assms] expect_ok_def ack8_def CONF_OK_def)

text \<open>The data packets of a template: all but the last are \<open>DATA\<close>.\<close>

definition data_packets :: "int \<Rightarrow> bytes list \<Rightarrow> bytes list \<Rightarrow> bool" where
  "data_packets address payloads pkts \<longleftrightarrow>
     list_all2 (\<lambda>(pid, payload) pkt. buildPacket pid payload address = Inr pkt)
       (zip (replicate (length payloads - 1) PID_DATA @ [PID_END_DATA]) payloads) pkts \<and> payloads \<noteq> []"

lemma data_packets_one: "data_packets a [x] pkts \<longleftrightarrow> (\<exists>p. pkts = [p] \<and> buildPacket PID_END_DATA x a = Inr p)"
  by (auto simp: data_packets_def list_all2_Cons1)

lemma data_packets_more:
  "data_packets a (x # y # ys) pkts \<longleftrightarrow>
     (\<exists>p ps. pkts = p # ps \<and> buildPacket PID_DATA x a = Inr p \<and> data_packets a (y # ys) ps)"
  by (auto simp: data_packets_def list_all2_Cons1)

lemma upload_loop_data:
  "data_packets a payloads pkts \<Longrightarrow> list_all2 cut css pkts \<Longrightarrow>
    dr_wire d = map Chunk (concat css) @ es \<Longrightarrow> dr_buffer d = [] \<Longrightarrow>
    upload_loop chunks d = (Inr (concat (chunks @ payloads)), d\<lparr>dr_wire := es\<rparr>)"
proof (induction payloads arbitrary: chunks pkts css d)
  case Nil
  then show ?case by (simp add: data_packets_def)
next
  case (Cons x xs)
  show ?case
  proof (cases xs)
    case Nil
    then obtain p cs where p: "pkts = [p]" "buildPacket PID_END_DATA x a = Inr p" "css = [cs]" "cut cs p"
      using Cons.prems(1,2) by (auto simp: data_packets_one list_all2_Cons2)
    then have "readPacket d = (Inr (parsed_form PID_END_DATA x a), d\<lparr>dr_wire := es\<rparr>)"
      using Cons.prems(3,4) by (intro readPacket_cut) auto
    then show ?thesis using Nil by (simp add: upload_loop.simps parsed_form_def)
  next
    case (Cons y ys)
    then obtain p ps cs css' where p: "pkts = p # ps" "buildPacket PID_DATA x a = Inr p" "data_packets a xs ps"
      "css = cs # css'" "cut cs p" "list_all2 cut css' ps"
      using Cons.prems(1,2) by (auto simp: data_packets_more list_all2_Cons2)
    then have "readPacket d = (Inr (parsed_form PID_DATA x a), d\<lparr>dr_wire := map Chunk (concat css') @ es\<rparr>)"
      using Cons.prems(3,4) by (intro readPacket_cut) auto
    then have "upload_loop chunks d = upload_loop (chunks @ [x]) (d\<lparr>dr_wire := map Chunk (concat css') @ es\<rparr>)"
      by (simp add: upload_loop.simps [of chunks] parsed_form_def pid_defs)
    also have "\<dots> = (Inr (concat ((chunks @ [x]) @ xs)), d\<lparr>dr_wire := es\<rparr>)"
      using Cons.IH [OF p(3,6), of "d\<lparr>dr_wire := map Chunk (concat css') @ es\<rparr>" "chunks @ [x]"] Cons.prems(4) by simp
    finally show ?thesis by simp
  qed
qed

lemma data_packets_drop:
  "data_packets a payloads pkts \<Longrightarrow> j < length payloads \<Longrightarrow> data_packets a (drop j payloads) (drop j pkts)"
proof (induction j arbitrary: payloads pkts)
  case (Suc j)
  then obtain x y ys where "payloads = x # y # ys" by (cases payloads rule: list.exhaust [case_product list.exhaust]; cases "tl payloads") auto
  then show ?case using Suc by (auto simp: data_packets_more)
qed simp

lemma data_packets_stream:
  assumes "data_packets a payloads pkts"
  shows "snd (packets_of (concat (take j pkts))) = []"
proof -
  let ?specs = "zip (replicate (length payloads - 1) PID_DATA @ [PID_END_DATA]) payloads"
  have "list_all2 (\<lambda>(pid, payload) pkt. buildPacket pid payload a = Inr pkt) (take j ?specs) (take j pkts)"
    using assms by (intro list_all2_takeI) (simp add: data_packets_def)
  from packets_of_stream [OF this, of "[]"] show ?thesis by (simp add: packets_of_empty)
qed

text \<open>Property C36.  An upload returns the payloads of the data packets that reach the host apart from the
  acknowledgement: a template sent as \<open>DATA .. END_DATA\<close> packets comes back whole when its
  packets arrive after the acknowledgement, in chunks cut anywhere inside a packet; the first \<open>j\<close> packets
  that share the chunk of the acknowledgement are lost, and the truncated template is returned as a success.\<close>

theorem upload_loses_joined_packets:
  assumes "buildPacket PID_COMMAND [0x08, buffer] (dc_address cfg) = Inr req"
    and "buildPacket PID_ACK [0] address = Inr ack" and "data_packets address payloads pkts"
    and "list_all2 cut css pkts" and "j < length payloads" and "dr_buffer d = []"
    and "dr_wire d = Written # Chunk (ack @ concat (take j pkts)) # map Chunk (concat (drop j css)) @ es"
  shows "uploadCharacteristic cfg buffer d =
    (Inr (concat (drop j payloads)), d\<lparr>dr_wire := es, dr_written := dr_written d @ [req]\<rparr>)"
proof -
  let ?es = "map Chunk (concat (drop j css)) @ es"
  let ?d = "d\<lparr>dr_wire := ?es, dr_written := dr_written d @ [req]\<rparr>"
  obtain xs where o: "onData (ack @ concat (take j pkts)) [()] [] = ([], [], ((), parsed_form PID_ACK [0] address) # xs)"
    using onData_complete [OF assms(2), of "[]" "ack @ concat (take j pkts)" "concat (take j pkts)" "()" "[]"]
      data_packets_stream [OF assms(3)] by auto
  have "simple_cmd cfg ''up_char'' 0x08 [buffer] d = (Inr (), ?d)"
    using assms(6) o
    by (simp add: simple_cmd_def cmd_def and_then_def send_packet_ok [OF assms(1,7)] readPacket_def parsed_form_def
        expect_ok_def ack8_def CONF_OK_def)
  moreover have "upload_loop [] ?d = (Inr (concat ([] @ drop j payloads)), ?d\<lparr>dr_wire := es\<rparr>)"
    by (rule upload_loop_data [OF data_packets_drop [OF assms(3,5)] list_all2_dropI [OF assms(4)]])
      (simp_all add: assms(6))
  ultimately show ?thesis by (simp add: uploadCharacteristic_def and_then_def)
qed

lemmas build_simps = buildPacket_def header_bytes be16_def be32_def to_uint32_def DEFAULT_ADDRESS_def pid_defs
  packet_checksum_def PACKET_HEADER_def demo_sensor_def

lemma demo_request: "buildPacket PID_COMMAND [0x08, 1] (dc_address demo_sensor) =
    Inr [0xEF, 0x01, 0xFF, 0xFF, 0xFF, 0xFF, 0x01, 0x00, 0x04, 0x08, 0x01, 0x00, 0x0E]"
  by (simp add: build_simps)

lemma demo_ack: "buildPacket PID_ACK [0] 0 = Inr [0xEF, 0x01, 0, 0, 0, 0, 0x07, 0x00, 0x03, 0x00, 0x00, 0x0A]"
  by (simp add: build_simps)

lemma demo_data: "buildPacket PID_DATA [1] 0 = Inr [0xEF, 0x01, 0, 0, 0, 0, 0x02, 0x00, 0x03, 0x01, 0x00, 0x06]"
  "buildPacket PID_END_DATA [2] 0 = Inr [0xEF, 0x01, 0, 0, 0, 0, 0x08, 0x00, 0x03, 0x02, 0x00, 0x0D]"
  by (simp_all add: build_simps)

theorem upload_loses_joined_packets_witness:
  "fst (uploadCharacteristic demo_sensor 1 (demo_driver
     [Written, Chunk [0xEF, 0x01, 0, 0, 0, 0, 0x07, 0x00, 0x03, 0x00, 0x00, 0x0A],
      Chunk [0xEF, 0x01, 0, 0, 0, 0, 0x02, 0x00, 0x03, 0x01, 0x00, 0x06],
      Chunk [0xEF, 0x01, 0, 0, 0, 0, 0x08, 0x00], Chunk [0x03, 0x02, 0x00, 0x0D]])) = Inr [1, 2] \<and>
   fst (uploadCharacteristic demo_sensor 1 (demo_driver
     [Written, Chunk [0xEF, 0x01, 0, 0, 0, 0, 0x07, 0x00, 0x03, 0x00, 0x00, 0x0A,
                      0xEF, 0x01, 0, 0, 0, 0, 0x02, 0x00, 0x03, 0x01, 0x00, 0x06],
      Chunk [0xEF, 0x01, 0, 0, 0, 0, 0x08, 0x00], Chunk [0x03, 0x02, 0x00, 0x0D]])) = Inr [2]"
proof -
  let ?p = "[0xEF, 0x01, 0, 0, 0, 0, 0x02, 0x00, 0x03, 0x01, 0x00, 0x06]"
    and ?q = "[0xEF, 0x01, 0, 0, 0, 0, 0x08, 0x00]" and ?r = "[0x03, 0x02, 0x00, 0x0D]"
  have d: "data_packets 0 [[1], [2]] [?p, ?q @ ?r]"
    by (simp add: data_packets_more data_packets_one demo_data)
  have c: "list_all2 cut [[?p], [?q, ?r]] [?p, ?q @ ?r]" by (simp add: cut_def)
  note u = upload_loses_joined_packets [OF demo_request demo_ack d c, where es = "[]"]
  show ?thesis
    using u [where j = 0] u [where j = 1] by (simp add: demo_driver_def)
qed

lemma concat_slices: "concat (map (\<lambda>i. take n (drop (i * n) xs)) [0..<m]) = take (m * n) xs"
  by (induction m) (simp_all add: take_add add.commute [of n])

lemma send_chunks_sent:
  "list_all2 (\<lambda>i pkt. buildPacket (if i + 1 = n then PID_END_DATA else PID_DATA)
      (take psize (drop (i * psize) data)) (dc_address cfg) = Inr pkt) js pkts \<Longrightarrow>
    dr_wire d = replicate (length js) Written @ es \<Longrightarrow>
    send_chunks cfg data psize n js d = (Inr (), d\<lparr>dr_wire := es, dr_written := dr_written d @ pkts\<rparr>)"
  by (induction js pkts arbitrary: d rule: list_all2_induct)
    (simp_all add: and_then_def send_packet_ok)

lemma data_packets_indexed:
  assumes "0 < n" "list_all2 (\<lambda>i pkt. buildPacket (if i + 1 = n then PID_END_DATA else PID_DATA) (f i) a = Inr pkt) [0..<n] pkts"
  shows "data_packets a (map f [0..<n]) pkts"
proof -
  have "zip (replicate (n - 1) PID_DATA @ [PID_END_DATA]) (map f [0..<n]) =
      map (\<lambda>i. (if i + 1 = n then PID_END_DATA else PID_DATA, f i)) [0..<n]"
  proof (rule nth_equalityI)
    fix i
    assume "i < length (zip (replicate (n - 1) PID_DATA @ [PID_END_DATA]) (map f [0..<n]))"
    then have "i < n" using assms(1) by simp
    moreover have "(replicate (n - 1) PID_DATA @ [PID_END_DATA]) ! i = (if i + 1 = n then PID_END_DATA else PID_DATA)"
      using calculation by (cases "i + 1 = n") (auto simp: nth_append)
    ultimately show "zip (replicate (n - 1) PID_DATA @ [PID_END_DATA]) (map f [0..<n]) ! i =
        map (\<lambda>i. (if i + 1 = n then PID_END_DATA else PID_DATA, f i)) [0..<n] ! i" by simp
  qed (use assms(1) in simp)
  then show ?thesis using assms by (simp add: data_packets_def list_all2_map1)
qed

text \<open>A download sends a template that an upload gives back.\<close>

theorem download_sends_template:
  assumes "buildPacket PID_COMMAND [0x09, buffer] (dc_address cfg) = Inr req"
    and "buildPacket PID_ACK [0] address = Inr ack" and "cut cs ack" and "dr_buffer d = []"
    and "data \<noteq> []" and "psize < 65534" and "length data mod psize = 0" and "0 < psize"
    and "dr_wire d = Written # map Chunk cs @ replicate (length data div psize) Written @ es"
  shows "\<exists>payloads pkts. downloadCharacteristic cfg buffer data psize d =
      (Inr (), d\<lparr>dr_wire := es, dr_written := dr_written d @ [req] @ pkts\<rparr>) \<and>
    data_packets (dc_address cfg) payloads pkts \<and> concat payloads = data \<and> (\<forall>x \<in> set payloads. length x = psize)"
proof -
  define n where "n = length data div psize"
  have n: "n * psize = length data" "0 < n"
    using assms(5,7,8) by (auto simp: n_def div_greater_zero_iff) (metis dvd_imp_le length_greater_0_conv mod_0_imp_dvd)
  let ?f = "\<lambda>i. take psize (drop (i * psize) data)"
  have "\<exists>pkts. list_all2 (\<lambda>i pkt. buildPacket (if i + 1 = n then PID_END_DATA else PID_DATA) (?f i) (dc_address cfg) = Inr pkt) js pkts" for js
  proof (induction js)
    case (Cons i js)
    have "length (?f i) < 65534" using assms(6) by simp
    then obtain pkt where "buildPacket (if i + 1 = n then PID_END_DATA else PID_DATA) (?f i) (dc_address cfg) = Inr pkt"
      using buildPacket_ok by blast
    moreover obtain pkts where "list_all2 (\<lambda>i pkt. buildPacket (if i + 1 = n then PID_END_DATA else PID_DATA) (?f i) (dc_address cfg) = Inr pkt) js pkts"
      using Cons by blast
    ultimately show ?case by (intro exI [of _ "pkt # pkts"]) simp
  qed simp
  then obtain pkts where p: "list_all2 (\<lambda>i pkt. buildPacket (if i + 1 = n then PID_END_DATA else PID_DATA) (?f i) (dc_address cfg) = Inr pkt) [0..<n] pkts"
    by blast
  let ?d = "d\<lparr>dr_wire := replicate n Written @ es, dr_written := dr_written d @ [req]\<rparr>"
  have "simple_cmd cfg ''down_char'' 0x09 [buffer] d = (Inr (), ?d)"
    by (rule simple_cmd_acked [OF assms(1,2,3)]) (simp_all add: assms(4,9) n_def)
  moreover have "send_chunks cfg data psize n [0..<n] ?d = (Inr (), ?d\<lparr>dr_wire := es, dr_written := dr_written ?d @ pkts\<rparr>)"
    by (rule send_chunks_sent [OF p]) simp
  ultimately have "downloadCharacteristic cfg buffer data psize d = (Inr (), d\<lparr>dr_wire := es, dr_written := dr_written d @ [req] @ pkts\<rparr>)"
    using assms(5,7,8) by (simp add: downloadCharacteristic_def and_then_def flip: n_def)
  moreover have "concat (map ?f [0..<n]) = data" using n(1) by (simp add: concat_slices)
  moreover have "\<forall>x \<in> set (map ?f [0..<n]). length x = psize"
  proof -
    have "psize \<le> length data - i * psize" if "i < n" for i
    proof -
      have "Suc i * psize \<le> n * psize" using that by (intro mult_le_mono1) simp
      then show ?thesis using n(1) by simp
    qed
    then show ?thesis by (auto simp: min.absorb2)
  qed
  ultimately show ?thesis using data_packets_indexed [OF n(2) p] by blast
qed

end
