(* ===== verification/Settings.thy ===== *)
theory Settings
  imports Anchor Accounts Tokens Devices "HOL-Library.AList"
begin

text \<open>
  The security policy of a tenant in the console (\<open>src/routes/console-security-policy.ts\<close>): the
  console principal of the router, reading the resolved policy and merging a partial update into
  the stored one.
\<close>

section \<open>The principal\<close>

text \<open>This router asks for a non-empty tenant and address in the token, which \<open>console.ts\<close> does not.
  The console signs strings only; a claim of another type is taken as refused.\<close>

definition verify_principal :: "jwt_config \<Rightarrow> jwt_lib \<Rightarrow> time_ms \<Rightarrow> string \<Rightarrow> (uuid \<times> string) option" where
  "verify_principal jc lib now token =
     (case lib_verify lib console_verify (jc_secret jc) now token of
        None \<Rightarrow> None
      | Some payload \<Rightarrow>
          if jget ''type'' payload \<noteq> JStr ''console'' then None
          else (case (jget ''tenantId'' payload, jget ''email'' payload) of
              (JStr t, JStr e) \<Rightarrow> if t = [] \<or> e = [] then None else Some (t, e)
            | _ \<Rightarrow> None))"

definition require_principal ::
  "jwt_config \<Rightarrow> jwt_lib \<Rightarrow> time_ms \<Rightarrow> string option \<Rightarrow> string option \<Rightarrow> gate + uuid \<times> string" where
  "require_principal jc lib now header cookie =
     (case (case bearer_of header of Some t \<Rightarrow> Some t | None \<Rightarrow> cookie) of
        None \<Rightarrow> Inl (Answer 401 ''unauthorized'')
      | Some token \<Rightarrow> if token = [] then Inl (Answer 401 ''unauthorized'')
          else (case verify_principal jc lib now token of
              None \<Rightarrow> Inl (Answer 401 ''session_expired'')
            | Some p \<Rightarrow> Inr p))"

section \<open>The policy\<close>

definition STRING_FIELDS :: "string list" where
  "STRING_FIELDS = [''base_rpc_url'', ''did_registry_address'', ''groth16_verifier_address'',
     ''audit_anchor_contract_address'', ''audit_anchor_signing_key_id'']"

record policy_view =
  pv_policy :: resolved_providers
  pv_signing_key_id :: "string option"
  pv_defaults :: resolved_providers
  pv_raw :: "json option"

definition members_of :: "json \<Rightarrow> (string \<times> json) list" where
  "members_of v = (case v of JObj kvs \<Rightarrow> kvs | _ \<Rightarrow> [])"

definition policy_view_of :: "json \<Rightarrow> policy_view" where
  "policy_view_of raw =
     \<lparr> pv_policy = resolveProviders raw,
       pv_signing_key_id = pickString (jget ''audit_anchor_signing_key_id'' raw),
       pv_defaults = DEFAULT_PROVIDERS, pv_raw = None \<rparr>"

text \<open>\<open>tenant.security_policy ?? {}\<close>\<close>

definition policy_of :: "tenant \<Rightarrow> json" where
  "policy_of tn = (case tn_security_policy tn of JNull \<Rightarrow> JObj [] | JUndef \<Rightarrow> JObj [] | v \<Rightarrow> v)"

definition get_security_policy :: "uuid \<Rightarrow> server \<Rightarrow> policy_view answer" where
  "get_security_policy tenantId s =
     (case getTenantById tenantId s of
        None \<Rightarrow> Refuse 404 ''tenant_not_found''
      | Some tn \<Rightarrow> Reply 200 ((policy_view_of (policy_of tn))\<lparr>pv_raw := Some (policy_of tn)\<rparr>))"

text \<open>\<open>body.f !== undefined && !ALLOWED.includes(body.f)\<close>\<close>

definition bad_choice :: "(string \<times> 'p) list \<Rightarrow> json \<Rightarrow> bool" where
  "bad_choice table v = (case v of JUndef \<Rightarrow> False | JStr s \<Rightarrow> s \<notin> set (map fst table) | _ \<Rightarrow> True)"

definition bad_text :: "json \<Rightarrow> bool" where
  "bad_text v = (case v of JUndef \<Rightarrow> False | JNull \<Rightarrow> False | JStr _ \<Rightarrow> False | _ \<Rightarrow> True)"

definition policy_error :: "json \<Rightarrow> string option" where
  "policy_error body =
     (if \<not> is_object body then Some ''invalid_request''
      else if bad_choice DID_PROVIDERS (jget ''did_provider'' body) then Some ''invalid_did_provider''
      else if bad_choice VERIFIER_PROVIDERS (jget ''verifier_provider'' body) then Some ''invalid_verifier_provider''
      else if bad_choice AUDIT_ANCHOR_PROVIDERS (jget ''audit_anchor_provider'' body) then Some ''invalid_audit_anchor_provider''
      else map_option (\<lambda>f. ''invalid_'' @ f) (first_row (\<lambda>f. bad_text (jget f body)) STRING_FIELDS))"

definition set_choice :: "json \<Rightarrow> string \<Rightarrow> (string \<times> json) list \<Rightarrow> (string \<times> json) list" where
  "set_choice body f after = (if jget f body = JUndef then after else AList.update f (jget f body) after)"

definition set_text :: "json \<Rightarrow> string \<Rightarrow> (string \<times> json) list \<Rightarrow> (string \<times> json) list" where
  "set_text body f after = (case jget f body of
       JNull \<Rightarrow> AList.delete f after
     | JStr s \<Rightarrow> AList.update f (JStr s) after
     | _ \<Rightarrow> after)"

definition merge_policy :: "json \<Rightarrow> (string \<times> json) list \<Rightarrow> (string \<times> json) list" where
  "merge_policy body before =
     fold (set_text body) STRING_FIELDS
       (set_choice body ''audit_anchor_provider'' (set_choice body ''verifier_provider''
         (set_choice body ''did_provider'' before)))"

definition did_str :: "did_provider \<Rightarrow> string" where
  "did_str p = (case p of DidOffChain \<Rightarrow> ''off-chain'' | DidBaseSepolia \<Rightarrow> ''base-sepolia''
     | DidBaseMainnet \<Rightarrow> ''base-mainnet'' | DidCustomChain \<Rightarrow> ''custom-chain'')"

definition verifier_str :: "verifier_provider \<Rightarrow> string" where
  "verifier_str p = (case p of VerifierOffChain \<Rightarrow> ''off-chain'' | VerifierOnChain \<Rightarrow> ''on-chain'')"

definition anchor_str :: "anchor_provider \<Rightarrow> string" where
  "anchor_str p = (case p of AnchorNone \<Rightarrow> ''none'' | AnchorSigned \<Rightarrow> ''signed-transcript''
     | AnchorBaseSepolia \<Rightarrow> ''base-sepolia'' | AnchorBaseMainnet \<Rightarrow> ''base-mainnet'' | AnchorWitness \<Rightarrow> ''witness-cosign'')"

definition provider_triple :: "resolved_providers \<Rightarrow> json" where
  "provider_triple r = JObj [(''did_provider'', JStr (did_str (rp_did r))),
     (''verifier_provider'', JStr (verifier_str (rp_verifier r))),
     (''audit_anchor_provider'', JStr (anchor_str (rp_anchor r)))]"

definition policy_audit :: "uuid \<Rightarrow> string \<Rightarrow> json \<Rightarrow> json \<Rightarrow> audit_payload" where
  "policy_audit tenantId email before after =
     \<lparr> pl_tenant_id = tenantId, pl_environment = None, pl_actor_type = ActorConsole, pl_actor_id = Some tenantId,
       pl_action = ''security_policy.updated'', pl_entity_type = ''tenant'', pl_entity_id = Some tenantId,
       pl_status = AuditSuccess, pl_summary = ''Security policy updated by '' @ email,
       pl_metadata = JObj [(''actor_email'', JStr email), (''before'', provider_triple (resolveProviders before)),
         (''after'', provider_triple (resolveProviders after)), (''policy_after'', after)] \<rparr>"

text \<open>A missing body is the empty object.  The column is \<open>JSONB\<close>: its members keep no order, and no
  operation depends on one.\<close>

definition post_security_policy ::
  "(string \<Rightarrow> string) \<Rightarrow> time_ms \<Rightarrow> uuid \<times> string \<Rightarrow> json \<Rightarrow> server \<Rightarrow> policy_view answer \<times> server" where
  "post_security_policy sha now who given s =
     (let (tenantId, email) = who; body = (case given of JUndef \<Rightarrow> JObj [] | JNull \<Rightarrow> JObj [] | v \<Rightarrow> v) in
      case policy_error body of
        Some code \<Rightarrow> (Refuse 400 code, s)
      | None \<Rightarrow> (case getTenantById tenantId s of
          None \<Rightarrow> (Refuse 404 ''tenant_not_found'', s)
        | Some tn \<Rightarrow>
           (let before = policy_of tn; after = JObj (merge_policy body (members_of before));
                persisted = s\<lparr>t_tenants := update_rows (\<lambda>t. tn_id t = tenantId)
                  (\<lambda>t. t\<lparr>tn_security_policy := after, tn_updated_at := now\<rparr>) (t_tenants s)\<rparr>
            in (Reply 200 (policy_view_of after),
                snd (appendAuditEvent sha now (policy_audit tenantId email before after) persisted)))))"

section \<open>Facts\<close>

lemma jget_update: "jget k (JObj (AList.update f v kvs)) = (if k = f then v else jget k (JObj kvs))"
  by (simp add: jget_def update_conv' or_else_def)

lemma jget_delete: "jget k (JObj (AList.delete f kvs)) = (if k = f then JUndef else jget k (JObj kvs))"
  by (simp add: jget_def delete_conv' or_else_def)

lemma jget_set_choice:
  "jget k (JObj (set_choice body f kvs)) = (if k = f \<and> jget f body \<noteq> JUndef then jget f body else jget k (JObj kvs))"
  by (auto simp: set_choice_def jget_update)

text \<open>What a text field of the update makes of the stored one.\<close>

definition text_after :: "json \<Rightarrow> json \<Rightarrow> json" where
  "text_after new old = (case new of JNull \<Rightarrow> JUndef | JStr s \<Rightarrow> JStr s | _ \<Rightarrow> old)"

lemma jget_set_text:
  "jget k (JObj (set_text body f kvs)) = (if k = f then text_after (jget f body) (jget k (JObj kvs)) else jget k (JObj kvs))"
  by (auto simp: set_text_def text_after_def jget_update jget_delete split: json.split)

lemma jget_fold_text:
  "distinct fs \<Longrightarrow> jget k (JObj (fold (set_text body) fs kvs)) =
    (if k \<in> set fs then text_after (jget k body) (jget k (JObj kvs)) else jget k (JObj kvs))"
  by (induction fs arbitrary: kvs) (auto simp: jget_set_text)

lemma text_fields: "distinct STRING_FIELDS" "''did_provider'' \<notin> set STRING_FIELDS" "''verifier_provider'' \<notin> set STRING_FIELDS"
  "''audit_anchor_provider'' \<notin> set STRING_FIELDS"
  by code_simp+

lemma merged_text:
  assumes "f \<in> set STRING_FIELDS"
  shows "jget f (JObj (merge_policy body kvs)) = text_after (jget f body) (jget f (JObj kvs))"
proof -
  have "f \<noteq> ''did_provider''" "f \<noteq> ''verifier_provider''" "f \<noteq> ''audit_anchor_provider''" using assms text_fields(2-4) by blast+
  then show ?thesis using assms by (simp add: merge_policy_def jget_fold_text text_fields jget_set_choice)
qed

lemma merged_choice:
  "jget ''did_provider'' (JObj (merge_policy body kvs)) =
     (if jget ''did_provider'' body = JUndef then jget ''did_provider'' (JObj kvs) else jget ''did_provider'' body)"
  "jget ''verifier_provider'' (JObj (merge_policy body kvs)) =
     (if jget ''verifier_provider'' body = JUndef then jget ''verifier_provider'' (JObj kvs) else jget ''verifier_provider'' body)"
  "jget ''audit_anchor_provider'' (JObj (merge_policy body kvs)) =
     (if jget ''audit_anchor_provider'' body = JUndef then jget ''audit_anchor_provider'' (JObj kvs) else jget ''audit_anchor_provider'' body)"
  by (simp_all add: merge_policy_def jget_fold_text text_fields jget_set_choice)

lemma jget_not_object: "\<not> is_object v \<Longrightarrow> jget k v = JUndef"
  by (cases v) (simp_all add: is_object_def jget_def)

lemma jget_members_of [simp]: "jget k (JObj (members_of v)) = jget k v"
  by (cases v) (simp_all add: members_of_def jget_def or_else_def)

lemma resolved_fields:
  "rp_did (resolveProviders p) = pickDidProvider (jget ''did_provider'' p)"
  "rp_verifier (resolveProviders p) = pickVerifierProvider (jget ''verifier_provider'' p)"
  "rp_anchor (resolveProviders p) = pickAuditAnchorProvider (jget ''audit_anchor_provider'' p)"
  "rp_base_rpc (resolveProviders p) = pickString (jget ''base_rpc_url'' p)"
  "rp_did_registry (resolveProviders p) = pickString (jget ''did_registry_address'' p)"
  "rp_groth16 (resolveProviders p) = pickString (jget ''groth16_verifier_address'' p)"
  "rp_anchor_contract (resolveProviders p) = pickString (jget ''audit_anchor_contract_address'' p)"
  by (cases p; simp add: resolveProviders_def jget_def pickDidProvider_def pickVerifierProvider_def pickAuditAnchorProvider_def
      pick_def pickString_def DEFAULT_PROVIDERS_def)+

lemma not_bad_choice: "\<not> bad_choice table v \<Longrightarrow> v \<noteq> JUndef \<Longrightarrow> \<exists>s. v = JStr s \<and> s \<in> set (map fst table)"
  by (auto simp: bad_choice_def split: json.splits)

lemma chosen:
  "\<not> bad_choice DID_PROVIDERS v \<Longrightarrow> v \<noteq> JUndef \<Longrightarrow> v = JStr (did_str (pickDidProvider v))"
  "\<not> bad_choice VERIFIER_PROVIDERS v \<Longrightarrow> v \<noteq> JUndef \<Longrightarrow> v = JStr (verifier_str (pickVerifierProvider v))"
  "\<not> bad_choice AUDIT_ANCHOR_PROVIDERS v \<Longrightarrow> v \<noteq> JUndef \<Longrightarrow> v = JStr (anchor_str (pickAuditAnchorProvider v))"
  by (drule (1) not_bad_choice; elim exE conjE; simp add: pickDidProvider_def pickVerifierProvider_def
      pickAuditAnchorProvider_def pick_def DID_PROVIDERS_def VERIFIER_PROVIDERS_def AUDIT_ANCHOR_PROVIDERS_def;
      elim disjE; simp add: or_else_def did_str_def verifier_str_def anchor_str_def)+

lemma pickString_after: "pickString (text_after new old) =
    (case new of JNull \<Rightarrow> None | JStr s \<Rightarrow> (if s = [] then None else Some s) | _ \<Rightarrow> pickString old)"
  by (simp add: text_after_def pickString_def split: json.split)

lemma post_policyE:
  assumes "post_security_policy sha now (tenantId, email) (JObj kvs) s = (Reply c v, s')"
  obtains tn where "getTenantById tenantId s = Some tn" "policy_error (JObj kvs) = None" "c = 200"
    "v = policy_view_of (JObj (merge_policy (JObj kvs) (members_of (policy_of tn))))"
    "s' = snd (appendAuditEvent sha now (policy_audit tenantId email (policy_of tn)
        (JObj (merge_policy (JObj kvs) (members_of (policy_of tn)))))
      (s\<lparr>t_tenants := update_rows (\<lambda>t. tn_id t = tenantId)
        (\<lambda>t. t\<lparr>tn_security_policy := JObj (merge_policy (JObj kvs) (members_of (policy_of tn))), tn_updated_at := now\<rparr>) (t_tenants s)\<rparr>))"
  using assms by (auto simp: post_security_policy_def Let_def split: option.splits)

lemma first_row_update_same:
  assumes "\<And>r. key (f r) = key r"
  shows "first_row (\<lambda>r. key r = k) (update_rows (\<lambda>r. key r = j) f t) =
    map_option (\<lambda>r. if k = j then f r else r) (first_row (\<lambda>r. key r = k) t)"
  by (induction t) (auto simp: update_rows_def first_row_def assms)

lemma policy_error_NoneD:
  assumes "policy_error body = None"
  shows "\<not> bad_choice DID_PROVIDERS (jget ''did_provider'' body)" "\<not> bad_choice VERIFIER_PROVIDERS (jget ''verifier_provider'' body)"
    "\<not> bad_choice AUDIT_ANCHOR_PROVIDERS (jget ''audit_anchor_provider'' body)"
  using assms by (auto simp: policy_error_def split: if_splits)

section \<open>Properties\<close>

text \<open>Property C27.  An accepted update of the security policy is read back: every provider named in the body is
  the one resolved afterwards, a text field is replaced, or cleared by \<open>null\<close> or the empty text, and what the
  body leaves out is resolved as before.  No other tenant's row changes, and one audit row of the tenant is appended.\<close>

theorem policy_update_reads_back:
  assumes "post_security_policy sha now (tenantId, email) (JObj kvs) s = (Reply c v, s')"
  shows "\<exists>old raw. get_security_policy tenantId s = Reply 200 old \<and>
    get_security_policy tenantId s' = Reply 200 (v\<lparr>pv_raw := Some raw\<rparr>) \<and>
    (let b = JObj kvs; p = pv_policy v; q = pv_policy old;
         says = (\<lambda>f new before. new = (case jget f b of JNull \<Rightarrow> None
           | JStr x \<Rightarrow> (if x = [] then None else Some x) | _ \<Rightarrow> before)) in
     (if jget ''did_provider'' b = JUndef then rp_did p = rp_did q else jget ''did_provider'' b = JStr (did_str (rp_did p))) \<and>
     (if jget ''verifier_provider'' b = JUndef then rp_verifier p = rp_verifier q
      else jget ''verifier_provider'' b = JStr (verifier_str (rp_verifier p))) \<and>
     (if jget ''audit_anchor_provider'' b = JUndef then rp_anchor p = rp_anchor q
      else jget ''audit_anchor_provider'' b = JStr (anchor_str (rp_anchor p))) \<and>
     says ''base_rpc_url'' (rp_base_rpc p) (rp_base_rpc q) \<and>
     says ''did_registry_address'' (rp_did_registry p) (rp_did_registry q) \<and>
     says ''groth16_verifier_address'' (rp_groth16 p) (rp_groth16 q) \<and>
     says ''audit_anchor_contract_address'' (rp_anchor_contract p) (rp_anchor_contract q) \<and>
     says ''audit_anchor_signing_key_id'' (pv_signing_key_id v) (pv_signing_key_id old)) \<and>
    (\<forall>t. t \<noteq> tenantId \<longrightarrow> getTenantById t s' = getTenantById t s) \<and>
    (\<exists>r. t_audit s' = t_audit s @ [r] \<and> au_tenant_id r = tenantId \<and> au_action r = ''security_policy.updated'')"
proof -
  from post_policyE [OF assms] obtain tn where tn: "getTenantById tenantId s = Some tn" and ok: "policy_error (JObj kvs) = None"
    and v: "v = policy_view_of (JObj (merge_policy (JObj kvs) (members_of (policy_of tn))))"
    and s': "s' = snd (appendAuditEvent sha now (policy_audit tenantId email (policy_of tn)
        (JObj (merge_policy (JObj kvs) (members_of (policy_of tn)))))
      (s\<lparr>t_tenants := update_rows (\<lambda>t. tn_id t = tenantId)
        (\<lambda>t. t\<lparr>tn_security_policy := JObj (merge_policy (JObj kvs) (members_of (policy_of tn))), tn_updated_at := now\<rparr>) (t_tenants s)\<rparr>))"
    by metis
  have row: "getTenantById t s' = map_option (\<lambda>r. if t = tenantId
      then r\<lparr>tn_security_policy := JObj (merge_policy (JObj kvs) (members_of (policy_of tn))), tn_updated_at := now\<rparr> else r)
      (getTenantById t s)" for t
    by (simp add: s' getTenantById_def first_row_update_same)
  have old: "get_security_policy tenantId s = Reply 200 ((policy_view_of (policy_of tn))\<lparr>pv_raw := Some (policy_of tn)\<rparr>)"
    by (simp add: get_security_policy_def tn)
  have new: "get_security_policy tenantId s' = Reply 200 (v\<lparr>pv_raw := Some (JObj (merge_policy (JObj kvs) (members_of (policy_of tn))))\<rparr>)"
    by (simp add: get_security_policy_def row tn v policy_of_def)
  have others: "\<forall>t. t \<noteq> tenantId \<longrightarrow> getTenantById t s' = getTenantById t s"
    by (simp add: row option.map_ident)
  have audit: "\<exists>r. t_audit s' = t_audit s @ [r] \<and> au_tenant_id r = tenantId \<and> au_action r = ''security_policy.updated''"
    by (simp add: s' append_tables audit_row_def policy_audit_def)
  show ?thesis
    by (rule exI, rule exI, intro conjI, rule old, rule new)
      (use policy_error_NoneD [OF ok] chosen others audit in \<open>auto simp: Let_def v policy_view_of_def resolved_fields
         merged_choice merged_text STRING_FIELDS_def pickString_after split: json.split\<close>)
qed

definition policy_tenant :: tenant where
  "policy_tenant = \<lparr> tn_id = ''t'', tn_email = ''e'', tn_password_hash = ''h'', tn_company_name = None, tn_plan = Free,
     tn_status = TenantActive, tn_rate_limit = 1, tn_monthly_quota = 1,
     tn_security_policy = JObj [(''base_rpc_url'', JStr ''r''), (''verifier_provider'', JStr ''on-chain'')],
     tn_created_at = 0, tn_updated_at = 0 \<rparr>"

theorem policy_update_reads_back_witness:
  "\<exists>v s'. post_security_policy rev 1 (''t'', ''e'') (JObj [(''did_provider'', JStr ''base-sepolia''), (''base_rpc_url'', JNull)])
      (empty_server\<lparr>t_tenants := [policy_tenant]\<rparr>) = (Reply 200 v, s') \<and>
    rp_did (pv_policy v) = DidBaseSepolia \<and> rp_verifier (pv_policy v) = VerifierOnChain \<and> rp_base_rpc (pv_policy v) = None"
proof -
  let ?b = "[(''did_provider'', JStr ''base-sepolia''), (''base_rpc_url'', JNull)]"
  let ?s = "empty_server\<lparr>t_tenants := [policy_tenant]\<rparr>"
  have "policy_error (JObj ?b) = None"
    by (simp add: policy_error_def is_object_def bad_choice_def bad_text_def jget_def or_else_def DID_PROVIDERS_def STRING_FIELDS_def first_row_def)
  then obtain v s' where p: "post_security_policy rev 1 (''t'', ''e'') (JObj ?b) ?s = (Reply 200 v, s')"
    by (simp add: post_security_policy_def Let_def getTenantById_def policy_tenant_def first_row_def)
  have old: "get_security_policy ''t'' ?s = Reply 200 ((policy_view_of (policy_of policy_tenant))\<lparr>pv_raw := Some (policy_of policy_tenant)\<rparr>)"
    by (simp add: get_security_policy_def getTenantById_def first_row_def policy_tenant_def)
  have ver: "rp_verifier (pv_policy (policy_view_of (policy_of policy_tenant))) = VerifierOnChain"
    by (simp add: policy_view_of_def policy_of_def policy_tenant_def resolved_fields pickVerifierProvider_def pick_def jget_def
        or_else_def VERIFIER_PROVIDERS_def)
  have did: "JStr ''base-sepolia'' = JStr (did_str x) \<Longrightarrow> x = DidBaseSepolia" for x
    by (cases x) (simp_all add: did_str_def)
  from policy_update_reads_back [OF p] show ?thesis
    using p ver did by (auto simp: old jget_def or_else_def Let_def)
qed

end
