(* ===== verification/Webhooks.thy ===== *)
theory Webhooks
  imports Settings
begin

text \<open>
  The registry of outgoing webhooks (\<open>src/routes/console-webhooks.ts\<close>): the checks of a destination
  and of its event filter, and the three handlers over the table \<open>tenant_webhooks\<close>.  The parser of
  the runtime's \<open>URL\<close> class is a parameter that gives protocol and host name.  The write limiter
  belongs to a package.
\<close>

section \<open>Checks\<close>

type_synonym url_parser = "string \<Rightarrow> (string \<times> string) option"

definition MAX_WEBHOOKS_PER_ENV :: nat where "MAX_WEBHOOKS_PER_ENV = 10"
definition MAX_URL_LENGTH :: nat where "MAX_URL_LENGTH = 2048"

text \<open>\<open>/^(\*|[a-z][a-z0-9_]*(\.[a-z0-9_]+)*(\.\*)?)$/\<close>, read segment by segment.\<close>

definition is_word_char :: "char \<Rightarrow> bool" where
  "is_word_char c \<longleftrightarrow> is_lower c \<or> is_digit c \<or> c = CHR ''_''"

fun filter_rest :: "string list \<Rightarrow> bool" where
  "filter_rest [] \<longleftrightarrow> True"
| "filter_rest (w # ws) \<longleftrightarrow> (w = ''*'' \<and> ws = []) \<or> (w \<noteq> [] \<and> list_all is_word_char w \<and> filter_rest ws)"

definition EVENT_FILTER_PATTERN :: "string \<Rightarrow> bool" where
  "EVENT_FILTER_PATTERN s \<longleftrightarrow> s = ''*'' \<or>
     (case split_on (CHR ''.'') s of
        [] \<Rightarrow> False
      | w # ws \<Rightarrow> w \<noteq> [] \<and> is_lower (hd w) \<and> list_all is_word_char w \<and> filter_rest ws)"

definition blockedExact :: "string list" where
  "blockedExact = [''localhost'', ''0.0.0.0'', ''127.0.0.1'', ''169.254.169.254'', ''::1'', ''metadata.google.internal'']"

text \<open>\<open>/^172\.(1[6-9]|2[0-9]|3[0-1])\./\<close>\<close>

definition private_172 :: "string \<Rightarrow> bool" where
  "private_172 h \<longleftrightarrow> list_ex (\<lambda>n. starts_with (''172.'' @ dec_nat n @ ''.'') h) [16..<32]"

definition isAllowedWebhookUrl :: "url_parser \<Rightarrow> string \<Rightarrow> bool" where
  "isAllowedWebhookUrl parse rawUrl =
     (case parse rawUrl of
        None \<Rightarrow> False
      | Some (protocol, hostname) \<Rightarrow>
          if protocol \<noteq> ''https:'' \<and> protocol \<noteq> ''http:'' then False
          else (let host = lower hostname in
            if host \<in> set blockedExact then False
            else if starts_with ''10.'' host \<or> starts_with ''192.168.'' host \<or> private_172 host then False
            else True))"

definition validateEventFilter :: "json \<Rightarrow> bool" where
  "validateEventFilter v =
     (case v of
        JArr xs \<Rightarrow> xs \<noteq> [] \<and> length xs \<le> 32 \<and>
          list_all (\<lambda>e. case e of JStr s \<Rightarrow> EVENT_FILTER_PATTERN s | _ \<Rightarrow> False) xs
      | _ \<Rightarrow> False)"

definition parseEnv :: "json \<Rightarrow> environment" where
  "parseEnv v = (if v = JStr ''test'' then Test else Live)"

definition is_uuid_text :: "string \<Rightarrow> bool" where
  "is_uuid_text s \<longleftrightarrow> map length (split_on (CHR ''-'') s) = [8, 4, 4, 4, 12] \<and>
     list_all (list_all is_hex) (split_on (CHR ''-'') s)"

text \<open>\<open>base64url\<close> of the drawn bytes is a parameter.\<close>

definition generateWebhookSecret :: "(nat list \<Rightarrow> string) \<Rightarrow> nat list \<Rightarrow> string" where
  "generateWebhookSecret base64url drawn = ''whsec_'' @ base64url drawn"

section \<open>The table and the handlers\<close>

record webhook =
  wh_id :: uuid
  wh_tenant_id :: uuid
  wh_environment :: environment
  wh_url :: string
  wh_secret :: string
  wh_event_filter :: "json list"
  wh_enabled :: bool
  wh_description :: "string option"
  wh_last_delivery_at :: "time_ms option"
  wh_last_delivery_ok :: "bool option"
  wh_consecutive_failures :: nat
  wh_created_at :: time_ms
  wh_updated_at :: time_ms

record webhook_info =
  wi_id :: uuid
  wi_tenant_id :: uuid
  wi_environment :: environment
  wi_url :: string
  wi_event_filter :: "json list"
  wi_enabled :: bool
  wi_description :: "string option"
  wi_last_delivery_at :: "time_ms option"
  wi_last_delivery_ok :: "bool option"
  wi_consecutive_failures :: nat
  wi_created_at :: time_ms
  wi_updated_at :: time_ms

definition redactWebhook :: "webhook \<Rightarrow> webhook_info" where
  "redactWebhook w = \<lparr> wi_id = wh_id w, wi_tenant_id = wh_tenant_id w, wi_environment = wh_environment w, wi_url = wh_url w,
     wi_event_filter = wh_event_filter w, wi_enabled = wh_enabled w, wi_description = wh_description w,
     wi_last_delivery_at = wh_last_delivery_at w, wi_last_delivery_ok = wh_last_delivery_ok w,
     wi_consecutive_failures = wh_consecutive_failures w, wi_created_at = wh_created_at w, wi_updated_at = wh_updated_at w \<rparr>"

definition of_tenant :: "uuid \<Rightarrow> environment \<Rightarrow> webhook \<Rightarrow> bool" where
  "of_tenant t e w \<longleftrightarrow> wh_tenant_id w = t \<and> wh_environment w = e"

text \<open>Newest first: rows stand in the order of insertion.\<close>

definition get_webhooks :: "uuid \<times> string \<Rightarrow> json \<Rightarrow> webhook list \<Rightarrow> environment \<times> webhook_info list" where
  "get_webhooks who environment hooks =
     (parseEnv environment,
      map redactWebhook (take 100 (rev (select_rows (of_tenant (fst who) (parseEnv environment)) hooks))))"

definition webhook_audit :: "uuid \<times> string \<Rightarrow> environment \<Rightarrow> string \<Rightarrow> uuid \<Rightarrow> audit_status \<Rightarrow> string \<Rightarrow> (string \<times> json) list \<Rightarrow> audit_input" where
  "webhook_audit who e action entity status summary meta =
     \<lparr> ai_environment = Some e, ai_actor_type = ActorConsole, ai_actor_id = Some (fst who), ai_action = action,
       ai_entity_type = ''webhook'', ai_entity_id = Some entity, ai_status = status, ai_summary = take 255 summary,
       ai_metadata = JObj ((''actor_email'', JStr (snd who)) # meta) \<rparr>"

record webhook_draw =
  wd_id :: uuid
  wd_secret :: "nat list"

text \<open>The environment named by the body comes before that of the query.\<close>

definition requested_env :: "json \<Rightarrow> json \<Rightarrow> environment" where
  "requested_env body query = (case jget ''environment'' body of JUndef \<Rightarrow> parseEnv query | JNull \<Rightarrow> parseEnv query | v \<Rightarrow> parseEnv v)"

definition webhook_error :: "url_parser \<Rightarrow> json \<Rightarrow> string option" where
  "webhook_error parse body =
     (case jget ''url'' body of
        JStr url \<Rightarrow>
          if trim url = [] then Some ''invalid_request''
          else if length url > MAX_URL_LENGTH then Some ''invalid_url''
          else if \<not> isAllowedWebhookUrl parse (trim url) then Some ''invalid_url''
          else if \<not> validateEventFilter (jget ''event_filter'' body) then Some ''invalid_event_filter''
          else if (case jget ''enabled'' body of JUndef \<Rightarrow> False | JBool _ \<Rightarrow> False | _ \<Rightarrow> True) then Some ''invalid_request''
          else (case jget ''description'' body of
              JUndef \<Rightarrow> None
            | JStr d \<Rightarrow> if length d > 255 then Some ''invalid_request'' else None
            | _ \<Rightarrow> Some ''invalid_request'')
      | _ \<Rightarrow> Some ''invalid_request'')"

definition new_webhook :: "(nat list \<Rightarrow> string) \<Rightarrow> time_ms \<Rightarrow> webhook_draw \<Rightarrow> uuid \<Rightarrow> environment \<Rightarrow> json \<Rightarrow> webhook" where
  "new_webhook base64url now draw tenantId e body =
     \<lparr> wh_id = wd_id draw, wh_tenant_id = tenantId, wh_environment = e,
       wh_url = trim (or_else [] (jstr (jget ''url'' body))), wh_secret = generateWebhookSecret base64url (wd_secret draw),
       wh_event_filter = (case jget ''event_filter'' body of JArr xs \<Rightarrow> xs | _ \<Rightarrow> []),
       wh_enabled = (case jget ''enabled'' body of JBool b \<Rightarrow> b | _ \<Rightarrow> True),
       wh_description = map_option trim (jstr (jget ''description'' body)),
       wh_last_delivery_at = None, wh_last_delivery_ok = None, wh_consecutive_failures = 0,
       wh_created_at = now, wh_updated_at = now \<rparr>"

text \<open>The handler runs in two statements, the count and the insertion, with other requests between them.\<close>

definition webhook_admitted ::
  "url_parser \<Rightarrow> uuid \<times> string \<Rightarrow> json \<Rightarrow> json \<Rightarrow> webhook list \<Rightarrow> (nat \<times> string) option" where
  "webhook_admitted parse who body query hooks =
     (case webhook_error parse body of
        Some code \<Rightarrow> Some (400, code)
      | None \<Rightarrow>
          if length (select_rows (of_tenant (fst who) (requested_env body query)) hooks) \<ge> MAX_WEBHOOKS_PER_ENV
          then Some (400, ''webhook_limit_reached'') else None)"

definition store_webhook ::
  "(string \<Rightarrow> string) \<Rightarrow> (nat list \<Rightarrow> string) \<Rightarrow> time_ms \<Rightarrow> webhook_draw \<Rightarrow> uuid \<times> string \<Rightarrow> json \<Rightarrow> json \<Rightarrow>
    server \<times> webhook list \<Rightarrow> (webhook_info \<times> string) answer \<times> server \<times> webhook list" where
  "store_webhook sha base64url now draw who body query st =
     (let (s, hooks) = st; e = requested_env body query;
          row = new_webhook base64url now draw (fst who) e body in
      (Reply 201 (redactWebhook row, wh_secret row),
       recordAuditEvent sha now (fst who)
         (webhook_audit who e ''webhook.created'' (wh_id row) AuditSuccess (''Registered webhook for '' @ wh_url row)
           [(''url'', JStr (wh_url row)), (''event_filter'', JArr (wh_event_filter row)), (''enabled'', JBool (wh_enabled row))]) s,
       hooks @ [row]))"

definition post_webhooks ::
  "(string \<Rightarrow> string) \<Rightarrow> (nat list \<Rightarrow> string) \<Rightarrow> url_parser \<Rightarrow> time_ms \<Rightarrow> webhook_draw \<Rightarrow> uuid \<times> string \<Rightarrow> json \<Rightarrow> json \<Rightarrow>
    (server \<times> webhook list \<Rightarrow> server \<times> webhook list) \<Rightarrow> server \<times> webhook list \<Rightarrow>
    (webhook_info \<times> string) answer \<times> server \<times> webhook list" where
  "post_webhooks sha base64url parse now draw who body query meanwhile st =
     (case webhook_admitted parse who body query (snd st) of
        Some (status, code) \<Rightarrow> (Refuse status code, st)
      | None \<Rightarrow> store_webhook sha base64url now draw who body query (meanwhile st))"

text \<open>A \<open>uuid\<close> column compares without letter case; stored identifiers are in lower case.\<close>

definition named_webhook :: "string \<Rightarrow> uuid \<Rightarrow> environment \<Rightarrow> webhook \<Rightarrow> bool" where
  "named_webhook i t e w \<longleftrightarrow> wh_id w = lower i \<and> of_tenant t e w"

definition delete_webhook ::
  "(string \<Rightarrow> string) \<Rightarrow> time_ms \<Rightarrow> uuid \<times> string \<Rightarrow> string \<Rightarrow> json \<Rightarrow> json \<Rightarrow>
    server \<times> webhook list \<Rightarrow> webhook_info answer \<times> server \<times> webhook list" where
  "delete_webhook sha now who i body query st =
     (let (s, hooks) = st; e = requested_env body query in
      if \<not> is_uuid_text i then (Refuse 400 ''invalid_webhook_id'', st)
      else (case first_row (named_webhook i (fst who) e) hooks of
          None \<Rightarrow>
            (Refuse 404 ''webhook_not_found'',
             recordAuditEvent sha now (fst who)
               (webhook_audit who e ''webhook.deleted'' i AuditFailure (''Webhook not found or wrong tenant: '' @ i)
                 [(''requested_id'', JStr i)]) s, hooks)
        | Some row \<Rightarrow>
            (Reply 200 (redactWebhook row),
             recordAuditEvent sha now (fst who)
               (webhook_audit who e ''webhook.deleted'' (wh_id row) AuditSuccess (''Deleted webhook for '' @ wh_url row)
                 [(''url'', JStr (wh_url row)), (''event_filter'', JArr (wh_event_filter row)), (''was_enabled'', JBool (wh_enabled row))]) s,
             delete_rows (named_webhook i (fst who) e) hooks)))"

section \<open>Every stored destination is a checked one\<close>

definition hook_ok :: "url_parser \<Rightarrow> webhook \<Rightarrow> bool" where
  "hook_ok parse w \<longleftrightarrow> isAllowedWebhookUrl parse (wh_url w) \<and> length (wh_url w) \<le> MAX_URL_LENGTH \<and>
     validateEventFilter (JArr (wh_event_filter w)) \<and> length (or_else [] (wh_description w)) \<le> 255"

text \<open>A step is a statement that changes the table: the insertion of a request whose count was taken at an
  earlier state, or a deletion.\<close>

inductive webhook_step ::
  "(string \<Rightarrow> string) \<Rightarrow> (nat list \<Rightarrow> string) \<Rightarrow> url_parser \<Rightarrow> server \<times> webhook list \<Rightarrow> server \<times> webhook list \<Rightarrow> bool"
  for sha base64url parse where
  create: "webhook_admitted parse who body query earlier = None \<Longrightarrow>
    webhook_step sha base64url parse st (snd (store_webhook sha base64url now draw who body query st))"
| remove: "webhook_step sha base64url parse st (snd (delete_webhook sha now who i body query st))"

lemma new_webhook_ok:
  assumes "webhook_admitted parse who body query earlier = None"
  shows "hook_ok parse (new_webhook base64url now draw t e body)"
proof -
  from assms have err: "webhook_error parse body = None" by (simp add: webhook_admitted_def split: option.splits)
  then obtain url where url: "jget ''url'' body = JStr url" "length url \<le> MAX_URL_LENGTH" "isAllowedWebhookUrl parse (trim url)"
    and flt: "validateEventFilter (jget ''event_filter'' body)"
    by (auto simp: webhook_error_def split: json.splits if_splits)
  have "length (or_else [] (map_option trim (jstr (jget ''description'' body)))) \<le> 255"
  proof (cases "jget ''description'' body")
    case (JStr d)
    then have "length d \<le> 255" using err url by (auto simp: webhook_error_def split: json.splits if_splits)
    then show ?thesis using length_trim [of d] JStr by (simp add: jstr_def or_else_def)
  qed (simp_all add: jstr_def or_else_def)
  moreover have "validateEventFilter (JArr (case jget ''event_filter'' body of JArr xs \<Rightarrow> xs | _ \<Rightarrow> []))"
    using flt by (simp add: validateEventFilter_def split: json.splits)
  moreover have "length (trim url) \<le> MAX_URL_LENGTH" using length_trim [of url] url(2) by simp
  ultimately show ?thesis using url by (simp add: hook_ok_def new_webhook_def jstr_def or_else_def)
qed

lemma webhook_step_ok:
  assumes "webhook_step sha base64url parse st st'" and "\<forall>w \<in> set (snd st). hook_ok parse w"
  shows "\<forall>w \<in> set (snd st'). hook_ok parse w"
  using assms
proof cases
  case (create who body query earlier now draw)
  then show ?thesis using assms(2) new_webhook_ok [OF create(2)] by (auto simp: store_webhook_def Let_def split: prod.split)
next
  case (remove now who i body query)
  then show ?thesis using assms(2)
    by (auto simp: delete_webhook_def delete_rows_def Let_def split: prod.splits option.splits)
qed

text \<open>Property C28.  Whatever requests reach the registry, and however their counts and insertions interleave, every
  stored destination has an address that passed the URL checks, a bounded length, a valid event filter and a
  bounded description, and the list of a tenant shows only rows of that tenant and environment.\<close>

theorem webhooks_checked:
  assumes "(webhook_step sha base64url parse)\<^sup>*\<^sup>* (s0, []) (s, hooks)"
  shows "list_all (hook_ok parse) hooks \<and>
    list_all (\<lambda>w. wi_tenant_id w = fst who \<and> wi_environment w = fst (get_webhooks who environment hooks))
      (snd (get_webhooks who environment hooks)) \<and>
    length (snd (get_webhooks who environment hooks)) \<le> 100"
proof -
  have "\<forall>w \<in> set (snd (s, hooks)). hook_ok parse w"
    using assms by (induction rule: rtranclp_induct) (auto dest: webhook_step_ok)
  then show ?thesis
    by (auto simp: list_all_iff get_webhooks_def select_rows_def of_tenant_def redactWebhook_def dest!: in_set_takeD)
qed

text \<open>With nothing between its count and its insertion a request respects the cap of ten rows; two requests that
  both count nine rows before either inserts leave eleven.\<close>

definition env_hooks :: "uuid \<Rightarrow> environment \<Rightarrow> webhook list \<Rightarrow> nat" where
  "env_hooks t e hooks = length (select_rows (of_tenant t e) hooks)"

lemma store_webhook_hooks:
  "snd (snd (store_webhook sha base64url now draw who body query st)) =
     snd st @ [new_webhook base64url now draw (fst who) (requested_env body query) body]"
  by (simp add: store_webhook_def Let_def split: prod.split)

lemma env_hooks_append: "env_hooks t e (hooks @ [w]) = env_hooks t e hooks + (if of_tenant t e w then 1 else 0)"
  by (simp add: env_hooks_def select_rows_def)

lemma new_webhook_of: "of_tenant t e (new_webhook b now draw t' e' body) \<longleftrightarrow> t = t' \<and> e = e'"
  by (auto simp: of_tenant_def new_webhook_def)

text \<open>Property C37.  The cap of ten webhooks holds for requests that run alone; two requests of a tenant with nine
  webhooks, the second running between the count and the insertion of the first, are both answered 201
  and leave eleven rows.\<close>

theorem webhook_cap_races:
  assumes "webhook_error parse body = None" and "webhook_error parse body' = None"
    and "requested_env body query = e" "requested_env body' query' = e"
    and "env_hooks (fst who) e hooks = 9"
  shows "env_hooks (fst who) e (snd (snd (post_webhooks sha b64 parse now draw who body query id (s, hooks)))) = MAX_WEBHOOKS_PER_ENV \<and>
    (let other = (\<lambda>st. snd (post_webhooks sha b64 parse now' draw' who body' query' id st));
         both = post_webhooks sha b64 parse now draw who body query other (s, hooks)
     in (\<exists>x. fst both = Reply 201 x) \<and> env_hooks (fst who) e (snd (snd both)) = 11)"
proof -
  have adm: "webhook_admitted parse who body query hooks = None" "webhook_admitted parse who body' query' hooks = None"
    using assms by (simp_all add: webhook_admitted_def env_hooks_def MAX_WEBHOOKS_PER_ENV_def)
  have "fst (store_webhook sha b64 now draw who body query st) = Reply 201 (redactWebhook (new_webhook b64 now draw (fst who) e body),
      wh_secret (new_webhook b64 now draw (fst who) e body))" for st
    by (simp add: store_webhook_def Let_def assms(3) split: prod.split)
  then show ?thesis
    using assms adm by (simp add: post_webhooks_def Let_def store_webhook_hooks env_hooks_append new_webhook_of MAX_WEBHOOKS_PER_ENV_def)
qed

text \<open>The host name of an IPv6 literal keeps its brackets in \<open>URL.hostname\<close>, so the entry for the loopback
  address never matches one.\<close>

theorem bracketed_loopback_allowed:
  assumes "parse url = Some (''http:'', ''[::1]'')"
  shows "isAllowedWebhookUrl parse url"
proof -
  have "lower ''[::1]'' = ''[::1]''" "\<not> private_172 ''[::1]''" by code_simp+
  then show ?thesis using assms by (simp add: isAllowedWebhookUrl_def blockedExact_def)
qed

section \<open>Examples\<close>

definition demo_url_parser :: url_parser where
  "demo_url_parser u = (if u = ''u'' then Some (''https:'', ''hooks.example.com'') else None)"

definition demo_hook_body :: json where
  "demo_hook_body = JObj [(''url'', JStr ''u''), (''event_filter'', JArr [JStr ''verification.*'', JStr ''*''])]"

lemma demo_hook_accepted: "webhook_error demo_url_parser demo_hook_body = None" "requested_env demo_hook_body JUndef = Live"
proof -
  have "lower ''hooks.example.com'' = ''hooks.example.com''" "trim ''u'' = ''u''" "\<not> private_172 ''hooks.example.com''"
    "EVENT_FILTER_PATTERN ''verification.*''" "EVENT_FILTER_PATTERN ''*''"
    by code_simp+
  then show "webhook_error demo_url_parser demo_hook_body = None" "requested_env demo_hook_body JUndef = Live"
    by (simp_all add: webhook_error_def demo_hook_body_def jget_def or_else_def demo_url_parser_def isAllowedWebhookUrl_def
        validateEventFilter_def blockedExact_def MAX_URL_LENGTH_def requested_env_def parseEnv_def)
qed

definition demo_hook :: webhook where
  "demo_hook = new_webhook (\<lambda>_. ''x'') 0 \<lparr> wd_id = ''i'', wd_secret = [] \<rparr> ''t'' Live demo_hook_body"

theorem webhooks_checked_witness:
  "\<exists>s hooks. hooks \<noteq> [] \<and> list_all (hook_ok demo_url_parser) hooks"
proof -
  let ?draw = "\<lparr> wd_id = ''i'', wd_secret = [] \<rparr> :: webhook_draw"
  let ?st = "snd (store_webhook rev (\<lambda>_. ''x'') 0 ?draw (''t'', ''e'') demo_hook_body JUndef (empty_server, []))"
  obtain s hooks where st: "?st = (s, hooks)" by (cases ?st)
  have "webhook_admitted demo_url_parser (''t'', ''e'') demo_hook_body JUndef [] = None"
    by (simp add: webhook_admitted_def demo_hook_accepted select_rows_def MAX_WEBHOOKS_PER_ENV_def)
  then have "webhook_step rev (\<lambda>_. ''x'') demo_url_parser (empty_server, []) ?st" by (rule webhook_step.create)
  then have "(webhook_step rev (\<lambda>_. ''x'') demo_url_parser)\<^sup>*\<^sup>* (empty_server, []) (s, hooks)" unfolding st by blast
  from webhooks_checked [OF this] have "list_all (hook_ok demo_url_parser) hooks" by blast
  moreover have "hooks \<noteq> []" using arg_cong [OF st, of snd] store_webhook_hooks by (metis append_is_Nil_conv list.discI snd_conv)
  ultimately show ?thesis by blast
qed

theorem webhook_cap_races_witness:
  "env_hooks ''t'' Live (snd (snd (post_webhooks rev (\<lambda>_. ''x'') demo_url_parser 0 \<lparr> wd_id = ''i'', wd_secret = [] \<rparr> (''t'', ''e'')
      demo_hook_body JUndef (\<lambda>st. snd (post_webhooks rev (\<lambda>_. ''x'') demo_url_parser 0 \<lparr> wd_id = ''j'', wd_secret = [] \<rparr>
        (''t'', ''e'') demo_hook_body JUndef id st)) (empty_server, replicate 9 demo_hook)))) = 11"
proof -
  have n: "env_hooks (fst (''t'', ''e'')) Live (replicate 9 demo_hook) = 9"
    by (simp add: env_hooks_def select_rows_def demo_hook_def new_webhook_of)
  show ?thesis
    using webhook_cap_races [OF demo_hook_accepted(1) demo_hook_accepted(1) demo_hook_accepted(2) demo_hook_accepted(2) n] by (simp add: Let_def)
qed

end
