(* ===== verification/Resources.thy ===== *)
theory Resources
  imports Platform Api_Access Webhooks Registration
begin

text \<open>
  The routes over devices, users, verifications, attendance and the audit log: the API of a tenant's key
  (\<open>src/routes/v1/devices.ts\<close>, \<open>users.ts\<close>, \<open>verifications.ts\<close>,
  \<open>attendance.ts\<close>, \<open>audit.ts\<close>) and the console's (\<open>src/routes/console.ts\<close>).  A handler
  is given the caller the middleware found, the parsed body or query, and the database.  Its refusals
  are guards in the order in which the code meets them; a raise ends in the status 500 of its
  \<open>catch\<close>.  The handlers do not wait for the audit write of the service they call; here it completes,
  and \<open>Platform\<close> (\<open>tenant_outcome\<close>, \<open>every_mutation_is_audited\<close>) treats a write that fails.
\<close>

section \<open>Reading requests\<close>

text \<open>What a call draws and asks of the runtime: the clock, fresh identifiers, random numbers, the
  \<open>Date\<close> constructor and Postgres' reading of a \<open>uuid\<close> (\<open>None\<close>: it raises).\<close>

record call_env =
  ca_sha :: "string \<Rightarrow> string"
  ca_now :: time_ms
  ca_newid :: uuid
  ca_uuid :: uuid
  ca_draw :: "nat \<Rightarrow> nat"
  ca_date :: "json \<Rightarrow> time_ms option"
  ca_pg_uuid :: "string \<Rightarrow> uuid option"

type_synonym guard = "bool \<times> nat \<times> string"

text \<open>The first guard that holds answers the request.\<close>

fun guarded :: "guard list \<Rightarrow> 'a answer \<times> 's \<Rightarrow> 's \<Rightarrow> 'a answer \<times> 's" where
  "guarded [] rest s = rest"
| "guarded ((b, status, code) # gs) rest s = (if b then (Refuse status code, s) else guarded gs rest s)"

text \<open>\<open>v?.trim()\<close> raises on a value that is neither absent nor text.\<close>

definition ill_text :: "json \<Rightarrow> bool" where
  "ill_text v = (case v of JUndef \<Rightarrow> False | JNull \<Rightarrow> False | JStr _ \<Rightarrow> False | _ \<Rightarrow> True)"

definition text_in :: "json \<Rightarrow> string \<Rightarrow> string option" where
  "text_in body k = jstr (jget k body)"

text \<open>\<open>!v || typeof v !== 'string' || v.trim().length === 0\<close>\<close>

definition blank :: "json \<Rightarrow> bool" where
  "blank v = (case v of JStr s \<Rightarrow> trim s = [] | _ \<Rightarrow> True)"

text \<open>A reference: a falsy value is none; one that is no \<open>uuid\<close> makes the lookup raise.\<close>

definition ref_of :: "call_env \<Rightarrow> json \<Rightarrow> uuid option" where
  "ref_of ca v = (case v of JStr s \<Rightarrow> if s = [] then None else ca_pg_uuid ca s | _ \<Rightarrow> None)"

definition bad_ref :: "call_env \<Rightarrow> json \<Rightarrow> bool" where
  "bad_ref ca v \<longleftrightarrow> truthy v \<and> (case v of JStr s \<Rightarrow> ca_pg_uuid ca s = None | _ \<Rightarrow> True)"

definition lost_ref :: "call_env \<Rightarrow> (uuid \<Rightarrow> 'r option) \<Rightarrow> json \<Rightarrow> bool" where
  "lost_ref ca look v \<longleftrightarrow> (case ref_of ca v of None \<Rightarrow> False | Some i \<Rightarrow> i \<noteq> [] \<and> look i = None)"

text \<open>A member that names one of a table of values: \<open>v && !TABLE.includes(v)\<close> refuses; a falsy value
  that is not absent reaches the \<open>CHECK\<close> constraint of the column.\<close>

definition unlisted :: "(string \<times> 'x) list \<Rightarrow> json \<Rightarrow> bool" where
  "unlisted table v \<longleftrightarrow> truthy v \<and> (case v of JStr s \<Rightarrow> s \<notin> set (map fst table) | _ \<Rightarrow> True)"

definition choice_of :: "(string \<times> 'x) list \<Rightarrow> json \<Rightarrow> 'x option" where
  "choice_of table v = (case v of JStr s \<Rightarrow> map_of table s | _ \<Rightarrow> None)"

definition falsy_value :: "json \<Rightarrow> bool" where
  "falsy_value v \<longleftrightarrow> \<not> truthy v \<and> v \<noteq> JUndef \<and> v \<noteq> JNull"

text \<open>\<open>v !== undefined && (!Number.isInteger(v) || v < 0 || v > 100)\<close>\<close>

definition bad_battery :: "json \<Rightarrow> bool" where
  "bad_battery v = (case v of JUndef \<Rightarrow> False | JNum n \<Rightarrow> n < 0 \<or> n > 100 | _ \<Rightarrow> True)"

definition int_in :: "json \<Rightarrow> int option" where
  "int_in v = (case v of JNum n \<Rightarrow> Some n | _ \<Rightarrow> None)"

text \<open>A timestamp member is given to the \<open>Date\<close> constructor as it is, when it is truthy: the services'
  timestamp parser is applied with the member itself.\<close>

definition stamp :: "json \<Rightarrow> string option" where
  "stamp v = (if truthy v then Some ''timestamp'' else None)"

definition date_at :: "call_env \<Rightarrow> json \<Rightarrow> string \<Rightarrow> time_ms option" where
  "date_at ca v _ = ca_date ca v"

definition bad_date :: "call_env \<Rightarrow> json \<Rightarrow> bool" where
  "bad_date ca v \<longleftrightarrow> truthy v \<and> ca_date ca v = None"

text \<open>\<open>String(v)\<close> of a query member, a list element being text.\<close>

definition query_text :: "json \<Rightarrow> string" where
  "query_text v = (case v of JStr s \<Rightarrow> s
     | JArr xs \<Rightarrow> concat (map (\<lambda>x. (case x of JStr s \<Rightarrow> s | _ \<Rightarrow> ''[object Object]'') @ '','') xs)
     | _ \<Rightarrow> ''[object Object]'')"

definition query_limit :: "json \<Rightarrow> int option" where
  "query_limit v = (if truthy v then parse_int10 (query_text v) else None)"

text \<open>\<open>parseLimit\<close> of the console: \<open>None\<close> is the range error.\<close>

definition parseLimit :: "json \<Rightarrow> int option option" where
  "parseLimit v = (if v = JUndef \<or> v = JNull \<or> v = JStr [] then Some None
     else (case parse_int10 (query_text v) of
         None \<Rightarrow> None
       | Some n \<Rightarrow> if n \<le> 0 \<or> n > 1000 then None else Some (Some n)))"

definition DEVICE_STATUSES :: "(string \<times> device_status) list" where
  "DEVICE_STATUSES = [(''active'', DeviceActive), (''inactive'', DeviceInactive), (''retired'', DeviceRetired)]"

definition DEVICE_ENROLLMENT_STATES :: "(string \<times> enrollment_state) list" where
  "DEVICE_ENROLLMENT_STATES = [(''pending'', Pending), (''enrolled'', Enrolled), (''revoked'', Revoked)]"

definition USER_STATUSES :: "(string \<times> tenant_user_status) list" where
  "USER_STATUSES = [(''active'', UserActive), (''inactive'', UserInactive)]"

definition VERIFICATION_METHODS :: "(string \<times> verification_method) list" where
  "VERIFICATION_METHODS = [(''zkp'', MZkp), (''fingerprint'', MFingerprint), (''face'', MFace), (''depth'', MDepth),
     (''saml'', MSaml), (''oidc'', MOidc), (''manual'', MManual)]"

definition VERIFICATION_RESULTS :: "(string \<times> verification_result) list" where
  "VERIFICATION_RESULTS = [(''pass'', Pass), (''fail'', Fail), (''challenge'', Challenge)]"

definition ATTENDANCE_TYPES :: "(string \<times> attendance_type) list" where
  "ATTENDANCE_TYPES = [(''check_in'', CheckIn), (''check_out'', CheckOut)]"

definition ATTENDANCE_RESULTS :: "(string \<times> attendance_result) list" where
  "ATTENDANCE_RESULTS = [(''accepted'', Accepted), (''rejected'', Rejected)]"

definition AUDIT_STATUSES :: "(string \<times> audit_status) list" where
  "AUDIT_STATUSES = [(''success'', AuditSuccess), (''failure'', AuditFailure)]"

section \<open>The caller\<close>

text \<open>A tenant, the environment the request acts in, and the actor of its audit rows.\<close>

record caller =
  cl_tenant :: uuid
  cl_env :: environment
  cl_actor :: audit_actor

definition key_caller :: "tenant \<Rightarrow> api_key \<Rightarrow> caller" where
  "key_caller tn k = \<lparr> cl_tenant = tn_id tn, cl_env = ak_environment k,
     cl_actor = \<lparr> ac_type = ActorApiKey, ac_id = Some (ak_id k), ac_email = None \<rparr> \<rparr>"

definition console_caller :: "uuid \<times> string \<Rightarrow> environment \<Rightarrow> caller" where
  "console_caller who e = \<lparr> cl_tenant = fst who, cl_env = e,
     cl_actor = \<lparr> ac_type = ActorConsole, ac_id = Some (fst who), ac_email = Some (snd who) \<rparr> \<rparr>"

section \<open>Devices\<close>

definition device_body :: "json \<Rightarrow> device_input" where
  "device_body body = \<lparr> di_external_id = text_in body ''externalId'', di_name = or_else [] (text_in body ''name''),
     di_device_type = choice_of DEVICE_TYPES (jget ''deviceType'' body), di_location_id = text_in body ''locationId'',
     di_battery_level = int_in (jget ''batteryLevel'' body), di_metadata = jget ''metadata'' body \<rparr>"

text \<open>\<open>deviceType !== undefined && !isValidDeviceType(deviceType)\<close>; a missing external identifier or one
  that is not text is drawn.\<close>

definition bad_device_type :: "json \<Rightarrow> bool" where
  "bad_device_type v = (case v of JStr s \<Rightarrow> \<not> isValidDeviceType s | _ \<Rightarrow> True)"

definition post_v1_devices :: "call_env \<Rightarrow> tenant \<Rightarrow> api_key \<Rightarrow> json \<Rightarrow> server \<Rightarrow> device answer \<times> server" where
  "post_v1_devices ca tn k body s =
     guarded
       [(blank (jget ''name'' body), 400, ''invalid_request''),
        (jget ''deviceType'' body \<noteq> JUndef \<and> bad_device_type (jget ''deviceType'' body), 400, ''invalid_request''),
        (bad_battery (jget ''batteryLevel'' body), 400, ''invalid_request''),
        (ill_text (jget ''locationId'' body), 500, ''device_create_failed'')]
       (case createDevice (ca_sha ca) (ca_now ca) (ca_newid ca) (ca_uuid ca) (tn_id tn) (ak_environment k)
           (device_body body) (Some (cl_actor (key_caller tn k))) s of
          (Inr d, s') \<Rightarrow> (Reply 201 d, s')
        | (Inl _, s') \<Rightarrow> (Refuse 409 ''device_external_id_taken'', s'))
       s"

definition get_v1_devices :: "tenant \<Rightarrow> api_key \<Rightarrow> json \<Rightarrow> server \<Rightarrow> (device list \<times> environment) answer" where
  "get_v1_devices tn k query s =
     (if unlisted DEVICE_STATUSES (jget ''status'' query) then Refuse 400 ''invalid_status_filter''
      else Reply 200 (listDevices (tn_id tn) (ak_environment k) (choice_of DEVICE_STATUSES (jget ''status'' query)) None
        (query_limit (jget ''limit'' query)) s, ak_environment k))"


definition device_patch_body :: "json \<Rightarrow> device_patch" where
  "device_patch_body body = \<lparr> dp_name = text_in body ''name'', dp_location_id = text_in body ''locationId'',
     dp_battery_level = int_in (jget ''batteryLevel'' body), dp_status = choice_of DEVICE_STATUSES (jget ''status'' body),
     dp_metadata = jget ''metadata'' body, dp_last_seen_at = stamp (jget ''lastSeenAt'' body) \<rparr>"

definition patch_device :: "call_env \<Rightarrow> caller \<Rightarrow> string \<Rightarrow> json \<Rightarrow> server \<Rightarrow> device answer \<times> server" where
  "patch_device ca c path body s =
     (let i = or_else path (ca_pg_uuid ca path); status = jget ''status'' body in
      guarded
        [(unlisted DEVICE_STATUSES status, 400, ''invalid_status''),
         (bad_battery (jget ''batteryLevel'' body), 400, ''invalid_battery_level''),
         (ill_text (jget ''name'' body) \<or> ill_text (jget ''locationId'' body), 500, ''device_update_failed''),
         (bad_date ca (jget ''lastSeenAt'' body), 500, ''device_update_failed''),
         (ca_pg_uuid ca path = None, 500, ''device_update_failed''),
         (falsy_value status \<and> findDevice (cl_tenant c) (cl_env c) i s \<noteq> None, 500, ''device_update_failed'')]
        (case updateDevice (date_at ca (jget ''lastSeenAt'' body)) (ca_sha ca) (ca_now ca) (cl_tenant c) (cl_env c) i
            (device_patch_body body) (Some (cl_actor c)) s of
           (Inr (Some d), s') \<Rightarrow> (Reply 200 d, s')
         | (Inr None, s') \<Rightarrow> (Refuse 404 ''device_not_found'', s')
         | (Inl _, s') \<Rightarrow> (Refuse 500 ''device_update_failed'', s'))
        s)"

definition patch_v1_device :: "call_env \<Rightarrow> tenant \<Rightarrow> api_key \<Rightarrow> string \<Rightarrow> json \<Rightarrow> server \<Rightarrow> device answer \<times> server" where
  "patch_v1_device ca tn k = patch_device ca (key_caller tn k)"

section \<open>Users\<close>

definition user_body :: "call_env \<Rightarrow> json \<Rightarrow> user_input" where
  "user_body ca body = \<lparr> ui_external_id = text_in body ''externalId'', ui_full_name = or_else [] (text_in body ''fullName''),
     ui_email = text_in body ''email'', ui_phone = text_in body ''phone'', ui_employee_code = text_in body ''employeeCode'',
     ui_primary_device = ref_of ca (jget ''primaryDeviceId'' body), ui_metadata = jget ''metadata'' body \<rparr>"

definition create_user :: "call_env \<Rightarrow> caller \<Rightarrow> json \<Rightarrow> server \<Rightarrow> tenant_user answer \<times> server" where
  "create_user ca c body s =
     (let dev = jget ''primaryDeviceId'' body in
      guarded
        [(blank (jget ''fullName'' body), 400, ''invalid_request''),
         (bad_ref ca dev, 500, ''user_create_failed''),
         (lost_ref ca (\<lambda>i. findDevice (cl_tenant c) (cl_env c) i s) dev, 404, ''device_not_found''),
         (ill_text (jget ''email'' body) \<or> ill_text (jget ''phone'' body) \<or> ill_text (jget ''employeeCode'' body), 500, ''user_create_failed'')]
        (case createTenantUser (ca_sha ca) (ca_now ca) (ca_newid ca) (ca_uuid ca) (cl_tenant c) (cl_env c)
            (user_body ca body) (Some (cl_actor c)) s of
           (Inr u, s') \<Rightarrow> (Reply 201 u, s')
         | (Inl DeviceMissing, s') \<Rightarrow> (Refuse 404 ''device_not_found'', s')
         | (Inl _, s') \<Rightarrow> (Refuse 409 ''user_external_id_taken'', s'))
        s)"

definition post_v1_users :: "call_env \<Rightarrow> tenant \<Rightarrow> api_key \<Rightarrow> json \<Rightarrow> server \<Rightarrow> tenant_user answer \<times> server" where
  "post_v1_users ca tn k = create_user ca (key_caller tn k)"

definition get_v1_users :: "tenant \<Rightarrow> api_key \<Rightarrow> json \<Rightarrow> server \<Rightarrow> (tenant_user list \<times> environment) answer" where
  "get_v1_users tn k query s =
     (if unlisted USER_STATUSES (jget ''status'' query) then Refuse 400 ''invalid_status_filter''
      else Reply 200 (listTenantUsers (tn_id tn) (ak_environment k) (choice_of USER_STATUSES (jget ''status'' query))
        (query_limit (jget ''limit'' query)) s, ak_environment k))"

definition user_patch_body :: "call_env \<Rightarrow> json \<Rightarrow> user_patch" where
  "user_patch_body ca body = \<lparr> up_full_name = text_in body ''fullName'', up_email = text_in body ''email'',
     up_phone = text_in body ''phone'', up_employee_code = text_in body ''employeeCode'',
     up_status = choice_of USER_STATUSES (jget ''status'' body), up_primary_device = ref_of ca (jget ''primaryDeviceId'' body),
     up_metadata = jget ''metadata'' body \<rparr>"

definition modify_user :: "call_env \<Rightarrow> caller \<Rightarrow> string \<Rightarrow> json \<Rightarrow> server \<Rightarrow> tenant_user answer \<times> server" where
  "modify_user ca c path body s =
     (let i = or_else path (ca_pg_uuid ca path); dev = jget ''primaryDeviceId'' body; status = jget ''status'' body in
      guarded
        [(unlisted USER_STATUSES status, 400, ''invalid_status''),
         (bad_ref ca dev, 500, ''user_update_failed''),
         (lost_ref ca (\<lambda>i. findDevice (cl_tenant c) (cl_env c) i s) dev, 404, ''device_not_found''),
         (ill_text (jget ''fullName'' body) \<or> ill_text (jget ''email'' body) \<or> ill_text (jget ''phone'' body)
            \<or> ill_text (jget ''employeeCode'' body), 500, ''user_update_failed''),
         (ca_pg_uuid ca path = None, 500, ''user_update_failed''),
         (falsy_value status \<and> findTenantUser (cl_tenant c) (cl_env c) i s \<noteq> None, 500, ''user_update_failed'')]
        (case updateTenantUser (ca_sha ca) (ca_now ca) (cl_tenant c) (cl_env c) i (user_patch_body ca body)
            (Some (cl_actor c)) s of
           (Inr (Some u), s') \<Rightarrow> (Reply 200 u, s')
         | (Inr None, s') \<Rightarrow> (Refuse 404 ''user_not_found'', s')
         | (Inl DeviceMissing, s') \<Rightarrow> (Refuse 404 ''device_not_found'', s')
         | (Inl _, s') \<Rightarrow> (Refuse 500 ''user_update_failed'', s'))
        s)"

definition patch_v1_user :: "call_env \<Rightarrow> tenant \<Rightarrow> api_key \<Rightarrow> string \<Rightarrow> json \<Rightarrow> server \<Rightarrow> tenant_user answer \<times> server" where
  "patch_v1_user ca tn k = modify_user ca (key_caller tn k)"

section \<open>Verifications\<close>

text \<open>The confidence is a number of at most three digits before the point; a numeral given as text is
  not modelled.\<close>

definition bad_confidence :: "json \<Rightarrow> bool" where
  "bad_confidence v = (case v of JUndef \<Rightarrow> False | JNull \<Rightarrow> False | JNum n \<Rightarrow> abs n \<ge> 1000 | _ \<Rightarrow> True)"

definition verification_body :: "call_env \<Rightarrow> json \<Rightarrow> verification_method \<Rightarrow> verification_result \<Rightarrow> verification_input" where
  "verification_body ca body m r = \<lparr> vi_user_id = ref_of ca (jget ''userId'' body), vi_device_id = ref_of ca (jget ''deviceId'' body),
     vi_method = m, vi_result = r, vi_reason = text_in body ''reason'', vi_confidence = int_in (jget ''confidenceScore'' body),
     vi_reference_id = text_in body ''referenceId'', vi_metadata = jget ''metadata'' body,
     vi_occurred_at = stamp (jget ''occurredAt'' body) \<rparr>"

definition post_v1_verifications :: "call_env \<Rightarrow> tenant \<Rightarrow> api_key \<Rightarrow> json \<Rightarrow> server \<Rightarrow> verification answer \<times> server" where
  "post_v1_verifications ca tn k body s =
     (case choice_of VERIFICATION_METHODS (jget ''method'' body) of
        None \<Rightarrow> (Refuse 400 ''invalid_method'', s)
      | Some m \<Rightarrow>
     (case choice_of VERIFICATION_RESULTS (jget ''result'' body) of
        None \<Rightarrow> (Refuse 400 ''invalid_result'', s)
      | Some r \<Rightarrow>
      guarded
        [(bad_date ca (jget ''occurredAt'' body), 500, ''verification_create_failed''),
         (bad_ref ca (jget ''userId'' body), 500, ''verification_create_failed''),
         (lost_ref ca (\<lambda>i. findTenantUser (tn_id tn) (ak_environment k) i s) (jget ''userId'' body), 404, ''dependency_not_found''),
         (bad_ref ca (jget ''deviceId'' body), 500, ''verification_create_failed''),
         (lost_ref ca (\<lambda>i. findDevice (tn_id tn) (ak_environment k) i s) (jget ''deviceId'' body), 404, ''dependency_not_found''),
         (ill_text (jget ''reason'' body) \<or> ill_text (jget ''referenceId'' body) \<or> bad_confidence (jget ''confidenceScore'' body),
            500, ''verification_create_failed'')]
        (case createVerificationEvent (date_at ca (jget ''occurredAt'' body)) (ca_sha ca) (ca_now ca) (ca_newid ca) (tn_id tn)
            (ak_environment k) (ak_id k) (verification_body ca body m r) s of
           (Inr v, s') \<Rightarrow> (Reply 201 v, s')
         | (Inl InvalidTimestamp, s') \<Rightarrow> (Refuse 500 ''verification_create_failed'', s')
         | (Inl _, s') \<Rightarrow> (Refuse 404 ''dependency_not_found'', s'))
        s))"

definition list_verifications :: "uuid \<Rightarrow> environment \<Rightarrow> json \<Rightarrow> int option \<Rightarrow> server \<Rightarrow> (verification list \<times> environment) answer" where
  "list_verifications t e query limit s =
     (if unlisted VERIFICATION_METHODS (jget ''method'' query) then Refuse 400 ''invalid_method_filter''
      else if unlisted VERIFICATION_RESULTS (jget ''result'' query) then Refuse 400 ''invalid_result_filter''
      else Reply 200 (listVerificationEvents t e (choice_of VERIFICATION_METHODS (jget ''method'' query))
        (choice_of VERIFICATION_RESULTS (jget ''result'' query)) limit s, e))"

definition get_v1_verifications :: "tenant \<Rightarrow> api_key \<Rightarrow> json \<Rightarrow> server \<Rightarrow> (verification list \<times> environment) answer" where
  "get_v1_verifications tn k query = list_verifications (tn_id tn) (ak_environment k) query (query_limit (jget ''limit'' query))"

section \<open>Attendance and the audit log\<close>

definition attendance_body :: "call_env \<Rightarrow> json \<Rightarrow> attendance_type \<Rightarrow> attendance_input" where
  "attendance_body ca body ty = \<lparr> ti_user_id = or_else [] (ref_of ca (jget ''userId'' body)),
     ti_device_id = ref_of ca (jget ''deviceId'' body), ti_verification_id = ref_of ca (jget ''verificationId'' body), ti_type = ty,
     ti_result = choice_of ATTENDANCE_RESULTS (jget ''result'' body), ti_metadata = jget ''metadata'' body,
     ti_occurred_at = stamp (jget ''occurredAt'' body) \<rparr>"

definition post_v1_attendance :: "call_env \<Rightarrow> tenant \<Rightarrow> api_key \<Rightarrow> json \<Rightarrow> server \<Rightarrow> attendance answer \<times> server" where
  "post_v1_attendance ca tn k body s =
     (let user = jget ''userId'' body; dev = jget ''deviceId'' body; ver = jget ''verificationId'' body; result = jget ''result'' body in
      if jstr user = None \<or> jstr user = Some [] then (Refuse 400 ''invalid_request'', s)
      else (case choice_of ATTENDANCE_TYPES (jget ''type'' body) of
          None \<Rightarrow> (Refuse 400 ''invalid_type'', s)
        | Some ty \<Rightarrow>
        guarded
          [(unlisted ATTENDANCE_RESULTS result, 400, ''invalid_result''),
           (bad_date ca (jget ''occurredAt'' body), 500, ''attendance_create_failed''),
           (bad_ref ca user, 500, ''attendance_create_failed''),
           (findTenantUser (tn_id tn) (ak_environment k) (or_else [] (ref_of ca user)) s = None, 404, ''dependency_not_found''),
           (bad_ref ca dev, 500, ''attendance_create_failed''),
           (lost_ref ca (\<lambda>i. findDevice (tn_id tn) (ak_environment k) i s) dev, 404, ''dependency_not_found''),
           (bad_ref ca ver, 500, ''attendance_create_failed''),
           (lost_ref ca (\<lambda>i. findVerification (tn_id tn) (ak_environment k) i s) ver, 404, ''dependency_not_found''),
           (falsy_value result \<and> \<not> truthy ver, 500, ''attendance_create_failed'')]
          (case createAttendanceEvent (date_at ca (jget ''occurredAt'' body)) (ca_sha ca) (ca_now ca) (ca_newid ca) (tn_id tn)
              (ak_environment k) (ak_id k) (attendance_body ca body ty) s of
             (Inr a, s') \<Rightarrow> (Reply 201 a, s')
           | (Inl InvalidTimestamp, s') \<Rightarrow> (Refuse 500 ''attendance_create_failed'', s')
           | (Inl _, s') \<Rightarrow> (Refuse 404 ''dependency_not_found'', s'))
          s))"

definition list_attendance :: "uuid \<Rightarrow> environment \<Rightarrow> json \<Rightarrow> int option \<Rightarrow> server \<Rightarrow> (attendance list \<times> environment) answer" where
  "list_attendance t e query limit s =
     (if unlisted ATTENDANCE_TYPES (jget ''type'' query) then Refuse 400 ''invalid_type_filter''
      else if unlisted ATTENDANCE_RESULTS (jget ''result'' query) then Refuse 400 ''invalid_result_filter''
      else Reply 200 (listAttendanceEvents t e (choice_of ATTENDANCE_TYPES (jget ''type'' query))
        (choice_of ATTENDANCE_RESULTS (jget ''result'' query)) limit s, e))"

definition get_v1_attendance :: "tenant \<Rightarrow> api_key \<Rightarrow> json \<Rightarrow> server \<Rightarrow> (attendance list \<times> environment) answer" where
  "get_v1_attendance tn k query = list_attendance (tn_id tn) (ak_environment k) query (query_limit (jget ''limit'' query))"

definition get_v1_audit :: "tenant \<Rightarrow> api_key \<Rightarrow> json \<Rightarrow> server \<Rightarrow> (audit_event list \<times> environment) answer" where
  "get_v1_audit tn k query s =
     (if unlisted AUDIT_STATUSES (jget ''status'' query) then Refuse 400 ''invalid_status_filter''
      else Reply 200 (listAuditEvents (tn_id tn) (ak_environment k) (text_in query ''action'')
        (choice_of AUDIT_STATUSES (jget ''status'' query)) (query_limit (jget ''limit'' query)) s, ak_environment k))"

section \<open>The console\<close>

record usage_reply =
  ur_plan :: plan_tier
  ur_used :: int
  ur_limit :: int
  ur_remaining :: "int option"
  ur_rate_limit :: int
  ur_history :: "usage_month list"
  ur_recent :: "usage_log list"

text \<open>\<open>ur_remaining = None\<close> is \<open>unlimited\<close>; the summary spans six months by default.\<close>

definition get_console_usage :: "time_ms \<Rightarrow> uuid \<times> string \<Rightarrow> server \<Rightarrow> usage_reply answer" where
  "get_console_usage now who s =
     (case getTenantById (fst who) s of
        None \<Rightarrow> Refuse 404 ''Tenant not found.''
      | Some tn \<Rightarrow>
         (let used = getCurrentMonthUsage now (fst who) s in
          Reply 200 \<lparr> ur_plan = tn_plan tn, ur_used = used, ur_limit = tn_monthly_quota tn,
            ur_remaining = (if tn_monthly_quota tn = -1 then None else Some (max 0 (tn_monthly_quota tn - used))),
            ur_rate_limit = tn_rate_limit tn, ur_history = getUsageSummary now (fst who) 6 s,
            ur_recent = getRecentCalls (fst who) 50 s \<rparr>))"

record account =
  ao_id :: uuid
  ao_email :: string
  ao_company :: "string option"
  ao_plan :: plan_tier
  ao_status :: tenant_status
  ao_rate_limit :: int
  ao_monthly_quota :: int
  ao_created_at :: time_ms

definition get_console_account :: "uuid \<times> string \<Rightarrow> server \<Rightarrow> account answer" where
  "get_console_account who s =
     (case getTenantById (fst who) s of
        None \<Rightarrow> Refuse 404 ''Tenant not found.''
      | Some tn \<Rightarrow> Reply 200 \<lparr> ao_id = tn_id tn, ao_email = tn_email tn, ao_company = tn_company_name tn, ao_plan = tn_plan tn,
          ao_status = tn_status tn, ao_rate_limit = tn_rate_limit tn, ao_monthly_quota = tn_monthly_quota tn,
          ao_created_at = tn_created_at tn \<rparr>)"

definition get_console_overview :: "uuid \<times> string \<Rightarrow> json \<Rightarrow> server \<Rightarrow> overview answer" where
  "get_console_overview who query s = Reply 200 (getConsoleOverview (fst who) (parseEnv (jget ''environment'' query)) s)"

definition limited :: "json \<Rightarrow> (int option \<Rightarrow> 'a answer) \<Rightarrow> 'a answer" where
  "limited query answer = (case parseLimit (jget ''limit'' query) of
       None \<Rightarrow> Refuse 400 ''invalid_limit'' | Some limit \<Rightarrow> answer limit)"

definition get_console_audit :: "uuid \<times> string \<Rightarrow> json \<Rightarrow> server \<Rightarrow> (audit_event list \<times> environment) answer" where
  "get_console_audit who query s =
     limited query (\<lambda>limit. let e = parseEnv (jget ''environment'' query) in
       Reply 200 (listAuditEvents (fst who) e (text_in query ''action'')
         (choice_of AUDIT_STATUSES (jget ''status'' query)) limit s, e))"

definition get_console_devices :: "uuid \<times> string \<Rightarrow> json \<Rightarrow> server \<Rightarrow> (device list \<times> environment) answer" where
  "get_console_devices who query s =
     limited query (\<lambda>limit. let e = parseEnv (jget ''environment'' query) in
       if unlisted DEVICE_STATUSES (jget ''status'' query) then Refuse 400 ''invalid_status_filter''
       else if unlisted DEVICE_ENROLLMENT_STATES (jget ''enrollment_state'' query) then Refuse 400 ''invalid_enrollment_state_filter''
       else Reply 200 (listDevices (fst who) e (choice_of DEVICE_STATUSES (jget ''status'' query))
         (choice_of DEVICE_ENROLLMENT_STATES (jget ''enrollment_state'' query)) limit s, e))"

record device_invite =
  dn_environment :: environment
  dn_device :: device
  dn_code :: string
  dn_expires_at :: string
  dn_deeplink :: string

definition invite_reply :: "environment \<Rightarrow> invite \<Rightarrow> device_invite" where
  "invite_reply e iv = (case iv of (d, code, expiresAt) \<Rightarrow>
     \<lparr> dn_environment = e, dn_device = d, dn_code = code, dn_expires_at = iso_string expiresAt,
       dn_deeplink = ''zeroauth://enroll?code='' @ encodeURIComponent code \<rparr>)"

definition post_console_devices ::
  "call_env \<Rightarrow> uuid \<times> string \<Rightarrow> json \<Rightarrow> json \<Rightarrow> server \<Rightarrow> device_invite answer \<times> server" where
  "post_console_devices ca who body query s =
     (let e = requested_env body (jget ''environment'' query) in
      guarded
        [(blank (jget ''name'' body), 400, ''invalid_request''),
         (bad_device_type (jget ''deviceType'' body), 400, ''invalid_request''),
         (ill_text (jget ''locationId'' body), 500, ''device_create_failed'')]
        (case issueEnrollmentCode (ca_sha ca) (ca_now ca) (ca_newid ca) (ca_uuid ca) (ca_draw ca) (fst who) e
            \<lparr> si_name = or_else [] (text_in body ''name''), si_device_type = or_else [] (text_in body ''deviceType''),
              si_location_id = text_in body ''locationId'', si_metadata = jget ''metadata'' body \<rparr>
            (Some (cl_actor (console_caller who e))) s of
           (Inr iv, s') \<Rightarrow> (Reply 201 (invite_reply e iv), s')
         | (Inl _, s') \<Rightarrow> (Refuse 500 ''device_create_failed'', s'))
        s)"

definition post_console_regenerate ::
  "call_env \<Rightarrow> uuid \<times> string \<Rightarrow> string \<Rightarrow> json \<Rightarrow> json \<Rightarrow> server \<Rightarrow> device_invite answer \<times> server" where
  "post_console_regenerate ca who path body query s =
     (let e = requested_env body (jget ''environment'' query) in
      case ca_pg_uuid ca path of
        None \<Rightarrow> (Refuse 500 ''device_regenerate_failed'', s)
      | Some i \<Rightarrow>
         (case regenerateEnrollmentCode (ca_sha ca) (ca_now ca) (ca_draw ca) (fst who) e i (Some (cl_actor (console_caller who e))) s of
            (None, s') \<Rightarrow> (Refuse 404 ''device_not_found_or_not_pending'', s')
          | (Some iv, s') \<Rightarrow> (Reply 200 (invite_reply e iv), s')))"

definition delete_console_device ::
  "call_env \<Rightarrow> uuid \<times> string \<Rightarrow> string \<Rightarrow> json \<Rightarrow> json \<Rightarrow> server \<Rightarrow> (environment \<times> device) answer \<times> server" where
  "delete_console_device ca who path body query s =
     (let e = requested_env body (jget ''environment'' query) in
      case ca_pg_uuid ca path of
        None \<Rightarrow> (Refuse 500 ''device_revoke_failed'', s)
      | Some i \<Rightarrow>
         (case revokeDevice (ca_sha ca) (ca_now ca) (fst who) e i (Some (cl_actor (console_caller who e))) s of
            (None, s') \<Rightarrow> (Refuse 404 ''device_not_found'', s')
          | (Some d, s') \<Rightarrow> (Reply 200 (e, d), s')))"

definition patch_console_device ::
  "call_env \<Rightarrow> uuid \<times> string \<Rightarrow> string \<Rightarrow> json \<Rightarrow> json \<Rightarrow> server \<Rightarrow> device answer \<times> server" where
  "patch_console_device ca who path body query =
     patch_device ca (console_caller who (requested_env body (jget ''environment'' query))) path body"

definition get_console_users :: "uuid \<times> string \<Rightarrow> json \<Rightarrow> server \<Rightarrow> (tenant_user list \<times> environment) answer" where
  "get_console_users who query s =
     limited query (\<lambda>limit. let e = parseEnv (jget ''environment'' query) in
       if unlisted USER_STATUSES (jget ''status'' query) then Refuse 400 ''invalid_status_filter''
       else Reply 200 (listTenantUsers (fst who) e (choice_of USER_STATUSES (jget ''status'' query)) limit s, e))"

definition post_console_users ::
  "call_env \<Rightarrow> uuid \<times> string \<Rightarrow> json \<Rightarrow> json \<Rightarrow> server \<Rightarrow> tenant_user answer \<times> server" where
  "post_console_users ca who body query =
     create_user ca (console_caller who (requested_env body (jget ''environment'' query))) body"

definition patch_console_user ::
  "call_env \<Rightarrow> uuid \<times> string \<Rightarrow> string \<Rightarrow> json \<Rightarrow> json \<Rightarrow> server \<Rightarrow> tenant_user answer \<times> server" where
  "patch_console_user ca who path body query =
     modify_user ca (console_caller who (requested_env body (jget ''environment'' query))) path body"

definition get_console_verifications :: "uuid \<times> string \<Rightarrow> json \<Rightarrow> server \<Rightarrow> (verification list \<times> environment) answer" where
  "get_console_verifications who query s =
     limited query (\<lambda>limit. list_verifications (fst who) (parseEnv (jget ''environment'' query)) query limit s)"

definition get_console_attendance :: "uuid \<times> string \<Rightarrow> json \<Rightarrow> server \<Rightarrow> (attendance list \<times> environment) answer" where
  "get_console_attendance who query s =
     limited query (\<lambda>limit. list_attendance (fst who) (parseEnv (jget ''environment'' query)) query limit s)"

section \<open>The handlers refine the tenant's steps\<close>

definition served :: "(string \<Rightarrow> string) \<Rightarrow> uuid \<Rightarrow> server \<Rightarrow> 'a answer \<times> server \<Rightarrow> bool" where
  "served sha t s r = (case r of
       (Reply n x, s') \<Rightarrow> n < 300 \<and> tenant_step sha t s s' \<and> one_audit_row t s s'
     | (Refuse n c, s') \<Rightarrow> 300 \<le> n \<and> s' = s)"

lemma served_guarded:
  "list_all (\<lambda>(b, n, c). 300 \<le> n) gs \<Longrightarrow> served sha t s rest \<Longrightarrow> served sha t s (guarded gs rest s)"
  by (induction gs rest s rule: guarded.induct) (auto simp: served_def)

lemma served_refuse: "300 \<le> n \<Longrightarrow> served sha t s (Refuse n c, s)"
  by (simp add: served_def)

lemma createDevice_step:
  assumes "createDevice sha now newid uuid t e inp actor s = (r, s')"
  shows "case r of Inl _ \<Rightarrow> s' = s | Inr _ \<Rightarrow> tenant_step sha t s s' \<and> one_audit_row t s s'"
  using assms ts_create_device [of sha t s now newid uuid e inp actor]
  by (auto simp: createDevice_def Let_def record_one_row dest: insert_device_Some split: option.splits)

lemma issueEnrollmentCode_step:
  assumes "issueEnrollmentCode sha now newid uuid draw t e inp actor s = (r, s')"
  shows "case r of Inl _ \<Rightarrow> s' = s | Inr _ \<Rightarrow> tenant_step sha t s s' \<and> one_audit_row t s s'"
  using assms ts_issue [of sha t s now newid uuid draw e inp actor]
  by (auto simp: issueEnrollmentCode_def Let_def record_one_row dest: insert_device_Some split: option.splits)

lemma regenerateEnrollmentCode_step:
  assumes "regenerateEnrollmentCode sha now draw t e i actor s = (r, s')"
  shows "case r of None \<Rightarrow> s' = s | Some _ \<Rightarrow> tenant_step sha t s s' \<and> one_audit_row t s s'"
  using assms ts_regenerate [of sha t s now draw e i actor]
  by (auto simp: regenerateEnrollmentCode_def Let_def record_one_row split: list.splits)

lemma revokeDevice_step:
  assumes "revokeDevice sha now t e i actor s = (r, s')"
  shows "case r of None \<Rightarrow> s' = s | Some _ \<Rightarrow> tenant_step sha t s s' \<and> one_audit_row t s s'"
  using assms ts_revoke [of sha t s now e i actor]
  by (auto simp: revokeDevice_def record_one_row split: list.splits)

lemma update_rows_unmatched: "returning P f t = [] \<Longrightarrow> update_rows P g t = t"
  by (auto simp: returning_def update_rows_def filter_empty_conv intro: map_idI)

lemma updateDevice_step:
  assumes "updateDevice parse sha now t e i inp actor s = (r, s')"
  shows "case r of Inr (Some _) \<Rightarrow> tenant_step sha t s s' \<and> one_audit_row t s s' | _ \<Rightarrow> s' = s"
  using assms ts_update_device [of sha t s parse now e i inp actor]
  by (auto simp: updateDevice_def Let_def record_one_row store_devices_def update_rows_unmatched
      split: sum.splits option.splits list.splits if_splits)

lemma createTenantUser_step:
  assumes "createTenantUser sha now newid uuid t e inp actor s = (r, s')"
  shows "case r of Inl _ \<Rightarrow> s' = s | Inr _ \<Rightarrow> tenant_step sha t s s' \<and> one_audit_row t s s'"
  using assms ts_create_user [of sha t s now newid uuid e inp actor]
  by (auto simp: createTenantUser_def Let_def record_one_row dest: insert_user_Some split: option.splits sum.splits)

lemma updateTenantUser_step:
  assumes "updateTenantUser sha now t e i inp actor s = (r, s')"
  shows "case r of Inr (Some _) \<Rightarrow> tenant_step sha t s s' \<and> one_audit_row t s s' | _ \<Rightarrow> s' = s"
  using assms ts_update_user [of sha t s now e i inp actor]
  by (auto simp: updateTenantUser_def Let_def record_one_row split: sum.splits list.splits)

lemma createVerificationEvent_step:
  assumes "createVerificationEvent parse sha now newid t e key inp s = (r, s')"
  shows "case r of Inl _ \<Rightarrow> s' = s | Inr _ \<Rightarrow> tenant_step sha t s s' \<and> one_audit_row t s s'"
  using assms ts_verification [of sha t s parse now newid e key inp]
  by (auto simp: createVerificationEvent_def Let_def record_one_row split: sum.splits)

lemma createAttendanceEvent_step:
  assumes "createAttendanceEvent parse sha now newid t e key inp s = (r, s')"
  shows "case r of Inl _ \<Rightarrow> s' = s | Inr _ \<Rightarrow> tenant_step sha t s s' \<and> one_audit_row t s s'"
  using assms ts_attendance [of sha t s parse now newid e key inp]
  by (auto simp: createAttendanceEvent_def Let_def record_one_row split: sum.splits option.splits)

lemmas service_steps = createDevice_step issueEnrollmentCode_step regenerateEnrollmentCode_step revokeDevice_step
  updateDevice_step createTenantUser_step updateTenantUser_step createVerificationEvent_step createAttendanceEvent_step

lemma served_post_v1_devices: "served (ca_sha ca) (tn_id tn) s (post_v1_devices ca tn k body s)"
  unfolding post_v1_devices_def
  by (rule served_guarded) (auto simp: served_def split: prod.split sum.split dest!: service_steps)

lemma served_patch_device: "served (ca_sha ca) (cl_tenant c) s (patch_device ca c path body s)"
  unfolding patch_device_def Let_def
  by (rule served_guarded) (auto simp: served_def split: prod.split sum.split option.split dest!: service_steps)

lemma served_create_user: "served (ca_sha ca) (cl_tenant c) s (create_user ca c body s)"
  unfolding create_user_def Let_def
  by (rule served_guarded) (auto simp: served_def split: prod.split sum.split platform_error.split dest!: service_steps)

lemma served_modify_user: "served (ca_sha ca) (cl_tenant c) s (modify_user ca c path body s)"
  unfolding modify_user_def Let_def
  by (rule served_guarded) (auto simp: served_def split: prod.split sum.split option.split platform_error.split dest!: service_steps)

lemma served_verification:
  "served sha t s (case createVerificationEvent parse sha now newid t e key inp s of
      (Inr v, s') \<Rightarrow> (Reply 201 v, s')
    | (Inl InvalidTimestamp, s') \<Rightarrow> (Refuse 500 ''verification_create_failed'', s')
    | (Inl _, s') \<Rightarrow> (Refuse 404 ''dependency_not_found'', s'))"
  by (auto simp: served_def split: prod.split sum.split platform_error.split dest!: service_steps)

lemma served_attendance:
  "served sha t s (case createAttendanceEvent parse sha now newid t e key inp s of
      (Inr v, s') \<Rightarrow> (Reply 201 v, s')
    | (Inl InvalidTimestamp, s') \<Rightarrow> (Refuse 500 ''attendance_create_failed'', s')
    | (Inl _, s') \<Rightarrow> (Refuse 404 ''dependency_not_found'', s'))"
  by (auto simp: served_def split: prod.split sum.split platform_error.split dest!: service_steps)

lemma served_option:
  "300 \<le> n \<Longrightarrow> (\<And>x. served sha t s (f x)) \<Longrightarrow> served sha t s (case v of None \<Rightarrow> (Refuse n c, s) | Some x \<Rightarrow> f x)"
  by (cases v) (simp_all add: served_refuse)

lemma served_post_v1_verifications: "served (ca_sha ca) (tn_id tn) s (post_v1_verifications ca tn k body s)"
  unfolding post_v1_verifications_def
  by (intro served_option served_guarded served_verification) simp_all

lemma served_post_v1_attendance: "served (ca_sha ca) (tn_id tn) s (post_v1_attendance ca tn k body s)"
proof (cases "jstr (jget ''userId'' body) = None \<or> jstr (jget ''userId'' body) = Some []")
  case True
  then show ?thesis unfolding post_v1_attendance_def Let_def by (simp add: served_refuse)
next
  case False
  show ?thesis unfolding post_v1_attendance_def Let_def if_not_P [OF False]
    by (intro served_option served_guarded served_attendance) simp_all
qed

lemma served_post_console_devices: "served (ca_sha ca) (fst who) s (post_console_devices ca who body query s)"
  unfolding post_console_devices_def Let_def
  by (rule served_guarded) (auto simp: served_def split: prod.split sum.split dest!: service_steps)

lemma served_regenerate: "served (ca_sha ca) (fst who) s (post_console_regenerate ca who path body query s)"
  unfolding post_console_regenerate_def Let_def
  by (auto simp: served_def split: prod.split option.split dest!: service_steps)

lemma served_delete: "served (ca_sha ca) (fst who) s (delete_console_device ca who path body query s)"
  unfolding delete_console_device_def Let_def
  by (auto simp: served_def split: prod.split option.split dest!: service_steps)

section \<open>Properties\<close>





lemma key_caller_tenant [simp]: "cl_tenant (key_caller tn k) = tn_id tn"
  and console_caller_tenant [simp]: "cl_tenant (console_caller who e) = fst who"
  by (simp_all add: key_caller_def console_caller_def)

lemma served_wrapped:
  "served (ca_sha ca) (tn_id tn) s (patch_v1_device ca tn k path body s)"
  "served (ca_sha ca) (tn_id tn) s (post_v1_users ca tn k body s)"
  "served (ca_sha ca) (tn_id tn) s (patch_v1_user ca tn k path body s)"
  "served (ca_sha ca) (fst who) s (patch_console_device ca who path body query s)"
  "served (ca_sha ca) (fst who) s (post_console_users ca who body query s)"
  "served (ca_sha ca) (fst who) s (patch_console_user ca who path body query s)"
  using served_patch_device [of ca "key_caller tn k" s path body] served_create_user [of ca "key_caller tn k" s body]
    served_modify_user [of ca "key_caller tn k" s path body]
    served_patch_device [of ca "console_caller who (requested_env body (jget ''environment'' query))" s path body]
    served_create_user [of ca "console_caller who (requested_env body (jget ''environment'' query))" s body]
    served_modify_user [of ca "console_caller who (requested_env body (jget ''environment'' query))" s path body]
  by (simp_all add: patch_v1_device_def post_v1_users_def patch_v1_user_def patch_console_device_def post_console_users_def
      patch_console_user_def)

lemmas served_all = served_post_v1_devices served_wrapped served_post_v1_verifications served_post_v1_attendance
  served_post_console_devices served_regenerate served_delete










lemma parseLimit_Some:
  assumes "parseLimit v = Some l"
  shows "query_limit v = l"
proof (cases "v = JUndef \<or> v = JNull \<or> v = JStr []")
  case True
  then show ?thesis using assms by (auto simp: parseLimit_def query_limit_def truthy_def)
next
  case False
  then obtain n where n: "parse_int10 (query_text v) = Some n" "l = Some n"
    using assms by (auto simp: parseLimit_def split: option.splits if_splits)
  have "parse_int10 ''[object Object]'' = None" by code_simp
  then have "truthy v"
    using False n(1) by (cases v) (simp_all add: truthy_def query_text_def)
  then show ?thesis using n by (simp add: query_limit_def)
qed

lemma no_state_filter: "\<not> truthy v \<Longrightarrow> choice_of DEVICE_ENROLLMENT_STATES v = None"
  by (cases v) (auto simp: choice_of_def truthy_def DEVICE_ENROLLMENT_STATES_def)

text \<open>The console and the key of a tenant show the same lists: with the environment of the key, the
  console's listing of users, verifications or attendance, and of devices without a filter on the enrollment state,
  answers as the key's does, except that a limit that is no integer from 1 to 1000 is refused where the key's route
  falls back.\<close>

theorem console_and_key_lists_agree:
  assumes "parseEnv (jget ''environment'' query) = ak_environment k"
    and "\<not> truthy (jget ''enrollment_state'' query)"
  shows "if parseLimit (jget ''limit'' query) = None
    then get_console_users (tn_id tn, email) query s = Refuse 400 ''invalid_limit'' \<and>
      get_console_verifications (tn_id tn, email) query s = Refuse 400 ''invalid_limit'' \<and>
      get_console_attendance (tn_id tn, email) query s = Refuse 400 ''invalid_limit'' \<and>
      get_console_devices (tn_id tn, email) query s = Refuse 400 ''invalid_limit''
    else get_console_users (tn_id tn, email) query s = get_v1_users tn k query s \<and>
      get_console_verifications (tn_id tn, email) query s = get_v1_verifications tn k query s \<and>
      get_console_attendance (tn_id tn, email) query s = get_v1_attendance tn k query s \<and>
      get_console_devices (tn_id tn, email) query s = get_v1_devices tn k query s"
proof (cases "parseLimit (jget ''limit'' query)")
  case None
  then show ?thesis
    by (simp add: limited_def get_console_users_def get_console_verifications_def get_console_attendance_def get_console_devices_def)
next
  case (Some l)
  then have "query_limit (jget ''limit'' query) = l" by (rule parseLimit_Some)
  then show ?thesis
    using assms Some
    by (simp add: limited_def get_console_users_def get_v1_users_def get_console_verifications_def get_v1_verifications_def
        get_console_attendance_def get_v1_attendance_def get_console_devices_def get_v1_devices_def unlisted_def
        no_state_filter Let_def)
qed

theorem console_and_key_lists_agree_witness:
  "get_console_users (tn_id policy_tenant, ''e'') (JObj [(''environment'', JStr ''test''), (''limit'', JStr ''0'')]) empty_server =
     Refuse 400 ''invalid_limit''"
proof -
  let ?q = "JObj [(''environment'', JStr ''test''), (''limit'', JStr ''0'')]"
  let ?k = "\<lparr> ak_id = ''k'', ak_tenant_id = ''t'', ak_name = [], ak_key_prefix = [], ak_key_hash = [], ak_scopes = [],
    ak_environment = Test, ak_status = KeyActive, ak_last_used_at = None, ak_expires_at = None, ak_created_at = 0,
    ak_revoked_at = None \<rparr> :: api_key"
  have "parseLimit (jget ''limit'' ?q) = None" by code_simp
  moreover have "parseEnv (jget ''environment'' ?q) = ak_environment ?k" "\<not> truthy (jget ''enrollment_state'' ?q)"
    by (simp_all add: jget_def or_else_def parseEnv_def truthy_def)
  ultimately show ?thesis using console_and_key_lists_agree [of ?q ?k policy_tenant "''e''" empty_server] by simp
qed

end
