(* ===== verification/Ceremony_Routes.thy ===== *)
theory Ceremony_Routes
  imports Resources Sign_In
begin

text \<open>
  The routes of the two ceremonies: proof pairing (\<open>src/routes/v1/proof-pairing.ts\<close>) and registration
  (\<open>src/routes/v1/registrations.ts\<close>), and the console's own copies of them
  (\<open>src/routes/console.ts\<close>).  The phone's routes carry no key: the code is the credential.
\<close>

section \<open>The cookie that binds a browser to its session\<close>

definition PAIR_COOKIE :: string where "PAIR_COOKIE = ''zeroauth_pair_bind''"

definition set_cookie :: "string \<Rightarrow> string \<Rightarrow> string" where
  "set_cookie path value = PAIR_COOKIE @ ''='' @ value @ ''; HttpOnly; Secure; SameSite=Strict;'' @
     '' Path='' @ path @ ''; Max-Age='' @ dec_nat 300"

definition buildSetCookie :: "string \<Rightarrow> string" where
  "buildSetCookie = set_cookie ''/v1/proof-pairing/''"

definition buildPairBindCookie :: "string \<Rightarrow> string" where
  "buildPairBindCookie = set_cookie ''/api/console/proof-pairing/''"

text \<open>\<open>const [k, ...rest] = part.trim().split('='); if (k === PAIR_COOKIE) return rest.join('=')\<close>\<close>

fun cookie_in :: "string list \<Rightarrow> string option" where
  "cookie_in [] = None"
| "cookie_in (part # parts) =
     (case split_on (CHR ''='') (trim part) of
        k # rest \<Rightarrow> if k = PAIR_COOKIE then Some (join ''='' rest) else cookie_in parts
      | [] \<Rightarrow> cookie_in parts)"

text \<open>The cookies the parser of the framework found, and the raw header.\<close>

definition readBindCookie :: "(string \<Rightarrow> json) \<Rightarrow> string option \<Rightarrow> string option" where
  "readBindCookie cookies raw =
     (case cookies PAIR_COOKIE of
        JStr v \<Rightarrow> Some v
      | _ \<Rightarrow> (case raw of None \<Rightarrow> None
          | Some h \<Rightarrow> if h = [] then None else cookie_in (split_on (CHR '';'') h)))"

section \<open>Pairing\<close>

text \<open>The class \<open>PairingTenantMismatch\<close> is never thrown; \<open>InternalError\<close> stands for any other error.\<close>

definition mapError :: "pairing_error \<Rightarrow> nat \<times> string" where
  "mapError er =
     ((case er of
         PairingSessionNotFound \<Rightarrow> 404
       | PairingSessionExpired \<Rightarrow> 410
       | PairingSessionAlreadyBound \<Rightarrow> 409
       | PairingSessionLocked \<Rightarrow> 423
       | PairingSessionBindMismatch \<Rightarrow> 403
       | PairingNonceMismatch \<Rightarrow> 400
       | PairingDidUnknown \<Rightarrow> 400
       | PairingProofInvalid \<Rightarrow> 401
       | TooManyPendingSessions \<Rightarrow> 429
       | VerifierUnavailable \<Rightarrow> 503
       | PlayIntegrityRequired \<Rightarrow> 400
       | PlayIntegrityInsufficient \<Rightarrow> 401
       | InternalError \<Rightarrow> 500),
      if er = InternalError then ''pairing_failed'' else error_code er)"

definition pairing_refusal :: "pairing_error \<Rightarrow> 'a answer" where
  "pairing_refusal er = (case mapError er of (n, code) \<Rightarrow> Refuse n code)"

record pairing_opened =
  po_session :: session_created
  po_stream_url :: string
  po_cookie :: string

definition open_pairing ::
  "(string \<Rightarrow> string) \<Rightarrow> string \<Rightarrow> (string \<Rightarrow> string) \<Rightarrow> (pairing_error + session_created) \<times> server \<Rightarrow> pairing_opened answer \<times> server" where
  "open_pairing cookie prefix suffix r =
     (case r of
        (Inl er, s') \<Rightarrow> (pairing_refusal er, s')
      | (Inr c, s') \<Rightarrow> (Reply 201 \<lparr> po_session = c, po_stream_url = prefix @ suffix (cs_id c), po_cookie = cookie (cs_bind_token c) \<rparr>, s'))"

definition post_v1_pairing_sessions ::
  "(string \<Rightarrow> string) \<Rightarrow> string \<Rightarrow> time_ms \<Rightarrow> uuid \<Rightarrow> nat list \<Rightarrow> string \<Rightarrow> tenant \<Rightarrow> api_key \<Rightarrow>
    string option \<Rightarrow> string option \<Rightarrow> server \<Rightarrow> pairing_opened answer \<times> server" where
  "post_v1_pairing_sessions sha domain now i nonce bind tn k ip agent s =
     open_pairing buildSetCookie ''/v1/proof-pairing/sessions/'' (\<lambda>x. x @ ''/stream'')
       (createSession sha domain now i nonce bind (tn_id tn) (ak_environment k) (Some (ak_id k)) ip agent s)"

definition post_console_pairing_sessions ::
  "(string \<Rightarrow> string) \<Rightarrow> string \<Rightarrow> time_ms \<Rightarrow> uuid \<Rightarrow> nat list \<Rightarrow> string \<Rightarrow> uuid \<times> string \<Rightarrow> json \<Rightarrow> json \<Rightarrow>
    string option \<Rightarrow> string option \<Rightarrow> server \<Rightarrow> pairing_opened answer \<times> server" where
  "post_console_pairing_sessions sha domain now i nonce bind who body query ip agent s =
     open_pairing buildPairBindCookie ''/api/console/proof-pairing/sessions/'' (\<lambda>x. x @ ''/stream'')
       (createSession sha domain now i nonce bind (fst who) (requested_env body (jget ''environment'' query)) None ip agent s)"

text \<open>What a submission draws and reads beside its body: correlation and session identifiers and two clocks.\<close>

record submit_draw =
  sq_correlation :: uuid
  sq_session_uuid :: uuid
  sq_now :: time_ms
  sq_later :: time_ms

definition submit_call_of :: "submit_draw \<Rightarrow> uuid \<Rightarrow> uuid \<Rightarrow> environment \<Rightarrow> string \<Rightarrow> json \<Rightarrow> json \<Rightarrow> json \<Rightarrow> string option \<Rightarrow> submit_call" where
  "submit_call_of d i t e did proof signals meta token =
     \<lparr> sb_session = i, sb_tenant = t, sb_env = e, sb_did = did, sb_proof = proof, sb_signals = signals, sb_meta = meta,
       sb_token = token, sb_correlation = sq_correlation d, sb_session_uuid = sq_session_uuid d, sb_now = sq_now d,
       sb_later = sq_later d \<rparr>"

definition is_js_value_object :: "json \<Rightarrow> bool" where
  "is_js_value_object v = (case v of JObj _ \<Rightarrow> True | JArr _ \<Rightarrow> True | _ \<Rightarrow> False)"

definition submitted :: "(pairing_error + submit_result) \<times> server \<Rightarrow> submit_result answer \<times> server" where
  "submitted r = (case r of (Inl er, s') \<Rightarrow> (pairing_refusal er, s') | (Inr x, s') \<Rightarrow> (Reply 200 x, s'))"

definition post_v1_pairing_submit ::
  "pairing_config \<Rightarrow> submit_draw \<Rightarrow> tenant \<Rightarrow> api_key \<Rightarrow> uuid \<Rightarrow> json \<Rightarrow> string option \<Rightarrow> (server \<Rightarrow> server) \<Rightarrow> server \<Rightarrow>
    submit_result answer \<times> server" where
  "post_v1_pairing_submit cfg d tn k i body token meanwhile s =
     (let did = jget ''did'' body; proof = jget ''proof'' body; signals = jget ''publicSignals'' body; meta = jget ''clientMeta'' body in
      guarded
        [(jstr did = None \<or> jstr did = Some [], 400, ''invalid_request''),
         (\<not> is_js_value_object proof, 400, ''invalid_request''),
         (case signals of JArr xs \<Rightarrow> length xs \<noteq> 3 | _ \<Rightarrow> True, 400, ''invalid_request'')]
        (submitted (submitProof cfg (submit_call_of d i (tn_id tn) (ak_environment k) (or_else [] (jstr did)) proof signals
            (if is_js_value_object meta then meta else JObj []) token) meanwhile s))
        s)"

text \<open>\<open>/^[0-9a-fA-F-]{8,64}$/\<close>\<close>

definition session_id_shape :: "string \<Rightarrow> bool" where
  "session_id_shape i \<longleftrightarrow> 8 \<le> length i \<and> length i \<le> 64 \<and> list_all (\<lambda>c. is_hex c \<or> c = CHR ''-'') i"

text \<open>The console forwards what it finds: a missing proof is \<open>undefined\<close>, other signals than an array are
  none.  \<open>String(v)\<close> of the DID member is a parameter for values that are not text.\<close>

definition post_console_pairing_submit ::
  "pairing_config \<Rightarrow> (json \<Rightarrow> string) \<Rightarrow> submit_draw \<Rightarrow> uuid \<times> string \<Rightarrow> uuid \<Rightarrow> json \<Rightarrow> json \<Rightarrow> string option \<Rightarrow>
    (server \<Rightarrow> server) \<Rightarrow> server \<Rightarrow> submit_result answer \<times> server" where
  "post_console_pairing_submit cfg to_text d who i body query token meanwhile s =
     (if \<not> session_id_shape i then (Refuse 400 ''invalid_session_id'', s)
      else submitted (submitProof cfg
        (submit_call_of d i (fst who) (requested_env body (jget ''environment'' query))
          (case jget ''did'' body of JStr x \<Rightarrow> x | JUndef \<Rightarrow> [] | JNull \<Rightarrow> [] | v \<Rightarrow> to_text v)
          (jget ''proof'' body)
          (case jget ''publicSignals'' body of JArr xs \<Rightarrow> JArr xs | _ \<Rightarrow> JArr [])
          (case jget ''clientMeta'' body of JUndef \<Rightarrow> JObj [] | JNull \<Rightarrow> JObj [] | v \<Rightarrow> v) token) meanwhile s))"

definition pairing_answer :: "pairing_error + session_view \<Rightarrow> session_view answer" where
  "pairing_answer r = (case r of Inl er \<Rightarrow> pairing_refusal er | Inr v \<Rightarrow> Reply 200 v)"

definition get_v1_pairing_session ::
  "(string \<Rightarrow> string) \<Rightarrow> tenant \<Rightarrow> api_key \<Rightarrow> uuid \<Rightarrow> string option \<Rightarrow> server \<Rightarrow> session_view answer" where
  "get_v1_pairing_session sha tn k i token s = pairing_answer (getSession sha i (tn_id tn) (ak_environment k) token s)"

definition get_console_pairing_session ::
  "(string \<Rightarrow> string) \<Rightarrow> uuid \<times> string \<Rightarrow> uuid \<Rightarrow> json \<Rightarrow> string option \<Rightarrow> server \<Rightarrow> session_view answer" where
  "get_console_pairing_session sha who i query token s =
     (if \<not> session_id_shape i then Refuse 400 ''invalid_session_id''
      else pairing_answer (getSession sha i (fst who) (parseEnv (jget ''environment'' query)) token s))"

definition get_v1_pairing_public :: "uuid \<Rightarrow> server \<Rightarrow> (uuid \<times> pairing_state \<times> string) answer" where
  "get_v1_pairing_public i s = (case getSessionPublicMinimal i s of
       None \<Rightarrow> Refuse 404 ''pairing_session_not_found'' | Some v \<Rightarrow> Reply 200 v)"

definition delete_console_pairing_session :: "server \<Rightarrow> nat \<times> server" where
  "delete_console_pairing_session s = (204, s)"

section \<open>The streams\<close>

datatype frame = EventFrame stream_event | ErrorFrame string

text \<open>The key's route answers an error before the first event with its status; after \<open>session_created\<close> it writes
  until the first event of another name.\<close>

fun until_final :: "stream_event list \<Rightarrow> stream_event list" where
  "until_final [] = []"
| "until_final (ev # evs) = (case ev of SessionCreated _ \<Rightarrow> ev # until_final evs | _ \<Rightarrow> [ev])"

definition get_v1_pairing_stream ::
  "(string \<Rightarrow> string) \<Rightarrow> tenant \<Rightarrow> api_key \<Rightarrow> uuid \<Rightarrow> string option \<Rightarrow> time_ms \<Rightarrow> server \<Rightarrow> poll list \<Rightarrow> frame list answer" where
  "get_v1_pairing_stream sha tn k i token now s polls =
     (case subscribeStream sha i (tn_id tn) (ak_environment k) token now s polls of
        Inl er \<Rightarrow> pairing_refusal er
      | Inr [] \<Rightarrow> Reply 200 []
      | Inr (ev # evs) \<Rightarrow> Reply 200 (map EventFrame (case ev of SessionCreated _ \<Rightarrow> ev # until_final evs | _ \<Rightarrow> [ev])))"

text \<open>The console has sent its headers before it subscribes.\<close>

definition get_console_pairing_stream ::
  "(string \<Rightarrow> string) \<Rightarrow> uuid \<times> string \<Rightarrow> uuid \<Rightarrow> json \<Rightarrow> string option \<Rightarrow> time_ms \<Rightarrow> server \<Rightarrow> poll list \<Rightarrow> frame list answer" where
  "get_console_pairing_stream sha who i query token now s polls =
     (if \<not> session_id_shape i then Refuse 400 ''invalid_session_id''
      else Reply 200 (case subscribeStream sha i (fst who) (parseEnv (jget ''environment'' query)) token now s polls of
          Inl er \<Rightarrow> [ErrorFrame (snd (mapError er))]
        | Inr evs \<Rightarrow> map EventFrame evs))"

section \<open>Registration\<close>

text \<open>The handlers are given session identifiers that Postgres can read.  The four columns that carry a
  credential never leave the server.\<close>

record registration_view =
  rv_id :: uuid
  rv_tenant_id :: uuid
  rv_environment :: environment
  rv_profile :: json
  rv_state :: registration_state
  rv_device_id :: "uuid option"
  rv_did :: "string option"
  rv_commitment :: "string option"
  rv_tenant_user_id :: "uuid option"
  rv_pair_code_expires_at :: "time_ms option"
  rv_enroll_code_expires_at :: "time_ms option"
  rv_verify_code_expires_at :: "time_ms option"
  rv_expires_at :: time_ms
  rv_created_at :: time_ms
  rv_updated_at :: time_ms

definition redactSensitive :: "registration_session \<Rightarrow> registration_view" where
  "redactSensitive r =
     \<lparr> rv_id = rs_id r, rv_tenant_id = rs_tenant_id r, rv_environment = rs_environment r, rv_profile = rs_profile r,
       rv_state = rs_state r, rv_device_id = rs_device_id r, rv_did = rs_did r, rv_commitment = rs_commitment r,
       rv_tenant_user_id = rs_tenant_user_id r, rv_pair_code_expires_at = rs_pair_code_expires_at r,
       rv_enroll_code_expires_at = rs_enroll_code_expires_at r, rv_verify_code_expires_at = rs_verify_code_expires_at r,
       rv_expires_at = rs_expires_at r, rv_created_at = rs_created_at r, rv_updated_at = rs_updated_at r \<rparr>"

record next_step =
  ns_code :: string
  ns_expires_at :: string
  ns_deeplink :: string
  ns_nonce :: "string option"

definition next_of :: "step_result \<Rightarrow> next_step" where
  "next_of r = \<lparr> ns_code = st_next_code r, ns_expires_at = iso_string (st_next_expires_at r), ns_deeplink = st_deeplink r,
     ns_nonce = st_nonce r \<rparr>"

definition started_reply ::
  "(registration_error + step_result) \<times> registry \<Rightarrow> (registration_view \<times> next_step) answer \<times> registry" where
  "started_reply r = (case r of
       (Inr x, g') \<Rightarrow> (Reply 201 (redactSensitive (st_session x), next_of x), g')
     | (Inl _, g') \<Rightarrow> (Refuse 500 ''registration_start_failed'', g'))"

definition post_v1_registrations ::
  "ceremony \<Rightarrow> time_ms \<Rightarrow> uuid \<Rightarrow> (nat \<Rightarrow> nat) \<Rightarrow> tenant \<Rightarrow> api_key \<Rightarrow> json \<Rightarrow> registry \<Rightarrow>
    (registration_view \<times> next_step) answer \<times> registry" where
  "post_v1_registrations cy now i draw tn k body g =
     started_reply (startRegistration cy now i draw (tn_id tn) (ak_environment k) (jget ''profile'' body)
       (cl_actor (key_caller tn k)) g)"

definition post_console_registrations ::
  "ceremony \<Rightarrow> time_ms \<Rightarrow> uuid \<Rightarrow> (nat \<Rightarrow> nat) \<Rightarrow> uuid \<times> string \<Rightarrow> json \<Rightarrow> json \<Rightarrow> registry \<Rightarrow>
    (registration_view \<times> next_step) answer \<times> registry" where
  "post_console_registrations cy now i draw who body query g =
     (let e = requested_env body (jget ''environment'' query) in
      started_reply (startRegistration cy now i draw (fst who) e
        (case jget ''profile'' body of JUndef \<Rightarrow> JObj [] | JNull \<Rightarrow> JObj [] | p \<Rightarrow> p)
        (cl_actor (console_caller who e)) g))"

definition registration_answer :: "registration_session option \<Rightarrow> registration_view answer" where
  "registration_answer r = (case r of None \<Rightarrow> Refuse 404 ''session_not_found'' | Some x \<Rightarrow> Reply 200 (redactSensitive x))"

definition get_v1_registration :: "tenant \<Rightarrow> api_key \<Rightarrow> uuid \<Rightarrow> registry \<Rightarrow> registration_view answer" where
  "get_v1_registration tn k i g = registration_answer (getRegistrationSession (tn_id tn) (ak_environment k) i g)"

definition get_console_registration :: "uuid \<times> string \<Rightarrow> uuid \<Rightarrow> json \<Rightarrow> registry \<Rightarrow> registration_view answer" where
  "get_console_registration who i query g =
     registration_answer (getRegistrationSession (fst who) (parseEnv (jget ''environment'' query)) i g)"

definition delete_v1_registration ::
  "ceremony \<Rightarrow> time_ms \<Rightarrow> tenant \<Rightarrow> api_key \<Rightarrow> uuid \<Rightarrow> registry \<Rightarrow> registration_view answer \<times> registry" where
  "delete_v1_registration cy now tn k i g =
     (case abandonRegistration cy now (tn_id tn) (ak_environment k) i (cl_actor (key_caller tn k)) g of
        (r, g') \<Rightarrow> (registration_answer r, g'))"

definition delete_console_registration ::
  "ceremony \<Rightarrow> time_ms \<Rightarrow> uuid \<times> string \<Rightarrow> uuid \<Rightarrow> json \<Rightarrow> json \<Rightarrow> registry \<Rightarrow> registration_view answer \<times> registry" where
  "delete_console_registration cy now who i body query g =
     (let e = requested_env body (jget ''environment'' query) in
      case abandonRegistration cy now (fst who) e i (cl_actor (console_caller who e)) g of
        (r, g') \<Rightarrow> (registration_answer r, g'))"

section \<open>The phone's side of a registration\<close>

text \<open>A text member that is missing, not text or empty.\<close>

definition absent_text :: "json \<Rightarrow> bool" where
  "absent_text v \<longleftrightarrow> jstr v = None \<or> jstr v = Some []"

record paired_reply =
  pr_session_id :: uuid
  pr_device_id :: "uuid option"
  pr_next :: next_step

definition post_pair_device ::
  "ceremony \<Rightarrow> time_ms \<Rightarrow> uuid \<Rightarrow> (nat \<Rightarrow> nat) \<Rightarrow> string option \<Rightarrow> string option \<Rightarrow> json \<Rightarrow> registry \<Rightarrow>
    paired_reply answer \<times> registry" where
  "post_pair_device cy now newdev draw ip agent body g =
     (let code = jget ''pair_code'' body; fp = jget ''fingerprint'' body; kind = jget ''attestation_kind'' body in
      guarded
        [(absent_text code, 400, ''invalid_request''),
         (absent_text fp, 400, ''invalid_request''),
         (kind \<noteq> JUndef \<and> jstr kind = None, 400, ''invalid_request'')]
        (case pairDeviceForRegistration cy now newdev draw
            \<lparr> pi_code = or_else [] (jstr code), pi_fingerprint = or_else [] (jstr fp), pi_attestation = jstr kind,
              pi_ip = ip, pi_user_agent = agent \<rparr> g of
           (Inr r, g') \<Rightarrow> (Reply 200 \<lparr> pr_session_id = rs_id (st_session r), pr_device_id = rs_device_id (st_session r), pr_next = next_of r \<rparr>, g')
         | (Inl RegInternalError, g') \<Rightarrow> (Refuse 500 ''pair_failed'', g')
         | (Inl _, g') \<Rightarrow> (Refuse 404 ''pair_failed'', g'))
        g)"

definition post_submit_commitment ::
  "ceremony \<Rightarrow> time_ms \<Rightarrow> (nat \<Rightarrow> nat) \<Rightarrow> (nat \<Rightarrow> nat) \<Rightarrow> json \<Rightarrow> registry \<Rightarrow> (uuid \<times> next_step) answer \<times> registry" where
  "post_submit_commitment cy now draw rnd body g =
     (let code = jget ''enroll_code'' body; did = jget ''did'' body; com = jget ''commitment'' body in
      guarded
        [(absent_text code, 400, ''invalid_request''),
         (absent_text did, 400, ''invalid_request''),
         (absent_text com, 400, ''invalid_request'')]
        (case submitCommitmentForRegistration cy now draw rnd
            \<lparr> cm_code = or_else [] (jstr code), cm_did = or_else [] (jstr did), cm_commitment = or_else [] (jstr com),
              cm_attestation = jstr (jget ''attestation_kind'' body) \<rparr> g of
           (Inr r, g') \<Rightarrow> (Reply 200 (rs_id (st_session r), next_of r), g')
         | (Inl InvalidCommitment, g') \<Rightarrow> (Refuse 400 ''invalid_request'', g')
         | (Inl RegInternalError, g') \<Rightarrow> (Refuse 500 ''enroll_failed'', g')
         | (Inl _, g') \<Rightarrow> (Refuse 404 ''enroll_failed'', g'))
        g)"

definition post_complete ::
  "ceremony \<Rightarrow> time_ms \<Rightarrow> uuid \<Rightarrow> json \<Rightarrow> registry \<Rightarrow> (uuid \<times> tenant_user \<times> device option) answer \<times> registry" where
  "post_complete cy now newuser body g =
     (let code = jget ''verify_code'' body; nonce = jget ''challenge_nonce'' body; proof = jget ''proof'' body;
          signals = jget ''public_signals'' body in
      guarded
        [(absent_text code, 400, ''invalid_request''),
         (absent_text nonce, 400, ''invalid_request''),
         (\<not> is_js_value_object proof, 400, ''invalid_request''),
         (case signals of JArr _ \<Rightarrow> False | _ \<Rightarrow> True, 400, ''invalid_request'')]
        (case completeRegistration cy now newuser
            \<lparr> fi_code = code, fi_nonce = nonce, fi_proof = proof, fi_signals = signals \<rparr> g of
           (Inr r, g') \<Rightarrow> (Reply 200 (rs_id (fr_session r), fr_user r, fr_device r), g')
         | (Inl RegInternalError, g') \<Rightarrow> (Refuse 500 ''verify_failed'', g')
         | (Inl _, g') \<Rightarrow> (Refuse 404 ''verify_failed'', g'))
        g)"

section \<open>An honest ceremony completes\<close>

lemma last_row_updated:
  assumes "t_registrations s = regs @ [r]" and "\<forall>q \<in> set regs. rs_id q \<noteq> rs_id r"
  shows "t_registrations (update_registration (rs_id r) f s) = regs @ [f r]"
proof -
  have "map (\<lambda>q. if rs_id q = rs_id r then f q else q) regs = regs" by (rule map_idI) (use assms(2) in auto)
  then show ?thesis using assms(1) by (simp add: update_registration_def update_rows_def)
qed

lemma update_registration_tables [simp]:
  "t_users (update_registration i f s) = t_users s" "t_devices (update_registration i f s) = t_devices s"
  by (simp_all add: update_registration_def)

lemma start_succeeds:
  assumes "\<forall>q \<in> set (t_registrations (rg_db g)). rs_id q \<noteq> i"
  obtains r1 g1 where "startRegistration cy now i draw t e profile actor g = (Inr r1, g1)"
    "st_session r1 = new_registration (cy_sha cy) now i (generateEnrollmentCode draw) t e (sanitizeProfile profile)"
    "st_next_code r1 = generateEnrollmentCode draw"
    "t_registrations (rg_db g1) = t_registrations (rg_db g) @ [st_session r1]"
    "t_users (rg_db g1) = t_users (rg_db g)" "t_devices (rg_db g1) = t_devices (rg_db g)"
proof -
  have "\<not> list_ex (\<lambda>r. rs_id r = i) (t_registrations (rg_db g))" using assms by (auto simp: list_ex_iff)
  then show thesis
    using that by (cases "startRegistration cy now i draw t e profile actor g") (auto simp: startRegistration_def Let_def)
qed

lemma upsert_succeeds:
  assumes "\<forall>q \<in> set (t_devices s). dv_id q \<noteq> dv_id d" and "dv_battery_level d = None"
  obtains dev s1 where "upsert_device now d s = Some (dev, s1)" "t_registrations s1 = t_registrations s" "t_users s1 = t_users s"
proof (cases "returning (\<lambda>q. device_key q = device_key d) (re_enroll (d, now)) (t_devices s)")
  case Nil
  then have "\<not> list_ex (device_conflict d) (t_devices s)"
    using assms(1) by (auto simp: returning_def filter_empty_conv list_ex_iff device_conflict_def device_key_def)
  then have "insert_device d s = Some (s\<lparr>t_devices := t_devices s @ [d]\<rparr>)"
    using assms(2) by (simp add: insert_device_def battery_ok_def)
  then show thesis using that Nil by (simp add: upsert_device_def)
next
  case (Cons q qs)
  then show thesis using that by (simp add: upsert_device_def)
qed

lemma pair_succeeds:
  assumes "isValidFingerprint (pi_fingerprint inp)"
    and "first_row (pairable now (cy_sha cy (normaliseEnrollmentCode (pi_code inp)))) (t_registrations (rg_db g)) = Some r"
    and "t_registrations (rg_db g) = regs @ [r]" "\<forall>q \<in> set regs. rs_id q \<noteq> rs_id r"
    and "\<forall>q \<in> set (t_devices (rg_db g)). dv_id q \<noteq> newdev"
  obtains x g' dev where "pairDeviceForRegistration cy now newdev draw inp g = (Inr x, g')"
    "st_session x = attach_device (dev, cy_sha cy (generateEnrollmentCode draw), now + ENROLLMENT_CODE_TTL_MS, now) r"
    "st_next_code x = generateEnrollmentCode draw"
    "t_registrations (rg_db g') = regs @ [st_session x]" "t_users (rg_db g') = t_users (rg_db g)"
proof -
  let ?fp = "fingerprintHash (cy_sha cy) (pi_fingerprint inp)" and ?att = "or_else ''none'' (pi_attestation inp)"
  obtain dev s1 where u: "upsert_device now (registration_device now newdev ?fp ?att r) (rg_db g) = Some (dev, s1)"
      "t_registrations s1 = t_registrations (rg_db g)" "t_users s1 = t_users (rg_db g)"
    by (rule upsert_succeeds [of "rg_db g" "registration_device now newdev ?fp ?att r" now])
      (use assms(5) in \<open>simp_all add: registration_device_def\<close>)
  have t: "t_registrations (update_registration (rs_id r) f s1) = regs @ [f r]" for f
    by (rule last_row_updated) (simp_all add: u(2) assms(3,4))
  show thesis
    using that by (cases "pairDeviceForRegistration cy now newdev draw inp g") (auto simp: pairDeviceForRegistration_def assms(1,2) u t Let_def)
qed

lemma commit_succeeds:
  assumes "did_shape (lower (trim (cm_did inp)))" "commitment_shape (lower (trim (cm_commitment inp)))"
    and "first_row (committable now (cy_sha cy (normaliseEnrollmentCode (cm_code inp)))) (t_registrations (rg_db g)) = Some r"
    and "t_registrations (rg_db g) = regs @ [r]" "\<forall>q \<in> set regs. rs_id q \<noteq> rs_id r"
  obtains x g' where "submitCommitmentForRegistration cy now draw rnd inp g = (Inr x, g')"
    "st_session x = set_commitment \<lparr> cu_did = lower (trim (cm_did inp)), cu_commitment = lower (trim (cm_commitment inp)),
       cu_hash = cy_sha cy (generateEnrollmentCode draw), cu_expires = now + ENROLLMENT_CODE_TTL_MS,
       cu_nonce = generateChallengeNonce rnd, cu_now = now \<rparr> r"
    "st_next_code x = generateEnrollmentCode draw" "st_nonce x = Some (generateChallengeNonce rnd)"
    "t_registrations (rg_db g') = regs @ [st_session x]" "t_users (rg_db g') = t_users (rg_db g)"
proof -
  have t: "t_registrations (update_registration (rs_id r) f (rg_db g)) = regs @ [f r]" for f
    by (rule last_row_updated) (simp_all add: assms(4,5))
  show thesis
    using that by (cases "submitCommitmentForRegistration cy now draw rnd inp g")
      (auto simp: submitCommitmentForRegistration_def assms(1,2,3) t Let_def)
qed

lemma complete_succeeds:
  assumes "completion_conditions cy now inp g r"
    and "\<And>n. \<not> list_ex (user_conflict (registered_user cy now newuser r n)) (t_users (rg_db g))"
  obtains x g' n where "completeRegistration cy now newuser inp g = (Inr x, g')"
    "fr_session x = finish_registration (newuser, now) r" "fr_user x = registered_user cy now newuser r n"
proof -
  obtain n where n: "parseCommitmentBigInt (opt_str (rs_commitment r)) = Some n" using conditions_unfold(2) [OF assms(1)] by blast
  have "insert_user (registered_user cy now newuser r n) (rg_db g) =
      Some (rg_db g\<lparr>t_users := t_users (rg_db g) @ [registered_user cy now newuser r n]\<rparr>)"
    using assms(2) by (simp add: insert_user_def)
  then show thesis
    using that conditions_unfold(1) [OF assms(1), of newuser] n
    by (cases "completeRegistration cy now newuser inp g") (auto simp: store_completion_def Let_def)
qed

end
