(* ===== verification/Ceremony_Runs.thy ===== *)
theory Ceremony_Runs
  imports Ceremony_Routes
begin

text \<open>
  What a client sees of the ceremonies: the cookie of a pairing session comes back to the server, and a registration
  whose phone and desktop follow the protocol reaches its end.
\<close>

section \<open>The cookie reaches the server again\<close>

definition cookie_text :: "string \<times> string \<Rightarrow> string" where
  "cookie_text kv = fst kv @ ''='' @ snd kv"

definition cookie_pair :: "string \<times> string \<Rightarrow> bool" where
  "cookie_pair kv \<longleftrightarrow> CHR ''='' \<notin> set (fst kv) \<and> list_all (\<lambda>c. \<not> is_space c \<and> c \<noteq> CHR '';'') (fst kv @ snd kv)"

lemma split_on_single: "sep \<notin> set s \<Longrightarrow> split_on sep s = [s]"
  by (induction s) auto

lemma split_on_append: "sep \<notin> set s \<Longrightarrow> split_on sep (s @ sep # t) = s # split_on sep t"
  by (induction s) auto

lemma join_split_on: "join [sep] (split_on sep s) = s"
proof (induction s)
  case (Cons c s)
  show ?case
  proof (cases "split_on sep s")
    case (Cons w ws)
    then show ?thesis using Cons.IH by (cases ws) auto
  qed simp
qed simp

lemma cookie_pair_text:
  assumes "cookie_pair kv"
  shows "CHR '';'' \<notin> set (cookie_text kv)" "trim (cookie_text kv) = cookie_text kv" "trim (CHR '' '' # cookie_text kv) = cookie_text kv"
proof -
  have *: "\<forall>c \<in> set (cookie_text kv). \<not> is_space c \<and> c \<noteq> CHR '';''"
    using assms by (auto simp: cookie_pair_def cookie_text_def list_all_iff is_space_def)
  then show "CHR '';'' \<notin> set (cookie_text kv)" "trim (cookie_text kv) = cookie_text kv" by (auto intro: trim_id)
  then show "trim (CHR '' '' # cookie_text kv) = cookie_text kv" by (simp add: trim_def is_space_def)
qed

lemma cookie_in_step:
  assumes "cookie_pair kv" "trim part = cookie_text kv"
  shows "cookie_in (part # parts) = (if fst kv = PAIR_COOKIE then Some (snd kv) else cookie_in parts)"
proof -
  have "split_on (CHR ''='') (cookie_text kv) = fst kv # split_on (CHR ''='') (snd kv)"
    using assms(1) by (simp add: cookie_text_def cookie_pair_def split_on_append)
  then show ?thesis using assms(2) by (simp add: join_split_on)
qed

lemma cookie_in_header:
  assumes "list_all cookie_pair (kv # kvs)" "pre = [] \<or> pre = '' ''"
  shows "cookie_in (split_on (CHR '';'') (pre @ join ''; '' (map cookie_text (kv # kvs)))) = map_of (kv # kvs) PAIR_COOKIE"
  using assms
proof (induction kvs arbitrary: kv pre)
  case Nil
  then have "trim (pre @ cookie_text kv) = cookie_text kv" "CHR '';'' \<notin> set (pre @ cookie_text kv)"
    using cookie_pair_text [of kv] by auto
  then show ?case using Nil by (cases kv) (simp add: split_on_single cookie_in_step del: cookie_in.simps(2))
next
  case (Cons kv' kvs)
  then have *: "trim (pre @ cookie_text kv) = cookie_text kv" "CHR '';'' \<notin> set (pre @ cookie_text kv)"
    using cookie_pair_text [of kv] by auto
  have "pre @ join ''; '' (map cookie_text (kv # kv' # kvs)) =
      (pre @ cookie_text kv) @ CHR '';'' # '' '' @ join ''; '' (map cookie_text (kv' # kvs))" by simp
  then have "split_on (CHR '';'') (pre @ join ''; '' (map cookie_text (kv # kv' # kvs))) =
      (pre @ cookie_text kv) # split_on (CHR '';'') ('' '' @ join ''; '' (map cookie_text (kv' # kvs)))"
    using split_on_append [OF *(2)] by simp
  moreover have "cookie_in ((pre @ cookie_text kv) # parts) = (if fst kv = PAIR_COOKIE then Some (snd kv) else cookie_in parts)" for parts
    using Cons.prems(1) *(1) by (intro cookie_in_step) simp_all
  moreover have "cookie_in (split_on (CHR '';'') ('' '' @ join ''; '' (map cookie_text (kv' # kvs)))) = map_of (kv' # kvs) PAIR_COOKIE"
    using Cons.IH [of kv' "'' ''"] Cons.prems(1) by simp
  moreover have "map_of (kv # l) x = (if fst kv = x then Some (snd kv) else map_of l x)" for l x by (cases kv) auto
  ultimately show ?case by (simp only:)
qed

text \<open>The cookie that answers the opening of a session comes back: whatever well-formed cookies a browser
  sends before the name and value the server set, the handlers read the bind token, or that of an earlier cookie of the
  same name; a value the framework parsed comes before the header.\<close>

theorem bind_cookie_round_trip:
  assumes "list_all cookie_pair kvs" "cookie_pair (PAIR_COOKIE, b)" "\<forall>v. cookies PAIR_COOKIE \<noteq> JStr v"
  shows "readBindCookie cookies (Some (join ''; '' (map cookie_text kvs @ [hd (split_on (CHR '';'') (buildSetCookie b))]))) =
      Some (or_else b (map_of kvs PAIR_COOKIE)) \<and>
    hd (split_on (CHR '';'') (buildPairBindCookie b)) = hd (split_on (CHR '';'') (buildSetCookie b)) \<and>
    readBindCookie (\<lambda>_. JStr b) raw = Some b \<and> readBindCookie cookies None = None"
proof -
  have "CHR '';'' \<notin> set (cookie_text (PAIR_COOKIE, b))" by (rule cookie_pair_text(1) [OF assms(2)])
  then have h: "hd (split_on (CHR '';'') (set_cookie path b)) = cookie_text (PAIR_COOKIE, b)" for path
    using split_on_append [of "CHR '';''" "cookie_text (PAIR_COOKIE, b)"] by (simp add: set_cookie_def cookie_text_def)
  obtain kv rest where c: "kvs @ [(PAIR_COOKIE, b)] = kv # rest" by (cases "kvs @ [(PAIR_COOKIE, b)]") simp_all
  have ok: "list_all cookie_pair (kv # rest)" using assms(1,2) by (simp flip: c)
  have hdr: "map cookie_text kvs @ [cookie_text (PAIR_COOKIE, b)] = map cookie_text (kv # rest)" by (simp flip: c)
  have "join ''; '' (map cookie_text (kv # rest)) \<noteq> []" by (cases rest) (simp_all add: cookie_text_def)
  moreover have "cookie_in (split_on (CHR '';'') (join ''; '' (map cookie_text (kv # rest)))) = Some (or_else b (map_of kvs PAIR_COOKIE))"
    using cookie_in_header [OF ok, of "[]"] unfolding c [symmetric] by (simp add: map_add_def or_else_def split: option.split)
  ultimately show ?thesis
    using assms(3) unfolding buildSetCookie_def buildPairBindCookie_def h hdr
    by (auto simp: readBindCookie_def split: json.split)
qed

theorem bind_cookie_round_trip_witness:
  "readBindCookie (\<lambda>_. JUndef) (Some (join ''; '' (map cookie_text [(''theme'', ''dark'')] @
      [hd (split_on (CHR '';'') (buildSetCookie ''ab12''))]))) = Some ''ab12''"
proof -
  have "list_all cookie_pair [(''theme'', ''dark'')]" "cookie_pair (PAIR_COOKIE, ''ab12'')" by code_simp+
  from bind_cookie_round_trip [OF this, of "\<lambda>_. JUndef"] show ?thesis by (simp add: PAIR_COOKIE_def or_else_def)
qed

section \<open>An honest registration\<close>

text \<open>No stored session holds the hash of the code.\<close>

definition fresh_code :: "ceremony \<Rightarrow> string \<Rightarrow> registry \<Rightarrow> bool" where
  "fresh_code cy code g \<longleftrightarrow> list_all (\<lambda>q. Some (cy_sha cy code) \<notin> set (codes_of q)) (t_registrations (rg_db g))"

lemma fresh_not_live:
  assumes "fresh_code cy code g"
  shows "\<forall>q \<in> set (t_registrations (rg_db g)). \<not> pairable now (cy_sha cy code) q"
    and "\<forall>q \<in> set (t_registrations (rg_db g)). \<not> committable now (cy_sha cy code) q"
    and "\<forall>q \<in> set (t_registrations (rg_db g)). \<not> verifiable now (cy_sha cy code) q"
  using assms by (auto simp: fresh_code_def list_all_iff codes_of_def pairable_def committable_def verifiable_def live_code_def)

lemma complete_succeeds_rows:
  assumes "completion_conditions cy now inp g r"
    and "\<And>n. \<not> list_ex (user_conflict (registered_user cy now newuser r n)) (t_users (rg_db g))"
    and "t_registrations (rg_db g) = regs @ [r]" "\<forall>q \<in> set regs. rs_id q \<noteq> rs_id r"
  obtains x g' n where "completeRegistration cy now newuser inp g = (Inr x, g')"
    "fr_session x = finish_registration (newuser, now) r" "fr_user x = registered_user cy now newuser r n"
    "t_registrations (rg_db g') = regs @ [finish_registration (newuser, now) r]"
proof -
  obtain x g' n where x: "completeRegistration cy now newuser inp g = (Inr x, g')"
    "fr_session x = finish_registration (newuser, now) r" "fr_user x = registered_user cy now newuser r n"
    by (rule complete_succeeds [OF assms(1,2)])
  have "store_completion cy now newuser r g = (Inr x, g')" using x(1) conditions_unfold(1) [OF assms(1)] by metis
  moreover have "map (\<lambda>q. if rs_id q = rs_id r then finish_registration (newuser, now) q else q) regs = regs"
    by (rule map_idI) (use assms(4) in auto)
  ultimately have "t_registrations (rg_db g') = regs @ [finish_registration (newuser, now) r]"
    using assms(3) by (auto dest!: store_result simp: update_rows_def)
  then show thesis using that x by blast
qed

lemma generated_nonempty: "generateEnrollmentCode draw \<noteq> []" "generateChallengeNonce rnd \<noteq> []"
  by (simp add: generate_chars) (simp flip: length_0_conv add: generateChallengeNonce_def CHALLENGE_NONCE_HEX_LEN_def)

lemma absent_text_JStr: "absent_text (JStr x) \<longleftrightarrow> x = []"
  by (simp add: absent_text_def jstr_def)

lemma waits_ttl: "0 < ENROLLMENT_CODE_TTL_MS" "ENROLLMENT_CODE_TTL_MS \<le> REGISTRATION_SESSION_TTL_MS"
  by (simp_all add: ENROLLMENT_CODE_TTL_MS_def REGISTRATION_SESSION_TTL_MS_def)

lemma started_pairable:
  assumes "valid_draw d" "now < now0 + ENROLLMENT_CODE_TTL_MS"
  shows "pairable now (cy_sha cy (normaliseEnrollmentCode (generateEnrollmentCode d)))
    (new_registration (cy_sha cy) now0 i (generateEnrollmentCode d) t e profile)"
  using assms waits_ttl by (simp add: normalise_generated pairable_def new_registration_def live_code_def)

lemma paired_committable:
  assumes "valid_draw d" "now < expires" "now < rs_expires_at r"
  shows "committable now (cy_sha cy (normaliseEnrollmentCode (generateEnrollmentCode d)))
    (attach_device (dev, cy_sha cy (generateEnrollmentCode d), expires, now0) r)"
  using assms by (simp add: normalise_generated committable_def attach_device_def live_code_def)

lemma committed_verifiable:
  assumes "valid_draw d" "now < cu_expires u" "now < rs_expires_at r" "cu_hash u = cy_sha cy (generateEnrollmentCode d)"
  shows "verifiable now (cy_sha cy (normaliseEnrollmentCode (generateEnrollmentCode d))) (set_commitment u r)"
  using assms by (simp add: normalise_generated verifiable_def set_commitment_def live_code_def)

text \<open>The session after each step.\<close>

definition honest_commitment :: "ceremony \<Rightarrow> time_ms \<Rightarrow> (nat \<Rightarrow> nat) \<Rightarrow> (nat \<Rightarrow> nat) \<Rightarrow> string \<Rightarrow> string \<Rightarrow> commitment_update" where
  "honest_commitment cy now draw rnd did com =
     \<lparr> cu_did = lower (trim did), cu_commitment = lower (trim com), cu_hash = cy_sha cy (generateEnrollmentCode draw),
       cu_expires = now + ENROLLMENT_CODE_TTL_MS, cu_nonce = generateChallengeNonce rnd, cu_now = now \<rparr>"

lemma honest_pair:
  assumes "valid_draw d" "fresh_code cy (generateEnrollmentCode d) g" "isValidFingerprint fp"
    and "t_registrations (rg_db g1) = t_registrations (rg_db g) @ [r]" "\<forall>q \<in> set (t_registrations (rg_db g)). rs_id q \<noteq> rs_id r"
    and "\<forall>q \<in> set (t_devices (rg_db g1)). dv_id q \<noteq> newdev"
    and "pairable now (cy_sha cy (normaliseEnrollmentCode (generateEnrollmentCode d))) r"
  obtains p g2 dev x where
    "post_pair_device cy now newdev draw ip agent (JObj [(''pair_code'', JStr (generateEnrollmentCode d)), (''fingerprint'', JStr fp)]) g1 =
      (Reply 200 p, g2)"
    "x = attach_device (dev, cy_sha cy (generateEnrollmentCode draw), now + ENROLLMENT_CODE_TTL_MS, now) r"
    "ns_code (pr_next p) = generateEnrollmentCode draw" "pr_device_id p = rs_device_id x"
    "t_registrations (rg_db g2) = t_registrations (rg_db g) @ [x]" "t_users (rg_db g2) = t_users (rg_db g1)"
proof -
  let ?inp = "\<lparr> pi_code = generateEnrollmentCode d, pi_fingerprint = fp, pi_attestation = None, pi_ip = ip, pi_user_agent = agent \<rparr>"
  have f: "first_row (pairable now (cy_sha cy (normaliseEnrollmentCode (pi_code ?inp)))) (t_registrations (rg_db g1)) = Some r"
    unfolding assms(4) using assms(7) fresh_not_live(1) [OF assms(2)] normalise_generated [OF assms(1)]
    by (intro first_registered) simp_all
  obtain x g2 dev where p: "pairDeviceForRegistration cy now newdev draw ?inp g1 = (Inr x, g2)"
    "st_session x = attach_device (dev, cy_sha cy (generateEnrollmentCode draw), now + ENROLLMENT_CODE_TTL_MS, now) r"
    "st_next_code x = generateEnrollmentCode draw"
    "t_registrations (rg_db g2) = t_registrations (rg_db g) @ [st_session x]" "t_users (rg_db g2) = t_users (rg_db g1)"
    by (rule pair_succeeds [where draw = draw, OF _ f assms(4,5,6)]) (use assms(3) in simp)
  have "fp \<noteq> []" using assms(3) by (auto simp: isValidFingerprint_def)
  then have "post_pair_device cy now newdev draw ip agent
      (JObj [(''pair_code'', JStr (generateEnrollmentCode d)), (''fingerprint'', JStr fp)]) g1 =
      (Reply 200 \<lparr> pr_session_id = rs_id (st_session x), pr_device_id = rs_device_id (st_session x), pr_next = next_of x \<rparr>, g2)"
    using p(1) generated_nonempty by (simp add: post_pair_device_def Let_def jget_def absent_text_JStr jstr_def or_else_def)
  then show thesis using that p by (simp add: next_of_def)
qed

lemma honest_commit:
  assumes "valid_draw d" "fresh_code cy (generateEnrollmentCode d) g" "did_shape (lower (trim did))" "commitment_shape (lower (trim com))"
    and "t_registrations (rg_db g2) = t_registrations (rg_db g) @ [r]" "\<forall>q \<in> set (t_registrations (rg_db g)). rs_id q \<noteq> rs_id r"
    and "committable now (cy_sha cy (normaliseEnrollmentCode (generateEnrollmentCode d))) r"
  obtains n g3 x where
    "post_submit_commitment cy now draw rnd
      (JObj [(''enroll_code'', JStr (generateEnrollmentCode d)), (''did'', JStr did), (''commitment'', JStr com)]) g2 =
      (Reply 200 (rs_id r, n), g3)"
    "x = set_commitment (honest_commitment cy now draw rnd did com) r"
    "ns_code n = generateEnrollmentCode draw" "ns_nonce n = Some (generateChallengeNonce rnd)"
    "t_registrations (rg_db g3) = t_registrations (rg_db g) @ [x]" "t_users (rg_db g3) = t_users (rg_db g2)"
proof -
  let ?inp = "\<lparr> cm_code = generateEnrollmentCode d, cm_did = did, cm_commitment = com, cm_attestation = None \<rparr>"
  have f: "first_row (committable now (cy_sha cy (normaliseEnrollmentCode (cm_code ?inp)))) (t_registrations (rg_db g2)) = Some r"
    unfolding assms(5) using assms(7) fresh_not_live(2) [OF assms(2)] normalise_generated [OF assms(1)]
    by (intro first_registered) simp_all
  obtain x g3 where c: "submitCommitmentForRegistration cy now draw rnd ?inp g2 = (Inr x, g3)"
    "st_session x = set_commitment (honest_commitment cy now draw rnd did com) r"
    "st_next_code x = generateEnrollmentCode draw" "st_nonce x = Some (generateChallengeNonce rnd)"
    "t_registrations (rg_db g3) = t_registrations (rg_db g) @ [st_session x]" "t_users (rg_db g3) = t_users (rg_db g2)"
    by (rule commit_succeeds [where draw = draw and rnd = rnd, OF _ _ f assms(5,6)]) (use assms(3,4) in \<open>simp_all add: honest_commitment_def\<close>)
  have ne: "did \<noteq> []" "com \<noteq> []" using assms(3,4) by (auto simp: trim_Nil lower_def did_shape_def commitment_shape_def hex_run_def)
  have i: "rs_id (st_session x) = rs_id r" by (simp add: c(2) set_commitment_def)
  have "post_submit_commitment cy now draw rnd
      (JObj [(''enroll_code'', JStr (generateEnrollmentCode d)), (''did'', JStr did), (''commitment'', JStr com)]) g2 =
      (Reply 200 (rs_id r, next_of x), g3)"
    using c(1) ne generated_nonempty by (simp add: post_submit_commitment_def Let_def jget_def absent_text_JStr jstr_def or_else_def i)
  then show thesis using that c by (simp add: next_of_def)
qed

lemma honest_complete:
  assumes "valid_draw d" "fresh_code cy (generateEnrollmentCode d) g"
    and "t_registrations (rg_db g3) = t_registrations (rg_db g) @ [r]" "\<forall>q \<in> set (t_registrations (rg_db g)). rs_id q \<noteq> rs_id r"
    and "verifiable now (cy_sha cy (normaliseEnrollmentCode (generateEnrollmentCode d))) r"
    and "rs_verify_challenge_nonce r = Some (generateChallengeNonce rnd)" "rs_commitment r = Some c" "c \<noteq> []"
    and "is_js_value_object proof" "sigs \<noteq> []" "commitmentsEqual (hd sigs) (JStr c)" "cy_verify cy proof sigs = Some True"
    and "\<And>n. \<not> list_ex (user_conflict (registered_user cy now newuser r n)) (t_users (rg_db g3))"
  obtains n dev g4 where
    "post_complete cy now newuser
      (JObj [(''verify_code'', JStr (generateEnrollmentCode d)), (''challenge_nonce'', JStr (generateChallengeNonce rnd)),
        (''proof'', proof), (''public_signals'', JArr sigs)]) g3 =
      (Reply 200 (rs_id r, registered_user cy now newuser r n, dev), g4)"
    "t_registrations (rg_db g4) = t_registrations (rg_db g) @ [finish_registration (newuser, now) r]"
proof -
  let ?inp = "\<lparr> fi_code = JStr (generateEnrollmentCode d), fi_nonce = JStr (generateChallengeNonce rnd), fi_proof = proof, fi_signals = JArr sigs \<rparr>"
  have "first_row (verifiable now (cy_sha cy (normaliseEnrollmentCode (generateEnrollmentCode d)))) (t_registrations (rg_db g3)) = Some r"
    unfolding assms(3) using assms(5) fresh_not_live(3) [OF assms(2)] normalise_generated [OF assms(1)]
    by (intro first_registered) simp_all
  then have cond: "completion_conditions cy now ?inp g3 r"
    using assms(6-12) generated_nonempty by (simp add: completion_conditions_def)
  obtain x g4 n where f: "completeRegistration cy now newuser ?inp g3 = (Inr x, g4)"
    "fr_session x = finish_registration (newuser, now) r" "fr_user x = registered_user cy now newuser r n"
    "t_registrations (rg_db g4) = t_registrations (rg_db g) @ [finish_registration (newuser, now) r]"
    by (rule complete_succeeds_rows [OF cond assms(13,3,4)])
  have "post_complete cy now newuser
      (JObj [(''verify_code'', JStr (generateEnrollmentCode d)), (''challenge_nonce'', JStr (generateChallengeNonce rnd)),
        (''proof'', proof), (''public_signals'', JArr sigs)]) g3 = (Reply 200 (rs_id r, fr_user x, fr_device x), g4)"
    using f(1,2) assms(9) generated_nonempty
    by (simp add: post_complete_def Let_def jget_def absent_text_JStr or_else_def finish_registration_def)
  then show thesis using that f by metis
qed


lemma honest_opening:
  assumes "valid_draw d1" "fresh_code cy (generateEnrollmentCode d1) g"
    and "\<forall>q \<in> set (t_registrations (rg_db g)). rs_id q \<noteq> i" "\<forall>d \<in> set (t_devices (rg_db g)). dv_id d \<noteq> newdev"
    and "isValidFingerprint fp" "t1 < t0 + ENROLLMENT_CODE_TTL_MS"
    and "valid_draw d2" "t2 < t1 + ENROLLMENT_CODE_TTL_MS" "t2 < t0 + REGISTRATION_SESSION_TTL_MS"
  obtains v n1 g1 p g2 x where
    "post_v1_registrations cy t0 i d1 tn k body g = (Reply 201 (v, n1), g1)"
    "post_pair_device cy t1 newdev d2 ip agent (JObj [(''pair_code'', JStr (ns_code n1)), (''fingerprint'', JStr fp)]) g1 = (Reply 200 p, g2)"
    "ns_code (pr_next p) = generateEnrollmentCode d2" "pr_device_id p = rs_device_id x"
    "t_registrations (rg_db g2) = t_registrations (rg_db g) @ [x]" "t_users (rg_db g2) = t_users (rg_db g)"
    "rs_id x = i" "rs_tenant_id x = tn_id tn" "rs_environment x = ak_environment k" "rs_expires_at x = t0 + REGISTRATION_SESSION_TTL_MS"
    "committable t2 (cy_sha cy (normaliseEnrollmentCode (generateEnrollmentCode d2))) x"
proof -
  obtain r1 g1 where s: "startRegistration cy t0 i d1 (tn_id tn) (ak_environment k) (jget ''profile'' body)
        (cl_actor (key_caller tn k)) g = (Inr r1, g1)"
    and r1: "st_session r1 = new_registration (cy_sha cy) t0 i (generateEnrollmentCode d1) (tn_id tn) (ak_environment k)
        (sanitizeProfile (jget ''profile'' body))" "st_next_code r1 = generateEnrollmentCode d1"
    and g1: "t_registrations (rg_db g1) = t_registrations (rg_db g) @ [st_session r1]" "t_users (rg_db g1) = t_users (rg_db g)"
      "t_devices (rg_db g1) = t_devices (rg_db g)"
    by (rule start_succeeds [OF assms(3)]) blast
  have new: "\<forall>q \<in> set (t_registrations (rg_db g)). rs_id q \<noteq> rs_id (st_session r1)" "\<forall>q \<in> set (t_devices (rg_db g1)). dv_id q \<noteq> newdev"
    using assms(3,4) by (simp_all add: r1(1) new_registration_def g1(3))
  have v: "pairable t1 (cy_sha cy (normaliseEnrollmentCode (generateEnrollmentCode d1))) (st_session r1)"
    unfolding r1(1) by (rule started_pairable [OF assms(1,6)])
  obtain p g2 dev x where p: "post_pair_device cy t1 newdev d2 ip agent
        (JObj [(''pair_code'', JStr (generateEnrollmentCode d1)), (''fingerprint'', JStr fp)]) g1 = (Reply 200 p, g2)"
    and x: "x = attach_device (dev, cy_sha cy (generateEnrollmentCode d2), t1 + ENROLLMENT_CODE_TTL_MS, t1) (st_session r1)"
      "ns_code (pr_next p) = generateEnrollmentCode d2" "pr_device_id p = rs_device_id x"
    and g2: "t_registrations (rg_db g2) = t_registrations (rg_db g) @ [x]" "t_users (rg_db g2) = t_users (rg_db g1)"
    by (rule honest_pair [OF assms(1,2,5) g1(1) new v]) blast
  have st: "post_v1_registrations cy t0 i d1 tn k body g = (Reply 201 (redactSensitive (st_session r1), next_of r1), g1)"
    by (simp add: post_v1_registrations_def s started_reply_def)
  have fields: "rs_id x = i" "rs_tenant_id x = tn_id tn" "rs_environment x = ak_environment k" "rs_expires_at x = t0 + REGISTRATION_SESSION_TTL_MS"
    by (simp_all add: x(1) r1(1) attach_device_def new_registration_def)
  then have "committable t2 (cy_sha cy (normaliseEnrollmentCode (generateEnrollmentCode d2))) x"
    unfolding x(1) by (intro paired_committable) (use assms(7-9) in \<open>simp_all add: x(1) attach_device_def\<close>)
  then show thesis using that [OF st] p x(2,3) g2 g1(2) fields by (simp add: next_of_def r1(2))
qed

text \<open>Property C7.  An honest ceremony completes.  With fresh identifiers, codes no session holds, a valid
  fingerprint, DID and commitment, a proof the verifier accepts for that commitment, no user with the DID, and each
  step within fifteen minutes of the one before and thirty of the first, the four calls (start, pair, commit,
  complete), each given what the call before answered, all succeed; the user carries the DID, the
  commitment and the paired device, and the poll of the key shows the session completed.\<close>

theorem honest_ceremony_completes:
  fixes cy :: ceremony and g :: registry
  assumes "valid_draw d1" "valid_draw d2" "valid_draw d3"
    and "fresh_code cy (generateEnrollmentCode d1) g" "fresh_code cy (generateEnrollmentCode d2) g"
      "fresh_code cy (generateEnrollmentCode d3) g"
    and "\<forall>q \<in> set (t_registrations (rg_db g)). rs_id q \<noteq> i"
    and "\<forall>d \<in> set (t_devices (rg_db g)). dv_id d \<noteq> newdev"
    and "\<forall>u \<in> set (t_users (rg_db g)). us_id u \<noteq> newuser \<and>
      (us_tenant_id u = tn_id tn \<and> us_environment u = ak_environment k \<longrightarrow>
        us_did u \<noteq> Some (lower (trim did)) \<and> us_external_id u \<noteq> ''user_'' @ filter (\<lambda>c. c \<noteq> CHR ''-'') (take 12 i))"
    and "isValidFingerprint fp" "did_shape (lower (trim did))" "commitment_shape (lower (trim com))"
    and "is_js_value_object proof" "sigs \<noteq> []" "commitmentsEqual (hd sigs) (JStr (lower (trim com)))"
      "cy_verify cy proof sigs = Some True"
    and "t1 < t0 + ENROLLMENT_CODE_TTL_MS" "t2 < t1 + ENROLLMENT_CODE_TTL_MS" "t3 < t2 + ENROLLMENT_CODE_TTL_MS"
      "t2 < t0 + REGISTRATION_SESSION_TTL_MS" "t3 < t0 + REGISTRATION_SESSION_TTL_MS"
  shows "\<exists>v n1 g1 p g2 n2 g3 user dev g4 w.
    post_v1_registrations cy t0 i d1 tn k body g = (Reply 201 (v, n1), g1) \<and>
    post_pair_device cy t1 newdev d2 ip agent
      (JObj [(''pair_code'', JStr (ns_code n1)), (''fingerprint'', JStr fp)]) g1 = (Reply 200 p, g2) \<and>
    post_submit_commitment cy t2 d3 rnd
      (JObj [(''enroll_code'', JStr (ns_code (pr_next p))), (''did'', JStr did), (''commitment'', JStr com)]) g2 = (Reply 200 (i, n2), g3) \<and>
    post_complete cy t3 newuser
      (JObj [(''verify_code'', JStr (ns_code n2)), (''challenge_nonce'', JStr (or_else [] (ns_nonce n2))), (''proof'', proof),
         (''public_signals'', JArr sigs)]) g3 = (Reply 200 (i, user, dev), g4) \<and>
    us_tenant_id user = tn_id tn \<and> us_environment user = ak_environment k \<and> us_did user = Some (lower (trim did)) \<and>
    us_commitment user = Some (lower (trim com)) \<and> us_primary_device_id user = pr_device_id p \<and>
    get_v1_registration tn k i g4 = Reply 200 w \<and> rv_state w = Completed \<and> rv_tenant_user_id w = Some newuser"
proof -
  obtain v n1 g1 p g2 x2 where s: "post_v1_registrations cy t0 i d1 tn k body g = (Reply 201 (v, n1), g1)"
    and p: "post_pair_device cy t1 newdev d2 ip agent
        (JObj [(''pair_code'', JStr (ns_code n1)), (''fingerprint'', JStr fp)]) g1 = (Reply 200 p, g2)"
      "ns_code (pr_next p) = generateEnrollmentCode d2" "pr_device_id p = rs_device_id x2"
    and g2: "t_registrations (rg_db g2) = t_registrations (rg_db g) @ [x2]" "t_users (rg_db g2) = t_users (rg_db g)"
    and x2: "rs_id x2 = i" "rs_tenant_id x2 = tn_id tn" "rs_environment x2 = ak_environment k" "rs_expires_at x2 = t0 + REGISTRATION_SESSION_TTL_MS"
    and v2: "committable t2 (cy_sha cy (normaliseEnrollmentCode (generateEnrollmentCode d2))) x2"
    by (rule honest_opening [where ?t2.0 = t2 and tn = tn and k = k and body = body, OF assms(1,4,7,8,10,17,2,18,20)])
  have new2: "\<forall>q \<in> set (t_registrations (rg_db g)). rs_id q \<noteq> rs_id x2" using assms(7) by (simp add: x2(1))
  obtain n2 g3 x3 where c: "post_submit_commitment cy t2 d3 rnd
        (JObj [(''enroll_code'', JStr (generateEnrollmentCode d2)), (''did'', JStr did), (''commitment'', JStr com)]) g2 =
        (Reply 200 (rs_id x2, n2), g3)"
    and x3: "x3 = set_commitment (honest_commitment cy t2 d3 rnd did com) x2"
      "ns_code n2 = generateEnrollmentCode d3" "ns_nonce n2 = Some (generateChallengeNonce rnd)"
    and g3: "t_registrations (rg_db g3) = t_registrations (rg_db g) @ [x3]" "t_users (rg_db g3) = t_users (rg_db g2)"
    by (rule honest_commit [OF assms(2,5,11,12) g2(1) new2 v2]) blast
  note flow = x3(1) set_commitment_def honest_commitment_def x2
  have v3: "verifiable t3 (cy_sha cy (normaliseEnrollmentCode (generateEnrollmentCode d3))) x3"
    unfolding x3(1) by (rule committed_verifiable [OF assms(3)]) (use assms(19,21) in \<open>simp_all add: flow\<close>)
  have x3': "rs_id x3 = i" "\<forall>q \<in> set (t_registrations (rg_db g)). rs_id q \<noteq> rs_id x3"
      "rs_verify_challenge_nonce x3 = Some (generateChallengeNonce rnd)" "rs_commitment x3 = Some (lower (trim com))"
    using new2 by (simp_all add: flow)
  have com: "lower (trim com) \<noteq> []" using assms(12) by (auto simp: commitment_shape_def hex_run_def)
  have conf: "\<not> list_ex (user_conflict (registered_user cy t3 newuser x3 n)) (t_users (rg_db g3))" for n
    using assms(9) by (auto simp: list_ex_iff user_conflict_def registered_user_def Let_def flow g3(2) g2(2))
  obtain n dev g4 where f: "post_complete cy t3 newuser
        (JObj [(''verify_code'', JStr (generateEnrollmentCode d3)), (''challenge_nonce'', JStr (generateChallengeNonce rnd)),
          (''proof'', proof), (''public_signals'', JArr sigs)]) g3 =
        (Reply 200 (rs_id x3, registered_user cy t3 newuser x3 n, dev), g4)"
    and g4: "t_registrations (rg_db g4) = t_registrations (rg_db g) @ [finish_registration (newuser, t3) x3]"
    by (rule honest_complete [OF assms(3,6) g3(1) x3'(2) v3 x3'(3,4) com assms(13-16) conf])
  have "getRegistrationSession (tn_id tn) (ak_environment k) i g4 = Some (finish_registration (newuser, t3) x3)"
    unfolding getRegistrationSession_def g4
    by (rule first_registered) (use assms(7) in \<open>auto simp: scoped_registration_def finish_registration_def flow\<close>)
  then have w: "get_v1_registration tn k i g4 = Reply 200 (redactSensitive (finish_registration (newuser, t3) x3))"
    by (simp add: get_v1_registration_def registration_answer_def)
  have user: "us_tenant_id (registered_user cy t3 newuser x3 n) = tn_id tn" "us_environment (registered_user cy t3 newuser x3 n) = ak_environment k"
      "us_did (registered_user cy t3 newuser x3 n) = Some (lower (trim did))"
      "us_commitment (registered_user cy t3 newuser x3 n) = Some (lower (trim com))"
      "us_primary_device_id (registered_user cy t3 newuser x3 n) = pr_device_id p"
    by (simp_all add: registered_user_def Let_def flow p(3))
  have view: "rv_state (redactSensitive (finish_registration (newuser, t3) x3)) = Completed"
      "rv_tenant_user_id (redactSensitive (finish_registration (newuser, t3) x3)) = Some newuser"
    by (simp_all add: redactSensitive_def finish_registration_def)
  have nonce: "or_else [] (ns_nonce n2) = generateChallengeNonce rnd" by (simp add: x3(3) or_else_def)
  show ?thesis
    by (rule exI [of _ v], rule exI [of _ n1], rule exI [of _ g1], rule exI [of _ p], rule exI [of _ g2], rule exI [of _ n2],
      rule exI [of _ g3], rule exI [of _ "registered_user cy t3 newuser x3 n"], rule exI [of _ dev], rule exI [of _ g4],
      rule exI [of _ "redactSensitive (finish_registration (newuser, t3) x3)"])
      (simp only: s p c [unfolded x2(1)] f [unfolded x3'(1)] x3(2) nonce w user view simp_thms)
qed

theorem honest_ceremony_completes_witness:
  "\<exists>body g3 user dev g4. post_complete demo_ceremony 3 ''u1'' body g3 = (Reply 200 (''s1'', user, dev), g4) \<and>
    us_did user = Some Registration.demo_did"
proof -
  have d: "valid_draw (\<lambda>_. 0)" "valid_draw (\<lambda>_. 2)" "valid_draw (\<lambda>_. 4)"
    by (simp_all add: valid_draw_def CODE_ALPHABET_def)
  have f: "fresh_code demo_ceremony c empty_registry" for c
    by (simp add: fresh_code_def empty_registry_def empty_server_def)
  have e: "\<forall>q \<in> set (t_registrations (rg_db empty_registry)). rs_id q \<noteq> ''s1''"
      "\<forall>d \<in> set (t_devices (rg_db empty_registry)). dv_id d \<noteq> ''d1''"
      "\<forall>u \<in> set (t_users (rg_db empty_registry)). us_id u \<noteq> ''u1'' \<and>
        (us_tenant_id u = tn_id policy_tenant \<and> us_environment u = ak_environment (new_api_key rev 0 ''k'' demo_key ''t'' ''Default'' Live [''users:write'']) \<longrightarrow>
          us_did u \<noteq> Some (lower (trim Registration.demo_did)) \<and> us_external_id u \<noteq> ''user_'' @ filter (\<lambda>c. c \<noteq> CHR ''-'') (take 12 ''s1''))"
    by (simp_all add: empty_registry_def empty_server_def)
  have sh: "did_shape (lower (trim Registration.demo_did))" "commitment_shape (lower (trim demo_hex))"
    using demo_shapes by simp_all
  have com: "commitmentsEqual (JStr demo_hex) (JStr (lower (trim demo_hex)))"
  proof -
    have h: "\<forall>c \<in> set demo_hex. is_lower_hex c" using demo_shapes by (simp add: list_all_iff)
    obtain n where "from_base 16 demo_hex = Some n" using hex_value [OF h] demo_shapes by auto
    then have "parseCommitmentBigInt (JStr demo_hex) = Some (int n)" using parse_hex [OF _ h] demo_shapes by simp
    then show ?thesis using demo_shapes(6) by (simp add: commitmentsEqual_def)
  qed
  have pr: "is_js_value_object (JObj [])" "[JStr demo_hex] \<noteq> []" "commitmentsEqual (hd [JStr demo_hex]) (JStr (lower (trim demo_hex)))"
      "cy_verify demo_ceremony (JObj []) [JStr demo_hex] = Some True"
    by (simp add: is_js_value_object_def, simp, simp add: com, simp add: demo_ceremony_def)
  have t: "(1 :: int) < 0 + ENROLLMENT_CODE_TTL_MS" "(2 :: int) < 1 + ENROLLMENT_CODE_TTL_MS" "(3 :: int) < 2 + ENROLLMENT_CODE_TTL_MS"
      "(2 :: int) < 0 + REGISTRATION_SESSION_TTL_MS" "(3 :: int) < 0 + REGISTRATION_SESSION_TTL_MS"
    by (simp_all add: ENROLLMENT_CODE_TTL_MS_def REGISTRATION_SESSION_TTL_MS_def)
  note run = honest_ceremony_completes [OF d f [of "generateEnrollmentCode (\<lambda>_. 0)"] f [of "generateEnrollmentCode (\<lambda>_. 2)"]
      f [of "generateEnrollmentCode (\<lambda>_. 4)"] e demo_shapes(1) sh pr t]
  from run [of JNull None None "\<lambda>_. 7"] show ?thesis using demo_shapes(5) by (elim exE conjE) (intro exI conjI, assumption, simp only:)
qed

end
