(* ===== verification/Bridge_Client.thy ===== *)
theory Bridge_Client
  imports Sign_In Resources Sensor_Codec
begin

text \<open>
  What the sensor bridge builds on: the derivation of an account's signals (\<open>iot/src/crypto.ts\<close>), the prover
  (\<open>iot/src/proof.ts\<close>) and the client of the central API (\<open>iot/src/central-api.ts\<close>).  SHA-256 on bytes, the
  UTF-8 encoder, base64, the two Poseidon functions, the prover, the host name and \<open>fetch\<close> are parameters.
\<close>

section \<open>Signals\<close>

record bridge_lib =
  bl_sha :: "bytes \<Rightarrow> bytes"
  bl_utf8 :: "string \<Rightarrow> bytes"
  bl_base64 :: "bytes \<Rightarrow> string"
  bl_unbase64 :: "string \<Rightarrow> bytes"
  bl_poseidon1 :: "int \<Rightarrow> int"
  bl_poseidon2 :: "int \<Rightarrow> int \<Rightarrow> int"
  bl_prove :: "nat \<Rightarrow> string list \<Rightarrow> string + json \<times> string list"
  bl_verify :: "string list \<Rightarrow> json \<Rightarrow> bool option"

definition biometricId :: "bridge_lib \<Rightarrow> bytes \<Rightarrow> bytes" where
  "biometricId lib templateBytes = bl_sha lib templateBytes"

definition hex_of :: "bytes \<Rightarrow> string" where
  "hex_of bs = bytes_hex (map unat bs)"

text \<open>\<open>None\<close>: it throws.\<close>

definition toFieldElement :: "bytes \<Rightarrow> int option" where
  "toFieldElement buf = (if length buf < 31 then None else bigint_of_string (''0x'' @ hex_of (take 31 buf)))"

definition randomSalt :: "bytes \<Rightarrow> int option" where
  "randomSalt drawn = toFieldElement drawn"

definition deriveBiometricSecret :: "bridge_lib \<Rightarrow> bytes \<Rightarrow> int \<Rightarrow> int option" where
  "deriveBiometricSecret lib bid salt = map_option (\<lambda>x. bl_poseidon2 lib x salt) (toFieldElement bid)"

definition computeCommitment :: "bridge_lib \<Rightarrow> int \<Rightarrow> int \<Rightarrow> int" where
  "computeCommitment lib secret salt = bl_poseidon2 lib secret salt"

definition deriveDid :: "bridge_lib \<Rightarrow> string \<Rightarrow> string" where
  "deriveDid lib email = ''did:zeroauth:demo:'' @ take 32 (hex_of (bl_sha lib (bl_utf8 lib (lower (trim email)))))"

definition computeDidHash :: "bridge_lib \<Rightarrow> string \<Rightarrow> int option" where
  "computeDidHash lib did = map_option (bl_poseidon1 lib) (toFieldElement (bl_sha lib (bl_utf8 lib did)))"

definition computeIdentityBinding :: "bridge_lib \<Rightarrow> int \<Rightarrow> int \<Rightarrow> int" where
  "computeIdentityBinding lib secret didHash = bl_poseidon2 lib secret didHash"

record identity_signals =
  ig_secret :: int
  ig_salt :: int
  ig_commitment :: int
  ig_did_hash :: int
  ig_binding :: int
  ig_did :: string

text \<open>The salt is the given one, or the drawn one.\<close>

definition deriveSignals :: "bridge_lib \<Rightarrow> bytes \<Rightarrow> string \<Rightarrow> int option \<Rightarrow> bytes \<Rightarrow> identity_signals option" where
  "deriveSignals lib templateBytes email given drawn =
     (case (case given of Some x \<Rightarrow> Some x | None \<Rightarrow> randomSalt drawn) of
        None \<Rightarrow> None
      | Some salt \<Rightarrow>
     (case deriveBiometricSecret lib (biometricId lib templateBytes) salt of
        None \<Rightarrow> None
      | Some secret \<Rightarrow>
         (let did = deriveDid lib email in
     (case computeDidHash lib did of
        None \<Rightarrow> None
      | Some didHash \<Rightarrow>
          Some \<lparr> ig_secret = secret, ig_salt = salt, ig_commitment = computeCommitment lib secret salt, ig_did_hash = didHash,
            ig_binding = computeIdentityBinding lib secret didHash, ig_did = did \<rparr>))))"

text \<open>The two ends of the preview, around an ellipsis.\<close>

definition shortHex :: "int \<Rightarrow> string \<times> string" where
  "shortHex n = (let hex = pad_start 64 (hex_int n) in (''0x'' @ take 8 hex, drop (length hex - 4) hex))"

section \<open>The prover\<close>

text \<open>\<open>Inl\<close> is the message of the error it throws.\<close>

definition generateProof :: "bridge_lib \<Rightarrow> nat \<Rightarrow> identity_signals \<Rightarrow> string + json \<times> string list" where
  "generateProof lib rnd sg =
     bl_prove lib rnd (map dec_int [ig_secret sg, ig_salt sg, ig_commitment sg, ig_did_hash sg, ig_binding sg])"

definition verify_own_proof :: "bridge_lib \<Rightarrow> json \<times> string list \<Rightarrow> bool" where
  "verify_own_proof lib r = (case bl_verify lib (snd r) (fst r) of None \<Rightarrow> False | Some b \<Rightarrow> b)"

section \<open>The client of the central API\<close>

record central_config =
  cg_base_url :: string
  cg_api_key :: string
  cg_device_external_id :: string
  cg_device_name :: string
  cg_timeout_ms :: int

text \<open>\<open>v || fallback\<close> on trimmed text; \<open>parseInt\<close> gives no infinity.\<close>

definition or_text :: "string option \<Rightarrow> string \<Rightarrow> string" where
  "or_text v fallback = (let s = trim (or_else [] v) in if s = [] then fallback else s)"

definition readConfigFromEnv :: "string \<Rightarrow> env \<Rightarrow> central_config option" where
  "readConfigFromEnv hostname e =
     (let baseUrl = rev (dropWhile (\<lambda>c. c = CHR ''/'') (rev (trim (or_else [] (e ''ZA_CENTRAL_API_URL'')))));
          apiKey = trim (or_else [] (e ''ZA_CENTRAL_API_KEY'')) in
      if baseUrl = [] \<or> apiKey = [] then None
      else Some \<lparr> cg_base_url = baseUrl, cg_api_key = apiKey,
        cg_device_external_id = or_text (e ''ZA_CENTRAL_DEVICE_ID'') (''iot-bridge-'' @ hostname),
        cg_device_name = or_text (e ''ZA_CENTRAL_DEVICE_NAME'') ''IoT bridge'',
        cg_timeout_ms = (case parse_int10 (or_else ''5000'' (e ''ZA_CENTRAL_API_TIMEOUT_MS'')) of
            Some n \<Rightarrow> if n > 0 then n else 5000 | None \<Rightarrow> 5000) \<rparr>)"

datatype http_method = GET | POST

text \<open>A request names method, path and body; the world answers with a status and the parsed body (\<open>JNull\<close> when there
  is none), or not at all.\<close>

record central_request =
  cq_method :: http_method
  cq_path :: string
  cq_body :: json

type_synonym 'w fetcher = "central_request \<Rightarrow> 'w \<Rightarrow> (nat \<times> json) option \<times> 'w"

definition request :: "'w fetcher \<Rightarrow> http_method \<Rightarrow> string \<Rightarrow> json \<Rightarrow> nat list \<Rightarrow> 'w \<Rightarrow> (nat \<times> json) option \<times> 'w" where
  "request fetch m path body expect w =
     (case fetch \<lparr> cq_method = m, cq_path = path, cq_body = body \<rparr> w of
        (None, w') \<Rightarrow> (None, w')
      | (Some (status, parsed), w') \<Rightarrow> (Some (status, if status \<in> set expect then parsed else JNull), w'))"

text \<open>\<open>r?.body?.k\<close>\<close>

definition body_member :: "(nat \<times> json) option \<Rightarrow> string \<Rightarrow> json" where
  "body_member r k = (case r of None \<Rightarrow> JUndef | Some (_, b) \<Rightarrow> jget k b)"

definition status_is :: "(nat \<times> json) option \<Rightarrow> nat \<Rightarrow> bool" where
  "status_is r n = (case r of None \<Rightarrow> False | Some (status, _) \<Rightarrow> status = n)"

text \<open>A search through a listing; \<open>None\<close>: the member is no list, and the call throws.  The elements are objects.\<close>

definition find_listed :: "json \<Rightarrow> string \<Rightarrow> json option option" where
  "find_listed v external = (case v of JArr xs \<Rightarrow> Some (first_row (\<lambda>x. jget ''external_id'' x = JStr external) xs) | _ \<Rightarrow> None)"

text \<open>The result is a record of the API or none; \<open>Inl ()\<close>: the call throws.\<close>

definition ensureDevice :: "'w fetcher \<Rightarrow> central_config \<Rightarrow> json option \<Rightarrow> 'w \<Rightarrow> (unit + json option) \<times> 'w" where
  "ensureDevice fetch cfg cached w =
     (case cached of Some d \<Rightarrow> (Inr (Some d), w)
      | None \<Rightarrow>
     (case request fetch POST ''/v1/devices''
         (JObj [(''name'', JStr (cg_device_name cfg)), (''externalId'', JStr (cg_device_external_id cfg)),
            (''metadata'', JObj [(''source'', JStr ''iot-bridge'')])]) [201, 409] w of
        (created, w1) \<Rightarrow>
          if status_is created 201 \<and> truthy (body_member created ''device'') then (Inr (Some (body_member created ''device'')), w1)
          else (case request fetch GET ''/v1/devices?limit=200'' JNull [200] w1 of
             (listed, w2) \<Rightarrow>
               if \<not> truthy (body_member listed ''devices'') then (Inr None, w2)
               else (case find_listed (body_member listed ''devices'') (cg_device_external_id cfg) of
                   None \<Rightarrow> (Inl (), w2)
                 | Some found \<Rightarrow> (Inr found, w2)))))"

definition registerUser :: "'w fetcher \<Rightarrow> string \<Rightarrow> 'w \<Rightarrow> (unit + json option) \<times> 'w" where
  "registerUser fetch email w =
     (case request fetch POST ''/v1/users''
         (JObj [(''fullName'', JStr email), (''externalId'', JStr email), (''email'', JStr email),
            (''metadata'', JObj [(''source'', JStr ''iot-bridge'')])]) [201, 409] w of
        (res, w1) \<Rightarrow>
          if status_is res 201 \<and> truthy (body_member res ''user'') then (Inr (Some (body_member res ''user'')), w1)
          else if status_is res 409 then
            (case request fetch GET ''/v1/users?limit=200'' JNull [200] w1 of
               (listed, w2) \<Rightarrow>
                 (case listed of
                    None \<Rightarrow> (Inr None, w2)
                  | Some (_, b) \<Rightarrow> if b = JNull \<or> b = JUndef then (Inr None, w2)
                      else (case find_listed (jget ''users'' b) email of None \<Rightarrow> (Inl (), w2) | Some found \<Rightarrow> (Inr found, w2))))
          else (Inr None, w1))"

record verification_report =
  vp_user :: json
  vp_device :: json
  vp_score :: "nat option"
  vp_reference :: string

definition some_json :: "json \<Rightarrow> json option" where
  "some_json v = (if v = JUndef \<or> v = JNull then None else Some v)"

definition recordVerification :: "'w fetcher \<Rightarrow> verification_report \<Rightarrow> 'w \<Rightarrow> json option \<times> 'w" where
  "recordVerification fetch v w =
     (case request fetch POST ''/v1/verifications''
         (JObj [(''userId'', vp_user v), (''deviceId'', vp_device v), (''method'', JStr ''fingerprint''), (''result'', JStr ''pass''),
            (''confidenceScore'', (case vp_score v of None \<Rightarrow> JUndef | Some n \<Rightarrow> JNum (int n))),
            (''referenceId'', JStr (vp_reference v))]) [201] w of
        (res, w1) \<Rightarrow> (some_json (body_member res ''verification''), w1))"

definition recordCheckIn :: "'w fetcher \<Rightarrow> json \<Rightarrow> json \<Rightarrow> json \<Rightarrow> string \<Rightarrow> 'w \<Rightarrow> json option \<times> 'w" where
  "recordCheckIn fetch user dev ver ty w =
     (case request fetch POST ''/v1/attendance''
         (JObj [(''userId'', user), (''deviceId'', dev), (''verificationId'', ver), (''type'', JStr ty), (''result'', JStr ''accepted'')])
         [201] w of
        (res, w1) \<Rightarrow> (some_json (body_member res ''attendance''), w1))"

section \<open>Facts\<close>

lemma derived_fields:
  assumes "deriveSignals lib template email given drawn = Some sg"
  shows "deriveSignals lib template email (Some (ig_salt sg)) drawn' = Some sg" "ig_did sg = deriveDid lib email"
    "given = Some x \<Longrightarrow> ig_salt sg = x"
  using assms by (auto simp: deriveSignals_def Let_def split: option.splits)

end
