(* ===== verification/Bridge.thy ===== *)
theory Bridge
  imports Bridge_Client Otp
begin

text \<open>
  The sensor bridge, \<open>iot/src/bridge.ts\<close>: accounts bound to a finger, the enrollment and sign-in flows over
  the sensor and the prover, the simulated flows, the mirror of a sign-in in the central API, and the routes
  in front of them.  The sensor is given by the operations of its driver (\<open>Sensor\<close>), the central API by
  \<open>fetch\<close>; the disk holds what was last written to the accounts file.
\<close>

section \<open>Accounts\<close>

definition MATCH_THRESHOLD :: nat where "MATCH_THRESHOLD = 50"
definition MAX_ENROLL_ATTEMPTS :: nat where "MAX_ENROLL_ATTEMPTS = 3"

text \<open>\<open>fa_central_user = JUndef\<close>: no user of the central API yet.\<close>

record finger_account =
  fa_email :: string
  fa_template :: string
  fa_salt :: string
  fa_commitment :: string
  fa_did_hash :: string
  fa_binding :: string
  fa_did :: string
  fa_created_at :: string
  fa_central_user :: json

record 's sensor_ops =
  so_wait :: "'s \<Rightarrow> (sensor_error + unit) \<times> 's"
  so_removal :: "'s \<Rightarrow> (sensor_error + unit) \<times> 's"
  so_image :: "byte \<Rightarrow> 's \<Rightarrow> (sensor_error + unit) \<times> 's"
  so_combine :: "'s \<Rightarrow> (sensor_error + unit) \<times> 's"
  so_upload :: "byte \<Rightarrow> 's \<Rightarrow> (sensor_error + bytes) \<times> 's"
  so_download :: "byte \<Rightarrow> bytes \<Rightarrow> 's \<Rightarrow> (sensor_error + unit) \<times> 's"
  so_match :: "'s \<Rightarrow> (sensor_error + nat option) \<times> 's"

record ('s, 'w) bridge =
  br_accounts :: "(string \<times> finger_account) list"
  br_file :: "json option"
  br_otp :: otp_state
  br_sensor :: 's
  br_world :: 'w

text \<open>Settings fixed at the start: the simulation flag, the flag that shows codes, and the device the central API
  resolved (\<open>None\<close>: not configured or not resolved).\<close>

record bridge_config =
  bc_sim :: bool
  bc_show_otp :: bool
  bc_device :: "json option"

definition read_account :: "json \<Rightarrow> finger_account option" where
  "read_account v =
     (case map (\<lambda>k. jget k v) [''email'', ''template'', ''salt'', ''commitment'', ''didHash'', ''identityBinding'', ''did'', ''createdAt''] of
        [JStr email, JStr template, JStr salt, JStr commitment, JStr didHash, JStr binding, JStr did, JStr createdAt] \<Rightarrow>
          Some \<lparr> fa_email = email, fa_template = template, fa_salt = salt, fa_commitment = commitment, fa_did_hash = didHash,
            fa_binding = binding, fa_did = did, fa_created_at = createdAt, fa_central_user = jget ''centralUserId'' v \<rparr>
      | _ \<Rightarrow> None)"

definition isValidAccount :: "json \<Rightarrow> bool" where
  "isValidAccount v \<longleftrightarrow> read_account v \<noteq> None"

definition account_json :: "finger_account \<Rightarrow> json" where
  "account_json a = JObj [(''email'', JStr (fa_email a)), (''template'', JStr (fa_template a)), (''salt'', JStr (fa_salt a)),
     (''commitment'', JStr (fa_commitment a)), (''didHash'', JStr (fa_did_hash a)), (''identityBinding'', JStr (fa_binding a)),
     (''did'', JStr (fa_did a)), (''createdAt'', JStr (fa_created_at a)), (''centralUserId'', fa_central_user a)]"

definition load_candidate :: "json \<Rightarrow> (string \<times> finger_account) list \<Rightarrow> (string \<times> finger_account) list" where
  "load_candidate v accounts = (case read_account v of None \<Rightarrow> accounts | Some a \<Rightarrow> AList.update (lower (fa_email a)) a accounts)"

text \<open>A file that is missing or holds no list leaves the accounts as they are.\<close>

definition loadAccounts :: "('s, 'w) bridge \<Rightarrow> ('s, 'w) bridge" where
  "loadAccounts b = (case br_file b of
       Some (JArr xs) \<Rightarrow> b\<lparr>br_accounts := fold load_candidate xs (br_accounts b)\<rparr>
     | _ \<Rightarrow> b)"

definition saveAccounts :: "('s, 'w) bridge \<Rightarrow> ('s, 'w) bridge" where
  "saveAccounts b = b\<lparr>br_file := Some (stored (JArr (map (account_json \<circ> snd) (br_accounts b))))\<rparr>"

definition set_account :: "string \<Rightarrow> finger_account \<Rightarrow> ('s, 'w) bridge \<Rightarrow> ('s, 'w) bridge" where
  "set_account email a b = saveAccounts (b\<lparr>br_accounts := AList.update email a (br_accounts b)\<rparr>)"

definition get_account :: "string \<Rightarrow> ('s, 'w) bridge \<Rightarrow> finger_account option" where
  "get_account email b = map_of (br_accounts b) email"

text \<open>\<open>/^[^\s@]+@[^\s@]+\.[^\s@]+$/\<close>\<close>

definition mail_shape :: "string \<Rightarrow> bool" where
  "mail_shape s = (case split_on (CHR ''@'') s of
       [l, d] \<Rightarrow> l \<noteq> [] \<and> list_all (\<lambda>c. \<not> is_space c) s \<and> CHR ''.'' \<in> set (butlast (tl d))
     | _ \<Rightarrow> False)"

definition normalizeEmail :: "json \<Rightarrow> string option" where
  "normalizeEmail raw = (case raw of
       JStr s \<Rightarrow> (let trimmed = lower (trim s) in if mail_shape trimmed then Some trimmed else None)
     | _ \<Rightarrow> None)"

section \<open>Flows\<close>

datatype sync_op = SyncUser | SyncVerification | SyncAttendance
datatype skip_reason = NotConfigured | RemoteError
datatype auth_reason = NoAccount | WrongFinger | ProofFailed

datatype bridge_error =
    SensorFailed sensor_error | SignupProofFailed | ProverFailed string | BadNumber | ClientFailed
  | EmailAlreadyRegistered string

record auth_result =
  ar_matched :: bool
  ar_email :: string
  ar_score :: "nat option"
  ar_reason :: "auth_reason option"
  ar_preview :: "(string \<times> string) option"
  ar_did :: "string option"

record signup_result =
  sr_email :: string
  sr_created_at :: string
  sr_preview :: "string \<times> string"
  sr_did :: string
  sr_central_user :: json

datatype flow_event =
    AwaitingFinger nat | FingerCaptured nat | AwaitingRemoval | FingerRemoved
  | UploadingTemplate | LoadingTemplate | Matching "nat option"
  | Deriving "string \<times> string" | Proving | Verifying
  | Retrying nat string
  | SyncingCentral sync_op | CentralSynced sync_op json | CentralSkipped skip_reason
  | SignupDone signup_result | AuthDone auth_result string
  | FlowFailed bridge_error

text \<open>A flow returns or throws, having written progress events and changed the bridge.\<close>

type_synonym ('s, 'w, 'a) flow = "('s, 'w) bridge \<Rightarrow> (bridge_error + 'a) \<times> flow_event list \<times> ('s, 'w) bridge"

definition give :: "'a \<Rightarrow> ('s, 'w, 'a) flow" where "give x b = (Inr x, [], b)"
definition throw :: "bridge_error \<Rightarrow> ('s, 'w, 'a) flow" where "throw er b = (Inl er, [], b)"
definition emit :: "flow_event \<Rightarrow> ('s, 'w, unit) flow" where "emit p b = (Inr (), [p], b)"

definition chain :: "('s, 'w, 'a) flow \<Rightarrow> ('a \<Rightarrow> ('s, 'w, 'b) flow) \<Rightarrow> ('s, 'w, 'b) flow" where
  "chain f g b = (case f b of
       (Inl er, ps, b') \<Rightarrow> (Inl er, ps, b')
     | (Inr x, ps, b') \<Rightarrow> (case g x b' of (r, qs, b'') \<Rightarrow> (r, ps @ qs, b'')))"

fun in_order :: "('s, 'w, unit) flow list \<Rightarrow> ('s, 'w, 'a) flow \<Rightarrow> ('s, 'w, 'a) flow" where
  "in_order [] rest = rest"
| "in_order (f # fs) rest = chain f (\<lambda>_. in_order fs rest)"

definition sense :: "('s \<Rightarrow> (sensor_error + 'a) \<times> 's) \<Rightarrow> ('s, 'w, 'a) flow" where
  "sense f b = (case f (br_sensor b) of
       (Inl er, s') \<Rightarrow> (Inl (SensorFailed er), [], b\<lparr>br_sensor := s'\<rparr>)
     | (Inr x, s') \<Rightarrow> (Inr x, [], b\<lparr>br_sensor := s'\<rparr>))"

definition some_or :: "bridge_error \<Rightarrow> 'a option \<Rightarrow> ('s, 'w, 'a) flow" where
  "some_or er v = (case v of None \<Rightarrow> throw er | Some x \<Rightarrow> give x)"

definition proved :: "string + json \<times> string list \<Rightarrow> ('s, 'w, json \<times> string list) flow" where
  "proved r = (case r of Inl m \<Rightarrow> throw (ProverFailed m) | Inr x \<Rightarrow> give x)"

definition change :: "(('s, 'w) bridge \<Rightarrow> ('s, 'w) bridge) \<Rightarrow> ('s, 'w, unit) flow" where
  "change f b = (Inr (), [], f b)"

text \<open>The message of an error, as far as a retry depends on it.\<close>

definition error_message :: "bridge_error \<Rightarrow> string" where
  "error_message er = (case er of
       SensorFailed (UnexpectedPid p) \<Rightarrow> ''got pid=0x'' @ hex_nat (unat p)
     | SensorFailed (BadConfirmation name n) \<Rightarrow> name @ '' confirmation=0x'' @ hex_nat n
     | SensorFailed (PortFailure m) \<Rightarrow> m
     | SensorFailed (WriteFailure m) \<Rightarrow> m
     | ProverFailed m \<Rightarrow> m
     | _ \<Rightarrow> [])"

definition CONF_TOO_FUZZY :: nat where "CONF_TOO_FUZZY = 0x06"
definition CONF_TOO_FEW_FEATURE :: nat where "CONF_TOO_FEW_FEATURE = 0x07"
definition CONF_COMBINE_FAIL :: nat where "CONF_COMBINE_FAIL = 0x0a"

definition classifyRetryable :: "bridge_error \<Rightarrow> string option" where
  "classifyRetryable er =
     (let msg = error_message er in
      if str_includes (''0x'' @ hex_nat CONF_COMBINE_FAIL) msg then
        Some ''The two scans did not match each other. Use the same finger both times, with similar placement.''
      else if str_includes (''0x'' @ hex_nat CONF_TOO_FUZZY) msg then
        Some ''The scan was unclear. Try a cleaner, more centred placement.''
      else if str_includes (''0x'' @ hex_nat CONF_TOO_FEW_FEATURE) msg then
        Some ''Not enough ridge detail captured. Press a little more firmly.''
      else None)"

text \<open>What a flow draws: the clock, a salt per attempt and the prover's randomness.\<close>

record flow_draw =
  fd_now :: time_ms
  fd_salt :: "nat \<Rightarrow> bytes"
  fd_rnd :: "nat \<Rightarrow> nat"

definition new_account :: "bridge_lib \<Rightarrow> time_ms \<Rightarrow> string \<Rightarrow> bytes \<Rightarrow> identity_signals \<Rightarrow> finger_account" where
  "new_account lib now email template sg =
     \<lparr> fa_email = email, fa_template = bl_base64 lib template, fa_salt = dec_int (ig_salt sg), fa_commitment = dec_int (ig_commitment sg),
       fa_did_hash = dec_int (ig_did_hash sg), fa_binding = dec_int (ig_binding sg), fa_did = ig_did sg,
       fa_created_at = iso_string now, fa_central_user = JUndef \<rparr>"

definition enroll_attempt ::
  "bridge_lib \<Rightarrow> 's sensor_ops \<Rightarrow> flow_draw \<Rightarrow> string \<Rightarrow> nat \<Rightarrow> ('s, 'w, finger_account) flow" where
  "enroll_attempt lib ops d email k =
     in_order [emit (AwaitingFinger 1), sense (so_wait ops), emit (FingerCaptured 1), sense (so_image ops 1),
       emit AwaitingRemoval, sense (so_removal ops), emit FingerRemoved,
       emit (AwaitingFinger 2), sense (so_wait ops), emit (FingerCaptured 2), sense (so_image ops 2),
       sense (so_combine ops), emit UploadingTemplate]
     (chain (sense (so_upload ops 1)) (\<lambda>template.
      chain (some_or BadNumber (deriveSignals lib template email None (fd_salt d k))) (\<lambda>sg.
      in_order [emit (Deriving (shortHex (ig_commitment sg))), emit Proving]
     (chain (proved (generateProof lib (fd_rnd d k) sg)) (\<lambda>r.
      chain (emit Verifying) (\<lambda>_.
      if \<not> verify_own_proof lib r then throw SignupProofFailed
      else (let a = new_account lib (fd_now d) email template sg in
        chain (change (set_account email a)) (\<lambda>_. give a)))))))) "

text \<open>The attempts left are listed; a failed one waits for the finger to be lifted, whatever that gives.\<close>

fun enroll_attempts ::
  "bridge_lib \<Rightarrow> 's sensor_ops \<Rightarrow> flow_draw \<Rightarrow> string \<Rightarrow> nat \<Rightarrow> nat \<Rightarrow> ('s, 'w, finger_account) flow" where
  "enroll_attempts lib ops d email k 0 b = enroll_attempt lib ops d email k b"
| "enroll_attempts lib ops d email k (Suc left) b =
     (case enroll_attempt lib ops d email k b of
        (Inr a, ps, b') \<Rightarrow> (Inr a, ps, b')
      | (Inl er, ps, b') \<Rightarrow>
         (case classifyRetryable er of
            None \<Rightarrow> (Inl er, ps, b')
          | Some reason \<Rightarrow>
             (let b1 = b'\<lparr>br_sensor := snd (so_removal ops (br_sensor b'))\<rparr>;
                  (r, qs, b2) = enroll_attempts lib ops d email (Suc k) left b1
              in (r, ps @ [Retrying (Suc k) reason] @ qs, b2))))"

text \<open>The address is looked up before the flow waits for the sensor; \<open>meanwhile\<close> is what happens until then.\<close>

definition enroll ::
  "bridge_lib \<Rightarrow> 's sensor_ops \<Rightarrow> flow_draw \<Rightarrow> (('s, 'w) bridge \<Rightarrow> ('s, 'w) bridge) \<Rightarrow> string \<Rightarrow> ('s, 'w, finger_account) flow" where
  "enroll lib ops d meanwhile email b =
     (if get_account email b \<noteq> None then throw (EmailAlreadyRegistered email) b
      else enroll_attempts lib ops d email 1 (MAX_ENROLL_ATTEMPTS - 1) (meanwhile b))"

definition refused :: "string \<Rightarrow> auth_reason \<Rightarrow> nat option \<Rightarrow> auth_result" where
  "refused email reason score = \<lparr> ar_matched = False, ar_email = email, ar_score = score, ar_reason = Some reason,
     ar_preview = None, ar_did = None \<rparr>"

definition signals_match :: "finger_account \<Rightarrow> string list \<Rightarrow> bool" where
  "signals_match a pubs = (case pubs of
       c # h # i # _ \<Rightarrow> c = fa_commitment a \<and> h = fa_did_hash a \<and> i = fa_binding a | _ \<Rightarrow> False)"

definition prove_again :: "bridge_lib \<Rightarrow> nat \<Rightarrow> string \<Rightarrow> finger_account \<Rightarrow> nat \<Rightarrow> ('s, 'w, auth_result) flow" where
  "prove_again lib rnd email a score =
     chain (some_or BadNumber (bigint_of_string (fa_salt a))) (\<lambda>salt.
     chain (some_or BadNumber (deriveSignals lib (bl_unbase64 lib (fa_template a)) email (Some salt) [])) (\<lambda>sg.
     in_order [emit (Deriving (shortHex (ig_commitment sg))), emit Proving]
     (chain (proved (generateProof lib rnd sg)) (\<lambda>r.
      if \<not> signals_match a (snd r) then give (refused email ProofFailed None)
      else chain (emit Verifying) (\<lambda>_.
        give (if \<not> verify_own_proof lib r then refused email ProofFailed None
          else \<lparr> ar_matched = True, ar_email = email, ar_score = Some score, ar_reason = None,
                 ar_preview = Some (shortHex (ig_commitment sg)), ar_did = Some (fa_did a) \<rparr>))))))"

definition compare_finger ::
  "bridge_lib \<Rightarrow> 's sensor_ops \<Rightarrow> nat \<Rightarrow> string \<Rightarrow> finger_account \<Rightarrow> ('s, 'w, auth_result) flow" where
  "compare_finger lib ops rnd email a =
     in_order [emit LoadingTemplate, sense (so_download ops 2 (bl_unbase64 lib (fa_template a))), emit (Matching None)]
     (chain (sense (so_match ops)) (\<lambda>found. case found of
        None \<Rightarrow> give (refused email WrongFinger None)
      | Some score \<Rightarrow> chain (emit (Matching (Some score))) (\<lambda>_.
          if score < MATCH_THRESHOLD then give (refused email WrongFinger (Some score))
          else prove_again lib rnd email a score)))"

definition authenticate ::
  "bridge_lib \<Rightarrow> 's sensor_ops \<Rightarrow> nat \<Rightarrow> string \<Rightarrow> ('s, 'w, auth_result) flow" where
  "authenticate lib ops rnd email b =
     (let found = get_account email b in
      in_order [emit (AwaitingFinger 0), sense (so_wait ops), emit (FingerCaptured 0), sense (so_image ops 1)]
        (case found of None \<Rightarrow> give (refused email NoAccount None) | Some a \<Rightarrow> compare_finger lib ops rnd email a) b)"

definition reset :: "('s, 'w) bridge \<Rightarrow> ('s, 'w) bridge" where
  "reset b = saveAccounts (b\<lparr>br_accounts := []\<rparr>)"

section \<open>The simulated flows\<close>

definition sim_template :: "bridge_lib \<Rightarrow> string \<Rightarrow> bytes" where
  "sim_template lib email = take 768 (concat (replicate 24 (bl_sha lib (bl_utf8 lib (''zeroauth-sim:'' @ email)))))"

definition simEnroll :: "bridge_lib \<Rightarrow> time_ms \<Rightarrow> string \<Rightarrow> ('s, 'w, finger_account) flow" where
  "simEnroll lib now email b =
     (if get_account email b \<noteq> None then throw (EmailAlreadyRegistered email) b
      else in_order [emit (AwaitingFinger 1), emit (FingerCaptured 1), emit AwaitingRemoval, emit FingerRemoved,
          emit (AwaitingFinger 2), emit (FingerCaptured 2), emit UploadingTemplate]
        (chain (some_or BadNumber (bigint_of_string (''0x'' @ hex_of (bl_sha lib (bl_utf8 lib (''sim-salt:'' @ email)))))) (\<lambda>salt.
         chain (some_or BadNumber (deriveSignals lib (sim_template lib email) email (Some salt) [])) (\<lambda>sg.
         in_order [emit (Deriving (shortHex (ig_commitment sg))), emit Proving, emit Verifying]
           (let a = new_account lib now email (sim_template lib email) sg in
            chain (change (set_account email a)) (\<lambda>_. give a))))) b)"

definition simAuthenticate :: "string \<Rightarrow> ('s, 'w, auth_result) flow" where
  "simAuthenticate email b =
     in_order [emit (AwaitingFinger 0), emit (FingerCaptured 0)]
       (case get_account email b of
          None \<Rightarrow> give (refused email NoAccount None)
        | Some a \<Rightarrow>
            in_order [emit LoadingTemplate, emit (Matching (Some 120))]
            (chain (some_or BadNumber (bigint_of_string (fa_commitment a))) (\<lambda>c.
             in_order [emit (Deriving (shortHex c)), emit Proving, emit Verifying]
               (give \<lparr> ar_matched = True, ar_email = email, ar_score = Some 120, ar_reason = None,
                       ar_preview = Some (shortHex c), ar_did = Some (fa_did a) \<rparr>)))) b"

definition performEnroll ::
  "bridge_config \<Rightarrow> bridge_lib \<Rightarrow> 's sensor_ops \<Rightarrow> flow_draw \<Rightarrow> (('s, 'w) bridge \<Rightarrow> ('s, 'w) bridge) \<Rightarrow> string \<Rightarrow> ('s, 'w, finger_account) flow" where
  "performEnroll bc lib ops d meanwhile email =
     (if bc_sim bc then simEnroll lib (fd_now d) email else enroll lib ops d meanwhile email)"

definition performAuthenticate ::
  "bridge_config \<Rightarrow> bridge_lib \<Rightarrow> 's sensor_ops \<Rightarrow> flow_draw \<Rightarrow> string \<Rightarrow> ('s, 'w, auth_result) flow" where
  "performAuthenticate bc lib ops d email =
     (if bc_sim bc then simAuthenticate email else authenticate lib ops (fd_rnd d 0) email)"

section \<open>The mirror in the central API\<close>

definition ask :: "('w \<Rightarrow> (unit + 'a) \<times> 'w) \<Rightarrow> ('s, 'w, 'a) flow" where
  "ask f b = (case f (br_world b) of
       (Inl _, w') \<Rightarrow> (Inl ClientFailed, [], b\<lparr>br_world := w'\<rparr>)
     | (Inr x, w') \<Rightarrow> (Inr x, [], b\<lparr>br_world := w'\<rparr>))"

definition tell :: "('w \<Rightarrow> 'a \<times> 'w) \<Rightarrow> ('s, 'w, 'a) flow" where
  "tell f b = (case f (br_world b) of (x, w') \<Rightarrow> (Inr x, [], b\<lparr>br_world := w'\<rparr>))"

text \<open>\<open>if (account) { account.centralUserId = user.id; await saveAccounts(); }\<close>\<close>

definition attach_central :: "string \<Rightarrow> json \<Rightarrow> ('s, 'w) bridge \<Rightarrow> ('s, 'w) bridge" where
  "attach_central email user b = (case get_account email b of
       None \<Rightarrow> b | Some a \<Rightarrow> set_account email (a\<lparr>fa_central_user := jget ''id'' user\<rparr>) b)"

definition syncSignupToCentral :: "bridge_config \<Rightarrow> 'w fetcher \<Rightarrow> string \<Rightarrow> ('s, 'w, unit) flow" where
  "syncSignupToCentral bc fetch email =
     (case bc_device bc of
        None \<Rightarrow> emit (CentralSkipped NotConfigured)
      | Some _ \<Rightarrow>
          chain (emit (SyncingCentral SyncUser)) (\<lambda>_.
          chain (ask (registerUser fetch email)) (\<lambda>user. case user of
              None \<Rightarrow> emit (CentralSkipped RemoteError)
            | Some u \<Rightarrow> chain (change (attach_central email u)) (\<lambda>_. emit (CentralSynced SyncUser (jget ''id'' u))))))"

definition central_user :: "string \<Rightarrow> ('s, 'w) bridge \<Rightarrow> json" where
  "central_user email b = (case get_account email b of None \<Rightarrow> JUndef | Some a \<Rightarrow> fa_central_user a)"

definition backfill_user :: "'w fetcher \<Rightarrow> string \<Rightarrow> ('s, 'w, unit) flow" where
  "backfill_user fetch email b =
     (if truthy (central_user email b) then give () b
      else chain (ask (registerUser fetch email)) (\<lambda>user. case user of
          None \<Rightarrow> give () | Some u \<Rightarrow> change (attach_central email u)) b)"

definition report_sign_in ::
  "'w fetcher \<Rightarrow> time_ms \<Rightarrow> json \<Rightarrow> json \<Rightarrow> nat option \<Rightarrow> string \<Rightarrow> ('s, 'w, unit) flow" where
  "report_sign_in fetch now dev user score ty =
     chain (emit (SyncingCentral SyncVerification)) (\<lambda>_.
     chain (tell (recordVerification fetch \<lparr> vp_user = user, vp_device = dev, vp_score = score,
         vp_reference = ''iot-bridge:'' @ ty @ '':'' @ dec_int now \<rparr>)) (\<lambda>ver. case ver of
        None \<Rightarrow> emit (CentralSkipped RemoteError)
      | Some v \<Rightarrow>
          chain (emit (CentralSynced SyncVerification (jget ''id'' v))) (\<lambda>_.
          chain (emit (SyncingCentral SyncAttendance)) (\<lambda>_.
          chain (tell (recordCheckIn fetch user dev (jget ''id'' v) ty)) (\<lambda>att. case att of
              None \<Rightarrow> emit (CentralSkipped RemoteError)
            | Some a \<Rightarrow> emit (CentralSynced SyncAttendance (jget ''id'' a)))))))"

definition syncLoginToCentral ::
  "bridge_config \<Rightarrow> 'w fetcher \<Rightarrow> time_ms \<Rightarrow> string \<Rightarrow> nat option \<Rightarrow> string \<Rightarrow> ('s, 'w, unit) flow" where
  "syncLoginToCentral bc fetch now email score ty =
     (case bc_device bc of
        None \<Rightarrow> emit (CentralSkipped NotConfigured)
      | Some dev \<Rightarrow>
          chain (backfill_user fetch email) (\<lambda>_ b.
            (let user = central_user email b in
             if \<not> truthy user then emit (CentralSkipped RemoteError) b
             else report_sign_in fetch now (jget ''id'' dev) user score ty b)))"

section \<open>The routes\<close>

definition runStreamed :: "('s, 'w, unit) flow \<Rightarrow> ('s, 'w) bridge \<Rightarrow> flow_event list answer \<times> ('s, 'w) bridge" where
  "runStreamed f b = (case f b of
       (Inl er, ps, b') \<Rightarrow> (Reply 200 (ps @ [FlowFailed er]), b')
     | (Inr _, ps, b') \<Rightarrow> (Reply 200 ps, b'))"

definition kind_of :: "json \<Rightarrow> otp_kind option" where
  "kind_of v = (if v = JStr ''signup'' then Some Signup else if v = JStr ''login'' then Some Login else None)"

text \<open>The code is shown only in development.\<close>

definition post_request_otp ::
  "bridge_config \<Rightarrow> (string \<Rightarrow> string) \<Rightarrow> time_ms \<Rightarrow> nat \<Rightarrow> json \<Rightarrow> ('s, 'w) bridge \<Rightarrow>
    (string \<times> otp_kind \<times> time_ms \<times> string option) answer \<times> ('s, 'w) bridge" where
  "post_request_otp bc sha now n body b =
     (if body = JNull then (Refuse 500 ''internal_error'', b)
      else case normalizeEmail (jget ''email'' body) of
        None \<Rightarrow> (Refuse 400 ''invalid_email'', b)
      | Some email \<Rightarrow>
     (case kind_of (jget ''kind'' body) of
        None \<Rightarrow> (Refuse 400 ''invalid_kind'', b)
      | Some kind \<Rightarrow>
          if kind = Signup \<and> get_account email b \<noteq> None then (Refuse 409 ''already_registered'', b)
          else if kind = Login \<and> get_account email b = None then (Refuse 404 ''no_account'', b)
          else (case otp_request sha now n email kind (br_otp b) of
              (Inl ms, st) \<Rightarrow> (Refuse 429 ''rate_limited'', b\<lparr>br_otp := st\<rparr>)
            | (Inr (code, expires), st) \<Rightarrow>
                (Reply 200 (email, kind, expires, if bc_show_otp bc then Some code else None), b\<lparr>br_otp := st\<rparr>))))"

definition post_verify_otp ::
  "(string \<Rightarrow> string) \<Rightarrow> time_ms \<Rightarrow> string \<Rightarrow> json \<Rightarrow> ('s, 'w) bridge \<Rightarrow>
    (string \<times> otp_kind \<times> string \<times> time_ms) answer \<times> ('s, 'w) bridge" where
  "post_verify_otp sha now token body b =
     (if body = JNull then (Refuse 500 ''internal_error'', b)
      else case normalizeEmail (jget ''email'' body) of
        None \<Rightarrow> (Refuse 400 ''invalid_email'', b)
      | Some email \<Rightarrow>
         (let code = (case jget ''otp'' body of JStr c \<Rightarrow> trim c | _ \<Rightarrow> []) in
          if \<not> (length code = 6 \<and> list_all is_digit code) then (Refuse 400 ''invalid_otp_format'', b)
          else (case kind_of (jget ''kind'' body) of
              None \<Rightarrow> (Refuse 400 ''invalid_kind'', b)
            | Some kind \<Rightarrow>
               (case otp_verify sha now token email code kind (br_otp b) of
                  (Inl reason, st) \<Rightarrow> (Refuse 401 ''otp_invalid'', b\<lparr>br_otp := st\<rparr>)
                | (Inr (tk, expires), st) \<Rightarrow> (Reply 200 (email, kind, tk, expires), b\<lparr>br_otp := st\<rparr>)))))"

definition token_of :: "json \<Rightarrow> string" where
  "token_of body = or_else [] (jstr (jget ''sessionToken'' body))"

text \<open>\<open>!sessionToken || !otp.consumeSession(...)\<close>\<close>

definition spend_token :: "time_ms \<Rightarrow> string \<Rightarrow> string \<Rightarrow> otp_kind \<Rightarrow> ('s, 'w) bridge \<Rightarrow> bool \<times> ('s, 'w) bridge" where
  "spend_token now token email kind b =
     (if token = [] then (False, b)
      else (case consumeSession now token email kind (br_otp b) of (ok, st) \<Rightarrow> (ok, b\<lparr>br_otp := st\<rparr>)))"

definition signup_flow ::
  "bridge_config \<Rightarrow> bridge_lib \<Rightarrow> 's sensor_ops \<Rightarrow> 'w fetcher \<Rightarrow> flow_draw \<Rightarrow> (('s, 'w) bridge \<Rightarrow> ('s, 'w) bridge) \<Rightarrow> string \<Rightarrow> ('s, 'w, unit) flow" where
  "signup_flow bc lib ops fetch d meanwhile email =
     chain (performEnroll bc lib ops d meanwhile email) (\<lambda>a.
     chain (syncSignupToCentral bc fetch email) (\<lambda>_.
     chain (some_or BadNumber (bigint_of_string (fa_commitment a))) (\<lambda>c b.
       emit (SignupDone \<lparr> sr_email = fa_email a, sr_created_at = fa_created_at a, sr_preview = shortHex c, sr_did = fa_did a,
         sr_central_user = (case central_user email b of JUndef \<Rightarrow> JNull | v \<Rightarrow> v) \<rparr>) b)))"

definition post_signup_finger ::
  "bridge_config \<Rightarrow> bridge_lib \<Rightarrow> 's sensor_ops \<Rightarrow> 'w fetcher \<Rightarrow> flow_draw \<Rightarrow> (('s, 'w) bridge \<Rightarrow> ('s, 'w) bridge) \<Rightarrow> json \<Rightarrow>
    ('s, 'w) bridge \<Rightarrow> flow_event list answer \<times> ('s, 'w) bridge" where
  "post_signup_finger bc lib ops fetch d meanwhile body b =
     (if body = JNull then (Refuse 500 ''internal_error'', b)
      else case normalizeEmail (jget ''email'' body) of
        None \<Rightarrow> (Refuse 400 ''invalid_email'', b)
      | Some email \<Rightarrow>
          if get_account email b \<noteq> None then (Refuse 409 ''already_registered'', b)
          else (case spend_token (fd_now d) (token_of body) email Signup b of
              (False, b') \<Rightarrow> (Refuse 401 ''otp_required'', b')
            | (True, b') \<Rightarrow> runStreamed (signup_flow bc lib ops fetch d meanwhile email) b'))"

definition sign_in_flow ::
  "bridge_config \<Rightarrow> bridge_lib \<Rightarrow> 's sensor_ops \<Rightarrow> 'w fetcher \<Rightarrow> flow_draw \<Rightarrow> string \<Rightarrow> string \<Rightarrow> ('s, 'w, unit) flow" where
  "sign_in_flow bc lib ops fetch d ty email =
     chain (performAuthenticate bc lib ops d email) (\<lambda>r.
     chain (if ar_matched r then syncLoginToCentral bc fetch (fd_now d) email (ar_score r) ty else give ()) (\<lambda>_.
     emit (AuthDone r ty)))"

text \<open>\<open>/api/demo/login\<close> with the type \<open>check_in\<close> and \<open>/api/demo/checkout\<close> with \<open>check_out\<close>.\<close>

definition post_finger ::
  "string \<Rightarrow> bridge_config \<Rightarrow> bridge_lib \<Rightarrow> 's sensor_ops \<Rightarrow> 'w fetcher \<Rightarrow> flow_draw \<Rightarrow> json \<Rightarrow>
    ('s, 'w) bridge \<Rightarrow> flow_event list answer \<times> ('s, 'w) bridge" where
  "post_finger ty bc lib ops fetch d body b =
     (if body = JNull then (Refuse 500 ''internal_error'', b)
      else case normalizeEmail (jget ''email'' body) of
        None \<Rightarrow> (Refuse 400 ''invalid_email'', b)
      | Some email \<Rightarrow>
         (case spend_token (fd_now d) (token_of body) email Login b of
            (False, b') \<Rightarrow> (Refuse 401 ''otp_required'', b')
          | (True, b') \<Rightarrow> runStreamed (sign_in_flow bc lib ops fetch d ty email) b'))"

definition post_login_finger ::
  "bridge_config \<Rightarrow> bridge_lib \<Rightarrow> 's sensor_ops \<Rightarrow> 'w fetcher \<Rightarrow> flow_draw \<Rightarrow> json \<Rightarrow>
    ('s, 'w) bridge \<Rightarrow> flow_event list answer \<times> ('s, 'w) bridge" where
  "post_login_finger = post_finger ''check_in''"

definition post_checkout ::
  "bridge_config \<Rightarrow> bridge_lib \<Rightarrow> 's sensor_ops \<Rightarrow> 'w fetcher \<Rightarrow> flow_draw \<Rightarrow> json \<Rightarrow>
    ('s, 'w) bridge \<Rightarrow> flow_event list answer \<times> ('s, 'w) bridge" where
  "post_checkout = post_finger ''check_out''"

definition get_accounts :: "('s, 'w) bridge \<Rightarrow> finger_account list answer" where
  "get_accounts b = Reply 200 (map snd (br_accounts b))"

definition post_reset :: "('s, 'w) bridge \<Rightarrow> unit answer \<times> ('s, 'w) bridge" where
  "post_reset b = (Reply 200 (), reset b)"


section \<open>Flows that keep a property\<close>

definition keeps :: "(('s, 'w) bridge \<Rightarrow> bool) \<Rightarrow> ('s, 'w, 'a) flow \<Rightarrow> bool" where
  "keeps P f \<longleftrightarrow> (\<forall>b. P b \<longrightarrow> P (snd (snd (f b))))"

lemma keepsI: "(\<And>b. P b \<Longrightarrow> P (snd (snd (f b)))) \<Longrightarrow> keeps P f" by (simp add: keeps_def)
lemma keepsD: "keeps P f \<Longrightarrow> P b \<Longrightarrow> P (snd (snd (f b)))" by (simp add: keeps_def)

named_theorems keeping

lemma keeps_give [keeping]: "keeps P (give x)" by (simp add: keeps_def give_def)
lemma keeps_throw [keeping]: "keeps P (throw er)" by (simp add: keeps_def throw_def)
lemma keeps_emit [keeping]: "keeps P (emit p)" by (simp add: keeps_def emit_def)
lemma keeps_proved [keeping]: "keeps P (proved r)" by (simp add: keeps_def proved_def throw_def give_def split: sum.split)

lemma keeps_chain [keeping]: "keeps P f \<Longrightarrow> (\<And>x. keeps P (g x)) \<Longrightarrow> keeps P (chain f g)"
  unfolding keeps_def chain_def
proof (intro allI impI)
  fix b
  assume f: "\<forall>b. P b \<longrightarrow> P (snd (snd (f b)))" and g: "\<And>x. \<forall>b. P b \<longrightarrow> P (snd (snd (g x b)))" and b: "P b"
  obtain r ps b' where r: "f b = (r, ps, b')" by (cases "f b")
  then have "P b'" using f b by (metis snd_conv)
  then show "P (snd (snd (case f b of (Inl er, ps, b') \<Rightarrow> (Inl er, ps, b')
      | (Inr x, ps, b') \<Rightarrow> (case g x b' of (r, qs, b'') \<Rightarrow> (r, ps @ qs, b'')))))"
    using g by (cases r) (auto simp: r split: prod.split, metis snd_conv)
qed

lemma keeps_some [keeping]: "(\<And>x. v = Some x \<Longrightarrow> keeps P (g x)) \<Longrightarrow> keeps P (chain (some_or er v) g)"
  by (cases v) (auto simp: keeps_def chain_def some_or_def throw_def give_def split: prod.split)

lemma keeps_in_order [keeping]: "list_all (keeps P) fs \<Longrightarrow> keeps P rest \<Longrightarrow> keeps P (in_order fs rest)"
  by (induction fs) (auto intro: keeps_chain)

lemma keeps_change [keeping]: "(\<And>b. P b \<Longrightarrow> P (f b)) \<Longrightarrow> keeps P (change f)"
  by (simp add: keeps_def change_def)

lemma keeps_if [keeping]: "keeps P f \<Longrightarrow> keeps P g \<Longrightarrow> keeps P (if c then f else g)" by simp

lemma keeps_option [keeping]: "(v = None \<Longrightarrow> keeps P f) \<Longrightarrow> (\<And>x. v = Some x \<Longrightarrow> keeps P (g x)) \<Longrightarrow> keeps P (case v of None \<Rightarrow> f | Some x \<Rightarrow> g x)"
  by (cases v) simp_all

text \<open>A property that does not look at the sensor or the world.\<close>

definition local_to_bridge :: "(('s, 'w) bridge \<Rightarrow> bool) \<Rightarrow> bool" where
  "local_to_bridge P \<longleftrightarrow> (\<forall>b x y. P (b\<lparr>br_sensor := x, br_world := y\<rparr>) = P b)"

lemma local_sensor: "local_to_bridge P \<Longrightarrow> P (b\<lparr>br_sensor := x\<rparr>) = P b"
  unfolding local_to_bridge_def by (drule spec [of _ b], drule spec [of _ x], drule spec [of _ "br_world b"]) simp

lemma local_world: "local_to_bridge P \<Longrightarrow> P (b\<lparr>br_world := x\<rparr>) = P b"
  unfolding local_to_bridge_def by (drule spec [of _ b], drule spec [of _ "br_sensor b"], drule spec [of _ x]) simp

lemma keeps_sense: "local_to_bridge P \<Longrightarrow> keeps P (sense f)"
  by (auto simp: keeps_def sense_def local_sensor split: prod.splits sum.splits)

lemma keeps_ask: "local_to_bridge P \<Longrightarrow> keeps P (ask f)"
  by (auto simp: keeps_def ask_def local_world split: prod.splits sum.splits)

lemma keeps_tell: "local_to_bridge P \<Longrightarrow> keeps P (tell f)"
  by (auto simp: keeps_def tell_def local_world split: prod.splits)

section \<open>Accounts stay what their enrollment derived\<close>

definition account_sound :: "bridge_lib \<Rightarrow> finger_account \<Rightarrow> bool" where
  "account_sound lib a \<longleftrightarrow> (\<exists>template salt sg. fa_template a = bl_base64 lib template \<and> fa_salt a = dec_int salt \<and>
     deriveSignals lib template (fa_email a) (Some salt) [] = Some sg \<and> fa_commitment a = dec_int (ig_commitment sg) \<and>
     fa_did_hash a = dec_int (ig_did_hash sg) \<and> fa_binding a = dec_int (ig_binding sg) \<and> fa_did a = ig_did sg)"

definition accounts_sound :: "bridge_lib \<Rightarrow> (string \<times> finger_account) list \<Rightarrow> bool" where
  "accounts_sound lib xs \<longleftrightarrow> distinct (map fst xs) \<and> list_all (\<lambda>(k, a). k = fa_email a \<and> lower k = k \<and> account_sound lib a) xs"

definition bridge_inv :: "bridge_lib \<Rightarrow> ('s, 'w) bridge \<Rightarrow> bool" where
  "bridge_inv lib b \<longleftrightarrow> accounts_sound lib (br_accounts b) \<and>
     (br_file b = None \<and> br_accounts b = [] \<or> br_file b = Some (stored (JArr (map (account_json \<circ> snd) (br_accounts b)))))"

lemma local_inv: "local_to_bridge (bridge_inv lib)" by (simp add: local_to_bridge_def bridge_inv_def)
lemma local_otp: "local_to_bridge (\<lambda>b. br_otp b = x)" by (simp add: local_to_bridge_def)

lemma update_member: "(k', a') \<in> set (AList.update k a xs) \<Longrightarrow> (k', a') = (k, a) \<or> (k', a') \<in> set xs"
  by (induction xs) (auto split: if_splits)

lemma set_account_inv:
  assumes "bridge_inv lib b" "fa_email a = email" "lower email = email" "account_sound lib a"
  shows "bridge_inv lib (set_account email a b)"
  using assms unfolding bridge_inv_def accounts_sound_def set_account_def saveAccounts_def list_all_iff
  by (auto simp: distinct_update dest!: update_member)

lemma new_account_sound:
  "deriveSignals lib template email given drawn = Some sg \<Longrightarrow> account_sound lib (new_account lib now email template sg)"
  unfolding account_sound_def new_account_def using derived_fields(1) [of lib template email given drawn sg "[]"] by auto

lemma lower_mail: "normalizeEmail v = Some email \<Longrightarrow> lower email = email"
  by (auto simp: normalizeEmail_def Let_def split: json.splits if_splits)

lemma attach_central_inv:
  assumes "bridge_inv lib b" shows "bridge_inv lib (attach_central email u b)"
proof (cases "get_account email b")
  case (Some a)
  then have m: "(email, a) \<in> set (br_accounts b)" by (auto simp: get_account_def dest: map_of_SomeD)
  then have "email = fa_email a" "lower email = email" "account_sound lib a"
    using assms by (auto simp: bridge_inv_def accounts_sound_def list_all_iff)
  then have "account_sound lib (a\<lparr>fa_central_user := jget ''id'' u\<rparr>)" by (simp add: account_sound_def)
  then show ?thesis using Some \<open>email = fa_email a\<close> \<open>lower email = email\<close> assms by (simp add: attach_central_def set_account_inv)
qed (use assms in \<open>simp add: attach_central_def\<close>)

lemma set_account_keeps:
  assumes "fa_email a = email" "lower email = email" "account_sound lib a"
  shows "keeps (bridge_inv lib) (change (set_account email a))"
  using assms by (intro keeps_change set_account_inv) auto

lemmas keeps_ops = keeps_sense keeps_ask keeps_tell

lemma keeps_enroll_attempt:
  assumes "lower email = email"
  shows "keeps (bridge_inv lib) (enroll_attempt lib ops d email k)"
  unfolding enroll_attempt_def Let_def
  by (intro keeping keeps_sense local_inv set_account_keeps assms)
    (auto simp: keeps_sense local_inv keeps_emit new_account_def intro: new_account_sound [unfolded new_account_def])

lemma keeps_enroll_attempts:
  assumes "lower email = email"
  shows "bridge_inv lib b \<Longrightarrow> bridge_inv lib (snd (snd (enroll_attempts lib ops d email k left b)))"
proof (induction left arbitrary: k b)
  case 0
  then show ?case by (simp add: keepsD [OF keeps_enroll_attempt [OF assms]])
next
  case (Suc left)
  obtain r ps b' where r: "enroll_attempt lib ops d email k b = (r, ps, b')" by (cases "enroll_attempt lib ops d email k b")
  then have b': "bridge_inv lib b'" using keepsD [OF keeps_enroll_attempt [OF assms] Suc.prems] by (metis snd_conv)
  let ?b = "b'\<lparr>br_sensor := snd (so_removal ops (br_sensor b'))\<rparr>"
  have "bridge_inv lib (snd (snd (enroll_attempts lib ops d email (Suc k) left ?b)))"
    by (rule Suc.IH) (use b' in \<open>simp add: local_sensor [OF local_inv]\<close>)
  then show ?case using b' by (cases r) (auto simp: r Let_def split: option.split prod.split)
qed

lemma keeps_simEnroll:
  assumes "lower email = email"
  shows "keeps (bridge_inv lib) (simEnroll lib now email)"
proof (rule keepsI)
  fix b :: "('s, 'w) bridge"
  assume b: "bridge_inv lib b"
  have inner: "keeps (bridge_inv lib) (in_order fs (chain (some_or BadNumber salt') (\<lambda>salt.
       chain (some_or BadNumber (deriveSignals lib (sim_template lib email) email (Some salt) [])) (\<lambda>sg.
       in_order (gs sg) (let a = new_account lib now email (sim_template lib email) sg in
          chain (change (set_account email a)) (\<lambda>_. give a))))))"
    if "list_all (keeps (bridge_inv lib)) fs" "\<And>sg. list_all (keeps (bridge_inv lib)) (gs sg)"
    for fs gs and salt' :: "int option"
    unfolding Let_def
    by (intro keeping set_account_keeps assms that)
      (auto simp: new_account_def intro: new_account_sound [unfolded new_account_def])
  show "bridge_inv lib (snd (snd (simEnroll lib now email b)))"
    using b by (auto simp: simEnroll_def throw_def simp del: in_order.simps intro!: keepsD [OF inner] keeping)
qed

lemma keeps_performEnroll:
  fixes meanwhile :: "('s, 'w) bridge \<Rightarrow> ('s, 'w) bridge"
  assumes "lower email = email" "\<And>b. bridge_inv lib b \<Longrightarrow> bridge_inv lib (meanwhile b)"
  shows "keeps (bridge_inv lib) (performEnroll bc lib ops d meanwhile email)"
proof (rule keepsI)
  fix b :: "('s, 'w) bridge"
  assume b: "bridge_inv lib b"
  show "bridge_inv lib (snd (snd (performEnroll bc lib ops d meanwhile email b)))"
    using keepsD [OF keeps_simEnroll [OF assms(1)] b] keeps_enroll_attempts [OF assms(1) assms(2) [OF b]] b
    by (simp add: performEnroll_def enroll_def throw_def)
qed

lemma keeps_prove_again: "keeps P (prove_again lib rnd email a score)"
  unfolding prove_again_def by (intro keeping) (auto simp: keeps_emit)

lemma keeps_authenticate:
  assumes "local_to_bridge P"
  shows "keeps P (authenticate lib ops rnd email)"
proof -
  have c: "keeps P (compare_finger lib ops rnd email a)" for a
    unfolding compare_finger_def by (intro keeping keeps_prove_again keeps_sense assms) (auto simp: keeps_emit keeps_sense assms)
  have "keeps P (in_order [emit (AwaitingFinger 0), sense (so_wait ops), emit (FingerCaptured 0), sense (so_image ops 1)]
        (case found of None \<Rightarrow> give (refused email NoAccount None) | Some a \<Rightarrow> compare_finger lib ops rnd email a))" for found
    by (intro keeping c) (auto simp: keeps_emit keeps_sense assms)
  then show ?thesis by (simp add: keeps_def authenticate_def Let_def)
qed

lemma keeps_performAuthenticate:
  assumes "local_to_bridge P"
  shows "keeps P (performAuthenticate bc lib ops d email)"
proof -
  have "keeps P (in_order [emit (AwaitingFinger 0), emit (FingerCaptured 0)]
       (case found of
          None \<Rightarrow> give (refused email NoAccount None)
        | Some a \<Rightarrow>
            in_order [emit LoadingTemplate, emit (Matching (Some 120))]
            (chain (some_or BadNumber (bigint_of_string (fa_commitment a))) (\<lambda>c.
             in_order [emit (Deriving (shortHex c)), emit Proving, emit Verifying]
               (give \<lparr> ar_matched = True, ar_email = email, ar_score = Some 120, ar_reason = None,
                       ar_preview = Some (shortHex c), ar_did = Some (fa_did a) \<rparr>)))))" for found
    by (intro keeping) (auto simp: keeps_emit)
  then have "keeps P (simAuthenticate email)"
    by (intro keepsI) (unfold simAuthenticate_def, erule keepsD [rotated])
  then show ?thesis using keeps_authenticate [OF assms] by (simp add: performAuthenticate_def)
qed

text \<open>The mirror changes the reference to the central user only.\<close>

lemma keeps_mirror:
  assumes "local_to_bridge P" "\<And>b u. P b \<Longrightarrow> P (attach_central email u b)"
  shows "keeps P (syncSignupToCentral bc fetch email)" "keeps P (syncLoginToCentral bc fetch now email score ty)"
proof -
  have b: "keeps P (backfill_user fetch email)"
  proof -
    have "keeps P (chain (ask (registerUser fetch email)) (\<lambda>user. case user of
          None \<Rightarrow> give () | Some u \<Rightarrow> change (attach_central email u)))"
      by (intro keeping keeps_ask assms)
    then show ?thesis by (simp add: keeps_def backfill_user_def give_def)
  qed
  have r: "keeps P (report_sign_in fetch now dev user score ty)" for dev user
    unfolding report_sign_in_def by (intro keeping keeps_tell assms(1))
  show "keeps P (syncSignupToCentral bc fetch email)"
    unfolding syncSignupToCentral_def by (intro keeping keeps_ask assms)
  have "keeps P (\<lambda>b. let user = central_user email b in
      if \<not> truthy user then emit (CentralSkipped RemoteError) b else report_sign_in fetch now (jget ''id'' dev) user score ty b)" for dev
    using r by (simp add: keeps_def Let_def emit_def)
  then show "keeps P (syncLoginToCentral bc fetch now email score ty)"
    unfolding syncLoginToCentral_def by (intro keeping b)
qed

lemma keeps_streamed: "keeps P f \<Longrightarrow> P b \<Longrightarrow> P (snd (runStreamed f b))"
  using keepsD [of P f b] by (auto simp: runStreamed_def split: prod.split sum.split)

lemma keeps_sign_in:
  assumes "local_to_bridge P" "\<And>b u. P b \<Longrightarrow> P (attach_central email u b)"
  shows "keeps P (sign_in_flow bc lib ops fetch d ty email)"
  unfolding sign_in_flow_def by (intro keeping keeps_performAuthenticate keeps_mirror assms)

section \<open>The accounts file\<close>

lemma read_stored_account:
  "read_account (null_for_undef (stored (account_json a))) = Some (a\<lparr>fa_central_user := stored (fa_central_user a)\<rparr>)"
  by (cases "stored (fa_central_user a)") (simp_all add: read_account_def account_json_def jget_def or_else_def null_for_undef_def)

definition stored_account :: "finger_account \<Rightarrow> finger_account" where
  "stored_account a = a\<lparr>fa_central_user := stored (fa_central_user a)\<rparr>"

lemma update_new_key: "k \<notin> set (map fst xs) \<Longrightarrow> AList.update k v xs = xs @ [(k, v)]"
  by (induction xs) auto

lemma load_saved:
  assumes "accounts_sound lib (done_rows @ xs)"
  shows "fold load_candidate (map (null_for_undef \<circ> (stored \<circ> (account_json \<circ> snd))) xs) (map (apsnd stored_account) done_rows) =
    map (apsnd stored_account) (done_rows @ xs)"
  using assms
proof (induction xs arbitrary: done_rows)
  case (Cons x xs)
  obtain k a where x: "x = (k, a)" by (cases x)
  have k: "k = fa_email a" "lower k = k" "k \<notin> set (map fst (map (apsnd stored_account) done_rows))"
    using Cons.prems by (auto simp: accounts_sound_def x)
  have "load_candidate (null_for_undef (stored (account_json a))) (map (apsnd stored_account) done_rows) =
      map (apsnd stored_account) (done_rows @ [x])"
    unfolding load_candidate_def read_stored_account using k by (simp add: update_new_key x stored_account_def)
  then show ?case using Cons.IH [of "done_rows @ [x]"] Cons.prems by (simp add: x)
qed simp

lemma stored_twice: "stored (stored v) = stored v"
proof (induction v)
  case (JArr vs)
  then show ?case by (auto simp: null_for_undef_def)
next
  case (JObj kvs)
  then show ?case by (auto simp: filter_map comp_def intro!: map_cong filter_cong)
qed simp_all

definition restart :: "('s, 'w) bridge \<Rightarrow> ('s, 'w) bridge" where
  "restart b = loadAccounts (b\<lparr>br_accounts := [], br_otp := fresh_otp\<rparr>)"

lemma restart_accounts:
  assumes "bridge_inv lib b"
  shows "br_accounts (restart b) = map (apsnd stored_account) (br_accounts b)" "br_file (restart b) = br_file b"
proof -
  have "accounts_sound lib ([] @ br_accounts b)" using assms by (simp add: bridge_inv_def)
  note load_saved [OF this]
  then show "br_accounts (restart b) = map (apsnd stored_account) (br_accounts b)"
    using assms by (auto simp: restart_def loadAccounts_def bridge_inv_def comp_assoc)
  show "br_file (restart b) = br_file b"
    by (simp add: restart_def loadAccounts_def split: option.split json.split)
qed

lemma saved_again: "stored (account_json (stored_account a)) = stored (account_json a)"
  by (simp add: account_json_def stored_account_def stored_twice)

lemma stored_account_sound [simp]: "account_sound lib (stored_account a) = account_sound lib a"
  by (simp add: stored_account_def account_sound_def)

lemma accounts_sound_stored: "accounts_sound lib (map (apsnd stored_account) xs) = accounts_sound lib xs"
  by (simp add: accounts_sound_def list_all_iff comp_def split_beta) (simp add: stored_account_def)

lemma restart_inv:
  assumes "bridge_inv lib b" shows "bridge_inv lib (restart b)"
proof -
  have s: "stored (JArr (map (account_json \<circ> snd) (map (apsnd stored_account) (br_accounts b)))) =
      stored (JArr (map (account_json \<circ> snd) (br_accounts b)))"
    by (simp add: saved_again)
  show ?thesis
    using assms unfolding bridge_inv_def restart_accounts [OF assms] accounts_sound_stored s by simp
qed

section \<open>What a sign-in needs\<close>

lemma fst_chain [simp]:
  "fst (chain (emit p) g b) = fst (g () b)"
  "fst (chain (give x) h b) = fst (h x b)"
  "fst (chain (some_or er v) k b) = (case v of None \<Rightarrow> Inl er | Some x \<Rightarrow> fst (k x b))"
  "fst (chain (proved r) l b) = (case r of Inl m \<Rightarrow> Inl (ProverFailed m) | Inr x \<Rightarrow> fst (l x b))"
  "fst (chain (sense f) n b) = (case f (br_sensor b) of (Inl er, s') \<Rightarrow> Inl (SensorFailed er) | (Inr x, s') \<Rightarrow> fst (n x (b\<lparr>br_sensor := s'\<rparr>)))"
  by (simp_all add: chain_def emit_def give_def throw_def some_or_def proved_def sense_def case_prod_beta split: prod.split sum.split option.split)

lemma fst_give [simp]: "fst (give x b) = Inr x" by (simp add: give_def)

definition finger_accepted :: "bridge_lib \<Rightarrow> 's sensor_ops \<Rightarrow> nat \<Rightarrow> string \<Rightarrow> ('s, 'w) bridge \<Rightarrow> auth_result \<Rightarrow> bool" where
  "finger_accepted lib ops rnd email b r \<longleftrightarrow> (\<exists>a s1 s2 s3 s4 score salt sg pr.
     get_account email b = Some a \<and>
     so_wait ops (br_sensor b) = (Inr (), s1) \<and> so_image ops 1 s1 = (Inr (), s2) \<and>
     so_download ops 2 (bl_unbase64 lib (fa_template a)) s2 = (Inr (), s3) \<and>
     so_match ops s3 = (Inr (Some score), s4) \<and> MATCH_THRESHOLD \<le> score \<and>
     bigint_of_string (fa_salt a) = Some salt \<and>
     deriveSignals lib (bl_unbase64 lib (fa_template a)) email (Some salt) [] = Some sg \<and>
     generateProof lib rnd sg = Inr pr \<and> signals_match a (snd pr) \<and> verify_own_proof lib pr \<and>
     r = \<lparr> ar_matched = True, ar_email = email, ar_score = Some score, ar_reason = None,
       ar_preview = Some (shortHex (ig_commitment sg)), ar_did = Some (fa_did a) \<rparr>)"

lemma authenticate_accepts:
  "fst (authenticate lib ops rnd email b) = Inr r \<and> ar_matched r \<longleftrightarrow> finger_accepted lib ops rnd email b r"
proof
  assume "fst (authenticate lib ops rnd email b) = Inr r \<and> ar_matched r"
  then show "finger_accepted lib ops rnd email b r"
    by (auto simp: authenticate_def Let_def compare_finger_def prove_again_def finger_accepted_def refused_def
        split: prod.splits sum.splits option.splits if_splits)
next
  assume "finger_accepted lib ops rnd email b r"
  then show "fst (authenticate lib ops rnd email b) = Inr r \<and> ar_matched r"
    by (auto simp: authenticate_def Let_def compare_finger_def prove_again_def finger_accepted_def)
qed

section \<open>Everything that can happen to a bridge\<close>

text \<open>One request, or a restart of the process; what runs while a sign-up waits for the sensor is any sequence
  of steps.\<close>

inductive bridge_step :: "bridge_lib \<Rightarrow> ('s, 'w) bridge \<Rightarrow> ('s, 'w) bridge \<Rightarrow> bool" for lib where
  request: "bridge_step lib b (snd (post_request_otp bc sha now n body b))"
| verify: "bridge_step lib b (snd (post_verify_otp sha now token body b))"
| signup: "(\<forall>x. (bridge_step lib)\<^sup>*\<^sup>* x (meanwhile x)) \<Longrightarrow>
    bridge_step lib b (snd (post_signup_finger bc lib ops fetch d meanwhile body b))"
| sign_in: "bridge_step lib b (snd (post_finger ty bc lib ops fetch d body b))"
| wipe: "bridge_step lib b (snd (post_reset b))"
| stop: "bridge_step lib b (restart b)"

definition fresh_bridge :: "('s, 'w) bridge \<Rightarrow> bool" where
  "fresh_bridge b \<longleftrightarrow> br_accounts b = [] \<and> br_file b = None"

lemma otp_inv: "bridge_inv lib (b\<lparr>br_otp := st\<rparr>) = bridge_inv lib b" by (simp add: bridge_inv_def)

lemma spend_inv: "bridge_inv lib b \<Longrightarrow> bridge_inv lib (snd (spend_token now token email kind b))"
  by (simp add: spend_token_def otp_inv split: prod.split)

lemma keeps_signup:
  assumes "lower email = email" "\<And>b. bridge_inv lib b \<Longrightarrow> bridge_inv lib (meanwhile b)"
  shows "keeps (bridge_inv lib) (signup_flow bc lib ops fetch d meanwhile email)"
proof -
  have "keeps (bridge_inv lib) (\<lambda>b. emit (SignupDone (f b)) b)" for f by (simp add: keeps_def emit_def)
  then show ?thesis
    unfolding signup_flow_def
    by (intro keeping keeps_performEnroll keeps_mirror local_inv attach_central_inv assms)
qed

lemma request_inv: "bridge_inv lib b \<Longrightarrow> bridge_inv lib (snd (post_request_otp bc sha now n body b))"
  by (simp add: post_request_otp_def otp_inv split: option.split prod.split sum.split)

lemma verify_inv: "bridge_inv lib b \<Longrightarrow> bridge_inv lib (snd (post_verify_otp sha now token body b))"
  by (simp add: post_verify_otp_def Let_def otp_inv split: option.split prod.split sum.split)

lemma signup_inv:
  assumes "bridge_inv lib b" "\<And>x. bridge_inv lib x \<Longrightarrow> bridge_inv lib (meanwhile x)"
  shows "bridge_inv lib (snd (post_signup_finger bc lib ops fetch d meanwhile body b))"
proof (cases "body = JNull \<or> normalizeEmail (jget ''email'' body) = None")
  case True
  then show ?thesis using assms(1) by (auto simp: post_signup_finger_def split: option.split)
next
  case False
  then obtain email where e: "normalizeEmail (jget ''email'' body) = Some email" by blast
  obtain ok b' where s: "spend_token (fd_now d) (token_of body) email Signup b = (ok, b')" by fastforce
  then have b': "bridge_inv lib b'" using spend_inv [OF assms(1)] by (metis snd_conv)
  have "bridge_inv lib (snd (runStreamed (signup_flow bc lib ops fetch d meanwhile email) b'))"
    by (rule keeps_streamed [OF keeps_signup b']) (use lower_mail [OF e] assms(2) in auto)
  then show ?thesis using e False b' assms(1) by (cases ok) (simp_all add: post_signup_finger_def s)
qed

lemma sign_in_inv:
  assumes "bridge_inv lib b"
  shows "bridge_inv lib (snd (post_finger ty bc lib ops fetch d body b))"
proof (cases "body = JNull \<or> normalizeEmail (jget ''email'' body) = None")
  case True
  then show ?thesis using assms(1) by (auto simp: post_finger_def split: option.split)
next
  case False
  then obtain email where e: "normalizeEmail (jget ''email'' body) = Some email" by blast
  obtain ok b' where s: "spend_token (fd_now d) (token_of body) email Login b = (ok, b')" by fastforce
  then have b': "bridge_inv lib b'" using spend_inv [OF assms(1)] by (metis snd_conv)
  have "bridge_inv lib (snd (runStreamed (sign_in_flow bc lib ops fetch d ty email) b'))"
    by (rule keeps_streamed [where P = "bridge_inv lib", OF keeps_sign_in b']) (auto intro: local_inv attach_central_inv)
  then show ?thesis using e False b' by (cases ok) (simp_all add: post_finger_def s)
qed

lemma bridge_step_inv: "bridge_step lib b b' \<Longrightarrow> bridge_inv lib b \<Longrightarrow> bridge_inv lib b'"
proof (induction rule: bridge_step.induct)
  case (signup meanwhile b bc ops fetch d body)
  have "bridge_inv lib (meanwhile x)" if "bridge_inv lib x" for x
  proof -
    have "(\<lambda>x y. bridge_step lib x y \<and> (bridge_inv lib x \<longrightarrow> bridge_inv lib y))\<^sup>*\<^sup>* x (meanwhile x)" using signup.IH by blast
    then show ?thesis using that by (induction rule: rtranclp_induct) simp_all
  qed
  then show ?case by (rule signup_inv [OF signup.prems])
next
  case (wipe b)
  then show ?case by (simp add: post_reset_def reset_def saveAccounts_def bridge_inv_def accounts_sound_def)
qed (rule request_inv verify_inv sign_in_inv restart_inv; assumption)+

lemma bridge_steps_inv:
  assumes "(bridge_step lib)\<^sup>*\<^sup>* b0 b" "fresh_bridge b0"
  shows "bridge_inv lib b"
  using assms(1)
proof (induction rule: rtranclp_induct)
  case base
  then show ?case using assms(2) by (simp add: fresh_bridge_def bridge_inv_def accounts_sound_def)
next
  case (step x y)
  then show ?case by (blast intro: bridge_step_inv)
qed

section \<open>Properties\<close>

text \<open>The client of the central API does not throw when its listings are lists.\<close>

definition client_returns :: "'w fetcher \<Rightarrow> string \<Rightarrow> bool" where
  "client_returns fetch email \<longleftrightarrow> (\<forall>w. fst (registerUser fetch email w) \<noteq> Inl ())"

lemma fst_chain_returns: "(\<exists>x. fst (f b) = Inr x) \<Longrightarrow> (\<And>x b'. \<exists>y. fst (g x b') = Inr y) \<Longrightarrow> \<exists>y. fst (chain f g b) = Inr y"
  by (auto simp: chain_def case_prod_beta split: sum.split)

lemma emit_returns: "\<exists>x. fst (emit p b) = Inr x" by (simp add: emit_def)

lemma report_returns: "\<exists>x. fst (report_sign_in fetch now dev user score ty b) = Inr x"
  unfolding report_sign_in_def
  by (intro fst_chain_returns emit_returns) (auto simp: tell_def case_prod_beta emit_def chain_def split: option.split)

lemma sync_login_returns:
  fixes b :: "('s, 'w) bridge" and fetch :: "'w fetcher"
  assumes "client_returns fetch email"
  shows "fst (syncLoginToCentral bc fetch now email score ty b) = Inr ()"
proof -
  have ask: "fst (backfill_user fetch email b') = Inr ()" for b' :: "('s, 'w) bridge"
    using assms by (cases "registerUser fetch email (br_world b')")
      (auto simp: backfill_user_def give_def chain_def ask_def client_returns_def change_def case_prod_beta
        split: sum.split option.split, metis fst_conv unit.exhaust)
  obtain ps b1 where b: "backfill_user fetch email b = (Inr (), ps, b1)" using ask [of b] by (metis fst_conv surj_pair)
  show ?thesis
    using report_returns [of fetch now _ "central_user email b1" score ty b1]
    by (auto simp: syncLoginToCentral_def chain_def b Let_def emit_def case_prod_beta split: option.split)
qed

lemma chain_events: "fst (chain f (\<lambda>x. emit (p x)) b) = Inr y \<Longrightarrow> \<exists>x qs b'. fst (f b) = Inr x \<and> chain f (\<lambda>x. emit (p x)) b = (Inr y, qs @ [p x], b')"
  by (auto simp: chain_def emit_def case_prod_beta split: sum.splits)

lemma sign_in_ends:
  assumes "client_returns fetch email"
  shows "(\<exists>ps b'. runStreamed (sign_in_flow bc lib ops fetch d ty email) b = (Reply 200 (ps @ [AuthDone r ty]), b')) \<longleftrightarrow>
    fst (performAuthenticate bc lib ops d email b) = Inr r"
proof -
  obtain q ps b1 where a: "performAuthenticate bc lib ops d email b = (q, ps, b1)" by (cases "performAuthenticate bc lib ops d email b")
  show ?thesis
  proof (cases q)
    case (Inl er)
    then show ?thesis by (simp add: runStreamed_def sign_in_flow_def chain_def a)
  next
    case (Inr r')
    let ?sync = "if ar_matched r' then syncLoginToCentral bc fetch (fd_now d) email (ar_score r') ty else give ()"
    have "fst (?sync b1) = Inr ()" by (simp add: sync_login_returns [OF assms])
    then obtain qs b2 where "?sync b1 = (Inr (), qs, b2)" by (metis fst_conv surj_pair)
    then have "sign_in_flow bc lib ops fetch d ty email b = (Inr (), ps @ qs @ [AuthDone r' ty], b2)"
      by (simp add: sign_in_flow_def chain_def a Inr emit_def)
    then show ?thesis using Inr a by (auto simp: runStreamed_def)
  qed
qed

definition live_token :: "time_ms \<Rightarrow> json \<Rightarrow> string \<Rightarrow> otp_state \<Rightarrow> bool" where
  "live_token now body email st \<longleftrightarrow> token_of body \<noteq> [] \<and> fst (consumeSession now (token_of body) email Login st)"

lemma spend_live:
  "spend_token now (token_of body) email Login b =
     (live_token now body email (br_otp b),
      b\<lparr>br_otp := (if token_of body = [] then br_otp b else snd (consumeSession now (token_of body) email Login (br_otp b)))\<rparr>)"
  by (simp add: spend_token_def live_token_def split: prod.split)

lemma accepted_otp: "finger_accepted lib ops rnd email (b\<lparr>br_otp := st\<rparr>) r = finger_accepted lib ops rnd email b r"
  by (simp add: finger_accepted_def get_account_def)

lemma finger_ends:
  assumes "\<not> bc_sim bc" "normalizeEmail (jget ''email'' body) = Some email" "client_returns fetch email"
  shows "(\<exists>ps b'. post_finger ty bc lib ops fetch d body b = (Reply 200 (ps @ [AuthDone r ty]), b')) \<longleftrightarrow>
    live_token (fd_now d) body email (br_otp b) \<and>
    fst (authenticate lib ops (fd_rnd d 0) email (b\<lparr>br_otp := (if token_of body = [] then br_otp b
      else snd (consumeSession (fd_now d) (token_of body) email Login (br_otp b)))\<rparr>)) = Inr r"
proof -
  have "body \<noteq> JNull" using assms(2) by (auto simp: jget_def normalizeEmail_def)
  then show ?thesis
    using assms(1,2) sign_in_ends [OF assms(3), of bc lib ops d ty _ r]
    by (cases "live_token (fd_now d) body email (br_otp b)") (simp_all add: post_finger_def spend_live performAuthenticate_def)
qed

text \<open>The prover is complete on derived signals, and base64 decodes what it encoded.\<close>

definition prover_complete :: "bridge_lib \<Rightarrow> bool" where
  "prover_complete lib \<longleftrightarrow> (\<forall>x. bl_unbase64 lib (bl_base64 lib x) = x) \<and>
     (\<forall>rnd template email salt sg. deriveSignals lib template email (Some salt) [] = Some sg \<longrightarrow>
       (\<exists>p. generateProof lib rnd sg = Inr (p, map dec_int [ig_commitment sg, ig_did_hash sg, ig_binding sg]) \<and>
         bl_verify lib (map dec_int [ig_commitment sg, ig_did_hash sg, ig_binding sg]) p = Some True))"

lemma sound_account_accepted:
  assumes "account_sound lib a" "fa_email a = email" "prover_complete lib" "get_account email b = Some a"
    and "so_wait ops (br_sensor b) = (Inr (), s1)" "so_image ops 1 s1 = (Inr (), s2)" "\<forall>x. so_download ops 2 x s2 = (Inr (), s3)"
      "so_match ops s3 = (Inr (Some score), s4)" "50 \<le> score"
  shows "\<exists>r. finger_accepted lib ops rnd email b r \<and> ar_matched r \<and> ar_did r = Some (deriveDid lib email)"
proof -
  obtain template salt sg where s: "fa_template a = bl_base64 lib template" "fa_salt a = dec_int salt"
      "deriveSignals lib template email (Some salt) [] = Some sg" "fa_commitment a = dec_int (ig_commitment sg)"
      "fa_did_hash a = dec_int (ig_did_hash sg)" "fa_binding a = dec_int (ig_binding sg)" "fa_did a = ig_did sg"
    using assms(1,2) by (auto simp: account_sound_def)
  obtain p where p: "generateProof lib rnd sg = Inr (p, map dec_int [ig_commitment sg, ig_did_hash sg, ig_binding sg])"
      "bl_verify lib (map dec_int [ig_commitment sg, ig_did_hash sg, ig_binding sg]) p = Some True"
    using assms(3) s(3) unfolding prover_complete_def by blast
  have un: "bl_unbase64 lib (fa_template a) = template" using assms(3) by (simp add: prover_complete_def s(1))
  define r where "r = \<lparr> ar_matched = True, ar_email = email, ar_score = Some score, ar_reason = None,
     ar_preview = Some (shortHex (ig_commitment sg)), ar_did = Some (fa_did a) \<rparr>"
  have "finger_accepted lib ops rnd email b r"
    unfolding finger_accepted_def
    by (intro exI [of _ a] exI [of _ s1] exI [of _ s2] exI [of _ s3] exI [of _ s4] exI [of _ score] exI [of _ salt] exI [of _ sg]
        exI [of _ "(p, map dec_int [ig_commitment sg, ig_did_hash sg, ig_binding sg])"])
      (use assms(4-9) s p un in \<open>simp_all add: r_def bigint_of_dec_int MATCH_THRESHOLD_def signals_match_def verify_own_proof_def\<close>)
  then show ?thesis using derived_fields(2) [OF s(3)] by (auto simp: r_def s(7))
qed

section \<open>A bridge with two open sessions\<close>

definition demo_lib :: bridge_lib where
  "demo_lib = \<lparr> bl_sha = (\<lambda>_. replicate 32 0), bl_utf8 = (\<lambda>_. []), bl_base64 = map (char_of \<circ> unat),
     bl_unbase64 = map (\<lambda>c. of_nat (of_char c)), bl_poseidon1 = (\<lambda>x. x), bl_poseidon2 = (+),
     bl_prove = (\<lambda>_ ws. Inr (JNull, drop 2 ws)), bl_verify = (\<lambda>_ _. Some True) \<rparr>"

definition demo_ops :: "bytes \<Rightarrow> unit sensor_ops" where
  "demo_ops t = \<lparr> so_wait = (\<lambda>_. (Inr (), ())), so_removal = (\<lambda>_. (Inr (), ())), so_image = (\<lambda>_ _. (Inr (), ())),
     so_combine = (\<lambda>_. (Inr (), ())), so_upload = (\<lambda>_ _. (Inr t, ())), so_download = (\<lambda>_ _ _. (Inr (), ())),
     so_match = (\<lambda>_. (Inr (Some 87), ())) \<rparr>"

definition demo_otp :: otp_state where
  "demo_otp = fresh_otp\<lparr>ot_sessions := [''s'' \<mapsto> \<lparr> os_email = ''a@b.c'', os_kind = Signup, os_expires = 120000 \<rparr>,
     ''t'' \<mapsto> \<lparr> os_email = ''a@b.c'', os_kind = Login, os_expires = 120000 \<rparr>]\<rparr>"

definition demo_start :: "(unit, unit) bridge" where
  "demo_start = \<lparr> br_accounts = [], br_file = None, br_otp = demo_otp, br_sensor = (), br_world = () \<rparr>"

definition demo_bc :: bridge_config where
  "demo_bc = \<lparr> bc_sim = False, bc_show_otp = False, bc_device = None \<rparr>"

definition demo_draw :: flow_draw where
  "demo_draw = \<lparr> fd_now = 1000, fd_salt = (\<lambda>_. replicate 31 0), fd_rnd = (\<lambda>_. 0) \<rparr>"

definition demo_body :: "string \<Rightarrow> json" where
  "demo_body token = JObj [(''email'', JStr ''A@b.c ''), (''sessionToken'', JStr token)]"

definition no_answer :: "unit fetcher" where "no_answer q w = (None, w)"

lemma zero_hex: "bigint_of_string (''0x'' @ replicate 62 CHR ''0'') = Some 0" by code_simp

lemma zero_field: "31 \<le> n \<Longrightarrow> toFieldElement (replicate n 0) = Some 0"
proof -
  assume "31 \<le> n"
  then have "take 31 (replicate n (0::byte)) = replicate 31 0" by (simp add: min_def)
  moreover have "hex_of (replicate 31 0) = replicate 62 CHR ''0''" by code_simp
  ultimately show "toFieldElement (replicate n 0) = Some 0" using \<open>31 \<le> n\<close> zero_hex by (simp add: toFieldElement_def)
qed

lemma demo_signals: "\<exists>sg. deriveSignals demo_lib t email None (replicate 31 0) = Some sg"
  by (simp add: deriveSignals_def randomSalt_def zero_field deriveBiometricSecret_def biometricId_def computeDidHash_def demo_lib_def Let_def)

lemma idle_sensor: "b\<lparr>br_sensor := ()\<rparr> = b" for b :: "(unit, 'w) bridge"
  by simp

lemma demo_proof: "proved (generateProof demo_lib n sg) = give (JNull, map dec_int [ig_commitment sg, ig_did_hash sg, ig_binding sg])"
  "verify_own_proof demo_lib p"
  by (simp_all add: proved_def generateProof_def demo_lib_def verify_own_proof_def)

lemma demo_attempt:
  fixes b :: "(unit, 'w) bridge"
  shows "\<exists>ps a. fa_template a = bl_base64 demo_lib t \<and>
    enroll_attempt demo_lib (demo_ops t) demo_draw email k b = (Inr a, ps, set_account email a b)"
proof -
  obtain sg where sg: "deriveSignals demo_lib t email None (replicate 31 0) = Some sg" using demo_signals by blast
  show ?thesis
    by (rule exI, rule exI [of _ "new_account demo_lib 1000 email t sg"])
      (simp add: enroll_attempt_def chain_def emit_def sense_def some_or_def give_def change_def demo_ops_def demo_draw_def sg demo_proof
        idle_sensor Let_def new_account_def)
qed

lemma demo_enroll:
  fixes b :: "(unit, 'w) bridge"
  assumes "get_account email b = None"
  shows "\<exists>ps a. fa_template a = bl_base64 demo_lib t \<and>
    enroll demo_lib (demo_ops t) demo_draw meanwhile email b = (Inr a, ps, set_account email a (meanwhile b))"
proof -
  obtain ps a where "fa_template a = bl_base64 demo_lib t"
      "enroll_attempt demo_lib (demo_ops t) demo_draw email 1 (meanwhile b) = (Inr a, ps, set_account email a (meanwhile b))"
    using demo_attempt by blast
  then show ?thesis by (intro exI [of _ ps] exI [of _ a]) (simp add: enroll_def assms MAX_ENROLL_ATTEMPTS_def numeral_2_eq_2)
qed

definition demo_signup :: "bytes \<Rightarrow> string \<Rightarrow> (unit, unit) bridge \<Rightarrow> (unit, unit) bridge" where
  "demo_signup t token b =
     snd (post_signup_finger demo_bc demo_lib (demo_ops t) no_answer demo_draw (\<lambda>b. b) (demo_body token) b)"

lemma demo_email: "normalizeEmail (jget ''email'' (demo_body token)) = Some ''a@b.c''"
proof -
  have "normalizeEmail (JStr ''A@b.c '') = Some ''a@b.c''" by code_simp
  then show ?thesis by (simp add: demo_body_def jget_def)
qed

lemma demo_token: "token_of (demo_body token) = token" by (simp add: token_of_def demo_body_def jget_def jstr_def)

lemma demo_signup_stores:
  assumes "get_account ''a@b.c'' b = None" "spend_token 1000 token ''a@b.c'' Signup b = (True, b')"
  shows "\<exists>a. fa_template a = bl_base64 demo_lib t \<and> demo_signup t token b = set_account ''a@b.c'' a b'"
proof -
  have "get_account ''a@b.c'' b' = None"
    using assms by (auto simp: spend_token_def get_account_def split: if_splits prod.splits)
  then obtain ps a where "fa_template a = bl_base64 demo_lib t"
      "enroll demo_lib (demo_ops t) demo_draw (\<lambda>b. b) ''a@b.c'' b' = (Inr a, ps, set_account ''a@b.c'' a b')"
    using demo_enroll [of "''a@b.c''" b' t "\<lambda>b. b"] by auto
  then show ?thesis
    by (intro exI [of _ a])
      (simp add: demo_signup_def post_signup_finger_def demo_email demo_token assms demo_draw_def signup_flow_def chain_def runStreamed_def
        performEnroll_def demo_bc_def syncSignupToCentral_def emit_def some_or_def throw_def give_def split: option.split sum.split prod.split,
       simp add: demo_body_def)
qed

definition demo_enrolled :: "(unit, unit) bridge" where
  "demo_enrolled = demo_signup [1] ''s'' demo_start"

lemma demo_enrolled_parts:
  obtains a where "get_account ''a@b.c'' demo_enrolled = Some a" "fa_template a = bl_base64 demo_lib [1]"
    "br_otp demo_enrolled = snd (consumeSession 1000 ''s'' ''a@b.c'' Signup demo_otp)"
proof -
  have "spend_token 1000 ''s'' ''a@b.c'' Signup demo_start =
      (True, demo_start\<lparr>br_otp := snd (consumeSession 1000 ''s'' ''a@b.c'' Signup demo_otp)\<rparr>)"
    by (simp add: spend_token_def consumeSession_def demo_start_def demo_otp_def)
  then obtain a where a: "fa_template a = bl_base64 demo_lib [1]"
    and e: "demo_enrolled = set_account ''a@b.c'' a (demo_start\<lparr>br_otp := snd (consumeSession 1000 ''s'' ''a@b.c'' Signup demo_otp)\<rparr>)"
    using demo_signup_stores [of demo_start "''s''" _ "[1]"] by (auto simp: get_account_def demo_start_def demo_enrolled_def)
  show thesis
  proof (rule that [OF _ a])
    show "get_account ''a@b.c'' demo_enrolled = Some a"
      unfolding e by (simp add: get_account_def set_account_def saveAccounts_def update_conv')
    show "br_otp demo_enrolled = snd (consumeSession 1000 ''s'' ''a@b.c'' Signup demo_otp)"
      unfolding e by (simp add: set_account_def saveAccounts_def)
  qed
qed

lemma demo_account: "get_account ''a@b.c'' demo_enrolled \<noteq> None"
  by (rule demo_enrolled_parts) simp

lemma demo_live: "live_token 1000 (demo_body ''t'') ''a@b.c'' (br_otp demo_enrolled)"
  by (rule demo_enrolled_parts) (simp add: live_token_def demo_token consumeSession_def demo_otp_def)

lemma demo_prover: "prover_complete demo_lib"
proof -
  have "unat x < 2 ^ LENGTH(8)" for x :: byte by (rule unsigned_less)
  then have "word_of_nat (unat x mod 256) = x" for x :: byte by simp
  then have "map (\<lambda>x. word_of_nat (unat x mod 256)) xs = xs" for xs :: bytes by (rule map_idI)
  then show ?thesis by (simp add: prover_complete_def demo_lib_def generateProof_def comp_def del: of_nat_mod)
qed

lemma no_answer_returns: "client_returns no_answer email"
  by (simp add: client_returns_def registerUser_def request_def no_answer_def status_is_def)

lemma demo_steps: "(bridge_step demo_lib)\<^sup>*\<^sup>* demo_start demo_enrolled" "fresh_bridge demo_start"
proof -
  have "bridge_step demo_lib demo_start demo_enrolled"
    unfolding demo_enrolled_def demo_signup_def by (rule bridge_step.signup) simp
  then show "(bridge_step demo_lib)\<^sup>*\<^sup>* demo_start demo_enrolled" by simp
  show "fresh_bridge demo_start" by (simp add: fresh_bridge_def demo_start_def)
qed

section \<open>Signing in with a finger\<close>

text \<open>Property C18.  A sign-in or sign-out at the sensor ends with a match exactly when the address is well formed, the token
  is a live one of that address, an account is stored, every sensor command succeeds, the score reaches the
  threshold, the signals derived again from the stored template and salt are provable and equal the stored ones, and the
  proof verifies.\<close>

theorem finger_sign_in_iff:
  assumes "\<not> bc_sim bc" "normalizeEmail (jget ''email'' body) = Some email" "client_returns fetch email"
  shows "(\<exists>ps b'. post_finger ty bc lib ops fetch d body b = (Reply 200 (ps @ [AuthDone r ty]), b')) \<and> ar_matched r \<longleftrightarrow>
    live_token (fd_now d) body email (br_otp b) \<and> finger_accepted lib ops (fd_rnd d 0) email b r"
  unfolding finger_ends [OF assms] conj_assoc authenticate_accepts accepted_otp ..

lemma demo_accepted: "\<exists>r. finger_accepted demo_lib (demo_ops [1]) 0 ''a@b.c'' demo_enrolled r \<and> ar_matched r"
proof -
  obtain a where a: "get_account ''a@b.c'' demo_enrolled = Some a" using demo_account by blast
  then have "account_sound demo_lib a" "fa_email a = ''a@b.c''"
    using bridge_steps_inv [OF demo_steps]
    by (auto simp: bridge_inv_def accounts_sound_def list_all_iff get_account_def dest!: map_of_SomeD)
  from sound_account_accepted [OF this demo_prover a, of "demo_ops [1]" _ _ _ 87] show ?thesis
    by (auto simp: demo_ops_def)
qed

theorem finger_sign_in_iff_witness:
  "\<exists>r ps b'. post_finger ''check_in'' demo_bc demo_lib (demo_ops [1]) no_answer demo_draw (demo_body ''t'') demo_enrolled =
    (Reply 200 (ps @ [AuthDone r ''check_in'']), b') \<and> ar_matched r"
proof -
  obtain r where "finger_accepted demo_lib (demo_ops [1]) 0 ''a@b.c'' demo_enrolled r" using demo_accepted by blast
  then show ?thesis
    using finger_sign_in_iff [OF _ demo_email no_answer_returns, of demo_bc "''check_in''" demo_lib "demo_ops [1]" demo_draw "''t''" demo_enrolled r]
      demo_live
    by (auto simp: demo_bc_def demo_draw_def)
qed

text \<open>Property C20.  Who enrolled can sign in.  In whatever state the bridge has come to from an empty start, through
  sign-ups, sign-ins, resets and restarts in any order, an address with an account and a live token is matched by a
  finger the sensor scores at the threshold or above, with the DID of that address.\<close>

theorem enrolled_finger_signs_in:
  assumes "(bridge_step lib)\<^sup>*\<^sup>* b0 b" "fresh_bridge b0" "prover_complete lib"
    and "\<not> bc_sim bc" "normalizeEmail (jget ''email'' body) = Some email" "client_returns fetch email"
    and "live_token (fd_now d) body email (br_otp b)" "get_account email b = Some a"
    and "so_wait ops (br_sensor b) = (Inr (), s1)" "so_image ops 1 s1 = (Inr (), s2)" "\<forall>x. so_download ops 2 x s2 = (Inr (), s3)"
      "so_match ops s3 = (Inr (Some score), s4)" "50 \<le> score"
  shows "\<exists>ps r b'. post_finger ty bc lib ops fetch d body b = (Reply 200 (ps @ [AuthDone r ty]), b') \<and>
    ar_matched r \<and> ar_did r = Some (deriveDid lib email)"
proof -
  have "(email, a) \<in> set (br_accounts b)" using assms(8) by (simp add: get_account_def map_of_SomeD)
  then have "account_sound lib a" "fa_email a = email"
    using bridge_steps_inv [OF assms(1,2)] by (auto simp: bridge_inv_def accounts_sound_def list_all_iff)
  then obtain r where r: "finger_accepted lib ops (fd_rnd d 0) email b r" "ar_matched r" "ar_did r = Some (deriveDid lib email)"
    using sound_account_accepted [OF _ _ assms(3,8-13)] by blast
  then have "\<exists>ps b'. post_finger ty bc lib ops fetch d body b = (Reply 200 (ps @ [AuthDone r ty]), b')"
    unfolding finger_ends [OF assms(4-6)] using assms(7) authenticate_accepts accepted_otp by blast
  then show ?thesis using r by blast
qed

theorem enrolled_finger_signs_in_witness:
  "\<exists>ps r b'. post_finger ''check_in'' demo_bc demo_lib (demo_ops [1]) no_answer demo_draw (demo_body ''t'') demo_enrolled =
     (Reply 200 (ps @ [AuthDone r ''check_in'']), b') \<and> ar_matched r \<and> ar_did r = Some (deriveDid demo_lib ''a@b.c'')"
proof -
  obtain a where a: "get_account ''a@b.c'' demo_enrolled = Some a" using demo_account by blast
  have now: "fd_now demo_draw = 1000" by (simp add: demo_draw_def)
  show ?thesis
    by (rule enrolled_finger_signs_in [OF demo_steps demo_prover _ demo_email no_answer_returns _ a, where score = 87])
      (simp_all add: demo_bc_def demo_ops_def now demo_live)
qed

text \<open>The accounts survive a restart of the bridge: from any state it can come to, the new process holds the
  same accounts under the same addresses, each as its JSON text keeps it, and a second restart changes nothing more.\<close>

theorem accounts_survive_restart:
  assumes "(bridge_step lib)\<^sup>*\<^sup>* b0 b" "fresh_bridge b0"
  shows "get_account email (restart b) = map_option stored_account (get_account email b) \<and>
    br_accounts (restart (restart b)) = br_accounts (restart b) \<and> br_file (restart b) = br_file b"
proof -
  have i: "bridge_inv lib b" by (rule bridge_steps_inv [OF assms])
  have "map_of (map (apsnd stored_account) xs) k = map_option stored_account (map_of xs k)" for xs :: "(string \<times> finger_account) list" and k
    by (induction xs) auto
  moreover have "stored_account (stored_account a) = stored_account a" for a by (simp add: stored_account_def stored_twice)
  ultimately show ?thesis
    using restart_accounts [OF i] restart_accounts(1) [OF restart_inv [OF i]] by (simp add: get_account_def comp_def apsnd_compose)
qed

theorem accounts_survive_restart_witness:
  "get_account ''a@b.c'' (restart demo_enrolled) \<noteq> None \<and> br_accounts (restart (restart demo_enrolled)) = br_accounts (restart demo_enrolled)"
  using accounts_survive_restart [OF demo_steps] demo_account by simp

text \<open>Property C38.  A session token is worth one use.  Once it was presented for a sign-in or a sign-out, whatever came of it,
  the same token is refused for the next one: a sign-in followed by a sign-out needs two codes.  The comment above the checkout
  route says the opposite, that the verified token of a sign-in can be reused for the sign-out that follows it; the
  routes share the kind of the token, but \<open>consumeSession\<close> deletes it at the first use.\<close>

theorem sign_out_needs_new_code:
  assumes "post_finger ty bc lib ops fetch d body b = (res, b')" "normalizeEmail (jget ''email'' body) \<noteq> None"
    and "token_of body' = token_of body" "normalizeEmail (jget ''email'' body') = Some email'"
  shows "fst (post_finger ty' bc' lib' ops' fetch' d' body' b') = Refuse 401 ''otp_required''"
proof -
  obtain email where e: "normalizeEmail (jget ''email'' body) = Some email" using assms(2) by blast
  have nn: "body \<noteq> JNull" "body' \<noteq> JNull" using e assms(4) by (auto simp: jget_def normalizeEmail_def)
  let ?P = "\<lambda>b. token_of body = [] \<or> ot_sessions (br_otp b) (token_of body) = None"
  have spent: "?P (snd (spend_token (fd_now d) (token_of body) email Login b))"
    by (auto simp: spend_token_def consumeSession_def split: prod.splits option.splits)
  have att: "?P (attach_central email u x)" if "?P x" for u x
    using that by (simp add: attach_central_def set_account_def saveAccounts_def split: option.split)
  have loc: "local_to_bridge ?P" by (simp add: local_to_bridge_def)
  obtain ok b1 where s: "spend_token (fd_now d) (token_of body) email Login b = (ok, b1)" by fastforce
  have "?P (snd (runStreamed (sign_in_flow bc lib ops fetch d ty email) b1))"
    by (rule keeps_streamed [where P = ?P, OF keeps_sign_in [OF loc att]]) (use spent s in auto)
  then have "?P b'" using assms(1) e nn(1) spent s by (cases ok) (auto simp: post_finger_def)
  then have "spend_token now (token_of body) email' Login b' = (False, b')" for now
    by (auto simp: spend_token_def consumeSession_def)
  then show ?thesis using assms(3,4) nn(2) by (simp add: post_finger_def)
qed

theorem sign_out_needs_new_code_witness:
  "fst (post_finger ''check_out'' demo_bc demo_lib (demo_ops [1]) no_answer demo_draw (demo_body ''t'')
     (snd (post_finger ''check_in'' demo_bc demo_lib (demo_ops [1]) no_answer demo_draw (demo_body ''t'') demo_enrolled))) =
   Refuse 401 ''otp_required''"
  by (rule sign_out_needs_new_code [OF surjective_pairing]) (simp_all add: demo_email)

section \<open>Two sign-ups for one address\<close>

definition ends_in :: "('a \<Rightarrow> ('s, 'w) bridge \<Rightarrow> bool) \<Rightarrow> ('s, 'w, 'a) flow \<Rightarrow> bool" where
  "ends_in P f \<longleftrightarrow> (\<forall>b x ps b'. f b = (Inr x, ps, b') \<longrightarrow> P x b')"

lemma ends_chain: "(\<And>x. ends_in P (g x)) \<Longrightarrow> ends_in P (chain f g)"
  by (fastforce simp: ends_in_def chain_def split: prod.splits sum.splits)

lemma ends_in_order: "ends_in P rest \<Longrightarrow> ends_in P (in_order fs rest)"
  by (induction fs) (auto intro: ends_chain)

lemma ends_if_throw: "ends_in P f \<Longrightarrow> ends_in P (if c then throw er else f)"
  by (simp add: ends_in_def throw_def)

lemma ends_store: "ends_in (\<lambda>a b. get_account email b = Some a) (chain (change (set_account email a)) (\<lambda>_. give a))"
  by (simp add: ends_in_def chain_def change_def give_def get_account_def set_account_def saveAccounts_def update_conv')

lemma stored_by_attempt: "ends_in (\<lambda>a b. get_account email b = Some a) (enroll_attempt lib ops d email k)"
  unfolding enroll_attempt_def Let_def by (intro ends_chain ends_in_order ends_if_throw ends_store)

lemma stored_by_attempts: "enroll_attempts lib ops d email k left b = (Inr a, ps, b') \<Longrightarrow> get_account email b' = Some a"
proof (induction left arbitrary: k b ps)
  case 0
  then show ?case using stored_by_attempt [of email lib ops d k] by (auto simp: ends_in_def)
next
  case (Suc left)
  then show ?case using stored_by_attempt [of email lib ops d k]
    by (auto simp: ends_in_def Let_def split: prod.splits sum.splits option.splits)
qed

text \<open>A sign-up can replace a finger that was just enrolled.  The address is checked before the flow waits for
  the sensor and not again after it: whatever account another sign-up stored for it meanwhile, a sign-up that succeeds
  ends with its own account there.\<close>

theorem signup_race_overwrites:
  assumes "get_account email b = None" "enroll lib ops d meanwhile email b = (Inr a, ps, b')"
  shows "get_account email b' = Some a"
  using assms by (auto simp: enroll_def dest: stored_by_attempts)

text \<open>Two sign-ups with different fingers: the account of the first to end is lost.\<close>

lemma second_signup:
  "\<exists>a ps b'. fa_template a = bl_base64 demo_lib [2] \<and>
    enroll demo_lib (demo_ops [2]) demo_draw (demo_signup [1] ''s'') ''a@b.c'' demo_start = (Inr a, ps, b')"
  using demo_enroll [of "''a@b.c''" demo_start "[2]" "demo_signup [1] ''s''"] by (auto simp: get_account_def demo_start_def)

theorem signup_race_overwrites_witness:
  "\<exists>a1 a2. get_account ''a@b.c'' (demo_signup [1] ''s'' demo_start) = Some a1 \<and> fa_template a1 = bl_base64 demo_lib [1] \<and>
    get_account ''a@b.c'' (snd (snd (enroll demo_lib (demo_ops [2]) demo_draw (demo_signup [1] ''s'') ''a@b.c'' demo_start))) = Some a2 \<and>
    fa_template a2 = bl_base64 demo_lib [2]"
proof -
  obtain a ps b' where r: "fa_template a = bl_base64 demo_lib [2]"
      "enroll demo_lib (demo_ops [2]) demo_draw (demo_signup [1] ''s'') ''a@b.c'' demo_start = (Inr a, ps, b')"
    using second_signup by blast
  have "get_account ''a@b.c'' b' = Some a"
    by (rule signup_race_overwrites [OF _ r(2)]) (simp add: get_account_def demo_start_def)
  moreover obtain a1 where "get_account ''a@b.c'' demo_enrolled = Some a1" "fa_template a1 = bl_base64 demo_lib [1]"
    by (rule demo_enrolled_parts)
  ultimately show ?thesis using r by (simp add: demo_enrolled_def)
qed

section \<open>A late answer of the sensor\<close>

text \<open>The packet identifier of an acknowledgement is the code of a poor scan, so an acknowledgement in the place of a
  data packet, a fault of the link, is reported as a poor scan and retried.\<close>

lemma late_answer_retried:
  "classifyRetryable (SensorFailed (UnexpectedPid 7)) = Some ''Not enough ridge detail captured. Press a little more firmly.''"
  by code_simp

end
