(* ===== verification/Mirror.thy ===== *)
theory Mirror
  imports Bridge
begin

text \<open>
  The sensor bridge against the server: the routes of the tenant's key stand for \<open>fetch\<close>
  of the bridge's client, for a key the middleware admits (its check is \<open>authenticateTenantApiKey\<close> of \<open>Api_Access\<close>, not run again here) and a
  network that delivers every answer; a failed \<open>fetch\<close> is a \<open>None\<close> of the client's
  parameter and is covered by the lemmas of \<open>Bridge_Client\<close>.  What the client reads of an answer is
  the identifier and the external identifier of a row.
\<close>

section \<open>The server behind the client\<close>

definition row_reply :: "string \<Rightarrow> ('r \<Rightarrow> (string \<times> json) list) \<Rightarrow> 'r answer \<times> server \<Rightarrow> (nat \<times> json) option \<times> server" where
  "row_reply k f r = (case r of
       (Reply n x, s) \<Rightarrow> (Some (n, JObj [(k, JObj (f x))]), s)
     | (Refuse n code, s) \<Rightarrow> (Some (n, JObj [(''error'', JStr code)]), s))"

definition rows_reply :: "string \<Rightarrow> ('r \<Rightarrow> (string \<times> json) list) \<Rightarrow> ('r list \<times> environment) answer \<Rightarrow> (nat \<times> json) option" where
  "rows_reply k f r = (case r of
       Reply n (xs, _) \<Rightarrow> Some (n, JObj [(k, JArr (map (\<lambda>x. JObj (f x)) xs))])
     | Refuse n code \<Rightarrow> Some (n, JObj [(''error'', JStr code)]))"

definition device_members :: "device \<Rightarrow> (string \<times> json) list" where
  "device_members d = [(''id'', JStr (dv_id d)), (''external_id'', JStr (dv_external_id d))]"

definition user_members :: "tenant_user \<Rightarrow> (string \<times> json) list" where
  "user_members u = [(''id'', JStr (us_id u)), (''external_id'', JStr (us_external_id u))]"

definition limit_200 :: json where "limit_200 = JObj [(''limit'', JStr ''200'')]"

text \<open>The body crosses the wire as JSON text; \<open>ca\<close> is what each call draws.\<close>

definition central_api :: "(server \<Rightarrow> call_env) \<Rightarrow> tenant \<Rightarrow> api_key \<Rightarrow> server fetcher" where
  "central_api ca tn k q s =
     (let body = stored (cq_body q) in
      case cq_method q of
        POST \<Rightarrow>
          if cq_path q = ''/v1/devices'' then row_reply ''device'' device_members (post_v1_devices (ca s) tn k body s)
          else if cq_path q = ''/v1/users'' then row_reply ''user'' user_members (post_v1_users (ca s) tn k body s)
          else if cq_path q = ''/v1/verifications'' then
            row_reply ''verification'' (\<lambda>v. [(''id'', JStr (ve_id v))]) (post_v1_verifications (ca s) tn k body s)
          else if cq_path q = ''/v1/attendance'' then
            row_reply ''attendance'' (\<lambda>a. [(''id'', JStr (at_id a))]) (post_v1_attendance (ca s) tn k body s)
          else (Some (404, JNull), s)
      | GET \<Rightarrow>
          if cq_path q = ''/v1/devices?limit=200'' then (rows_reply ''devices'' device_members (get_v1_devices tn k limit_200 s), s)
          else if cq_path q = ''/v1/users?limit=200'' then (rows_reply ''users'' user_members (get_v1_users tn k limit_200 s), s)
          else (Some (404, JNull), s))"

section \<open>A sign-in reaches the server\<close>

lemma first_row_touched:
  assumes "\<And>x. Q (f x) = Q x" "first_row Q t = Some r"
  shows "\<exists>r'. first_row Q (update_rows P f t) = Some r'"
  using first_row_update [of Q t r f P] first_row_update_other [of Q t r f P] assms by (cases "P r") auto

lemma touched_rows:
  assumes "findTenantUser t e i s \<noteq> None" "findDevice t e j s \<noteq> None"
  shows "findTenantUser t e i (touch_verified t' u at now (touch_seen t' d at now s)) \<noteq> None"
    "findDevice t e j (touch_verified t' u at now (touch_seen t' d at now s)) \<noteq> None"
proof -
  have "scoped_user t e i (touch_user a x) = scoped_user t e i x" "scoped_device t e j (touch_device a y) = scoped_device t e j y" for a x y
    by (simp_all add: scoped_user_def scoped_device_def touch_user_def touch_device_def)
  note first_row_touched [of "scoped_user t e i", OF this(1)] first_row_touched [of "scoped_device t e j", OF this(2)]
  then show "findTenantUser t e i (touch_verified t' u at now (touch_seen t' d at now s)) \<noteq> None"
    "findDevice t e j (touch_verified t' u at now (touch_seen t' d at now s)) \<noteq> None"
    using assms by (auto simp: findTenantUser_def findDevice_def touch_verified_def touch_seen_def split: option.split)
qed

lemma touched_events [simp]:
  "t_verifications (touch_seen t d at now s) = t_verifications s" "t_attendance (touch_seen t d at now s) = t_attendance s"
  "t_verifications (touch_verified t u at now s) = t_verifications s" "t_attendance (touch_verified t u at now s) = t_attendance s"
  by (simp_all add: touch_seen_def touch_verified_def split: option.split)

text \<open>The references of a sign-in: a user and a device of the tenant environment, and fresh identifiers.\<close>

definition known :: "(server \<Rightarrow> call_env) \<Rightarrow> tenant \<Rightarrow> api_key \<Rightarrow> string \<Rightarrow> string \<Rightarrow> server \<Rightarrow> bool" where
  "known ca tn k uid did s \<longleftrightarrow> uid \<noteq> [] \<and> did \<noteq> [] \<and> findTenantUser (tn_id tn) (ak_environment k) uid s \<noteq> None \<and>
     findDevice (tn_id tn) (ak_environment k) did s \<noteq> None"

definition reads_ids :: "(server \<Rightarrow> call_env) \<Rightarrow> string list \<Rightarrow> bool" where
  "reads_ids ca ids \<longleftrightarrow> (\<forall>s. \<forall>i \<in> set ids. ca_pg_uuid (ca s) i = Some i)"

definition verification_body_json :: "string \<Rightarrow> string \<Rightarrow> nat option \<Rightarrow> string \<Rightarrow> json" where
  "verification_body_json uid did score ref =
     JObj [(''userId'', JStr uid), (''deviceId'', JStr did), (''method'', JStr ''fingerprint''), (''result'', JStr ''pass''),
       (''confidenceScore'', (case score of None \<Rightarrow> JUndef | Some n \<Rightarrow> JNum (int n))), (''referenceId'', JStr ref)]"

lemma found_ids:
  "findTenantUser t e i s = Some u \<Longrightarrow> us_id u = i" "findDevice t e i s = Some d \<Longrightarrow> dv_id d = i"
  by (auto dest!: find_scoped simp: scoped_user_def scoped_device_def)

lemma one_more_row:
  fixes s s0 :: server
  assumes "t_audit s0 = t_audit s" shows "length (t_audit (recordAuditEvent sha now t a s0)) = Suc (length (t_audit s))"
proof -
  obtain r where "t_audit (recordAuditEvent sha now t a s0) = t_audit s @ [r]"
    using record_one_row [OF assms, of t sha now a] by (auto simp: one_audit_row_def)
  then show ?thesis by simp
qed

lemma verification_stored:
  assumes "known ca tn k uid did s" "reads_ids ca [uid, did]" "score < 1000"
    and fresh: "\<forall>v \<in> set (t_verifications s). ve_id v \<noteq> ca_newid (ca s)"
  obtains v s' where "post_v1_verifications (ca s) tn k (stored (verification_body_json uid did (Some score) ref)) s = (Reply 201 v, s')"
    "t_verifications s' = t_verifications s @ [v]" "t_attendance s' = t_attendance s" "length (t_audit s') = Suc (length (t_audit s))"
    "known ca tn k uid did s'" "findVerification (tn_id tn) (ak_environment k) (ca_newid (ca s)) s' = Some v"
    "ve_id v = ca_newid (ca s)" "ve_user_id v = Some uid" "ve_device_id v = Some did" "ve_method v = MFingerprint" "ve_result v = Pass"
    "ve_confidence_score v = Some (int score)" "ve_api_key_id v = Some (ak_id k)"
proof -
  obtain u d where u: "findTenantUser (tn_id tn) (ak_environment k) uid s = Some u" and d: "findDevice (tn_id tn) (ak_environment k) did s = Some d"
    using assms(1) by (auto simp: known_def)
  have ids: "us_id u = uid" "dv_id d = did" using u d by (simp_all add: found_ids)
  have ne: "uid \<noteq> []" "did \<noteq> []" using assms(1) by (simp_all add: known_def)
  have pg: "ca_pg_uuid (ca s) uid = Some uid" "ca_pg_uuid (ca s) did = Some did" using assms(2) by (simp_all add: reads_ids_def)
  define body where "body = stored (verification_body_json uid did (Some score) ref)"
  have g: "jget ''userId'' body = JStr uid" "jget ''deviceId'' body = JStr did" "jget ''method'' body = JStr ''fingerprint''"
      "jget ''result'' body = JStr ''pass''" "jget ''confidenceScore'' body = JNum (int score)" "jget ''referenceId'' body = JStr ref"
      "jget ''occurredAt'' body = JUndef" "jget ''reason'' body = JUndef" "jget ''metadata'' body = JUndef"
    by (simp_all add: body_def verification_body_json_def jget_def null_for_undef_def or_else_def)
  have c: "choice_of VERIFICATION_METHODS (JStr ''fingerprint'') = Some MFingerprint" "choice_of VERIFICATION_RESULTS (JStr ''pass'') = Some Pass"
    by (simp_all add: choice_of_def VERIFICATION_METHODS_def VERIFICATION_RESULTS_def)
  define inp where "inp = verification_body (ca s) body MFingerprint Pass"
  have inp: "vi_user_id inp = Some uid" "vi_device_id inp = Some did" "vi_method inp = MFingerprint" "vi_result inp = Pass"
      "vi_confidence inp = Some (int score)" "vi_occurred_at inp = None"
    using ne pg by (simp_all add: inp_def verification_body_def g ref_of_def int_in_def stamp_def truthy_def)
  define v where "v = new_verification (ca_now (ca s)) (ca_newid (ca s)) (tn_id tn) (ak_environment k) (ak_id k) inp (Some uid) (Some did) (ca_now (ca s))"
  define r where "r = createVerificationEvent (date_at (ca s) JUndef) (ca_sha (ca s)) (ca_now (ca s)) (ca_newid (ca s)) (tn_id tn) (ak_environment k) (ak_id k) inp s"
  have post: "post_v1_verifications (ca s) tn k body s = (case r of
           (Inr v, s') \<Rightarrow> (Reply 201 v, s')
         | (Inl InvalidTimestamp, s') \<Rightarrow> (Refuse 500 ''verification_create_failed'', s')
         | (Inl _, s') \<Rightarrow> (Refuse 404 ''dependency_not_found'', s'))"
    using ne pg u d assms(3)
    by (simp add: post_v1_verifications_def g c bad_date_def bad_ref_def lost_ref_def ref_of_def ill_text_def bad_confidence_def r_def inp_def truthy_def)
  obtain a where r: "r = (Inr v, recordAuditEvent (ca_sha (ca s)) (ca_now (ca s)) (tn_id tn) a
      (touch_verified (tn_id tn) (Some uid) (ca_now (ca s)) (ca_now (ca s)) (touch_seen (tn_id tn) (Some did) (ca_now (ca s)) (ca_now (ca s))
        (s\<lparr>t_verifications := t_verifications s @ [v]\<rparr>))))"
    by (simp add: r_def createVerificationEvent_def parseTimestamp_def inp resolve_def ne u d ids Let_def v_def)
  let ?s = "touch_verified (tn_id tn) (Some uid) (ca_now (ca s)) (ca_now (ca s)) (touch_seen (tn_id tn) (Some did) (ca_now (ca s)) (ca_now (ca s))
        (s\<lparr>t_verifications := t_verifications s @ [v]\<rparr>))"
  have "length (t_audit (recordAuditEvent (ca_sha (ca s)) (ca_now (ca s)) (tn_id tn) a ?s)) = Suc (length (t_audit s))"
    by (rule one_more_row) simp
  moreover have "known ca tn k uid did (recordAuditEvent (ca_sha (ca s)) (ca_now (ca s)) (tn_id tn) a ?s)"
    using touched_rows [of "tn_id tn" "ak_environment k" uid "s\<lparr>t_verifications := t_verifications s @ [v]\<rparr>" did] assms(1)
    by (simp add: known_def) (simp add: findTenantUser_def findDevice_def)
  moreover have "first_row (\<lambda>x. ve_id x = ca_newid (ca s) \<and> ve_tenant_id x = tn_id tn \<and> ve_environment x = ak_environment k) (t_verifications s) = None"
    using fresh by (auto simp: first_row_None_iff)
  ultimately show thesis
    by (intro that [OF post [unfolded body_def r prod.case sum.case]])
      (simp_all add: findVerification_def first_row_append v_def new_verification_def inp)
qed

definition attendance_body_json :: "string \<Rightarrow> string \<Rightarrow> string \<Rightarrow> string \<Rightarrow> json" where
  "attendance_body_json uid did vid ty =
     JObj [(''userId'', JStr uid), (''deviceId'', JStr did), (''verificationId'', JStr vid), (''type'', JStr ty), (''result'', JStr ''accepted'')]"

lemma attendance_stored:
  assumes "known ca tn k uid did s" "reads_ids ca [uid, did, vid]" "vid \<noteq> []"
    and ver: "findVerification (tn_id tn) (ak_environment k) vid s = Some v"
    and ty: "choice_of ATTENDANCE_TYPES (JStr ty) = Some aty"
  obtains a s' where "post_v1_attendance (ca s) tn k (stored (attendance_body_json uid did vid ty)) s = (Reply 201 a, s')"
    "t_attendance s' = t_attendance s @ [a]" "t_verifications s' = t_verifications s" "length (t_audit s') = Suc (length (t_audit s))"
    "at_user_id a = uid" "at_device_id a = Some did" "at_verification_id a = Some vid" "at_event_type a = aty" "at_result a = Accepted"
proof -
  obtain u d where u: "findTenantUser (tn_id tn) (ak_environment k) uid s = Some u" and d: "findDevice (tn_id tn) (ak_environment k) did s = Some d"
    using assms(1) by (auto simp: known_def)
  have ids: "us_id u = uid" "dv_id d = did" "ve_id v = vid" using u d ver by (simp_all add: found_ids find_scoped(3))
  have ne: "uid \<noteq> []" "did \<noteq> []" using assms(1) by (simp_all add: known_def)
  have pg: "ca_pg_uuid (ca s) uid = Some uid" "ca_pg_uuid (ca s) did = Some did" "ca_pg_uuid (ca s) vid = Some vid"
    using assms(2) by (simp_all add: reads_ids_def)
  define body where "body = stored (attendance_body_json uid did vid ty)"
  have g: "jget ''userId'' body = JStr uid" "jget ''deviceId'' body = JStr did" "jget ''verificationId'' body = JStr vid"
      "jget ''type'' body = JStr ty" "jget ''result'' body = JStr ''accepted''" "jget ''occurredAt'' body = JUndef" "jget ''metadata'' body = JUndef"
    by (simp_all add: body_def attendance_body_json_def jget_def null_for_undef_def or_else_def)
  define inp where "inp = attendance_body (ca s) body aty"
  have inp: "ti_user_id inp = uid" "ti_device_id inp = Some did" "ti_verification_id inp = Some vid" "ti_type inp = aty"
      "ti_result inp = Some Accepted" "ti_occurred_at inp = None"
    using ne pg assms(3)
    by (simp_all add: inp_def attendance_body_def g ref_of_def stamp_def truthy_def or_else_def choice_of_def ATTENDANCE_RESULTS_def)
  define r where "r = createAttendanceEvent (date_at (ca s) JUndef) (ca_sha (ca s)) (ca_now (ca s)) (ca_newid (ca s)) (tn_id tn) (ak_environment k) (ak_id k) inp s"
  have acc: "unlisted ATTENDANCE_RESULTS (JStr ''accepted'') = False" "falsy_value (JStr ''accepted'') = False"
    by (simp_all add: unlisted_def ATTENDANCE_RESULTS_def falsy_value_def truthy_def)
  have ref: "bad_ref (ca s) (JStr uid) = False" "bad_ref (ca s) (JStr did) = False" "bad_ref (ca s) (JStr vid) = False"
      "ref_of (ca s) (JStr uid) = Some uid" "ref_of (ca s) (JStr did) = Some did" "ref_of (ca s) (JStr vid) = Some vid"
    using pg ne assms(3) by (simp_all add: bad_ref_def ref_of_def)
  have none: "bad_date (ca s) JUndef = False" by (simp add: bad_date_def truthy_def)
  have post: "post_v1_attendance (ca s) tn k body s = (case r of
             (Inr a, s') \<Rightarrow> (Reply 201 a, s')
           | (Inl InvalidTimestamp, s') \<Rightarrow> (Refuse 500 ''attendance_create_failed'', s')
           | (Inl _, s') \<Rightarrow> (Refuse 404 ''dependency_not_found'', s'))"
    using ne u d ver
    by (simp add: post_v1_attendance_def g ty acc ref none lost_ref_def r_def inp_def Let_def jstr_def or_else_def)
  define a where "a = \<lparr> at_id = ca_newid (ca s), at_tenant_id = tn_id tn, at_environment = ak_environment k, at_user_id = uid,
     at_device_id = Some did, at_verification_id = Some vid, at_event_type = aty, at_result = Accepted,
     at_metadata = stored (sanitizeMetadata (ti_metadata inp)), at_occurred_at = ca_now (ca s), at_created_at = ca_now (ca s) \<rparr>"
  have f: "resolve (\<lambda>i. findDevice (tn_id tn) (ak_environment k) i s) DeviceMissing (Some did) = Inr (Some d)"
      "resolve (\<lambda>i. findVerification (tn_id tn) (ak_environment k) i s) VerificationMissing (Some vid) = Inr (Some v)"
    using ne d ver assms(3) by (simp_all add: resolve_def)
  have r: "\<exists>i. r = (Inr a, recordAuditEvent (ca_sha (ca s)) (ca_now (ca s)) (tn_id tn) i (s\<lparr>t_attendance := t_attendance s @ [a]\<rparr>))"
    unfolding r_def createAttendanceEvent_def parseTimestamp_def inp f u option.case sum.case option.map ids derived_result_def Let_def
      a_def [symmetric] by (rule exI, rule refl)
  then obtain i where r: "r = (Inr a, recordAuditEvent (ca_sha (ca s)) (ca_now (ca s)) (tn_id tn) i (s\<lparr>t_attendance := t_attendance s @ [a]\<rparr>))"
    by blast
  have "length (t_audit (recordAuditEvent (ca_sha (ca s)) (ca_now (ca s)) (tn_id tn) i (s\<lparr>t_attendance := t_attendance s @ [a]\<rparr>))) = Suc (length (t_audit s))"
    by (rule one_more_row) simp
  then show thesis
    by (intro that [OF post [unfolded body_def r prod.case sum.case]]) (simp_all add: a_def)
qed

lemma central_api_verification:
  assumes "post_v1_verifications (ca s) tn k (stored (verification_body_json uid did score ref)) s = (Reply 201 v, s')"
  shows "recordVerification (central_api ca tn k) \<lparr> vp_user = JStr uid, vp_device = JStr did, vp_score = score, vp_reference = ref \<rparr> s =
    (Some (JObj [(''id'', JStr (ve_id v))]), s')"
  using assms
  by (simp add: recordVerification_def request_def central_api_def verification_body_json_def row_reply_def body_member_def some_json_def
      jget_def or_else_def del: stored.simps)

lemma central_api_check_in:
  assumes "post_v1_attendance (ca s) tn k (stored (attendance_body_json uid did vid ty)) s = (Reply 201 a, s')"
  shows "recordCheckIn (central_api ca tn k) (JStr uid) (JStr did) (JStr vid) ty s = (Some (JObj [(''id'', JStr (at_id a))]), s')"
  using assms
  by (simp add: recordCheckIn_def request_def central_api_def attendance_body_json_def row_reply_def body_member_def some_json_def
      jget_def or_else_def del: stored.simps)

text \<open>Property C19.  \<open>syncLoginToCentral\<close> of a bridge that has resolved its device, for an account linked to a
  central user that the server still knows in the key's environment, over a network that answers and with an admitted key,
  a score below 1000 and fresh identifiers: the sign-in or sign-out leaves at the server exactly one new passed fingerprint
  verification of that user on that device, with the score, and one new accepted attendance event that refers to it,
  each with its audit row.\<close>

theorem sign_in_mirrored:
  assumes "bc_device bc = Some dev" "jget ''id'' dev = JStr did" "central_user email b = JStr uid"
    and "known ca tn k uid did (br_world b)" "reads_ids ca [uid, did, ca_newid (ca (br_world b))]" "ca_newid (ca (br_world b)) \<noteq> []"
    and "\<forall>v \<in> set (t_verifications (br_world b)). ve_id v \<noteq> ca_newid (ca (br_world b))" "score < 1000"
    and "choice_of ATTENDANCE_TYPES (JStr ty) = Some aty"
  shows "\<exists>ps b' v a. syncLoginToCentral bc (central_api ca tn k) now email (Some score) ty b = (Inr (), ps, b') \<and>
    t_verifications (br_world b') = t_verifications (br_world b) @ [v] \<and> t_attendance (br_world b') = t_attendance (br_world b) @ [a] \<and>
    length (t_audit (br_world b')) = length (t_audit (br_world b)) + 2 \<and>
    ve_user_id v = Some uid \<and> ve_device_id v = Some did \<and> ve_method v = MFingerprint \<and> ve_result v = Pass \<and>
    ve_confidence_score v = Some (int score) \<and>
    at_user_id a = uid \<and> at_device_id a = Some did \<and> at_verification_id a = Some (ve_id v) \<and> at_event_type a = aty \<and> at_result a = Accepted"
proof -
  let ?s = "br_world b"
  define ref where "ref = ''iot-bridge:'' @ ty @ '':'' @ dec_int now"
  have two: "reads_ids ca [uid, did]" using assms(5) by (simp add: reads_ids_def)
  obtain v s1 where v: "post_v1_verifications (ca ?s) tn k (stored (verification_body_json uid did (Some score) ref)) ?s = (Reply 201 v, s1)"
    "t_verifications s1 = t_verifications ?s @ [v]" "t_attendance s1 = t_attendance ?s" "length (t_audit s1) = Suc (length (t_audit ?s))"
    "known ca tn k uid did s1" "findVerification (tn_id tn) (ak_environment k) (ca_newid (ca ?s)) s1 = Some v"
    "ve_id v = ca_newid (ca ?s)" "ve_user_id v = Some uid" "ve_device_id v = Some did" "ve_method v = MFingerprint" "ve_result v = Pass"
    "ve_confidence_score v = Some (int score)"
    by (rule verification_stored [OF assms(4) two assms(8,7), of ref])
  obtain a s2 where a: "post_v1_attendance (ca s1) tn k (stored (attendance_body_json uid did (ca_newid (ca ?s)) ty)) s1 = (Reply 201 a, s2)"
    "t_attendance s2 = t_attendance s1 @ [a]" "t_verifications s2 = t_verifications s1" "length (t_audit s2) = Suc (length (t_audit s1))"
    "at_user_id a = uid" "at_device_id a = Some did" "at_verification_id a = Some (ca_newid (ca ?s))" "at_event_type a = aty" "at_result a = Accepted"
    by (rule attendance_stored [OF v(5) assms(5,6) v(6) assms(9)])
  note calls = central_api_verification [where ca = ca and s = ?s, OF v(1)] central_api_check_in [where ca = ca and s = s1, OF a(1)]
  have id: "jget ''id'' (JObj [(''id'', x)]) = or_else JUndef (Some x)" for x by (simp add: jget_def)
  have "report_sign_in (central_api ca tn k) now (JStr did) (JStr uid) (Some score) ty b = (Inr (),
      [SyncingCentral SyncVerification, CentralSynced SyncVerification (JStr (ve_id v)), SyncingCentral SyncAttendance,
        CentralSynced SyncAttendance (JStr (at_id a))], b\<lparr>br_world := s2\<rparr>)"
    unfolding report_sign_in_def ref_def [symmetric] by (simp add: chain_def emit_def tell_def calls id v(7) or_else_def)
  moreover have "truthy (central_user email b)" using assms(3,4) by (simp add: truthy_def known_def)
  ultimately have "\<exists>ps. syncLoginToCentral bc (central_api ca tn k) now email (Some score) ty b = (Inr (), ps, b\<lparr>br_world := s2\<rparr>)"
    using assms(1-3) by (simp add: syncLoginToCentral_def chain_def backfill_user_def give_def Let_def)
  then show ?thesis using v a by auto
qed

definition demo_ids :: "server \<Rightarrow> call_env" where
  "demo_ids s = \<lparr> ca_sha = rev, ca_now = 9, ca_newid = ''v'', ca_uuid = ''w'', ca_draw = (\<lambda>_. 0), ca_date = (\<lambda>_. None), ca_pg_uuid = Some \<rparr>"

definition old_user :: "nat \<Rightarrow> tenant_user" where
  "old_user n = \<lparr> us_id = replicate (Suc n) (CHR ''u''), us_tenant_id = ''t'', us_environment = Live,
     us_external_id = ''a@b.c'' @ replicate n (CHR ''x''), us_full_name = ''a'', us_email = None, us_phone = None,
     us_employee_code = None, us_status = UserActive, us_primary_device_id = None, us_did = None, us_commitment = None,
     us_metadata = JObj [], us_last_verified_at = None, us_created_at = int n, us_updated_at = int n \<rparr>"

definition bridge_device :: device where
  "bridge_device = new_device 5 ''d'' ''w'' ''t'' Live \<lparr> di_external_id = Some ''iot'', di_name = ''iot'', di_device_type = None,
     di_location_id = None, di_battery_level = None, di_metadata = JUndef \<rparr>"

definition demo_tn :: tenant where
  "demo_tn = \<lparr> tn_id = ''t'', tn_email = [], tn_password_hash = [], tn_company_name = None, tn_plan = Free,
     tn_status = TenantActive, tn_rate_limit = 100, tn_monthly_quota = 100, tn_security_policy = JNull,
     tn_created_at = 0, tn_updated_at = 0 \<rparr>"

definition demo_k :: api_key where
  "demo_k = \<lparr> ak_id = ''k'', ak_tenant_id = ''t'', ak_name = [], ak_key_prefix = [], ak_key_hash = [], ak_scopes = [],
     ak_environment = Live, ak_status = KeyActive, ak_last_used_at = None, ak_expires_at = None, ak_created_at = 0, ak_revoked_at = None \<rparr>"

text \<open>A bridge with one account, whose reference to the central user is \<open>ref\<close>, and a server with \<open>n\<close> users.\<close>

definition mirrored_bridge :: "json \<Rightarrow> nat \<Rightarrow> (unit, server) bridge" where
  "mirrored_bridge ref n = \<lparr> br_accounts = [(''a@b.c'', \<lparr> fa_email = ''a@b.c'', fa_template = [], fa_salt = [], fa_commitment = [],
       fa_did_hash = [], fa_binding = [], fa_did = [], fa_created_at = [], fa_central_user = ref \<rparr>)],
     br_file = None, br_otp = fresh_otp, br_sensor = (),
     br_world = empty_server\<lparr>t_users := map old_user [0..<n], t_devices := [bridge_device]\<rparr> \<rparr>"

definition mirror_bc :: bridge_config where
  "mirror_bc = \<lparr> bc_sim = False, bc_show_otp = False, bc_device = Some (JObj [(''id'', JStr ''d'')]) \<rparr>"

lemma demo_known: "known demo_ids demo_tn demo_k ''u'' ''d'' (br_world (mirrored_bridge ref 1))"
  by (simp add: known_def demo_tn_def demo_k_def mirrored_bridge_def findTenantUser_def findDevice_def scoped_user_def scoped_device_def
      old_user_def bridge_device_def new_device_def)

theorem sign_in_mirrored_witness:
  "\<exists>b'. syncLoginToCentral mirror_bc (central_api demo_ids demo_tn demo_k) 7 ''a@b.c'' (Some 87) ''check_out'' (mirrored_bridge (JStr ''u'') 1) = b' \<and>
    map ve_confidence_score (t_verifications (br_world (snd (snd b')))) = [Some 87] \<and>
    map at_event_type (t_attendance (br_world (snd (snd b')))) = [CheckOut]"
proof -
  have "choice_of ATTENDANCE_TYPES (JStr ''check_out'') = Some CheckOut" by (simp add: choice_of_def ATTENDANCE_TYPES_def)
  then show ?thesis
    using sign_in_mirrored [of mirror_bc "JObj [(''id'', JStr ''d'')]" "''d''" "''a@b.c''" "mirrored_bridge (JStr ''u'') 1" "''u''",
        OF _ _ _ demo_known, of 87 "''check_out''" CheckOut 7]
    by (auto simp: mirror_bc_def jget_def or_else_def central_user_def get_account_def mirrored_bridge_def reads_ids_def demo_ids_def empty_server_def)
qed

section \<open>A user the listing no longer shows\<close>

lemma crowded_out:
  assumes "distinct rows" "x \<in> set rows" "n \<le> length (filter (\<lambda>r. f x < f r) rows)"
  shows "x \<notin> set (newest f n rows)"
proof
  assume x: "x \<in> set (newest f n rows)"
  have "set (filter (\<lambda>r. f x < f r) rows) \<subseteq> set (newest f n rows) - {x}"
    using newest_covers [OF _ _ x] by fastforce
  then have "card (set (filter (\<lambda>r. f x < f r) rows)) \<le> card (set (newest f n rows) - {x})" by (intro card_mono) auto
  also have "\<dots> < card (set (newest f n rows))" using x by (intro psubset_card_mono) auto
  also have "\<dots> \<le> n" using card_length [of "newest f n rows"] by (simp add: newest_length)
  finally show False using assms(3) distinct_card [OF distinct_filter [OF assms(1)]] by simp
qed

definition env_users :: "tenant \<Rightarrow> api_key \<Rightarrow> server \<Rightarrow> tenant_user list" where
  "env_users tn k s = filter (\<lambda>u. us_tenant_id u = tn_id tn \<and> us_environment u = ak_environment k) (t_users s)"

lemma listed_users: "get_v1_users tn k limit_200 s = Reply 200 (newest us_created_at 100 (env_users tn k s), ak_environment k)"
proof -
  have "parse_int10 ''200'' = Some 200" by code_simp
  then show ?thesis
    by (simp add: get_v1_users_def limit_200_def jget_def or_else_def unlisted_def choice_of_def query_limit_def truthy_def query_text_def
        listTenantUsers_def sanitizeLimit_def env_users_def select_rows_def opt_matches_def)
qed

definition user_body_json :: "string \<Rightarrow> json" where
  "user_body_json email = JObj [(''fullName'', JStr email), (''externalId'', JStr email), (''email'', JStr email),
     (''metadata'', JObj [(''source'', JStr ''iot-bridge'')])]"

lemma taken_external_id:
  assumes "trim email = email" "email \<noteq> []" "x \<in> set (env_users tn k s)" "us_external_id x = email"
  shows "post_v1_users (ca s) tn k (stored (user_body_json email)) s = (Refuse 409 ''user_external_id_taken'', s)"
proof -
  define body where "body = stored (user_body_json email)"
  have g: "jget ''fullName'' body = JStr email" "jget ''externalId'' body = JStr email" "jget ''email'' body = JStr email"
      "jget ''phone'' body = JUndef" "jget ''employeeCode'' body = JUndef" "jget ''primaryDeviceId'' body = JUndef"
    by (simp_all add: body_def user_body_json_def jget_def null_for_undef_def or_else_def)
  have "list_ex (user_conflict (new_user now newid uuid (tn_id tn) (ak_environment k) (user_body (ca s) body) d)) (t_users s)" for now newid uuid d
    using assms by (auto simp: list_ex_iff user_conflict_def new_user_def user_body_def g text_in_def jstr_def defaultExternalId_def
        trim_or_null_def env_users_def intro!: bexI [of _ x])
  then have "createTenantUser (ca_sha (ca s)) (ca_now (ca s)) (ca_newid (ca s)) (ca_uuid (ca s)) (tn_id tn) (ak_environment k)
      (user_body (ca s) body) actor s = (Inl ConstraintViolation, s)" for actor
    by (simp add: createTenantUser_def insert_user_def resolve_def Let_def user_body_def g ref_of_def)
  then show ?thesis
    using assms by (simp add: post_v1_users_def create_user_def g blank_def bad_ref_def lost_ref_def ref_of_def ill_text_def truthy_def
        key_caller_def flip: body_def)
qed

text \<open>The bridge cannot find an old user again.  The client asks for two hundred users and is given the newest
  hundred: when the server already holds the address of an account without a central user, and at least a hundred users of the
  environment are newer, every matched sign-in of that account is left out of the central record.\<close>

theorem old_users_never_mirrored:
  assumes "trim email = email" "email \<noteq> []" "x \<in> set (env_users tn k (br_world b))" "us_external_id x = email"
    and "users_unique (br_world b)" "100 \<le> length (filter (\<lambda>u. us_created_at x < us_created_at u) (env_users tn k (br_world b)))"
    and "bc_device bc = Some dev" "\<not> truthy (central_user email b)"
  shows "syncLoginToCentral bc (central_api ca tn k) now email score ty b = (Inr (), [CentralSkipped RemoteError], b)"
proof -
  let ?s = "br_world b" and ?rows = "env_users tn k (br_world b)"
  have "distinct (map (\<lambda>u. (us_tenant_id u, us_environment u, us_external_id u)) ?rows)"
    using assms(5) by (simp add: users_unique_def env_users_def distinct_map inj_on_def)
  then have d: "distinct ?rows" and inj: "inj_on (\<lambda>u. (us_tenant_id u, us_environment u, us_external_id u)) (set ?rows)"
    by (simp_all add: distinct_map)
  have "us_external_id u \<noteq> email" if "u \<in> set (newest us_created_at 100 ?rows)" for u
  proof
    assume e: "us_external_id u = email"
    have "u \<in> set ?rows" using that newest_subset [of us_created_at 100 ?rows] by (rule rev_subsetD)
    then have "u = x" using inj assms(3,4) e by (auto simp: inj_on_def env_users_def)
    then show False using that crowded_out [OF d assms(3,6)] by simp
  qed
  then have none: "first_row (\<lambda>v. jget ''external_id'' v = JStr email) (map (\<lambda>u. JObj (user_members u)) (newest us_created_at 100 ?rows)) = None"
    by (auto simp: first_row_None_iff user_members_def jget_def or_else_def)
  have post: "request (central_api ca tn k) POST ''/v1/users'' (user_body_json email) [201, 409] ?s =
      (Some (409, JObj [(''error'', JStr ''user_external_id_taken'')]), ?s)"
    using taken_external_id [OF assms(1-4)] by (simp add: request_def central_api_def row_reply_def del: stored.simps)
  have "request (central_api ca tn k) GET ''/v1/users?limit=200'' JNull [200] ?s =
      (Some (200, JObj [(''users'', JArr (map (\<lambda>u. JObj (user_members u)) (newest us_created_at 100 ?rows)))]), ?s)"
    by (simp add: request_def central_api_def listed_users rows_reply_def)
  then have "registerUser (central_api ca tn k) email ?s = (Inr None, ?s)"
    unfolding registerUser_def user_body_json_def [symmetric] post
    by (simp add: status_is_def jget_def or_else_def find_listed_def none [unfolded jget_def])
  then have "backfill_user (central_api ca tn k) email b = (Inr (), [], b)"
    using assms(8) by (simp add: backfill_user_def chain_def ask_def give_def)
  then show ?thesis using assms(7,8) by (simp add: syncLoginToCentral_def chain_def Let_def emit_def)
qed

lemma many_users: "env_users demo_tn demo_k (br_world (mirrored_bridge ref n)) = map old_user [0..<n]"
  by (simp add: env_users_def demo_tn_def demo_k_def mirrored_bridge_def) (simp add: old_user_def)

lemma many_users_unique: "users_unique (br_world (mirrored_bridge ref n))"
  by (auto simp: users_unique_def mirrored_bridge_def distinct_map inj_on_def old_user_def comp_def dest: arg_cong [where f = length])

theorem old_users_never_mirrored_witness:
  "syncLoginToCentral mirror_bc (central_api demo_ids demo_tn demo_k) 7 ''a@b.c'' (Some 87) ''check_in'' (mirrored_bridge JUndef 101) =
    (Inr (), [CentralSkipped RemoteError], mirrored_bridge JUndef 101)"
proof (rule old_users_never_mirrored [where x = "old_user 0" and dev = "JObj [(''id'', JStr ''d'')]"])
  show "trim ''a@b.c'' = ''a@b.c''" by code_simp
  have "filter (\<lambda>n. (0::int) < int n) [0..<101] = [1..<101]" by (simp add: upt_conv_Cons)
  then show "100 \<le> length (filter (\<lambda>u. us_created_at (old_user 0) < us_created_at u)
      (env_users demo_tn demo_k (br_world (mirrored_bridge JUndef 101))))"
    unfolding many_users filter_map comp_def by (simp add: old_user_def)
  show "\<not> truthy (central_user ''a@b.c'' (mirrored_bridge JUndef 101))"
    by (simp add: central_user_def get_account_def mirrored_bridge_def truthy_def)
  show "old_user 0 \<in> set (env_users demo_tn demo_k (br_world (mirrored_bridge JUndef 101)))"
    unfolding many_users set_map by (rule imageI) simp
qed (simp_all add: many_users_unique mirror_bc_def old_user_def)

end
