(* ===== verification/Compliance.thy ===== *)
theory Compliance
  imports Resources Console
begin

text \<open>
  The compliance evidence pack of a tenant, \<open>src/services/compliance-pack.ts\<close>, and its console
  route, \<open>src/routes/console-compliance.ts\<close>.  The queries of one pack see one state; the memo
  file is what \<open>readFileSync\<close> gave, and the answer of the rate limiter package is a flag.
\<close>

section \<open>The pack\<close>

definition SNAPSHOT_ROW_LIMIT :: nat where "SNAPSHOT_ROW_LIMIT = 5"
definition EVIDENCE_PACK_VERSION :: string where "EVIDENCE_PACK_VERSION = ''0.1.0''"

record snapshot_row =
  sn_id :: string
  sn_created_at :: string
  sn_action :: string
  sn_status :: audit_status
  sn_entity_type :: string
  sn_entity_id :: "string option"
  sn_summary :: string
  sn_previous_hash :: "string option"
  sn_event_hash :: "string option"

record chain_snapshot =
  ch_total_rows :: nat
  ch_head :: "snapshot_row list"
  ch_tail :: "snapshot_row list"
  ch_current_head :: "string option"

record integrity_result =
  ir_ok :: bool
  ir_rows_checked :: "nat option"
  ir_broken_at :: "string option"
  ir_reason :: "string option"

record tenant_block =
  tb_id :: string
  tb_email :: string
  tb_company_name :: "string option"
  tb_plan :: plan_tier
  tb_status :: tenant_status
  tb_created_at :: string

record pack_counts =
  ct_audit_events :: nat
  ct_verification_events :: nat
  ct_devices :: nat
  ct_users :: nat

record evidence_pack =
  ep_schema_version :: string
  ep_generated_at :: string
  ep_environment :: environment
  ep_tenant :: tenant_block
  ep_providers :: resolved_providers
  ep_counts :: pack_counts
  ep_snapshot :: chain_snapshot
  ep_integrity :: integrity_result
  ep_markdown :: string
  ep_memo :: string

definition toSnapshotRow :: "audit_event \<Rightarrow> snapshot_row" where
  "toSnapshotRow r = \<lparr> sn_id = dec_nat (au_id r), sn_created_at = iso_string (au_created_at r), sn_action = au_action r,
     sn_status = au_status r, sn_entity_type = au_entity_type r, sn_entity_id = au_entity_id r, sn_summary = au_summary r,
     sn_previous_hash = au_previous_hash r, sn_event_hash = au_event_hash r \<rparr>"

text \<open>The sentinel of a memo that cannot be read; the paragraph sign is two bytes of UTF-8.\<close>

definition paragraph_sign :: string where "paragraph_sign = [char_of (0xC2 :: nat), char_of (0xA7 :: nat)]"
definition em_dash :: string where "em_dash = [char_of (0xE2 :: nat), char_of (0x80 :: nat), char_of (0x94 :: nat)]"
definition newline :: string where "newline = [char_of (10 :: nat)]"

definition DPDP_MEMO_MISSING :: string where
  "DPDP_MEMO_MISSING = ''# DPDP '' @ paragraph_sign @ ''2(t) memo unavailable'' @ newline @ newline @
     ''The DPDP '' @ paragraph_sign @ ''2(t) commitments memo could not be loaded from this '' @
     ''deployment artefact. Contact the ZeroAuth operator (or fetch the '' @
     ''memo directly from docs.zeroauth.dev/compliance/dpdp-2t) for the '' @
     ''verbatim body.'' @ newline"

definition loadDpdp2tMemo :: "string option \<Rightarrow> string" where
  "loadDpdp2tMemo file = or_else DPDP_MEMO_MISSING file"

text \<open>\<open>ORDER BY id ASC LIMIT 5\<close> and \<open>ORDER BY id DESC LIMIT 5\<close>, the latter turned round.\<close>

definition fetchChainSnapshot :: "uuid \<Rightarrow> environment \<Rightarrow> server \<Rightarrow> chain_snapshot" where
  "fetchChainSnapshot t e s =
     (let rows = chain_of t (Some e) s; totalRows = length rows in
      if totalRows = 0 then \<lparr> ch_total_rows = 0, ch_head = [], ch_tail = [], ch_current_head = None \<rparr>
      else (let head = map toSnapshotRow (take SNAPSHOT_ROW_LIMIT (sort_key au_id rows));
                tail = map toSnapshotRow (rev (take SNAPSHOT_ROW_LIMIT (rev (sort_key au_id rows))))
            in \<lparr> ch_total_rows = totalRows, ch_head = head, ch_tail = tail,
                 ch_current_head = (if tail = [] then None else sn_event_hash (last tail)) \<rparr>))"

definition fetchCounts :: "uuid \<Rightarrow> environment \<Rightarrow> server \<Rightarrow> pack_counts" where
  "fetchCounts t e s =
     \<lparr> ct_audit_events = length (select_rows (in_chain t (Some e)) (t_audit s)),
       ct_verification_events = length (select_rows (\<lambda>v. ve_tenant_id v = t \<and> ve_environment v = e) (t_verifications s)),
       ct_devices = length (select_rows (\<lambda>d. dv_tenant_id d = t \<and> dv_environment d = e) (t_devices s)),
       ct_users = length (select_rows (\<lambda>u. us_tenant_id u = t \<and> us_environment u = e) (t_users s)) \<rparr>"

definition tenant_status_str :: "tenant_status \<Rightarrow> string" where
  "tenant_status_str x = (case x of TenantActive \<Rightarrow> ''active'' | TenantSuspended \<Rightarrow> ''suspended'' | TenantDeactivated \<Rightarrow> ''deactivated'')"

definition tick :: "string \<Rightarrow> string" where "tick x = [char_of (96 :: nat)] @ x @ [char_of (96 :: nat)]"

text \<open>\<open>value ? `- **label:** `value`` : null\<close>, a list of at most one line.\<close>

definition optional :: "string \<Rightarrow> string option \<Rightarrow> string list" where
  "optional label v = (case v of None \<Rightarrow> [] | Some x \<Rightarrow> if x = [] then [] else [''- **'' @ label @ '':** '' @ tick x])"

definition provider_lines :: "resolved_providers \<Rightarrow> string list" where
  "provider_lines p =
     [''- **DID provider:** '' @ tick (did_str (rp_did p)), ''- **Verifier provider:** '' @ tick (verifier_str (rp_verifier p)),
      ''- **Audit-anchor provider:** '' @ tick (anchor_str (rp_anchor p))] @
     optional ''Base RPC URL'' (rp_base_rpc p) @ optional ''DIDRegistry contract'' (rp_did_registry p) @
     optional ''Groth16Verifier contract'' (rp_groth16 p) @ optional ''Audit-anchor contract'' (rp_anchor_contract p)"

definition integrity_fail_lines :: "integrity_result \<Rightarrow> string list" where
  "integrity_fail_lines i = (if ir_ok i then []
     else [''  - Broken at row id: '' @ tick (or_else ''unknown'' (ir_broken_at i)), ''  - Reason: '' @ or_else ''unknown'' (ir_reason i)])"

definition bold :: "nat \<Rightarrow> string" where "bold n = ''**'' @ dec_nat n @ ''**''"

definition closing_lines :: "string list" where
  "closing_lines = [
     [],
     ''The chain is a per-tenant linked list where each row'' @ [char_of (39 :: nat)] @ ''s '' @ tick ''event_hash'' @ '' is'',
     tick ''SHA-256(canonical_json(event_data) || previous_hash)'' @ ''. Row 1 carries'',
     tick (''previous_hash = '' @ [char_of (34 :: nat)] @ ''genesis'' @ [char_of (34 :: nat)]) @ ''. Mutating any row breaks the chain at that'',
     ''row and at every row after it. Replay verification is callable directly'',
     ''against a Postgres dump via '' @ tick ''verifyAuditChain'' @ '' in '' @ tick ''src/services/audit.ts'',
     em_dash @ '' no live ZeroAuth process required.'',
     [],
     ''## Cross-references'',
     [],
     ''- ADR 0013 '' @ em_dash @ '' Audit hash chain construction.'',
     ''- ADR 0014 '' @ em_dash @ '' Audit anchor (daily on-chain commitment of the head).'',
     ''- ADR 0015 '' @ em_dash @ '' Circuit version lock + trusted-setup ceremony manifest.'',
     ''- ADR 0017 '' @ em_dash @ '' Blockchain-agnostic posture (provider triple semantics).'',
     ''- '' @ tick ''docs/threat_model.md'' @ '' '' @ em_dash @ '' attack surface enumeration (A-NN entries).'',
     ''- '' @ tick ''docs/security/audit-findings.md'' @ '' '' @ em_dash @ '' Phase 0 audit findings tracker.'',
     ''- '' @ tick ''docs/compliance/dpdp-2t-commitments-memo-v0.md'' @ '' '' @ em_dash @ '' DPDP '' @ paragraph_sign @ ''2(t) memo (embedded below).'',
     [],
     ''## How an auditor verifies this pack'',
     [],
     ''1. Take a Postgres dump of '' @ tick ''audit_events'' @ '' filtered by this '' @ tick ''tenant_id'' @ '' + '' @ tick ''environment'' @ ''.'',
     ''2. Replay the chain offline using '' @ tick ''verifyAuditChain'' @ '' from '' @ tick ''src/services/audit.ts'' @ ''.'',
     ''3. Confirm the final '' @ tick ''event_hash'' @ '' matches '' @ tick ''hashChainSnapshot.currentHead'' @ '' above.'',
     ''4. Spot-check the head and tail rows below against the '' @ tick ''audit_events'' @ '' table.'',
     ''5. Read the DPDP '' @ paragraph_sign @ ''2(t) memo for the legal posture on commitments and DIDs.'',
     []]"

definition renderMarkdown ::
  "tenant_block \<Rightarrow> environment \<Rightarrow> resolved_providers \<Rightarrow> pack_counts \<Rightarrow> chain_snapshot \<Rightarrow> integrity_result \<Rightarrow> string \<Rightarrow> string" where
  "renderMarkdown tb e p counts snap i generatedAt =
     join newline ([
       ''# ZeroAuth compliance evidence pack '' @ em_dash @ '' '' @ or_else (tb_email tb) (tb_company_name tb),
       [],
       ''- **Tenant ID:** '' @ tick (tb_id tb),
       ''- **Tenant email:** '' @ tb_email tb,
       ''- **Environment:** '' @ tick (env_str e),
       ''- **Plan:** '' @ plan_str (tb_plan tb),
       ''- **Status:** '' @ tenant_status_str (tb_status tb),
       ''- **Tenant created:** '' @ tb_created_at tb,
       ''- **Pack generated:** '' @ generatedAt,
       ''- **Pack schema:** '' @ EVIDENCE_PACK_VERSION,
       [],
       ''## Provider posture (ADR 0017)'',
       []] @ provider_lines p @ [
       [],
       ''## Counts'',
       [],
       ''- Audit events: '' @ bold (ct_audit_events counts),
       ''- Verification events: '' @ bold (ct_verification_events counts),
       ''- Devices: '' @ bold (ct_devices counts),
       ''- Tenant users: '' @ bold (ct_users counts),
       [],
       ''## Audit hash chain (ADR 0013)'',
       [],
       ''- Total rows: '' @ bold (ch_total_rows snap),
       ''- Current chain head ('' @ tick ''event_hash'' @ ''): '' @ tick (or_else ''(empty chain)'' (ch_current_head snap)),
       ''- Replay verdict: **'' @ (if ir_ok i then ''PASS'' else ''FAIL'') @ ''**''] @
       integrity_fail_lines i @ closing_lines)"

definition integrity_of :: "chain_verdict \<Rightarrow> nat \<Rightarrow> integrity_result" where
  "integrity_of verdict n = (case verdict of
       ChainOk \<Rightarrow> \<lparr> ir_ok = True, ir_rows_checked = Some n, ir_broken_at = None, ir_reason = None \<rparr>
     | ChainBroken i reason \<Rightarrow> \<lparr> ir_ok = False, ir_rows_checked = None, ir_broken_at = Some (dec_nat i), ir_reason = Some reason \<rparr>)"

text \<open>What a rendering takes from outside: the memo file and the clock.\<close>

record pack_source =
  ps_memo :: "string option"
  ps_now :: time_ms

text \<open>\<open>None\<close>: the tenant is not found.\<close>

definition renderCompliancePack ::
  "(string \<Rightarrow> string) \<Rightarrow> pack_source \<Rightarrow> uuid \<Rightarrow> environment \<Rightarrow> nat option \<Rightarrow> server \<Rightarrow> evidence_pack option" where
  "renderCompliancePack sha src t e chainLimit s =
     (case getTenantById t s of
        None \<Rightarrow> None
      | Some row \<Rightarrow>
         (let tb = \<lparr> tb_id = tn_id row, tb_email = tn_email row, tb_company_name = tn_company_name row, tb_plan = tn_plan row,
                tb_status = tn_status row, tb_created_at = iso_string (tn_created_at row) \<rparr>;
              providers = resolveProviders (tn_security_policy row);
              counts = fetchCounts t e s;
              snapshot = fetchChainSnapshot t e s;
              integrity = integrity_of (verifyAuditChain sha t (Some e) 0 (or_else 100000 chainLimit) s) (ch_total_rows snapshot);
              generatedAt = iso_string (ps_now src)
          in Some \<lparr> ep_schema_version = EVIDENCE_PACK_VERSION, ep_generated_at = generatedAt, ep_environment = e, ep_tenant = tb,
               ep_providers = providers, ep_counts = counts, ep_snapshot = snapshot, ep_integrity = integrity,
               ep_markdown = renderMarkdown tb e providers counts snapshot integrity generatedAt,
               ep_memo = loadDpdp2tMemo (ps_memo src) \<rparr>))"

section \<open>The route\<close>

text \<open>\<open>None\<close>: out of range or no number; \<open>Some None\<close>: absent.\<close>

definition parseChainLimit :: "json \<Rightarrow> nat option option" where
  "parseChainLimit raw = (if raw = JUndef then Some None
     else (case parse_int10 (query_text raw) of
         None \<Rightarrow> None
       | Some n \<Rightarrow> if n < 1 \<or> n > 1000000 then None else Some (Some (nat n))))"

definition pack_audit :: "uuid \<times> string \<Rightarrow> environment \<Rightarrow> audit_status \<Rightarrow> string \<Rightarrow> (string \<times> json) list \<Rightarrow> audit_input" where
  "pack_audit who e status summary members =
     \<lparr> ai_environment = Some e, ai_actor_type = ActorConsole, ai_actor_id = Some (fst who),
       ai_action = ''compliance.evidence_pack_rendered'', ai_entity_type = ''tenant'', ai_entity_id = Some (fst who),
       ai_status = status, ai_summary = summary, ai_metadata = JObj ((''actor_email'', JStr (snd who)) # members) \<rparr>"

definition pack_members :: "evidence_pack \<Rightarrow> (string \<times> json) list" where
  "pack_members p =
     [(''schema_version'', JStr (ep_schema_version p)), (''generated_at'', JStr (ep_generated_at p)),
      (''chain_head'', opt_str (ch_current_head (ep_snapshot p))), (''chain_total_rows'', JNum (int (ch_total_rows (ep_snapshot p)))),
      (''integrity_ok'', JBool (ir_ok (ep_integrity p)))] @
     (if ir_ok (ep_integrity p) then []
      else [(''integrity_broken_at'', opt_str (ir_broken_at (ep_integrity p))), (''integrity_reason'', opt_str (ir_reason (ep_integrity p)))])"

text \<open>The answer is sent whatever becomes of the audit row.\<close>

definition get_evidence_pack ::
  "(string \<Rightarrow> string) \<Rightarrow> pack_source \<Rightarrow> bool \<Rightarrow> uuid \<times> string \<Rightarrow> json \<Rightarrow> server \<Rightarrow> evidence_pack answer \<times> server" where
  "get_evidence_pack sha src limited_out who query s =
     (if limited_out then (Refuse 429 ''compliance_rate_limited'', s)
      else (let e = parseEnv (jget ''environment'' query) in
      case parseChainLimit (jget ''chain_limit'' query) of
        None \<Rightarrow> (Refuse 400 ''invalid_chain_limit'', s)
      | Some chainLimit \<Rightarrow>
     (case renderCompliancePack sha src (fst who) e chainLimit s of
        Some p \<Rightarrow> (Reply 200 p, recordAuditEvent sha (ps_now src) (fst who)
            (pack_audit who e AuditSuccess (''Compliance evidence pack rendered for '' @ env_str e) (pack_members p)) s)
      | None \<Rightarrow> (Refuse 404 ''tenant_not_found'', recordAuditEvent sha (ps_now src) (fst who)
            (pack_audit who e AuditFailure (''Compliance evidence pack '' @ em_dash @ '' tenant not found'')
              [(''reason'', JStr ''tenant_not_found'')]) s))))"

section \<open>What a pack shows\<close>

lemma chain_sorted: "sorted (map au_id (t_audit s)) \<Longrightarrow> sort_key au_id (chain_of t e s) = chain_of t e s"
  by (simp add: chain_of_def sorted_sort_id sort_key_id_if_sorted sorted_filter)

lemma snapshot_of_chain:
  fixes t e s
  assumes "sorted (map au_id (t_audit s))"
  defines "rows \<equiv> chain_of t (Some e) s"
  shows "fetchChainSnapshot t e s = \<lparr> ch_total_rows = length rows, ch_head = map toSnapshotRow (take 5 rows),
    ch_tail = map toSnapshotRow (drop (length rows - 5) rows),
    ch_current_head = (if rows = [] then None else au_event_hash (last rows)) \<rparr>"
proof -
  have "\<not> length rows \<le> length rows - 5 \<and> last (drop (length rows - 5) rows) = last rows" if "rows \<noteq> []"
    using that by (cases rows) (auto simp: last_drop)
  then show ?thesis
    using chain_sorted [OF assms(1), of t "Some e"]
    by (auto simp: fetchChainSnapshot_def Let_def rows_def [symmetric] SNAPSHOT_ROW_LIMIT_def take_rev last_map toSnapshotRow_def)
qed

lemma wf_sorted: "audit_wf sha s \<Longrightarrow> sorted (map au_id (t_audit s))"
  by (auto simp: audit_wf_def strict_sorted_iff)

lemma rendered:
  assumes "getTenantById t s = Some tn"
  obtains p where "renderCompliancePack sha src t e lim s = Some p" "ep_counts p = fetchCounts t e s" "ep_snapshot p = fetchChainSnapshot t e s"
    "ep_integrity p = integrity_of (verifyAuditChain sha t (Some e) 0 (or_else 100000 lim) s) (ch_total_rows (fetchChainSnapshot t e s))"
    "ep_environment p = e" "tb_id (ep_tenant p) = tn_id tn" "ep_providers p = resolveProviders (tn_security_policy tn)"
  using assms by (simp add: renderCompliancePack_def Let_def)

text \<open>Property C26.  The evidence pack of a tenant whose audit log is well formed (\<open>audit_wf\<close>, which every recorded event
  with defined metadata keeps) tells the truth: its verdict is PASS over all rows of the chain, its head and tail are the
  first and the last five rows, its current head is the newest hash, and each of its four counts is the number of
  rows of its own table that belong to the tenant and the environment.\<close>

theorem evidence_pack_faithful:
  fixes sha t e s
  assumes "audit_wf sha s" "getTenantById t s = Some tn"
  defines "rows \<equiv> chain_of t (Some e) s"
  shows "\<exists>p. renderCompliancePack sha src t e lim s = Some p \<and>
    ir_ok (ep_integrity p) \<and> ir_rows_checked (ep_integrity p) = Some (length rows) \<and>
    ch_head (ep_snapshot p) = map toSnapshotRow (take 5 rows) \<and>
    ch_tail (ep_snapshot p) = map toSnapshotRow (drop (length rows - 5) rows) \<and>
    ch_current_head (ep_snapshot p) = (if rows = [] then None else Some (chain_tip t (Some e) s)) \<and>
    ch_total_rows (ep_snapshot p) = length rows \<and> ep_environment p = e \<and> tb_id (ep_tenant p) = tn_id tn \<and>
    ep_providers p = resolveProviders (tn_security_policy tn) \<and>
    ep_counts p = \<lparr> ct_audit_events = length rows,
      ct_verification_events = length (filter (\<lambda>v. ve_tenant_id v = t \<and> ve_environment v = e) (t_verifications s)),
      ct_devices = length (filter (\<lambda>d. dv_tenant_id d = t \<and> dv_environment d = e) (t_devices s)),
      ct_users = length (filter (\<lambda>u. us_tenant_id u = t \<and> us_environment u = e) (t_users s)) \<rparr>"
proof -
  obtain p where p: "renderCompliancePack sha src t e lim s = Some p" "ep_counts p = fetchCounts t e s" "ep_snapshot p = fetchChainSnapshot t e s"
    "ep_integrity p = integrity_of (verifyAuditChain sha t (Some e) 0 (or_else 100000 lim) s) (ch_total_rows (fetchChainSnapshot t e s))"
    "ep_environment p = e" "tb_id (ep_tenant p) = tn_id tn" "ep_providers p = resolveProviders (tn_security_policy tn)"
    using rendered [OF assms(2)] by metis
  have h: "\<forall>r \<in> set (t_audit s). hashed_row r" using assms(1) by (simp add: audit_wf_def)
  have tip: "au_event_hash (last rows) = Some (chain_tip t (Some e) s)" if "rows \<noteq> []"
  proof -
    have "last rows \<in> set (t_audit s)" using last_in_set [OF that] by (simp add: rows_def chain_of_def)
    then show ?thesis using h that by (auto simp: chain_tip_def chain_head_def rows_def elim: hashed_rowE)
  qed
  show ?thesis
    using p tip audit_wf_verifies [OF assms(1)]
    by (simp add: snapshot_of_chain [OF wf_sorted [OF assms(1)], of t e, folded rows_def] integrity_of_def fetchCounts_def select_rows_def
        rows_def chain_of_def [symmetric])
qed

definition demo_pack_tenant :: tenant where
  "demo_pack_tenant = \<lparr> tn_id = ''t'', tn_email = ''x@y'', tn_password_hash = [], tn_company_name = None, tn_plan = Free,
     tn_status = TenantActive, tn_rate_limit = 100, tn_monthly_quota = 100, tn_security_policy = JNull,
     tn_created_at = 0, tn_updated_at = 0 \<rparr>"

definition demo_calls :: "audit_call list" where
  "demo_calls = [(1, ''t'', sample_input (JObj [])), (2, ''t'', sample_input (JObj []))]"

definition demo_log :: server where
  "demo_log = record_all rev demo_calls (empty_server\<lparr>t_tenants := [demo_pack_tenant]\<rparr>)"

lemma demo_log_wf: "audit_wf rev demo_log"
proof -
  have "audit_wf rev (empty_server\<lparr>t_tenants := [demo_pack_tenant]\<rparr>)"
    using audit_wf_empty [of rev] by (simp add: audit_wf_def chain_of_def)
  then show ?thesis
    unfolding demo_log_def by (rule record_all_wf)
      (simp add: demo_calls_def sample_input_def loggable_def sanitizeMetadata_def is_object_def)
qed

lemma demo_log_tenant: "getTenantById ''t'' demo_log = Some demo_pack_tenant"
  by (simp add: getTenantById_def demo_log_def demo_calls_def demo_pack_tenant_def)

lemma demo_log_rows:
  "chain_of ''t'' (Some Live) demo_log = t_audit demo_log" "length (t_audit demo_log) = 2"
  "row_prev (hd (t_audit demo_log)) = GENESIS_PREVIOUS_HASH" "t_audit demo_log \<noteq> []"
  "\<forall>r \<in> set (t_audit demo_log). hashed_row r \<and> defined (au_metadata r)"
  by (simp_all add: demo_log_def demo_calls_def recordAuditEvent_def append_tables chain_of_def input_payload_def
        sample_input_def audit_row_def in_chain_def empty_server_def hashed_row_def row_prev_def
        fetchPreviousHash_def sanitizeMetadata_def is_object_def)

definition demo_source :: pack_source where "demo_source = \<lparr> ps_memo = None, ps_now = 5 \<rparr>"

definition demo_pack_user :: tenant_user where
  "demo_pack_user = new_user 0 ''u'' ''w'' ''t'' Live
     \<lparr> ui_external_id = Some ''x'', ui_full_name = ''n'', ui_email = None, ui_phone = None, ui_employee_code = None,
       ui_primary_device = None, ui_metadata = JNull \<rparr> None"

definition demo_tables :: server where
  "demo_tables = demo_log\<lparr>t_devices := [new_device 0 ''d'' ''a'' ''t'' Live sample_device_input, new_device 0 ''e'' ''b'' ''t'' Test sample_device_input,
       new_device 0 ''f'' ''c'' ''x'' Live sample_device_input],
     t_users := [demo_pack_user, demo_pack_user\<lparr>us_id := ''u2''\<rparr>, demo_pack_user\<lparr>us_id := ''u3'', us_tenant_id := ''x''\<rparr>]\<rparr>"

theorem evidence_pack_faithful_witness:
  "\<exists>p. renderCompliancePack rev demo_source ''t'' Live None demo_tables = Some p \<and> ir_rows_checked (ep_integrity p) = Some 2 \<and>
     ct_audit_events (ep_counts p) = 2 \<and> ct_verification_events (ep_counts p) = 0 \<and> ct_devices (ep_counts p) = 1 \<and> ct_users (ep_counts p) = 2"
proof -
  have wf: "audit_wf rev demo_tables" using demo_log_wf by (simp add: demo_tables_def audit_wf_def chain_of_def)
  have tn: "getTenantById ''t'' demo_tables = Some demo_pack_tenant"
    using demo_log_tenant by (simp add: getTenantById_def demo_tables_def)
  have c: "chain_of ''t'' (Some Live) demo_tables = chain_of ''t'' (Some Live) demo_log" by (simp add: chain_of_def demo_tables_def)
  have d: "t_verifications demo_log = []" by (simp add: demo_log_def demo_calls_def empty_server_def)
  show ?thesis
    using evidence_pack_faithful [OF wf tn, of demo_source Live None] unfolding c demo_log_rows(1,2)
    by (elim ex_forward) (simp add: d demo_tables_def new_device_def demo_pack_user_def new_user_def numeral_2_eq_2)
qed

text \<open>The three steps the letter gives an auditor are enough.  When two packs show the same current head, the second
  one's verdict is PASS over its whole log and its first row carries the genesis hash, then the log behind it holds the events of
  the first, in the same order, or exhibits two texts with the same hash.\<close>

theorem pack_vouches_history:
  assumes "audit_wf sha s" "renderCompliancePack sha src t e lim s = Some p"
    and "renderCompliancePack sha src' t e (Some n) s' = Some p'" "length (t_audit s') \<le> n" "sorted (map au_id (t_audit s'))"
    and "\<forall>r \<in> set (t_audit s'). hashed_row r" "\<forall>r \<in> set (t_audit s) \<union> set (t_audit s'). defined (au_metadata r)"
    and "ir_ok (ep_integrity p')" "ch_head (ep_snapshot p') \<noteq> []" "sn_previous_hash (hd (ch_head (ep_snapshot p'))) = Some GENESIS_PREVIOUS_HASH"
    and "ch_current_head (ep_snapshot p') = ch_current_head (ep_snapshot p)"
  shows "map row_body (chain_of t (Some e) s') = map row_body (chain_of t (Some e) s) \<or>
    (\<exists>x \<in> hashed_texts (chain_of t (Some e) s'). \<exists>y \<in> hashed_texts (chain_of t (Some e) s). x \<noteq> y \<and> sha x = sha y)"
proof -
  let ?r = "chain_of t (Some e) s" and ?r' = "chain_of t (Some e) s'"
  have p: "ep_snapshot p = fetchChainSnapshot t e s"
    using assms(2) by (auto simp: renderCompliancePack_def Let_def split: option.splits)
  have p': "ep_snapshot p' = fetchChainSnapshot t e s'"
      "ep_integrity p' = integrity_of (verifyAuditChain sha t (Some e) 0 n s') (ch_total_rows (fetchChainSnapshot t e s'))"
    using assms(3) by (auto simp: renderCompliancePack_def Let_def or_else_def split: option.splits)
  have v: "verifyAuditChain sha t (Some e) 0 n s' = ChainOk"
    using assms(8) by (cases "verifyAuditChain sha t (Some e) 0 n s'") (simp_all add: p' integrity_of_def)
  moreover have "length ?r' \<le> n" unfolding chain_of_def by (rule le_trans [OF length_filter_le assms(4)])
  ultimately have v: "verifyAuditChain sha t (Some e) 0 (length (t_audit s')) s' = ChainOk"
    by (simp add: verifyAuditChain_def chain_of_def)
  have ne: "?r' \<noteq> []" using assms(9) by (auto simp: p' snapshot_of_chain [OF assms(5)])
  have "au_previous_hash (hd ?r') = Some GENESIS_PREVIOUS_HASH"
    using assms(10) ne by (simp add: p' snapshot_of_chain [OF assms(5)] hd_map toSnapshotRow_def)
  then have l': "linked_rows sha GENESIS_PREVIOUS_HASH ?r'"
    by (intro verify_all_linked [OF assms(6) v ne]) (simp add: row_prev_def)
  have l: "linked_rows sha GENESIS_PREVIOUS_HASH ?r" using assms(1) by (simp add: audit_wf_def)
  have "last ?r' \<in> set (t_audit s')" using last_in_set [OF ne] by (simp add: chain_of_def)
  then obtain x where x: "au_event_hash (last ?r') = Some x" using assms(6) by (auto elim: hashed_rowE)
  then have "au_event_hash (last ?r) = Some x" "?r \<noteq> []"
    using assms(11) ne by (auto simp: p p' snapshot_of_chain [OF assms(5)] snapshot_of_chain [OF wf_sorted [OF assms(1)]] split: if_splits)
  then have "chain_tip t (Some e) s' = chain_tip t (Some e) s" using x ne by (simp add: chain_tip_def chain_head_def row_hash_def)
  then show ?thesis by (rule same_tip_agree [OF l' l _ assms(7)])
qed

theorem pack_vouches_history_witness:
  "map row_body (chain_of ''t'' (Some Live) demo_log) = map row_body (chain_of ''t'' (Some Live) demo_log) \<or>
    (\<exists>x \<in> hashed_texts (chain_of ''t'' (Some Live) demo_log). \<exists>y \<in> hashed_texts (chain_of ''t'' (Some Live) demo_log). x \<noteq> y \<and> rev x = rev y)"
proof -
  obtain p where p: "renderCompliancePack rev demo_source ''t'' Live (Some 2) demo_log = Some p" "ep_snapshot p = fetchChainSnapshot ''t'' Live demo_log"
    "ep_integrity p = integrity_of (verifyAuditChain rev ''t'' (Some Live) 0 (or_else 100000 (Some 2)) demo_log) (ch_total_rows (fetchChainSnapshot ''t'' Live demo_log))"
    using rendered [OF demo_log_tenant] by metis
  have ok: "ir_ok (ep_integrity p)" by (simp add: p audit_wf_verifies [OF demo_log_wf] integrity_of_def)
  have "hd (t_audit demo_log) \<in> set (t_audit demo_log)" using demo_log_rows(4) by simp
  then have "au_previous_hash (hd (t_audit demo_log)) = Some GENESIS_PREVIOUS_HASH"
    using demo_log_rows(3,5) by (metis hashed_rowE)
  then have "ch_head (ep_snapshot p) \<noteq> []" "sn_previous_hash (hd (ch_head (ep_snapshot p))) = Some GENESIS_PREVIOUS_HASH"
    using demo_log_rows(1,4) by (simp_all add: p snapshot_of_chain [OF wf_sorted [OF demo_log_wf]] hd_map toSnapshotRow_def)
  then show ?thesis
    by (intro pack_vouches_history [OF demo_log_wf p(1) p(1) _ wf_sorted [OF demo_log_wf] _ _ ok _ _ refl]) (use demo_log_rows in auto)
qed

text \<open>Property C39.  The pack claims more than it checked.  With a chain limit of \<open>n\<close> only the first \<open>n\<close> rows are
  replayed: whatever the rows after them are, the verdict is PASS and all rows are reported as checked.\<close>

theorem pack_overclaims:
  assumes "audit_wf sha s" "take n (chain_of t (Some e) s') = take n (chain_of t (Some e) s)" "getTenantById t s' = Some tn"
  shows "\<exists>p. renderCompliancePack sha src t e (Some n) s' = Some p \<and> ir_ok (ep_integrity p) \<and>
    ir_rows_checked (ep_integrity p) = Some (length (chain_of t (Some e) s'))"
proof -
  obtain p where p: "renderCompliancePack sha src t e (Some n) s' = Some p"
    "ep_integrity p = integrity_of (verifyAuditChain sha t (Some e) 0 (or_else 100000 (Some n)) s') (ch_total_rows (fetchChainSnapshot t e s'))"
    using rendered [OF assms(3)] by metis
  have "verifyAuditChain sha t (Some e) 0 n s' = verifyAuditChain sha t (Some e) 0 n s"
    using assms(2) by (simp add: verifyAuditChain_def chain_of_def)
  then show ?thesis
    using p audit_wf_verifies [OF assms(1)]
    by (auto simp: integrity_of_def or_else_def fetchChainSnapshot_def Let_def)
qed

definition demo_tampered :: server where
  "demo_tampered = demo_log\<lparr>t_audit := [hd (t_audit demo_log), (hd (t_audit demo_log))\<lparr>au_id := 7, au_summary := ''forged''\<rparr>]\<rparr>"

theorem pack_overclaims_witness:
  "\<exists>p. renderCompliancePack rev demo_source ''t'' Live (Some 1) demo_tampered = Some p \<and> ir_ok (ep_integrity p) \<and>
    ir_rows_checked (ep_integrity p) = Some 2"
proof -
  have "\<forall>r \<in> set (chain_of ''t'' (Some Live) demo_log). in_chain ''t'' (Some Live) r" by (simp add: chain_of_def)
  then have "in_chain ''t'' (Some Live) (hd (t_audit demo_log))" using demo_log_rows(4) by (simp add: demo_log_rows(1))
  then have c: "chain_of ''t'' (Some Live) demo_tampered =
      [hd (t_audit demo_log), (hd (t_audit demo_log))\<lparr>au_id := 7, au_summary := ''forged''\<rparr>]"
    by (simp add: chain_of_def demo_tampered_def in_chain_def)
  have "take 1 (chain_of ''t'' (Some Live) demo_tampered) = take 1 (chain_of ''t'' (Some Live) demo_log)"
    using demo_log_rows(1,4) by (cases "t_audit demo_log") (simp_all add: c)
  moreover have "getTenantById ''t'' demo_tampered = Some demo_pack_tenant"
    using demo_log_tenant by (simp add: getTenantById_def demo_tampered_def)
  ultimately show ?thesis using pack_overclaims [OF demo_log_wf, of 1 "''t''" Live demo_tampered demo_pack_tenant demo_source]
    by (simp add: c numeral_2_eq_2)
qed

text \<open>Every rendering, also a refused one, leaves one audit row, and the chain still verifies.\<close>

lemma rendering_audited:
  assumes "get_evidence_pack sha src False who query s = (res, s')" "parseChainLimit (jget ''chain_limit'' query) \<noteq> None" "audit_wf sha s"
  shows "one_audit_row (fst who) s s' \<and> audit_wf sha s'"
proof -
  have m: "loggable (sanitizeMetadata (ai_metadata (pack_audit who e st summary (pack_members p))))"
      "loggable (sanitizeMetadata (ai_metadata (pack_audit who e st summary [(''reason'', JStr x)])))" for e st summary p x
    by (auto simp: pack_audit_def pack_members_def loggable_def sanitizeMetadata_def is_object_def)
  show ?thesis
    using assms(1,2) record_audit_wf [OF assms(3) m(1)] record_audit_wf [OF assms(3) m(2)]
    by (auto simp: get_evidence_pack_def Let_def intro: record_one_row split: option.splits)
qed

end
