(* ===== verification/Proof_Qr.thy ===== *)
theory Proof_Qr
  imports Ceremony_Routes Sensor_Codec Console "HOL-Library.AList"
begin

text \<open>
  The proof QR code a desktop scans from the phone, as the demo portal decodes it
  (\<open>src/routes/demo-portal.ts\<close>): the reader of the CBOR subset and the envelope.  The reader's
  cursor is the rest of the input.  A value is a JavaScript value.  Base64, gunzip and the UTF-8
  decoder are parameters; a member called \<open>__proto__\<close> is a member like any other, and the
  stack of the runtime has no bound.
\<close>

section \<open>Reading CBOR\<close>

datatype cbor_error = UnexpectedEnd | KeyNotText | UnsupportedMajor nat | UnsupportedLength nat

text \<open>\<open>Number\<close> of an integer that may exceed 53 bits: to nearest, ties to even.\<close>

definition js_number :: "nat \<Rightarrow> nat" where
  "js_number n = (if n < 2 ^ 53 then n
     else (let unit = 2 ^ (length (to_base 2 n) - 53); q = n div unit; r = n mod unit in
       (if 2 * r < unit \<or> 2 * r = unit \<and> even q then q else q + 1) * unit))"

text \<open>A big-endian number of \<open>n\<close> bytes.\<close>

fun read_bytes :: "nat \<Rightarrow> nat \<Rightarrow> bytes \<Rightarrow> cbor_error + nat \<times> bytes" where
  "read_bytes 0 acc bs = Inr (acc, bs)"
| "read_bytes (Suc n) acc [] = Inl UnexpectedEnd"
| "read_bytes (Suc n) acc (b # bs) = read_bytes n (acc * 256 + unat b) bs"

definition read_length :: "nat \<Rightarrow> bytes \<Rightarrow> cbor_error + nat \<times> bytes" where
  "read_length additional bs =
     (if additional < 24 then Inr (additional, bs)
      else if additional = 24 then read_bytes 1 0 bs
      else if additional = 25 then read_bytes 2 0 bs
      else if additional = 26 then read_bytes 4 0 bs
      else if additional = 27 then read_bytes 8 0 bs
      else Inl (UnsupportedLength additional))"

text \<open>The first argument bounds the nesting; \<open>None\<close>: the bound was too small, which the bound of
  \<open>cbor_read\<close> is not.\<close>

function (sequential) read_item :: "(bytes \<Rightarrow> string) \<Rightarrow> nat \<Rightarrow> bytes \<Rightarrow> (cbor_error + json \<times> bytes) option"
  and read_items :: "(bytes \<Rightarrow> string) \<Rightarrow> nat \<Rightarrow> nat \<Rightarrow> bytes \<Rightarrow> (cbor_error + json list \<times> bytes) option"
  and read_pairs :: "(bytes \<Rightarrow> string) \<Rightarrow> nat \<Rightarrow> nat \<Rightarrow> (string \<times> json) list \<Rightarrow> bytes \<Rightarrow> (cbor_error + (string \<times> json) list \<times> bytes) option" where
  "read_item u 0 bs = None"
| "read_item u (Suc f) [] = Some (Inl UnexpectedEnd)"
| "read_item u (Suc f) (b # bs) =
     (case read_length (unat b mod 32) bs of
        Inl er \<Rightarrow> Some (Inl er)
      | Inr (n, rest) \<Rightarrow>
          (let major = unat b div 32 in
           if major = 0 then Some (Inr (JNum (int (js_number n)), rest))
           else if major = 3 then Some (Inr (JStr (u (take (js_number n) rest)), drop (js_number n) rest))
           else if major = 4 then map_option (map_sum id (apfst JArr)) (read_items u f (js_number n) rest)
           else if major = 5 then map_option (map_sum id (apfst JObj)) (read_pairs u f (js_number n) [] rest)
           else Some (Inl (UnsupportedMajor major))))"
| "read_items u f 0 bs = Some (Inr ([], bs))"
| "read_items u f (Suc n) bs =
     (case read_item u f bs of
        None \<Rightarrow> None
      | Some (Inl er) \<Rightarrow> Some (Inl er)
      | Some (Inr (v, rest)) \<Rightarrow> map_option (map_sum id (apfst ((#) v))) (read_items u f n rest))"
| "read_pairs u f 0 obj bs = Some (Inr (obj, bs))"
| "read_pairs u f (Suc n) obj bs =
     (case read_item u f bs of
        None \<Rightarrow> None
      | Some (Inl er) \<Rightarrow> Some (Inl er)
      | Some (Inr (JStr k, rest)) \<Rightarrow>
          (case read_item u f rest of
             None \<Rightarrow> None
           | Some (Inl er) \<Rightarrow> Some (Inl er)
           | Some (Inr (v, rest')) \<Rightarrow> read_pairs u f n (AList.update k v obj) rest')
      | Some (Inr (_, rest)) \<Rightarrow> Some (Inl KeyNotText))"
  by pat_completeness auto

termination
  by (relation "measures [\<lambda>x. case x of Inl (u, f, bs) \<Rightarrow> f | Inr (Inl (u, f, n, bs)) \<Rightarrow> f | Inr (Inr (u, f, n, obj, bs)) \<Rightarrow> f,
      \<lambda>x. case x of Inl _ \<Rightarrow> 0 | Inr (Inl (u, f, n, bs)) \<Rightarrow> Suc n | Inr (Inr (u, f, n, obj, bs)) \<Rightarrow> Suc n]") auto

definition cbor_read :: "(bytes \<Rightarrow> string) \<Rightarrow> bytes \<Rightarrow> (cbor_error + json \<times> bytes) option" where
  "cbor_read u bs = read_item u (Suc (length bs)) bs"

subsection \<open>The bound is never too small\<close>

lemma read_bytes_shorter: "read_bytes n acc bs = Inr (x, rest) \<Longrightarrow> length rest \<le> length bs"
  by (induction n acc bs rule: read_bytes.induct) auto

lemma read_length_shorter: "read_length a bs = Inr (x, rest) \<Longrightarrow> length rest \<le> length bs"
  by (auto simp: read_length_def split: if_splits dest: read_bytes_shorter)

lemma map_sum_Inr: "map_sum id (apfst g) z = Inr (v, rest) \<longleftrightarrow> (\<exists>w. z = Inr (w, rest) \<and> v = g w)"
  by (cases z) auto

lemma read_shorter:
  "read_item u f bs = Some (Inr (v, rest)) \<Longrightarrow> length rest < length bs"
  "read_items u f n bs = Some (Inr (vs, rest)) \<Longrightarrow> length rest \<le> length bs"
  "read_pairs u f n obj bs = Some (Inr (kvs, rest)) \<Longrightarrow> length rest \<le> length bs"
proof (induction u f bs and u f n bs and u f n obj bs arbitrary: v rest and vs rest and kvs rest
    rule: read_item_read_items_read_pairs.induct)
  case (3 u f b bs)
  obtain n r where l: "read_length (unat b mod 32) bs = Inr (n, r)"
    using "3.prems" by (cases "read_length (unat b mod 32) bs") auto
  note r = read_length_shorter [OF l]
  note IH = "3.IH" [OF l refl refl]
  show ?case using "3.prems" IH r by (auto simp: l Let_def map_sum_Inr less_Suc_eq_le split: if_splits intro: le_trans)
next
  case (5 u f n bs)
  obtain w r where w: "read_item u f bs = Some (Inr (w, r))"
    using "5.prems" by (cases "read_item u f bs") (auto split: sum.splits)
  show ?case using "5.prems" "5.IH"(1) [OF w] "5.IH"(2) [OF w refl refl] by (fastforce simp: w map_sum_Inr)
next
  case (7 u f n obj bs)
  obtain k r where k: "read_item u f bs = Some (Inr (JStr k, r))"
    using "7.prems" by (cases "read_item u f bs") (auto split: sum.splits prod.splits json.splits)
  obtain w r' where w: "read_item u f r = Some (Inr (w, r'))"
    using "7.prems" by (cases "read_item u f r") (auto simp: k split: sum.splits)
  show ?case
    using "7.prems" "7.IH"(1) [OF k] "7.IH"(2) [OF k refl refl refl w] "7.IH"(3) [OF k refl refl refl w refl refl]
    by (fastforce simp: k w)
qed auto

lemma read_enough:
  "length bs < f \<Longrightarrow> read_item u f bs \<noteq> None"
  "length bs < f \<Longrightarrow> read_items u f n bs \<noteq> None"
  "length bs < f \<Longrightarrow> read_pairs u f n obj bs \<noteq> None"
proof (induction u f bs and u f n bs and u f n obj bs rule: read_item_read_items_read_pairs.induct)
  case (3 u f b bs)
  show ?case
  proof (cases "read_length (unat b mod 32) bs")
    case (Inr x)
    obtain n r where x: "x = (n, r)" by (cases x)
    note l = Inr [unfolded x]
    note IH = "3.IH" [OF l refl refl]
    have "length r < f" using read_length_shorter [OF l] "3.prems" by simp
    then show ?thesis using IH by (auto simp: l Let_def)
  qed simp
next
  case (5 u f n bs)
  obtain y where y: "read_item u f bs = Some y" using "5.IH"(1) "5.prems" by blast
  show ?case
  proof (cases y)
    case (Inr x)
    obtain v r where x: "x = (v, r)" by (cases x)
    note w = y [unfolded Inr x]
    have "length r < f" using read_shorter(1) [OF w] "5.prems" by simp
    then show ?thesis using "5.IH"(2) [OF w refl refl] by (simp add: w)
  qed (simp add: y)
next
  case (7 u f n obj bs)
  obtain y where y: "read_item u f bs = Some y" using "7.IH"(1) "7.prems" by blast
  show ?case
  proof (cases "\<exists>k r. y = Inr (JStr k, r)")
    case True
    then obtain k r where k: "read_item u f bs = Some (Inr (JStr k, r))" using y by blast
    have r: "length r < f" using read_shorter(1) [OF k] "7.prems" by simp
    obtain z where z: "read_item u f r = Some z" using "7.IH"(2) [OF k refl refl refl] r by blast
    show ?thesis
    proof (cases z)
      case (Inr x)
      obtain v r' where x: "x = (v, r')" by (cases x)
      note w = z [unfolded Inr x]
      have "length r' < f" using read_shorter(1) [OF w] r by simp
      then show ?thesis using "7.IH"(3) [OF k refl refl refl w refl refl] by (simp add: k w)
    qed (simp add: k z)
  next
    case False
    then show ?thesis using y by (auto split: sum.splits json.splits)
  qed
qed auto

text \<open>Every input is read to a value or an error.\<close>

lemma cbor_read_total: "\<exists>r. cbor_read u bs = Some r"
  using read_enough(1) [of bs "Suc (length bs)" u] by (auto simp: cbor_read_def)

section \<open>What the phone writes\<close>

text \<open>The reference encoder of the subset: shortest heads, text as UTF-8.\<close>

fun big_endian :: "nat \<Rightarrow> nat \<Rightarrow> bytes" where
  "big_endian 0 n = []"
| "big_endian (Suc k) n = big_endian k (n div 256) @ [of_nat (n mod 256)]"

definition cbor_head :: "nat \<Rightarrow> nat \<Rightarrow> bytes" where
  "cbor_head major n =
     (if n < 24 then [of_nat (major * 32 + n)]
      else if n < 256 then of_nat (major * 32 + 24) # big_endian 1 n
      else if n < 65536 then of_nat (major * 32 + 25) # big_endian 2 n
      else if n < 4294967296 then of_nat (major * 32 + 26) # big_endian 4 n
      else of_nat (major * 32 + 27) # big_endian 8 n)"

definition cbor_text :: "(string \<Rightarrow> bytes) \<Rightarrow> string \<Rightarrow> bytes" where
  "cbor_text w s = cbor_head 3 (length (w s)) @ w s"

fun cbor_write :: "(string \<Rightarrow> bytes) \<Rightarrow> json \<Rightarrow> bytes" where
  "cbor_write w (JNum i) = cbor_head 0 (nat i)"
| "cbor_write w (JStr s) = cbor_text w s"
| "cbor_write w (JArr vs) = cbor_head 4 (length vs) @ concat (map (cbor_write w) vs)"
| "cbor_write w (JObj kvs) = cbor_head 5 (length kvs) @ concat (map (\<lambda>kv. cbor_text w (fst kv) @ cbor_write w (snd kv)) kvs)"
| "cbor_write w _ = []"

fun writable :: "(string \<Rightarrow> bytes) \<Rightarrow> (bytes \<Rightarrow> string) \<Rightarrow> json \<Rightarrow> bool" where
  "writable w u (JNum i) \<longleftrightarrow> 0 \<le> i \<and> i < 2 ^ 53"
| "writable w u (JStr s) \<longleftrightarrow> length (w s) < 2 ^ 53 \<and> u (w s) = s"
| "writable w u (JArr vs) \<longleftrightarrow> length vs < 2 ^ 53 \<and> list_all (writable w u) vs"
| "writable w u (JObj kvs) \<longleftrightarrow> length kvs < 2 ^ 53 \<and> distinct (map fst kvs) \<and>
     list_all (\<lambda>kv. length (w (fst kv)) < 2 ^ 53 \<and> u (w (fst kv)) = fst kv \<and> writable w u (snd kv)) kvs"
| "writable w u _ \<longleftrightarrow> False"

lemma unat_of_small: "n < 256 \<Longrightarrow> unat (of_nat n :: byte) = n"
  by (simp add: unsigned_of_nat take_bit_eq_mod)

lemma read_bytes_append: "read_bytes (length xs + j) acc (xs @ rest) = read_bytes j (foldl (\<lambda>a b. a * 256 + unat b) acc xs) rest"
  by (induction xs arbitrary: acc) simp_all

lemma length_big_endian [simp]: "length (big_endian k n) = k"
  by (induction k n rule: big_endian.induct) simp_all

lemma big_endian_value: "n < 256 ^ k \<Longrightarrow> foldl (\<lambda>a b. a * 256 + unat b) acc (big_endian k n) = acc * 256 ^ k + n"
proof (induction k arbitrary: n)
  case (Suc k)
  have "n div 256 < 256 ^ k" using Suc.prems by (simp add: less_mult_imp_div_less mult.commute)
  then show ?case using Suc.IH [of "n div 256"] by (simp add: unat_of_small algebra_simps)
qed simp

lemma read_big_endian: "n < 256 ^ k \<Longrightarrow> read_bytes k acc (big_endian k n @ rest) = Inr (acc * 256 ^ k + n, rest)"
  using read_bytes_append [of "big_endian k n" 0 acc rest] big_endian_value [of n k acc] by simp

lemma head_byte: "major < 8 \<Longrightarrow> a < 32 \<Longrightarrow> unat (of_nat (major * 32 + a) :: byte) = major * 32 + a"
  by (rule unat_of_small) simp

lemma read_head:
  assumes "major < 8" "n < 2 ^ 64"
  obtains b bs where "cbor_head major n @ rest = b # bs" "unat b div 32 = major" "read_length (unat b mod 32) bs = Inr (n, rest)"
proof -
  have div: "unat (of_nat (major * 32 + a) :: byte) div 32 = major \<and> unat (of_nat (major * 32 + a) :: byte) mod 32 = a" if "a < 32" for a
    unfolding head_byte [OF assms(1) that] using that by simp
  have big: "n < 256 ^ 8" using assms(2) by simp
  consider "n < 24" | "24 \<le> n" "n < 256" | "256 \<le> n" "n < 65536" | "65536 \<le> n" "n < 4294967296" | "4294967296 \<le> n" by linarith
  then show thesis
  proof cases
    case 1
    then show thesis by (intro that [of "of_nat (major * 32 + n)" rest]) (use div [of n] in \<open>simp_all add: cbor_head_def read_length_def\<close>)
  next
    case 2
    then show thesis
      by (intro that [of "of_nat (major * 32 + 24)" "big_endian 1 n @ rest"])
        (use div [of 24] read_big_endian [of n 1 0 rest] in \<open>simp_all add: cbor_head_def read_length_def del: big_endian.simps\<close>)
  next
    case 3
    then show thesis
      by (intro that [of "of_nat (major * 32 + 25)" "big_endian 2 n @ rest"])
        (use div [of 25] read_big_endian [of n 2 0 rest] in \<open>simp_all add: cbor_head_def read_length_def del: big_endian.simps\<close>)
  next
    case 4
    then show thesis
      by (intro that [of "of_nat (major * 32 + 26)" "big_endian 4 n @ rest"])
        (use div [of 26] read_big_endian [of n 4 0 rest] in \<open>simp_all add: cbor_head_def read_length_def del: big_endian.simps\<close>)
  next
    case 5
    then show thesis
      by (intro that [of "of_nat (major * 32 + 27)" "big_endian 8 n @ rest"])
        (use div [of 27] read_big_endian [OF big, of 0 rest] in \<open>simp_all add: cbor_head_def read_length_def del: big_endian.simps\<close>)
  qed
qed

lemma head_nonempty: "cbor_head major n \<noteq> []" by (simp add: cbor_head_def)

lemma exact_number: "n < 2 ^ 53 \<Longrightarrow> js_number n = n" by (simp add: js_number_def)

lemma read_after_head:
  assumes "major < 8" "n < 2 ^ 53"
  shows "read_item u (Suc f) (cbor_head major n @ rest) =
    (if major = 0 then Some (Inr (JNum (int n), rest))
     else if major = 3 then Some (Inr (JStr (u (take n rest)), drop n rest))
     else if major = 4 then map_option (map_sum id (apfst JArr)) (read_items u f n rest)
     else if major = 5 then map_option (map_sum id (apfst JObj)) (read_pairs u f n [] rest)
     else Some (Inl (UnsupportedMajor major)))"
proof -
  have "n < 2 ^ 64" using assms(2) by simp
  then obtain b bs where "cbor_head major n @ rest = b # bs" "unat b div 32 = major" "read_length (unat b mod 32) bs = Inr (n, rest)"
    by (rule read_head [OF assms(1)])
  then show ?thesis by (simp add: Let_def exact_number [OF assms(2)])
qed

lemma read_text:
  "length (w s) < 2 ^ 53 \<Longrightarrow> u (w s) = s \<Longrightarrow> f \<noteq> 0 \<Longrightarrow> read_item u f (cbor_text w s @ rest) = Some (Inr (JStr s, rest))"
  by (cases f) (simp_all add: cbor_text_def read_after_head)

lemma update_fresh_key: "k \<notin> set (map fst xs) \<Longrightarrow> AList.update k v xs = xs @ [(k, v)]"
  by (induction xs) auto

lemma write_nonempty: "writable w u v \<Longrightarrow> cbor_write w v \<noteq> []"
  by (cases v) (simp_all add: head_nonempty cbor_text_def)

lemma length_head: "Suc 0 \<le> length (cbor_head major n)" using head_nonempty [of major n] by (cases "cbor_head major n") simp_all

lemma read_written_items:
  assumes "\<And>v rest. v \<in> set vs \<Longrightarrow> read_item u f (cbor_write w v @ rest) = Some (Inr (v, rest))"
  shows "read_items u f (length vs) (concat (map (cbor_write w) vs) @ rest) = Some (Inr (vs, rest))"
  using assms by (induction vs) simp_all

lemma read_written_pairs:
  assumes "\<And>kv rest. kv \<in> set kvs \<Longrightarrow> read_item u f (cbor_text w (fst kv) @ rest) = Some (Inr (JStr (fst kv), rest)) \<and>
      read_item u f (cbor_write w (snd kv) @ rest) = Some (Inr (snd kv, rest))"
    and "distinct (map fst (obj @ kvs))"
  shows "read_pairs u f (length kvs) obj (concat (map (\<lambda>kv. cbor_text w (fst kv) @ cbor_write w (snd kv)) kvs) @ rest) =
    Some (Inr (obj @ kvs, rest))"
  using assms
proof (induction kvs arbitrary: obj)
  case (Cons kv kvs)
  have "fst kv \<notin> set (map fst obj)" using Cons.prems(2) by auto
  then show ?case using Cons.prems Cons.IH [of "obj @ [kv]"] by (simp add: update_fresh_key)
qed simp

lemma member_length: "v \<in> set vs \<Longrightarrow> length (g v) \<le> length (concat (map g vs))"
  by (induction vs) auto

lemma read_written:
  "writable w u v \<Longrightarrow> length (cbor_write w v) \<le> f \<Longrightarrow> read_item u f (cbor_write w v @ rest) = Some (Inr (v, rest))"
proof (induction v arbitrary: f rest)
  case (JNum i)
  then obtain f' where "f = Suc f'" using length_head [of 0 "nat i"] by (cases f) simp_all
  moreover have "nat i < 2 ^ 53" "0 \<le> i" using JNum.prems by (simp_all add: nat_less_iff)
  ultimately show ?case by (simp add: read_after_head)
next
  case (JStr s)
  then have "f \<noteq> 0" using length_head [of 3 "length (w s)"] by (auto simp: cbor_text_def)
  then show ?case using JStr.prems by (simp add: read_text)
next
  case (JArr vs)
  obtain f' where f: "f = Suc f'" using JArr.prems(2) length_head [of 4 "length vs"] by (cases f) simp_all
  have "read_item u f' (cbor_write w v @ rest') = Some (Inr (v, rest'))" if v: "v \<in> set vs" for v rest'
  proof (rule JArr.IH [OF v])
    show "writable w u v" using JArr.prems(1) v by (simp add: list_all_iff)
    show "length (cbor_write w v) \<le> f'"
      using member_length [OF v, of "cbor_write w"] JArr.prems(2) length_head [of 4 "length vs"] by (simp add: f)
  qed
  then show ?case using JArr.prems(1) by (simp add: f read_after_head read_written_items)
next
  case (JObj kvs)
  obtain f' where f: "f = Suc f'" using JObj.prems(2) length_head [of 5 "length kvs"] by (cases f) simp_all
  have one: "read_item u f' (cbor_text w (fst kv) @ rest') = Some (Inr (JStr (fst kv), rest')) \<and>
      read_item u f' (cbor_write w (snd kv) @ rest') = Some (Inr (snd kv, rest'))" if kv: "kv \<in> set kvs" for kv rest'
  proof -
    have p: "length (w (fst kv)) < 2 ^ 53" "u (w (fst kv)) = fst kv" "writable w u (snd kv)"
      using JObj.prems(1) kv by (auto simp: list_all_iff)
    have "length (cbor_text w (fst kv)) + length (cbor_write w (snd kv)) \<le> f'"
      using member_length [OF kv, of "\<lambda>kv. cbor_text w (fst kv) @ cbor_write w (snd kv)"] JObj.prems(2) length_head [of 5 "length kvs"]
      by (simp add: f)
    moreover have "0 < length (cbor_write w (snd kv))" using write_nonempty [OF p(3)] by simp
    ultimately have "f' \<noteq> 0" "length (cbor_write w (snd kv)) \<le> f'" by linarith+
    then show ?thesis
      using p JObj.IH [of kv "snd kv"] kv by (auto simp: read_text snds.simps)
  qed
  then show ?case using JObj.prems(1) by (simp add: f read_after_head read_written_pairs [where obj = "[]", simplified])
qed simp_all

section \<open>The envelope\<close>

record qr_lib =
  ql_unbase64url :: "string \<Rightarrow> bytes"
  ql_gunzip :: "bytes \<Rightarrow> bytes option"
  ql_utf8 :: "bytes \<Rightarrow> string"

definition PROOF_QR_PREFIX :: string where "PROOF_QR_PREFIX = ''za:proof:1:''"
definition PROOF_QR_MAX_BYTES :: nat where "PROOF_QR_MAX_BYTES = 1500"

record proof_envelope =
  pv_session :: string
  pv_proof :: json
  pv_signals :: "json list"
  pv_did :: string
  pv_meta :: json

datatype qr_error = BadPrefix | TooLong | NotGzip | CborFailed cbor_error | NotMap | NoSessionId | NoDid | BadSignals | NoProof | BadProof

definition is_text :: "json \<Rightarrow> bool" where "is_text v \<longleftrightarrow> jstr v \<noteq> None"

definition texts :: "nat \<Rightarrow> json \<Rightarrow> bool" where
  "texts n v = (case v of JArr xs \<Rightarrow> length xs = n \<and> list_all is_text xs | _ \<Rightarrow> False)"

definition groth_shape :: "json \<Rightarrow> bool" where
  "groth_shape p \<longleftrightarrow> texts 3 (jget ''pi_a'' p) \<and>
     (case jget ''pi_b'' p of JArr rows \<Rightarrow> length rows = 3 \<and> list_all (texts 2) rows | _ \<Rightarrow> False) \<and>
     texts 3 (jget ''pi_c'' p) \<and> jget ''protocol'' p = JStr ''groth16'' \<and> jget ''curve'' p = JStr ''bn128''"

definition rebuilt_proof :: "json \<Rightarrow> json" where
  "rebuilt_proof p = JObj [(''pi_a'', jget ''pi_a'' p), (''pi_b'', jget ''pi_b'' p), (''pi_c'', jget ''pi_c'' p),
     (''protocol'', JStr ''groth16''), (''curve'', JStr ''bn128'')]"

definition text_member :: "string \<Rightarrow> string \<Rightarrow> json \<Rightarrow> (string \<times> json) list" where
  "text_member name k m = (if is_text (jget k m) then [(name, jget k m)] else [])"

text \<open>An array has none of the members, so it is treated as an object without them.\<close>

definition client_meta :: "json \<Rightarrow> json" where
  "client_meta m = JObj ((''source'', JStr ''demo-portal'') #
     (text_member ''appVersion'' ''av'' m @ text_member ''platform'' ''pl'' m @ text_member ''model'' ''md'' m @
      (case jget ''ms'' m of JNum n \<Rightarrow> [(''proofMs'', JNum n)] | _ \<Rightarrow> []) @ text_member ''playIntegrityVerdict'' ''pi'' m))"

definition open_envelope :: "json \<Rightarrow> qr_error + proof_envelope" where
  "open_envelope root =
     (if \<not> is_js_value_object root then Inl NotMap
      else (case jstr (jget ''s'' root) of
        None \<Rightarrow> Inl NoSessionId
      | Some sessionId \<Rightarrow> if sessionId = [] then Inl NoSessionId
          else (case jstr (jget ''d'' root) of
        None \<Rightarrow> Inl NoDid
      | Some did \<Rightarrow> if did = [] then Inl NoDid
          else if \<not> texts 3 (jget ''ps'' root) then Inl BadSignals
          else if \<not> is_js_value_object (jget ''p'' root) then Inl NoProof
          else if \<not> groth_shape (jget ''p'' root) then Inl BadProof
          else Inr \<lparr> pv_session = sessionId, pv_proof = rebuilt_proof (jget ''p'' root),
                 pv_signals = (case jget ''ps'' root of JArr xs \<Rightarrow> xs | _ \<Rightarrow> []), pv_did = did,
                 pv_meta = client_meta (jget ''m'' root) \<rparr>)))"

definition decodeProofQr :: "qr_lib \<Rightarrow> string \<Rightarrow> qr_error + proof_envelope" where
  "decodeProofQr lib payload =
     (let trimmed = trim payload in
      if \<not> starts_with PROOF_QR_PREFIX trimmed then Inl BadPrefix
      else if length trimmed > PROOF_QR_MAX_BYTES then Inl TooLong
      else (case ql_gunzip lib (ql_unbase64url lib (drop (length PROOF_QR_PREFIX) trimmed)) of
        None \<Rightarrow> Inl NotGzip
      | Some bs \<Rightarrow> (case cbor_read (ql_utf8 lib) bs of
            Some (Inr (root, _)) \<Rightarrow> open_envelope root
          | Some (Inl er) \<Rightarrow> Inl (CborFailed er)
          | None \<Rightarrow> Inl NotMap)))"

text \<open>What the phone puts into the code.\<close>

definition envelope_value :: "string \<Rightarrow> json \<Rightarrow> json list \<Rightarrow> string \<Rightarrow> json \<Rightarrow> json" where
  "envelope_value i p signals did m = JObj [(''s'', JStr i), (''p'', p), (''ps'', JArr signals), (''d'', JStr did), (''m'', m)]"

definition proof_qr :: "(bytes \<Rightarrow> string) \<Rightarrow> (bytes \<Rightarrow> bytes) \<Rightarrow> (string \<Rightarrow> bytes) \<Rightarrow> json \<Rightarrow> string" where
  "proof_qr base64url gzip utf8 v = PROOF_QR_PREFIX @ base64url (gzip (cbor_write utf8 v))"

lemma cbor_read_written: "writable w u v \<Longrightarrow> cbor_read u (cbor_write w v) = Some (Inr (v, []))"
  using read_written [of w u v "Suc (length (cbor_write w v))" "[]"] by (simp add: cbor_read_def)

text \<open>What the phone encodes is what the portal decodes: for every envelope whose texts survive UTF-8, the decoder
  gives back the session, the proof, the three signals, the DID and the client metadata, and no other value.\<close>

theorem proof_qr_round_trip:
  assumes "\<And>x. ql_unbase64url lib (base64url x) = x" "\<And>x. ql_gunzip lib (gzip x) = Some x" "\<And>x c. c \<in> set (base64url x) \<Longrightarrow> \<not> is_space c"
    and "writable w (ql_utf8 lib) (envelope_value i p signals did m)"
    and "length (proof_qr base64url gzip w (envelope_value i p signals did m)) \<le> PROOF_QR_MAX_BYTES"
    and "i \<noteq> []" "did \<noteq> []" "texts 3 (JArr signals)" "groth_shape p"
  shows "decodeProofQr lib (proof_qr base64url gzip w (envelope_value i p signals did m)) =
    Inr \<lparr> pv_session = i, pv_proof = rebuilt_proof p, pv_signals = signals, pv_did = did, pv_meta = client_meta m \<rparr>"
proof -
  let ?v = "envelope_value i p signals did m"
  have t: "trim (proof_qr base64url gzip w ?v) = proof_qr base64url gzip w ?v"
    by (rule trim_id) (use assms(3) in \<open>auto simp: proof_qr_def PROOF_QR_PREFIX_def is_space_def\<close>)
  have "is_js_value_object p" using assms(9) by (auto simp: groth_shape_def texts_def jget_def is_js_value_object_def split: json.splits)
  moreover have "jget ''s'' ?v = JStr i" "jget ''p'' ?v = p" "jget ''ps'' ?v = JArr signals" "jget ''d'' ?v = JStr did" "jget ''m'' ?v = m"
    "is_js_value_object ?v"
    by (simp_all add: envelope_value_def jget_def or_else_def is_js_value_object_def)
  ultimately have o: "open_envelope ?v =
      Inr \<lparr> pv_session = i, pv_proof = rebuilt_proof p, pv_signals = signals, pv_did = did, pv_meta = client_meta m \<rparr>"
    using assms(6-9) by (simp add: open_envelope_def jstr_def)
  have "starts_with PROOF_QR_PREFIX (proof_qr base64url gzip w ?v)" by (simp add: proof_qr_def starts_with_append)
  moreover have "drop (length PROOF_QR_PREFIX) (proof_qr base64url gzip w ?v) = base64url (gzip (cbor_write w ?v))" by (simp add: proof_qr_def)
  ultimately show ?thesis
    using assms(5) by (simp add: decodeProofQr_def t assms(1,2) cbor_read_written [OF assms(4)] o)
qed

definition demo_qr_lib :: qr_lib where
  "demo_qr_lib = \<lparr> ql_unbase64url = (\<lambda>s. map of_nat (hex_bytes s)), ql_gunzip = Some, ql_utf8 = map (\<lambda>b. char_of (unat b)) \<rparr>"

definition ascii_bytes :: "string \<Rightarrow> bytes" where "ascii_bytes = map (\<lambda>c. of_nat (of_char c))"

lemma ascii_back: "map (\<lambda>b. char_of (unat b)) (ascii_bytes s) = s"
  by (simp add: ascii_bytes_def unat_of_small comp_def)

definition demo_groth :: json where
  "demo_groth = JObj [(''pi_a'', JArr [JStr ''1'', JStr ''2'', JStr ''3'']),
     (''pi_b'', JArr [JArr [JStr ''1'', JStr ''2''], JArr [JStr ''3'', JStr ''4''], JArr [JStr ''5'', JStr ''6'']]),
     (''pi_c'', JArr [JStr ''1'', JStr ''2'', JStr ''3'']), (''protocol'', JStr ''groth16''), (''curve'', JStr ''bn128'')]"

definition demo_signals3 :: "json list" where "demo_signals3 = [JStr ''7'', JStr ''8'', JStr ''9'']"

lemma demo_hex_back: "map of_nat (hex_bytes (bytes_hex (map unat (x :: bytes)))) = x"
proof -
  have "unat b < 2 ^ LENGTH(8)" for b :: byte by (rule unsigned_less)
  then have "\<forall>b \<in> set (map unat x). b < 256" by simp
  from hex_bytes_hex [OF this] show ?thesis by (simp add: comp_def)
qed

lemma demo_envelope_length:
  "length (cbor_write ascii_bytes (envelope_value ''session'' demo_groth demo_signals3 ''did'' (JObj [(''ms'', JNum 812)]))) \<le> 700"
  by (simp add: envelope_value_def demo_groth_def demo_signals3_def cbor_text_def ascii_bytes_def cbor_head_def)

theorem proof_qr_round_trip_witness:
  "decodeProofQr demo_qr_lib (proof_qr (\<lambda>x. bytes_hex (map unat x)) id ascii_bytes
     (envelope_value ''session'' demo_groth demo_signals3 ''did'' (JObj [(''ms'', JNum 812)]))) =
   Inr \<lparr> pv_session = ''session'', pv_proof = demo_groth, pv_signals = demo_signals3, pv_did = ''did'',
     pv_meta = JObj [(''source'', JStr ''demo-portal''), (''proofMs'', JNum 812)] \<rparr>"
proof -
  have r: "rebuilt_proof demo_groth = demo_groth" by (simp add: rebuilt_proof_def demo_groth_def jget_def or_else_def)
  have m: "client_meta (JObj [(''ms'', JNum 812)]) = JObj [(''source'', JStr ''demo-portal''), (''proofMs'', JNum 812)]"
    by (simp add: client_meta_def text_member_def jget_def or_else_def is_text_def jstr_def)
  have "decodeProofQr demo_qr_lib (proof_qr (\<lambda>x. bytes_hex (map unat x)) id ascii_bytes
     (envelope_value ''session'' demo_groth demo_signals3 ''did'' (JObj [(''ms'', JNum 812)]))) =
    Inr \<lparr> pv_session = ''session'', pv_proof = rebuilt_proof demo_groth, pv_signals = demo_signals3, pv_did = ''did'',
     pv_meta = client_meta (JObj [(''ms'', JNum 812)]) \<rparr>"
  proof (rule proof_qr_round_trip)
    show "writable ascii_bytes (ql_utf8 demo_qr_lib) (envelope_value ''session'' demo_groth demo_signals3 ''did'' (JObj [(''ms'', JNum 812)]))"
      by (simp add: demo_qr_lib_def ascii_back envelope_value_def demo_groth_def demo_signals3_def) (simp add: ascii_bytes_def)
    show "length (proof_qr (\<lambda>x. bytes_hex (map unat x)) id ascii_bytes
        (envelope_value ''session'' demo_groth demo_signals3 ''did'' (JObj [(''ms'', JNum 812)]))) \<le> PROOF_QR_MAX_BYTES"
      using demo_envelope_length by (simp add: proof_qr_def length_bytes_hex PROOF_QR_MAX_BYTES_def PROOF_QR_PREFIX_def)
    show "\<not> is_space c" if "c \<in> set (bytes_hex (map unat x))" for c and x :: bytes
      using bytes_hex_chars [OF that] by (rule lower_hex_not_space)
  qed (simp_all add: demo_qr_lib_def demo_hex_back texts_def demo_signals3_def is_text_def jstr_def groth_shape_def demo_groth_def jget_def or_else_def)
  then show ?thesis by (simp only: r m)
qed

end
