(* ===== verification/Demo_Portal.thy ===== *)
theory Demo_Portal
  imports Proof_Qr Ceremony_Runs Federated
begin

text \<open>
  The demonstration bank: \<open>src/services/demo-portal-seed.ts\<close>, which provisions its tenant, and
  \<open>src/routes/demo-portal.ts\<close>, a public surface over proof pairing and registration.  The state of the
  routes is the database with the cache of registration codes, the two maps of tokens the process keeps, and the
  tenant it has resolved.  SHA-256, HMAC, base64url, \<open>JSON.parse\<close>, Postgres' reading of a \<open>uuid\<close> and the
  clock are parameters; the synthetic bank accounts and the heartbeats of the stream are left out.
\<close>

section \<open>The tenant of the portal\<close>

definition deterministicTenantId :: "(string \<Rightarrow> string) \<Rightarrow> uuid" where
  "deterministicTenantId sha =
     (let h = sha ''zeroauth-demo-portal-tenant-v1''; part = (\<lambda>a b. take (b - a) (drop a h)) in
      join ''-'' [part 0 8, part 8 12, CHR ''4'' # part 13 16, CHR ''8'' # part 17 20, part 20 32])"

definition deterministicLiveKey :: "(string \<Rightarrow> string) \<Rightarrow> string" where
  "deterministicLiveKey sha = ''za_live_'' @ take 48 (sha ''zeroauth-demo-portal-live-key-v1'')"

definition DEMO_PORTAL_TENANT_EMAIL :: string where "DEMO_PORTAL_TENANT_EMAIL = ''demo-portal@zeroauth.dev''"
definition ANCHOR_BANK_FALLBACK_EMAIL :: string where "ANCHOR_BANK_FALLBACK_EMAIL = ''anchor-bank-demo@zeroauth.dev''"

definition DEMO_PORTAL_SECURITY_POLICY :: json where
  "DEMO_PORTAL_SECURITY_POLICY = JObj
     [(''did_provider'', JStr ''off-chain''), (''verifier_provider'', JStr ''off-chain''),
      (''audit_anchor_provider'', JStr ''none''), (''allow_play_integrity_absent'', JBool True),
      (''allowed_origins'', JArr (map JStr
        [''http://localhost:5174'', ''http://localhost:3000'', ''http://localhost:3030'', ''https://zeroauth.dev'',
         ''https://www.zeroauth.dev'', ''https://api.zeroauth.dev'']))]"

definition DEMO_PORTAL_SCOPES :: "string list" where
  "DEMO_PORTAL_SCOPES =
     [''zkp:verify'', ''zkp:register'', ''identity:read'', ''nonce:create'', ''devices:read'', ''devices:write'',
      ''users:read'', ''users:write'', ''verifications:read'', ''verifications:write'', ''attendance:read'',
      ''attendance:write'', ''audit:read'', ''proof_pairing:create'', ''proof_pairing:claim'']"

definition seeded_tenant :: "(string \<Rightarrow> string) \<Rightarrow> time_ms \<Rightarrow> nat list \<Rightarrow> tenant" where
  "seeded_tenant sha now random =
     \<lparr> tn_id = deterministicTenantId sha, tn_email = DEMO_PORTAL_TENANT_EMAIL, tn_password_hash = ''seed:'' @ bytes_hex random,
       tn_company_name = Some ''NeoBank Demo Portal'', tn_plan = Enterprise, tn_status = TenantActive, tn_rate_limit = 5000,
       tn_monthly_quota = - 1, tn_security_policy = DEMO_PORTAL_SECURITY_POLICY, tn_created_at = now, tn_updated_at = now \<rparr>"

definition seeded_key :: "(string \<Rightarrow> string) \<Rightarrow> time_ms \<Rightarrow> uuid \<Rightarrow> api_key" where
  "seeded_key sha now i =
     \<lparr> ak_id = i, ak_tenant_id = deterministicTenantId sha, ak_name = ''Demo Portal Static Key'',
       ak_key_prefix = take 14 (deterministicLiveKey sha), ak_key_hash = sha (deterministicLiveKey sha),
       ak_scopes = DEMO_PORTAL_SCOPES, ak_environment = Live, ak_status = KeyActive, ak_last_used_at = None,
       ak_expires_at = None, ak_created_at = now, ak_revoked_at = None \<rparr>"

text \<open>\<open>INSERT ... ON CONFLICT DO NOTHING\<close>, first for the tenant (whose email is unique too, so that the outer
  \<open>None\<close> is a raise that rolls back), then for the key with a fresh identifier.\<close>

definition seedDemoPortal :: "(string \<Rightarrow> string) \<Rightarrow> time_ms \<Rightarrow> nat list \<Rightarrow> uuid \<Rightarrow> server \<Rightarrow> (bool \<times> server) option" where
  "seedDemoPortal sha now random keyId s =
     (let t = seeded_tenant sha now random; k = seeded_key sha now keyId;
          tenant_there = list_ex (\<lambda>q. tn_id q = tn_id t) (t_tenants s);
          key_there = list_ex (\<lambda>q. ak_key_hash q = ak_key_hash k) (t_api_keys s);
          s1 = (if tenant_there then s else s\<lparr>t_tenants := t_tenants s @ [t]\<rparr>);
          s2 = (if key_there then s1 else s1\<lparr>t_api_keys := t_api_keys s1 @ [k]\<rparr>) in
      if \<not> tenant_there \<and> list_ex (\<lambda>q. tn_email q = tn_email t) (t_tenants s) then None
      else Some (\<not> tenant_there \<or> \<not> key_there, s2))"

text \<open>The boot hook: the flag \<open>SEED_DEMO_PORTAL\<close> and \<open>NODE_ENV\<close>; a failed seed is logged.\<close>

definition seedDemoPortalIfDev ::
  "string option \<Rightarrow> string option \<Rightarrow> (string \<Rightarrow> string) \<Rightarrow> time_ms \<Rightarrow> nat list \<Rightarrow> uuid \<Rightarrow> server \<Rightarrow> server" where
  "seedDemoPortalIfDev flag node_env sha now random keyId s =
     (if flag = Some ''false'' \<or> or_else ''development'' node_env = ''production'' \<and> flag \<noteq> Some ''true'' then s
      else (case seedDemoPortal sha now random keyId s of None \<Rightarrow> s | Some (_, s') \<Rightarrow> s'))"

section \<open>State and runtime\<close>

record portal =
  dm_registry :: registry
  dm_bind :: "uuid \<Rightarrow> (string \<times> time_ms) option"
  dm_claim :: "uuid \<Rightarrow> (string \<times> time_ms) option"
  dm_tenant :: "uuid option"

abbreviation portal_db :: "portal \<Rightarrow> server" where "portal_db p \<equiv> rg_db (dm_registry p)"

definition with_db :: "server \<Rightarrow> portal \<Rightarrow> portal" where
  "with_db s p = p\<lparr>dm_registry := (dm_registry p)\<lparr>rg_db := s\<rparr>\<rparr>"

record portal_env =
  dx_hmac :: "nat list \<Rightarrow> string \<Rightarrow> string"
  dx_base64url :: "string \<Rightarrow> string"
  dx_unbase64url :: "string \<Rightarrow> string"
  dx_parse :: "string \<Rightarrow> json option"
  dx_secret :: string
  dx_production :: bool
  dx_domain :: string
  dx_uuid :: "string \<Rightarrow> uuid option"
  dx_qr :: qr_lib
  dx_pairing :: pairing_config
  dx_ceremony :: ceremony

abbreviation portal_sha :: "portal_env \<Rightarrow> string \<Rightarrow> string" where "portal_sha x \<equiv> pc_sha (dx_pairing x)"

section \<open>Cookies\<close>

definition DEMO_COOKIE_NAME :: string where "DEMO_COOKIE_NAME = ''demo_portal_session''"
definition DEMO_CLAIM_COOKIE_NAME :: string where "DEMO_CLAIM_COOKIE_NAME = ''demo_portal_claim''"
definition DEMO_COOKIE_PATH :: string where "DEMO_COOKIE_PATH = ''/api/demo-portal''"
definition DEMO_COOKIE_MAX_AGE_MS :: int where "DEMO_COOKIE_MAX_AGE_MS = 24 * 60 * 60 * 1000"
definition DEMO_CLAIM_TOKEN_TTL_MS :: int where "DEMO_CLAIM_TOKEN_TTL_MS = 6 * 60 * 1000"
definition BIND_TOKEN_TTL_MS :: int where "BIND_TOKEN_TTL_MS = 5 * 60 * 1000"

definition getCookieHmacKey :: "portal_env \<Rightarrow> nat list" where
  "getCookieHmacKey x = hex_bytes (portal_sha x
     (''demo-portal::'' @ (if dx_secret x = [] then ''dev-secret-change-me'' else dx_secret x)))"

record cookie_payload =
  ck_user :: string
  ck_session :: string
  ck_started :: time_ms

definition cookie_json :: "cookie_payload \<Rightarrow> json" where
  "cookie_json c = JObj [(''userId'', JStr (ck_user c)), (''pairingSessionId'', JStr (ck_session c)), (''startedAtMs'', JNum (ck_started c))]"

definition cookie_mac :: "portal_env \<Rightarrow> string \<Rightarrow> string" where
  "cookie_mac x body = dx_hmac x (getCookieHmacKey x) body"

definition encodeCookie :: "portal_env \<Rightarrow> cookie_payload \<Rightarrow> string" where
  "encodeCookie x c =
     (let body = dx_base64url x (or_else [] (stringify (cookie_json c))) in body @ ''.'' @ cookie_mac x body)"

text \<open>The constant-time comparison of two buffers is equality.\<close>

definition decodeCookie :: "portal_env \<Rightarrow> string option \<Rightarrow> cookie_payload option" where
  "decodeCookie x raw = (case raw of None \<Rightarrow> None | Some r \<Rightarrow>
     (let body = takeWhile (\<lambda>c. c \<noteq> CHR ''.'') r; mac = drop (length body + 1) r in
      if CHR ''.'' \<notin> set r \<or> body = [] \<or> mac = [] \<or> mac \<noteq> cookie_mac x body then None
      else (case dx_parse x (dx_unbase64url x body) of
          None \<Rightarrow> None
        | Some v \<Rightarrow> (case (jget ''userId'' v, jget ''pairingSessionId'' v, jget ''startedAtMs'' v) of
              (JStr u, JStr i, JNum n) \<Rightarrow> Some \<lparr> ck_user = u, ck_session = i, ck_started = n \<rparr>
            | _ \<Rightarrow> None))))"

definition cookie_header :: "portal_env \<Rightarrow> string \<Rightarrow> string \<Rightarrow> string \<Rightarrow> int \<Rightarrow> string" where
  "cookie_header x name value same_site age = name @ ''='' @ value @ ''; HttpOnly;'' @ (if dx_production x then '' Secure;'' else []) @
     '' SameSite='' @ same_site @ ''; Path='' @ DEMO_COOKIE_PATH @ ''; Max-Age='' @ dec_int age"

definition buildSetCookieHeader :: "portal_env \<Rightarrow> string \<Rightarrow> string" where
  "buildSetCookieHeader x value = cookie_header x DEMO_COOKIE_NAME value ''Lax'' (DEMO_COOKIE_MAX_AGE_MS div 1000)"

definition buildClearCookieHeader :: "portal_env \<Rightarrow> string" where
  "buildClearCookieHeader x = cookie_header x DEMO_COOKIE_NAME [] ''Lax'' 0"

definition buildClaimCookieHeader :: "portal_env \<Rightarrow> string \<Rightarrow> string" where
  "buildClaimCookieHeader x value = cookie_header x DEMO_CLAIM_COOKIE_NAME value ''Strict'' (DEMO_CLAIM_TOKEN_TTL_MS div 1000)"

text \<open>The cookies the parser found, and the raw header.\<close>

type_synonym browser = "(string \<Rightarrow> json) \<times> string option"

fun named_cookie_in :: "string \<Rightarrow> string list \<Rightarrow> string option" where
  "named_cookie_in name [] = None"
| "named_cookie_in name (part # parts) =
     (case split_on (CHR ''='') (trim part) of
        k # rest \<Rightarrow> if k = name then Some (join ''='' rest) else named_cookie_in name parts
      | [] \<Rightarrow> named_cookie_in name parts)"

definition readNamedCookie :: "browser \<Rightarrow> string \<Rightarrow> string option" where
  "readNamedCookie b name =
     (case fst b name of
        JStr v \<Rightarrow> Some v
      | _ \<Rightarrow> (case snd b of None \<Rightarrow> None
          | Some h \<Rightarrow> if h = [] then None else named_cookie_in name (split_on (CHR '';'') h)))"

definition readDemoCookie :: "browser \<Rightarrow> string option" where
  "readDemoCookie b = readNamedCookie b DEMO_COOKIE_NAME"

section \<open>Helpers\<close>

text \<open>The database answers every lookup, so the \<open>catch\<close> of a lookup does nothing here.\<close>

definition resolveDemoPortalTenantId :: "portal_env \<Rightarrow> portal \<Rightarrow> uuid option \<times> portal" where
  "resolveDemoPortalTenantId x p =
     (case dm_tenant p of
        Some t \<Rightarrow> (Some t, p)
      | None \<Rightarrow>
          (let s = portal_db p;
               found = (case getTenantById (deterministicTenantId (portal_sha x)) s of
                   Some t \<Rightarrow> Some (tn_id t)
                 | None \<Rightarrow> (case getTenantByEmail DEMO_PORTAL_TENANT_EMAIL s of
                       Some t \<Rightarrow> Some (tn_id t)
                     | None \<Rightarrow> map_option tn_id (getTenantByEmail ANCHOR_BANK_FALLBACK_EMAIL s)))
           in (found, p\<lparr>dm_tenant := found\<rparr>)))"

text \<open>\<open>encodeURIComponent\<close>\<close>

definition uri_char :: "char \<Rightarrow> string" where
  "uri_char c =
     (if is_lower c \<or> is_upper c \<or> is_digit c \<or> c \<in> set ''-_.!~*()'' \<or> of_char c = (39 :: nat) then [c]
      else concat (map (\<lambda>n. CHR ''%'' # upper (bytes_hex [n])) (utf8 c)))"

definition buildDeeplink :: "string \<Rightarrow> string" where
  "buildDeeplink qrPayload = ''zeroauth://pair?p='' @ concat (map uri_char qrPayload)"

definition rememberBindToken :: "time_ms \<Rightarrow> uuid \<Rightarrow> string \<Rightarrow> portal \<Rightarrow> portal" where
  "rememberBindToken now i token p = p\<lparr>dm_bind := (dm_bind p)(i \<mapsto> (token, now + BIND_TOKEN_TTL_MS))\<rparr>"

text \<open>\<open>token\<close> is the text of the 32 random bytes.\<close>

definition mintClaimToken :: "portal_env \<Rightarrow> time_ms \<Rightarrow> uuid \<Rightarrow> string \<Rightarrow> portal \<Rightarrow> portal" where
  "mintClaimToken x now i token p =
     p\<lparr>dm_claim := (dm_claim p)(i \<mapsto> (portal_sha x token, now + DEMO_CLAIM_TOKEN_TTL_MS))\<rparr>"

definition verifyAndConsumeClaimToken :: "portal_env \<Rightarrow> time_ms \<Rightarrow> uuid \<Rightarrow> string option \<Rightarrow> portal \<Rightarrow> bool \<times> portal" where
  "verifyAndConsumeClaimToken x now i presented p =
     (let gone = p\<lparr>dm_claim := (dm_claim p)(i := None)\<rparr> in
      case dm_claim p i of
        None \<Rightarrow> (False, p)
      | Some (h, expires) \<Rightarrow>
          if expires \<le> now then (False, gone)
          else if or_else [] presented = [] then (False, p)
          else if portal_sha x (or_else [] presented) \<noteq> h then (False, p)
          else (True, gone))"

definition consumeBindToken :: "time_ms \<Rightarrow> uuid \<Rightarrow> portal \<Rightarrow> string option \<times> portal" where
  "consumeBindToken now i p =
     (case dm_bind p i of
        None \<Rightarrow> (None, p)
      | Some (token, expires) \<Rightarrow> (if expires \<le> now then None else Some token, p\<lparr>dm_bind := (dm_bind p)(i := None)\<rparr>))"

text \<open>The timer.\<close>

definition live_entry :: "time_ms \<Rightarrow> (uuid \<Rightarrow> (string \<times> time_ms) option) \<Rightarrow> uuid \<Rightarrow> (string \<times> time_ms) option" where
  "live_entry now m i = (case m i of None \<Rightarrow> None | Some e \<Rightarrow> if snd e \<le> now then None else Some e)"

definition sweep_tokens :: "time_ms \<Rightarrow> portal \<Rightarrow> portal" where
  "sweep_tokens now p = p\<lparr>dm_bind := live_entry now (dm_bind p), dm_claim := live_entry now (dm_claim p)\<rparr>"

definition loadDemoUser :: "uuid \<Rightarrow> uuid \<Rightarrow> server \<Rightarrow> tenant_user option" where
  "loadDemoUser u t s = first_row (\<lambda>r. us_id r = u \<and> us_tenant_id r = t \<and> us_environment r = Live) (t_users s)"

text \<open>The outer \<open>None\<close>: the identifier is no \<open>uuid\<close> and the query raises.\<close>

definition loadPairingRow :: "portal_env \<Rightarrow> string \<Rightarrow> uuid \<Rightarrow> server \<Rightarrow> pairing_session option option" where
  "loadPairingRow x i t s = map_option (\<lambda>u. loadSessionRow u t Live s) (dx_uuid x i)"

section \<open>Signing in\<close>

record init_draw =
  nd_id :: uuid
  nd_nonce :: "nat list"
  nd_bind :: string
  nd_claim :: string
  nd_now :: time_ms

record opened_login =
  ol_session :: session_created
  ol_deeplink :: string
  ol_set_cookie :: string

definition not_provisioned :: "'a answer" where
  "not_provisioned = Refuse 503 ''demo_portal_not_provisioned''"

definition post_init_login ::
  "portal_env \<Rightarrow> init_draw \<Rightarrow> string option \<Rightarrow> string option \<Rightarrow> portal \<Rightarrow> opened_login answer \<times> portal" where
  "post_init_login x d ip agent p =
     (case resolveDemoPortalTenantId x p of
        (None, p1) \<Rightarrow> (not_provisioned, p1)
      | (Some t, p1) \<Rightarrow>
          (case createSession (portal_sha x) (dx_domain x) (nd_now d) (nd_id d) (nd_nonce d) (nd_bind d) t Live None ip agent (portal_db p1) of
             (Inl TooManyPendingSessions, s) \<Rightarrow> (Refuse 429 ''too_many_pending_sessions'', with_db s p1)
           | (Inl _, s) \<Rightarrow> (Refuse 500 ''init_login_failed'', with_db s p1)
           | (Inr c, s) \<Rightarrow>
               (Reply 201 \<lparr> ol_session = c, ol_deeplink = buildDeeplink (cs_qr_payload c),
                   ol_set_cookie = buildClaimCookieHeader x (nd_claim d) \<rparr>,
                mintClaimToken x (nd_now d) (cs_id c) (nd_claim d)
                  (rememberBindToken (nd_now d) (cs_id c) (cs_bind_token c) (with_db s p1)))))"

record me_reply =
  me_user :: uuid
  me_did :: string
  me_name :: string
  me_started :: string

definition MAX_DATE_MS :: int where "MAX_DATE_MS = 8640000000000000"

text \<open>The answer, the \<open>Set-Cookie\<close> header and the state.  \<open>toISOString\<close> raises outside the range of dates, which
  the handler answers like a missing cookie.\<close>

definition get_me :: "portal_env \<Rightarrow> browser \<Rightarrow> portal \<Rightarrow> me_reply answer \<times> string option \<times> portal" where
  "get_me x b p =
     (let refused = Refuse 401 ''not_authenticated'' in
      case decodeCookie x (readDemoCookie b) of
        None \<Rightarrow> (refused, None, p)
      | Some c \<Rightarrow>
          (case resolveDemoPortalTenantId x p of
             (None, p1) \<Rightarrow> (refused, None, p1)
           | (Some t, p1) \<Rightarrow>
               (case dx_uuid x (ck_user c) of
                  None \<Rightarrow> (refused, None, p1)
                | Some u \<Rightarrow>
                    (case loadDemoUser u t (portal_db p1) of
                       None \<Rightarrow> (refused, Some (buildClearCookieHeader x), p1)
                     | Some r \<Rightarrow>
                         if ck_started c < - MAX_DATE_MS \<or> MAX_DATE_MS < ck_started c then (refused, None, p1)
                         else (Reply 200 \<lparr> me_user = us_id r, me_did = or_else [] (us_did r),
                             me_name = (if trim (us_full_name r) \<noteq> [] \<and> us_full_name r \<noteq> ''face-first'' then us_full_name r else ''demo user''),
                             me_started = iso_string (ck_started c) \<rparr>, None, p1)))))"

definition post_logout :: "portal_env \<Rightarrow> portal \<Rightarrow> unit answer \<times> string \<times> portal" where
  "post_logout x p = (Reply 200 (), buildClearCookieHeader x, p)"

section \<open>The stream of events\<close>

record bound_info =
  bi_user :: uuid
  bi_did :: string
  bi_name :: string
  bi_bound_at :: string

datatype portal_event =
    PortalCreated uuid pairing_state string | PortalBound bound_info | PortalAuthenticated bound_info
  | PortalExpired string string | PortalError string

definition resolveSuccess :: "portal_env \<Rightarrow> time_ms \<Rightarrow> uuid \<Rightarrow> server \<Rightarrow> pairing_session \<Rightarrow> (string \<times> bound_info) option" where
  "resolveSuccess x now t s row =
     (case ps_consumed_user_id row of
        None \<Rightarrow> None
      | Some u \<Rightarrow>
          if ps_state row \<noteq> Consumed then None
          else (let user = loadDemoUser u t s;
                    name = (case user of None \<Rightarrow> [] | Some r \<Rightarrow> us_full_name r) in
            Some (encodeCookie x \<lparr> ck_user = u, ck_session = ps_id row, ck_started = now \<rparr>,
              \<lparr> bi_user = u, bi_did = (case user of None \<Rightarrow> [] | Some r \<Rightarrow> or_else [] (us_did r)),
                bi_name = (if name \<noteq> [] \<and> name \<noteq> ''face-first'' then name else ''demo user''),
                bi_bound_at = iso_string (or_else now (ps_consumed_at row)) \<rparr>)))"

definition next_row :: "portal_env \<Rightarrow> string \<Rightarrow> uuid \<Rightarrow> server option \<Rightarrow> pairing_session option" where
  "next_row x i t db = (case db of None \<Rightarrow> None | Some s \<Rightarrow> or_else None (loadPairingRow x i t s))"

text \<open>The polls of \<open>Pairing\<close>: the clock of the loop test, the clock after the wait, the database the
  query sees (\<open>None\<close>: it fails).  After the last poll the loop's time is over.\<close>

fun quick_poll :: "portal_env \<Rightarrow> string \<Rightarrow> uuid \<Rightarrow> time_ms \<Rightarrow> pairing_session \<Rightarrow> poll list \<Rightarrow> pairing_session" where
  "quick_poll x i t deadline row [] = row"
| "quick_poll x i t deadline row ((before, after, db) # ps) =
     (if ps_state row \<noteq> Issued \<or> deadline \<le> before then row
      else (case next_row x i t db of
          None \<Rightarrow> row\<lparr>ps_state := Failed, ps_last_error_code := Some ''pairing_session_not_found''\<rparr>
        | Some r \<Rightarrow> quick_poll x i t deadline r ps))"

fun long_poll :: "portal_env \<Rightarrow> string \<Rightarrow> uuid \<Rightarrow> time_ms \<Rightarrow> poll list \<Rightarrow> portal_event list" where
  "long_poll x i t deadline [] = []"
| "long_poll x i t deadline ((before, after, db) # ps) =
     (if deadline \<le> before then []
      else (case (db, next_row x i t db) of
          (Some s, Some row) \<Rightarrow>
            (case resolveSuccess x after t s row of
               Some (_, b) \<Rightarrow> [PortalBound b, PortalAuthenticated b]
             | None \<Rightarrow>
                 if ps_state row = Expired then [PortalExpired (ps_id row) ''expired'']
                 else if ps_state row = Failed then [PortalError (or_else ''pairing_failed'' (ps_last_error_code row))]
                 else if ps_expires_at row \<le> after then [PortalExpired (ps_id row) ''ttl'']
                 else long_poll x i t deadline ps)
        | _ \<Rightarrow> [PortalError ''pairing_session_not_found'']))"

definition state_name :: "pairing_state \<Rightarrow> string" where
  "state_name st = (case st of Issued \<Rightarrow> ''issued'' | Consumed \<Rightarrow> ''consumed'' | Expired \<Rightarrow> ''expired'' | Failed \<Rightarrow> ''failed'')"

definition terminal_events :: "pairing_session \<Rightarrow> (string \<times> bound_info) option \<Rightarrow> portal_event list" where
  "terminal_events row success =
     (case success of
        Some (_, b) \<Rightarrow> [PortalBound b, PortalAuthenticated b]
      | None \<Rightarrow>
          if ps_state row = Expired then [PortalExpired (ps_id row) ''expired'']
          else if ps_state row = Failed then [PortalError (or_else ''pairing_failed'' (ps_last_error_code row))]
          else [PortalError ''pairing_unexpected_state''])"

text \<open>The clocks: at the request, when the headers are written, after the long poll.  The database at the headers is
  \<open>seen\<close>.  The client stays connected.  Setting the cookie in the second phase raises, since the headers are out, and
  is ignored.\<close>

record stream_clocks =
  sk_open :: time_ms
  sk_headers :: time_ms
  sk_end :: time_ms

record event_stream =
  es_set_cookie :: "string option"
  es_events :: "portal_event list"

definition get_session_events ::
  "portal_env \<Rightarrow> stream_clocks \<Rightarrow> string \<Rightarrow> poll list \<Rightarrow> server \<Rightarrow> poll list \<Rightarrow> portal \<Rightarrow> event_stream answer \<times> portal" where
  "get_session_events x k i quick seen slow p =
     (if \<not> session_id_shape i then (Refuse 400 ''invalid_session_id'', p)
      else (case resolveDemoPortalTenantId x p of
        (None, p1) \<Rightarrow> (not_provisioned, p1)
      | (Some t, p1) \<Rightarrow>
          (case or_else None (loadPairingRow x i t (portal_db p1)) of
             None \<Rightarrow> (Refuse 404 ''pairing_session_not_found'', p1)
           | Some first \<Rightarrow>
               (let row = quick_poll x i t (sk_open k + 2000) first quick;
                    success = resolveSuccess x (sk_headers k) t seen row;
                    deadline = sk_open k + 6 * 60 * 1000;
                    created = PortalCreated (ps_id row) (ps_state row) (iso_string (ps_expires_at row)) in
                (Reply 200
                  (if ps_state row \<noteq> Issued
                   then \<lparr> es_set_cookie = map_option (\<lambda>(c, _). buildSetCookieHeader x c) success,
                          es_events = created # terminal_events row success \<rparr>
                   else \<lparr> es_set_cookie = None,
                          es_events = created # long_poll x i t deadline slow @
                            (if deadline \<le> sk_end k then [PortalExpired i ''stream_deadline''] else []) \<rparr>),
                 p1)))))"

section \<open>Submitting the scanned proof\<close>

text \<open>The first of two members that is text.\<close>

definition first_text :: "string \<Rightarrow> string \<Rightarrow> json \<Rightarrow> string" where
  "first_text k k' body = or_else (or_else [] (jstr (jget k' body))) (jstr (jget k body))"

definition portal_refusal :: "pairing_error \<Rightarrow> 'a answer" where
  "portal_refusal er = (if er = InternalError \<or> er = TooManyPendingSessions then Refuse 500 ''proof_failed'' else pairing_refusal er)"

definition post_submit_proof ::
  "portal_env \<Rightarrow> submit_draw \<Rightarrow> json \<Rightarrow> (server \<Rightarrow> server) \<Rightarrow> portal \<Rightarrow> (session_view \<times> string) answer \<times> portal" where
  "post_submit_proof x d body meanwhile p =
     (let i = first_text ''session_id'' ''sessionId'' body; qr = first_text ''qr_payload'' ''qrPayload'' body in
      if \<not> session_id_shape i \<or> qr = [] then (Refuse 400 ''invalid_request'', p)
      else (case decodeProofQr (dx_qr x) qr of
        Inl _ \<Rightarrow> (Refuse 400 ''invalid_request'', p)
      | Inr e \<Rightarrow>
          if pv_session e \<noteq> i then (Refuse 400 ''invalid_request'', p)
          else (case resolveDemoPortalTenantId x p of
            (None, p1) \<Rightarrow> (not_provisioned, p1)
          | (Some t, p1) \<Rightarrow>
              (case consumeBindToken (sq_now d) i p1 of
                 (token, p2) \<Rightarrow>
                   if or_else [] token = [] then (Refuse 410 ''pairing_session_expired'', p2)
                   else (case submitProof (dx_pairing x)
                       (submit_call_of d i t Live (pv_did e) (pv_proof e) (JArr (pv_signals e)) (pv_meta e) token) meanwhile (portal_db p2) of
                     (Inl er, s) \<Rightarrow> (portal_refusal er, with_db s p2)
                   | (Inr r, s) \<Rightarrow>
                       (Reply 200 (sr_session r, buildSetCookieHeader x (encodeCookie x
                          \<lparr> ck_user = or_else [] (sv_user_id (sr_session r)), ck_session = i, ck_started = sq_later d \<rparr>)),
                        with_db s p2))))))"

section \<open>The desktop's claim\<close>

definition desktop_claimed :: "portal_env \<Rightarrow> uuid \<Rightarrow> pairing_session \<Rightarrow> string option \<Rightarrow> string option \<Rightarrow> audit_input" where
  "desktop_claimed x u row ip agent =
     (let digest = (\<lambda>v. case v of None \<Rightarrow> JNull | Some y \<Rightarrow> if y = [] then JNull else JStr (portal_sha x y)) in
      pairing_input Live ActorSystem None ''pairing.desktop_claimed'' (ps_id row) AuditSuccess
        (''Desktop claimed session cookie for user '' @ u)
        (JObj [(''client_ip_sha256'', digest ip), (''user_agent_sha256'', digest agent)]))"

record claimed =
  kl_user :: uuid
  kl_did :: string
  kl_set_cookie :: string

definition post_claim ::
  "portal_env \<Rightarrow> time_ms \<Rightarrow> string \<Rightarrow> browser \<Rightarrow> string option \<Rightarrow> string option \<Rightarrow> portal \<Rightarrow> claimed answer \<times> portal" where
  "post_claim x now i b ip agent p =
     (if \<not> session_id_shape i then (Refuse 400 ''invalid_session_id'', p)
      else (case resolveDemoPortalTenantId x p of
        (None, p1) \<Rightarrow> (not_provisioned, p1)
      | (Some t, p1) \<Rightarrow>
          (case loadPairingRow x i t (portal_db p1) of
             None \<Rightarrow> (Refuse 500 ''claim_failed'', p1)
           | Some None \<Rightarrow> (Refuse 409 ''pairing_not_ready'', p1)
           | Some (Some row) \<Rightarrow>
               (case ps_consumed_user_id row of
                  None \<Rightarrow> (Refuse 409 ''pairing_not_ready'', p1)
                | Some u \<Rightarrow>
                    if ps_state row \<noteq> Consumed then (Refuse 409 ''pairing_not_ready'', p1)
                    else (case verifyAndConsumeClaimToken x now i (readNamedCookie b DEMO_CLAIM_COOKIE_NAME) p1 of
                       (False, p2) \<Rightarrow> (Refuse 409 ''pairing_not_ready'', p2)
                     | (True, p2) \<Rightarrow>
                         (Reply 200 \<lparr> kl_user = u,
                            kl_did = (case loadDemoUser u t (portal_db p2) of None \<Rightarrow> [] | Some r \<Rightarrow> or_else [] (us_did r)),
                            kl_set_cookie = buildSetCookieHeader x (encodeCookie x
                              \<lparr> ck_user = u, ck_session = ps_id row, ck_started = or_else now (ps_consumed_at row) \<rparr>) \<rparr>,
                          with_db (recordAuditEvent (portal_sha x) now t (desktop_claimed x u row ip agent) (portal_db p2)) p2))))))"

section \<open>Opening an account\<close>

definition applicant_text :: "string \<Rightarrow> nat \<Rightarrow> json \<Rightarrow> string option" where
  "applicant_text k n body = (case jget k body of JStr v \<Rightarrow> if trim v = [] then None else Some (take n (trim v)) | _ \<Rightarrow> None)"

definition applicant :: "json \<Rightarrow> json" where
  "applicant body = JObj ([(''name'', JStr (or_else ''Demo User'' (applicant_text ''name'' 120 body))),
     (''email'', JStr (or_else ''demo@neobank.example'' (applicant_text ''email'' 160 body)))] @
     (case applicant_text ''phone'' 32 body of None \<Rightarrow> [] | Some v \<Rightarrow> [(''phone'', JStr v)]))"

text \<open>The answer is the session, the pair code with its deeplink, and the expiry of the code.\<close>

definition post_signup_init ::
  "portal_env \<Rightarrow> time_ms \<Rightarrow> uuid \<Rightarrow> (nat \<Rightarrow> nat) \<Rightarrow> json \<Rightarrow> portal \<Rightarrow> (uuid \<times> string \<times> string \<times> time_ms) answer \<times> portal" where
  "post_signup_init x now i draw body p =
     (case startRegistration (dx_ceremony x) now i draw (deterministicTenantId (portal_sha x)) Live (applicant body)
         \<lparr> ac_type = ActorApiKey, ac_id = None, ac_email = None \<rparr> (dm_registry p) of
        (Inl _, g) \<Rightarrow> (Refuse 500 ''signup_init_failed'', p\<lparr>dm_registry := g\<rparr>)
      | (Inr r, g) \<Rightarrow>
          (Reply 201 (rs_id (st_session r), st_next_code r, st_deeplink r, st_next_expires_at r), p\<lparr>dm_registry := g\<rparr>))"

definition get_signup ::
  "portal_env \<Rightarrow> time_ms \<Rightarrow> string \<Rightarrow> portal \<Rightarrow> (registration_state \<times> (string \<times> ceremony_step) option) answer \<times> portal" where
  "get_signup x now i p =
     (case dx_uuid x i of
        None \<Rightarrow> (Refuse 500 ''signup_poll_failed'', p)
      | Some u \<Rightarrow>
          (case getRegistrationSession (deterministicTenantId (portal_sha x)) Live u (dm_registry p) of
             None \<Rightarrow> (Refuse 404 ''session_not_found'', p)
           | Some r \<Rightarrow>
               (case peekPendingDemoCode now i (dm_registry p) of
                  (pending, g) \<Rightarrow>
                    (Reply 200 (rs_state r, map_option (\<lambda>c. (dc_deeplink c, dc_step c)) pending), p\<lparr>dm_registry := g\<rparr>))))"

section \<open>What the routes do to the state\<close>

lemma with_db_simps [simp]:
  "portal_db (with_db s p) = s" "dm_bind (with_db s p) = dm_bind p" "dm_claim (with_db s p) = dm_claim p"
  "dm_tenant (with_db s p) = dm_tenant p" "rg_codes (dm_registry (with_db s p)) = rg_codes (dm_registry p)"
  by (simp_all add: with_db_def)

lemma resolved [simp]:
  "dm_registry (snd (resolveDemoPortalTenantId x p)) = dm_registry p"
  "dm_bind (snd (resolveDemoPortalTenantId x p)) = dm_bind p"
  "dm_claim (snd (resolveDemoPortalTenantId x p)) = dm_claim p"
  by (simp_all add: resolveDemoPortalTenantId_def Let_def split: option.split)

lemma resolved_eq:
  "resolveDemoPortalTenantId x p = (t, p1) \<Longrightarrow> dm_registry p1 = dm_registry p \<and> dm_bind p1 = dm_bind p \<and> dm_claim p1 = dm_claim p"
  using resolved [of x p] by simp

lemma resolves_again:
  "resolveDemoPortalTenantId x p = (Some t, p1) \<Longrightarrow> resolveDemoPortalTenantId x p1 = (Some t, p1)"
  by (auto simp: resolveDemoPortalTenantId_def Let_def split: option.splits)

text \<open>Only the login opens entries, under the identifier of a new session; every other step can only drop them.\<close>

definition session_known :: "uuid \<Rightarrow> portal \<Rightarrow> bool" where
  "session_known i p \<longleftrightarrow> (\<exists>r \<in> set (t_pairing (portal_db p)). ps_id r = i)"

definition drops :: "portal \<Rightarrow> portal \<Rightarrow> bool" where
  "drops p p' \<longleftrightarrow> (\<forall>i. dm_bind p' i \<noteq> None \<longrightarrow> dm_bind p' i = dm_bind p i) \<and> (\<forall>i. dm_claim p' i \<noteq> None \<longrightarrow> dm_claim p' i = dm_claim p i)"

lemma drops_same: "dm_bind p' = dm_bind p \<Longrightarrow> dm_claim p' = dm_claim p \<Longrightarrow> drops p p'" by (simp add: drops_def)

lemma drops_bind: "dm_bind p' = (dm_bind p)(i := None) \<Longrightarrow> dm_claim p' = dm_claim p \<Longrightarrow> drops p p'" by (simp add: drops_def)

lemma drops_claim: "dm_bind p' = dm_bind p \<Longrightarrow> dm_claim p' = (dm_claim p)(i := None) \<Longrightarrow> drops p p'" by (simp add: drops_def)

lemma drops_sweep: "drops p (sweep_tokens now p)"
  by (simp add: drops_def sweep_tokens_def live_entry_def split: option.split)

lemma consumed_bind:
  assumes "consumeBindToken now i p = (token, p2)"
  shows "dm_bind p2 = (dm_bind p)(i := None)" "dm_registry p2 = dm_registry p" "dm_claim p2 = dm_claim p" "dm_tenant p2 = dm_tenant p"
  using assms by (auto simp: consumeBindToken_def fun_eq_iff split: option.splits prod.splits)

lemma verified_claim:
  assumes "verifyAndConsumeClaimToken x now i c p = (ok, p2)"
  shows "dm_registry p2 = dm_registry p" "dm_bind p2 = dm_bind p" "dm_tenant p2 = dm_tenant p" "drops p p2"
    and "ok \<Longrightarrow> dm_claim p2 i = None \<and> (\<exists>e. dm_claim p i = Some (portal_sha x (or_else [] c), e) \<and> now < e)"
  using assms by (auto simp: verifyAndConsumeClaimToken_def Let_def drops_def split: option.splits prod.splits if_splits)

definition unchanged_pairing :: "portal \<Rightarrow> portal \<Rightarrow> bool" where
  "unchanged_pairing p p' \<longleftrightarrow> t_pairing (portal_db p') = t_pairing (portal_db p) \<and> drops p p'"

lemma resolved_unchanged: "unchanged_pairing p (snd (resolveDemoPortalTenantId x p))"
  by (simp add: unchanged_pairing_def drops_same)

lemma resolved_unchanged': "resolveDemoPortalTenantId x p = (t, p1) \<Longrightarrow> unchanged_pairing p p1"
  using resolved_unchanged [of p x] by simp

lemma me_unchanged: "unchanged_pairing p (snd (snd (get_me x b p)))"
  using resolved_unchanged' [of x p]
  by (auto simp: get_me_def Let_def unchanged_pairing_def drops_same split: option.split prod.split)

lemma events_unchanged: "unchanged_pairing p (snd (get_session_events x k i quick seen slow p))"
  using resolved_unchanged' [of x p]
  by (auto simp: get_session_events_def Let_def unchanged_pairing_def drops_same split: option.split prod.split)

lemma claim_unchanged: "unchanged_pairing p (snd (post_claim x now i b ip agent p))"
proof (cases "resolveDemoPortalTenantId x p")
  case (Pair t p1)
  note r = resolved_eq [OF Pair]
  note same = resolved_unchanged' [OF Pair]
  obtain ok p2 where v: "verifyAndConsumeClaimToken x now i (readNamedCookie b DEMO_CLAIM_COOKIE_NAME) p1 = (ok, p2)" by fastforce
  note w = verified_claim(1,4) [OF v]
  have "drops p p2" using w(2) r by (simp add: drops_def)
  then have "unchanged_pairing p (with_db (recordAuditEvent f now u a (portal_db p2)) p2)" "unchanged_pairing p p2" for f u a
    using w(1) r by (simp_all add: unchanged_pairing_def drops_def)
  then show ?thesis
    using same by (auto simp: post_claim_def Pair v unchanged_pairing_def drops_same split: option.split bool.split)
qed

lemma signup_init_unchanged: "unchanged_pairing p (snd (post_signup_init x now i draw body p))"
proof -
  have "t_pairing (rg_db (snd (startRegistration (dx_ceremony x) now i draw t e f a g))) = t_pairing (rg_db g)" for t e f a g
    by (simp add: startRegistration_def Let_def audit_in_def cache_for_demo_def cachePendingDemoCode_def)
  then show ?thesis
    unfolding post_signup_init_def unchanged_pairing_def
    by (auto simp: drops_same split: prod.split sum.split) (metis snd_conv)+
qed

lemma signup_unchanged: "unchanged_pairing p (snd (get_signup x now i p))"
proof -
  have "rg_db (snd (peekPendingDemoCode now i g)) = rg_db g" for g
    by (simp add: peekPendingDemoCode_def split: option.split)
  then show ?thesis
    unfolding get_signup_def unchanged_pairing_def
    by (auto simp: drops_same split: prod.split option.split) (metis snd_conv)+
qed

lemma submit_state:
  assumes "pairing_sound (portal_db p) (meanwhile (portal_db p))"
  shows "pairing_sound (portal_db p) (portal_db (snd (post_submit_proof x d body meanwhile p)))"
    and "drops p (snd (post_submit_proof x d body meanwhile p))"
proof -
  obtain t p1 where r: "resolveDemoPortalTenantId x p = (t, p1)" by fastforce
  obtain token p2 where c: "consumeBindToken (sq_now d) (first_text ''session_id'' ''sessionId'' body) p1 = (token, p2)" by fastforce
  have p2: "dm_registry p2 = dm_registry p" "drops p p2"
    using consumed_bind [OF c] resolved_eq [OF r] by (simp_all add: drops_bind)
  have p1: "dm_registry p1 = dm_registry p" "drops p p1" using resolved_eq [OF r] by (simp_all add: drops_same)
  have sub: "pairing_sound (portal_db p) s \<and> drops p (with_db s p2)"
    if "submitProof (dx_pairing x) call meanwhile (portal_db p2) = (res, s)" for call res s
    using sound_submit [of "portal_db p" meanwhile "dx_pairing x" call] assms that p2 by (simp add: drops_def)
  show "pairing_sound (portal_db p) (portal_db (snd (post_submit_proof x d body meanwhile p)))"
    using p1 p2 sub by (auto simp: post_submit_proof_def Let_def r c sound_refl split: sum.split option.split prod.split)
  show "drops p (snd (post_submit_proof x d body meanwhile p))"
    using p1 p2 sub by (auto simp: post_submit_proof_def Let_def r c drops_same split: sum.split option.split prod.split)
qed

lemma login_state:
  assumes "post_init_login x d ip agent p = (a, p')"
  shows "pairing_sound (portal_db p) (portal_db p')"
    and "\<not> (\<exists>n r. a = Reply n r) \<Longrightarrow> drops p p'"
    and "a = Reply n r \<Longrightarrow> \<not> session_known (nd_id d) p \<and> session_known (nd_id d) p' \<and>
      dm_bind p' = (dm_bind p)(nd_id d \<mapsto> (nd_bind d, nd_now d + BIND_TOKEN_TTL_MS)) \<and>
      dm_claim p' = (dm_claim p)(nd_id d \<mapsto> (portal_sha x (nd_claim d), nd_now d + DEMO_CLAIM_TOKEN_TTL_MS))"
proof -
  obtain t p1 where r: "resolveDemoPortalTenantId x p = (t, p1)" by fastforce
  note p1 = resolved_eq [OF r]
  have "pairing_sound (portal_db p) (portal_db p') \<and> ((\<nexists>n r. a = Reply n r) \<longrightarrow> drops p p') \<and>
    (\<forall>n r. a = Reply n r \<longrightarrow> \<not> session_known (nd_id d) p \<and> session_known (nd_id d) p' \<and>
      dm_bind p' = (dm_bind p)(nd_id d \<mapsto> (nd_bind d, nd_now d + BIND_TOKEN_TTL_MS)) \<and>
      dm_claim p' = (dm_claim p)(nd_id d \<mapsto> (portal_sha x (nd_claim d), nd_now d + DEMO_CLAIM_TOKEN_TTL_MS)))"
  proof (cases t)
    case None
    then show ?thesis using assms p1 by (auto simp: post_init_login_def r not_provisioned_def sound_refl drops_same)
  next
    case (Some tn)
    let ?c = "createSession (portal_sha x) (dx_domain x) (nd_now d) (nd_id d) (nd_nonce d) (nd_bind d) tn Live None ip agent (portal_db p)"
    obtain res s where c: "?c = (res, s)" by fastforce
    have sound: "pairing_sound (portal_db p) s"
      using sound_create [of "portal_db p" "portal_sha x" "dx_domain x" "nd_now d" "nd_id d" "nd_nonce d" "nd_bind d" tn Live None ip agent]
      by (simp add: c)
    have ok: "cs_id w = nd_id d \<and> cs_bind_token w = nd_bind d \<and> \<not> session_known (nd_id d) p \<and> (\<exists>q \<in> set (t_pairing s). ps_id q = nd_id d)"
      if "res = Inr w" for w
      using c that by (auto simp: createSession_def Let_def session_known_def list_ex_iff session_conflict_def new_session_def split: if_splits)
    show ?thesis
    proof (cases res)
      case (Inl er)
      then show ?thesis using assms sound p1 by (cases er) (auto simp: post_init_login_def r Some c drops_same)
    next
      case (Inr w)
      then show ?thesis
        using assms sound ok [OF Inr] p1
        by (auto simp: post_init_login_def r Some c session_known_def mintClaimToken_def rememberBindToken_def)
    qed
  qed
  then show "pairing_sound (portal_db p) (portal_db p')" "\<not> (\<exists>n r. a = Reply n r) \<Longrightarrow> drops p p'"
    "a = Reply n r \<Longrightarrow> \<not> session_known (nd_id d) p \<and> session_known (nd_id d) p' \<and>
      dm_bind p' = (dm_bind p)(nd_id d \<mapsto> (nd_bind d, nd_now d + BIND_TOKEN_TTL_MS)) \<and>
      dm_claim p' = (dm_claim p)(nd_id d \<mapsto> (portal_sha x (nd_claim d), nd_now d + DEMO_CLAIM_TOKEN_TTL_MS))"
    by blast+
qed

section \<open>The steps that may interleave\<close>

text \<open>The routes, the timer, and any step of proof pairing or of another service on the database.\<close>

inductive portal_step :: "portal_env \<Rightarrow> portal \<Rightarrow> portal \<Rightarrow> bool" for x where
  portal_login: "portal_step x p (snd (post_init_login x d ip agent p))"
| portal_me: "portal_step x p (snd (snd (get_me x b p)))"
| portal_events: "portal_step x p (snd (get_session_events x k i quick seen slow p))"
| portal_submit: "(pairing_step (dx_pairing x))\<^sup>*\<^sup>* (portal_db p) (meanwhile (portal_db p)) \<Longrightarrow>
    portal_step x p (snd (post_submit_proof x d body meanwhile p))"
| portal_claim: "portal_step x p (snd (post_claim x now i b ip agent p))"
| portal_signup_init: "portal_step x p (snd (post_signup_init x now i draw body p))"
| portal_signup: "portal_step x p (snd (get_signup x now i p))"
| portal_timer: "portal_step x p (sweep_tokens now p)"
| portal_elsewhere: "pairing_step (dx_pairing x) (portal_db p) s \<Longrightarrow> portal_step x p (with_db s p)"

lemma unchanged_pairing_sound: "unchanged_pairing p p' \<Longrightarrow> pairing_sound (portal_db p) (portal_db p') \<and> drops p p'"
  by (simp add: unchanged_pairing_def sound_refl)

text \<open>A session stays known, and a token that is gone stays gone.\<close>

definition token_history :: "portal \<Rightarrow> portal \<Rightarrow> bool" where
  "token_history p p' \<longleftrightarrow> pairing_inv (portal_db p') \<and> pairing_extends (portal_db p) (portal_db p') \<and>
     (\<forall>i. session_known i p \<longrightarrow> session_known i p' \<and> (dm_bind p' i \<noteq> None \<longrightarrow> dm_bind p' i = dm_bind p i) \<and>
        (dm_claim p' i \<noteq> None \<longrightarrow> dm_claim p' i = dm_claim p i))"

lemma extends_known: "pairing_extends (portal_db p) (portal_db p') \<Longrightarrow> session_known i p \<Longrightarrow> session_known i p'"
  unfolding pairing_extends_def table_extends_def session_known_def by (metis session_evolves_def)

lemma sound_history:
  "pairing_sound (portal_db p) (portal_db p') \<Longrightarrow> drops p p' \<Longrightarrow> pairing_inv (portal_db p) \<Longrightarrow> token_history p p'"
  by (auto simp: token_history_def pairing_sound_def drops_def intro: extends_known)

lemma unchanged_history: "unchanged_pairing p p' \<Longrightarrow> pairing_inv (portal_db p) \<Longrightarrow> token_history p p'"
  using unchanged_pairing_sound sound_history by blast

lemma portal_step_history:
  assumes "portal_step x p p'" "pairing_inv (portal_db p)"
  shows "token_history p p'"
  using assms
proof (induction rule: portal_step.induct)
  case (portal_login p d ip agent)
  obtain a p' where l: "post_init_login x d ip agent p = (a, p')" by fastforce
  show ?case
  proof (cases "\<exists>n r. a = Reply n r")
    case True
    then obtain n r where "a = Reply n r" by blast
    from login_state(3) [OF l this] login_state(1) [OF l] portal_login show ?thesis
      by (auto simp: l token_history_def pairing_sound_def intro: extends_known)
  qed (use login_state(1,2) [OF l] portal_login sound_history in \<open>simp add: l\<close>)
next
  case (portal_submit p meanwhile d body)
  have "pairing_sound (portal_db p) (meanwhile (portal_db p))" using portal_submit(1) by (rule pairing_steps_sound)
  then show ?case
    by (intro sound_history submit_state [where meanwhile = meanwhile] portal_submit.prems)
next
  case (portal_elsewhere p s)
  then show ?case using pairing_step_sound by (intro sound_history) (auto simp: drops_same)
next
  case (portal_timer p now)
  then show ?case using drops_sweep by (intro sound_history) (auto simp: sweep_tokens_def sound_refl)
qed (simp_all add: unchanged_history me_unchanged events_unchanged claim_unchanged signup_init_unchanged signup_unchanged)

lemma history_trans: "token_history p q \<Longrightarrow> token_history q r \<Longrightarrow> token_history p r"
  unfolding token_history_def pairing_extends_def using sessions.extends_trans by (metis (no_types, lifting))

lemma portal_steps_history: "(portal_step x)\<^sup>*\<^sup>* p p' \<Longrightarrow> pairing_inv (portal_db p) \<Longrightarrow> token_history p p'"
proof (induction rule: rtranclp_induct)
  case base
  then show ?case by (simp add: token_history_def pairing_extends_def sessions.extends_refl)
next
  case (step q r)
  then have "token_history p q" by simp
  moreover have "token_history q r" using step.hyps(2) \<open>token_history p q\<close> by (intro portal_step_history) (auto simp: token_history_def)
  ultimately show ?case by (rule history_trans)
qed

lemma known_gone:
  assumes "token_history p p'" "session_known i p"
  shows "dm_bind p i = None \<Longrightarrow> dm_bind p' i = None" "dm_claim p i = None \<Longrightarrow> dm_claim p' i = None"
    and "pairing_inv (portal_db p')" "session_known i p'"
  using assms unfolding token_history_def by metis+

section \<open>Tokens are good once\<close>

lemma claim_accepted:
  assumes "post_claim x now i b ip agent p = (Reply n r, p')"
  obtains t row where "loadPairingRow x i t (portal_db p) = Some (Some row)" "ps_state row = Consumed" "ps_consumed_user_id row = Some (kl_user r)"
    "\<exists>e. dm_claim p i = Some (portal_sha x (or_else [] (readNamedCookie b DEMO_CLAIM_COOKIE_NAME)), e) \<and> now < e" "dm_claim p' i = None"
    "portal_db p' = recordAuditEvent (portal_sha x) now t (desktop_claimed x (kl_user r) row ip agent) (portal_db p)"
    "kl_set_cookie r = buildSetCookieHeader x (encodeCookie x
       \<lparr> ck_user = kl_user r, ck_session = ps_id row, ck_started = or_else now (ps_consumed_at row) \<rparr>)"
proof -
  obtain t p1 where r: "resolveDemoPortalTenantId x p = (Some t, p1)"
    using assms by (cases "resolveDemoPortalTenantId x p"; cases "fst (resolveDemoPortalTenantId x p)")
      (auto simp: post_claim_def not_provisioned_def split: if_splits)
  note p1 = resolved_eq [OF r]
  obtain row where row: "loadPairingRow x i t (portal_db p) = Some (Some row)"
    using assms p1 by (auto simp: post_claim_def r split: if_splits option.splits)
  obtain u where u: "ps_consumed_user_id row = Some u" "ps_state row = Consumed"
    using assms p1 row by (auto simp: post_claim_def r split: if_splits option.splits)
  obtain ok p2 where v: "verifyAndConsumeClaimToken x now i (readNamedCookie b DEMO_CLAIM_COOKIE_NAME) p1 = (ok, p2)" by fastforce
  have ok: "ok" using assms p1 row u by (cases ok) (auto simp: post_claim_def r v split: if_splits)
  note w = verified_claim(1) [OF v] verified_claim(5) [OF v ok]
  show thesis
    by (rule that [of t row]) (use assms p1 row u ok w in \<open>auto simp: post_claim_def r v split: if_splits\<close>)
qed

lemma claim_needs_token: "dm_claim p i = None \<Longrightarrow> fst (post_claim x now i b ip agent p) \<noteq> Reply n r"
  by (metis claim_accepted option.distinct(1) prod.collapse)

text \<open>Property C21.  A session is claimed by its desktop, once.  However the requests, the timer and the other services
  interleave, a claim of the session a login opened succeeds only with the cookie set on the response of that
  login (up to the digest), within six minutes, when a user has been bound to the session; the claim leaves one audit row
  before the cookie is set; and no later claim of that session succeeds, with whatever cookie.  (This is about the claim
  route; \<open>stream_bypasses_claim\<close> below shows that the stream of events hands out the same cookie without it.)\<close>

theorem desktop_claims_once:
  assumes "pairing_inv (portal_db p0)" "post_init_login x d ip agent p0 = (Reply n opened, p1)" "(portal_step x)\<^sup>*\<^sup>* p1 p"
    and "post_claim x now (nd_id d) b ip' agent' p = (Reply m r, p2)" "(portal_step x)\<^sup>*\<^sup>* p2 p3"
  shows "portal_sha x (or_else [] (readNamedCookie b DEMO_CLAIM_COOKIE_NAME)) = portal_sha x (nd_claim d) \<and>
    now < nd_now d + DEMO_CLAIM_TOKEN_TTL_MS \<and>
    (\<exists>row \<in> set (t_pairing (portal_db p)). dx_uuid x (nd_id d) = Some (ps_id row) \<and> ps_state row = Consumed \<and>
       ps_consumed_user_id row = Some (kl_user r)) \<and>
    (\<exists>row t. portal_db p2 = recordAuditEvent (portal_sha x) now t (desktop_claimed x (kl_user r) row ip' agent') (portal_db p)) \<and>
    (\<forall>now' b' ip'' agent'' k r'. fst (post_claim x now' (nd_id d) b' ip'' agent'' p3) \<noteq> Reply k r')"
proof -
  note l = login_state(1) [OF assms(2)] login_state(3) [OF assms(2) refl]
  have inv: "pairing_inv (portal_db p1)" using l(1) assms(1) by (simp add: pairing_sound_def)
  note h = known_gone(3,4) [OF portal_steps_history [OF assms(3) inv], of "nd_id d"]
  obtain t row where c: "loadPairingRow x (nd_id d) t (portal_db p) = Some (Some row)" "ps_state row = Consumed"
      "ps_consumed_user_id row = Some (kl_user r)"
      "\<exists>e. dm_claim p (nd_id d) = Some (portal_sha x (or_else [] (readNamedCookie b DEMO_CLAIM_COOKIE_NAME)), e) \<and> now < e"
      "dm_claim p2 (nd_id d) = None"
      "portal_db p2 = recordAuditEvent (portal_sha x) now t (desktop_claimed x (kl_user r) row ip' agent') (portal_db p)"
    by (rule claim_accepted [OF assms(4)])
  have "dm_claim p (nd_id d) = dm_claim p1 (nd_id d)"
    using portal_steps_history [OF assms(3) inv] l(2) c(4) by (auto simp: token_history_def)
  then have token: "portal_sha x (or_else [] (readNamedCookie b DEMO_CLAIM_COOKIE_NAME)) = portal_sha x (nd_claim d)"
      "now < nd_now d + DEMO_CLAIM_TOKEN_TTL_MS"
    using c(4) l(2) by auto
  have "token_history p p2"
    using h portal_step_history [OF portal_claim, of p x now "nd_id d" b ip' agent'] l(2) by (simp add: assms(4))
  note h2 = known_gone [OF this, of "nd_id d"]
  have "session_known (nd_id d) p2" "pairing_inv (portal_db p2)" using h h2 l(2) by blast+
  then have "dm_claim p3 (nd_id d) = None" using known_gone(2) [OF portal_steps_history [OF assms(5)]] c(5) by blast
  then have gone: "fst (post_claim x now' (nd_id d) b' ip'' agent'' p3) \<noteq> Reply k r'" for now' b' ip'' agent'' k r'
    by (rule claim_needs_token)
  have "\<exists>q \<in> set (t_pairing (portal_db p)). dx_uuid x (nd_id d) = Some (ps_id q) \<and> ps_state q = Consumed \<and> ps_consumed_user_id q = Some (kl_user r)"
    using c(1-3) by (auto simp: loadPairingRow_def loadSessionRow_def dest!: first_row_SomeD)
  then show ?thesis using token c(6) gone by blast
qed

section \<open>The cookie\<close>

text \<open>What the codecs promise, and \<open>JSON.parse\<close> on the payload that \<open>JSON.stringify\<close> wrote.\<close>

definition cookie_lib_ok :: "portal_env \<Rightarrow> bool" where
  "cookie_lib_ok x \<longleftrightarrow> (\<forall>s. dx_unbase64url x (dx_base64url x s) = s) \<and> (\<forall>s. CHR ''.'' \<notin> set (dx_base64url x s)) \<and>
     (\<forall>s. s \<noteq> [] \<longrightarrow> dx_base64url x s \<noteq> []) \<and>
     (\<forall>k s. dx_hmac x k s \<noteq> []) \<and> (\<forall>c s. stringify (cookie_json c) = Some s \<longrightarrow> dx_parse x s = Some (cookie_json c))"

lemma payload_text: "\<exists>s. s \<noteq> [] \<and> stringify (cookie_json c) = Some s"
  by (simp add: cookie_json_def)

lemma decode_encode:
  assumes "cookie_lib_ok x"
  shows "decodeCookie x (Some (encodeCookie x c)) = Some c"
proof -
  obtain s where s: "s \<noteq> []" "stringify (cookie_json c) = Some s" using payload_text by blast
  let ?b = "dx_base64url x s"
  have b: "CHR ''.'' \<notin> set ?b" "dx_unbase64url x ?b = s" "cookie_mac x ?b \<noteq> []" "dx_parse x s = Some (cookie_json c)"
    using assms s(2) by (simp_all add: cookie_lib_ok_def cookie_mac_def)
  have "?b \<noteq> []" using assms s(1) by (simp add: cookie_lib_ok_def)
  moreover have "takeWhile (\<lambda>c. c \<noteq> CHR ''.'') (?b @ CHR ''.'' # m) = ?b" for m using b(1) by (auto simp: takeWhile_tail intro!: takeWhile_append2 [THEN trans])
  ultimately show ?thesis
    using b s(2) by (simp add: decodeCookie_def encodeCookie_def Let_def or_else_def cookie_json_def jget_def)
qed

section \<open>A sign-in completes\<close>

lemma created_session:
  assumes "createSession sha domain now i nb tok t e key ip ua s = (Inr c, s')"
  shows "loadSessionRow i t e s' = Some (new_session sha now i nb tok t e key ip ua)" "cs_id c = i" "cs_bind_token c = tok"
    and "t_users s' = t_users s" "t_tenants s' = t_tenants s"
    and "\<exists>q \<in> set (t_pairing s'). ps_id q = i \<and> ps_state q = Issued"
proof -
  let ?row = "new_session sha now i nb tok t e key ip ua"
  have c: "\<not> list_ex (session_conflict ?row) (t_pairing s)" "t_pairing s' = t_pairing s @ [?row]"
      "t_users s' = t_users s" "t_tenants s' = t_tenants s" "cs_id c = i" "cs_bind_token c = tok"
    using assms by (auto simp: createSession_def Let_def split: if_splits)
  then show "cs_id c = i" "cs_bind_token c = tok" "t_users s' = t_users s" "t_tenants s' = t_tenants s" by simp_all
  have "\<forall>q \<in> set (t_pairing s). ps_id q \<noteq> i" using c(1) by (auto simp: list_ex_iff session_conflict_def new_session_def)
  then show "loadSessionRow i t e s' = Some ?row"
    unfolding loadSessionRow_def c(2) by (intro first_registered) (auto simp: new_session_def)
  show "\<exists>q \<in> set (t_pairing s'). ps_id q = i \<and> ps_state q = Issued"
    unfolding c(2) by (auto simp: new_session_def)
qed

lemma login_opens:
  assumes "post_init_login x d ip agent p = (Reply n opened, p1)"
  obtains t where "dm_tenant p1 = Some t"
    "loadSessionRow (nd_id d) t Live (portal_db p1) =
       Some (new_session (portal_sha x) (nd_now d) (nd_id d) (nd_nonce d) (nd_bind d) t Live None ip agent)"
    "still_issued (nd_id d) (portal_db p1)"
proof -
  obtain t p' where r: "resolveDemoPortalTenantId x p = (Some t, p')"
    using assms by (cases "resolveDemoPortalTenantId x p"; cases "fst (resolveDemoPortalTenantId x p)")
      (auto simp: post_init_login_def not_provisioned_def)
  have t: "dm_tenant p' = Some t" using r by (auto simp: resolveDemoPortalTenantId_def Let_def split: option.splits)
  let ?c = "createSession (portal_sha x) (dx_domain x) (nd_now d) (nd_id d) (nd_nonce d) (nd_bind d) t Live None ip agent (portal_db p')"
  obtain w s where c: "?c = (Inr w, s)"
    using assms by (cases ?c; cases "fst ?c") (auto simp: post_init_login_def r split: pairing_error.splits)
  have "portal_db p1 = s" "dm_tenant p1 = Some t"
    using assms t by (auto simp: post_init_login_def r c mintClaimToken_def rememberBindToken_def)
  then show thesis using that created_session [OF c] by (auto simp: still_issued_def)
qed

lemma found_user:
  assumes "findUserByDid t Live did s = Some user"
  shows "\<exists>r. loadDemoUser (sc_id user) t s = Some r \<and> us_id r = sc_id user"
proof -
  obtain r where r: "r \<in> set (t_users s)" "us_id r = sc_id user" "us_tenant_id r = t" "us_environment r = Live"
    using assms by (auto simp: findUserByDid_def split: option.splits dest!: first_row_SomeD)
  have "loadDemoUser (sc_id user) t s \<noteq> None"
    unfolding loadDemoUser_def first_row_None_iff using r by blast
  then show ?thesis by (auto simp: loadDemoUser_def dest: first_row_SomeD)
qed

text \<open>The cookie of a user the portal's tenant has opens the account.\<close>

lemma cookie_opens:
  assumes "cookie_lib_ok x" "dm_tenant p = Some t" "dx_uuid x (ck_user c) = Some (ck_user c)" "loadDemoUser (ck_user c) t (portal_db p) = Some r"
    and "\<bar>ck_started c\<bar> \<le> MAX_DATE_MS" "readDemoCookie b = Some (encodeCookie x c)"
  shows "\<exists>me. get_me x b p = (Reply 200 me, None, p) \<and> me_user me = us_id r"
proof -
  have "resolveDemoPortalTenantId x p = (Some t, p)" using assms(2) by (simp add: resolveDemoPortalTenantId_def)
  moreover have "\<not> ck_started c < - MAX_DATE_MS" "\<not> MAX_DATE_MS < ck_started c" using assms(5) by simp_all
  ultimately show ?thesis
    using assms(3,4) by (simp add: get_me_def Let_def assms(6) decode_encode [OF assms(1)])
qed

lemma claim_succeeds:
  assumes "session_id_shape i" "dm_tenant p = Some t" "loadPairingRow x i t (portal_db p) = Some (Some row)" "ps_state row = Consumed"
    and "ps_consumed_user_id row = Some u" "dm_claim p i = Some (portal_sha x tok, e)" "now < e"
    and "readNamedCookie b DEMO_CLAIM_COOKIE_NAME = Some tok" "tok \<noteq> []"
  shows "\<exists>r p'. post_claim x now i b ip agent p = (Reply 200 r, p') \<and> kl_user r = u"
proof -
  have "resolveDemoPortalTenantId x p = (Some t, p)" using assms(2) by (simp add: resolveDemoPortalTenantId_def)
  moreover have "fst (verifyAndConsumeClaimToken x now i (Some tok) p) = True"
    using assms(6,7,9) by (simp add: verifyAndConsumeClaimToken_def Let_def or_else_def)
  ultimately show ?thesis
    using assms(1,3-5,8) by (cases "verifyAndConsumeClaimToken x now i (Some tok) p") (simp add: post_claim_def)
qed

lemma consumed_row:
  assumes "consume cfg c user s = (Inr r, s')" "loadSessionRow (sb_session c) t e s = Some row" "ps_state row = Issued"
  shows "\<exists>row'. loadSessionRow (sb_session c) t e s' = Some row' \<and> ps_state row' = Consumed \<and> ps_consumed_user_id row' = Some (sc_id user)"
    and "t_users s' = t_users s" "sv_user_id (sr_session r) = Some (sc_id user)"
proof -
  define P :: "pairing_session \<Rightarrow> bool" where "P = (\<lambda>r. ps_id r = sb_session c \<and> ps_state r = Issued)"
  define upd :: "pairing_session \<Rightarrow> pairing_session" where "upd = claim_row (sc_id user, sb_later c)"
  define Q :: "pairing_session \<Rightarrow> bool" where "Q = (\<lambda>r. ps_id r = sb_session c \<and> ps_tenant_id r = t \<and> ps_environment r = e)"
  define hash where "hash = pc_sha cfg (or_else '''' (stringify (sb_proof c)))"
  obtain q qs where ret: "returning P upd (t_pairing s) = q # qs"
    using assms(1) by (cases "returning P upd (t_pairing s)") (simp_all add: consume_def Let_def P_def upd_def)
  have s': "t_pairing s' = update_rows (\<lambda>r. ps_id r = sb_session c) (set_proof_hash hash) (update_rows P upd (t_pairing s))"
    "t_users s' = t_users s" "sv_user_id (sr_session r) = Some (sc_id user)"
    using assms(1) ret by (auto simp: consume_def Let_def P_def upd_def hash_def submit_audit_def)
  then show "t_users s' = t_users s" "sv_user_id (sr_session r) = Some (sc_id user)" by blast+
  have row: "first_row Q (t_pairing s) = Some row" using assms(2) by (simp add: loadSessionRow_def Q_def)
  then have "P row" using assms(3) by (auto simp: Q_def P_def dest: first_row_SomeD)
  then have "first_row Q (update_rows P upd (t_pairing s)) = Some (upd row)"
    by (intro first_row_update [OF row]) (simp_all add: Q_def upd_def claim_row_def)
  then have "first_row Q (t_pairing s') = Some (set_proof_hash hash (upd row))"
    unfolding s'(1) by (rule first_row_update) (use \<open>P row\<close> in \<open>simp_all add: Q_def P_def set_proof_hash_def upd_def claim_row_def\<close>)
  then show "\<exists>row'. loadSessionRow (sb_session c) t e s' = Some row' \<and> ps_state row' = Consumed \<and> ps_consumed_user_id row' = Some (sc_id user)"
    by (simp add: loadSessionRow_def Q_def [symmetric]) (simp add: set_proof_hash_def upd_def claim_row_def)
qed

text \<open>The demonstration works.  After a login, an enrolled user's phone that answers the challenge within five
  minutes with a proof the verifier accepts is signed in by the scanned code: the response carries a cookie that opens
  the user's account, and the desktop that opened the session, presenting the cookie of its login, can claim the
  same account.\<close>

theorem scanned_proof_signs_in:
  assumes "post_init_login x d ip agent p = (Reply n opened, p1)" "dm_tenant p1 = Some t"
    and "nonceHexToField (bytes_hex (nd_nonce d)) = Some nonce" "nd_bind d \<noteq> []" "session_id_shape (nd_id d)"
    and "findUserByDid t Live did (portal_db p1) = Some user" "sc_commitment user = dec_int c" "sc_did_hash user = dec_int h"
    and "decodeProofQr (dx_qr x) qr = Inr \<lparr> pv_session = nd_id d, pv_proof = proof,
      pv_signals = [JStr (dec_int c), JStr (dec_int (pc_poseidon (dx_pairing x) h nonce)), z], pv_did = did, pv_meta = meta \<rparr>"
    and "verifierVerify (pc_mode (dx_pairing x)) proof [JStr (dec_int c), JStr (dec_int (pc_poseidon (dx_pairing x) h nonce)), z] = Inr True"
    and "evaluateVerdict (jget ''playIntegrityVerdict'' meta) (loadTenantSecurityPolicy (pc_policy_readable (dx_pairing x)) t (portal_db p1)) = None"
    and "sq_now sd < nd_now d + SESSION_TTL_MS" "\<bar>sq_later sd\<bar> \<le> MAX_DATE_MS"
    and "cookie_lib_ok x" "dx_uuid x (nd_id d) = Some (nd_id d)" "dx_uuid x (sc_id user) = Some (sc_id user)"
  shows "\<exists>res cookie p2. post_submit_proof x sd (JObj [(''session_id'', JStr (nd_id d)), (''qr_payload'', JStr qr)]) id p1 =
      (Reply 200 (res, buildSetCookieHeader x cookie), p2) \<and>
    (\<forall>b. readDemoCookie b = Some cookie \<longrightarrow> (\<exists>me. get_me x b p2 = (Reply 200 me, None, p2) \<and> me_user me = sc_id user)) \<and>
    (\<forall>b now ip' agent'. readNamedCookie b DEMO_CLAIM_COOKIE_NAME = Some (nd_claim d) \<longrightarrow> nd_claim d \<noteq> [] \<longrightarrow>
       now < nd_now d + DEMO_CLAIM_TOKEN_TTL_MS \<longrightarrow>
       (\<exists>r p3. post_claim x now (nd_id d) b ip' agent' p2 = (Reply 200 r, p3) \<and> kl_user r = sc_id user))"
proof -
  define e where "e = \<lparr> pv_session = nd_id d, pv_proof = proof,
      pv_signals = [JStr (dec_int c), JStr (dec_int (pc_poseidon (dx_pairing x) h nonce)), z], pv_did = did, pv_meta = meta \<rparr>"
  define call where "call = submit_call_of sd (nd_id d) t Live did proof (JArr (pv_signals e)) meta (Some (nd_bind d))"
  define body where "body = JObj [(''session_id'', JStr (nd_id d)), (''qr_payload'', JStr qr)]"
  let ?row = "new_session (portal_sha x) (nd_now d) (nd_id d) (nd_nonce d) (nd_bind d) t Live None ip agent"
  note l = login_state(3) [OF assms(1) refl]
  have opened: "loadSessionRow (nd_id d) t Live (portal_db p1) = Some ?row" "still_issued (nd_id d) (portal_db p1)"
    by (rule login_opens [OF assms(1)], use assms(2) in simp)+
  have signals: "signals_bound (pc_poseidon (dx_pairing x)) ?row user (JArr (pv_signals e))"
    unfolding check_signals_ok [symmetric] e_def
    using honest_signals_pass [of ?row nonce user c h "pc_poseidon (dx_pairing x)" z] assms(3,7,8) by (simp add: new_session_def)
  have cond: "submit_conditions (dx_pairing x) call (portal_db p1) ?row user"
    using opened(1) assms(4,6,10-12) signals
    by (simp add: submit_conditions_def call_def submit_call_of_def bind_matches_def e_def array_of_def or_else_def)
      (simp add: new_session_def MAX_FAILURES_BEFORE_LOCK_def)
  have "\<exists>r. fst (submitProof (dx_pairing x) call id (portal_db p1)) = Inr r"
    unfolding submit_success_iff using cond opened(2) by (auto simp: call_def submit_call_of_def)
  then obtain r s where r: "submitProof (dx_pairing x) call id (portal_db p1) = (Inr r, s)" by (metis prod.collapse)
  have cons: "consume (dx_pairing x) call user (portal_db p1) = (Inr r, s)"
    using submit_success_consumes [OF r] conditions_unique [OF cond] by (metis id_apply)
  have after: "\<exists>row'. loadSessionRow (nd_id d) t Live s = Some row' \<and> ps_state row' = Consumed \<and> ps_consumed_user_id row' = Some (sc_id user)"
      "t_users s = t_users (portal_db p1)" "sv_user_id (sr_session r) = Some (sc_id user)"
    using consumed_row [OF cons, of t Live] opened(1) by (simp_all add: call_def submit_call_of_def new_session_def)
  define p' where "p' = p1\<lparr>dm_bind := (dm_bind p1)(nd_id d := None)\<rparr>"
  define p2 where "p2 = with_db s p'"
  define ck where "ck = \<lparr> ck_user = sc_id user, ck_session = nd_id d, ck_started = sq_later sd \<rparr>"
  have token: "consumeBindToken (sq_now sd) (nd_id d) p1 = (Some (nd_bind d), p')"
    using l assms(12) by (simp add: consumeBindToken_def p'_def SESSION_TTL_MS_def BIND_TOKEN_TTL_MS_def)
  have "resolveDemoPortalTenantId x p1 = (Some t, p1)" using assms(2) by (simp add: resolveDemoPortalTenantId_def)
  moreover have "first_text ''session_id'' ''sessionId'' body = nd_id d" "first_text ''qr_payload'' ''qrPayload'' body = qr"
    by (simp_all add: first_text_def body_def jget_def jstr_def or_else_def)
  moreover have "qr \<noteq> []"
  proof
    assume "qr = []"
    then show False using assms(9) by (simp add: decodeProofQr_def PROOF_QR_PREFIX_def)
  qed
  ultimately have ok: "post_submit_proof x sd body id p1 = (Reply 200 (sr_session r, buildSetCookieHeader x (encodeCookie x ck)), p2)"
    using r after(3) assms(4,5,9) token
    by (simp add: post_submit_proof_def Let_def e_def call_def ck_def p2_def p'_def or_else_def)
  have p2: "dm_tenant p2 = Some t" "portal_db p2 = s" "dm_claim p2 (nd_id d) = Some (portal_sha x (nd_claim d), nd_now d + DEMO_CLAIM_TOKEN_TTL_MS)"
    using assms(2) l by (simp_all add: p2_def p'_def)
  obtain u where u: "loadDemoUser (sc_id user) t s = Some u" "us_id u = sc_id user"
    using found_user [OF assms(6)] after(2) by (auto simp: loadDemoUser_def)
  have "\<exists>me. get_me x b p2 = (Reply 200 me, None, p2) \<and> me_user me = sc_id user" if "readDemoCookie b = Some (encodeCookie x ck)" for b
    using cookie_opens [of x p2 t ck u b] that assms(13,14,16) p2 u by (simp add: ck_def)
  moreover have "\<exists>r p3. post_claim x now (nd_id d) b ip' agent' p2 = (Reply 200 r, p3) \<and> kl_user r = sc_id user"
    if "readNamedCookie b DEMO_CLAIM_COOKIE_NAME = Some (nd_claim d)" "nd_claim d \<noteq> []" "now < nd_now d + DEMO_CLAIM_TOKEN_TTL_MS" for b now ip' agent'
    using claim_succeeds [OF assms(5) p2(1) _ _ _ p2(3) that(3,1,2)] after(1) p2(2) assms(15) by (auto simp: loadPairingRow_def)
  ultimately show ?thesis using ok unfolding body_def by blast
qed

section \<open>A run of the portal\<close>

text \<open>Codecs that keep their promise: hexadecimal for base64url, a constant HMAC, and a reader of the payload.\<close>

fun read_quoted :: "nat \<Rightarrow> string \<Rightarrow> (string \<times> string) option" where
  "read_quoted (Suc f) (c # s) = (if c = quote_mark then Some ([], s)
     else (case unesc (c # s) of None \<Rightarrow> None | Some (d, t) \<Rightarrow> map_option (apfst ((#) d)) (read_quoted f t)))"
| "read_quoted f s = None"

definition demo_payload_parse :: "string \<Rightarrow> json option" where
  "demo_payload_parse s =
     (case read_quoted (length s) (drop (length ''{.userId.:.'') s) of None \<Rightarrow> None
      | Some (u, s1) \<Rightarrow>
     (case read_quoted (length s1) (drop (length '',.pairingSessionId.:.'') s1) of None \<Rightarrow> None
      | Some (i, s2) \<Rightarrow>
     (case bigint_of_string (takeWhile (\<lambda>c. c \<noteq> CHR ''}'') (drop (length '',.startedAtMs.:'') s2)) of None \<Rightarrow> None
      | Some n \<Rightarrow> Some (cookie_json \<lparr> ck_user = u, ck_session = i, ck_started = n \<rparr>))))"

lemma read_quoted_body: "length a < f \<Longrightarrow> read_quoted f (concat (map esc_char a) @ quote_mark # s) = Some (a, s)"
proof (induction a arbitrary: f)
  case Nil
  then show ?case by (cases f) simp_all
next
  case (Cons c a)
  obtain f' where f: "f = Suc f'" "length a < f'" using Cons.prems by (cases f) simp_all
  obtain d t where t: "concat (map esc_char a) @ quote_mark # s = d # t" by (cases "concat (map esc_char a) @ quote_mark # s") auto
  obtain e es where e: "esc_char c = e # es" using esc_char_ne [of c] by (cases "esc_char c") auto
  have "e \<noteq> quote_mark" using hd_esc_char [of c] e by simp
  then have "read_quoted f (esc_char c @ d # t) = map_option (apfst ((#) c)) (read_quoted f' (d # t))"
    using unesc_esc_char [of c d t] by (simp add: f e)
  then show ?case using Cons.IH [OF f(2)] by (simp add: t)
qed

definition demo_portal_env :: portal_env where
  "demo_portal_env = \<lparr> dx_hmac = (\<lambda>_ _. ''mac''), dx_base64url = (\<lambda>s. bytes_hex (map of_char s)),
     dx_unbase64url = (\<lambda>s. map char_of (hex_bytes s)), dx_parse = demo_payload_parse, dx_secret = ''s'', dx_production = True,
     dx_domain = ''zeroauth.dev'', dx_uuid = Some, dx_qr = demo_qr_lib, dx_pairing = demo_config, dx_ceremony = demo_ceremony \<rparr>"

lemma escaped_length: "length a \<le> length (concat (map esc_char a))"
proof (induction a)
  case (Cons c a)
  have "Suc 0 \<le> length (esc_char c)" using esc_char_ne [of c] by (cases "esc_char c") simp_all
  then show ?case using Cons by simp
qed simp

lemma quoted_member:
  assumes "s = pre @ quote_mark # concat (map esc_char a) @ quote_mark # rest"
  shows "read_quoted (length s) (drop (Suc (length pre)) s) = Some (a, rest)"
proof -
  have "length a < length s" using escaped_length [of a] by (simp add: assms)
  moreover have "drop (Suc (length pre)) s = concat (map esc_char a) @ quote_mark # rest" by (simp add: assms)
  ultimately show ?thesis by (simp add: read_quoted_body)
qed

lemma demo_payload_back: "stringify (cookie_json c) = Some s \<Longrightarrow> demo_payload_parse s = Some (cookie_json c)"
proof -
  assume s: "stringify (cookie_json c) = Some s"
  define s2 where "s2 = CHR '','' # quote_str ''startedAtMs'' @ '':'' @ dec_int (ck_started c) @ ''}''"
  define s1 where "s1 = (CHR '','' # quote_str ''pairingSessionId'' @ '':'') @ quote_mark # concat (map esc_char (ck_session c)) @ quote_mark # s2"
  have s: "s = (CHR ''{'' # quote_str ''userId'' @ '':'') @ quote_mark # concat (map esc_char (ck_user c)) @ quote_mark # s1"
    using s by (simp add: cookie_json_def quote_str_def s1_def s2_def)
  have names: "length (quote_str ''userId'') = 8" "length (quote_str ''pairingSessionId'') = 18" "length (quote_str ''startedAtMs'') = 13"
    by (simp_all add: quote_str_def esc_char_def)
  have "read_quoted (length s) (drop (length ''{.userId.:.'') s) = Some (ck_user c, s1)"
    using quoted_member [OF s] by (simp add: names eval_nat_numeral)
  moreover have "read_quoted (length s1) (drop (length '',.pairingSessionId.:.'') s1) = Some (ck_session c, s2)"
    using quoted_member [OF s1_def] by (simp add: names eval_nat_numeral)
  moreover have "drop (length '',.startedAtMs.:'') s2 = dec_int (ck_started c) @ ''}''" by (simp add: s2_def names)
  moreover have "takeWhile (\<lambda>c. c \<noteq> CHR ''}'') (dec_int n @ ''}'') = dec_int n" for n
  proof -
    have "\<forall>c \<in> set (dec_int n). c \<noteq> CHR ''}''"
      using dec_nat_digits [of "CHR ''}''"] by (auto simp: dec_int_def is_digit_def split: if_splits)
    then show ?thesis by (simp add: takeWhile_append2)
  qed
  ultimately show ?thesis by (simp add: demo_payload_parse_def bigint_of_dec_int cookie_json_def)
qed

lemma demo_codecs: "cookie_lib_ok demo_portal_env"
proof -
  have h: "hex_bytes (bytes_hex (map of_char s)) = map of_char s" for s :: string
    by (rule hex_bytes_hex) auto
  have "CHR ''.'' \<notin> set (bytes_hex bs)" for bs
  proof
    assume "CHR ''.'' \<in> set (bytes_hex bs)"
    from bytes_hex_chars [OF this] show False by (simp add: is_lower_hex_def is_digit_def)
  qed
  moreover have "bytes_hex (map of_char s) \<noteq> []" if "s \<noteq> []" for s :: string
    using that length_bytes_hex [of "map of_char s"] by (metis length_0_conv length_map mult_eq_0_iff zero_neq_numeral)
  ultimately show ?thesis using demo_payload_back by (simp add: cookie_lib_ok_def demo_portal_env_def h comp_def)
qed

definition demo_portal_start :: portal where
  "demo_portal_start = \<lparr> dm_registry = \<lparr> rg_db = empty_server\<lparr>t_users := [demo_user]\<rparr>, rg_codes = Map.empty \<rparr>,
     dm_bind = Map.empty, dm_claim = Map.empty, dm_tenant = Some ''t'' \<rparr>"

definition demo_login_draw :: init_draw where
  "demo_login_draw = \<lparr> nd_id = ''abcdef12'', nd_nonce = replicate 31 0, nd_bind = ''tok'', nd_claim = ''claim'', nd_now = 0 \<rparr>"

definition demo_submit_draw :: submit_draw where
  "demo_submit_draw = \<lparr> sq_correlation = ''c'', sq_session_uuid = ''v'', sq_now = 1, sq_later = 2 \<rparr>"

definition demo_signals2 :: "json list" where "demo_signals2 = [JStr ''7'', JStr ''5'', JStr ''0'']"

definition demo_scan :: string where
  "demo_scan = proof_qr (\<lambda>x. bytes_hex (map unat x)) id ascii_bytes
     (envelope_value ''abcdef12'' demo_groth demo_signals2 ''did:x'' (JObj []))"

lemma demo_scan_read: "decodeProofQr demo_qr_lib demo_scan =
   Inr \<lparr> pv_session = ''abcdef12'', pv_proof = rebuilt_proof demo_groth, pv_signals = demo_signals2, pv_did = ''did:x'',
     pv_meta = client_meta (JObj []) \<rparr>"
  unfolding demo_scan_def
proof (rule proof_qr_round_trip)
  let ?v = "envelope_value ''abcdef12'' demo_groth demo_signals2 ''did:x'' (JObj [])"
  show "writable ascii_bytes (ql_utf8 demo_qr_lib) ?v"
    by (simp add: demo_qr_lib_def ascii_back envelope_value_def demo_groth_def demo_signals2_def) (simp add: ascii_bytes_def)
  have "length (cbor_write ascii_bytes ?v) \<le> 700"
    by (simp add: envelope_value_def demo_groth_def demo_signals2_def cbor_text_def ascii_bytes_def cbor_head_def)
  then show "length (proof_qr (\<lambda>x. bytes_hex (map unat x)) id ascii_bytes ?v) \<le> PROOF_QR_MAX_BYTES"
    by (simp add: proof_qr_def length_bytes_hex PROOF_QR_MAX_BYTES_def PROOF_QR_PREFIX_def)
  show "\<not> is_space c" if "c \<in> set (bytes_hex (map unat x))" for c and x :: bytes
    using bytes_hex_chars [OF that] by (rule lower_hex_not_space)
qed (simp_all add: demo_qr_lib_def demo_hex_back texts_def demo_signals2_def is_text_def jstr_def groth_shape_def demo_groth_def jget_def or_else_def)

definition demo_logged :: portal where
  "demo_logged = snd (post_init_login demo_portal_env demo_login_draw None None demo_portal_start)"

lemma demo_opened:
  "\<exists>opened. post_init_login demo_portal_env demo_login_draw None None demo_portal_start = (Reply 201 opened, demo_logged)"
  "dm_tenant demo_logged = Some ''t''" "t_users (portal_db demo_logged) = [demo_user]" "t_tenants (portal_db demo_logged) = []"
proof -
  obtain res s where c: "createSession (portal_sha demo_portal_env) (dx_domain demo_portal_env) 0 ''abcdef12'' (replicate 31 0) ''tok'' ''t'' Live None None None
      (portal_db demo_portal_start) = (res, s)" by fastforce
  have p: "t_pairing (portal_db demo_portal_start) = []" by (simp add: demo_portal_start_def empty_server_def)
  obtain w where w: "res = Inr w"
    using c by (cases res) (auto simp: createSession_def Let_def p MAX_PENDING_SESSIONS_PER_TENANT_def)
  note k = created_session(4,5) [OF c [unfolded w]]
  have r: "resolveDemoPortalTenantId demo_portal_env demo_portal_start = (Some ''t'', demo_portal_start)"
    by (simp add: resolveDemoPortalTenantId_def demo_portal_start_def)
  have run: "\<exists>opened. post_init_login demo_portal_env demo_login_draw None None demo_portal_start = (Reply 201 opened,
      mintClaimToken demo_portal_env 0 (cs_id w) ''claim'' (rememberBindToken 0 (cs_id w) (cs_bind_token w) (with_db s demo_portal_start)))"
    by (simp add: post_init_login_def r demo_login_draw_def c w)
  then show "\<exists>opened. post_init_login demo_portal_env demo_login_draw None None demo_portal_start = (Reply 201 opened, demo_logged)"
    unfolding demo_logged_def by (metis snd_conv)
  have L: "demo_logged = mintClaimToken demo_portal_env 0 (cs_id w) ''claim'' (rememberBindToken 0 (cs_id w) (cs_bind_token w) (with_db s demo_portal_start))"
    using run unfolding demo_logged_def by (metis snd_conv)
  show "dm_tenant demo_logged = Some ''t''" "t_users (portal_db demo_logged) = [demo_user]" "t_tenants (portal_db demo_logged) = []"
    unfolding L mintClaimToken_def rememberBindToken_def using k by (simp_all add: demo_portal_start_def empty_server_def)
qed

text \<open>A run: the phone of the enrolled user answers the login, and the desktop claims.\<close>

definition demo_desktop :: browser where
  "demo_desktop = ((\<lambda>k. if k = DEMO_CLAIM_COOKIE_NAME then JStr ''claim'' else JUndef), None)"

definition demo_submitted :: portal where
  "demo_submitted = snd (post_submit_proof demo_portal_env demo_submit_draw
     (JObj [(''session_id'', JStr ''abcdef12''), (''qr_payload'', JStr demo_scan)]) id demo_logged)"

lemma demo_user_found: "findUserByDid ''t'' Live ''did:x'' (portal_db demo_logged) = Some \<lparr> sc_id = ''u1'', sc_did_hash = ''5'', sc_commitment = ''7'' \<rparr>"
proof -
  have u: "us_tenant_id demo_user = ''t''" "us_environment demo_user = Live" "us_id demo_user = ''u1''"
    by (simp_all add: demo_user_def new_user_def)
  show ?thesis by (simp add: findUserByDid_def demo_opened u demo_metadata jget_def member_text_of_def nonempty_member_def)
qed

lemma demo_env [simp]:
  "dx_pairing demo_portal_env = demo_config" "dx_qr demo_portal_env = demo_qr_lib" "dx_uuid demo_portal_env = Some"
  "pc_poseidon demo_config = (+)" "pc_policy_readable demo_config = True"
  by (simp_all add: demo_portal_env_def demo_config_def fun_eq_iff)

theorem scanned_proof_signs_in_witness:
  "\<exists>res cookie. post_submit_proof demo_portal_env demo_submit_draw
      (JObj [(''session_id'', JStr ''abcdef12''), (''qr_payload'', JStr demo_scan)]) id demo_logged =
        (Reply 200 (res, buildSetCookieHeader demo_portal_env cookie), demo_submitted) \<and>
    (\<forall>b. readDemoCookie b = Some cookie \<longrightarrow> (\<exists>me. get_me demo_portal_env b demo_submitted = (Reply 200 me, None, demo_submitted) \<and> me_user me = ''u1'')) \<and>
    (\<exists>r p3. post_claim demo_portal_env 3 ''abcdef12'' demo_desktop None None demo_submitted = (Reply 200 r, p3) \<and> kl_user r = ''u1'')"
proof -
  obtain opened where o1: "post_init_login demo_portal_env demo_login_draw None None demo_portal_start = (Reply 201 opened, demo_logged)"
    using demo_opened(1) by blast
  have d: "JStr (dec_int 7) = JStr ''7''" "JStr (dec_int (5 + 0)) = JStr ''5''" by code_simp+
  have nonce: "nonceHexToField (bytes_hex (nd_nonce demo_login_draw)) = Some 0"
    using demo_nonce by (simp add: demo_row_def new_session_def demo_login_draw_def)
  have pol: "evaluateVerdict v (loadTenantSecurityPolicy True ''t'' (portal_db demo_logged)) = None" for v
    by (simp add: evaluateVerdict_def loadTenantSecurityPolicy_def demo_opened requiredRank_def jget_def truthy_def)
  have ver: "verifierVerify (pc_mode demo_config) y z = Inr True" for y z
    by (simp add: verifierVerify_def verifyProofOffChain_def verifyInline_def demo_config_def)
  have idd: "nd_id demo_login_draw = ''abcdef12''" "nd_claim demo_login_draw = ''claim''" "nd_now demo_login_draw = 0" "nd_bind demo_login_draw = ''tok''"
    by (simp_all add: demo_login_draw_def)
  have shape: "session_id_shape ''abcdef12''" by code_simp
  have cookie: "readNamedCookie demo_desktop DEMO_CLAIM_COOKIE_NAME = Some ''claim''" by (simp add: readNamedCookie_def demo_desktop_def)
  let ?user = "\<lparr> sc_id = ''u1'', sc_did_hash = ''5'', sc_commitment = ''7'' \<rparr>"
  have signals: "[JStr (dec_int 7), JStr (dec_int (pc_poseidon (dx_pairing demo_portal_env) 5 0)), JStr ''0''] = demo_signals2"
    unfolding demo_env d by (simp add: demo_signals2_def)
  have "\<exists>res cookie p2. post_submit_proof demo_portal_env demo_submit_draw
        (JObj [(''session_id'', JStr (nd_id demo_login_draw)), (''qr_payload'', JStr demo_scan)]) id demo_logged = (Reply 200 (res, buildSetCookieHeader demo_portal_env cookie), p2) \<and>
      (\<forall>b. readDemoCookie b = Some cookie \<longrightarrow> (\<exists>me. get_me demo_portal_env b p2 = (Reply 200 me, None, p2) \<and> me_user me = sc_id ?user)) \<and>
      (\<forall>b now ip' agent'. readNamedCookie b DEMO_CLAIM_COOKIE_NAME = Some (nd_claim demo_login_draw) \<longrightarrow> nd_claim demo_login_draw \<noteq> [] \<longrightarrow>
         now < nd_now demo_login_draw + DEMO_CLAIM_TOKEN_TTL_MS \<longrightarrow>
         (\<exists>r p3. post_claim demo_portal_env now (nd_id demo_login_draw) b ip' agent' p2 = (Reply 200 r, p3) \<and> kl_user r = sc_id ?user))"
  proof (rule scanned_proof_signs_in [OF o1 demo_opened(2) nonce _ _ demo_user_found])
    show "sc_commitment ?user = dec_int 7" "sc_did_hash ?user = dec_int 5" by (simp_all, code_simp+)
    show "decodeProofQr (dx_qr demo_portal_env) demo_scan = Inr \<lparr> pv_session = nd_id demo_login_draw, pv_proof = rebuilt_proof demo_groth,
        pv_signals = [JStr (dec_int 7), JStr (dec_int (pc_poseidon (dx_pairing demo_portal_env) 5 0)), JStr ''0''],
        pv_did = ''did:x'', pv_meta = client_meta (JObj []) \<rparr>"
      unfolding signals by (simp only: demo_env idd demo_scan_read)
    show "verifierVerify (pc_mode (dx_pairing demo_portal_env)) (rebuilt_proof demo_groth)
        [JStr (dec_int 7), JStr (dec_int (pc_poseidon (dx_pairing demo_portal_env) 5 0)), JStr ''0''] = Inr True" by (simp only: demo_env ver)
    show "evaluateVerdict (jget ''playIntegrityVerdict'' (client_meta (JObj [])))
        (loadTenantSecurityPolicy (pc_policy_readable (dx_pairing demo_portal_env)) ''t'' (portal_db demo_logged)) = None" by (simp only: demo_env pol)
  qed (simp_all add: idd shape demo_codecs demo_submit_draw_def SESSION_TTL_MS_def MAX_DATE_MS_def)
  then obtain res c p2 where r: "post_submit_proof demo_portal_env demo_submit_draw
        (JObj [(''session_id'', JStr ''abcdef12''), (''qr_payload'', JStr demo_scan)]) id demo_logged = (Reply 200 (res, buildSetCookieHeader demo_portal_env c), p2)"
    "\<forall>b. readDemoCookie b = Some c \<longrightarrow> (\<exists>me. get_me demo_portal_env b p2 = (Reply 200 me, None, p2) \<and> me_user me = ''u1'')"
    "\<forall>b now ip' agent'. readNamedCookie b DEMO_CLAIM_COOKIE_NAME = Some ''claim'' \<longrightarrow> ''claim'' \<noteq> [] \<longrightarrow> now < 0 + DEMO_CLAIM_TOKEN_TTL_MS \<longrightarrow>
         (\<exists>r p3. post_claim demo_portal_env now ''abcdef12'' b ip' agent' p2 = (Reply 200 r, p3) \<and> kl_user r = ''u1'')"
    unfolding idd by auto
  have p2: "demo_submitted = p2" unfolding demo_submitted_def r(1) by simp
  have "\<exists>r p3. post_claim demo_portal_env 3 ''abcdef12'' demo_desktop None None p2 = (Reply 200 r, p3) \<and> kl_user r = ''u1''"
    using r(3) [rule_format, OF cookie, of 3 None None] by (simp add: DEMO_CLAIM_TOKEN_TTL_MS_def)
  then show ?thesis unfolding p2 using r(1,2) by blast
qed

theorem desktop_claims_once_witness:
  "\<exists>r p2. post_claim demo_portal_env 3 ''abcdef12'' demo_desktop None None demo_submitted = (Reply 200 r, p2) \<and> kl_user r = ''u1'' \<and>
     (\<exists>row \<in> set (t_pairing (portal_db demo_submitted)). ps_id row = ''abcdef12'' \<and> ps_consumed_user_id row = Some ''u1'') \<and>
     fst (post_claim demo_portal_env 4 ''abcdef12'' demo_desktop None None p2) \<noteq> Reply 200 r"
proof -
  obtain opened where o1: "post_init_login demo_portal_env demo_login_draw None None demo_portal_start = (Reply 201 opened, demo_logged)"
    using demo_opened(1) by blast
  obtain r p2 where r: "post_claim demo_portal_env 3 ''abcdef12'' demo_desktop None None demo_submitted = (Reply 200 r, p2)" "kl_user r = ''u1''"
    using scanned_proof_signs_in_witness by blast
  have inv: "pairing_inv (portal_db demo_portal_start)"
    by (simp add: pairing_inv_def table_ok_def demo_portal_start_def empty_server_def)
  have "portal_step demo_portal_env demo_logged demo_submitted"
    unfolding demo_submitted_def by (rule portal_submit) simp
  then have "(portal_step demo_portal_env)\<^sup>*\<^sup>* demo_logged demo_submitted" by simp
  moreover have i: "nd_id demo_login_draw = ''abcdef12''" by (simp add: demo_login_draw_def)
  ultimately have
    "\<exists>row \<in> set (t_pairing (portal_db demo_submitted)). ps_id row = ''abcdef12'' \<and> ps_consumed_user_id row = Some (kl_user r)"
    "\<forall>now' b' ip'' agent'' k r'. fst (post_claim demo_portal_env now' ''abcdef12'' b' ip'' agent'' p2) \<noteq> Reply k r'"
    using desktop_claims_once [OF inv o1 _ _ rtranclp.rtrancl_refl, of demo_submitted 3 demo_desktop None None 200 r p2] r(1)
    unfolding i by (simp_all, metis)
  note c = this(1) this(2) [rule_format, of 4 demo_desktop None None 200 r]
  show ?thesis using r c by auto
qed

section \<open>A way around the claim\<close>

text \<open>The claim is meant to be the only way the desktop gets its cookie.  The stream of events is another: once a session
  was consumed, whoever names it in a request to \<open>/session/:id/events\<close>, with no cookie at all, is set a cookie that opens the
  account of the user.  Nothing is written: the token of the desktop stays unspent and no audit row tells of it.\<close>

theorem stream_bypasses_claim:
  assumes "session_id_shape i" "dm_tenant p = Some t" "loadPairingRow x i t (portal_db p) = Some (Some row)"
    and "ps_state row = Consumed" "ps_consumed_user_id row = Some u" "loadDemoUser u t (portal_db p) = Some r"
    and "cookie_lib_ok x" "dx_uuid x u = Some u" "\<bar>sk_headers k\<bar> \<le> MAX_DATE_MS"
  shows "\<exists>cookie events. get_session_events x k i quick (portal_db p) slow p =
      (Reply 200 \<lparr> es_set_cookie = Some (buildSetCookieHeader x cookie), es_events = events \<rparr>, p) \<and>
    (\<forall>b. readDemoCookie b = Some cookie \<longrightarrow> (\<exists>me. get_me x b p = (Reply 200 me, None, p) \<and> me_user me = us_id r))"
proof -
  define ck where "ck = \<lparr> ck_user = u, ck_session = ps_id row, ck_started = sk_headers k \<rparr>"
  have "quick_poll x i t d row ps = row" for d ps using assms(4) by (cases ps) (auto split: prod.splits)
  moreover have "\<exists>bi. resolveSuccess x (sk_headers k) t (portal_db p) row = Some (encodeCookie x ck, bi)"
    using assms(4,5) by (simp add: resolveSuccess_def Let_def ck_def)
  moreover have "resolveDemoPortalTenantId x p = (Some t, p)" using assms(2) by (simp add: resolveDemoPortalTenantId_def)
  ultimately have "\<exists>events. get_session_events x k i quick (portal_db p) slow p =
      (Reply 200 \<lparr> es_set_cookie = Some (buildSetCookieHeader x (encodeCookie x ck)), es_events = events \<rparr>, p)"
    using assms(1,3,4) by (auto simp: get_session_events_def Let_def or_else_def)
  moreover have "\<exists>me. get_me x b p = (Reply 200 me, None, p) \<and> me_user me = us_id r" if "readDemoCookie b = Some (encodeCookie x ck)" for b
    by (rule cookie_opens [OF assms(7,2) _ _ _ that]) (simp_all add: ck_def assms(6,8,9))
  ultimately show ?thesis by blast
qed

end
