(* ===== verification/Spec2Isabelle.thy ===== *)
theory Spec2Isabelle
  imports Audit_Log Verifier_Log Enrollment Devices Platform Zkp Pairing Registration Sign_In Sessions
    Ring_Buffer Otp Anchor Accounts Api_Access Console Identity Federated Sensor
    Ceremony_Runs Bridge Mirror Compliance Demo_Portal
begin

text \<open>
  ZeroAuth: a verification development beside the server and the verifier.

  \<^bold>\<open>The program.\<close>  ZeroAuth is a multi-tenant sign-in service.  A developer opens an account and
  creates API keys; through them a tenant enrolls devices, registers users whose biometric
  commitment is stored, and signs users in by a zero-knowledge proof, shown through a desktop and
  phone pairing session or sent by a face-first client.  Everything a tenant does leaves a row in a
  hash chain of audit events, which a daily job anchors and an evidence pack reports on.  A separate
  verifier service checks the proofs and keeps a chain of its own; a bridge beside a fingerprint
  sensor enrolls fingers, signs their owners in and reports to the API; a demonstration bank shows
  the pairing to the public.  The API server keeps its state in Postgres; some parts keep theirs in
  the process.

  \<^bold>\<open>Conventions.\<close>  A table is the list of its rows in the order of insertion and the record
  \<open>server\<close> of \<open>Schema\<close> is the database; an operation takes the state, the clock, the
  drawn random values and the fresh identifiers as arguments and returns its result with the new
  state.  A raise or an early return is a constructor of the component's error type (\<open>Inl\<close>),
  \<open>None\<close>, or, for a route, a \<open>Refuse\<close> with its status and code.  One SQL statement or one
  transaction is atomic; operations interleave as steps of the inductive relations
  (\<open>device_step\<close>, \<open>pairing_step\<close>, \<open>registration_step\<close>, \<open>key_step\<close>,
  \<open>tenant_step\<close>, \<open>webhook_step\<close>, \<open>bridge_step\<close>, \<open>portal_step\<close>).  Strings are lists
  of characters, JSON values are the datatype \<open>json\<close> (with \<open>undefined\<close> as a value), instants are
  milliseconds, bytes of the sensor are 8-bit words and its integers wrap as the code's do.

  \<^bold>\<open>Parameters.\<close>  Code outside the repository is an argument: SHA-256, Keccak, Poseidon, scrypt,
  HMAC, the proof verifier and the prover, the ABI encoder, jsonwebtoken, the URL parser, the
  \<open>Date\<close> constructor, Postgres' reading of a \<open>uuid\<close>, base64, gunzip and UTF-8 decoding, the serial
  port, \<open>fetch\<close>, the rate-limit package, Redis and the mail server.  Few theorems suppose anything
  of them, and then the documented behaviour: scrypt returns the number of bytes asked for
  (\<open>scrypt_ok\<close>); jsonwebtoken, on the calls this code makes, verifies what it signed until the
  expiry and nothing under another key (\<open>jwt_lib_ok\<close>); the prover makes proofs the verifier
  accepts (\<open>prover_complete\<close>); the codecs of a cookie and of a scanned proof invert each other
  (\<open>cookie_lib_ok\<close>).  Every other theorem holds for any function.  Each hypothesis has a
  witness with a concrete instance.

  \<^bold>\<open>Theories.\<close>
  \<^item> \<open>Prelude\<close>, \<open>Text\<close>, \<open>Json\<close>: table statements, JavaScript strings and numbers,
    \<open>JSON.stringify\<close> and the injectivity of the canonical form; the locales
    \<open>keyed_update\<close> (a statement does not rewrite the key) and \<open>row_history\<close> (rows of a
    table evolve and are never lost), interpreted by every component that owns rows.
  \<^item> \<open>Schema\<close>: rows and unique constraints of \<open>services/db.ts\<close> and \<open>types/index.ts\<close>;
    \<open>Config\<close>: \<open>config/index.ts\<close>, the host router, the origin check, the error handler, and the
    answers of a route.
  \<^item> \<open>Hash_Chain\<close>: the locale of a hash chain (an injective text of a row and its
    predecessor's hash), with the theorem that two linked chains with the same head agree or
    show a collision.  \<open>Audit_Log\<close> (\<open>services/audit.ts\<close>,
    \<open>verification-events.ts\<close>) and \<open>Verifier_Log\<close> (\<open>verifier/src/audit-log.ts\<close>,
    \<open>groth16.ts\<close>, \<open>server.ts\<close>) interpret it on their rows.
  \<^item> \<open>Enrollment\<close>, \<open>Devices\<close>, \<open>Platform\<close> (\<open>device-enrollment.ts\<close>,
    \<open>platform.ts\<close>): codes, the life cycle of device rows, users, verifications and attendance,
    isolation of tenants and completeness of the audit, also when an un-awaited audit write is lost
    (\<open>tenant_outcome\<close>).
  \<^item> \<open>Zkp\<close>, \<open>Pairing\<close> (\<open>zkp.ts\<close>, \<open>play-integrity.ts\<close>, \<open>proof-pairing.ts\<close>):
    acceptance of a proof and the pairing session; the ten checks of a submission are stated
    as one condition, and single use holds under any interleaving.
  \<^item> \<open>Registration\<close> (\<open>registration.ts\<close>): the ceremony as a state machine; \<open>Sign_In\<close>
    joins it to the pairing: a registered user passes the sign-in checks.  \<open>Ceremony_Routes\<close> and
    \<open>Ceremony_Runs\<close> (\<open>routes/v1/registrations.ts\<close>, \<open>routes/v1/proof-pairing.ts\<close> and their console
    twins): the handlers over both, and the run of an honest ceremony to its end.
  \<^item> \<open>Sessions\<close> (\<open>session-store.ts\<close>): the two stores as refinements of one abstract map
    (locale \<open>session_backend\<close>), with the hydration of both, and the restart of the Postgres one.
  \<^item> \<open>Tokens\<close>, \<open>Identity\<close>, \<open>Federated\<close> (\<open>jwt.ts\<close>, \<open>jwks.ts\<close>, \<open>identity.ts\<close>,
    \<open>routes/v1/identity.ts\<close>, \<open>saml.ts\<close>, \<open>oidc.ts\<close> and their v1 twins): keys, tokens, the face-first
    identity and the federated sign-ins.
  \<^item> \<open>Accounts\<close>, \<open>Api_Access\<close>, \<open>Console\<close> (\<open>tenants.ts\<close>,
    \<open>pending-signups.ts\<close>, \<open>api-keys.ts\<close>, \<open>usage.ts\<close>, \<open>tenant-auth.ts\<close>,
    \<open>rate-limit.ts\<close>, \<open>routes/console.ts\<close>): accounts, keys, admission, limits and metering.
  \<^item> \<open>Resources\<close>, \<open>Settings\<close>, \<open>Webhooks\<close> (\<open>routes/v1/devices.ts\<close>, \<open>users.ts\<close>,
    \<open>verifications.ts\<close>, \<open>attendance.ts\<close>, \<open>audit.ts\<close>, \<open>console.ts\<close>,
    \<open>console-security-policy.ts\<close>, \<open>console-webhooks.ts\<close>): validation and error mapping of the
    handlers, refined to the steps of \<open>Platform\<close>.
  \<^item> \<open>Anchor\<close>, \<open>Compliance\<close>, \<open>Ring_Buffer\<close> (\<open>tenant-providers.ts\<close>,
    \<open>anchor-job.ts\<close>, \<open>compliance-pack.ts\<close>, \<open>console-compliance.ts\<close>, \<open>log-ring-buffer.ts\<close>).
  \<^item> \<open>Otp\<close>, \<open>Sensor_Codec\<close>, \<open>Sensor\<close>, \<open>Bridge_Client\<close>, \<open>Bridge\<close>, \<open>Mirror\<close>
    (\<open>iot/src/otp.ts\<close>, \<open>sensor.ts\<close>, \<open>central-api.ts\<close>, \<open>crypto.ts\<close>, \<open>proof.ts\<close>, \<open>bridge.ts\<close>):
    the sensor's packets and commands, the bridge as a state machine, and the bridge run against the
    server's own routes.
  \<^item> \<open>Proof_Qr\<close>, \<open>Demo_Portal\<close> (\<open>routes/demo-portal.ts\<close>, \<open>demo-portal-seed.ts\<close>): the
    decoder of a scanned proof and the demonstration bank over pairing and registration.

  \<^bold>\<open>What the lemmas show.\<close>  Per component: the invariant of its rows and that every operation
  keeps it; the exact condition under which an operation succeeds, with the state unchanged (or
  exactly the stated rows added) otherwise; bounds on guesses, windows, open sessions and listings;
  round trips of codecs and tokens; that the honest run arrives (a ceremony completes, an enrolled
  finger is matched in every reachable state of the bridge, a scanned proof signs the desktop in);
  and, where the code departs from its comments, the theorem that shows the behaviour it has.

  \<^bold>\<open>Bounds and fuel.\<close>  The operations are total functions.  The polling loop of a stream runs over the
  list of the rows it would read before its deadline.  The waiting loops of the sensor are partial
  functions that are shown to return when the clock advances by their pause; the receive loop takes
  nine bytes at least per round; the CBOR reader has as fuel the length of its input, which is shown
  to be enough for every input.

  \<^bold>\<open>Not modelled.\<close>  Column lengths and foreign keys; failures of the database other than the unique and
  check constraints and the write and reachability flags named (a handler whose awaited audit write or
  token signing fails after its last check answers 500, which has no counterpart); a serial port that
  never calls back; locale dependent letter case beyond ASCII; latency padding and heartbeats; the
  cookie parser; mail texts, the blockchain client, admin, lead and health routes, the process wiring,
  the contracts, the circuits, the mobile and web clients.
\<close>

end
